(* ===== verification/Prelude.thy ===== *)
theory Prelude
  imports Main "HOL-Library.Char_ord" "HOL-Library.List_Lexorder" "HOL-Library.Product_Lexorder"
    "HOL-Library.Multiset"
begin

text \<open>
  What every component shares: Go errors as values, the request context, the supply of
  clock readings and fresh identifiers, and the generic facts on lists, options and maps
  that the component proofs use. Strings are byte lists (\<open>string\<close>), as in Go; the
  order on them is the byte-wise one Go and SQL (binary collation) use.
\<close>

subsection \<open>Errors\<close>

text \<open>
  A Go \<open>error\<close> is a package-level sentinel, a message built where it is returned, a
  message that wraps another error (\<open>%w\<close>), or a value handed over by a library or a
  driver. Messages are rendered in English; the part that matters to the program is
  which sentinel \<open>errors.Is\<close> finds along the chain.
\<close>

datatype sentinel =
    ErrNotFound | ErrUserNotFound | ErrClientNotFound | ErrInvalidCredentials
  | ErrNilEvent | ErrStoreClosed | ErrBusClosed
  | ErrNodeIDEmpty | ErrNodeTypeEmpty | ErrNodeNameEmpty | ErrNodeStatusEmpty
  | ErrOwnerCommunityEmpty | ErrCreatedAtZero | ErrUpdatedAtZero
  | ErrRelIDEmpty | ErrFromNodeIDEmpty | ErrToNodeIDEmpty
  | ErrNoRows | ErrCanceled | ErrDeadlineExceeded

datatype err =
    Sentinel sentinel
  | Errorf string
  | Wrap string err
  | External string

fun errors_Is :: "err \<Rightarrow> sentinel \<Rightarrow> bool" where
  "errors_Is (Sentinel s) t \<longleftrightarrow> s = t"
| "errors_Is (Errorf m) t \<longleftrightarrow> False"
| "errors_Is (Wrap m e) t \<longleftrightarrow> errors_Is e t"
| "errors_Is (External m) t \<longleftrightarrow> False"

text \<open>The \<open>(value, error)\<close> pair of a fallible function is \<open>err + 'a\<close>.\<close>

type_synonym 'a res = "err + 'a"

definition is_ok :: "'a res \<Rightarrow> bool" where
  "is_ok r \<longleftrightarrow> (case r of Inl _ \<Rightarrow> False | Inr _ \<Rightarrow> True)"

lemma is_ok_simps [simp]: "\<not> is_ok (Inl e)" "is_ok (Inr x)"
  by (simp_all add: is_ok_def)

text \<open>The error result of a procedure: nil or an error.\<close>

type_synonym verdict = "err option"

subsection \<open>Collections of simplification rules\<close>

named_theorems opdefs "definitions of operations that the component proofs unfold"
named_theorems framing "what an operation leaves unchanged"
named_theorems preserves "an operation keeps its component's invariant"

subsection \<open>Context, clock and identifiers\<close>

type_synonym time = int  \<comment> \<open>nanoseconds since the zero value of \<open>time.Time\<close>, UTC\<close>
type_synonym duration = int  \<comment> \<open>nanoseconds\<close>

abbreviation nanosecond :: duration where "nanosecond \<equiv> 1"
abbreviation millisecond :: duration where "millisecond \<equiv> 1000000"
abbreviation second :: duration where "second \<equiv> 1000000000"
abbreviation minute :: duration where "minute \<equiv> 60000000000"
abbreviation hour :: duration where "hour \<equiv> 3600000000000"

text \<open>
  \<open>context.Context\<close>: whether it has been cancelled (\<open>ctx.Err\<close>) and the trace id of the
  OpenTelemetry span it carries, empty when there is none.
\<close>

record ctx =
  ctx_err :: "err option"
  ctx_trace :: string

definition background :: ctx where
  "background = \<lparr>ctx_err = None, ctx_trace = []\<rparr>"

text \<open>
  \<open>time.Now\<close> and \<open>uuid.NewString\<close> read a world outside the program: two supplies and
  the position reached in them. Each call consumes one entry.
\<close>

record world =
  w_clock :: "nat \<Rightarrow> time"
  w_uuid :: "nat \<Rightarrow> string"
  w_pos :: nat

definition now_of :: "world \<Rightarrow> time" where
  "now_of w = w_clock w (w_pos w)"

definition uuid_of :: "world \<Rightarrow> string" where
  "uuid_of w = w_uuid w (w_pos w)"

definition tick :: "world \<Rightarrow> world" where
  "tick w = w\<lparr>w_pos := Suc (w_pos w)\<rparr>"

lemma tick_simps [simp]:
  "w_clock (tick w) = w_clock w" "w_uuid (tick w) = w_uuid w" "w_pos (tick w) = Suc (w_pos w)"
  by (simp_all add: tick_def)

text \<open>What the program relies on: identifiers are non-empty and never repeat, clock
  readings are after the zero instant.\<close>

definition good_world :: "world \<Rightarrow> bool" where
  "good_world w \<longleftrightarrow> inj (w_uuid w) \<and> (\<forall>n. w_uuid w n \<noteq> []) \<and> (\<forall>n. 0 < w_clock w n)"

lemma good_world_tick [simp]: "good_world (tick w) = good_world w"
  by (simp add: good_world_def)

lemma good_world_now: "good_world w \<Longrightarrow> 0 < now_of w"
  by (simp add: good_world_def now_of_def)

lemma good_world_uuid: "good_world w \<Longrightarrow> uuid_of w \<noteq> []"
  by (simp add: good_world_def uuid_of_def)

subsection \<open>Strings\<close>

definition is_space :: "char \<Rightarrow> bool" where
  "is_space c \<longleftrightarrow> of_char c \<in> {9, 10, 11, 12, 13, 32 :: nat}"

text \<open>\<open>strings.TrimSpace\<close> on ASCII text, \<open>strings.Split\<close> at a one-byte separator and
  \<open>strings.HasPrefix\<close>.\<close>

definition trim_space :: "string \<Rightarrow> string" where
  "trim_space s = rev (dropWhile is_space (rev (dropWhile is_space s)))"

fun split_at :: "char \<Rightarrow> string \<Rightarrow> string list" where
  "split_at c [] = [[]]"
| "split_at c (x # xs) =
     (if x = c then [] # split_at c xs
      else (case split_at c xs of [] \<Rightarrow> [[x]] | y # ys \<Rightarrow> (x # y) # ys))"

definition has_prefix :: "string \<Rightarrow> string \<Rightarrow> bool" where
  "has_prefix p s \<longleftrightarrow> take (length p) s = p"

text \<open>The lower case of an ASCII letter.\<close>

definition lower_char :: "char \<Rightarrow> char" where
  "lower_char c = (if of_char c \<in> {65..90 :: nat} then char_of (of_char c + 32 :: nat) else c)"

lemma split_at_nonempty: "split_at c s \<noteq> []"
  by (induction c s rule: split_at.induct) (auto split: list.splits)

lemma split_at_no_sep: "part \<in> set (split_at c s) \<Longrightarrow> c \<notin> set part"
  by (induction c s arbitrary: part rule: split_at.induct) (auto split: if_splits list.splits)

lemma dropWhile_fixed: "dropWhile P xs = xs \<Longrightarrow> xs = [] \<or> \<not> P (hd xs)"
  by (cases xs) (auto, metis dropWhile_eq_Cons_conv)

lemma trim_space_idem: "trim_space (trim_space s) = trim_space s"
proof -
  let ?t = "dropWhile is_space s"
  have front: "dropWhile is_space (trim_space s) = trim_space s"
  proof (cases "trim_space s = []")
    case False
    obtain zs where zs: "?t = trim_space s @ zs"
      unfolding trim_space_def
      by (metis rev_append rev_rev_ident takeWhile_dropWhile_id)
    then have "hd (trim_space s) = hd ?t" using False by (cases "trim_space s") auto
    moreover have "\<not> is_space (hd ?t)"
      using False zs by (metis Nil_is_append_conv hd_dropWhile)
    ultimately show ?thesis using False by (cases "trim_space s") auto
  qed simp
  have "rev (trim_space s) = dropWhile is_space (rev ?t)"
    by (simp add: trim_space_def)
  then have "dropWhile is_space (rev (trim_space s)) = rev (trim_space s)"
    by (metis dropWhile_idem)
  then show ?thesis
    using front by (simp add: trim_space_def [of "trim_space s"])
qed

lemma trim_space_ends:
  "trim_space s \<noteq> [] \<Longrightarrow> \<not> is_space (hd (trim_space s)) \<and> \<not> is_space (last (trim_space s))"
proof -
  assume ne: "trim_space s \<noteq> []"
  have t: "trim_space s = rev (dropWhile is_space (rev (dropWhile is_space (trim_space s))))"
    using trim_space_idem [of s] by (simp add: trim_space_def [of "trim_space s"])
  have "length (dropWhile is_space (trim_space s)) = length (trim_space s)"
    by (metis t length_dropWhile_le length_rev le_antisym)
  then have "dropWhile is_space (trim_space s) = trim_space s"
    by (metis append_self_conv2 length_append add_cancel_left_left length_0_conv
        takeWhile_dropWhile_id)
  moreover have "\<not> is_space (last (trim_space s))"
    using ne hd_dropWhile [of is_space "rev (dropWhile is_space s)"]
    by (simp add: trim_space_def last_rev)
  ultimately show ?thesis using ne dropWhile_fixed by blast
qed

subsection \<open>Lists\<close>

text \<open>
  \<open>sort.Slice\<close> with a key comparison: any permutation sorted by the key. Go does not say
  how ties come out, so an operation that sorts takes the sorting routine as an argument
  and its properties hold for every routine that meets this contract.
\<close>

definition sorts_by :: "('a \<Rightarrow> 'k::linorder) \<Rightarrow> ('a list \<Rightarrow> 'a list) \<Rightarrow> bool" where
  "sorts_by key srt \<longleftrightarrow> (\<forall>xs. mset (srt xs) = mset xs \<and> sorted (map key (srt xs)))"

lemma sorts_by_sort_key: "sorts_by key (sort_key key)"
  by (simp add: sorts_by_def)

lemma sorts_by_set: "sorts_by key srt \<Longrightarrow> set (srt xs) = set xs"
  by (metis sorts_by_def set_mset_mset)

lemma sorts_by_length: "sorts_by key srt \<Longrightarrow> length (srt xs) = length xs"
  by (metis sorts_by_def size_mset)

lemma sorts_by_sorted: "sorts_by key srt \<Longrightarrow> sorted (map key (srt xs))"
  by (simp add: sorts_by_def)

lemma sorted_drop_take: "sorted (map f xs) \<Longrightarrow> sorted (map f (take m (drop n xs)))"
  by (metis sorted_wrt_drop sorted_wrt_take take_map drop_map)

text \<open>A list enumerates the keys of a map: the order a \<open>range\<close> over the map visits them.\<close>

definition enumerates :: "'k list \<Rightarrow> ('k \<rightharpoonup> 'v) \<Rightarrow> bool" where
  "enumerates ks m \<longleftrightarrow> distinct ks \<and> set ks = dom m"

lemma enumerates_in: "enumerates ks m \<Longrightarrow> k \<in> set ks \<longleftrightarrow> (\<exists>v. m k = Some v)"
  by (auto simp: enumerates_def)

lemma enumerates_finite: "enumerates ks m \<Longrightarrow> finite (dom m)"
  by (metis enumerates_def List.finite_set)

lemma enumerates_length: "enumerates ks m \<Longrightarrow> length ks = card (dom m)"
  by (metis enumerates_def distinct_card)

lemma length_filter_partition:
  "length (filter P xs) + length (filter (\<lambda>x. \<not> P x) xs) = length xs"
  by (induction xs) auto

lemma distinct_map_inj: "distinct (map f xs) \<Longrightarrow> x \<in> set xs \<Longrightarrow> y \<in> set xs \<Longrightarrow> f x = f y \<Longrightarrow> x = y"
  by (metis distinct_map inj_onD)

end
