(* ===== verification/GoTime.thy ===== *)
theory GoTime
  imports Prelude "HOL-Library.Monad_Syntax"
begin

text \<open>
  Instants and their RFC 3339 text, the part of Go's \<open>time\<close> package the stores and the
  telemetry parsers use: \<open>t.UTC().Format(time.RFC3339Nano)\<close> and \<open>time.Parse\<close>. An
  instant counts nanoseconds from 0001-01-01T00:00:00 UTC (Go's zero \<open>Time\<close>), the
  calendar is the proleptic Gregorian one.
\<close>

definition IsZero :: "time \<Rightarrow> bool" where
  "IsZero t \<longleftrightarrow> t = 0"

text \<open>\<open>t.Truncate(d)\<close>: down to a multiple of \<open>d\<close> since the zero instant.\<close>

definition Truncate :: "time \<Rightarrow> duration \<Rightarrow> time" where
  "Truncate t d = (if d \<le> 0 then t else t - t mod d)"

lemma Truncate_bounds: "0 < d \<Longrightarrow> Truncate t d \<le> t \<and> t < Truncate t d + d"
  by (simp add: Truncate_def)

lemma Truncate_idem: "Truncate (Truncate t d) d = Truncate t d"
  by (simp add: Truncate_def)

lemma Truncate_dvd: "0 < d \<Longrightarrow> d dvd Truncate t d"
  by (simp add: Truncate_def)

subsection \<open>The calendar\<close>

definition is_leap :: "nat \<Rightarrow> bool" where
  "is_leap y \<longleftrightarrow> y mod 4 = 0 \<and> (y mod 100 \<noteq> 0 \<or> y mod 400 = 0)"

definition year_len :: "nat \<Rightarrow> nat" where
  "year_len y = (if is_leap y then 366 else 365)"

definition month_lens :: "nat \<Rightarrow> nat list" where
  "month_lens y = [31, if is_leap y then 29 else 28, 31, 30, 31, 30, 31, 31, 30, 31, 30, 31]"

text \<open>Days from 0001-01-01 to January 1 of year \<open>y\<close>.\<close>

definition days_before_year :: "nat \<Rightarrow> nat" where
  "days_before_year y = 365 * (y - 1) + (y - 1) div 4 - (y - 1) div 100 + (y - 1) div 400"

lemma year_len_pos: "0 < year_len y"
  by (simp add: year_len_def)

function split_year :: "nat \<Rightarrow> nat \<Rightarrow> nat \<times> nat" where
  "split_year n y = (if n < year_len y then (y, n) else split_year (n - year_len y) (Suc y))"
  by pat_completeness auto
termination
  by (relation "measure fst") (auto simp: year_len_def)

declare split_year.simps [simp del]

text \<open>The year and the day of that year: whole 400-year cycles of 146097 days first.\<close>

definition year_of_days :: "nat \<Rightarrow> nat \<times> nat" where
  "year_of_days n = split_year (n mod 146097) (400 * (n div 146097) + 1)"

fun split_month :: "nat list \<Rightarrow> nat \<Rightarrow> nat \<Rightarrow> nat \<times> nat" where
  "split_month [] n m = (m, n)"
| "split_month (l # ls) n m = (if n < l then (m, n) else split_month ls (n - l) (Suc m))"

text \<open>Year, month (1 to 12) and day (1 to 31) of a day number.\<close>

definition civil_of_days :: "nat \<Rightarrow> nat \<times> nat \<times> nat" where
  "civil_of_days n = (case year_of_days n of (y, d) \<Rightarrow>
     (case split_month (month_lens y) d 1 of (m, k) \<Rightarrow> (y, m, Suc k)))"

definition days_of_civil :: "nat \<Rightarrow> nat \<Rightarrow> nat \<Rightarrow> nat" where
  "days_of_civil y m d = days_before_year y + sum_list (take (m - 1) (month_lens y)) + (d - 1)"

lemma leap_step:
  fixes k a b c :: nat
  assumes "r \<Longrightarrow> q" and "q \<Longrightarrow> p" and "b \<le> a"
  shows "365 * Suc k + (if p then Suc a else a) - (if q then Suc b else b) + (if r then Suc c else c) =
    365 * k + a - b + c + (if p \<and> (\<not> q \<or> r) then 366 else 365)"
  using assms by (cases p; cases q; cases r) auto

lemma days_before_year_Suc:
  assumes "0 < y"
  shows "days_before_year (Suc y) = days_before_year y + year_len y"
proof -
  obtain k where y: "y = Suc k" using assms by (cases y) auto
  have le: "n div 100 \<le> n div 4" for n :: nat by (simp add: div_le_mono2)
  have leap: "y mod 400 = 0 \<Longrightarrow> y mod 100 = 0" "y mod 100 = 0 \<Longrightarrow> y mod 4 = 0"
    using dvd_trans [of 100 400 y] dvd_trans [of 4 100 y] by (simp_all add: mod_eq_0_iff_dvd)
  have dv: "y div m = (if y mod m = 0 then Suc (k div m) else k div m)" for m
    unfolding y by (rule div_Suc)
  have "days_before_year y = 365 * k + k div 4 - k div 100 + k div 400"
    by (simp add: days_before_year_def y)
  moreover have "days_before_year (Suc y) = 365 * Suc k + y div 4 - y div 100 + y div 400"
    by (simp add: days_before_year_def y)
  ultimately show ?thesis
    using leap_step [OF leap le [of k]] by (simp only: dv year_len_def is_leap_def simp_thms)
qed

lemma days_before_year_cycle: "days_before_year (400 * c + 1) = 146097 * c"
proof -
  have "400 * c div 4 = 100 * c" "400 * c div 100 = 4 * c" by simp_all
  then show ?thesis by (simp add: days_before_year_def)
qed

lemma split_year_sound:
  "0 < y \<Longrightarrow> split_year n y = (y', d) \<Longrightarrow>
   y \<le> y' \<and> d < year_len y' \<and> days_before_year y' + d = days_before_year y + n"
proof (induction n y rule: split_year.induct)
  case (1 n y)
  show ?case
  proof (cases "n < year_len y")
    case True
    with "1.prems" show ?thesis by (simp add: split_year.simps [of n y])
  next
    case False
    with "1.prems" have "split_year (n - year_len y) (Suc y) = (y', d)"
      by (simp add: split_year.simps [of n y])
    with "1.IH" False show ?thesis by (auto simp: days_before_year_Suc "1.prems"(1))
  qed
qed

lemma year_of_days_sound:
  assumes "year_of_days n = (y, d)"
  shows "0 < y \<and> d < year_len y \<and> days_before_year y + d = n"
proof -
  from assms have "split_year (n mod 146097) (400 * (n div 146097) + 1) = (y, d)"
    by (simp add: year_of_days_def)
  from split_year_sound [OF _ this] show ?thesis
    by (simp add: days_before_year_cycle [simplified])
qed

lemma split_month_sound:
  "split_month ls n m = (m', k) \<Longrightarrow> n < sum_list ls \<Longrightarrow>
   m \<le> m' \<and> m' < m + length ls \<and> k < ls ! (m' - m) \<and> sum_list (take (m' - m) ls) + k = n"
proof (induction ls n m rule: split_month.induct)
  case (2 l ls n m)
  show ?case
  proof (cases "n < l")
    case False
    with 2 have "Suc m \<le> m' \<and> m' < Suc m + length ls \<and> k < ls ! (m' - Suc m) \<and>
        sum_list (take (m' - Suc m) ls) + k = n - l"
      by simp
    moreover from this have "m' - m = Suc (m' - Suc m)" by (auto simp: Suc_diff_Suc)
    ultimately show ?thesis using False by auto
  qed (use 2 in auto)
qed simp

lemma sum_month_lens: "sum_list (month_lens y) = year_len y"
  by (simp add: month_lens_def year_len_def)

lemma length_month_lens [simp]: "length (month_lens y) = 12"
  by (simp add: month_lens_def)

lemma month_lens_le: "i < 12 \<Longrightarrow> month_lens y ! i \<le> 31"
  by (auto simp: month_lens_def less_Suc_eq nth_Cons' numeral_eq_Suc split: nat.splits)

lemma civil_of_days_sound:
  assumes "civil_of_days n = (y, m, d)"
  shows "0 < y" "1 \<le> m" "m \<le> 12" "1 \<le> d" "d \<le> month_lens y ! (m - 1)"
    and "days_of_civil y m d = n" and "days_before_year y \<le> n"
proof -
  obtain doy where yd: "year_of_days n = (y, doy)" and
    sm: "split_month (month_lens y) doy 1 = (m, d - 1)" and d: "1 \<le> d"
    using assms by (auto simp: civil_of_days_def split: prod.splits)
  note Y = year_of_days_sound [OF yd]
  have "doy < sum_list (month_lens y)" using Y by (simp add: sum_month_lens)
  note M = split_month_sound [OF sm this]
  show "0 < y" using Y by simp
  show "1 \<le> m" "m \<le> 12" using M by auto
  show "1 \<le> d" by (rule d)
  show "d \<le> month_lens y ! (m - 1)" using M d by auto
  show "days_of_civil y m d = n" using M Y by (simp add: days_of_civil_def)
  show "days_before_year y \<le> n" using Y by simp
qed

subsection \<open>Decimal digits\<close>

definition digit :: "nat \<Rightarrow> char" where
  "digit n = char_of (48 + n)"

definition is_digit :: "char \<Rightarrow> bool" where
  "is_digit c \<longleftrightarrow> 48 \<le> (of_char c :: nat) \<and> (of_char c :: nat) \<le> 57"

definition digit_val :: "char \<Rightarrow> nat" where
  "digit_val c = of_char c - 48"

lemma digit_props [simp]: "n < 10 \<Longrightarrow> is_digit (digit n)" "n < 10 \<Longrightarrow> digit_val (digit n) = n"
  by (simp_all add: digit_def is_digit_def digit_val_def)

lemma digit_chars:
  "digit 0 = CHR ''0''" "digit 1 = CHR ''1''" "digit (Suc 0) = CHR ''1''" "digit 2 = CHR ''2''"
  "digit 3 = CHR ''3''" "digit 4 = CHR ''4''" "digit 5 = CHR ''5''" "digit 6 = CHR ''6''"
  "digit 7 = CHR ''7''" "digit 8 = CHR ''8''" "digit 9 = CHR ''9''"
  by (simp_all add: digit_def char_of_def bit_0)

fun digits_w :: "nat \<Rightarrow> nat \<Rightarrow> string" where
  "digits_w 0 n = []"
| "digits_w (Suc w) n = digits_w w (n div 10) @ [digit (n mod 10)]"

fun show_nat :: "nat \<Rightarrow> string" where
  "show_nat n = (if n < 10 then [digit n] else show_nat (n div 10) @ [digit (n mod 10)])"

declare show_nat.simps [simp del]

definition num_of :: "string \<Rightarrow> nat" where
  "num_of s = foldl (\<lambda>a c. 10 * a + digit_val c) 0 s"

lemma length_digits_w [simp]: "length (digits_w w n) = w"
  by (induction w arbitrary: n) auto

lemma digits_w_digits: "c \<in> set (digits_w w n) \<Longrightarrow> is_digit c"
  by (induction w arbitrary: n) auto

lemma num_of_digits_w: "num_of (digits_w w n) = n mod 10 ^ w"
proof (induction w arbitrary: n)
  case (Suc w)
  have "num_of (digits_w (Suc w) n) = 10 * num_of (digits_w w (n div 10)) + n mod 10"
    by (simp add: num_of_def)
  then show ?case by (simp add: Suc mod_mult2_eq)
qed (simp add: num_of_def)

lemma num_of_show_nat: "num_of (show_nat n) = n"
proof (induction n rule: show_nat.induct)
  case (1 n)
  then show ?case by (cases "n < 10") (simp_all add: num_of_def show_nat.simps [of n])
qed

lemma show_nat_digits: "c \<in> set (show_nat n) \<Longrightarrow> is_digit c"
  by (induction n rule: show_nat.induct) (subst (asm) show_nat.simps, auto split: if_splits)

lemma show_nat_nonempty [simp]: "show_nat n \<noteq> []"
  by (subst show_nat.simps) simp

subsection \<open>Formatting\<close>

definition strip_zeros :: "string \<Rightarrow> string" where
  "strip_zeros s = rev (dropWhile (\<lambda>c. c = CHR ''0'') (rev s))"

definition year_text :: "nat \<Rightarrow> string" where
  "year_text y = (if y < 10000 then digits_w 4 y else show_nat y)"

definition frac_text :: "nat \<Rightarrow> string" where
  "frac_text ns = (if ns = 0 then [] else CHR ''.'' # strip_zeros (digits_w 9 ns))"

definition secs_of :: "time \<Rightarrow> nat" where
  "secs_of t = nat (t div second)"

text \<open>\<open>t.UTC().Format(time.RFC3339Nano)\<close>: the fraction without its trailing zeros, absent for
  a whole second. Instants before the zero instant are outside the model.\<close>

definition fmt_time :: "time \<Rightarrow> string" where
  "fmt_time t =
     (let s = secs_of t; sod = s mod 86400 in
      case civil_of_days (s div 86400) of (y, m, d) \<Rightarrow>
        year_text y @ CHR ''-'' # digits_w 2 m @ CHR ''-'' # digits_w 2 d @ CHR ''T'' #
        digits_w 2 (sod div 3600) @ CHR '':'' # digits_w 2 (sod div 60 mod 60) @ CHR '':'' #
        digits_w 2 (sod mod 60) @ frac_text (nat (t mod second)) @ ''Z'')"

subsection \<open>Parsing\<close>

definition take_digits :: "nat \<Rightarrow> string \<Rightarrow> (nat \<times> string) option" where
  "take_digits k s =
     (if length (take k s) = k \<and> list_all is_digit (take k s) then Some (num_of (take k s), drop k s)
      else None)"

fun expect :: "char \<Rightarrow> string \<Rightarrow> string option" where
  "expect c [] = None"
| "expect c (x # xs) = (if x = c then Some xs else None)"

text \<open>The hour may have one digit (Go accepts it when its fast path fails).\<close>

definition take_hour :: "string \<Rightarrow> (nat \<times> string) option" where
  "take_hour s = (case take_digits 2 s of Some r \<Rightarrow> Some r | None \<Rightarrow> take_digits 1 s)"

fun take_frac :: "string \<Rightarrow> nat \<times> string" where
  "take_frac [] = (0, [])"
| "take_frac (c # s) =
     (if (c = CHR ''.'' \<or> c = CHR '','') \<and> takeWhile is_digit s \<noteq> []
      then (num_of (take 9 (takeWhile is_digit s @ replicate 9 CHR ''0'')), dropWhile is_digit s)
      else (0, c # s))"

fun take_zone :: "string \<Rightarrow> (int \<times> string) option" where
  "take_zone [] = None"
| "take_zone (c # s) =
     (if c = CHR ''Z'' then Some (0, s)
      else if c = CHR ''+'' \<or> c = CHR ''-'' then
        do { (h, s1) \<leftarrow> take_digits 2 s;
             s2 \<leftarrow> expect CHR '':'' s1;
             (m, s3) \<leftarrow> take_digits 2 s2;
             if h \<le> 24 \<and> m \<le> 60
             then Some ((if c = CHR ''+'' then 1 else -1) * int (h * 3600 + m * 60), s3) else None }
      else None)"

definition instant_of :: "nat \<Rightarrow> nat \<Rightarrow> nat \<Rightarrow> nat \<Rightarrow> nat \<Rightarrow> int \<Rightarrow> time" where
  "instant_of y m d sod ns off =
     ((int (days_of_civil y m d) - (if y = 0 then 366 else 0)) * 86400 + int sod - off) * second + int ns"

text \<open>\<open>time.Parse(time.RFC3339Nano, s)\<close>; every error is \<open>None\<close>.\<close>

definition parse_time :: "string \<Rightarrow> time option" where
  "parse_time s =
     do { (y, s1) \<leftarrow> take_digits 4 s; s2 \<leftarrow> expect CHR ''-'' s1;
          (m, s3) \<leftarrow> take_digits 2 s2; s4 \<leftarrow> expect CHR ''-'' s3;
          (d, s5) \<leftarrow> take_digits 2 s4; s6 \<leftarrow> expect CHR ''T'' s5;
          (hh, s7) \<leftarrow> take_hour s6; s8 \<leftarrow> expect CHR '':'' s7;
          (mm, s9) \<leftarrow> take_digits 2 s8; s10 \<leftarrow> expect CHR '':'' s9;
          (ss, s11) \<leftarrow> take_digits 2 s10;
          (off, s12) \<leftarrow> take_zone (snd (take_frac s11));
          if 1 \<le> m \<and> m \<le> 12 \<and> 1 \<le> d \<and> d \<le> month_lens y ! (m - 1) \<and>
             hh < 24 \<and> mm < 60 \<and> ss < 60 \<and> s12 = []
          then Some (instant_of y m d (hh * 3600 + mm * 60 + ss) (fst (take_frac s11)) off)
          else None }"

subsection \<open>Formatting and parsing are inverse\<close>

lemma digits_w_unfold:
  "digits_w (numeral k) n = digits_w (pred_numeral k) (n div 10) @ [digit (n mod 10)]"
  using digits_w.simps(2) [of "pred_numeral k" n] by (simp only: numeral_eq_Suc [symmetric])

lemma take_digits_w:
  "n < 10 ^ k \<Longrightarrow> take_digits k (digits_w k n @ s) = Some (n, s)"
  by (auto simp: take_digits_def num_of_digits_w list_all_iff dest: digits_w_digits)

lemma strip_zeros_pad: "\<exists>k. s = strip_zeros s @ replicate k CHR ''0''"
proof -
  let ?z = "takeWhile (\<lambda>c. c = CHR ''0'') (rev s)"
  have "?z = replicate (length ?z) CHR ''0''"
    by (rule replicate_eqI) (auto dest: set_takeWhileD)
  moreover have "s = strip_zeros s @ rev ?z"
    unfolding strip_zeros_def by (metis rev_append rev_rev_ident takeWhile_dropWhile_id)
  ultimately show ?thesis by (metis rev_replicate)
qed

lemma strip_zeros_take:
  assumes "length s = n"
  shows "take n (strip_zeros s @ replicate n CHR ''0'') = s"
proof -
  obtain k where k: "s = strip_zeros s @ replicate k CHR ''0''" using strip_zeros_pad by blast
  then have "n = length (strip_zeros s) + k" using assms by (metis length_append length_replicate)
  then have "take n (strip_zeros s @ replicate n CHR ''0'') = strip_zeros s @ replicate k CHR ''0''"
    by (simp add: min_def)
  then show ?thesis using k by simp
qed

lemma num_of_zeros: "num_of (replicate k CHR ''0'') = 0"
proof -
  have "foldl (\<lambda>a c. 10 * a + digit_val c) 0 (replicate k CHR ''0'') = 0"
    by (induction k) (auto simp: digit_val_def)
  then show ?thesis by (simp add: num_of_def)
qed

lemma take_frac_text:
  assumes "ns < 10 ^ 9"
  shows "take_frac (frac_text ns @ CHR ''Z'' # s) = (ns, CHR ''Z'' # s)"
proof (cases "ns = 0")
  case False
  let ?d = "strip_zeros (digits_w 9 ns)"
  have digs: "\<forall>c\<in>set ?d. is_digit c"
    using digits_w_digits [of _ 9 ns] strip_zeros_pad [of "digits_w 9 ns"]
    by (metis UnCI set_append)
  have "?d \<noteq> []"
  proof
    assume "?d = []"
    then have "num_of (digits_w 9 ns) = 0"
      using strip_zeros_pad [of "digits_w 9 ns"] num_of_zeros by auto
    with False assms show False by (simp add: num_of_digits_w)
  qed
  moreover have "\<not> is_digit CHR ''Z''" by (simp add: is_digit_def)
  moreover from this have "takeWhile is_digit (?d @ CHR ''Z'' # s) = ?d"
    "dropWhile is_digit (?d @ CHR ''Z'' # s) = CHR ''Z'' # s"
    using digs by (simp_all add: takeWhile_append2 dropWhile_append2)
  ultimately show ?thesis
    using False assms strip_zeros_take [of "digits_w 9 ns" 9]
    by (simp add: frac_text_def num_of_digits_w)
qed (simp add: frac_text_def)

text \<open>The first instant of year 10000; Go's JSON refuses times from there on.\<close>

definition year_10000 :: time where
  "year_10000 = 3652059 * 86400 * second"

lemma year_below_10000:
  assumes "days_before_year y \<le> n" and "n < 3652059"
  shows "y < 10000"
proof (rule ccontr)
  assume "\<not> y < 10000"
  then obtain k where y: "y = 10000 + k" by (metis le_add_diff_inverse not_less)
  have le: "(9999 + k) div 100 \<le> 99 + (99 + k) div 100" for k :: nat by linarith
  have "days_before_year (10000 + k) \<ge> 3652059" for k
  proof (induction k)
    case (Suc k)
    then show ?case using days_before_year_Suc [of "10000 + k"] by simp
  qed (simp add: days_before_year_def)
  with y assms show False by (metis leD le_trans)
qed

lemma secs_decompose:
  assumes "0 \<le> t"
  shows "t = int (secs_of t) * second + int (nat (t mod second))"
proof -
  have "t = t div second * second + t mod second" by simp
  moreover have "int (secs_of t) = t div second" using assms
    by (simp add: secs_of_def pos_imp_zdiv_nonneg_iff)
  moreover have "int (nat (t mod second)) = t mod second" by simp
  ultimately show ?thesis by simp
qed

theorem parse_fmt_time:
  assumes "0 \<le> t" and "t < year_10000"
  shows "parse_time (fmt_time t) = Some t"
proof -
  define s where "s = secs_of t"
  define sod where "sod = s mod 86400"
  obtain y m d where ymd: "civil_of_days (s div 86400) = (y, m, d)" by (metis prod_cases3)
  note C = civil_of_days_sound [OF ymd]
  have "s < 3652059 * 86400"
    using assms by (simp add: s_def secs_of_def year_10000_def nat_less_iff)
  then have y: "y < 10000" using year_below_10000 [OF C(7)] by (simp add: div_less_iff_less_mult)
  have "d \<le> 31" using C(2,3,5) month_lens_le [of "m - 1" y] by linarith
  then have md: "m < 10 ^ 2" "d < 10 ^ 2" using C(3) by simp_all
  have sod: "sod < 86400" by (simp add: sod_def)
  then have hms: "sod div 3600 < 24" "sod div 60 mod 60 < 60" "sod mod 60 < 60"
    "sod div 3600 < 10 ^ 2" "sod div 60 mod 60 < 10 ^ 2" "sod mod 60 < 10 ^ 2"
    by (auto simp: div_less_iff_less_mult less_trans [OF mod_less_divisor])
  have parts: "sod div 60 div 60 * 60 + sod div 60 mod 60 = sod div 60"
    "sod div 60 * 60 + sod mod 60 = sod" by simp_all
  have hour_part: "sod div 3600 = sod div 60 div 60" by (simp add: div_mult2_eq [symmetric])
  have recomb: "sod div 3600 * 3600 + sod div 60 mod 60 * 60 + sod mod 60 = sod"
    using parts unfolding hour_part by linarith
  have fr: "nat (t mod second) < 10 ^ 9" by (simp add: nat_less_iff)
  have zone: "take_zone ''Z'' = Some (0, [])" by simp
  have "parse_time (fmt_time t) =
      Some (instant_of y m d sod (nat (t mod second)) 0)"
    unfolding fmt_time_def parse_time_def take_hour_def
    using C y md hms recomb
    by (simp add: s_def [symmetric] sod_def [symmetric] ymd Let_def year_text_def
        take_digits_w take_frac_text [OF fr] zone)
  also have "instant_of y m d sod (nat (t mod second)) 0 = t"
  proof -
    have "int (days_of_civil y m d) * 86400 + int sod = int s"
      using C(6) by (simp add: sod_def zdiv_int zmod_int)
    then show ?thesis
      using C(1) secs_decompose [OF assms(1)] by (simp add: instant_of_def s_def)
  qed
  finally show ?thesis .
qed

lemma fmt_time_inj:
  assumes "0 \<le> s" "s < year_10000" "0 \<le> t" "t < year_10000" "fmt_time s = fmt_time t"
  shows "s = t"
  using assms parse_fmt_time by (metis option.inject)

lemmas fmt_eval = fmt_time_def secs_of_def civil_of_days_def year_of_days_def split_year.simps
  year_len_def is_leap_def month_lens_def year_text_def frac_text_def strip_zeros_def
  digits_w_unfold digit_chars Let_def less_char_def

end
