(* ===== verification/GoJson.thy ===== *)
theory GoJson
  imports Complex_Main GoTime
begin

text \<open>
  The dynamic values (\<open>any\<close>) that payloads and properties hold, and what
  \<open>json.Marshal\<close> followed by \<open>json.Unmarshal\<close> into an \<open>any\<close> makes of one: integers
  become \<open>float64\<close>, times become RFC 3339 strings, structs become maps, and values JSON
  cannot express are errors. A Go map is an association list whose order means nothing.
  A typed nil slice or map is \<open>GNil\<close>: both marshal to \<open>null\<close>.
\<close>

datatype float64 = Fin rat | NaN | Inf bool

datatype goval =
    GNil
  | GBool bool
  | GInt int
  | GFloat float64
  | GStr string
  | GTime time
  | GList "goval list"
  | GMap "(string \<times> goval) list"
  | GStruct "(string \<times> goval) list"

type_synonym gomap = "(string \<times> goval) list"

text \<open>\<open>m[k] = v\<close>.\<close>

definition gomap_put :: "string \<Rightarrow> goval \<Rightarrow> gomap \<Rightarrow> gomap" where
  "gomap_put k v m = filter (\<lambda>kv. fst kv \<noteq> k) m @ [(k, v)]"

text \<open>The nearest \<open>float64\<close> of an integer, ties to even: exact up to \<open>2 ^ 53\<close>.\<close>

definition round_half_even :: "nat \<Rightarrow> nat \<Rightarrow> nat" where
  "round_half_even n u =
     (let q = n div u; r = n mod u in
      if 2 * r < u then q * u
      else if 2 * r > u then Suc q * u
      else if even q then q * u else Suc q * u)"

fun f64_unit :: "nat \<Rightarrow> nat \<Rightarrow> nat" where
  "f64_unit 0 n = 1"
| "f64_unit (Suc k) n = (if n < 2 ^ 53 then 1 else 2 * f64_unit k (n div 2))"

definition f64_of_int :: "int \<Rightarrow> rat" where
  "f64_of_int i =
     (let m = round_half_even (nat \<bar>i\<bar>) (f64_unit 64 (nat \<bar>i\<bar>)) in
      if i < 0 then - of_nat m else of_nat m)"

lemma f64_unit_small: "n < 2 ^ 53 \<Longrightarrow> f64_unit k n = 1"
  by (cases k) simp_all

lemma f64_of_int_exact: "\<bar>i\<bar> < 2 ^ 53 \<Longrightarrow> f64_of_int i = of_int i"
proof -
  assume i: "\<bar>i\<bar> < 2 ^ 53"
  then have "nat \<bar>i\<bar> < 2 ^ 53" by (simp add: nat_less_iff)
  then have "f64_unit 64 (nat \<bar>i\<bar>) = 1" by (rule f64_unit_small)
  then show ?thesis by (auto simp: f64_of_int_def round_half_even_def Let_def)
qed

fun json_norm :: "goval \<Rightarrow> goval res"
  and json_norms :: "goval list \<Rightarrow> goval list res"
  and json_fields :: "gomap \<Rightarrow> gomap res" where
  "json_norm GNil = Inr GNil"
| "json_norm (GBool b) = Inr (GBool b)"
| "json_norm (GInt i) = Inr (GFloat (Fin (f64_of_int i)))"
| "json_norm (GFloat x) =
     (case x of Fin q \<Rightarrow> Inr (GFloat (Fin q)) | _ \<Rightarrow> Inl (External ''json: unsupported value''))"
| "json_norm (GStr s) = Inr (GStr s)"
| "json_norm (GTime t) =
     (if 0 \<le> t \<and> t < year_10000 then Inr (GStr (fmt_time t))
      else Inl (External ''Time.MarshalJSON: year outside of range [0,9999]''))"
| "json_norm (GList vs) = (case json_norms vs of Inl e \<Rightarrow> Inl e | Inr ws \<Rightarrow> Inr (GList ws))"
| "json_norm (GMap kvs) = (case json_fields kvs of Inl e \<Rightarrow> Inl e | Inr ws \<Rightarrow> Inr (GMap ws))"
| "json_norm (GStruct kvs) = (case json_fields kvs of Inl e \<Rightarrow> Inl e | Inr ws \<Rightarrow> Inr (GMap ws))"
| "json_norms [] = Inr []"
| "json_norms (v # vs) =
     (case json_norm v of Inl e \<Rightarrow> Inl e
      | Inr w \<Rightarrow> (case json_norms vs of Inl e \<Rightarrow> Inl e | Inr ws \<Rightarrow> Inr (w # ws)))"
| "json_fields [] = Inr []"
| "json_fields ((k, v) # kvs) =
     (case json_norm v of Inl e \<Rightarrow> Inl e
      | Inr w \<Rightarrow> (case json_fields kvs of Inl e \<Rightarrow> Inl e | Inr ws \<Rightarrow> Inr ((k, w) # ws)))"

text \<open>Encoding and decoding a value that came out of JSON gives the value back.\<close>

lemma json_norm_idem:
  "json_norm v = Inr w \<Longrightarrow> json_norm w = Inr w"
  "json_norms vs = Inr ws \<Longrightarrow> json_norms ws = Inr ws"
  "json_fields kvs = Inr kws \<Longrightarrow> json_fields kws = Inr kws"
  by (induction v and vs and kvs arbitrary: w and ws and kws
      rule: json_norm_json_norms_json_fields.induct)
    (auto split: sum.splits float64.splits if_splits)

lemma json_fields_keys: "json_fields kvs = Inr ws \<Longrightarrow> map fst ws = map fst kvs"
  by (induction kvs arbitrary: ws) (auto split: sum.splits)

lemma json_fields_lookup:
  "json_fields kvs = Inr ws \<Longrightarrow> map_of kvs k = Some v \<Longrightarrow>
   \<exists>w. json_norm v = Inr w \<and> map_of ws k = Some w"
  by (induction kvs arbitrary: ws) (auto split: sum.splits if_splits)

lemma json_fields_none: "json_fields kvs = Inr ws \<Longrightarrow> map_of ws k = None \<longleftrightarrow> map_of kvs k = None"
  by (metis json_fields_keys map_of_eq_None_iff list.set_map)

text \<open>The empty value a schema refuses, and what becomes of it under JSON.\<close>

definition isEmptyValue :: "goval \<Rightarrow> bool" where
  "isEmptyValue v \<longleftrightarrow> v = GNil \<or> v = GStr []"

lemma json_norm_not_empty: "json_norm v = Inr w \<Longrightarrow> \<not> isEmptyValue v \<Longrightarrow> \<not> isEmptyValue w"
proof -
  have "fmt_time t \<noteq> []" for t by (simp add: fmt_time_def Let_def split: prod.splits)
  then show "json_norm v = Inr w \<Longrightarrow> \<not> isEmptyValue v \<Longrightarrow> \<not> isEmptyValue w"
    by (cases v) (auto simp: isEmptyValue_def split: sum.splits float64.splits if_splits)
qed

subsection \<open>Properties stored as JSON text\<close>

text \<open>
  A text column that holds JSON: empty, or the encoding of a value. \<open>{}\<close> is the encoding
  of the empty object.
\<close>

datatype json_text = JEmpty | JText goval

definition marshalProperties :: "gomap option \<Rightarrow> json_text res" where
  "marshalProperties props =
     (case props of
        None \<Rightarrow> Inr (JText (GMap []))
      | Some [] \<Rightarrow> Inr (JText (GMap []))
      | Some kvs \<Rightarrow>
          (case json_fields kvs of
             Inl e \<Rightarrow> Inl (Wrap ''marshal properties'' e)
           | Inr ws \<Rightarrow> Inr (JText (GMap ws))))"

definition unmarshalProperties :: "json_text \<Rightarrow> gomap option res" where
  "unmarshalProperties s =
     (case s of
        JEmpty \<Rightarrow> Inr None
      | JText (GMap []) \<Rightarrow> Inr None
      | JText (GMap kvs) \<Rightarrow> Inr (Some kvs)
      | JText GNil \<Rightarrow> Inr None
      | JText _ \<Rightarrow> Inl (Wrap ''unmarshal properties'' (External ''json: cannot unmarshal'')))"

text \<open>What reading properties back gives: the JSON image, nil for an empty map.\<close>

definition props_norm :: "gomap option \<Rightarrow> gomap option res" where
  "props_norm props =
     (case props of
        None \<Rightarrow> Inr None
      | Some kvs \<Rightarrow> (case json_fields kvs of Inl e \<Rightarrow> Inl e
                     | Inr ws \<Rightarrow> Inr (if ws = [] then None else Some ws)))"

lemma marshal_unmarshalProperties:
  assumes "marshalProperties props = Inr txt"
  shows "\<exists>p. props_norm props = Inr p \<and> unmarshalProperties txt = Inr p"
proof (cases props)
  case (Some kvs)
  show ?thesis
  proof (cases kvs)
    case (Cons kv kvs')
    with assms Some obtain ws where ws: "json_fields kvs = Inr ws" "txt = JText (GMap ws)"
      by (auto simp: marshalProperties_def split: sum.splits)
    have "length ws = length kvs" using json_fields_keys [OF ws(1)] by (metis length_map)
    then obtain w ws' where "ws = w # ws'" using Cons by (cases ws) auto
    then show ?thesis using ws Some by (simp add: props_norm_def unmarshalProperties_def)
  qed (use assms Some in \<open>auto simp: marshalProperties_def unmarshalProperties_def props_norm_def\<close>)
qed (use assms in \<open>auto simp: marshalProperties_def unmarshalProperties_def props_norm_def\<close>)

lemma props_norm_idem: "props_norm props = Inr p \<Longrightarrow> props_norm p = Inr p"
  by (auto simp: props_norm_def json_norm_idem(3) split: option.splits sum.splits if_splits
      dest: json_norm_idem(3))

end
