(* ===== verification/Model.thy ===== *)
theory Model
  imports GoJson
begin

text \<open>
  \<open>pkg/model\<close>: nodes and relationships of the knowledge graph, their type enumerations
  and their validation.
\<close>

subsection \<open>Nodes (\<open>node.go\<close>, \<open>validate.go\<close>)\<close>

type_synonym NodeType = string

abbreviation "NodeTypeSatellite \<equiv> ''Satellite''"
abbreviation "NodeTypeGroundStation \<equiv> ''GroundStation''"
abbreviation "NodeTypeTask \<equiv> ''Task''"
abbreviation "NodeTypeCommunity \<equiv> ''Community''"
abbreviation "NodeTypeMission \<equiv> ''Mission''"
abbreviation "NodeTypeAntenna \<equiv> ''Antenna''"
abbreviation "NodeTypePayload \<equiv> ''Payload''"
abbreviation "NodeTypeTelemetry \<equiv> ''Telemetry''"
abbreviation "NodeTypeCommand \<equiv> ''Command''"
abbreviation "NodeTypeAlarm \<equiv> ''Alarm''"

record Node =
  n_NodeID :: string
  n_NodeType :: NodeType
  n_Name :: string
  n_Status :: string
  n_OwnerCommunityID :: string
  n_CreatedAt :: time
  n_UpdatedAt :: time
  n_ShardKey :: string
  n_FederationID :: string
  n_Properties :: "gomap option"

definition NodeType_Valid :: "NodeType \<Rightarrow> bool" where
  "NodeType_Valid nt \<longleftrightarrow>
     nt \<in> {NodeTypeSatellite, NodeTypeGroundStation, NodeTypeTask, NodeTypeCommunity,
           NodeTypeMission, NodeTypeAntenna, NodeTypePayload, NodeTypeTelemetry,
           NodeTypeCommand, NodeTypeAlarm}"

definition errNodeTypeUnknown :: "NodeType \<Rightarrow> err" where
  "errNodeTypeUnknown nt = Errorf (''unknown nodeType: '' @ nt)"

definition Node_Validate :: "Node \<Rightarrow> verdict" where
  "Node_Validate n =
     (if n_NodeID n = [] then Some (Sentinel ErrNodeIDEmpty)
      else if n_NodeType n = [] then Some (Sentinel ErrNodeTypeEmpty)
      else if \<not> NodeType_Valid (n_NodeType n) then Some (errNodeTypeUnknown (n_NodeType n))
      else if n_Name n = [] then Some (Sentinel ErrNodeNameEmpty)
      else if n_Status n = [] then Some (Sentinel ErrNodeStatusEmpty)
      else if n_OwnerCommunityID n = [] then Some (Sentinel ErrOwnerCommunityEmpty)
      else if IsZero (n_CreatedAt n) then Some (Sentinel ErrCreatedAtZero)
      else if IsZero (n_UpdatedAt n) then Some (Sentinel ErrUpdatedAtZero)
      else None)"

definition valid_node :: "Node \<Rightarrow> bool" where
  "valid_node n \<longleftrightarrow>
     n_NodeID n \<noteq> [] \<and> NodeType_Valid (n_NodeType n) \<and> n_Name n \<noteq> [] \<and> n_Status n \<noteq> [] \<and>
     n_OwnerCommunityID n \<noteq> [] \<and> n_CreatedAt n \<noteq> 0 \<and> n_UpdatedAt n \<noteq> 0"

lemma NodeType_Valid_nonempty: "NodeType_Valid nt \<Longrightarrow> nt \<noteq> []"
  by (auto simp: NodeType_Valid_def)

lemma Node_Validate_iff: "Node_Validate n = None \<longleftrightarrow> valid_node n"
  by (auto simp: Node_Validate_def valid_node_def IsZero_def dest: NodeType_Valid_nonempty)

subsection \<open>Relationships (\<open>relationship.go\<close>)\<close>

type_synonym RelationshipType = string

abbreviation "RelBelongsTo \<equiv> ''belongsTo''"
abbreviation "RelControlledBy \<equiv> ''controlledBy''"
abbreviation "RelOwns \<equiv> ''owns''"
abbreviation "RelProvidesServiceTo \<equiv> ''providesServiceTo''"
abbreviation "RelExecutedBy \<equiv> ''executedBy''"
abbreviation "RelUsesResource \<equiv> ''usesResource''"
abbreviation "RelMemberOf \<equiv> ''memberOf''"
abbreviation "RelContains \<equiv> ''contains''"
abbreviation "RelTargets \<equiv> ''targets''"

record Relationship =
  r_RelID :: string
  r_FromNodeID :: string
  r_ToNodeID :: string
  r_RelType :: RelationshipType
  r_Properties :: "gomap option"
  r_CreatedAt :: time

definition RelType_Valid :: "RelationshipType \<Rightarrow> bool" where
  "RelType_Valid rt \<longleftrightarrow>
     rt \<in> {RelBelongsTo, RelControlledBy, RelOwns, RelProvidesServiceTo, RelExecutedBy,
           RelUsesResource, RelMemberOf, RelContains, RelTargets}"

definition errRelTypeUnknown :: "RelationshipType \<Rightarrow> err" where
  "errRelTypeUnknown rt = Errorf (''unknown relType: '' @ rt)"

definition Relationship_Validate :: "Relationship \<Rightarrow> verdict" where
  "Relationship_Validate r =
     (if r_RelID r = [] then Some (Sentinel ErrRelIDEmpty)
      else if r_FromNodeID r = [] then Some (Sentinel ErrFromNodeIDEmpty)
      else if r_ToNodeID r = [] then Some (Sentinel ErrToNodeIDEmpty)
      else if \<not> RelType_Valid (r_RelType r) then Some (errRelTypeUnknown (r_RelType r))
      else if IsZero (r_CreatedAt r) then Some (Sentinel ErrCreatedAtZero)
      else None)"

lemma RelType_Valid_nonempty: "RelType_Valid rt \<Longrightarrow> rt \<noteq> []"
  by (auto simp: RelType_Valid_def)

lemma Relationship_Validate_iff:
  "Relationship_Validate r = None \<longleftrightarrow>
   r_RelID r \<noteq> [] \<and> r_FromNodeID r \<noteq> [] \<and> r_ToNodeID r \<noteq> [] \<and> RelType_Valid (r_RelType r) \<and>
   r_CreatedAt r \<noteq> 0"
  by (auto simp: Relationship_Validate_def IsZero_def)

subsection \<open>Orbit elements (\<open>satellite.go\<close>)\<close>

record OrbitElements =
  o_NoradID :: string
  o_Inclination :: float64
  o_RAAN :: float64
  o_Eccentricity :: float64
  o_ArgPerigee :: float64
  o_MeanAnomaly :: float64
  o_MeanMotion :: float64
  o_Period :: float64
  o_PerigeeAltitude :: float64
  o_ApogeeAltitude :: float64
  o_SemiMajorAxis :: float64
  o_Epoch :: time

text \<open>The struct as a dynamic value, under its JSON names.\<close>

definition orbit_value :: "OrbitElements \<Rightarrow> goval" where
  "orbit_value o1 = GStruct
     [(''noradId'', GStr (o_NoradID o1)), (''inclination'', GFloat (o_Inclination o1)),
      (''raan'', GFloat (o_RAAN o1)), (''eccentricity'', GFloat (o_Eccentricity o1)),
      (''argPerigee'', GFloat (o_ArgPerigee o1)), (''meanAnomaly'', GFloat (o_MeanAnomaly o1)),
      (''meanMotion'', GFloat (o_MeanMotion o1)), (''period'', GFloat (o_Period o1)),
      (''perigeeAltitude'', GFloat (o_PerigeeAltitude o1)),
      (''apogeeAltitude'', GFloat (o_ApogeeAltitude o1)),
      (''semiMajorAxis'', GFloat (o_SemiMajorAxis o1)), (''epoch'', GTime (o_Epoch o1))]"

end
