(* ===== verification/SqlTables.thy ===== *)
theory SqlTables
  imports GoJson
begin

text \<open>
  The SQL the stores are written in. A table is a list of rows; the statements the code
  executes (\<open>INSERT\<close> under a primary key, \<open>UPDATE\<close> and \<open>DELETE\<close> with a \<open>WHERE\<close>,
  \<open>SELECT ... ORDER BY ... LIMIT ... OFFSET\<close>) are functions on such lists. The driver
  under \<open>database/sql\<close> is outside the program: it may refuse any call, and the refusals
  are a supply in the state, one entry per call, so that every error branch of the code
  is reachable. Also here: the placeholder rewriting of \<open>internal/core/dialect.go\<close>
  (and its copies in \<open>auth\<close> and \<open>usage\<close>), and the contract of a keyed repository.
\<close>

subsection \<open>The driver\<close>

record driver =
  faults :: "err option list"

definition next_fault :: "'a driver_scheme \<Rightarrow> err option" where
  "next_fault d = (case faults d of [] \<Rightarrow> None | f # _ \<Rightarrow> f)"

definition consume :: "'a driver_scheme \<Rightarrow> 'a driver_scheme" where
  "consume d = d\<lparr>faults := tl (faults d)\<rparr>"

lemma calm_driver [simp]: "faults d = [] \<Longrightarrow> next_fault d = None" "faults d = [] \<Longrightarrow> consume d = d"
  by (simp_all add: next_fault_def consume_def)

lemma faults_consume [simp]: "faults (consume d) = tl (faults d)"
  by (simp add: consume_def)

subsection \<open>Statements\<close>

text \<open>\<open>INSERT\<close> into a table with primary key \<open>key\<close>, and the count of affected rows of the others.\<close>

definition sql_insert :: "('r \<Rightarrow> 'k) \<Rightarrow> 'r \<Rightarrow> 'r list \<Rightarrow> 'r list res" where
  "sql_insert key r tbl =
     (if key r \<in> key ` set tbl then Inl (External ''UNIQUE constraint failed'') else Inr (tbl @ [r]))"

definition sql_update :: "('r \<Rightarrow> bool) \<Rightarrow> ('r \<Rightarrow> 'r) \<Rightarrow> 'r list \<Rightarrow> 'r list" where
  "sql_update p f tbl = map (\<lambda>r. if p r then f r else r) tbl"

definition sql_delete :: "('r \<Rightarrow> bool) \<Rightarrow> 'r list \<Rightarrow> 'r list" where
  "sql_delete p tbl = filter (\<lambda>r. \<not> p r) tbl"

definition sql_count :: "('r \<Rightarrow> bool) \<Rightarrow> 'r list \<Rightarrow> nat" where
  "sql_count p tbl = length (filter p tbl)"

text \<open>\<open>LIMIT\<close> below zero is no limit, \<open>OFFSET\<close> below zero is zero.\<close>

definition sql_limit :: "int \<Rightarrow> int \<Rightarrow> 'r list \<Rightarrow> 'r list" where
  "sql_limit limit offset rows =
     (let rest = drop (nat offset) rows in if limit < 0 then rest else take (nat limit) rest)"

lemma sql_insert_Inr: "sql_insert key r tbl = Inr tbl' \<longleftrightarrow> key r \<notin> key ` set tbl \<and> tbl' = tbl @ [r]"
  by (auto simp: sql_insert_def)

lemma sql_insert_distinct:
  "sql_insert key r tbl = Inr tbl' \<Longrightarrow> distinct (map key tbl) \<Longrightarrow> distinct (map key tbl')"
  by (auto simp: sql_insert_Inr)

lemma sql_delete_distinct: "distinct (map key tbl) \<Longrightarrow> distinct (map key (sql_delete p tbl))"
  by (simp add: sql_delete_def distinct_map_filter)

lemma sql_update_keys: "(\<And>r. key (f r) = key r) \<Longrightarrow> map key (sql_update p f tbl) = map key tbl"
  by (auto simp: sql_update_def)

lemma sql_count_zero: "sql_count p tbl = 0 \<longleftrightarrow> (\<forall>r\<in>set tbl. \<not> p r)"
  by (simp add: sql_count_def filter_empty_conv)

lemma set_sql_limit: "set (sql_limit l k rows) \<subseteq> set rows"
  by (auto simp: sql_limit_def Let_def dest: in_set_takeD in_set_dropD)

lemma length_sql_limit: "0 \<le> l \<Longrightarrow> length (sql_limit l k rows) \<le> nat l"
  by (simp add: sql_limit_def)

text \<open>A table as a map from its primary key to its rows, and how the statements change it.\<close>

definition row_of :: "('r \<Rightarrow> 'k) \<Rightarrow> 'r list \<Rightarrow> 'k \<rightharpoonup> 'r" where
  "row_of key tbl k = find (\<lambda>r. key r = k) tbl"

lemma row_of_SomeD: "row_of key tbl k = Some r \<Longrightarrow> r \<in> set tbl \<and> key r = k"
  by (auto simp: row_of_def find_Some_iff in_set_conv_nth)

lemma row_of_None: "row_of key tbl k = None \<longleftrightarrow> k \<notin> key ` set tbl"
  by (auto simp: row_of_def find_None_iff)

lemma row_of_snoc: "key r \<notin> key ` set tbl \<Longrightarrow> row_of key (tbl @ [r]) = (row_of key tbl)(key r \<mapsto> r)"
  by (induction tbl) (auto simp: row_of_def fun_eq_iff)

lemma row_of_insert:
  "sql_insert key r tbl = Inr tbl' \<Longrightarrow> row_of key tbl' = (row_of key tbl)(key r \<mapsto> r)"
  by (simp add: sql_insert_Inr row_of_snoc)

lemma row_of_delete:
  "row_of key (sql_delete (\<lambda>r. key r = k) tbl) = (row_of key tbl)(k := None)"
proof (rule ext)
  fix j
  show "row_of key (sql_delete (\<lambda>r. key r = k) tbl) j = ((row_of key tbl)(k := None)) j"
    by (induction tbl) (auto simp: row_of_def sql_delete_def)
qed

lemma row_of_update:
  assumes "\<And>r. key (f r) = key r"
  shows "row_of key (sql_update (\<lambda>r. key r = k) f tbl) =
    (row_of key tbl)(k := map_option f (row_of key tbl k))"
proof (rule ext)
  fix j
  show "row_of key (sql_update (\<lambda>r. key r = k) f tbl) j =
      ((row_of key tbl)(k := map_option f (row_of key tbl k))) j"
    by (induction tbl) (auto simp: row_of_def sql_update_def assms)
qed

lemma sql_update_absent: "k \<notin> key ` set tbl \<Longrightarrow> sql_update (\<lambda>r. key r = k) f tbl = tbl"
  unfolding sql_update_def by (rule map_idI) auto

text \<open>
  The \<open>rows.Next\<close> loop: the rows are scanned in turn, the first that cannot be scanned ends it.
\<close>

fun scan_rows :: "('r \<Rightarrow> 'a res) \<Rightarrow> 'r list \<Rightarrow> 'a list res" where
  "scan_rows scan [] = Inr []"
| "scan_rows scan (r # rs) =
     (case scan r of Inl e \<Rightarrow> Inl e
      | Inr x \<Rightarrow> (case scan_rows scan rs of Inl e \<Rightarrow> Inl e | Inr xs \<Rightarrow> Inr (x # xs)))"

definition scans :: "('r \<Rightarrow> 'a res) \<Rightarrow> 'r list \<Rightarrow> bool" where
  "scans scan tbl \<longleftrightarrow> (\<forall>r\<in>set tbl. is_ok (scan r))"

definition scanned :: "('r \<Rightarrow> 'a res) \<Rightarrow> 'r \<Rightarrow> 'a" where
  "scanned scan r = (case scan r of Inr x \<Rightarrow> x)"

lemma scans_scanned: "scans scan tbl \<Longrightarrow> r \<in> set tbl \<Longrightarrow> scan r = Inr (scanned scan r)"
  by (auto simp: scans_def scanned_def is_ok_def split: sum.splits)

lemma scanned_eq: "scan r = Inr x \<Longrightarrow> scanned scan r = x"
  by (simp add: scanned_def)

lemma scan_rows_scans: "scans scan rs \<Longrightarrow> scan_rows scan rs = Inr (map (scanned scan) rs)"
  by (induction rs) (auto simp: scans_def scanned_def is_ok_def split: sum.splits)

lemma scans_mono: "scans scan tbl \<Longrightarrow> set rs \<subseteq> set tbl \<Longrightarrow> scans scan rs"
  by (auto simp: scans_def)

lemma scans_snoc [simp]: "scans scan (tbl @ [r]) \<longleftrightarrow> scans scan tbl \<and> is_ok (scan r)"
  by (auto simp: scans_def)

lemma scans_delete: "scans scan tbl \<Longrightarrow> scans scan (sql_delete p tbl)"
  by (auto simp: scans_def sql_delete_def)

lemma scans_update:
  "scans scan tbl \<Longrightarrow> (\<And>r. r \<in> set tbl \<Longrightarrow> p r \<Longrightarrow> is_ok (scan (f r))) \<Longrightarrow> scans scan (sql_update p f tbl)"
  by (auto simp: scans_def sql_update_def)

text \<open>What a reader sees of a table: its rows by key, decoded.\<close>

definition view :: "('r \<Rightarrow> 'k) \<Rightarrow> ('r \<Rightarrow> 'a res) \<Rightarrow> 'r list \<Rightarrow> 'k \<rightharpoonup> 'a" where
  "view key scan tbl k = map_option (scanned scan) (row_of key tbl k)"

lemma view_None: "view key scan tbl k = None \<longleftrightarrow> k \<notin> key ` set tbl"
  by (simp add: view_def row_of_None)

lemma view_SomeD:
  "view key scan tbl k = Some x \<Longrightarrow> \<exists>r\<in>set tbl. row_of key tbl k = Some r \<and> key r = k \<and> x = scanned scan r"
  by (auto simp: view_def dest: row_of_SomeD)

lemma view_insert:
  "key r \<notin> key ` set tbl \<Longrightarrow> scan r = Inr x \<Longrightarrow>
   view key scan (tbl @ [r]) = (view key scan tbl)(key r \<mapsto> x)"
  by (rule ext) (simp add: view_def row_of_snoc scanned_eq)

lemma view_delete:
  "view key scan (sql_delete (\<lambda>r. key r = k) tbl) = (view key scan tbl)(k := None)"
  by (rule ext) (simp add: view_def row_of_delete)

lemma view_update:
  "(\<And>r. key (f r) = key r) \<Longrightarrow> row_of key tbl k = Some r \<Longrightarrow> scan (f r) = Inr x \<Longrightarrow>
   view key scan (sql_update (\<lambda>r. key r = k) f tbl) = (view key scan tbl)(k \<mapsto> x)"
  by (rule ext) (simp add: view_def row_of_update scanned_eq)

lemma sql_count_key: "sql_count (\<lambda>r. key r = k) tbl = 0 \<longleftrightarrow> row_of key tbl k = None"
  by (auto simp: sql_count_zero row_of_None)

subsection \<open>Keyed repositories\<close>

text \<open>
  The contract the node, user and client stores share: a partial map from identifiers to
  values. \<open>readback\<close> is what a stored value reads readback as (properties pass through JSON),
  \<open>merge\<close> what an update leaves (creation data of the old value are kept), \<open>conflict\<close> a
  uniqueness constraint beside the key, \<open>ok\<close> a well-formed store whose driver refuses nothing.
\<close>

datatype ('k, 'v) repo_op = OpCreate 'v | OpUpdate 'v | OpDelete 'k

fun map_op :: "('v \<Rightarrow> 'k) \<Rightarrow> ('v \<Rightarrow> 'v) \<Rightarrow> ('v \<Rightarrow> 'v \<Rightarrow> 'v) \<Rightarrow> (('k \<rightharpoonup> 'v) \<Rightarrow> 'v \<Rightarrow> bool) \<Rightarrow>
    ('k, 'v) repo_op \<Rightarrow> ('k \<rightharpoonup> 'v) \<Rightarrow> bool \<times> ('k \<rightharpoonup> 'v)" where
  "map_op key readback merge conflict (OpCreate v) m =
     (if m (key v) = None \<and> \<not> conflict m v then (True, m(key v \<mapsto> readback v)) else (False, m))"
| "map_op key readback merge conflict (OpUpdate v) m =
     (case m (key v) of
        None \<Rightarrow> (False, m)
      | Some w \<Rightarrow> if conflict m v then (False, m) else (True, m(key v \<mapsto> merge w v)))"
| "map_op key readback merge conflict (OpDelete k) m = (True, m(k := None))"

fun run_map :: "('op \<Rightarrow> 'm \<Rightarrow> bool \<times> 'm) \<Rightarrow> 'op list \<Rightarrow> 'm \<Rightarrow> bool list \<times> 'm" where
  "run_map step [] m = ([], m)"
| "run_map step (p # ps) m =
     (let (b, m1) = step p m; (bs, m2) = run_map step ps m1 in (b # bs, m2))"

fun repo_exec :: "(ctx \<Rightarrow> 'v \<Rightarrow> 's \<Rightarrow> verdict \<times> 's) \<Rightarrow> (ctx \<Rightarrow> 'v \<Rightarrow> 's \<Rightarrow> verdict \<times> 's) \<Rightarrow>
    (ctx \<Rightarrow> 'k \<Rightarrow> 's \<Rightarrow> verdict \<times> 's) \<Rightarrow> ctx \<Rightarrow> ('k, 'v) repo_op \<Rightarrow> 's \<Rightarrow> bool \<times> 's" where
  "repo_exec create update del c (OpCreate v) s = map_prod (\<lambda>e. e = None) id (create c v s)"
| "repo_exec create update del c (OpUpdate v) s = map_prod (\<lambda>e. e = None) id (update c v s)"
| "repo_exec create update del c (OpDelete k) s = map_prod (\<lambda>e. e = None) id (del c k s)"

fun op_admits :: "('v \<Rightarrow> bool) \<Rightarrow> ('k, 'v) repo_op \<Rightarrow> bool" where
  "op_admits P (OpCreate v) = P v"
| "op_admits P (OpUpdate v) = P v"
| "op_admits P (OpDelete k) = True"

locale keyed_repo =
  fixes create :: "ctx \<Rightarrow> 'v \<Rightarrow> 's \<Rightarrow> verdict \<times> 's"
    and get :: "ctx \<Rightarrow> 'k \<Rightarrow> 's \<Rightarrow> 'v res \<times> 's"
    and update :: "ctx \<Rightarrow> 'v \<Rightarrow> 's \<Rightarrow> verdict \<times> 's"
    and del :: "ctx \<Rightarrow> 'k \<Rightarrow> 's \<Rightarrow> verdict \<times> 's"
    and key :: "'v \<Rightarrow> 'k"
    and ok :: "'s \<Rightarrow> bool"
    and contents :: "'s \<Rightarrow> 'k \<rightharpoonup> 'v"
    and readback :: "'v \<Rightarrow> 'v"
    and merge :: "'v \<Rightarrow> 'v \<Rightarrow> 'v"
    and admits :: "'v \<Rightarrow> bool"
    and conflict :: "('k \<rightharpoonup> 'v) \<Rightarrow> 'v \<Rightarrow> bool"
    and missing :: sentinel
  assumes create_ok: "ok s \<Longrightarrow> ctx_err c = None \<Longrightarrow> admits v \<Longrightarrow> contents s (key v) = None \<Longrightarrow>
      \<not> conflict (contents s) v \<Longrightarrow>
      \<exists>s'. create c v s = (None, s') \<and> ok s' \<and> contents s' = (contents s)(key v \<mapsto> readback v)"
    and create_refused: "ok s \<Longrightarrow> ctx_err c = None \<Longrightarrow> admits v \<Longrightarrow>
      contents s (key v) \<noteq> None \<or> conflict (contents s) v \<Longrightarrow> \<exists>e. create c v s = (Some e, s)"
    and get_found: "ok s \<Longrightarrow> ctx_err c = None \<Longrightarrow> contents s k = Some v \<Longrightarrow> get c k s = (Inr v, s)"
    and get_missing: "ok s \<Longrightarrow> ctx_err c = None \<Longrightarrow> contents s k = None \<Longrightarrow>
      \<exists>e. get c k s = (Inl e, s) \<and> errors_Is e missing"
    and update_ok: "ok s \<Longrightarrow> ctx_err c = None \<Longrightarrow> admits v \<Longrightarrow> contents s (key v) = Some w \<Longrightarrow>
      \<not> conflict (contents s) v \<Longrightarrow>
      \<exists>s'. update c v s = (None, s') \<and> ok s' \<and> contents s' = (contents s)(key v \<mapsto> merge w v)"
    and update_refused: "ok s \<Longrightarrow> ctx_err c = None \<Longrightarrow> admits v \<Longrightarrow> contents s (key v) \<noteq> None \<Longrightarrow>
      conflict (contents s) v \<Longrightarrow> \<exists>e. update c v s = (Some e, s)"
    and update_missing: "ok s \<Longrightarrow> ctx_err c = None \<Longrightarrow> admits v \<Longrightarrow> contents s (key v) = None \<Longrightarrow>
      \<exists>e. update c v s = (Some e, s) \<and> errors_Is e missing"
    and del_ok: "ok s \<Longrightarrow> ctx_err c = None \<Longrightarrow>
      \<exists>s'. del c k s = (None, s') \<and> ok s' \<and> contents s' = (contents s)(k := None)"
begin

text \<open>One operation, and a run of them, as seen through the contents.\<close>

lemma exec_refines:
  assumes "ok s" "ctx_err c = None" "op_admits admits p"
  shows "\<exists>s'. repo_exec create update del c p s =
      (fst (map_op key readback merge conflict p (contents s)), s') \<and> ok s' \<and>
      contents s' = snd (map_op key readback merge conflict p (contents s))"
proof (cases p)
  case (OpCreate v)
  then show ?thesis
    using assms create_ok [of s c v] create_refused [of s c v]
    by (cases "contents s (key v) = None \<and> \<not> conflict (contents s) v") auto
next
  case (OpUpdate v)
  show ?thesis
  proof (cases "contents s (key v)")
    case None
    then show ?thesis using assms OpUpdate update_missing [of s c v] by auto
  next
    case (Some w)
    then show ?thesis
      using assms OpUpdate update_ok [of s c v w] update_refused [of s c v]
      by (cases "conflict (contents s) v") auto
  qed
next
  case (OpDelete k)
  then show ?thesis using assms del_ok [of s c k] by auto
qed

lemma run_refines:
  assumes "ok s" "ctx_err c = None" "\<forall>p\<in>set ps. op_admits admits p"
  shows "\<exists>s'. run_map (repo_exec create update del c) ps s =
      (fst (run_map (map_op key readback merge conflict) ps (contents s)), s') \<and> ok s' \<and>
      contents s' = snd (run_map (map_op key readback merge conflict) ps (contents s))"
  using assms
proof (induction ps arbitrary: s)
  case (Cons p ps)
  obtain s1 where s1: "repo_exec create update del c p s =
        (fst (map_op key readback merge conflict p (contents s)), s1)" "ok s1"
      "contents s1 = snd (map_op key readback merge conflict p (contents s))"
    using exec_refines [of s c p] Cons.prems by auto
  obtain s2 where "run_map (repo_exec create update del c) ps s1 =
        (fst (run_map (map_op key readback merge conflict) ps (contents s1)), s2)" "ok s2"
      "contents s2 = snd (run_map (map_op key readback merge conflict) ps (contents s1))"
    using Cons.IH [OF s1(2)] Cons.prems by auto
  then show ?case using s1 by (auto simp: Let_def split: prod.splits)
qed simp

lemma create_get:
  assumes "ok s" "ctx_err c = None" "admits v" "create c v s = (None, s')"
  shows "get c (key v) s' = (Inr (readback v), s')"
proof -
  have "contents s (key v) = None \<and> \<not> conflict (contents s) v"
    using create_refused [OF assms(1-3)] assms(4)
    by (metis Pair_inject option.distinct(1))
  then show ?thesis using create_ok [OF assms(1-3)] assms(4) get_found [OF _ assms(2)] by fastforce
qed

lemma del_get:
  assumes "ok s" "ctx_err c = None" "del c k s = (None, s')"
  shows "\<exists>e. get c k s' = (Inl e, s') \<and> errors_Is e missing"
  using del_ok [OF assms(1,2), of k] assms(3) get_missing [OF _ assms(2)] by fastforce

lemma get_result:
  assumes "ok s" "ctx_err c = None"
  shows "get c k s = (Inr v, s') \<longleftrightarrow> s' = s \<and> contents s k = Some v"
  using get_found [OF assms, of k] get_missing [OF assms, of k] by (cases "contents s k") auto

end

subsection \<open>Placeholders (\<open>dialect.go\<close>)\<close>

definition rebindIdentity :: "string \<Rightarrow> string" where
  "rebindIdentity sql = sql"

text \<open>\<open>writeInt\<close>: digits filled into the buffer from its end; the argument is what is in it.\<close>

fun write_digits :: "nat \<Rightarrow> string \<Rightarrow> string" where
  "write_digits v buf = (if v = 0 then buf else write_digits (v div 10) (digit (v mod 10) # buf))"

declare write_digits.simps [simp del]

definition writeInt :: "nat \<Rightarrow> string" where
  "writeInt v = (if v = 0 then ''0'' else write_digits v [])"

fun rebind_loop :: "(nat \<Rightarrow> string) \<Rightarrow> nat \<Rightarrow> string \<Rightarrow> string" where
  "rebind_loop wr n [] = []"
| "rebind_loop wr n (c # cs) =
     (if c = CHR ''?'' then CHR ''$'' # wr (Suc n) @ rebind_loop wr (Suc n) cs
      else c # rebind_loop wr n cs)"

definition rebindPostgres :: "string \<Rightarrow> string" where
  "rebindPostgres sql = (if CHR ''?'' \<notin> set sql then sql else rebind_loop writeInt 0 sql)"

text \<open>The copies in \<open>internal/auth/store.go\<close> (\<open>strconv.Itoa\<close>) and
  \<open>internal/usage/store_sql.go\<close> (\<open>%d\<close>).\<close>

definition auth_rebindPostgres :: "string \<Rightarrow> string" where
  "auth_rebindPostgres sql = (if CHR ''?'' \<notin> set sql then sql else rebind_loop show_nat 0 sql)"

definition usage_rebindPostgres :: "string \<Rightarrow> string" where
  "usage_rebindPostgres sql = (if CHR ''?'' \<notin> set sql then sql else rebind_loop show_nat 0 sql)"

lemma write_digits_show: "0 < v \<Longrightarrow> write_digits v buf = show_nat v @ buf"
proof (induction v buf rule: write_digits.induct)
  case (1 v buf)
  show ?case
  proof (cases "v < 10")
    case True
    with 1 show ?thesis
      by (simp add: write_digits.simps [of v] write_digits.simps [of 0] show_nat.simps [of v])
  next
    case False
    with 1 have "write_digits (v div 10) (digit (v mod 10) # buf) =
        show_nat (v div 10) @ digit (v mod 10) # buf" by simp
    with False 1 show ?thesis
      by (simp add: write_digits.simps [of v] show_nat.simps [of v])
  qed
qed

lemma writeInt_show: "writeInt v = show_nat v"
  by (simp add: writeInt_def write_digits_show show_nat.simps [of 0] digit_chars)

text \<open>The buffer of 20 bytes holds every 64-bit value.\<close>

lemma length_show_nat: "n < 10 ^ k \<Longrightarrow> 0 < k \<Longrightarrow> length (show_nat n) \<le> k"
proof (induction n arbitrary: k rule: show_nat.induct)
  case (1 n)
  show ?case
  proof (cases "n < 10")
    case True
    then show ?thesis using "1.prems" by (simp add: show_nat.simps [of n])
  next
    case False
    obtain j where k: "k = Suc j" using "1.prems" by (cases k) auto
    have "0 < j" using False "1.prems" k by (cases j) auto
    moreover have "n div 10 < 10 ^ j" using "1.prems" k by (simp add: less_mult_imp_div_less)
    ultimately show ?thesis using "1.IH" [OF False] False k by (simp add: show_nat.simps [of n])
  qed
qed

lemma writeInt_fits: "v < 2 ^ 63 \<Longrightarrow> length (writeInt v) \<le> 19"
  using length_show_nat [of v 19] by (simp add: writeInt_show)

lemma rebind_loop_id: "CHR ''?'' \<notin> set s \<Longrightarrow> rebind_loop wr n s = s"
  by (induction wr n s rule: rebind_loop.induct) auto

lemma rebindPostgres_loop: "rebindPostgres s = rebind_loop writeInt 0 s"
  by (simp add: rebindPostgres_def rebind_loop_id)

text \<open>No placeholder is left, and the pieces between placeholders are joined by \<open>$1\<close>, \<open>$2\<close>, ...\<close>

lemma rebind_loop_no_question:
  "(\<And>n. CHR ''?'' \<notin> set (wr n)) \<Longrightarrow> CHR ''?'' \<notin> set (rebind_loop wr n s)"
  by (induction wr n s rule: rebind_loop.induct) auto

fun join_numbered :: "nat \<Rightarrow> string list \<Rightarrow> string" where
  "join_numbered n [] = []"
| "join_numbered n [p] = p"
| "join_numbered n (p # ps) = p @ CHR ''$'' # show_nat (Suc n) @ join_numbered (Suc n) ps"

lemma join_numbered_Cons:
  "ps \<noteq> [] \<Longrightarrow> join_numbered n (p # ps) = p @ CHR ''$'' # show_nat (Suc n) @ join_numbered (Suc n) ps"
  by (cases ps) auto

lemma rebind_loop_join: "rebind_loop show_nat n s = join_numbered n (split_at CHR ''?'' s)"
proof (induction s arbitrary: n)
  case (Cons c cs)
  obtain p ps where sp: "split_at CHR ''?'' cs = p # ps"
    using split_at_nonempty by (metis list.exhaust)
  show ?case
  proof (cases "c = CHR ''?''")
    case True
    then show ?thesis using Cons [of "Suc n"] sp by simp
  next
    case False
    then show ?thesis using Cons [of n] sp by (cases ps) auto
  qed
qed simp

lemma show_nat_no_question: "CHR ''?'' \<notin> set (show_nat n)"
  using show_nat_digits [of "CHR ''?''" n] by (auto simp: is_digit_def)

end
