(* ===== verification/NodeRepo.thy ===== *)
theory NodeRepo
  imports Model SqlTables
begin

text \<open>
  \<open>internal/core/node_repo_sqlite.go\<close>: the \<open>nodes\<close> table. Times are kept as RFC3339Nano
  text and properties as JSON text. The operations are those of the interface
  \<open>NodeRepository\<close> (\<open>repository.go\<close>); they are shown to be a keyed repository, so that a run
  of them is a run of a partial map from node ids to nodes.
\<close>

subsection \<open>State\<close>

record node_row =
  nr_node_id :: string
  nr_node_type :: string
  nr_name :: string
  nr_status :: string
  nr_owner_community_id :: string
  nr_created_at :: string
  nr_updated_at :: string
  nr_shard_key :: string
  nr_federation_id :: string
  nr_properties :: json_text

record nodedb = driver +
  nodes :: "node_row list"

definition node_row_of :: "Node \<Rightarrow> json_text \<Rightarrow> node_row" where
  "node_row_of n props =
     \<lparr>nr_node_id = n_NodeID n, nr_node_type = n_NodeType n, nr_name = n_Name n,
      nr_status = n_Status n, nr_owner_community_id = n_OwnerCommunityID n,
      nr_created_at = fmt_time (n_CreatedAt n), nr_updated_at = fmt_time (n_UpdatedAt n),
      nr_shard_key = n_ShardKey n, nr_federation_id = n_FederationID n, nr_properties = props\<rparr>"

definition scanNode :: "node_row \<Rightarrow> Node res" where
  "scanNode r =
     (case parse_time (nr_created_at r) of
        None \<Rightarrow> Inl (Wrap ''parse createdAt'' (External ''time: cannot parse''))
      | Some createdAt \<Rightarrow>
        (case parse_time (nr_updated_at r) of
           None \<Rightarrow> Inl (Wrap ''parse updatedAt'' (External ''time: cannot parse''))
         | Some updatedAt \<Rightarrow>
           (case unmarshalProperties (nr_properties r) of
              Inl e \<Rightarrow> Inl e
            | Inr props \<Rightarrow> Inr
                \<lparr>n_NodeID = nr_node_id r, n_NodeType = nr_node_type r, n_Name = nr_name r,
                 n_Status = nr_status r, n_OwnerCommunityID = nr_owner_community_id r,
                 n_CreatedAt = createdAt, n_UpdatedAt = updatedAt,
                 n_ShardKey = nr_shard_key r, n_FederationID = nr_federation_id r,
                 n_Properties = props\<rparr>)))"

subsection \<open>Operations\<close>

definition node_missing :: "string \<Rightarrow> err" where
  "node_missing nodeID = Wrap (''nodeId='' @ nodeID) (Sentinel ErrNotFound)"

definition NodeRepo_Create :: "ctx \<Rightarrow> Node option \<Rightarrow> 'a nodedb_scheme \<Rightarrow> verdict \<times> 'a nodedb_scheme" where
  "NodeRepo_Create c node db =
     (case node of
        None \<Rightarrow> (Some (Errorf ''node is nil''), db)
      | Some n \<Rightarrow>
        (case ctx_err c of
           Some e \<Rightarrow> (Some e, db)
         | None \<Rightarrow>
           (case marshalProperties (n_Properties n) of
              Inl e \<Rightarrow> (Some e, db)
            | Inr props \<Rightarrow>
              (case next_fault db of
                 Some e \<Rightarrow> (Some (Wrap ''insert node'' e), consume db)
               | None \<Rightarrow>
                 (case sql_insert nr_node_id (node_row_of n props) (nodes db) of
                    Inl e \<Rightarrow> (Some (Wrap ''insert node'' e), consume db)
                  | Inr tbl \<Rightarrow> (None, (consume db)\<lparr>nodes := tbl\<rparr>))))))"

definition NodeRepo_Get :: "ctx \<Rightarrow> string \<Rightarrow> 'a nodedb_scheme \<Rightarrow> Node res \<times> 'a nodedb_scheme" where
  "NodeRepo_Get c nodeID db =
     (case ctx_err c of
        Some e \<Rightarrow> (Inl e, db)
      | None \<Rightarrow>
        (case next_fault db of
           Some e \<Rightarrow> (Inl (Wrap ''query node'' e), consume db)
         | None \<Rightarrow>
           (case row_of nr_node_id (nodes db) nodeID of
              None \<Rightarrow> (Inl (node_missing nodeID), consume db)
            | Some row \<Rightarrow>
              (case scanNode row of
                 Inl e \<Rightarrow> (Inl (Wrap ''query node'' e), consume db)
               | Inr n \<Rightarrow> (Inr n, consume db)))))"

definition set_node_row :: "Node \<Rightarrow> json_text \<Rightarrow> node_row \<Rightarrow> node_row" where
  "set_node_row n props r =
     r\<lparr>nr_node_type := n_NodeType n, nr_name := n_Name n, nr_status := n_Status n,
       nr_owner_community_id := n_OwnerCommunityID n, nr_updated_at := fmt_time (n_UpdatedAt n),
       nr_shard_key := n_ShardKey n, nr_federation_id := n_FederationID n,
       nr_properties := props\<rparr>"

definition NodeRepo_Update :: "ctx \<Rightarrow> Node option \<Rightarrow> 'a nodedb_scheme \<Rightarrow> verdict \<times> 'a nodedb_scheme" where
  "NodeRepo_Update c node db =
     (case node of
        None \<Rightarrow> (Some (Errorf ''node is nil''), db)
      | Some n \<Rightarrow>
        (case ctx_err c of
           Some e \<Rightarrow> (Some e, db)
         | None \<Rightarrow>
           (case marshalProperties (n_Properties n) of
              Inl e \<Rightarrow> (Some e, db)
            | Inr props \<Rightarrow>
              (case next_fault db of
                 Some e \<Rightarrow> (Some (Wrap ''update node'' e), consume db)
               | None \<Rightarrow>
                 (let p = (\<lambda>r. nr_node_id r = n_NodeID n);
                      db' = (consume db)\<lparr>nodes := sql_update p (set_node_row n props) (nodes db)\<rparr>
                  in if sql_count p (nodes db) = 0 then (Some (node_missing (n_NodeID n)), db')
                     else (None, db'))))))"

definition NodeRepo_Delete :: "ctx \<Rightarrow> string \<Rightarrow> 'a nodedb_scheme \<Rightarrow> verdict \<times> 'a nodedb_scheme" where
  "NodeRepo_Delete c nodeID db =
     (case ctx_err c of
        Some e \<Rightarrow> (Some e, db)
      | None \<Rightarrow>
        (case next_fault db of
           Some e \<Rightarrow> (Some (Wrap ''delete node'' e), consume db)
         | None \<Rightarrow>
           (None, (consume db)\<lparr>nodes := sql_delete (\<lambda>r. nr_node_id r = nodeID) (nodes db)\<rparr>)))"

record ListOptions =
  lo_NodeType :: string
  lo_OwnerCommunityID :: string
  lo_Status :: string
  lo_Limit :: int
  lo_Offset :: int

definition defaultListLimit :: int where
  "defaultListLimit = 100"

definition list_where :: "ListOptions \<Rightarrow> node_row \<Rightarrow> bool" where
  "list_where opts r \<longleftrightarrow>
     (lo_NodeType opts \<noteq> [] \<longrightarrow> nr_node_type r = lo_NodeType opts) \<and>
     (lo_OwnerCommunityID opts \<noteq> [] \<longrightarrow> nr_owner_community_id r = lo_OwnerCommunityID opts) \<and>
     (lo_Status opts \<noteq> [] \<longrightarrow> nr_status r = lo_Status opts)"

definition list_select :: "ListOptions \<Rightarrow> node_row list \<Rightarrow> node_row list" where
  "list_select opts tbl =
     sql_limit (if lo_Limit opts \<le> 0 then defaultListLimit else lo_Limit opts) (lo_Offset opts)
       (sort_key (\<lambda>r. (nr_created_at r, nr_node_id r)) (filter (list_where opts) tbl))"

text \<open>The query, the rows, and \<open>rows.Err\<close> after them.\<close>

definition NodeRepo_List :: "ctx \<Rightarrow> ListOptions \<Rightarrow> 'a nodedb_scheme \<Rightarrow> Node list res \<times> 'a nodedb_scheme" where
  "NodeRepo_List c opts db =
     (case ctx_err c of
        Some e \<Rightarrow> (Inl e, db)
      | None \<Rightarrow>
        (case next_fault db of
           Some e \<Rightarrow> (Inl (Wrap ''list nodes'' e), consume db)
         | None \<Rightarrow>
           (case scan_rows scanNode (list_select opts (nodes db)) of
              Inl e \<Rightarrow> (Inl (Wrap ''scan node row'' e), consume db)
            | Inr ns \<Rightarrow>
              (case next_fault (consume db) of
                 Some e \<Rightarrow> (Inl (Wrap ''iterate nodes'' e), consume (consume db))
               | None \<Rightarrow> (Inr ns, consume (consume db))))))"

subsection \<open>What a stored node reads back as\<close>

text \<open>A node the table can hold: its times are in the years RFC 3339 writes, its properties
  are representable in JSON.\<close>

definition node_times_ok :: "Node \<Rightarrow> bool" where
  "node_times_ok n \<longleftrightarrow> 0 \<le> n_CreatedAt n \<and> n_CreatedAt n < year_10000 \<and>
     0 \<le> n_UpdatedAt n \<and> n_UpdatedAt n < year_10000"

definition storable_node :: "Node \<Rightarrow> bool" where
  "storable_node n \<longleftrightarrow> node_times_ok n \<and> is_ok (marshalProperties (n_Properties n))"

definition stored_props :: "gomap option \<Rightarrow> gomap option" where
  "stored_props p = (case props_norm p of Inl _ \<Rightarrow> None | Inr q \<Rightarrow> q)"

definition stored_node :: "Node \<Rightarrow> Node" where
  "stored_node n = n\<lparr>n_Properties := stored_props (n_Properties n)\<rparr>"

definition merged_node :: "Node \<Rightarrow> Node \<Rightarrow> Node" where
  "merged_node old n = (stored_node n)\<lparr>n_CreatedAt := n_CreatedAt old\<rparr>"

definition well_db :: "'a nodedb_scheme \<Rightarrow> bool" where
  "well_db db \<longleftrightarrow> distinct (map nr_node_id (nodes db)) \<and> scans scanNode (nodes db)"

definition calm_db :: "'a nodedb_scheme \<Rightarrow> bool" where
  "calm_db db \<longleftrightarrow> faults db = [] \<and> well_db db"

definition node_view :: "'a nodedb_scheme \<Rightarrow> string \<rightharpoonup> Node" where
  "node_view db = view nr_node_id scanNode (nodes db)"

lemma unmarshal_stored:
  "marshalProperties p = Inr t \<Longrightarrow> unmarshalProperties t = Inr (stored_props p)"
  using marshal_unmarshalProperties [of p t] by (auto simp: stored_props_def)

lemma nr_node_id_of [simp]:
  "nr_node_id (node_row_of n t) = n_NodeID n" "nr_node_id (set_node_row n t r) = nr_node_id r"
  by (simp_all add: node_row_of_def set_node_row_def)

lemma scanNode_row_of:
  "node_times_ok n \<Longrightarrow> marshalProperties (n_Properties n) = Inr t \<Longrightarrow>
   scanNode (node_row_of n t) = Inr (stored_node n)"
  by (simp add: scanNode_def node_row_of_def node_times_ok_def parse_fmt_time unmarshal_stored
      stored_node_def)

lemma scanNode_set_row:
  "0 \<le> n_UpdatedAt n \<Longrightarrow> n_UpdatedAt n < year_10000 \<Longrightarrow>
   marshalProperties (n_Properties n) = Inr t \<Longrightarrow> scanNode r = Inr old \<Longrightarrow>
   n_NodeID n = nr_node_id r \<Longrightarrow> scanNode (set_node_row n t r) = Inr (merged_node old n)"
  by (auto simp: scanNode_def set_node_row_def parse_fmt_time unmarshal_stored
      stored_node_def merged_node_def split: option.splits sum.splits)

lemma scanNode_id: "scanNode r = Inr n \<Longrightarrow> n_NodeID n = nr_node_id r"
  by (auto simp: scanNode_def split: option.splits sum.splits)

lemma storable_marshal: "storable_node n \<Longrightarrow> \<exists>t. marshalProperties (n_Properties n) = Inr t"
  by (auto simp: storable_node_def is_ok_def split: sum.splits)

text \<open>Every operation keeps the table well formed, whatever the driver refuses.\<close>

lemma well_db_consume [simp]: "well_db (consume db) = well_db db"
  by (simp add: well_db_def consume_def)

lemma nodes_consume [simp]: "nodes (consume db) = nodes db"
  by (simp add: consume_def)

lemma is_ok_iff: "is_ok r \<longleftrightarrow> (\<exists>x. r = Inr x)"
  by (cases r) auto

lemma well_db_insert:
  "well_db db \<Longrightarrow> node_times_ok n \<Longrightarrow> marshalProperties (n_Properties n) = Inr t \<Longrightarrow>
   sql_insert nr_node_id (node_row_of n t) (nodes db) = Inr tbl \<Longrightarrow> well_db (db\<lparr>nodes := tbl\<rparr>)"
  by (auto simp: well_db_def sql_insert_Inr scanNode_row_of)

lemma well_db_update:
  assumes "well_db db" "0 \<le> n_UpdatedAt n" "n_UpdatedAt n < year_10000"
    "marshalProperties (n_Properties n) = Inr t"
  shows "well_db (db\<lparr>nodes := sql_update (\<lambda>r. nr_node_id r = n_NodeID n) (set_node_row n t) (nodes db)\<rparr>)"
proof -
  have "scans scanNode (sql_update (\<lambda>r. nr_node_id r = n_NodeID n) (set_node_row n t) (nodes db))"
  proof (rule scans_update)
    show "scans scanNode (nodes db)" using assms by (simp add: well_db_def)
    fix r assume r: "r \<in> set (nodes db)" "nr_node_id r = n_NodeID n"
    then obtain old where "scanNode r = Inr old"
      using assms(1) by (auto simp: well_db_def scans_def is_ok_iff)
    then show "is_ok (scanNode (set_node_row n t r))"
      using scanNode_set_row [OF assms(2-4)] r by simp
  qed
  then show ?thesis using assms by (simp add: well_db_def sql_update_keys)
qed

lemma well_db_delete:
  "well_db db \<Longrightarrow> well_db (db\<lparr>nodes := sql_delete p (nodes db)\<rparr>)"
  by (simp add: well_db_def sql_delete_distinct scans_delete)

lemma NodeRepo_Create_well [preserves]:
  "well_db db \<Longrightarrow> (\<And>n. node = Some n \<Longrightarrow> node_times_ok n) \<Longrightarrow>
   well_db (snd (NodeRepo_Create c node db))"
  by (auto simp: NodeRepo_Create_def well_db_insert split: option.splits sum.splits)

lemma NodeRepo_Update_well [preserves]:
  "well_db db \<Longrightarrow> (\<And>n. node = Some n \<Longrightarrow> 0 \<le> n_UpdatedAt n \<and> n_UpdatedAt n < year_10000) \<Longrightarrow>
   well_db (snd (NodeRepo_Update c node db))"
  by (auto simp: NodeRepo_Update_def well_db_update Let_def split: option.splits sum.splits)
    (metis nodes_consume well_db_consume well_db_update)+

lemma NodeRepo_Delete_well [preserves]: "well_db db \<Longrightarrow> well_db (snd (NodeRepo_Delete c k db))"
  by (auto simp: NodeRepo_Delete_def split: option.splits)
    (metis nodes_consume well_db_consume well_db_delete)+

lemma NodeRepo_Get_nodes [framing]: "nodes (snd (NodeRepo_Get c k db)) = nodes db"
  by (auto simp: NodeRepo_Get_def split: option.splits sum.splits)

lemma NodeRepo_List_nodes [framing]: "nodes (snd (NodeRepo_List c opts db)) = nodes db"
  by (auto simp: NodeRepo_List_def split: option.splits sum.splits)

subsection \<open>The node table is a keyed repository\<close>

lemma node_view_Some:
  assumes "well_db db" "node_view db k = Some n"
  obtains r where "r \<in> set (nodes db)" "row_of nr_node_id (nodes db) k = Some r"
    "nr_node_id r = k" "scanNode r = Inr n"
  using assms view_SomeD [of nr_node_id scanNode "nodes db" k n]
  by (auto simp: node_view_def well_db_def scans_scanned)

lemma calm_db_simps: "calm_db db \<Longrightarrow> next_fault db = None" "calm_db db \<Longrightarrow> consume db = db"
  by (simp_all add: calm_db_def)

lemma calm_dbI: "calm_db db \<Longrightarrow> well_db (db\<lparr>nodes := tbl\<rparr>) \<Longrightarrow> calm_db (db\<lparr>nodes := tbl\<rparr>)"
  by (simp add: calm_db_def)

text \<open>The laws of the contract, one by one, for a driver that refuses nothing.\<close>

lemma node_view_new: "node_view db k = None \<longleftrightarrow> k \<notin> nr_node_id ` set (nodes db)"
  by (simp add: node_view_def view_None)

lemma NodeRepo_Create_new:
  assumes s: "calm_db s" and c: "ctx_err c = None" and v: "storable_node v"
    and new: "node_view s (n_NodeID v) = None"
  shows "\<exists>s'. NodeRepo_Create c (Some v) s = (None, s') \<and> calm_db s' \<and>
    node_view s' = (node_view s)(n_NodeID v \<mapsto> stored_node v)"
proof -
  obtain t where t: "marshalProperties (n_Properties v) = Inr t" using storable_marshal [OF v] by blast
  have ins: "sql_insert nr_node_id (node_row_of v t) (nodes s) = Inr (nodes s @ [node_row_of v t])"
    using new by (simp add: sql_insert_Inr node_view_new)
  have "well_db s" using s by (simp add: calm_db_def)
  have v': "node_times_ok v" using v by (simp add: storable_node_def)
  from well_db_insert [OF \<open>well_db s\<close> v' t ins] show ?thesis
    using c t ins new calm_db_simps [OF s] scanNode_row_of [OF v' t]
      view_insert [of nr_node_id "node_row_of v t" "nodes s" scanNode "stored_node v"]
    by (auto simp: NodeRepo_Create_def node_view_def view_None intro: calm_dbI [OF s])
qed

lemma NodeRepo_Create_dup:
  assumes "calm_db s" "ctx_err c = None" "storable_node v" "node_view s (n_NodeID v) \<noteq> None"
  shows "\<exists>e. NodeRepo_Create c (Some v) s = (Some e, s)"
  using assms storable_marshal [of v] calm_db_simps [of s]
  by (auto simp: NodeRepo_Create_def sql_insert_def node_view_new simp del: not_None_eq)

lemma NodeRepo_Get_found:
  assumes "calm_db s" "ctx_err c = None" "node_view s k = Some v"
  shows "NodeRepo_Get c k s = (Inr v, s)"
  using assms calm_db_simps [of s]
  by (auto simp: NodeRepo_Get_def calm_db_def elim: node_view_Some)

lemma NodeRepo_Get_missing:
  assumes "calm_db s" "ctx_err c = None" "node_view s k = None"
  shows "NodeRepo_Get c k s = (Inl (node_missing k), s)"
  using assms calm_db_simps [of s] by (simp add: NodeRepo_Get_def node_view_def view_def)

lemma NodeRepo_Update_found:
  assumes s: "calm_db s" and c: "ctx_err c = None" and v: "storable_node v"
    and old: "node_view s (n_NodeID v) = Some w"
  shows "\<exists>s'. NodeRepo_Update c (Some v) s = (None, s') \<and> calm_db s' \<and>
    node_view s' = (node_view s)(n_NodeID v \<mapsto> merged_node w v)"
proof -
  obtain t where t: "marshalProperties (n_Properties v) = Inr t" using storable_marshal [OF v] by blast
  have well: "well_db s" using s by (simp add: calm_db_def)
  obtain r where r: "r \<in> set (nodes s)" "row_of nr_node_id (nodes s) (n_NodeID v) = Some r"
    "nr_node_id r = n_NodeID v" "scanNode r = Inr w" using node_view_Some [OF well old] by blast
  then have n: "sql_count (\<lambda>r. nr_node_id r = n_NodeID v) (nodes s) \<noteq> 0"
    by (simp add: sql_count_key)
  have v': "0 \<le> n_UpdatedAt v" "n_UpdatedAt v < year_10000"
    using v by (simp_all add: storable_node_def node_times_ok_def)
  show ?thesis
    using c t n view_update [of nr_node_id "set_node_row v t" "nodes s" "n_NodeID v" r scanNode]
      scanNode_set_row [OF v' t r(4)] r well_db_update [OF well v' t] calm_db_simps [OF s]
    by (auto simp: NodeRepo_Update_def Let_def node_view_def intro: calm_dbI [OF s])
qed

lemma NodeRepo_Update_missing:
  assumes "calm_db s" "ctx_err c = None" "storable_node v" "node_view s (n_NodeID v) = None"
  shows "NodeRepo_Update c (Some v) s = (Some (node_missing (n_NodeID v)), s)"
proof -
  have new: "n_NodeID v \<notin> nr_node_id ` set (nodes s)" using assms(4) by (simp add: node_view_new)
  then have "sql_update (\<lambda>r. nr_node_id r = n_NodeID v) f (nodes s) = nodes s" for f
    by (rule sql_update_absent)
  moreover have "sql_count (\<lambda>r. nr_node_id r = n_NodeID v) (nodes s) = 0"
    using new unfolding sql_count_zero by (metis imageI)
  ultimately show ?thesis
    using assms storable_marshal [of v] calm_db_simps [of s] by (auto simp: NodeRepo_Update_def Let_def)
qed

lemma NodeRepo_Delete_ok:
  assumes s: "calm_db s" and c: "ctx_err c = None"
  shows "\<exists>s'. NodeRepo_Delete c k s = (None, s') \<and> calm_db s' \<and> node_view s' = (node_view s)(k := None)"
  using c well_db_delete [of s] s calm_db_simps [OF s]
  by (auto simp: NodeRepo_Delete_def node_view_def view_delete calm_db_def)

abbreviation no_conflict :: "('k \<rightharpoonup> 'v) \<Rightarrow> 'v \<Rightarrow> bool" where
  "no_conflict m v \<equiv> False"

interpretation node_store: keyed_repo
  "\<lambda>c n. NodeRepo_Create c (Some n)" NodeRepo_Get "\<lambda>c n. NodeRepo_Update c (Some n)" NodeRepo_Delete
  n_NodeID calm_db node_view stored_node merged_node storable_node no_conflict ErrNotFound
  by unfold_locales
    (auto simp: NodeRepo_Get_found NodeRepo_Get_missing NodeRepo_Update_missing node_missing_def
      intro: NodeRepo_Create_new NodeRepo_Create_dup NodeRepo_Update_found NodeRepo_Delete_ok
      simp del: not_None_eq)

subsection \<open>Listing\<close>

definition list_matches :: "ListOptions \<Rightarrow> Node \<Rightarrow> bool" where
  "list_matches opts n \<longleftrightarrow>
     (lo_NodeType opts = [] \<or> n_NodeType n = lo_NodeType opts) \<and>
     (lo_OwnerCommunityID opts = [] \<or> n_OwnerCommunityID n = lo_OwnerCommunityID opts) \<and>
     (lo_Status opts = [] \<or> n_Status n = lo_Status opts)"

lemma list_where_scan: "scanNode r = Inr n \<Longrightarrow> list_where opts r \<longleftrightarrow> list_matches opts n"
  by (auto simp: list_where_def list_matches_def scanNode_def split: option.splits sum.splits)

lemma set_list_select: "set (list_select opts tbl) \<subseteq> set tbl"
  using set_sql_limit by (fastforce simp: list_select_def)

lemma NodeRepo_List_calm:
  "calm_db db \<Longrightarrow> ctx_err c = None \<Longrightarrow>
   NodeRepo_List c opts db = (Inr (map (scanned scanNode) (list_select opts (nodes db))), db)"
  using scans_mono [OF _ set_list_select, of scanNode "nodes db" opts] calm_db_simps [of db]
  by (simp add: NodeRepo_List_def scan_rows_scans calm_db_def well_db_def)

text \<open>All nodes a query matches, in its order, and the pages cut from them.\<close>

definition list_all_nodes :: "ListOptions \<Rightarrow> 'a nodedb_scheme \<Rightarrow> Node list" where
  "list_all_nodes opts db = map (scanned scanNode)
     (sort_key (\<lambda>r. (nr_created_at r, nr_node_id r)) (filter (list_where opts) (nodes db)))"

lemma list_page:
  assumes "calm_db db" "ctx_err c = None" "0 < l"
  shows "NodeRepo_List c (opts\<lparr>lo_Limit := int l, lo_Offset := int k\<rparr>) db =
    (Inr (take l (drop k (list_all_nodes opts db))), db)"
  using assms
  by (simp add: NodeRepo_List_calm list_select_def sql_limit_def list_all_nodes_def take_map drop_map
      list_where_def cong: filter_cong)

lemma node_view_row:
  "well_db db \<Longrightarrow> r \<in> set (nodes db) \<Longrightarrow> node_view db (nr_node_id r) = Some (scanned scanNode r)"
proof -
  assume a: "well_db db" "r \<in> set (nodes db)"
  have "row_of nr_node_id (nodes db) (nr_node_id r) \<noteq> None"
    using a by (auto simp: row_of_None simp del: not_None_eq)
  then obtain q where q: "row_of nr_node_id (nodes db) (nr_node_id r) = Some q" by blast
  then have "q = r" using a row_of_SomeD [OF q] distinct_map_inj
    by (metis well_db_def)
  then show ?thesis using q by (simp add: node_view_def view_def)
qed

lemma list_all_nodes_ids:
  assumes "well_db db"
  shows "map n_NodeID (list_all_nodes opts db) =
    map nr_node_id (sort_key (\<lambda>r. (nr_created_at r, nr_node_id r)) (filter (list_where opts) (nodes db)))"
proof -
  have "n_NodeID (scanned scanNode r) = nr_node_id r" if "r \<in> set (nodes db)" for r
    using assms that by (metis scanNode_id scans_scanned well_db_def)
  then show ?thesis by (simp add: list_all_nodes_def)
qed

lemma list_all_nodes_distinct:
  assumes "well_db db"
  shows "distinct (map n_NodeID (list_all_nodes opts db))"
proof -
  let ?k = "\<lambda>r. (nr_created_at r, nr_node_id r)"
  have "distinct (map nr_node_id (filter (list_where opts) (nodes db)))"
    using assms by (simp add: well_db_def distinct_map_filter)
  then have "distinct (map nr_node_id (sort_key ?k (filter (list_where opts) (nodes db))))"
    by (simp add: distinct_map)
  then show ?thesis using list_all_nodes_ids [OF assms] by simp
qed

lemma list_all_nodes_set:
  assumes "well_db db"
  shows "set (list_all_nodes opts db) = {n. node_view db (n_NodeID n) = Some n \<and> list_matches opts n}"
proof (intro set_eqI iffI CollectI conjI)
  fix n assume "n \<in> set (list_all_nodes opts db)"
  then obtain r where r: "r \<in> set (nodes db)" "list_where opts r" "n = scanned scanNode r"
    by (auto simp: list_all_nodes_def)
  have sc: "scanNode r = Inr n" using assms r scans_scanned by (metis well_db_def)
  show "node_view db (n_NodeID n) = Some n"
    using node_view_row [OF assms r(1)] r(3) scanNode_id [OF sc] by simp
  show "list_matches opts n" using list_where_scan [OF sc] r by simp
next
  fix n assume "n \<in> {n. node_view db (n_NodeID n) = Some n \<and> list_matches opts n}"
  then have a: "node_view db (n_NodeID n) = Some n" "list_matches opts n" by auto
  obtain r where "r \<in> set (nodes db)" "scanNode r = Inr n" using node_view_Some [OF assms a(1)] by blast
  then show "n \<in> set (list_all_nodes opts db)"
    using a(2) list_where_scan by (force simp: list_all_nodes_def scanned_eq)
qed

subsection \<open>Properties\<close>

definition sat1 :: Node where
  "sat1 = \<lparr>n_NodeID = ''sat-1'', n_NodeType = NodeTypeSatellite, n_Name = ''one'', n_Status = ''active'',
     n_OwnerCommunityID = ''c1'', n_CreatedAt = 63918460800000000000,
     n_UpdatedAt = 63918460800000000000, n_ShardKey = [], n_FederationID = [],
     n_Properties = Some [(''mass'', GInt 7)]\<rparr>"

definition empty_nodedb :: nodedb where
  "empty_nodedb = \<lparr>faults = [], nodes = []\<rparr>"

lemma storable_sat1: "storable_node sat1" "storable_node (sat1\<lparr>n_Status := s\<rparr>)"
  by (simp_all add: storable_node_def node_times_ok_def sat1_def marshalProperties_def year_10000_def)

lemma calm_empty: "calm_db empty_nodedb" "node_view empty_nodedb = Map.empty"
  by (auto simp: calm_db_def well_db_def scans_def empty_nodedb_def node_view_def view_def row_of_def)

text \<open>C20: Whatever sequence of creates, updates and deletes a node table with a healthy
  driver is given, each call succeeds exactly when the same call on a partial map from node
  ids to nodes does (no duplicate create, no update of a missing node), and what the table
  then shows to \<open>Get\<close> is that map: an update keeps \<open>CreatedAt\<close> and properties read
  back as their JSON image.\<close>

theorem node_runs_refine_map:
  assumes "calm_db db" "ctx_err c = None" "\<forall>p\<in>set ps. op_admits storable_node p"
  shows "\<exists>db'. run_map (repo_exec (\<lambda>c n. NodeRepo_Create c (Some n)) (\<lambda>c n. NodeRepo_Update c (Some n))
        NodeRepo_Delete c) ps db =
      (fst (run_map (map_op n_NodeID stored_node merged_node no_conflict) ps (node_view db)), db') \<and>
    calm_db db' \<and>
    node_view db' = snd (run_map (map_op n_NodeID stored_node merged_node no_conflict) ps (node_view db)) \<and>
    (\<forall>k. fst (NodeRepo_Get c k db') =
       (case node_view db' k of Some n \<Rightarrow> Inr n | None \<Rightarrow> Inl (node_missing k)))"
  using node_store.run_refines [OF assms]
  by (auto simp: NodeRepo_Get_found NodeRepo_Get_missing assms(2) split: option.splits)

lemma node_runs_refine_map_witness:
  "\<exists>db'. run_map (repo_exec (\<lambda>c n. NodeRepo_Create c (Some n)) (\<lambda>c n. NodeRepo_Update c (Some n))
        NodeRepo_Delete background)
      [OpCreate sat1, OpCreate sat1, OpUpdate (sat1\<lparr>n_Status := ''lost''\<rparr>)] empty_nodedb =
      ([True, False, True], db') \<and>
    fst (NodeRepo_Get background ''sat-1'' db') = Inr
      (sat1\<lparr>n_Status := ''lost'', n_Properties := Some [(''mass'', GFloat (Fin 7))]\<rparr>)"
proof -
  let ?ps = "[OpCreate sat1, OpCreate sat1, OpUpdate (sat1\<lparr>n_Status := ''lost''\<rparr>)]"
  let ?n = "sat1\<lparr>n_Status := ''lost'', n_Properties := Some [(''mass'', GFloat (Fin 7))]\<rparr>"
  have "f64_of_int 7 = 7" using f64_of_int_exact [of 7] by simp
  then have run: "run_map (map_op n_NodeID stored_node merged_node no_conflict) ?ps Map.empty =
      ([True, False, True], [''sat-1'' \<mapsto> ?n])"
    by (simp add: sat1_def merged_node_def stored_node_def stored_props_def props_norm_def)
  have "ctx_err background = None" "\<forall>p\<in>set ?ps. op_admits storable_node p"
    by (simp_all add: background_def storable_sat1)
  from node_runs_refine_map [OF calm_empty(1) this] show ?thesis
    unfolding calm_empty(2) run by (elim exE conjE, intro exI conjI) (assumption | simp)+
qed

text \<open>\<open>List\<close> with a limit and an offset cuts the pages of one list, whatever the page
  size: the list holds each stored node that the filters accept, once, and nothing else, so
  that reading page after page reads every matching node exactly once.\<close>

theorem node_list_pages:
  assumes "calm_db db" "ctx_err c = None" "0 < l"
  shows "NodeRepo_List c (opts\<lparr>lo_Limit := int l, lo_Offset := int k\<rparr>) db =
      (Inr (take l (drop k (list_all_nodes opts db))), db) \<and>
    distinct (map n_NodeID (list_all_nodes opts db)) \<and>
    set (list_all_nodes opts db) = {n. node_view db (n_NodeID n) = Some n \<and> list_matches opts n}"
  using list_page [OF assms] list_all_nodes_distinct [of db opts] list_all_nodes_set [of db opts] assms(1)
  by (simp add: calm_db_def)

definition two_nodedb :: nodedb where
  "two_nodedb = \<lparr>faults = [], nodes =
     [node_row_of (sat1\<lparr>n_NodeID := ''sat-2''\<rparr>) (JText (GMap [(''mass'', GFloat (Fin 7))])),
      node_row_of sat1 (JText (GMap [(''mass'', GFloat (Fin 7))]))]\<rparr>"

definition any_options :: ListOptions where
  "any_options = \<lparr>lo_NodeType = [], lo_OwnerCommunityID = [], lo_Status = [], lo_Limit = 0, lo_Offset = 0\<rparr>"

lemma sat1_scan:
  "scanNode (node_row_of sat1 (JText (GMap [(''mass'', GFloat (Fin 7))]))) = Inr (stored_node sat1)"
  "scanNode (node_row_of (sat1\<lparr>n_NodeID := k\<rparr>) (JText (GMap [(''mass'', GFloat (Fin 7))]))) =
    Inr (stored_node (sat1\<lparr>n_NodeID := k\<rparr>))"
  using f64_of_int_exact [of 7]
  by (auto intro!: scanNode_row_of simp: node_times_ok_def sat1_def marshalProperties_def year_10000_def)

lemma node_list_pages_witness:
  "fst (NodeRepo_List background (any_options\<lparr>lo_Limit := int 1, lo_Offset := int 1\<rparr>) two_nodedb) =
     Inr [stored_node (sat1\<lparr>n_NodeID := ''sat-2''\<rparr>)]"
proof -
  have "calm_db two_nodedb"
    by (simp add: calm_db_def well_db_def two_nodedb_def scans_def sat1_scan)
      (simp add: node_row_of_def sat1_def)
  moreover have "list_all_nodes any_options two_nodedb =
      [stored_node sat1, stored_node (sat1\<lparr>n_NodeID := ''sat-2''\<rparr>)]"
    by (simp add: list_all_nodes_def two_nodedb_def any_options_def list_where_def scanned_def sat1_scan)
      (simp add: node_row_of_def sat1_def)
  ultimately show ?thesis
    using node_list_pages [of two_nodedb background 1 1 any_options] by (simp add: background_def)
qed

end
