(* ===== verification/RelRepo.thy ===== *)
theory RelRepo
  imports NodeRepo
begin

text \<open>
  \<open>internal/core/rel_repo_sqlite.go\<close>: the \<open>relationships\<close> table and the breadth-first
  traversal of the graph it holds. The traversal is the code's loop, with its visited and
  collected sets; it is shown to return, once each, exactly the relationships that touch a
  node fewer than \<open>MaxDepth\<close> steps away from the start.
\<close>

subsection \<open>State\<close>

record rel_row =
  rr_rel_id :: string
  rr_from_node_id :: string
  rr_to_node_id :: string
  rr_rel_type :: string
  rr_properties :: json_text
  rr_created_at :: string

record kgdb = nodedb +
  rels :: "rel_row list"

definition rel_row_of :: "Relationship \<Rightarrow> json_text \<Rightarrow> rel_row" where
  "rel_row_of r props =
     \<lparr>rr_rel_id = r_RelID r, rr_from_node_id = r_FromNodeID r, rr_to_node_id = r_ToNodeID r,
      rr_rel_type = r_RelType r, rr_properties = props, rr_created_at = fmt_time (r_CreatedAt r)\<rparr>"

definition scanRelationship :: "rel_row \<Rightarrow> Relationship res" where
  "scanRelationship row =
     (case parse_time (rr_created_at row) of
        None \<Rightarrow> Inl (Wrap ''parse createdAt'' (External ''time: cannot parse''))
      | Some createdAt \<Rightarrow>
        (case unmarshalProperties (rr_properties row) of
           Inl e \<Rightarrow> Inl e
         | Inr props \<Rightarrow> Inr
             \<lparr>r_RelID = rr_rel_id row, r_FromNodeID = rr_from_node_id row,
              r_ToNodeID = rr_to_node_id row, r_RelType = rr_rel_type row,
              r_Properties = props, r_CreatedAt = createdAt\<rparr>))"

subsection \<open>Create and delete\<close>

definition ensureNodeExists :: "string \<Rightarrow> 'a nodedb_scheme \<Rightarrow> verdict \<times> 'a nodedb_scheme" where
  "ensureNodeExists nodeID db =
     (case next_fault db of
        Some e \<Rightarrow> (Some (Wrap ''check node existence'' e), consume db)
      | None \<Rightarrow>
        (if sql_count (\<lambda>r. nr_node_id r = nodeID) (nodes db) = 0
         then (Some (node_missing nodeID), consume db) else (None, consume db)))"

definition RelRepo_Create :: "ctx \<Rightarrow> Relationship option \<Rightarrow> 'a kgdb_scheme \<Rightarrow> verdict \<times> 'a kgdb_scheme" where
  "RelRepo_Create c rel db =
     (case rel of
        None \<Rightarrow> (Some (Errorf ''rel is nil''), db)
      | Some r \<Rightarrow>
        (case ctx_err c of
           Some e \<Rightarrow> (Some e, db)
         | None \<Rightarrow>
           (case ensureNodeExists (r_FromNodeID r) db of
              (Some e, db1) \<Rightarrow> (Some e, db1)
            | (None, db1) \<Rightarrow>
              (case ensureNodeExists (r_ToNodeID r) db1 of
                 (Some e, db2) \<Rightarrow> (Some e, db2)
               | (None, db2) \<Rightarrow>
                 (case marshalProperties (r_Properties r) of
                    Inl e \<Rightarrow> (Some e, db2)
                  | Inr props \<Rightarrow>
                    (case next_fault db2 of
                       Some e \<Rightarrow> (Some (Wrap ''insert relationship'' e), consume db2)
                     | None \<Rightarrow>
                       (case sql_insert rr_rel_id (rel_row_of r props) (rels db2) of
                          Inl e \<Rightarrow> (Some (Wrap ''insert relationship'' e), consume db2)
                        | Inr tbl \<Rightarrow> (None, (consume db2)\<lparr>rels := tbl\<rparr>))))))))"

definition RelRepo_Delete :: "ctx \<Rightarrow> string \<Rightarrow> 'a kgdb_scheme \<Rightarrow> verdict \<times> 'a kgdb_scheme" where
  "RelRepo_Delete c relID db =
     (case ctx_err c of
        Some e \<Rightarrow> (Some e, db)
      | None \<Rightarrow>
        (case next_fault db of
           Some e \<Rightarrow> (Some (Wrap ''delete relationship'' e), consume db)
         | None \<Rightarrow>
           (None, (consume db)\<lparr>rels := sql_delete (\<lambda>r. rr_rel_id r = relID) (rels db)\<rparr>)))"

subsection \<open>Queries\<close>

definition rel_order :: "rel_row \<Rightarrow> string \<times> string" where
  "rel_order r = (rr_created_at r, rr_rel_id r)"

definition select_rels :: "(rel_row \<Rightarrow> bool) \<Rightarrow> 'a kgdb_scheme \<Rightarrow> Relationship list res \<times> 'a kgdb_scheme" where
  "select_rels p db =
     (case next_fault db of
        Some e \<Rightarrow> (Inl (Wrap ''query relationships'' e), consume db)
      | None \<Rightarrow>
        (case scan_rows scanRelationship (sort_key rel_order (filter p (rels db))) of
           Inl e \<Rightarrow> (Inl (Wrap ''scan relationship row'' e), consume db)
         | Inr rs \<Rightarrow>
           (case next_fault (consume db) of
              Some e \<Rightarrow> (Inl (Wrap ''iterate relationships'' e), consume (consume db))
            | None \<Rightarrow> (Inr rs, consume (consume db)))))"

definition type_matches :: "string \<Rightarrow> string \<Rightarrow> bool" where
  "type_matches relType t \<longleftrightarrow> relType = [] \<or> t = relType"

definition listByNode :: "ctx \<Rightarrow> (rel_row \<Rightarrow> string) \<Rightarrow> string \<Rightarrow> string \<Rightarrow> 'a kgdb_scheme \<Rightarrow>
    Relationship list res \<times> 'a kgdb_scheme" where
  "listByNode c dirCol nodeID relType db =
     (case ctx_err c of
        Some e \<Rightarrow> (Inl e, db)
      | None \<Rightarrow> select_rels (\<lambda>r. dirCol r = nodeID \<and> type_matches relType (rr_rel_type r)) db)"

definition ListOutgoing :: "ctx \<Rightarrow> string \<Rightarrow> string \<Rightarrow> 'a kgdb_scheme \<Rightarrow> Relationship list res \<times> 'a kgdb_scheme" where
  "ListOutgoing c = listByNode c rr_from_node_id"

definition ListIncoming :: "ctx \<Rightarrow> string \<Rightarrow> string \<Rightarrow> 'a kgdb_scheme \<Rightarrow> Relationship list res \<times> 'a kgdb_scheme" where
  "ListIncoming c = listByNode c rr_to_node_id"

definition touches :: "string \<Rightarrow> string \<Rightarrow> string \<Rightarrow> string \<Rightarrow> bool" where
  "touches direction nodeID from_id to_id \<longleftrightarrow>
     (if direction = ''in'' then to_id = nodeID
      else if direction = ''both'' then from_id = nodeID \<or> to_id = nodeID
      else from_id = nodeID)"

definition queryForTraversal :: "string \<Rightarrow> string \<Rightarrow> string \<Rightarrow> 'a kgdb_scheme \<Rightarrow>
    Relationship list res \<times> 'a kgdb_scheme" where
  "queryForTraversal nodeID direction relType db =
     select_rels (\<lambda>r. touches direction nodeID (rr_from_node_id r) (rr_to_node_id r) \<and>
       type_matches relType (rr_rel_type r)) db"

subsection \<open>Traversal\<close>

record TraverseOptions =
  to_RelType :: string
  to_Direction :: string
  to_MaxDepth :: int

text \<open>The loop variables: the two sets, what has been collected in order, the next frontier.\<close>

record traversal =
  tr_visited :: "string set"
  tr_collected :: "string set"
  tr_result :: "Relationship list"
  tr_next :: "string list"

definition other_end :: "string \<Rightarrow> Relationship \<Rightarrow> string" where
  "other_end nodeID rel = (if r_FromNodeID rel \<noteq> nodeID then r_FromNodeID rel else r_ToNodeID rel)"

definition visit_rel :: "string \<Rightarrow> Relationship \<Rightarrow> traversal \<Rightarrow> traversal" where
  "visit_rel nodeID rel t =
     (if r_RelID rel \<in> tr_collected t then t
      else
        let t1 = t\<lparr>tr_collected := insert (r_RelID rel) (tr_collected t), tr_result := tr_result t @ [rel]\<rparr>;
            other = other_end nodeID rel
        in if other \<in> tr_visited t1 then t1
           else t1\<lparr>tr_visited := insert other (tr_visited t1), tr_next := tr_next t1 @ [other]\<rparr>)"

fun visit_frontier :: "string \<Rightarrow> string \<Rightarrow> string list \<Rightarrow> traversal \<Rightarrow> 'a kgdb_scheme \<Rightarrow>
    traversal res \<times> 'a kgdb_scheme" where
  "visit_frontier direction relType [] t db = (Inr t, db)"
| "visit_frontier direction relType (nodeID # rest) t db =
     (case queryForTraversal nodeID direction relType db of
        (Inl e, db1) \<Rightarrow> (Inl e, db1)
      | (Inr rs, db1) \<Rightarrow> visit_frontier direction relType rest (fold (visit_rel nodeID) rs t) db1)"

fun traverse_levels :: "nat \<Rightarrow> string \<Rightarrow> string \<Rightarrow> string list \<Rightarrow> traversal \<Rightarrow> 'a kgdb_scheme \<Rightarrow>
    traversal res \<times> 'a kgdb_scheme" where
  "traverse_levels 0 direction relType frontier t db = (Inr t, db)"
| "traverse_levels (Suc depth) direction relType frontier t db =
     (if frontier = [] then (Inr t, db)
      else case visit_frontier direction relType frontier (t\<lparr>tr_next := []\<rparr>) db of
             (Inl e, db1) \<Rightarrow> (Inl e, db1)
           | (Inr t1, db1) \<Rightarrow> traverse_levels depth direction relType (tr_next t1) t1 db1)"

definition Traverse :: "ctx \<Rightarrow> string \<Rightarrow> TraverseOptions \<Rightarrow> 'a kgdb_scheme \<Rightarrow>
    Relationship list res \<times> 'a kgdb_scheme" where
  "Traverse c startNodeID opts db =
     (case ctx_err c of
        Some e \<Rightarrow> (Inl e, db)
      | None \<Rightarrow>
        (let direction = (if to_Direction opts = [] then ''out'' else to_Direction opts);
             maxDepth = (if to_MaxDepth opts \<le> 0 then 1 else to_MaxDepth opts);
             t = \<lparr>tr_visited = {startNodeID}, tr_collected = {}, tr_result = [], tr_next = []\<rparr>
         in case traverse_levels (nat maxDepth) direction (to_RelType opts) [startNodeID] t db of
              (Inl e, db1) \<Rightarrow> (Inl e, db1)
            | (Inr t1, db1) \<Rightarrow> (Inr (tr_result t1), db1)))"

subsection \<open>The table as the queries see it\<close>

definition well_rels :: "'a kgdb_scheme \<Rightarrow> bool" where
  "well_rels db \<longleftrightarrow> distinct (map rr_rel_id (rels db)) \<and> scans scanRelationship (rels db)"

definition calm_kg :: "'a kgdb_scheme \<Rightarrow> bool" where
  "calm_kg db \<longleftrightarrow> calm_db db \<and> well_rels db"

definition all_rels :: "'a kgdb_scheme \<Rightarrow> Relationship set" where
  "all_rels db = scanned scanRelationship ` set (rels db)"

text \<open>The relationships a query for a node returns.\<close>

definition rels_at :: "'a kgdb_scheme \<Rightarrow> string \<Rightarrow> string \<Rightarrow> string \<Rightarrow> Relationship set" where
  "rels_at db direction relType nodeID =
     {r \<in> all_rels db. touches direction nodeID (r_FromNodeID r) (r_ToNodeID r) \<and>
       type_matches relType (r_RelType r)}"

lemma scanRelationship_fields:
  "scanRelationship row = Inr r \<Longrightarrow> r_RelID r = rr_rel_id row \<and> r_FromNodeID r = rr_from_node_id row \<and>
   r_ToNodeID r = rr_to_node_id row \<and> r_RelType r = rr_rel_type row"
  by (auto simp: scanRelationship_def split: option.splits sum.splits)

lemma scanned_rel_fields:
  "well_rels db \<Longrightarrow> row \<in> set (rels db) \<Longrightarrow>
   r_RelID (scanned scanRelationship row) = rr_rel_id row \<and>
   r_FromNodeID (scanned scanRelationship row) = rr_from_node_id row \<and>
   r_ToNodeID (scanned scanRelationship row) = rr_to_node_id row \<and>
   r_RelType (scanned scanRelationship row) = rr_rel_type row"
  by (metis scanRelationship_fields scans_scanned well_rels_def)

lemma all_rels_inj: "well_rels db \<Longrightarrow> inj_on r_RelID (all_rels db)"
  by (auto simp: all_rels_def inj_on_def scanned_rel_fields well_rels_def dest: distinct_map_inj)

lemma calm_kg_simps:
  "calm_kg db \<Longrightarrow> next_fault db = None" "calm_kg db \<Longrightarrow> consume db = db"
  by (simp_all add: calm_kg_def calm_db_simps)

definition picked :: "(rel_row \<Rightarrow> bool) \<Rightarrow> 'a kgdb_scheme \<Rightarrow> Relationship list" where
  "picked p db = map (scanned scanRelationship) (sort_key rel_order (filter p (rels db)))"

lemma select_rels_calm:
  "calm_kg db \<Longrightarrow> select_rels p db = (Inr (picked p db), db)"
  using scans_mono [of scanRelationship "rels db" "sort_key rel_order (filter p (rels db))"]
  by (auto simp: select_rels_def calm_kg_simps scan_rows_scans picked_def calm_kg_def well_rels_def)

lemma queryForTraversal_calm:
  assumes "calm_kg db"
  obtains rs where "queryForTraversal u direction relType db = (Inr rs, db)"
    "set rs = rels_at db direction relType u"
proof -
  have "well_rels db" using assms by (simp add: calm_kg_def)
  note f = scanned_rel_fields [OF this]
  let ?p = "\<lambda>r. touches direction u (rr_from_node_id r) (rr_to_node_id r) \<and> type_matches relType (rr_rel_type r)"
  have "set (picked ?p db) = rels_at db direction relType u"
    using f by (auto simp: picked_def rels_at_def all_rels_def)
  then show thesis
    using that [of "picked ?p db"] by (simp add: queryForTraversal_def select_rels_calm [OF assms])
qed

subsection \<open>Breadth-first order\<close>

text \<open>The nodes at most \<open>n\<close> steps away, and those whose relationships have been read after \<open>n\<close> levels.\<close>

primrec hops :: "(string \<Rightarrow> Relationship set) \<Rightarrow> string \<Rightarrow> nat \<Rightarrow> string set" where
  "hops Q s 0 = {s}"
| "hops Q s (Suc n) = hops Q s n \<union> (\<Union>u\<in>hops Q s n. other_end u ` Q u)"

definition prior :: "(string \<Rightarrow> Relationship set) \<Rightarrow> string \<Rightarrow> nat \<Rightarrow> string set" where
  "prior Q s n = (case n of 0 \<Rightarrow> {} | Suc m \<Rightarrow> hops Q s m)"

lemma prior_subset: "prior Q s n \<subseteq> hops Q s n"
  by (cases n) (auto simp: prior_def)

lemma within_stuck:
  assumes "hops Q s n \<subseteq> prior Q s n"
  shows "prior Q s (n + d) = prior Q s n"
proof -
  obtain m where n: "n = Suc m" using assms by (cases n) (auto simp: prior_def)
  have "hops Q s (m + d) = hops Q s m" for d
    using assms n by (induction d) (auto simp: prior_def)
  then show ?thesis using n by (simp add: prior_def)
qed

text \<open>What holds of the loop variables between two relationships, for queries \<open>Q\<close> over a set
  of relationships \<open>U\<close> with distinct ids.\<close>

definition trav_inv :: "Relationship set \<Rightarrow> traversal \<Rightarrow> bool" where
  "trav_inv U t \<longleftrightarrow>
     tr_collected t = r_RelID ` set (tr_result t) \<and> distinct (map r_RelID (tr_result t)) \<and>
     set (tr_result t) \<subseteq> U \<and>
     (\<forall>r\<in>set (tr_result t). r_FromNodeID r \<in> tr_visited t \<and> r_ToNodeID r \<in> tr_visited t)"

definition grows :: "Relationship set \<Rightarrow> string set \<Rightarrow> traversal \<Rightarrow> traversal \<Rightarrow> bool" where
  "grows R N t t' \<longleftrightarrow>
     set (tr_result t') = set (tr_result t) \<union> R \<and> tr_visited t' = tr_visited t \<union> N \<and>
     set (tr_next t') = set (tr_next t) \<union> (tr_visited t' - tr_visited t)"

lemma grows_refl: "grows {} {} t t"
  by (simp add: grows_def)

lemma grows_trans: "grows R N t t1 \<Longrightarrow> grows R' N' t1 t2 \<Longrightarrow> grows (R \<union> R') (N \<union> N') t t2"
  by (auto simp: grows_def)

lemma visit_rel_grows:
  assumes U: "inj_on r_RelID U" and inv: "trav_inv U t" and r: "r \<in> U" "u \<in> tr_visited t"
    and ends: "r_FromNodeID r = u \<or> r_ToNodeID r = u"
  shows "trav_inv U (visit_rel u r t) \<and> grows {r} {other_end u r} t (visit_rel u r t)"
proof (cases "r_RelID r \<in> tr_collected t")
  case True
  then have "r \<in> set (tr_result t)"
    using U inv r by (auto simp: trav_inv_def dest: inj_onD)
  then show ?thesis using True inv ends
    by (auto simp: visit_rel_def grows_def trav_inv_def other_end_def)
next
  case False
  then show ?thesis using inv r ends
    by (auto simp: visit_rel_def grows_def trav_inv_def other_end_def Let_def)
qed

lemma visit_fold_grows:
  assumes "inj_on r_RelID U" "trav_inv U t" "set rs \<subseteq> U" "u \<in> tr_visited t"
    "\<forall>r\<in>set rs. r_FromNodeID r = u \<or> r_ToNodeID r = u"
  shows "trav_inv U (fold (visit_rel u) rs t) \<and>
    grows (set rs) (other_end u ` set rs) t (fold (visit_rel u) rs t)"
  using assms
proof (induction rs arbitrary: t)
  case (Cons r rs)
  let ?t = "visit_rel u r t"
  have step: "trav_inv U ?t" "grows {r} {other_end u r} t ?t"
    using visit_rel_grows [of U t r u] Cons.prems by auto
  then have "u \<in> tr_visited ?t" using Cons.prems by (auto simp: grows_def)
  then have "trav_inv U (fold (visit_rel u) rs ?t) \<and>
      grows (set rs) (other_end u ` set rs) ?t (fold (visit_rel u) rs ?t)"
    using Cons.IH [of ?t] Cons.prems step by auto
  then show ?case using grows_trans [OF step(2)] by fastforce
qed (simp add: grows_refl)

lemma visit_frontier_grows:
  fixes direction relType
  assumes db: "calm_kg db" and inv: "trav_inv (all_rels db) t" "set fr \<subseteq> tr_visited t"
  defines "Q \<equiv> rels_at db direction relType"
  shows "\<exists>t'. visit_frontier direction relType fr t db = (Inr t', db) \<and> trav_inv (all_rels db) t' \<and>
    grows (\<Union>u\<in>set fr. Q u) (\<Union>u\<in>set fr. other_end u ` Q u) t t'"
  using inv
proof (induction fr arbitrary: t)
  case (Cons u fr)
  obtain rs where rs: "queryForTraversal u direction relType db = (Inr rs, db)" "set rs = Q u"
    using queryForTraversal_calm [OF db] unfolding Q_def by blast
  let ?t = "fold (visit_rel u) rs t"
  have sub: "set rs \<subseteq> all_rels db" "\<forall>r\<in>set rs. r_FromNodeID r = u \<or> r_ToNodeID r = u"
    using rs(2) by (auto simp: Q_def rels_at_def touches_def split: if_splits)
  have "inj_on r_RelID (all_rels db)" using db by (simp add: calm_kg_def all_rels_inj)
  then have step: "trav_inv (all_rels db) ?t" "grows (Q u) (other_end u ` Q u) t ?t"
    using visit_fold_grows [OF _ Cons.prems(1) sub(1) _ sub(2)] Cons.prems(2) rs(2) by auto
  have "set fr \<subseteq> tr_visited ?t" using Cons.prems(2) step(2) by (auto simp: grows_def)
  then obtain t' where "visit_frontier direction relType fr ?t db = (Inr t', db)"
      "trav_inv (all_rels db) t'"
      "grows (\<Union>u\<in>set fr. Q u) (\<Union>u\<in>set fr. other_end u ` Q u) ?t t'"
    using Cons.IH [OF step(1)] by blast
  then show ?case using rs(1) grows_trans [OF step(2)] by fastforce
qed (simp add: grows_refl)

lemma traverse_levels_within:
  fixes direction relType
  assumes db: "calm_kg db"
  defines "Q \<equiv> rels_at db direction relType"
  assumes "trav_inv (all_rels db) t" "tr_visited t = hops Q s n" "set fr = hops Q s n - prior Q s n"
    "set (tr_result t) = (\<Union>u\<in>prior Q s n. Q u)"
  shows "\<exists>t'. traverse_levels d direction relType fr t db = (Inr t', db) \<and> trav_inv (all_rels db) t' \<and>
    set (tr_result t') = (\<Union>u\<in>prior Q s (n + d). Q u)"
  using assms(3-)
proof (induction d arbitrary: t fr n)
  case (Suc d)
  show ?case
  proof (cases "fr = []")
    case True
    then have "hops Q s n \<subseteq> prior Q s n" using Suc.prems by auto
    then show ?thesis using True Suc.prems within_stuck [of Q s n "Suc d"] by simp
  next
    case False
    let ?t = "t\<lparr>tr_next := []\<rparr>"
    have "trav_inv (all_rels db) ?t" "set fr \<subseteq> tr_visited ?t"
      using Suc.prems by (auto simp: trav_inv_def)
    then obtain t1 where t1: "visit_frontier direction relType fr ?t db = (Inr t1, db)"
        "trav_inv (all_rels db) t1"
        "grows (\<Union>u\<in>set fr. Q u) (\<Union>u\<in>set fr. other_end u ` Q u) ?t t1"
      using visit_frontier_grows [OF db, of ?t fr direction relType] unfolding Q_def by blast
    have res: "set (tr_result t1) = (\<Union>u\<in>prior Q s (Suc n). Q u)"
      using t1(3) Suc.prems prior_subset [of Q s n] by (auto simp: grows_def prior_def)
    have "other_end u r \<in> hops Q s n" if "u \<in> prior Q s n" "r \<in> Q u" for u r
      using that Suc.prems by (auto simp: trav_inv_def other_end_def)
    then have vis: "tr_visited t1 = hops Q s (Suc n)"
      using t1(3) Suc.prems by (auto simp: grows_def)
    have "set (tr_next t1) = hops Q s (Suc n) - prior Q s (Suc n)"
      using t1(3) vis Suc.prems(2) by (auto simp: grows_def prior_def)
    from Suc.IH [OF t1(2) vis this res] show ?thesis using False t1(1) by simp
  qed
qed auto

lemma Traverse_calm:
  fixes opts :: TraverseOptions
  assumes "calm_kg db" "ctx_err c = None"
  defines "direction \<equiv> if to_Direction opts = [] then ''out'' else to_Direction opts"
    and "depth \<equiv> nat (if to_MaxDepth opts \<le> 0 then 1 else to_MaxDepth opts)"
  shows "\<exists>rs. Traverse c s opts db = (Inr rs, db) \<and> distinct (map r_RelID rs) \<and>
    set rs = (\<Union>u\<in>hops (rels_at db direction (to_RelType opts)) s (depth - 1).
      rels_at db direction (to_RelType opts) u)"
proof -
  let ?t = "\<lparr>tr_visited = {s}, tr_collected = {}, tr_result = [], tr_next = []\<rparr>"
  have pos: "depth = Suc (depth - 1)" by (simp add: depth_def)
  obtain t' where "traverse_levels depth direction (to_RelType opts) [s] ?t db = (Inr t', db)"
      "trav_inv (all_rels db) t'"
      "set (tr_result t') = (\<Union>u\<in>prior (rels_at db direction (to_RelType opts)) s depth.
        rels_at db direction (to_RelType opts) u)"
    using traverse_levels_within [OF assms(1), of ?t direction "to_RelType opts" s 0 "[s]" depth]
    by (auto simp: trav_inv_def prior_def)
  moreover have "prior Q s depth = hops Q s (depth - 1)" for Q
    using pos by (metis prior_def nat.simps(5))
  ultimately show ?thesis
    using assms(2) by (simp add: Traverse_def Let_def trav_inv_def flip: direction_def depth_def)
qed

subsection \<open>Integrity\<close>

text \<open>Both tables are well formed and every relationship joins two nodes of the table.\<close>

definition refs_ok :: "'a kgdb_scheme \<Rightarrow> bool" where
  "refs_ok db \<longleftrightarrow> (\<forall>r\<in>set (rels db).
     rr_from_node_id r \<in> nr_node_id ` set (nodes db) \<and> rr_to_node_id r \<in> nr_node_id ` set (nodes db))"

definition kg_inv :: "'a kgdb_scheme \<Rightarrow> bool" where
  "kg_inv db \<longleftrightarrow> well_db db \<and> well_rels db \<and> refs_ok db"

lemma rels_consume [simp]: "rels (consume db) = rels db"
  by (simp add: consume_def)

lemma inv_consume [simp]:
  "well_rels (consume db) = well_rels db" "refs_ok (consume db) = refs_ok db"
  "kg_inv (consume db) = kg_inv db"
  by (simp_all add: well_rels_def refs_ok_def kg_inv_def)

definition storable_rel :: "Relationship \<Rightarrow> bool" where
  "storable_rel r \<longleftrightarrow> 0 \<le> r_CreatedAt r \<and> r_CreatedAt r < year_10000"

definition stored_rel :: "Relationship \<Rightarrow> Relationship" where
  "stored_rel r = r\<lparr>r_Properties := stored_props (r_Properties r)\<rparr>"

lemma scan_rel_row_of:
  "storable_rel r \<Longrightarrow> marshalProperties (r_Properties r) = Inr t \<Longrightarrow>
   scanRelationship (rel_row_of r t) = Inr (stored_rel r)"
  by (simp add: scanRelationship_def rel_row_of_def storable_rel_def parse_fmt_time unmarshal_stored
      stored_rel_def)

lemma ensureNodeExists_ok:
  "ensureNodeExists k db = (None, db') \<Longrightarrow> db' = consume db \<and> k \<in> nr_node_id ` set (nodes db)"
  by (auto simp: ensureNodeExists_def sql_count_zero split: option.splits if_splits)

lemma ensureNodeExists_err:
  "ensureNodeExists k db = (Some e, db') \<Longrightarrow> db' = consume db"
  by (auto simp: ensureNodeExists_def split: option.splits if_splits)

lemma RelRepo_Create_ok:
  assumes "RelRepo_Create c (Some r) db = (None, db')"
  obtains t where "marshalProperties (r_Properties r) = Inr t"
    "db' = (consume (consume (consume db)))\<lparr>rels := rels db @ [rel_row_of r t]\<rparr>"
    "r_RelID r \<notin> rr_rel_id ` set (rels db)"
    "r_FromNodeID r \<in> nr_node_id ` set (nodes db)" "r_ToNodeID r \<in> nr_node_id ` set (nodes db)"
proof -
  have "rr_rel_id (rel_row_of r t) = r_RelID r" for t by (simp add: rel_row_of_def)
  then show thesis
    using assms that
    by (auto simp: RelRepo_Create_def sql_insert_Inr split: option.splits sum.splits prod.splits
        dest!: ensureNodeExists_ok)
qed

lemma RelRepo_Create_err:
  "RelRepo_Create c rel db = (Some e, db') \<Longrightarrow> nodes db' = nodes db \<and> rels db' = rels db"
  by (auto simp: RelRepo_Create_def split: option.splits sum.splits prod.splits
      dest!: ensureNodeExists_ok ensureNodeExists_err)

lemma kg_inv_tables:
  "nodes db' = nodes db \<Longrightarrow> rels db' = rels db \<Longrightarrow> kg_inv db' = kg_inv db"
  by (simp add: kg_inv_def well_db_def well_rels_def refs_ok_def)

lemma RelRepo_Create_inv [preserves]:
  assumes "kg_inv db" "\<And>r. rel = Some r \<Longrightarrow> storable_rel r"
  shows "kg_inv (snd (RelRepo_Create c rel db))"
proof (cases "fst (RelRepo_Create c rel db)")
  case None
  then obtain r where r: "rel = Some r" by (auto simp: RelRepo_Create_def split: option.splits)
  then have "RelRepo_Create c (Some r) db = (None, snd (RelRepo_Create c rel db))"
    using None by (metis prod.collapse)
  then obtain t where t: "marshalProperties (r_Properties r) = Inr t"
      "snd (RelRepo_Create c rel db) = (consume (consume (consume db)))\<lparr>rels := rels db @ [rel_row_of r t]\<rparr>"
      "r_RelID r \<notin> rr_rel_id ` set (rels db)"
      "r_FromNodeID r \<in> nr_node_id ` set (nodes db)" "r_ToNodeID r \<in> nr_node_id ` set (nodes db)"
    by (rule RelRepo_Create_ok)
  then show ?thesis
    using assms r scan_rel_row_of [of r t]
    by (simp add: kg_inv_def well_db_def well_rels_def refs_ok_def) (simp add: rel_row_of_def)
next
  case (Some e)
  then have "RelRepo_Create c rel db = (Some e, snd (RelRepo_Create c rel db))"
    by (metis prod.collapse)
  from RelRepo_Create_err [OF this] assms(1) show ?thesis by (metis kg_inv_tables)
qed

lemma RelRepo_Delete_inv [preserves]: "kg_inv db \<Longrightarrow> kg_inv (snd (RelRepo_Delete c k db))"
  by (auto simp: RelRepo_Delete_def kg_inv_def well_db_def well_rels_def refs_ok_def
      sql_delete_distinct scans_delete sql_delete_def[of _ "rels _"]  split: option.splits)
    (auto simp: sql_delete_def scans_def distinct_map_filter)

lemma select_rels_tables [framing]:
  "nodes (snd (select_rels p db)) = nodes db \<and> rels (snd (select_rels p db)) = rels db"
  by (auto simp: select_rels_def split: option.splits sum.splits)

subsection \<open>Properties\<close>

definition link :: "string \<Rightarrow> string \<Rightarrow> string \<Rightarrow> rel_row" where
  "link k a b = \<lparr>rr_rel_id = k, rr_from_node_id = a, rr_to_node_id = b, rr_rel_type = RelBelongsTo,
     rr_properties = JEmpty, rr_created_at = fmt_time 63918460800000000000\<rparr>"

definition ring_db :: kgdb where
  "ring_db = \<lparr>faults = [], nodes = [], rels = [link ''r1'' ''a'' ''b'', link ''r2'' ''b'' ''c'',
     link ''r3'' ''c'' ''a'']\<rparr>"

text \<open>C17: On a graph of any shape, cycles included, \<open>Traverse\<close> returns with each
  relationship at most once, and returns exactly the relationships of the wanted type and
  direction at a node fewer than \<open>MaxDepth\<close> steps from the start (a depth below one counts
  as one).\<close>

theorem traverse_exact:
  fixes opts :: TraverseOptions
  assumes "calm_kg db" "ctx_err c = None"
  defines "direction \<equiv> if to_Direction opts = [] then ''out'' else to_Direction opts"
    and "depth \<equiv> nat (if to_MaxDepth opts \<le> 0 then 1 else to_MaxDepth opts)"
  shows "\<exists>rs. Traverse c s opts db = (Inr rs, db) \<and> distinct (map r_RelID rs) \<and>
    set rs = (\<Union>u\<in>hops (rels_at db direction (to_RelType opts)) s (depth - 1).
      rels_at db direction (to_RelType opts) u)"
  unfolding direction_def depth_def by (rule Traverse_calm [OF assms(1,2)])

lemma ring_scan: "scanRelationship (link k a b) = Inr \<lparr>r_RelID = k, r_FromNodeID = a, r_ToNodeID = b,
    r_RelType = RelBelongsTo, r_Properties = None, r_CreatedAt = 63918460800000000000\<rparr>"
  by (simp add: scanRelationship_def link_def parse_fmt_time year_10000_def unmarshalProperties_def)

lemma traverse_exact_witness:
  "\<exists>rs. Traverse background ''a'' \<lparr>to_RelType = [], to_Direction = [], to_MaxDepth = 2\<rparr> ring_db =
      (Inr rs, ring_db) \<and> r_RelID ` set rs = {''r1'', ''r2''}"
proof -
  have calm: "calm_kg ring_db"
    by (simp add: calm_kg_def calm_db_def well_db_def well_rels_def ring_db_def scans_def ring_scan)
      (simp add: link_def)
  have ctx: "ctx_err background = None" by (simp add: background_def)
  have "rels_at ring_db ''out'' [] u =
      (if u = ''a'' then {scanned scanRelationship (link ''r1'' ''a'' ''b'')}
       else if u = ''b'' then {scanned scanRelationship (link ''r2'' ''b'' ''c'')}
       else if u = ''c'' then {scanned scanRelationship (link ''r3'' ''c'' ''a'')} else {})" for u
    by (auto simp: rels_at_def all_rels_def ring_db_def scanned_def ring_scan touches_def type_matches_def)
  then have ids: "r_RelID ` (\<Union>u\<in>hops (rels_at ring_db ''out'' []) ''a'' 1. rels_at ring_db ''out'' [] u) =
      {''r1'', ''r2''}"
    by (simp add: scanned_def ring_scan other_end_def insert_commute)
  let ?o = "\<lparr>to_RelType = [], to_Direction = [], to_MaxDepth = 2\<rparr>"
  have eqs: "nat (if to_MaxDepth ?o \<le> 0 then 1 else to_MaxDepth ?o) - 1 = 1"
      "(if to_Direction ?o = [] then ''out'' else to_Direction ?o) = ''out''" "to_RelType ?o = []" by simp_all
  obtain rs where "Traverse background ''a'' ?o ring_db = (Inr rs, ring_db)"
      "set rs = (\<Union>u\<in>hops (rels_at ring_db ''out'' []) ''a'' 1. rels_at ring_db ''out'' [] u)"
    using traverse_exact [OF calm ctx, of "''a''" ?o] unfolding eqs by blast
  with ids show ?thesis by metis
qed

end
