(* ===== verification/Event.thy ===== *)
theory Event
  imports Model
begin

text \<open>
  \<open>pkg/event\<close>: events, their typed payloads and the schema registry that validates an
  event before it is published.
\<close>

subsection \<open>Events (\<open>event.go\<close>)\<close>

type_synonym EventType = string

record Event =
  e_EventID :: string
  e_EventType :: EventType
  e_Timestamp :: time
  e_SourceNodeID :: string
  e_TraceID :: string
  e_Payload :: "gomap option"

text \<open>\<open>SetPayload\<close>: through JSON into a map; a payload that encodes to \<open>null\<close> leaves a nil map.\<close>

definition SetPayload :: "Event \<Rightarrow> goval \<Rightarrow> Event res" where
  "SetPayload e payload =
     (if payload = GNil then Inl (Errorf ''payload must not be nil'')
      else case json_norm payload of
        Inl err \<Rightarrow> Inl (Wrap ''marshal payload'' err)
      | Inr GNil \<Rightarrow> Inr (e\<lparr>e_Payload := None\<rparr>)
      | Inr (GMap kvs) \<Rightarrow> Inr (e\<lparr>e_Payload := Some kvs\<rparr>)
      | Inr _ \<Rightarrow> Inl (Wrap ''unmarshal payload'' (External ''json: cannot unmarshal into map'')))"

text \<open>\<open>GetPayload\<close>: the payload's JSON image handed to the decoder of the target's type.\<close>

definition GetPayload :: "Event \<Rightarrow> (goval \<Rightarrow> 'a res) option \<Rightarrow> 'a res" where
  "GetPayload e target =
     (case target of
        None \<Rightarrow> Inl (Errorf ''target must not be nil'')
      | Some decode \<Rightarrow>
          (case json_norm (case e_Payload e of None \<Rightarrow> GNil | Some kvs \<Rightarrow> GMap kvs) of
             Inl err \<Rightarrow> Inl (Wrap ''marshal payload'' err)
           | Inr v \<Rightarrow> (case decode v of Inl err \<Rightarrow> Inl (Wrap ''unmarshal payload'' err)
                      | Inr x \<Rightarrow> Inr x)))"

subsection \<open>Event types and payload structs (\<open>types.go\<close>)\<close>

abbreviation "EventTelemetryReceived \<equiv> ''TelemetryReceived''"
abbreviation "EventStateUpdated \<equiv> ''StateUpdated''"
abbreviation "EventNodeRegistered \<equiv> ''NodeRegistered''"
abbreviation "EventNodeUpdated \<equiv> ''NodeUpdated''"
abbreviation "EventNodeDeleted \<equiv> ''NodeDeleted''"
abbreviation "EventRelationshipCreated \<equiv> ''RelationshipCreated''"
abbreviation "EventRelationshipDeleted \<equiv> ''RelationshipDeleted''"
abbreviation "EventTaskStatusChanged \<equiv> ''TaskStatusChanged''"
abbreviation "EventTaskScheduled \<equiv> ''TaskScheduled''"
abbreviation "EventHealthAlarm \<equiv> ''HealthAlarm''"
abbreviation "EventCommandSent \<equiv> ''CommandSent''"
abbreviation "EventCommandAcked \<equiv> ''CommandAcked''"
abbreviation "EventConjunctionAlert \<equiv> ''ConjunctionAlert''"
abbreviation "EventResourceMatchCompleted \<equiv> ''ResourceMatchCompleted''"

text \<open>
  One constructor per payload struct, its arguments the struct's fields in order.
  \<open>Parameters\<close> and \<open>Changes\<close> are maps of dynamic values.
\<close>

datatype payload =
    TelemetryReceivedPayload string time goval string
  | ConjunctionAlertPayload string string float64 time "string list" string
  | ResourceMatchCompletedPayload string string "string list" float64
  | StateUpdatedPayload string string string
  | NodeRegisteredPayload string string
  | NodeUpdatedPayload string goval
  | NodeDeletedPayload string
  | RelationshipCreatedPayload string string string string
  | RelationshipDeletedPayload string
  | TaskStatusChangedPayload string string string
  | TaskScheduledPayload string string time
  | HealthAlarmPayload string string string
  | CommandSentPayload string string string
  | CommandAckedPayload string bool string

text \<open>The types of struct fields that reflection sees.\<close>

datatype gotype = TString | TBool | TNumber | TTime | TMap | TStructT | TSlice | TAny

record struct_field =
  sf_exported :: bool
  sf_tag :: string
  sf_type :: gotype

abbreviation fld :: "string \<Rightarrow> gotype \<Rightarrow> struct_field" where
  "fld tag ty \<equiv> \<lparr>sf_exported = True, sf_tag = tag, sf_type = ty\<rparr>"

text \<open>The struct types: event type and the fields with their JSON tags.\<close>

definition defaultPayloads :: "(EventType \<times> struct_field list) list" where
  "defaultPayloads =
     [(EventTelemetryReceived,
        [fld ''satelliteId'' TString, fld ''timestamp'' TTime, fld ''parameters'' TMap,
         fld ''quality'' TString]),
      (EventStateUpdated,
        [fld ''nodeId'' TString, fld ''oldStatus,omitempty'' TString, fld ''newStatus'' TString]),
      (EventNodeRegistered, [fld ''nodeId'' TString, fld ''nodeType'' TString]),
      (EventNodeUpdated, [fld ''nodeId'' TString, fld ''changes'' TMap]),
      (EventNodeDeleted, [fld ''nodeId'' TString]),
      (EventRelationshipCreated,
        [fld ''relId'' TString, fld ''fromNodeId'' TString, fld ''toNodeId'' TString,
         fld ''relType'' TString]),
      (EventRelationshipDeleted, [fld ''relId'' TString]),
      (EventTaskStatusChanged,
        [fld ''taskId'' TString, fld ''oldStatus,omitempty'' TString, fld ''newStatus'' TString]),
      (EventTaskScheduled,
        [fld ''taskId'' TString, fld ''satelliteId'' TString, fld ''scheduledAt'' TTime]),
      (EventHealthAlarm,
        [fld ''nodeId'' TString, fld ''severity'' TString, fld ''message'' TString]),
      (EventCommandSent,
        [fld ''commandId'' TString, fld ''satelliteId'' TString, fld ''commandType'' TString]),
      (EventCommandAcked,
        [fld ''commandId'' TString, fld ''success'' TBool, fld ''message'' TString]),
      (EventConjunctionAlert,
        [fld ''primarySatelliteId'' TString, fld ''secondaryObjectId'' TString,
         fld ''probability'' TNumber, fld ''timeOfClosestApproach'' TTime,
         fld ''impactAssessment'' TStructT]),
      (EventResourceMatchCompleted,
        [fld ''taskId'' TString, fld ''satelliteId'' TString, fld ''resourceIds'' TSlice,
         fld ''matchScore'' TNumber])]"

text \<open>The event type of a payload and the values of its fields, in the order of the struct.\<close>

definition string_list :: "string list \<Rightarrow> goval" where
  "string_list xs = GList (map GStr xs)"

fun payload_type :: "payload \<Rightarrow> EventType" where
  "payload_type (TelemetryReceivedPayload _ _ _ _) = EventTelemetryReceived"
| "payload_type (ConjunctionAlertPayload _ _ _ _ _ _) = EventConjunctionAlert"
| "payload_type (ResourceMatchCompletedPayload _ _ _ _) = EventResourceMatchCompleted"
| "payload_type (StateUpdatedPayload _ _ _) = EventStateUpdated"
| "payload_type (NodeRegisteredPayload _ _) = EventNodeRegistered"
| "payload_type (NodeUpdatedPayload _ _) = EventNodeUpdated"
| "payload_type (NodeDeletedPayload _) = EventNodeDeleted"
| "payload_type (RelationshipCreatedPayload _ _ _ _) = EventRelationshipCreated"
| "payload_type (RelationshipDeletedPayload _) = EventRelationshipDeleted"
| "payload_type (TaskStatusChangedPayload _ _ _) = EventTaskStatusChanged"
| "payload_type (TaskScheduledPayload _ _ _) = EventTaskScheduled"
| "payload_type (HealthAlarmPayload _ _ _) = EventHealthAlarm"
| "payload_type (CommandSentPayload _ _ _) = EventCommandSent"
| "payload_type (CommandAckedPayload _ _ _) = EventCommandAcked"

fun payload_values :: "payload \<Rightarrow> goval list" where
  "payload_values (TelemetryReceivedPayload sat ts ps q) = [GStr sat, GTime ts, ps, GStr q]"
| "payload_values (ConjunctionAlertPayload a b p ts tasks risk) =
     [GStr a, GStr b, GFloat p, GTime ts,
      GStruct [(''affectedTasks'', string_list tasks), (''riskLevel'', GStr risk)]]"
| "payload_values (ResourceMatchCompletedPayload t s rs m) =
     [GStr t, GStr s, string_list rs, GFloat m]"
| "payload_values (StateUpdatedPayload n a b) = [GStr n, GStr a, GStr b]"
| "payload_values (NodeRegisteredPayload n t) = [GStr n, GStr t]"
| "payload_values (NodeUpdatedPayload n c) = [GStr n, c]"
| "payload_values (NodeDeletedPayload n) = [GStr n]"
| "payload_values (RelationshipCreatedPayload r f t ty) = [GStr r, GStr f, GStr t, GStr ty]"
| "payload_values (RelationshipDeletedPayload r) = [GStr r]"
| "payload_values (TaskStatusChangedPayload t a b) = [GStr t, GStr a, GStr b]"
| "payload_values (TaskScheduledPayload t s ts) = [GStr t, GStr s, GTime ts]"
| "payload_values (HealthAlarmPayload n s m) = [GStr n, GStr s, GStr m]"
| "payload_values (CommandSentPayload c s t) = [GStr c, GStr s, GStr t]"
| "payload_values (CommandAckedPayload c ok m) = [GStr c, GBool ok, GStr m]"

subsection \<open>JSON tags\<close>

text \<open>The tag's name, its \<open>omitempty\<close> option, and a struct under its JSON names: an empty
  string marked \<open>omitempty\<close> is left out.\<close>

definition tag_name :: "string \<Rightarrow> string" where
  "tag_name tag = trim_space (hd (split_at CHR '','' tag))"

definition tag_omitempty :: "string \<Rightarrow> bool" where
  "tag_omitempty tag \<longleftrightarrow> ''omitempty'' \<in> trim_space ` set (tl (split_at CHR '','' tag))"

definition struct_value :: "struct_field list \<Rightarrow> goval list \<Rightarrow> goval" where
  "struct_value fs vs =
     GStruct (map (\<lambda>(f, v). (tag_name (sf_tag f), v))
       (filter (\<lambda>(f, v). \<not> (tag_omitempty (sf_tag f) \<and> v = GStr [])) (zip fs vs)))"

definition payload_value :: "payload \<Rightarrow> goval" where
  "payload_value p = struct_value (the (map_of defaultPayloads (payload_type p))) (payload_values p)"

end
