(* ===== verification/EventStore.thy ===== *)
theory EventStore
  imports Event SqlTables
begin

text \<open>
  \<open>internal/core/event_store.go\<close>, \<open>event_store_memory.go\<close> and \<open>event_store_sqlite.go\<close>:
  the event log behind the bus, in memory and in SQLite. Both meet one contract, an
  append-only multiset of events with filtered queries and a cleanup that only removes.
  They differ in the order of a query: the memory store compares instants, SQLite compares
  the RFC3339Nano texts of the instants.
\<close>

subsection \<open>Options and configuration\<close>

record QueryOptions =
  qo_EventTypes :: "EventType list"
  qo_SourceNodeID :: string
  qo_StartTime :: "time option"
  qo_EndTime :: "time option"
  qo_Limit :: int
  qo_Offset :: int

text \<open>\<open>Now\<close> is nil or a clock.\<close>

record StoreConfig =
  sc_TTL :: duration
  sc_MaxEvents :: int
  sc_CleanupInterval :: duration
  sc_Now :: "(world \<Rightarrow> time) option"

definition DefaultStoreConfig :: StoreConfig where
  "DefaultStoreConfig = \<lparr>sc_TTL = 7 * 24 * hour, sc_MaxEvents = 1000000,
     sc_CleanupInterval = hour, sc_Now = Some now_of\<rparr>"

definition StoreConfig_applyDefaults :: "StoreConfig \<Rightarrow> StoreConfig" where
  "StoreConfig_applyDefaults cfg =
     \<lparr>sc_TTL = (if sc_TTL cfg \<le> 0 then 7 * 24 * hour else sc_TTL cfg),
      sc_MaxEvents = (if sc_MaxEvents cfg \<le> 0 then 1000000 else sc_MaxEvents cfg),
      sc_CleanupInterval = (if sc_CleanupInterval cfg \<le> 0 then hour else sc_CleanupInterval cfg),
      sc_Now = (case sc_Now cfg of None \<Rightarrow> Some now_of | Some f \<Rightarrow> Some f)\<rparr>"

text \<open>\<open>s.cfg.Now()\<close>; the constructors have filled the field.\<close>

definition cfg_now :: "StoreConfig \<Rightarrow> world \<Rightarrow> time" where
  "cfg_now cfg w = (case sc_Now cfg of Some f \<Rightarrow> f w | None \<Rightarrow> now_of w)"

definition cfg_ok :: "StoreConfig \<Rightarrow> bool" where
  "cfg_ok cfg \<longleftrightarrow> 0 < sc_TTL cfg \<and> 0 < sc_MaxEvents cfg \<and> 0 < sc_CleanupInterval cfg \<and> sc_Now cfg \<noteq> None"

lemma applyDefaults_ok: "cfg_ok (StoreConfig_applyDefaults cfg)"
  by (simp add: cfg_ok_def StoreConfig_applyDefaults_def split: option.splits)

lemma applyDefaults_id: "cfg_ok cfg \<Longrightarrow> StoreConfig_applyDefaults cfg = cfg"
  by (auto simp: cfg_ok_def StoreConfig_applyDefaults_def)

lemma applyDefaults_zero:
  "StoreConfig_applyDefaults \<lparr>sc_TTL = 0, sc_MaxEvents = 0, sc_CleanupInterval = 0, sc_Now = None\<rparr> =
   DefaultStoreConfig"
  by (simp add: StoreConfig_applyDefaults_def DefaultStoreConfig_def)

subsection \<open>The contract\<close>

text \<open>
  \<open>log\<close> is the multiset of events a store holds, \<open>image\<close> what an event reads back as, \<open>hits\<close>
  the filter of a query. A client only sees the log grow by the appends that returned nil
  and shrink in cleanups.
\<close>

fun appended :: "('s \<Rightarrow> Event \<Rightarrow> verdict \<times> 's) \<Rightarrow> Event list \<Rightarrow> 's \<Rightarrow> Event list \<times> 's" where
  "appended app [] s = ([], s)"
| "appended app (e # es) s =
     (case app s e of
        (Some _, s1) \<Rightarrow> appended app es s1
      | (None, s1) \<Rightarrow> (case appended app es s1 of (acked, s2) \<Rightarrow> (e # acked, s2)))"

locale event_store =
  fixes append :: "ctx \<Rightarrow> world \<Rightarrow> Event option \<Rightarrow> 's \<Rightarrow> verdict \<times> 's"
    and query :: "ctx \<Rightarrow> QueryOptions \<Rightarrow> 's \<Rightarrow> Event list res \<times> 's"
    and cleanup :: "ctx \<Rightarrow> world \<Rightarrow> 's \<Rightarrow> (int \<times> verdict) \<times> 's"
    and close :: "'s \<Rightarrow> verdict \<times> 's"
    and closed :: "'s \<Rightarrow> bool"
    and log :: "'s \<Rightarrow> Event multiset"
    and readback :: "Event \<Rightarrow> Event"
    and hits :: "QueryOptions \<Rightarrow> Event \<Rightarrow> bool"
    and wf :: "'s \<Rightarrow> bool"
    and admits :: "Event \<Rightarrow> bool"
  assumes append_acked: "wf s \<Longrightarrow> admits e \<Longrightarrow> append c w (Some e) s = (None, s') \<Longrightarrow>
      log s' = add_mset (readback e) (log s) \<and> wf s' \<and> \<not> closed s \<and> \<not> closed s'"
    and append_refused: "wf s \<Longrightarrow> append c w oe s = (Some err, s') \<Longrightarrow>
      log s' = log s \<and> wf s' \<and> closed s' = closed s"
    and query_ok: "wf s \<Longrightarrow> query c opts s = (Inr es, s') \<Longrightarrow>
      mset es \<subseteq># filter_mset (hits opts) (log s) \<and> log s' = log s \<and> wf s' \<and> \<not> closed s \<and>
      (qo_Limit opts \<le> 0 \<longrightarrow> qo_Offset opts \<le> 0 \<longrightarrow> mset es = filter_mset (hits opts) (log s))"
    and cleanup_shrinks: "wf s \<Longrightarrow> cleanup c w s = ((n, v), s') \<Longrightarrow>
      log s' \<subseteq># log s \<and> wf s' \<and> closed s' = closed s \<and>
      (v = None \<longrightarrow> n = int (size (log s)) - int (size (log s')))"
    and close_closes: "wf s \<Longrightarrow> close s = (v, s') \<Longrightarrow> closed s' \<and> wf s'"
begin

text \<open>After any appends, the log is what it was and the acknowledged events.\<close>

lemma appended_log:
  assumes "wf s" "\<forall>e\<in>set es. admits e" "appended (\<lambda>s e. append c w (Some e) s) es s = (acked, s')"
  shows "log s' = mset (map readback acked) + log s \<and> wf s'"
  using assms
proof (induction es arbitrary: s acked)
  case (Cons e es)
  obtain v s1 where v: "append c w (Some e) s = (v, s1)" by fastforce
  show ?case
  proof (cases v)
    case None
    obtain acked' where a: "appended (\<lambda>s e. append c w (Some e) s) es s1 = (acked', s')" "acked = e # acked'"
      using Cons.prems v None by (auto split: prod.splits)
    have s1: "log s1 = add_mset (readback e) (log s)" "wf s1"
      using append_acked [of s e c w s1] Cons.prems v None by auto
    from Cons.IH [OF s1(2) _ a(1)] Cons.prems show ?thesis using s1(1) a(2) by simp
  next
    case (Some err)
    then have s1: "log s1 = log s" "wf s1" using append_refused [of s c w "Some e" err s1] Cons.prems v by auto
    from Cons.IH [OF s1(2)] Cons.prems v Some s1(1) show ?thesis by simp
  qed
qed auto

text \<open>A query without limits, after any appends, finds the acknowledged events it asks for
  and those that were there; once closed the store takes and shows nothing.\<close>

lemma query_after_appends:
  assumes "wf s" "\<forall>e\<in>set es. admits e" "appended (\<lambda>s e. append c w (Some e) s) es s = (acked, s')"
    "query c opts s' = (Inr found, s'')" "qo_Limit opts \<le> 0" "qo_Offset opts \<le> 0"
  shows "mset found = filter_mset (hits opts) (mset (map readback acked)) + filter_mset (hits opts) (log s)"
proof -
  have "log s' = mset (map readback acked) + log s" "wf s'" using appended_log [OF assms(1-3)] by auto
  then show ?thesis using query_ok [OF _ assms(4)] assms(5,6) by simp
qed

lemma closed_refuses:
  assumes "wf s" "closed s"
  shows "admits e \<Longrightarrow> fst (append c w (Some e) s) \<noteq> None" "\<not> is_ok (fst (query c opts s))"
proof -
  show "fst (append c w (Some e) s) \<noteq> None" if "admits e"
    using append_acked [OF assms(1) that, of c w] assms(2) by (metis prod.collapse)
  show "\<not> is_ok (fst (query c opts s))"
    using query_ok [OF assms(1), of c opts] assms(2)
    by (metis is_ok_def old.sum.exhaust prod.collapse sum.simps(5))
qed

end

subsection \<open>The memory store\<close>

record memEntry =
  me_event :: Event
  me_createdAt :: time

record MemoryEventStore =
  ms_entries :: "memEntry list"
  ms_cfg :: StoreConfig
  ms_closed :: bool
  ms_closeOnce :: bool

definition NewMemoryEventStore :: "StoreConfig \<Rightarrow> MemoryEventStore" where
  "NewMemoryEventStore cfg =
     \<lparr>ms_entries = [], ms_cfg = StoreConfig_applyDefaults cfg, ms_closed = False, ms_closeOnce = False\<rparr>"

definition Mem_Append :: "ctx \<Rightarrow> world \<Rightarrow> Event option \<Rightarrow> MemoryEventStore \<Rightarrow> verdict \<times> MemoryEventStore" where
  "Mem_Append c w ev s =
     (case ev of
        None \<Rightarrow> (Some (Sentinel ErrNilEvent), s)
      | Some e \<Rightarrow>
        (case ctx_err c of
           Some err \<Rightarrow> (Some err, s)
         | None \<Rightarrow>
           (if ms_closed s then (Some (Sentinel ErrStoreClosed), s)
            else (None, s\<lparr>ms_entries := ms_entries s @
                    [\<lparr>me_event = e, me_createdAt = cfg_now (ms_cfg s) w\<rparr>]\<rparr>))))"

definition matchQuery :: "Event \<Rightarrow> QueryOptions \<Rightarrow> EventType set \<Rightarrow> bool" where
  "matchQuery e opts typeFilter \<longleftrightarrow>
     (typeFilter = {} \<or> e_EventType e \<in> typeFilter) \<and>
     (qo_SourceNodeID opts = [] \<or> e_SourceNodeID e = qo_SourceNodeID opts) \<and>
     (case qo_StartTime opts of None \<Rightarrow> True | Some t \<Rightarrow> \<not> e_Timestamp e < t) \<and>
     (case qo_EndTime opts of None \<Rightarrow> True | Some t \<Rightarrow> \<not> t < e_Timestamp e)"

definition cloneEvent :: "Event \<Rightarrow> Event" where
  "cloneEvent e =
     \<lparr>e_EventID = e_EventID e, e_EventType = e_EventType e, e_Timestamp = e_Timestamp e,
      e_SourceNodeID = e_SourceNodeID e, e_TraceID = e_TraceID e,
      e_Payload = (case e_Payload e of None \<Rightarrow> None | Some m \<Rightarrow> Some m)\<rparr>"

lemma cloneEvent_id [simp]: "cloneEvent e = e"
  by (simp add: cloneEvent_def split: option.splits)

text \<open>The offset and limit of the memory store; an offset past the end gives nil.\<close>

definition mem_page :: "int \<Rightarrow> int \<Rightarrow> 'a list \<Rightarrow> 'a list" where
  "mem_page limit offset xs =
     (let n = int (length xs) in
      if \<not> (0 < offset \<and> offset < n) \<and> n \<le> offset then []
      else let ys = (if 0 < offset \<and> offset < n then drop (nat offset) xs else xs)
           in if 0 < limit \<and> limit < int (length ys) then take (nat limit) ys else ys)"

definition Mem_Query :: "(Event list \<Rightarrow> Event list) \<Rightarrow> ctx \<Rightarrow> QueryOptions \<Rightarrow> MemoryEventStore \<Rightarrow>
    Event list res \<times> MemoryEventStore" where
  "Mem_Query srt c opts s =
     (case ctx_err c of
        Some err \<Rightarrow> (Inl err, s)
      | None \<Rightarrow>
        (if ms_closed s then (Inl (Sentinel ErrStoreClosed), s)
         else
           (let typeFilter = set (qo_EventTypes opts);
                result = map (\<lambda>x. cloneEvent (me_event x))
                  (filter (\<lambda>x. matchQuery (me_event x) opts typeFilter) (ms_entries s))
            in (Inr (mem_page (qo_Limit opts) (qo_Offset opts) (srt result)), s))))"

definition Mem_Cleanup :: "ctx \<Rightarrow> world \<Rightarrow> MemoryEventStore \<Rightarrow> (int \<times> verdict) \<times> MemoryEventStore" where
  "Mem_Cleanup c w s =
     (case ctx_err c of
        Some err \<Rightarrow> ((0, Some err), s)
      | None \<Rightarrow>
        (if ms_closed s then ((0, Some (Sentinel ErrStoreClosed)), s)
         else
           (let cutoff = cfg_now (ms_cfg s) w - sc_TTL (ms_cfg s);
                expired = (\<lambda>x. me_createdAt x < cutoff);
                kept = filter (\<lambda>x. \<not> expired x) (ms_entries s);
                deleted = int (length (filter expired (ms_entries s)));
                excess = int (length kept) - sc_MaxEvents (ms_cfg s)
            in if 0 < excess
               then ((deleted + excess, None), s\<lparr>ms_entries := drop (nat excess) kept\<rparr>)
               else ((deleted, None), s\<lparr>ms_entries := kept\<rparr>))))"

definition Mem_Close :: "MemoryEventStore \<Rightarrow> verdict \<times> MemoryEventStore" where
  "Mem_Close s =
     (if ms_closeOnce s then (None, s)
      else (None, s\<lparr>ms_closed := True, ms_entries := [], ms_closeOnce := True\<rparr>))"

definition Mem_Len :: "MemoryEventStore \<Rightarrow> nat" where
  "Mem_Len s = length (ms_entries s)"

text \<open>A query, as a page of the matching events in time order.\<close>

lemma mem_page_eq: "mem_page limit offset xs =
    (let ys = drop (nat offset) xs in if 0 < limit then take (nat limit) ys else ys)"
proof (cases "0 < offset")
  case False
  then show ?thesis by (cases xs) (auto simp: mem_page_def Let_def)
qed (auto simp: mem_page_def Let_def)

definition hits_query :: "QueryOptions \<Rightarrow> Event \<Rightarrow> bool" where
  "hits_query opts e \<longleftrightarrow>
     (set (qo_EventTypes opts) \<noteq> {} \<longrightarrow> e_EventType e \<in> set (qo_EventTypes opts)) \<and>
     qo_SourceNodeID opts \<in> {[], e_SourceNodeID e} \<and>
     (\<forall>t \<in> set_option (qo_StartTime opts). t \<le> e_Timestamp e) \<and>
     (\<forall>t \<in> set_option (qo_EndTime opts). e_Timestamp e \<le> t)"

lemma matchQuery_iff: "matchQuery e opts (set (qo_EventTypes opts)) \<longleftrightarrow> hits_query opts e"
  by (auto simp: matchQuery_def hits_query_def split: option.splits)

definition mem_log :: "MemoryEventStore \<Rightarrow> Event multiset" where
  "mem_log s = mset (map me_event (ms_entries s))"

definition mem_wf :: "MemoryEventStore \<Rightarrow> bool" where
  "mem_wf s \<longleftrightarrow> cfg_ok (ms_cfg s) \<and> ms_closed s = ms_closeOnce s"

lemma Mem_Query_Inr:
  assumes "sorts_by e_Timestamp srt" "Mem_Query srt c opts s = (Inr es, s')"
  shows "s' = s \<and> \<not> ms_closed s \<and> (\<exists>all. mset all = filter_mset (hits_query opts) (mem_log s) \<and>
    sorted (map e_Timestamp all) \<and> es = mem_page (qo_Limit opts) (qo_Offset opts) all)"
proof -
  let ?r = "filter (hits_query opts) (map me_event (ms_entries s))"
  have "mset (srt ?r) = filter_mset (hits_query opts) (mem_log s)" "sorted (map e_Timestamp (srt ?r))"
    using assms(1) by (simp_all add: sorts_by_def mem_log_def mset_filter)
  moreover have "s' = s" "\<not> ms_closed s" "es = mem_page (qo_Limit opts) (qo_Offset opts) (srt ?r)"
    using assms(2)
    by (auto simp: Mem_Query_def Let_def filter_map comp_def matchQuery_iff split: option.splits if_splits)
  ultimately show ?thesis by blast
qed

lemma mset_page: "mset (mem_page l k xs) \<subseteq># mset xs"
proof -
  have "mset (take n (drop m xs)) \<subseteq># mset xs" for n m
    by (metis append_take_drop_id mset_append mset_subset_eq_add_left mset_subset_eq_add_right
        subset_mset.order_trans)
  then show ?thesis
    by (auto simp: mem_page_eq Let_def) (metis append_take_drop_id mset_append mset_subset_eq_add_right)
qed

definition live_entries :: "time \<Rightarrow> MemoryEventStore \<Rightarrow> memEntry list" where
  "live_entries now s = filter (\<lambda>x. \<not> me_createdAt x < now - sc_TTL (ms_cfg s)) (ms_entries s)"

lemma Mem_Cleanup_cases:
  assumes "Mem_Cleanup c w s = ((n, v), s')" "0 < sc_MaxEvents (ms_cfg s)"
  shows "(v \<noteq> None \<and> n = 0 \<and> s' = s) \<or>
    (v = None \<and> \<not> ms_closed s \<and> n = int (length (ms_entries s)) - int (length (ms_entries s')) \<and>
     s' = s\<lparr>ms_entries := drop (nat (int (length (live_entries (cfg_now (ms_cfg s) w) s)) - sc_MaxEvents (ms_cfg s)))
            (live_entries (cfg_now (ms_cfg s) w) s)\<rparr>)"
  using assms length_filter_partition [of "\<lambda>x. me_createdAt x < cfg_now (ms_cfg s) w - sc_TTL (ms_cfg s)" "ms_entries s"]
    length_filter_le [of "\<lambda>x. \<not> me_createdAt x < cfg_now (ms_cfg s) w - sc_TTL (ms_cfg s)" "ms_entries s"]
  by (auto simp: Mem_Cleanup_def Let_def live_entries_def split: option.splits if_splits)

lemma mset_map_drop_filter: "mset (map f (drop k (filter P xs))) \<subseteq># mset (map f xs)"
proof -
  have "mset (drop k (filter P xs)) \<subseteq># mset (filter P xs)"
    by (metis append_take_drop_id mset_append mset_subset_eq_add_right)
  then have "mset (drop k (filter P xs)) \<subseteq># mset xs"
    by (metis mset_filter multiset_filter_subset subset_mset.order_trans)
  then show ?thesis by (simp add: image_mset_subseteq_mono)
qed

interpretation mem_store: event_store
  Mem_Append "Mem_Query (sort_key e_Timestamp)" Mem_Cleanup Mem_Close ms_closed mem_log "\<lambda>e. e"
  hits_query mem_wf "\<lambda>e. True"
proof (unfold_locales, goal_cases)
  case (3 s c opts es s')
  obtain all where all: "s' = s" "\<not> ms_closed s" "mset all = filter_mset (hits_query opts) (mem_log s)"
      "es = mem_page (qo_Limit opts) (qo_Offset opts) all"
    using Mem_Query_Inr [OF sorts_by_sort_key 3(2)] by blast
  have "mset es \<subseteq># mset all" using all(4) mset_page by blast
  moreover have "qo_Limit opts \<le> 0 \<Longrightarrow> qo_Offset opts \<le> 0 \<Longrightarrow> es = all"
    using all(4) by (simp add: mem_page_eq)
  ultimately show ?case using all 3(1) by simp
next
  case (4 s c w n v s')
  then show ?case
    using Mem_Cleanup_cases [OF 4(2)] mset_map_drop_filter [of me_event]
    by (auto simp: mem_log_def mem_wf_def cfg_ok_def live_entries_def simp del: mset_map)
qed (auto simp: Mem_Append_def Mem_Close_def mem_wf_def mem_log_def split: option.splits if_splits)

subsection \<open>The SQLite store\<close>

record event_row =
  er_event_id :: string
  er_event_type :: string
  er_timestamp :: string
  er_source_node_id :: string
  er_trace_id :: string
  er_payload :: json_text
  er_created_at :: string

record SQLiteEventStore = driver +
  ss_events :: "event_row list"
  ss_cfg :: StoreConfig
  ss_closed :: bool
  ss_closeOnce :: bool

text \<open>\<open>NewSQLiteEventStore\<close> on an existing table: open, three pragmas, the schema.\<close>

fun run_statements :: "nat \<Rightarrow> 'a driver_scheme \<Rightarrow> verdict \<times> 'a driver_scheme" where
  "run_statements 0 d = (None, d)"
| "run_statements (Suc n) d =
     (case next_fault d of Some e \<Rightarrow> (Some e, consume d) | None \<Rightarrow> run_statements n (consume d))"

definition NewSQLiteEventStore :: "err option list \<Rightarrow> event_row list \<Rightarrow> StoreConfig \<Rightarrow> SQLiteEventStore res" where
  "NewSQLiteEventStore fs tbl cfg =
     (case fs of
        Some e # _ \<Rightarrow> Inl (Wrap ''open sqlite'' e)
      | _ \<Rightarrow>
        (let s = \<lparr>faults = tl fs, ss_events = tbl, ss_cfg = StoreConfig_applyDefaults cfg,
                  ss_closed = False, ss_closeOnce = False\<rparr>
         in case run_statements 4 s of
              (Some e, _) \<Rightarrow> Inl (Wrap ''init'' e)
            | (None, s1) \<Rightarrow> Inr s1))"

text \<open>The payload column: \<open>null\<close> for a nil map.\<close>

definition marshalPayload :: "gomap option \<Rightarrow> json_text res" where
  "marshalPayload p =
     (case json_norm (case p of None \<Rightarrow> GNil | Some kvs \<Rightarrow> GMap kvs) of
        Inl e \<Rightarrow> Inl (Wrap ''marshal payload'' e)
      | Inr v \<Rightarrow> Inr (JText v))"

definition unmarshalPayload :: "json_text \<Rightarrow> gomap option res" where
  "unmarshalPayload t =
     (case t of
        JText GNil \<Rightarrow> Inr None
      | JText (GMap kvs) \<Rightarrow> Inr (Some kvs)
      | _ \<Rightarrow> Inl (Wrap ''unmarshal payload'' (External ''json: cannot unmarshal'')))"

definition event_row_of :: "Event \<Rightarrow> json_text \<Rightarrow> time \<Rightarrow> event_row" where
  "event_row_of e payload createdAt =
     \<lparr>er_event_id = e_EventID e, er_event_type = e_EventType e, er_timestamp = fmt_time (e_Timestamp e),
      er_source_node_id = e_SourceNodeID e, er_trace_id = e_TraceID e, er_payload = payload,
      er_created_at = fmt_time createdAt\<rparr>"

definition scanEvent :: "event_row \<Rightarrow> Event res" where
  "scanEvent r =
     (case parse_time (er_timestamp r) of
        None \<Rightarrow> Inl (Wrap ''parse timestamp'' (External ''time: cannot parse''))
      | Some ts \<Rightarrow>
        (case unmarshalPayload (er_payload r) of
           Inl e \<Rightarrow> Inl e
         | Inr p \<Rightarrow> Inr
             \<lparr>e_EventID = er_event_id r, e_EventType = er_event_type r, e_Timestamp = ts,
              e_SourceNodeID = er_source_node_id r, e_TraceID = er_trace_id r, e_Payload = p\<rparr>))"

definition SQL_Append :: "ctx \<Rightarrow> world \<Rightarrow> Event option \<Rightarrow> SQLiteEventStore \<Rightarrow> verdict \<times> SQLiteEventStore" where
  "SQL_Append c w ev s =
     (case ev of
        None \<Rightarrow> (Some (Sentinel ErrNilEvent), s)
      | Some e \<Rightarrow>
        (case ctx_err c of
           Some err \<Rightarrow> (Some err, s)
         | None \<Rightarrow>
           (if ss_closed s then (Some (Sentinel ErrStoreClosed), s)
            else
              (case marshalPayload (e_Payload e) of
                 Inl err \<Rightarrow> (Some err, s)
               | Inr payload \<Rightarrow>
                 (case next_fault s of
                    Some err \<Rightarrow> (Some (Wrap ''insert event'' err), consume s)
                  | None \<Rightarrow>
                    (case sql_insert er_event_id (event_row_of e payload (cfg_now (ss_cfg s) w)) (ss_events s) of
                       Inl err \<Rightarrow> (Some (Wrap ''insert event'' err), consume s)
                     | Inr tbl \<Rightarrow> (None, (consume s)\<lparr>ss_events := tbl\<rparr>)))))))"

definition query_where :: "QueryOptions \<Rightarrow> event_row \<Rightarrow> bool" where
  "query_where opts r \<longleftrightarrow>
     (qo_EventTypes opts = [] \<or> er_event_type r \<in> set (qo_EventTypes opts)) \<and>
     (qo_SourceNodeID opts = [] \<or> er_source_node_id r = qo_SourceNodeID opts) \<and>
     (case qo_StartTime opts of None \<Rightarrow> True | Some t \<Rightarrow> fmt_time t \<le> er_timestamp r) \<and>
     (case qo_EndTime opts of None \<Rightarrow> True | Some t \<Rightarrow> er_timestamp r \<le> fmt_time t)"

text \<open>\<open>LIMIT\<close> and \<open>OFFSET\<close> as the query text gets them; rows with equal timestamps come in
  the order the engine's sort leaves them.\<close>

definition query_limit :: "QueryOptions \<Rightarrow> event_row list \<Rightarrow> event_row list" where
  "query_limit opts rows =
     sql_limit (if 0 < qo_Limit opts then qo_Limit opts else -1)
       (if 0 < qo_Offset opts then qo_Offset opts else 0) rows"

definition SQL_Query :: "(event_row list \<Rightarrow> event_row list) \<Rightarrow> ctx \<Rightarrow> QueryOptions \<Rightarrow> SQLiteEventStore \<Rightarrow>
    Event list res \<times> SQLiteEventStore" where
  "SQL_Query srt c opts s =
     (case ctx_err c of
        Some err \<Rightarrow> (Inl err, s)
      | None \<Rightarrow>
        (if ss_closed s then (Inl (Sentinel ErrStoreClosed), s)
         else
           (case next_fault s of
              Some err \<Rightarrow> (Inl (Wrap ''query events'' err), consume s)
            | None \<Rightarrow>
              (case scan_rows scanEvent (query_limit opts (srt (filter (query_where opts) (ss_events s)))) of
                 Inl err \<Rightarrow> (Inl err, consume s)
               | Inr es \<Rightarrow>
                 (case next_fault (consume s) of
                    Some err \<Rightarrow> (Inl (Wrap ''iterate events'' err), consume (consume s))
                  | None \<Rightarrow> (Inr es, consume (consume s)))))))"

definition countEvents :: "SQLiteEventStore \<Rightarrow> int res \<times> SQLiteEventStore" where
  "countEvents s =
     (case next_fault s of
        Some err \<Rightarrow> (Inl (Wrap ''count events'' err), consume s)
      | None \<Rightarrow> (Inr (int (length (ss_events s))), consume s))"

text \<open>The two deletions of a cleanup.\<close>

definition expired_row :: "world \<Rightarrow> SQLiteEventStore \<Rightarrow> event_row \<Rightarrow> bool" where
  "expired_row w s r \<longleftrightarrow> er_created_at r < fmt_time (cfg_now (ss_cfg s) w - sc_TTL (ss_cfg s))"

definition over_limit :: "(event_row list \<Rightarrow> event_row list) \<Rightarrow> SQLiteEventStore \<Rightarrow> event_row list \<Rightarrow> event_row list" where
  "over_limit srt s kept = take (nat (int (length kept) - sc_MaxEvents (ss_cfg s))) (srt kept)"

definition drop_ids :: "event_row list \<Rightarrow> event_row list \<Rightarrow> event_row list" where
  "drop_ids rows tbl = sql_delete (\<lambda>r. er_event_id r \<in> er_event_id ` set rows) tbl"

definition SQL_Cleanup :: "(event_row list \<Rightarrow> event_row list) \<Rightarrow> ctx \<Rightarrow> world \<Rightarrow> SQLiteEventStore \<Rightarrow>
    (int \<times> verdict) \<times> SQLiteEventStore" where
  "SQL_Cleanup srt c w s =
     (case ctx_err c of
        Some err \<Rightarrow> ((0, Some err), s)
      | None \<Rightarrow>
        (if ss_closed s then ((0, Some (Sentinel ErrStoreClosed)), s)
         else
           (case next_fault s of
                 Some err \<Rightarrow> ((0, Some (Wrap ''clean expired events'' err)), consume s)
               | None \<Rightarrow>
                 (let deleted = int (sql_count (expired_row w s) (ss_events s));
                      s1 = (consume s)\<lparr>ss_events := sql_delete (expired_row w s) (ss_events s)\<rparr>
                  in case countEvents s1 of
                       (Inl err, s2) \<Rightarrow> ((deleted, Some err), s2)
                     | (Inr cnt, s2) \<Rightarrow>
                       (if sc_MaxEvents (ss_cfg s) < cnt
                        then
                          (let excess = cnt - sc_MaxEvents (ss_cfg s)
                           in case next_fault s2 of
                                Some err \<Rightarrow> ((deleted, Some (Wrap ''clean excess events'' err)), consume s2)
                              | None \<Rightarrow> ((deleted + excess, None),
                                  (consume s2)\<lparr>ss_events := drop_ids (over_limit srt s (ss_events s2)) (ss_events s2)\<rparr>))
                        else ((deleted, None), s2))))))"

definition SQL_Close :: "SQLiteEventStore \<Rightarrow> verdict \<times> SQLiteEventStore" where
  "SQL_Close s =
     (if ss_closeOnce s then (None, s)
      else (next_fault s, (consume s)\<lparr>ss_closed := True, ss_closeOnce := True\<rparr>))"

subsection \<open>The SQLite store meets the contract\<close>

definition storable_event :: "Event \<Rightarrow> bool" where
  "storable_event e \<longleftrightarrow> 0 \<le> e_Timestamp e \<and> e_Timestamp e < year_10000"

definition stored_event :: "Event \<Rightarrow> Event" where
  "stored_event e = e\<lparr>e_Payload :=
     (case marshalPayload (e_Payload e) of
        Inr t \<Rightarrow> (case unmarshalPayload t of Inr p \<Rightarrow> p | Inl _ \<Rightarrow> None) | Inl _ \<Rightarrow> None)\<rparr>"

text \<open>The rows are unique by id, decode, and carry the canonical text of their instant.\<close>

definition sql_log_wf :: "SQLiteEventStore \<Rightarrow> bool" where
  "sql_log_wf s \<longleftrightarrow> distinct (map er_event_id (ss_events s)) \<and> scans scanEvent (ss_events s) \<and>
     (\<forall>r\<in>set (ss_events s). er_timestamp r = fmt_time (e_Timestamp (scanned scanEvent r))) \<and>
     cfg_ok (ss_cfg s) \<and> ss_closed s = ss_closeOnce s"

definition sql_log :: "SQLiteEventStore \<Rightarrow> Event multiset" where
  "sql_log s = mset (map (scanned scanEvent) (ss_events s))"

text \<open>The filter as the SQL states it: the time bounds compare texts.\<close>

definition hits_text :: "QueryOptions \<Rightarrow> Event \<Rightarrow> bool" where
  "hits_text opts e \<longleftrightarrow>
     (qo_EventTypes opts = [] \<or> e_EventType e \<in> set (qo_EventTypes opts)) \<and>
     (qo_SourceNodeID opts = [] \<or> e_SourceNodeID e = qo_SourceNodeID opts) \<and>
     (case qo_StartTime opts of None \<Rightarrow> True | Some t \<Rightarrow> fmt_time t \<le> fmt_time (e_Timestamp e)) \<and>
     (case qo_EndTime opts of None \<Rightarrow> True | Some t \<Rightarrow> fmt_time (e_Timestamp e) \<le> fmt_time t)"

lemma marshal_unmarshalPayload:
  "marshalPayload p = Inr t \<Longrightarrow> \<exists>q. unmarshalPayload t = Inr q"
  by (auto simp: marshalPayload_def unmarshalPayload_def split: sum.splits option.splits)

lemma scan_event_row:
  "storable_event e \<Longrightarrow> marshalPayload (e_Payload e) = Inr t \<Longrightarrow>
   scanEvent (event_row_of e t now) = Inr (stored_event e)"
  using marshal_unmarshalPayload [of "e_Payload e" t]
  by (auto simp: scanEvent_def event_row_of_def storable_event_def parse_fmt_time stored_event_def)

lemma scanEvent_fields:
  "scanEvent r = Inr e \<Longrightarrow> e_EventID e = er_event_id r \<and> e_EventType e = er_event_type r \<and>
   e_SourceNodeID e = er_source_node_id r"
  by (auto simp: scanEvent_def split: option.splits sum.splits)

lemma hits_text_row:
  assumes "sql_log_wf s" "r \<in> set (ss_events s)"
  shows "query_where opts r = hits_text opts (scanned scanEvent r)"
proof -
  have "scanEvent r = Inr (scanned scanEvent r)" using assms scans_scanned by (auto simp: sql_log_wf_def)
  moreover have t: "er_timestamp r = fmt_time (e_Timestamp (scanned scanEvent r))"
    using assms unfolding sql_log_wf_def by blast
  ultimately show ?thesis
    using scanEvent_fields unfolding query_where_def hits_text_def t by metis
qed

lemma sql_log_filter:
  assumes "sql_log_wf s"
  shows "mset (map (scanned scanEvent) (filter (query_where opts) (ss_events s))) =
    filter_mset (hits_text opts) (sql_log s)"
proof -
  have "filter (query_where opts) (ss_events s) =
      filter (\<lambda>r. hits_text opts (scanned scanEvent r)) (ss_events s)"
    using hits_text_row [OF assms] by (rule filter_cong [OF refl])
  then show ?thesis
    by (simp add: sql_log_def filter_mset_image_mset flip: mset_filter mset_map)
      (simp add: filter_map comp_def flip: mset_map)
qed

lemma consume_store [simp]:
  "ss_events (consume s) = ss_events s" "ss_cfg (consume s) = ss_cfg s"
  "ss_closed (consume s) = ss_closed s" "ss_closeOnce (consume s) = ss_closeOnce s"
  "sql_log (consume s) = sql_log s" "sql_log_wf (consume s) = sql_log_wf s"
  by (simp_all add: consume_def sql_log_def sql_log_wf_def)

lemma SQL_Append_None:
  assumes "SQL_Append c w (Some e) s = (None, s')"
  obtains t where "marshalPayload (e_Payload e) = Inr t" "\<not> ss_closed s"
    "e_EventID e \<notin> er_event_id ` set (ss_events s)"
    "s' = (consume s)\<lparr>ss_events := ss_events s @ [event_row_of e t (cfg_now (ss_cfg s) w)]\<rparr>"
proof -
  have "er_event_id (event_row_of e t n) = e_EventID e" for t n by (simp add: event_row_of_def)
  then show thesis
    using assms that
    by (auto simp: SQL_Append_def sql_insert_Inr split: option.splits sum.splits if_splits)
qed

lemma SQL_Append_Some:
  "SQL_Append c w oe s = (Some err, s') \<Longrightarrow> s' = s \<or> s' = consume s"
  by (auto simp: SQL_Append_def split: option.splits sum.splits if_splits)

lemma SQL_Query_Inr:
  assumes "sql_log_wf s" "SQL_Query srt c opts s = (Inr es, s')" "\<And>xs. set (srt xs) = set xs"
  shows "s' = consume (consume s) \<and> \<not> ss_closed s \<and>
    es = map (scanned scanEvent) (query_limit opts (srt (filter (query_where opts) (ss_events s))))"
proof -
  let ?rows = "query_limit opts (srt (filter (query_where opts) (ss_events s)))"
  have "set ?rows \<subseteq> set (ss_events s)"
    using set_sql_limit assms(3) by (fastforce simp: query_limit_def)
  then have "scan_rows scanEvent ?rows = Inr (map (scanned scanEvent) ?rows)"
    using assms(1) by (auto simp: sql_log_wf_def intro: scan_rows_scans scans_mono)
  then show ?thesis
    using assms(2) by (auto simp: SQL_Query_def split: option.splits if_splits)
qed

lemma mset_query_limit: "mset (query_limit opts rows) \<subseteq># mset rows"
proof -
  have "mset (take n (drop m rows)) \<subseteq># mset rows" "mset (drop m rows) \<subseteq># mset rows" for n m
    by (metis append_take_drop_id mset_append mset_subset_eq_add_left mset_subset_eq_add_right
        subset_mset.order_trans)+
  then show ?thesis by (simp add: query_limit_def sql_limit_def Let_def)
qed

lemma sql_delete_ids:
  assumes "distinct (map er_event_id tbl)" "set rows \<subseteq> set tbl" "distinct rows"
  shows "length (sql_delete (\<lambda>r. er_event_id r \<in> er_event_id ` set rows) tbl) + length rows = length tbl"
proof -
  have "filter (\<lambda>r. er_event_id r \<in> er_event_id ` set rows) tbl = filter (\<lambda>r. r \<in> set rows) tbl"
    using assms(1,2) by (intro filter_cong) (auto dest: distinct_map_inj)
  moreover have "set (filter (\<lambda>r. r \<in> set rows) tbl) = set rows" using assms(2) by auto
  moreover have "distinct (filter (\<lambda>r. r \<in> set rows) tbl)"
    using assms(1) by (simp add: distinct_map)
  ultimately have "length (filter (\<lambda>r. er_event_id r \<in> er_event_id ` set rows) tbl) = length rows"
    using assms(3) by (metis distinct_card)
  then show ?thesis
    using length_filter_partition [of "\<lambda>r. er_event_id r \<in> er_event_id ` set rows" tbl]
    by (simp add: sql_delete_def)
qed

lemma length_sql_delete: "length (sql_delete p tbl) + sql_count p tbl = length tbl"
  using length_filter_partition [of p tbl] by (simp add: sql_delete_def sql_count_def)

lemma SQL_Cleanup_result:
  fixes s :: SQLiteEventStore and w :: world
  defines "kept \<equiv> sql_delete (expired_row w s) (ss_events s)"
  assumes "SQL_Cleanup srt c w s = ((n, v), s')"
  shows "ss_cfg s' = ss_cfg s \<and> ss_closed s' = ss_closed s \<and> ss_closeOnce s' = ss_closeOnce s \<and>
    ((v \<noteq> None \<and> (ss_events s' = ss_events s \<or> ss_events s' = kept)) \<or>
     (v = None \<and> ss_events s' = kept \<and> int (length kept) \<le> sc_MaxEvents (ss_cfg s) \<and>
       n = int (sql_count (expired_row w s) (ss_events s))) \<or>
     (v = None \<and> sc_MaxEvents (ss_cfg s) < int (length kept) \<and>
       ss_events s' = drop_ids (over_limit srt s kept) kept \<and>
       n = int (sql_count (expired_row w s) (ss_events s)) + (int (length kept) - sc_MaxEvents (ss_cfg s))))"
  using assms(2) unfolding SQL_Cleanup_def countEvents_def kept_def
  by (auto simp: Let_def split: option.splits if_splits)

lemma SQL_Cleanup_cases:
  assumes "sql_log_wf s" "SQL_Cleanup srt c w s = ((n, v), s')" "sorts_by er_timestamp srt"
  shows "(\<exists>p. ss_events s' = filter p (ss_events s)) \<and> ss_cfg s' = ss_cfg s \<and>
    ss_closed s' = ss_closed s \<and> ss_closeOnce s' = ss_closeOnce s \<and>
    (v = None \<longrightarrow> n = int (length (ss_events s)) - int (length (ss_events s')) \<and>
       int (length (ss_events s')) \<le> sc_MaxEvents (ss_cfg s) \<and>
       (\<forall>r\<in>set (ss_events s'). \<not> expired_row w s r))"
proof -
  let ?kept = "sql_delete (expired_row w s) (ss_events s)"
  let ?rows = "over_limit srt s ?kept"
  have max: "0 < sc_MaxEvents (ss_cfg s)" using assms(1) by (simp add: sql_log_wf_def cfg_ok_def)
  have d: "distinct (map er_event_id ?kept)"
    using assms(1) by (simp add: sql_log_wf_def sql_delete_distinct)
  have "distinct (srt ?kept)"
    using d sorts_by_set [OF assms(3)] sorts_by_length [OF assms(3)]
    by (metis card_distinct distinct_card distinct_map)
  then have "distinct ?rows" by (simp add: over_limit_def)
  moreover have "set ?rows \<subseteq> set ?kept"
    using sorts_by_set [OF assms(3)] by (metis over_limit_def set_take_subset)
  ultimately have rest: "length (drop_ids ?rows ?kept) + length ?rows = length ?kept"
    using sql_delete_ids [OF d] by (simp add: drop_ids_def)
  have len: "length ?rows = nat (int (length ?kept) - sc_MaxEvents (ss_cfg s))"
    using max sorts_by_length [OF assms(3), of ?kept] by (simp add: over_limit_def)
  have kept: "length ?kept + sql_count (expired_row w s) (ss_events s) = length (ss_events s)"
    by (rule length_sql_delete)
  have fresh: "\<forall>r\<in>set ?kept. \<not> expired_row w s r" "set (drop_ids ?rows ?kept) \<subseteq> set ?kept"
    by (auto simp: sql_delete_def drop_ids_def)
  have filters: "\<exists>p. ss_events s = filter p (ss_events s)" "\<exists>p. ?kept = filter p (ss_events s)"
      "\<exists>p. drop_ids ?rows ?kept = filter p (ss_events s)"
    by (rule exI [of _ "\<lambda>_. True"]) (auto simp: sql_delete_def drop_ids_def)
  show ?thesis
    using SQL_Cleanup_result [OF assms(2)] rest len kept
    by (elim conjE disjE) (use fresh filters in \<open>simp; fail | force\<close>)+
qed

lemma sql_log_wf_filter:
  assumes "sql_log_wf s" "ss_events s' = filter p (ss_events s)" "ss_cfg s' = ss_cfg s"
    "ss_closed s' = ss_closed s" "ss_closeOnce s' = ss_closeOnce s"
  shows "sql_log_wf s' \<and> sql_log s' \<subseteq># sql_log s"
proof
  have "mset (filter p (ss_events s)) \<subseteq># mset (ss_events s)" by (simp add: mset_filter)
  then show "sql_log s' \<subseteq># sql_log s"
    unfolding sql_log_def assms(2) mset_map by (rule image_mset_subseteq_mono)
  have "scans scanEvent (ss_events s')"
    using assms(1,2) scans_mono [of scanEvent "ss_events s" "ss_events s'"] by (simp add: sql_log_wf_def)
  then show "sql_log_wf s'"
    using assms unfolding sql_log_wf_def by (metis distinct_map_filter filter_is_subset subsetD)
qed

text \<open>What the store accepts: an instant in the years RFC 3339 writes.\<close>

lemma SQL_Append_acked:
  assumes "sql_log_wf s" "storable_event e" "SQL_Append c w (Some e) s = (None, s')"
  shows "sql_log s' = add_mset (stored_event e) (sql_log s) \<and> sql_log_wf s' \<and> \<not> ss_closed s \<and> \<not> ss_closed s'"
proof -
  obtain t where t: "marshalPayload (e_Payload e) = Inr t" "\<not> ss_closed s"
      "e_EventID e \<notin> er_event_id ` set (ss_events s)"
      "s' = (consume s)\<lparr>ss_events := ss_events s @ [event_row_of e t (cfg_now (ss_cfg s) w)]\<rparr>"
    using SQL_Append_None [OF assms(3)] by blast
  have scan: "scanEvent (event_row_of e t now) = Inr (stored_event e)" for now
    using scan_event_row [OF assms(2) t(1)] .
  have row: "er_event_id (event_row_of e t now) = e_EventID e"
      "er_timestamp (event_row_of e t now) = fmt_time (e_Timestamp (stored_event e))" for now
    by (simp_all add: event_row_of_def stored_event_def)
  show ?thesis
    using assms(1) t by (simp add: sql_log_wf_def sql_log_def scan row) (simp add: scanned_def scan)
qed

lemma SQL_Query_ok:
  assumes "sql_log_wf s" "SQL_Query srt c opts s = (Inr es, s')" "sorts_by er_timestamp srt"
  shows "mset es \<subseteq># filter_mset (hits_text opts) (sql_log s) \<and> sql_log s' = sql_log s \<and> sql_log_wf s' \<and>
    \<not> ss_closed s \<and>
    (qo_Limit opts \<le> 0 \<longrightarrow> qo_Offset opts \<le> 0 \<longrightarrow> mset es = filter_mset (hits_text opts) (sql_log s))"
proof -
  let ?all = "srt (filter (query_where opts) (ss_events s))"
  have q: "s' = consume (consume s)" "\<not> ss_closed s"
      "es = map (scanned scanEvent) (query_limit opts ?all)"
    using SQL_Query_Inr [OF assms(1,2)] sorts_by_set [OF assms(3)] by blast+
  have all: "mset (map (scanned scanEvent) ?all) = filter_mset (hits_text opts) (sql_log s)"
    using assms(3) sql_log_filter [OF assms(1), of opts] by (simp add: sorts_by_def)
  have "mset es \<subseteq># mset (map (scanned scanEvent) ?all)"
    using mset_query_limit by (simp add: q(3) image_mset_subseteq_mono)
  moreover have "qo_Limit opts \<le> 0 \<Longrightarrow> qo_Offset opts \<le> 0 \<Longrightarrow> query_limit opts ?all = ?all"
    by (simp add: query_limit_def sql_limit_def)
  ultimately show ?thesis using all q assms(1) by simp
qed

lemma sql_cleanup_size: "int (size (sql_log s)) = int (length (ss_events s))"
  by (simp add: sql_log_def)

interpretation sql_store: event_store
  SQL_Append "SQL_Query (sort_key er_timestamp)" "SQL_Cleanup (sort_key er_timestamp)" SQL_Close
  ss_closed sql_log stored_event hits_text sql_log_wf storable_event
proof (unfold_locales, goal_cases)
  case (1 s e c w s')
  then show ?case by (rule SQL_Append_acked)
next
  case (2 s c w oe err s')
  then show ?case using SQL_Append_Some by fastforce
next
  case (3 s c opts es s')
  then show ?case using SQL_Query_ok [OF _ _ sorts_by_sort_key] by blast
next
  case (4 s c w n v s')
  from SQL_Cleanup_cases [OF 4 sorts_by_sort_key] obtain p where
    "ss_events s' = filter p (ss_events s)" "ss_cfg s' = ss_cfg s" "ss_closed s' = ss_closed s"
    "ss_closeOnce s' = ss_closeOnce s"
    "v = None \<longrightarrow> n = int (length (ss_events s)) - int (length (ss_events s'))" by blast
  then show ?case using sql_log_wf_filter [OF 4(1)] by (simp add: sql_cleanup_size)
next
  case (5 s v s')
  then show ?case by (auto simp: SQL_Close_def sql_log_wf_def split: if_splits)
qed

subsection \<open>Properties\<close>

definition sample_event :: "string \<Rightarrow> time \<Rightarrow> Event" where
  "sample_event k t = \<lparr>e_EventID = k, e_EventType = EventNodeDeleted, e_Timestamp = t,
     e_SourceNodeID = ''n1'', e_TraceID = [], e_Payload = None\<rparr>"

definition all_events :: QueryOptions where
  "all_events = \<lparr>qo_EventTypes = [], qo_SourceNodeID = [], qo_StartTime = None, qo_EndTime = None,
     qo_Limit = 0, qo_Offset = 0\<rparr>"

definition new_year_2026 :: time where
  "new_year_2026 = 63902822400000000000"

text \<open>The memory store loses and invents nothing: after any appends a query answers with a
  page (offset, then limit) of one list in time order, made of the matching events among
  those acknowledged and those already there, with their multiplicities; whichever routine
  sorts them.\<close>

theorem mem_append_query:
  assumes "sorts_by e_Timestamp srt" "mem_wf s"
    and "appended (\<lambda>s e. Mem_Append c w (Some e) s) es s = (acked, s')"
    and "Mem_Query srt c opts s' = (Inr found, s'')"
  shows "\<exists>all. mset all = filter_mset (hits_query opts) (mset acked + mem_log s) \<and>
    sorted (map e_Timestamp all) \<and> found = mem_page (qo_Limit opts) (qo_Offset opts) all \<and> s'' = s'"
proof -
  have "mem_log s' = mset acked + mem_log s"
    using mem_store.appended_log [OF assms(2) _ assms(3)] by simp
  then show ?thesis using Mem_Query_Inr [OF assms(1,4)] by auto
qed

lemma mem_append_query_witness:
  "\<exists>all. mset all = {#sample_event ''a'' 5, sample_event ''b'' 3#} \<and> sorted (map e_Timestamp all) \<and>
    mem_page 1 0 all = [sample_event ''b'' 3]"
proof -
  let ?s = "NewMemoryEventStore DefaultStoreConfig"
  let ?w = "\<lparr>w_clock = (\<lambda>n. 0), w_uuid = (\<lambda>n. []), w_pos = 0\<rparr>"
  let ?es = "[sample_event ''a'' 5, sample_event ''b'' 3]"
  let ?o = "all_events\<lparr>qo_Limit := 1\<rparr>"
  define s' where "s' = snd (appended (\<lambda>s e. Mem_Append background ?w (Some e) s) ?es ?s)"
  have wf: "mem_wf ?s" by (simp add: mem_wf_def NewMemoryEventStore_def applyDefaults_ok)
  have app: "appended (\<lambda>s e. Mem_Append background ?w (Some e) s) ?es ?s = (?es, s')"
    by (simp add: s'_def Mem_Append_def background_def NewMemoryEventStore_def)
  have q: "Mem_Query (sort_key e_Timestamp) background ?o s' = (Inr [sample_event ''b'' 3], s')"
    by (simp add: s'_def Mem_Append_def background_def NewMemoryEventStore_def Mem_Query_def all_events_def
        matchQuery_def sample_event_def mem_page_def)
  from mem_append_query [OF sorts_by_sort_key wf app q] show ?thesis
    by (simp add: mem_log_def NewMemoryEventStore_def hits_query_def matchQuery_def all_events_def
        sample_event_def add_mset_commute) metis
qed

text \<open>Cleaning the memory store removes exactly the entries older than the TTL and then,
  of what is left, the oldest appended beyond \<open>MaxEvents\<close>; it returns how many went, never
  leaves more than \<open>MaxEvents\<close>, and a refused cleanup removes nothing.\<close>

theorem mem_cleanup_exact:
  assumes "mem_wf s" "Mem_Cleanup c w s = ((n, v), s')"
  shows "(v \<noteq> None \<longrightarrow> n = 0 \<and> s' = s) \<and>
    (v = None \<longrightarrow> int (Mem_Len s) = int (Mem_Len s') + n \<and> int (Mem_Len s') \<le> sc_MaxEvents (ms_cfg s) \<and>
      (\<exists>old. live_entries (cfg_now (ms_cfg s) w) s = old @ ms_entries s' \<and>
        (old \<noteq> [] \<longrightarrow> int (Mem_Len s') = sc_MaxEvents (ms_cfg s))))"
proof -
  have max: "0 < sc_MaxEvents (ms_cfg s)" using assms(1) by (simp add: mem_wf_def cfg_ok_def)
  let ?live = "live_entries (cfg_now (ms_cfg s) w) s"
  let ?k = "nat (int (length ?live) - sc_MaxEvents (ms_cfg s))"
  have "?live = take ?k ?live @ drop ?k ?live" by simp
  moreover have "take ?k ?live \<noteq> [] \<longrightarrow> int (length (drop ?k ?live)) = sc_MaxEvents (ms_cfg s)"
    using max by auto
  ultimately show ?thesis
    using Mem_Cleanup_cases [OF assms(2) max] max by (auto simp: Mem_Len_def simp del: append_take_drop_id)
qed

lemma mem_cleanup_exact_witness:
  "\<exists>s'. Mem_Cleanup background \<lparr>w_clock = (\<lambda>n. 8 * 24 * hour), w_uuid = (\<lambda>n. []), w_pos = 0\<rparr>
      ((NewMemoryEventStore DefaultStoreConfig)\<lparr>ms_entries := [\<lparr>me_event = sample_event ''a'' 5, me_createdAt = 5\<rparr>]\<rparr>)
      = ((1, None), s') \<and> int (Mem_Len s') + 1 = 1"
proof -
  let ?s = "(NewMemoryEventStore DefaultStoreConfig)\<lparr>ms_entries := [\<lparr>me_event = sample_event ''a'' 5, me_createdAt = 5\<rparr>]\<rparr>"
  let ?w = "\<lparr>w_clock = (\<lambda>n. 8 * 24 * hour), w_uuid = (\<lambda>n. []), w_pos = 0\<rparr>"
  have wf: "mem_wf ?s" by (simp add: mem_wf_def NewMemoryEventStore_def applyDefaults_ok)
  have c: "Mem_Cleanup background ?w ?s = ((1, None), ?s\<lparr>ms_entries := []\<rparr>)"
    by (simp add: Mem_Cleanup_def background_def NewMemoryEventStore_def StoreConfig_applyDefaults_def
        DefaultStoreConfig_def cfg_now_def now_of_def)
  from mem_cleanup_exact [OF wf c] c show ?thesis by (auto simp: Mem_Len_def)
qed


definition fresh_sql :: SQLiteEventStore where
  "fresh_sql = \<lparr>faults = [], ss_events = [], ss_cfg = DefaultStoreConfig, ss_closed = False, ss_closeOnce = False\<rparr>"

definition clock0 :: world where
  "clock0 = \<lparr>w_clock = (\<lambda>n. new_year_2026), w_uuid = (\<lambda>n. []), w_pos = 0\<rparr>"

lemma fresh_sql_wf: "sql_log_wf fresh_sql"
  by (simp add: sql_log_wf_def fresh_sql_def scans_def cfg_ok_def DefaultStoreConfig_def)

text \<open>Two events of one second, the later one with a fraction.\<close>

definition early :: Event where "early = sample_event ''early'' new_year_2026"
definition late :: Event where "late = sample_event ''late'' (new_year_2026 + 250000000)"

definition two_events :: SQLiteEventStore where
  "two_events = fresh_sql\<lparr>ss_events :=
     [event_row_of early (JText GNil) new_year_2026, event_row_of late (JText GNil) new_year_2026]\<rparr>"

lemma sample_fields [simp]:
  "e_EventID early = ''early''" "e_EventID late = ''late''" "e_Payload early = None" "e_Payload late = None"
  by (simp_all add: early_def late_def sample_event_def)

lemma row_ids [simp]: "er_event_id (event_row_of e p t) = e_EventID e"
  by (simp add: event_row_of_def)

lemma two_appends:
  "appended (\<lambda>s e. SQL_Append background clock0 (Some e) s) [early, late] fresh_sql = ([early, late], two_events)"
  by (simp add: SQL_Append_def background_def fresh_sql_def marshalPayload_def
      two_events_def sql_insert_def cfg_now_def DefaultStoreConfig_def clock0_def now_of_def)

lemma storable_samples: "storable_event early" "storable_event late"
  by (simp_all add: storable_event_def early_def late_def sample_event_def new_year_2026_def year_10000_def)

lemma sample_rows:
  "scanEvent (event_row_of early (JText GNil) t) = Inr early"
  "scanEvent (event_row_of late (JText GNil) t) = Inr late"
proof -
  have "stored_event early = early" "stored_event late = late"
    by (simp_all add: stored_event_def early_def late_def sample_event_def marshalPayload_def unmarshalPayload_def)
  then show "scanEvent (event_row_of early (JText GNil) t) = Inr early"
    "scanEvent (event_row_of late (JText GNil) t) = Inr late"
    using scan_event_row [OF storable_samples(1)] scan_event_row [OF storable_samples(2)]
    by (simp_all add: marshalPayload_def early_def late_def sample_event_def)
qed

text \<open>The text of the later instant comes first: the fraction's dot is below the \<open>Z\<close>.\<close>

lemma text_order: "fmt_time (e_Timestamp late) < fmt_time (e_Timestamp early)"
  by (simp add: late_def early_def sample_event_def new_year_2026_def fmt_eval)

lemma event_row_fields:
  "er_timestamp (event_row_of e p t) = fmt_time (e_Timestamp e)"
  "er_event_type (event_row_of e p t) = e_EventType e"
  "er_source_node_id (event_row_of e p t) = e_SourceNodeID e"
  by (simp_all add: event_row_of_def)

lemma two_events_query:
  "SQL_Query (sort_key er_timestamp) background all_events two_events = (Inr [late, early], two_events)"
  "SQL_Query (sort_key er_timestamp) background (all_events\<lparr>qo_StartTime := Some (e_Timestamp early)\<rparr>) two_events =
    (Inr [early], two_events)"
  using text_order
  by (simp_all add: SQL_Query_def background_def two_events_def fresh_sql_def all_events_def query_where_def
      event_row_fields query_limit_def sql_limit_def sample_rows not_le [symmetric])


text \<open>Contrary to its documentation, the SQLite store does not answer in ascending order of
  the events' instants, and its time bounds are not bounds on instants: of two events of the
  same second, the one a quarter of a second later is listed first, and a query from the
  earlier instant on misses it, while the memory store's filter accepts it.\<close>

theorem sql_order_not_chronological:
  "appended (\<lambda>s e. SQL_Append background clock0 (Some e) s) [early, late] fresh_sql = ([early, late], two_events) \<and>
   e_Timestamp early < e_Timestamp late \<and>
   fst (SQL_Query (sort_key er_timestamp) background all_events two_events) = Inr [late, early] \<and>
   fst (SQL_Query (sort_key er_timestamp) background (all_events\<lparr>qo_StartTime := Some (e_Timestamp early)\<rparr>)
     two_events) = Inr [early] \<and>
   hits_query (all_events\<lparr>qo_StartTime := Some (e_Timestamp early)\<rparr>) late"
proof -
  have "e_Timestamp early < e_Timestamp late" by (simp add: early_def late_def sample_event_def)
  moreover have "hits_query (all_events\<lparr>qo_StartTime := Some (e_Timestamp early)\<rparr>) late"
    by (simp add: early_def late_def sample_event_def hits_query_def matchQuery_def all_events_def)
  ultimately show ?thesis unfolding two_appends two_events_query fst_conv by blast
qed

text \<open>A cleanup of the SQLite store that returns nil leaves at most \<open>MaxEvents\<close> events, none
  whose stored creation time is below the cutoff text, and reports exactly how many it
  deleted; with or without an error it only removes rows.\<close>

theorem sql_cleanup_bound:
  assumes "sql_log_wf s" "sorts_by er_timestamp srt" "SQL_Cleanup srt c w s = ((n, v), s')"
  shows "sql_log s' \<subseteq># sql_log s \<and> sql_log_wf s' \<and>
    (v = None \<longrightarrow> int (length (ss_events s')) \<le> sc_MaxEvents (ss_cfg s) \<and>
      int (length (ss_events s)) = int (length (ss_events s')) + n \<and>
      (\<forall>r\<in>set (ss_events s'). \<not> expired_row w s r))"
proof -
  from SQL_Cleanup_cases [OF assms(1,3,2)] obtain p where "ss_events s' = filter p (ss_events s)" by blast
  with SQL_Cleanup_cases [OF assms(1,3,2)] sql_log_wf_filter [OF assms(1)] show ?thesis by auto
qed

lemma sql_cleanup_bound_witness:
  "\<exists>s'. SQL_Cleanup (sort_key er_timestamp) background clock0
      (two_events\<lparr>ss_cfg := DefaultStoreConfig\<lparr>sc_MaxEvents := 1\<rparr>\<rparr>) = ((1, None), s') \<and>
    int (length (ss_events s')) \<le> 1"
proof -
  let ?s = "two_events\<lparr>ss_cfg := DefaultStoreConfig\<lparr>sc_MaxEvents := 1\<rparr>\<rparr>"
  have wf: "sql_log_wf ?s"
    using storable_samples
    by (simp add: sql_log_wf_def two_events_def fresh_sql_def scans_def sample_rows scanned_def cfg_ok_def
        DefaultStoreConfig_def event_row_fields)
  have "\<not> fmt_time new_year_2026 < fmt_time (new_year_2026 - 604800000000000)"
    by (simp add: new_year_2026_def fmt_eval)
  moreover have "er_created_at (event_row_of e p t) = fmt_time t" for e p t by (simp add: event_row_of_def)
  ultimately have fresh: "\<not> expired_row clock0 ?s (event_row_of e p new_year_2026)" for e p
    by (simp add: expired_row_def cfg_now_def now_of_def clock0_def DefaultStoreConfig_def)
  have "ss_events ?s = [event_row_of early (JText GNil) new_year_2026, event_row_of late (JText GNil) new_year_2026]"
    "sc_MaxEvents (ss_cfg ?s) = 1" "next_fault ?s = None" "\<not> ss_closed ?s" "faults ?s = []"
    by (simp_all add: two_events_def fresh_sql_def)
  then obtain s' where "SQL_Cleanup (sort_key er_timestamp) background clock0 ?s = ((1, None), s')"
    using fresh
    by (simp add: SQL_Cleanup_def background_def countEvents_def sql_count_def sql_delete_def)
  with sql_cleanup_bound [OF wf sorts_by_sort_key this] show ?thesis by auto
qed

end
