(* ===== verification/SchemaRegistry.thy ===== *)
theory SchemaRegistry
  imports Event
begin

text \<open>
  \<open>pkg/event/schema.go\<close>: the registry of event schemas. A schema lists the payload
  fields an event type must carry; the fields of the built-in types are derived from the
  payload structs' JSON tags.
\<close>

record FieldDef =
  fd_Name :: string
  fd_Type :: string
  fd_Required :: bool

record Schema =
  s_EventType :: EventType
  s_Version :: string
  s_Fields :: "FieldDef list"

type_synonym Validator = "Event \<Rightarrow> verdict"

record SchemaRegistry =
  sr_schemas :: "EventType \<rightharpoonup> Schema"
  sr_validators :: "EventType \<rightharpoonup> Validator"

abbreviation SchemaVersionDefault :: string where "SchemaVersionDefault \<equiv> ''1.0.0''"

subsection \<open>Fields by reflection\<close>

fun jsonType :: "gotype \<Rightarrow> string" where
  "jsonType TTime = ''timestamp''"
| "jsonType TString = ''string''"
| "jsonType TBool = ''boolean''"
| "jsonType TNumber = ''number''"
| "jsonType TMap = ''object''"
| "jsonType TStructT = ''object''"
| "jsonType TSlice = ''array''"
| "jsonType TAny = ''any''"

fun extractFields :: "struct_field list \<Rightarrow> FieldDef list" where
  "extractFields [] = []"
| "extractFields (f # fs) =
     (if \<not> sf_exported f then extractFields fs
      else if sf_tag f = [] \<or> sf_tag f = ''-'' then extractFields fs
      else if tag_name (sf_tag f) = [] then extractFields fs
      else \<lparr>fd_Name = tag_name (sf_tag f), fd_Type = jsonType (sf_type f),
             fd_Required = \<not> tag_omitempty (sf_tag f)\<rparr> # extractFields fs)"

subsection \<open>Registration\<close>

definition Register :: "EventType \<Rightarrow> string \<Rightarrow> Validator option \<Rightarrow> SchemaRegistry \<Rightarrow> SchemaRegistry" where
  "Register et version validator r =
     (let fields = (case map_of defaultPayloads et of Some p \<Rightarrow> extractFields p | None \<Rightarrow> []) in
      r\<lparr>sr_schemas := (sr_schemas r)(et \<mapsto> \<lparr>s_EventType = et, s_Version = version, s_Fields = fields\<rparr>),
        sr_validators := (sr_validators r)(et := validator)\<rparr>)"

definition registerDefaults :: "SchemaRegistry \<Rightarrow> SchemaRegistry" where
  "registerDefaults r =
     fold (\<lambda>et. Register et SchemaVersionDefault None) (map fst defaultPayloads) r"

definition NewSchemaRegistry :: SchemaRegistry where
  "NewSchemaRegistry = registerDefaults \<lparr>sr_schemas = Map.empty, sr_validators = Map.empty\<rparr>"

definition GetSchema :: "SchemaRegistry \<Rightarrow> EventType \<Rightarrow> Schema option" where
  "GetSchema r et = sr_schemas r et"

text \<open>\<open>ListSchemas\<close> ranges over the map in the order \<open>ks\<close> and sorts by event type.\<close>

definition ListSchemas :: "EventType list \<Rightarrow> SchemaRegistry \<Rightarrow> Schema list" where
  "ListSchemas ks r = sort_key s_EventType (map (\<lambda>k. the (sr_schemas r k)) ks)"

subsection \<open>Validation\<close>

text \<open>The loop over the schema's fields: the first required field that is missing or empty.\<close>

fun check_fields :: "EventType \<Rightarrow> gomap \<Rightarrow> FieldDef list \<Rightarrow> verdict" where
  "check_fields et p [] = None"
| "check_fields et p (f # fs) =
     (if \<not> fd_Required f then check_fields et p fs
      else case map_of p (fd_Name f) of
        None \<Rightarrow> Some (Errorf (''missing required field: '' @ fd_Name f))
      | Some v \<Rightarrow>
          if v = GNil then Some (Errorf (''missing required field: '' @ fd_Name f))
          else if isEmptyValue v then Some (Errorf (''required field is empty: '' @ fd_Name f))
          else check_fields et p fs)"

definition Registry_Validate :: "SchemaRegistry \<Rightarrow> Event option \<Rightarrow> verdict" where
  "Registry_Validate r ev =
     (case ev of None \<Rightarrow> Some (Errorf ''event must not be nil'')
      | Some e \<Rightarrow>
        if e_EventID e = [] then Some (Errorf ''eventId must not be empty'')
        else if e_EventType e = [] then Some (Errorf ''eventType must not be empty'')
        else if e_SourceNodeID e = [] then Some (Errorf ''sourceNodeId must not be empty'')
        else if IsZero (e_Timestamp e) then Some (Errorf ''timestamp must not be zero'')
        else case sr_schemas r (e_EventType e) of
            None \<Rightarrow> Some (Errorf (''unregistered event type: '' @ e_EventType e))
          | Some schema \<Rightarrow>
              (case e_Payload e of
                 None \<Rightarrow> Some (Errorf (''nil payload: '' @ e_EventType e))
               | Some p \<Rightarrow>
                   (case check_fields (e_EventType e) p (s_Fields schema) of
                      Some err \<Rightarrow> Some err
                    | None \<Rightarrow> (case sr_validators r (e_EventType e) of
                                None \<Rightarrow> None
                              | Some validator \<Rightarrow> validator e))))"

subsection \<open>What validation guarantees\<close>

definition header_ok :: "Event \<Rightarrow> bool" where
  "header_ok e \<longleftrightarrow> e_EventID e \<noteq> [] \<and> e_EventType e \<noteq> [] \<and> e_SourceNodeID e \<noteq> [] \<and> e_Timestamp e \<noteq> 0"

definition carries :: "gomap \<Rightarrow> string \<Rightarrow> bool" where
  "carries p k \<longleftrightarrow> (case map_of p k of None \<Rightarrow> False | Some v \<Rightarrow> \<not> isEmptyValue v)"

lemma check_fields_iff:
  "check_fields et p fs = None \<longleftrightarrow> (\<forall>f\<in>set fs. fd_Required f \<longrightarrow> carries p (fd_Name f))"
  by (induction fs) (auto simp: carries_def isEmptyValue_def split: option.splits)

lemma check_fields_SomeD:
  "check_fields et p fs = Some err \<Longrightarrow> \<exists>f\<in>set fs. fd_Required f \<and> \<not> carries p (fd_Name f)"
  using check_fields_iff [of et p fs] by auto

lemma Registry_Validate_iff:
  "Registry_Validate r (Some e) = None \<longleftrightarrow>
     header_ok e \<and>
     (\<exists>schema p. sr_schemas r (e_EventType e) = Some schema \<and> e_Payload e = Some p \<and>
        (\<forall>f\<in>set (s_Fields schema). fd_Required f \<longrightarrow> carries p (fd_Name f)) \<and>
        (\<forall>v. sr_validators r (e_EventType e) = Some v \<longrightarrow> v e = None))"
  by (auto simp: Registry_Validate_def header_ok_def IsZero_def check_fields_iff
      split: option.splits dest: check_fields_SomeD)

text \<open>The registry holds the 14 built-in types, each with the fields of its struct.\<close>

lemma fold_Register_schemas:
  "sr_schemas (fold (\<lambda>et. Register et v None) ets r) et =
     (if et \<in> set ets
      then Some \<lparr>s_EventType = et, s_Version = v,
        s_Fields = (case map_of defaultPayloads et of Some p \<Rightarrow> extractFields p | None \<Rightarrow> [])\<rparr>
      else sr_schemas r et)"
  by (induction ets arbitrary: r) (auto simp: Register_def Let_def)

lemma fold_Register_validators:
  "sr_validators (fold (\<lambda>et. Register et v None) ets r) et =
     (if et \<in> set ets then None else sr_validators r et)"
  by (induction ets arbitrary: r) (auto simp: Register_def Let_def)

lemma NewSchemaRegistry_schemas:
  "sr_schemas NewSchemaRegistry et =
     map_option (\<lambda>p. \<lparr>s_EventType = et, s_Version = SchemaVersionDefault, s_Fields = extractFields p\<rparr>)
       (map_of defaultPayloads et)"
  using weak_map_of_SomeI [of et _ defaultPayloads]
  by (auto simp: NewSchemaRegistry_def registerDefaults_def fold_Register_schemas
      map_of_eq_None_iff split: option.splits)

lemma NewSchemaRegistry_validators [simp]: "sr_validators NewSchemaRegistry = Map.empty"
  by (auto simp: NewSchemaRegistry_def registerDefaults_def fold_Register_validators)

text \<open>A field of a struct whose tag names it and lets reflection see it.\<close>

definition plain_field :: "struct_field \<Rightarrow> bool" where
  "plain_field f \<longleftrightarrow> sf_exported f \<and> sf_tag f \<noteq> [] \<and> sf_tag f \<noteq> ''-'' \<and> tag_name (sf_tag f) \<noteq> []"

lemma extractFields_plain:
  "list_all plain_field fs \<Longrightarrow> extractFields fs =
     map (\<lambda>f. \<lparr>fd_Name = tag_name (sf_tag f), fd_Type = jsonType (sf_type f),
               fd_Required = \<not> tag_omitempty (sf_tag f)\<rparr>) fs"
  by (induction fs) (auto simp: plain_field_def)

lemmas tag_eval = tag_name_def tag_omitempty_def trim_space_def is_space_def

lemma defaultPayloads_plain:
  "map_of defaultPayloads et = Some fs \<Longrightarrow>
   list_all plain_field fs \<and> distinct (map (\<lambda>f. tag_name (sf_tag f)) fs)"
  by (auto simp: defaultPayloads_def plain_field_def tag_eval split: if_splits)

lemma payload_type_known: "\<exists>fs. map_of defaultPayloads (payload_type p) = Some fs"
  by (cases p) (simp_all add: defaultPayloads_def)

text \<open>A payload whose required fields all hold something.\<close>

definition payload_complete :: "payload \<Rightarrow> bool" where
  "payload_complete p \<longleftrightarrow>
     (\<forall>(f, v)\<in>set (zip (the (map_of defaultPayloads (payload_type p))) (payload_values p)).
        \<not> tag_omitempty (sf_tag f) \<longrightarrow> \<not> isEmptyValue v)"

lemma payload_arity:
  "map_of defaultPayloads (payload_type p) = Some fs \<Longrightarrow> length fs = length (payload_values p)"
  by (cases p) (auto simp: defaultPayloads_def)

lemma struct_value_lookup:
  assumes "distinct (map (\<lambda>f. tag_name (sf_tag f)) fs)" and "length fs = length vs"
    and "(f, v) \<in> set (zip fs vs)" and "\<not> (tag_omitempty (sf_tag f) \<and> v = GStr [])"
  shows "\<exists>kvs. struct_value fs vs = GStruct kvs \<and> map_of kvs (tag_name (sf_tag f)) = Some v"
proof -
  let ?keep = "\<lambda>(f, v). \<not> (tag_omitempty (sf_tag f) \<and> v = GStr [])"
  let ?kvs = "map (\<lambda>(f, v). (tag_name (sf_tag f), v)) (filter ?keep (zip fs vs))"
  have "map (\<lambda>x. tag_name (sf_tag (fst x))) (zip fs vs) = map (\<lambda>f. tag_name (sf_tag f)) fs"
    using assms(2) by (induction fs vs rule: list_induct2) auto
  then have "distinct (map (\<lambda>x. tag_name (sf_tag (fst x))) (filter ?keep (zip fs vs)))"
    using assms(1) by (metis distinct_map_filter)
  moreover have "map fst ?kvs = map (\<lambda>x. tag_name (sf_tag (fst x))) (filter ?keep (zip fs vs))"
    by auto
  ultimately have "distinct (map fst ?kvs)" by metis
  moreover have "(tag_name (sf_tag f), v) \<in> set ?kvs"
    using assms(3,4) by force
  ultimately show ?thesis by (auto simp: struct_value_def intro: map_of_is_SomeI)
qed

text \<open>An event that carries a complete struct payload passes the default registry.\<close>

lemma payload_event_valid:
  assumes "payload_complete p" and "SetPayload e (payload_value p) = Inr e'"
    and "e_EventType e = payload_type p" and "header_ok e"
  shows "Registry_Validate NewSchemaRegistry (Some e') = None"
proof -
  obtain fs where fs: "map_of defaultPayloads (payload_type p) = Some fs"
    using payload_type_known by blast
  note plain = defaultPayloads_plain [OF fs]
  obtain kvs where kvs: "payload_value p = GStruct kvs"
    by (simp add: payload_value_def struct_value_def)
  with assms(2) obtain ws where ws: "json_fields kvs = Inr ws" "e' = e\<lparr>e_Payload := Some ws\<rparr>"
    by (auto simp: SetPayload_def split: sum.splits)
  have "carries ws (tag_name (sf_tag f))" if "f \<in> set fs" "\<not> tag_omitempty (sf_tag f)" for f
  proof -
    from that(1) payload_arity [OF fs] obtain v where v: "(f, v) \<in> set (zip fs (payload_values p))"
      by (metis in_set_impl_in_set_zip1)
    then have ne: "\<not> isEmptyValue v" using assms(1) fs that by (auto simp: payload_complete_def)
    have "map_of kvs (tag_name (sf_tag f)) = Some v"
      using struct_value_lookup [of fs "payload_values p" f v] plain payload_arity [OF fs] v that kvs fs
      by (auto simp: payload_value_def)
    then obtain w where "json_norm v = Inr w" "map_of ws (tag_name (sf_tag f)) = Some w"
      using json_fields_lookup [OF ws(1)] by blast
    then show ?thesis using ne json_norm_not_empty by (simp add: carries_def)
  qed
  then show ?thesis
    using assms(3,4) fs plain ws(2)
    by (auto simp: Registry_Validate_iff NewSchemaRegistry_schemas extractFields_plain header_ok_def)
qed

end
