(* ===== verification/LocalBus.thy ===== *)
theory LocalBus
  imports EventStore SchemaRegistry "HOL-Library.Sublist"
begin

text \<open>
  \<open>internal/core/local_bus.go\<close> and the interface \<open>MessageBus\<close> of \<open>bus.go\<close>: the in-process
  event bus. Two views of it. The functions \<open>LocalBus_Publish\<close>, \<open>LocalBus_Replay\<close> and so on are
  the methods as one caller runs them. The relation \<open>bus_step\<close> is the concurrent program:
  the points where a publisher, the dispatcher, the cleaner, subscribers and \<open>Close\<close> touch
  shared state are its steps, in any interleaving. A call of the function is a run of it.
\<close>

subsection \<open>State\<close>

text \<open>A subscriber's buffered channel is the queue of what it has not read. The counter of
  subscriber ids is a \<open>uint64\<close>; 2 to the 64 subscriptions are out of reach.\<close>

record subscriber =
  sub_id :: nat
  sub_types :: "EventType set"
  sub_cap :: nat
  sub_ch :: "Event list"

text \<open>
  \<open>lb_checked\<close> and \<open>lb_sending\<close> are program counters: the events whose publishers have passed
  the checks, or have persisted the event and stand at the send on \<open>publishCh\<close>; \<open>lb_replaying\<close> what running replays have yet
  to hand out.
  \<open>lb_exited\<close> says that \<open>dispatchLoop\<close> has returned.
\<close>

record 's LocalBus =
  lb_store :: 's
  lb_registry :: SchemaRegistry
  lb_subs :: "subscriber list"
  lb_nextSubID :: nat
  lb_publishCh :: "Event list"
  lb_checked :: "Event list"
  lb_sending :: "Event list"
  lb_replaying :: "Event list list"
  lb_done :: bool
  lb_exited :: bool
  lb_closeOnce :: bool
  lb_dropped :: nat

definition publishBufferSize :: nat where "publishBufferSize = 1024"
definition defaultSubscribeBufferSize :: int where "defaultSubscribeBufferSize = 256"

definition sub_matches :: "subscriber \<Rightarrow> EventType \<Rightarrow> bool" where
  "sub_matches s et \<longleftrightarrow> sub_types s = {} \<or> et \<in> sub_types s"

definition NewLocalBus :: "'s \<Rightarrow> SchemaRegistry option \<Rightarrow> 's LocalBus" where
  "NewLocalBus store registry =
     \<lparr>lb_store = store, lb_registry = (case registry of None \<Rightarrow> NewSchemaRegistry | Some r \<Rightarrow> r),
      lb_subs = [], lb_nextSubID = 0, lb_publishCh = [], lb_checked = [], lb_sending = [],
      lb_replaying = [],      lb_done = False, lb_exited = False, lb_closeOnce = False, lb_dropped = 0\<rparr>"

subsection \<open>Fan-out\<close>

text \<open>Each matching subscriber gets the event unless its buffer is full, then it is counted.\<close>

definition sub_full :: "subscriber \<Rightarrow> bool" where
  "sub_full s \<longleftrightarrow> sub_cap s \<le> length (sub_ch s)"

definition offer :: "Event \<Rightarrow> subscriber \<Rightarrow> subscriber" where
  "offer e s = (if sub_matches s (e_EventType e) \<and> \<not> sub_full s then s\<lparr>sub_ch := sub_ch s @ [e]\<rparr> else s)"

definition fanout :: "Event \<Rightarrow> 's LocalBus \<Rightarrow> 's LocalBus" where
  "fanout e b =
     b\<lparr>lb_subs := map (offer e) (lb_subs b),
       lb_dropped := lb_dropped b + length (filter (\<lambda>s. sub_matches s (e_EventType e) \<and> sub_full s) (lb_subs b))\<rparr>"

text \<open>One turn of \<open>dispatchLoop\<close>.\<close>

definition dispatch_one :: "'s LocalBus \<Rightarrow> 's LocalBus" where
  "dispatch_one b = (case lb_publishCh b of [] \<Rightarrow> b | e # rest \<Rightarrow> fanout e (b\<lparr>lb_publishCh := rest\<rparr>))"

subsection \<open>The methods as one caller runs them\<close>

definition traceIDFromContext :: "ctx \<Rightarrow> string" where
  "traceIDFromContext c = ctx_trace c"

definition with_trace :: "ctx \<Rightarrow> Event \<Rightarrow> Event" where
  "with_trace c e =
     (if e_TraceID e = [] then
        (let tid = traceIDFromContext c in if tid \<noteq> [] then e\<lparr>e_TraceID := tid\<rparr> else e)
      else e)"

text \<open>With \<open>publishCh\<close> full the send waits until the dispatcher has taken its head.\<close>

definition send_publishCh :: "Event \<Rightarrow> 's LocalBus \<Rightarrow> 's LocalBus" where
  "send_publishCh e b =
     (let b1 = (if length (lb_publishCh b) < publishBufferSize then b else dispatch_one b)
      in b1\<lparr>lb_publishCh := lb_publishCh b1 @ [e]\<rparr>)"

definition LocalBus_Publish :: "(ctx \<Rightarrow> world \<Rightarrow> Event option \<Rightarrow> 's \<Rightarrow> verdict \<times> 's) \<Rightarrow> ctx \<Rightarrow> world \<Rightarrow>
    Event option \<Rightarrow> 's LocalBus \<Rightarrow> verdict \<times> 's LocalBus" where
  "LocalBus_Publish app c w ev b =
     (case ev of
        None \<Rightarrow> (Some (Sentinel ErrNilEvent), b)
      | Some e0 \<Rightarrow>
        (if lb_done b then (Some (Sentinel ErrBusClosed), b)
         else
           (let e = with_trace c e0
            in case Registry_Validate (lb_registry b) (Some e) of
                 Some err \<Rightarrow> (Some err, b)
               | None \<Rightarrow>
                 (case app c w (Some e) (lb_store b) of
                    (Some err, s') \<Rightarrow> (Some err, b\<lparr>lb_store := s'\<rparr>)
                  | (None, s') \<Rightarrow> (None, send_publishCh e (b\<lparr>lb_store := s'\<rparr>))))))"

record SubscribeOptions =
  so_EventTypes :: "EventType list"
  so_BufferSize :: int

definition LocalBus_Subscribe :: "SubscribeOptions \<Rightarrow> 's LocalBus \<Rightarrow> nat \<times> 's LocalBus" where
  "LocalBus_Subscribe opts b =
     (let bufSize = (if so_BufferSize opts \<le> 0 then defaultSubscribeBufferSize else so_BufferSize opts);
          k = lb_nextSubID b;
          sub = \<lparr>sub_id = k, sub_types = set (so_EventTypes opts), sub_cap = nat bufSize, sub_ch = []\<rparr>
      in (k, b\<lparr>lb_nextSubID := Suc k, lb_subs := lb_subs b @ [sub]\<rparr>))"

definition LocalBus_Unsubscribe :: "nat \<Rightarrow> 's LocalBus \<Rightarrow> 's LocalBus" where
  "LocalBus_Unsubscribe k b = b\<lparr>lb_subs := filter (\<lambda>s. sub_id s \<noteq> k) (lb_subs b)\<rparr>"

record ReplayOptions =
  ro_EventTypes :: "EventType list"
  ro_SourceNodeID :: string
  ro_StartTime :: "time option"
  ro_EndTime :: "time option"
  ro_Limit :: int

definition replay_query :: "ReplayOptions \<Rightarrow> QueryOptions" where
  "replay_query o1 = \<lparr>qo_EventTypes = ro_EventTypes o1, qo_SourceNodeID = ro_SourceNodeID o1,
     qo_StartTime = ro_StartTime o1, qo_EndTime = ro_EndTime o1, qo_Limit = ro_Limit o1, qo_Offset = 0\<rparr>"

definition LocalBus_Replay :: "(ctx \<Rightarrow> QueryOptions \<Rightarrow> 's \<Rightarrow> Event list res \<times> 's) \<Rightarrow> ctx \<Rightarrow>
    ReplayOptions \<Rightarrow> 's LocalBus \<Rightarrow> Event list res \<times> 's LocalBus" where
  "LocalBus_Replay query c opts b =
     (case query c (replay_query opts) (lb_store b) of
        (Inl err, s') \<Rightarrow> (Inl err, b\<lparr>lb_store := s'\<rparr>)
      | (Inr es, s') \<Rightarrow> (Inr es, fold fanout es (b\<lparr>lb_store := s'\<rparr>)))"

definition LocalBus_Ping :: "ctx \<Rightarrow> 's LocalBus \<Rightarrow> verdict" where
  "LocalBus_Ping c b = None"

text \<open>\<open>Close\<close>: signal, the dispatcher drains \<open>publishCh\<close> and returns, the store is closed.\<close>

fun drain :: "nat \<Rightarrow> 's LocalBus \<Rightarrow> 's LocalBus" where
  "drain 0 b = b"
| "drain (Suc n) b = (if lb_publishCh b = [] then b else drain n (dispatch_one b))"

definition LocalBus_Close :: "('s \<Rightarrow> verdict \<times> 's) \<Rightarrow> 's LocalBus \<Rightarrow> verdict \<times> 's LocalBus" where
  "LocalBus_Close close b =
     (if lb_closeOnce b then (None, b)
      else
        (let b1 = b\<lparr>lb_closeOnce := True, lb_done := True\<rparr>;
             b2 = (drain (length (lb_publishCh b1)) b1)\<lparr>lb_exited := True\<rparr>
         in case close (lb_store b2) of (v, s') \<Rightarrow> (v, b2\<lparr>lb_store := s'\<rparr>)))"

definition DroppedCount :: "'s LocalBus \<Rightarrow> nat" where
  "DroppedCount b = lb_dropped b"

subsection \<open>The concurrent program\<close>

datatype bus_label =
    Checked Event | Refused Event | Persisted Event | Sent Event | Abandoned Event
  | Dispatched Event | Subscribed nat | Unsubscribed nat | Received nat Event
  | Queried "Event list" | Refanned Event | Cleaned | Signalled | Exited | StoreClosed

text \<open>
  After \<open>close(b.done)\<close> both cases of the publisher's \<open>select\<close> can be ready: it may send or
  give up. The dispatcher returns once it has found \<open>publishCh\<close> empty after the signal.
\<close>

inductive bus_step :: "(ctx \<Rightarrow> world \<Rightarrow> Event option \<Rightarrow> 's \<Rightarrow> verdict \<times> 's) \<Rightarrow>
    (ctx \<Rightarrow> QueryOptions \<Rightarrow> 's \<Rightarrow> Event list res \<times> 's) \<Rightarrow> (ctx \<Rightarrow> world \<Rightarrow> 's \<Rightarrow> (int \<times> verdict) \<times> 's) \<Rightarrow>
    ('s \<Rightarrow> verdict \<times> 's) \<Rightarrow> 's LocalBus \<Rightarrow> bus_label \<Rightarrow> 's LocalBus \<Rightarrow> bool"
  for app query cleanup close
where
  step_check: "\<not> lb_done b \<Longrightarrow> e = with_trace c e0 \<Longrightarrow> Registry_Validate (lb_registry b) (Some e) = None \<Longrightarrow>
    bus_step app query cleanup close b (Checked e) (b\<lparr>lb_checked := lb_checked b @ [e]\<rparr>)"
| step_persist: "e \<in> set (lb_checked b) \<Longrightarrow> app c w (Some e) (lb_store b) = (None, s') \<Longrightarrow>
    bus_step app query cleanup close b (Persisted e)
      (b\<lparr>lb_store := s', lb_checked := remove1 e (lb_checked b), lb_sending := lb_sending b @ [e]\<rparr>)"
| step_refuse: "e \<in> set (lb_checked b) \<Longrightarrow> app c w (Some e) (lb_store b) = (Some err, s') \<Longrightarrow>
    bus_step app query cleanup close b (Refused e)
      (b\<lparr>lb_store := s', lb_checked := remove1 e (lb_checked b)\<rparr>)"
| step_send: "e \<in> set (lb_sending b) \<Longrightarrow> length (lb_publishCh b) < publishBufferSize \<Longrightarrow>
    bus_step app query cleanup close b (Sent e)
      (b\<lparr>lb_sending := remove1 e (lb_sending b), lb_publishCh := lb_publishCh b @ [e]\<rparr>)"
| step_abandon: "e \<in> set (lb_sending b) \<Longrightarrow> lb_done b \<Longrightarrow>
    bus_step app query cleanup close b (Abandoned e) (b\<lparr>lb_sending := remove1 e (lb_sending b)\<rparr>)"
| step_dispatch: "\<not> lb_exited b \<Longrightarrow> lb_publishCh b = e # rest \<Longrightarrow>
    bus_step app query cleanup close b (Dispatched e) (fanout e (b\<lparr>lb_publishCh := rest\<rparr>))"
| step_subscribe: "LocalBus_Subscribe opts b = (k, b') \<Longrightarrow>
    bus_step app query cleanup close b (Subscribed k) b'"
| step_unsubscribe: "bus_step app query cleanup close b (Unsubscribed k) (LocalBus_Unsubscribe k b)"
| step_receive: "s \<in> set (lb_subs b) \<Longrightarrow> sub_id s = k \<Longrightarrow> sub_ch s = e # rest \<Longrightarrow>
    bus_step app query cleanup close b (Received k e)
      (b\<lparr>lb_subs := map (\<lambda>t. if sub_id t = k then t\<lparr>sub_ch := rest\<rparr> else t) (lb_subs b)\<rparr>)"
| step_query: "query c (replay_query opts) (lb_store b) = (Inr es, s') \<Longrightarrow>
    bus_step app query cleanup close b (Queried es)
      (b\<lparr>lb_store := s', lb_replaying := es # lb_replaying b\<rparr>)"
| step_refan: "(e # rest) \<in> set (lb_replaying b) \<Longrightarrow>
    bus_step app query cleanup close b (Refanned e)
      (fanout e (b\<lparr>lb_replaying := rest # remove1 (e # rest) (lb_replaying b)\<rparr>))"
| step_clean: "\<not> lb_done b \<Longrightarrow> cleanup c w (lb_store b) = (r, s') \<Longrightarrow>
    bus_step app query cleanup close b Cleaned (b\<lparr>lb_store := s'\<rparr>)"
| step_signal: "\<not> lb_closeOnce b \<Longrightarrow>
    bus_step app query cleanup close b Signalled (b\<lparr>lb_closeOnce := True, lb_done := True\<rparr>)"
| step_exit: "lb_done b \<Longrightarrow> lb_publishCh b = [] \<Longrightarrow>
    bus_step app query cleanup close b Exited (b\<lparr>lb_exited := True\<rparr>)"
| step_close: "lb_exited b \<Longrightarrow> close (lb_store b) = (v, s') \<Longrightarrow>
    bus_step app query cleanup close b StoreClosed (b\<lparr>lb_store := s'\<rparr>)"

inductive bus_run :: "(ctx \<Rightarrow> world \<Rightarrow> Event option \<Rightarrow> 's \<Rightarrow> verdict \<times> 's) \<Rightarrow>
    (ctx \<Rightarrow> QueryOptions \<Rightarrow> 's \<Rightarrow> Event list res \<times> 's) \<Rightarrow> (ctx \<Rightarrow> world \<Rightarrow> 's \<Rightarrow> (int \<times> verdict) \<times> 's) \<Rightarrow>
    ('s \<Rightarrow> verdict \<times> 's) \<Rightarrow> 's LocalBus \<Rightarrow> bus_label list \<Rightarrow> 's LocalBus \<Rightarrow> bool"
  for app query cleanup close
where
  run_empty: "bus_run app query cleanup close b [] b"
| run_step: "bus_run app query cleanup close b tr b1 \<Longrightarrow> bus_step app query cleanup close b1 l b2 \<Longrightarrow>
    bus_run app query cleanup close b (tr @ [l]) b2"

inductive_cases bus_stepE: "bus_step app query cleanup close b l b'"
inductive_simps bus_run_Nil: "bus_run app query cleanup close b [] b'"

subsection \<open>What a run shows\<close>

text \<open>The events at the labels of a kind, in order.\<close>

fun checked_of :: "bus_label \<Rightarrow> Event list" where
  "checked_of (Checked e) = [e]" | "checked_of _ = []"
fun refused_of :: "bus_label \<Rightarrow> Event list" where
  "refused_of (Refused e) = [e]" | "refused_of _ = []"
fun persisted_of :: "bus_label \<Rightarrow> Event list" where
  "persisted_of (Persisted e) = [e]" | "persisted_of _ = []"
fun sent_of :: "bus_label \<Rightarrow> Event list" where
  "sent_of (Sent e) = [e]" | "sent_of _ = []"
fun abandoned_of :: "bus_label \<Rightarrow> Event list" where
  "abandoned_of (Abandoned e) = [e]" | "abandoned_of _ = []"
fun dispatched_of :: "bus_label \<Rightarrow> Event list" where
  "dispatched_of (Dispatched e) = [e]" | "dispatched_of _ = []"
fun fanned_of :: "bus_label \<Rightarrow> Event list" where
  "fanned_of (Dispatched e) = [e]" | "fanned_of (Refanned e) = [e]" | "fanned_of _ = []"
fun received_of :: "nat \<Rightarrow> bus_label \<Rightarrow> Event list" where
  "received_of k (Received j e) = (if j = k then [e] else [])" | "received_of k _ = []"
fun queried_of :: "bus_label \<Rightarrow> Event list" where
  "queried_of (Queried es) = es" | "queried_of _ = []"

definition seen :: "(bus_label \<Rightarrow> Event list) \<Rightarrow> bus_label list \<Rightarrow> Event list" where
  "seen f tr = concat (map f tr)"

lemma seen_simps [simp]: "seen f [] = []" "seen f (tr @ [l]) = seen f tr @ f l"
  by (simp_all add: seen_def)

lemma fanout_simps [simp]:
  "lb_store (fanout e b) = lb_store b" "lb_registry (fanout e b) = lb_registry b"
  "lb_nextSubID (fanout e b) = lb_nextSubID b" "lb_publishCh (fanout e b) = lb_publishCh b"
  "lb_checked (fanout e b) = lb_checked b" "lb_sending (fanout e b) = lb_sending b"
  "lb_replaying (fanout e b) = lb_replaying b" "lb_done (fanout e b) = lb_done b"
  "lb_exited (fanout e b) = lb_exited b" "lb_closeOnce (fanout e b) = lb_closeOnce b"
  "lb_subs (fanout e b) = map (offer e) (lb_subs b)"
  by (simp_all add: fanout_def)

lemma Subscribe_simps:
  "LocalBus_Subscribe opts b = (k, b') \<Longrightarrow> k = lb_nextSubID b \<and> lb_nextSubID b' = Suc k \<and>
     lb_store b' = lb_store b \<and> lb_registry b' = lb_registry b \<and> lb_publishCh b' = lb_publishCh b \<and>
     lb_checked b' = lb_checked b \<and> lb_sending b' = lb_sending b \<and> lb_replaying b' = lb_replaying b \<and>
     lb_done b' = lb_done b \<and> lb_exited b' = lb_exited b \<and>
     (\<exists>s. lb_subs b' = lb_subs b @ [s] \<and> sub_id s = k \<and> sub_ch s = [])"
  by (auto simp: LocalBus_Subscribe_def Let_def)

lemma Unsubscribe_simps [simp]:
  "lb_store (LocalBus_Unsubscribe k b) = lb_store b" "lb_registry (LocalBus_Unsubscribe k b) = lb_registry b"
  "lb_nextSubID (LocalBus_Unsubscribe k b) = lb_nextSubID b"
  "lb_publishCh (LocalBus_Unsubscribe k b) = lb_publishCh b"
  "lb_checked (LocalBus_Unsubscribe k b) = lb_checked b" "lb_sending (LocalBus_Unsubscribe k b) = lb_sending b"
  "lb_replaying (LocalBus_Unsubscribe k b) = lb_replaying b"
  "lb_done (LocalBus_Unsubscribe k b) = lb_done b" "lb_exited (LocalBus_Unsubscribe k b) = lb_exited b"
  "lb_subs (LocalBus_Unsubscribe k b) = filter (\<lambda>s. sub_id s \<noteq> k) (lb_subs b)"
  by (simp_all add: LocalBus_Unsubscribe_def)

text \<open>The queue of the bus: what was sent is what was dispatched and what waits, in order;
  what was persisted has been sent, given up, or stands at the send.\<close>

definition pipe_inv :: "bus_label list \<Rightarrow> 's LocalBus \<Rightarrow> bool" where
  "pipe_inv tr b \<longleftrightarrow>
     seen sent_of tr = seen dispatched_of tr @ lb_publishCh b \<and>
     length (lb_publishCh b) \<le> publishBufferSize \<and>
     mset (seen checked_of tr) = mset (seen refused_of tr) + mset (seen persisted_of tr) + mset (lb_checked b) \<and>
     mset (seen persisted_of tr) = mset (seen sent_of tr) + mset (seen abandoned_of tr) + mset (lb_sending b)"

lemma pipe_step:
  "bus_step app query cleanup close b l b' \<Longrightarrow> pipe_inv tr b \<Longrightarrow> pipe_inv (tr @ [l]) b'"
  by (induction rule: bus_step.cases) (auto simp: pipe_inv_def dest!: Subscribe_simps)

lemma pipe_run:
  "bus_run app query cleanup close b0 tr b \<Longrightarrow> pipe_inv [] b0 \<Longrightarrow> pipe_inv tr b"
  by (induction rule: bus_run.induct) (auto intro: pipe_step)

text \<open>Every event that gets past the checks is valid; what a replay hands out was queried.\<close>

definition source_inv :: "SchemaRegistry \<Rightarrow> bus_label list \<Rightarrow> 's LocalBus \<Rightarrow> bool" where
  "source_inv reg tr b \<longleftrightarrow> lb_registry b = reg \<and>
     (\<forall>e\<in>set (seen checked_of tr). Registry_Validate reg (Some e) = None) \<and>
     (\<forall>es\<in>set (lb_replaying b). set es \<subseteq> set (seen queried_of tr)) \<and>
     set (seen fanned_of tr) \<subseteq> set (seen dispatched_of tr) \<union> set (seen queried_of tr)"

lemma source_step:
  "bus_step app query cleanup close b l b' \<Longrightarrow> source_inv reg tr b \<Longrightarrow> source_inv reg (tr @ [l]) b'"
  by (induction rule: bus_step.cases)
    (auto simp: source_inv_def dest!: Subscribe_simps dest: notin_set_remove1,
      metis list.set_intros(2) subsetD)

lemma source_run:
  "bus_run app query cleanup close b0 tr b \<Longrightarrow> source_inv reg [] b0 \<Longrightarrow> source_inv reg tr b"
  by (induction rule: bus_run.induct) (auto intro: source_step)

text \<open>
  The subscribers: ids are distinct and below the counter, no channel holds more than its
  capacity, and what a subscriber has received or can still receive is, in order, part of
  the fanned-out events it matches.
\<close>

definition sub_inv :: "bus_label list \<Rightarrow> subscriber \<Rightarrow> bool" where
  "sub_inv tr s \<longleftrightarrow> length (sub_ch s) \<le> sub_cap s \<and>
     subseq (seen (received_of (sub_id s)) tr @ sub_ch s)
       (filter (\<lambda>e. sub_matches s (e_EventType e)) (seen fanned_of tr))"

definition subs_inv :: "bus_label list \<Rightarrow> 's LocalBus \<Rightarrow> bool" where
  "subs_inv tr b \<longleftrightarrow>
     distinct (map sub_id (lb_subs b)) \<and>
     (\<forall>s\<in>set (lb_subs b). sub_id s < lb_nextSubID b \<and> sub_inv tr s) \<and>
     (\<forall>k. lb_nextSubID b \<le> k \<longrightarrow> seen (received_of k) tr = [])"

lemma offer_fields [simp]:
  "sub_id (offer e s) = sub_id s" "sub_types (offer e s) = sub_types s" "sub_cap (offer e s) = sub_cap s"
  by (simp_all add: offer_def)

lemma sub_matches_cong: "sub_types s = sub_types t \<Longrightarrow> sub_matches s et = sub_matches t et"
  by (simp add: sub_matches_def)

lemma offer_inv:
  assumes "sub_inv tr s" "fanned_of l = [e]" "\<And>k. received_of k l = []"
  shows "sub_inv (tr @ [l]) (offer e s)"
proof -
  have m: "sub_matches (offer e s) = sub_matches s" by (auto simp: fun_eq_iff sub_matches_def)
  let ?r = "seen (received_of (sub_id s)) tr" and ?f = "filter (\<lambda>e. sub_matches s (e_EventType e)) (seen fanned_of tr)"
  have s: "length (sub_ch s) \<le> sub_cap s" "subseq (?r @ sub_ch s) ?f"
    using assms(1) by (simp_all add: sub_inv_def)
  show ?thesis
  proof (cases "sub_matches s (e_EventType e)")
    case True
    have "subseq ((?r @ sub_ch s) @ [e]) (?f @ [e])" "subseq (?r @ sub_ch s) (?f @ [e])"
      using list_emb_append_mono [OF s(2), of "[e]" "[e]"] list_emb_append_mono [OF s(2), of "[]" "[e]"]
      by simp_all
    then show ?thesis
      using True s assms(2,3) unfolding sub_inv_def m
      by (auto simp: offer_def sub_full_def)
  next
    case False
    then show ?thesis using s assms(2,3) unfolding sub_inv_def m by (simp add: offer_def)
  qed
qed

lemma sub_inv_quiet:
  "fanned_of l = [] \<Longrightarrow> received_of (sub_id s) l = [] \<Longrightarrow> sub_inv (tr @ [l]) s = sub_inv tr s"
  by (simp add: sub_inv_def)

lemma subs_inv_fanout:
  assumes "subs_inv tr b" "fanned_of l = [e]" "\<And>k. received_of k l = []"
    "lb_subs b' = lb_subs b" "lb_nextSubID b' = lb_nextSubID b"
  shows "subs_inv (tr @ [l]) (fanout e b')"
  using assms offer_inv [OF _ assms(2,3), of tr] by (auto simp: subs_inv_def comp_def)

lemma subs_inv_quiet:
  assumes "subs_inv tr b" "fanned_of l = []" "\<And>k. received_of k l = []"
    "set (lb_subs b') \<subseteq> set (lb_subs b)" "distinct (map sub_id (lb_subs b'))" "lb_nextSubID b' = lb_nextSubID b"
  shows "subs_inv (tr @ [l]) b'"
  using assms sub_inv_quiet [OF assms(2,3), of tr] by (auto simp: subs_inv_def)

lemma subs_inv_receive:
  assumes inv: "subs_inv tr b" and s: "s \<in> set (lb_subs b)" "sub_id s = k" "sub_ch s = e # rest"
  shows "subs_inv (tr @ [Received k e])
    (b\<lparr>lb_subs := map (\<lambda>t. if sub_id t = k then t\<lparr>sub_ch := rest\<rparr> else t) (lb_subs b)\<rparr>)"
proof -
  have ids: "map (\<lambda>t. sub_id (if sub_id t = k then t\<lparr>sub_ch := rest\<rparr> else t)) (lb_subs b) = map sub_id (lb_subs b)"
    by simp
  have one: "t = s" if "t \<in> set (lb_subs b)" "sub_id t = k" for t
    using inv s that by (auto simp: subs_inv_def dest: distinct_map_inj)
  have "sub_inv tr s" using inv s by (simp add: subs_inv_def)
  then have this_one: "sub_inv (tr @ [Received k e]) (s\<lparr>sub_ch := rest\<rparr>)"
    using s by (simp add: sub_inv_def sub_matches_def)
  have others: "sub_inv (tr @ [Received k e]) t" if "t \<in> set (lb_subs b)" "sub_id t \<noteq> k" for t
    using inv that by (simp add: sub_inv_quiet subs_inv_def)
  have "k < lb_nextSubID b" using inv s by (auto simp: subs_inv_def)
  then show ?thesis
    using inv this_one others one by (auto simp: subs_inv_def comp_def ids)
qed

lemma subs_step:
  assumes "bus_step app query cleanup close b l b'" "subs_inv tr b"
  shows "subs_inv (tr @ [l]) b'"
  using assms(1)
proof (cases rule: bus_step.cases)
  case (step_dispatch e rest)
  then show ?thesis by (auto intro!: subs_inv_fanout [OF assms(2)])
next
  case (step_refan e rest)
  then show ?thesis by (auto intro!: subs_inv_fanout [OF assms(2)])
next
  case (step_receive s k e rest)
  then show ?thesis using subs_inv_receive [OF assms(2)] by simp
next
  case (step_subscribe opts k)
  obtain s where s: "lb_subs b' = lb_subs b @ [s]" "sub_id s = k" "sub_ch s = []" "k = lb_nextSubID b"
      "lb_nextSubID b' = Suc k" using Subscribe_simps [OF step_subscribe(2)] by blast
  have "seen (received_of k) tr = []" using assms(2) s by (simp add: subs_inv_def)
  then have "sub_inv (tr @ [l]) s" using step_subscribe s by (simp add: sub_inv_def)
  then show ?thesis using assms(2) s step_subscribe(1)
    by (fastforce simp: subs_inv_def sub_inv_quiet less_Suc_eq)
next
  case (step_unsubscribe k)
  have "distinct (map sub_id (filter (\<lambda>s. sub_id s \<noteq> k) (lb_subs b)))"
    using assms(2) by (simp add: subs_inv_def distinct_map_filter)
  then show ?thesis using subs_inv_quiet [OF assms(2), of l b'] step_unsubscribe by auto
qed (use assms(2) in \<open>auto intro: subs_inv_quiet [OF assms(2)] simp: subs_inv_def sub_inv_quiet\<close>)

lemma subs_run:
  "bus_run app query cleanup close b0 tr b \<Longrightarrow> subs_inv [] b0 \<Longrightarrow> subs_inv tr b"
  by (induction rule: bus_run.induct) (auto intro: subs_step)

lemma NewLocalBus_inv:
  "pipe_inv [] (NewLocalBus s reg)" "subs_inv [] (NewLocalBus s reg)"
  "source_inv (lb_registry (NewLocalBus s reg)) [] (NewLocalBus s reg)"
  by (simp_all add: NewLocalBus_def pipe_inv_def subs_inv_def source_inv_def)

subsection \<open>A call is a run\<close>

lemma run2:
  "bus_step app query cleanup close b l1 b1 \<Longrightarrow> bus_step app query cleanup close b1 l2 b2 \<Longrightarrow>
   bus_run app query cleanup close b [l1, l2] b2"
  using run_step [OF run_step [OF run_empty]] by force

lemma run3:
  "bus_step app query cleanup close b l1 b1 \<Longrightarrow> bus_step app query cleanup close b1 l2 b2 \<Longrightarrow>
   bus_step app query cleanup close b2 l3 b3 \<Longrightarrow> bus_run app query cleanup close b [l1, l2, l3] b3"
  using run_step [OF run2] by force

lemma run4:
  "bus_step app query cleanup close b l1 b1 \<Longrightarrow> bus_step app query cleanup close b1 l2 b2 \<Longrightarrow>
   bus_step app query cleanup close b2 l3 b3 \<Longrightarrow> bus_step app query cleanup close b3 l4 b4 \<Longrightarrow>
   bus_run app query cleanup close b [l1, l2, l3, l4] b4"
  using run_step [OF run3] by force

lemma dispatch_one_simps [simp]:
  "lb_store (dispatch_one b) = lb_store b" "lb_registry (dispatch_one b) = lb_registry b"
  "lb_done (dispatch_one b) = lb_done b" "lb_exited (dispatch_one b) = lb_exited b"
  "lb_closeOnce (dispatch_one b) = lb_closeOnce b"
  "lb_publishCh (dispatch_one b) = tl (lb_publishCh b)"
  "lb_checked (dispatch_one b) = lb_checked b" "lb_sending (dispatch_one b) = lb_sending b"
  by (simp_all add: dispatch_one_def split: list.splits)

lemma send_publishCh_simps [simp]:
  "lb_store (send_publishCh e b) = lb_store b" "lb_registry (send_publishCh e b) = lb_registry b"
  "lb_done (send_publishCh e b) = lb_done b" "lb_exited (send_publishCh e b) = lb_exited b"
  by (simp_all add: send_publishCh_def Let_def)

lemma Publish_None:
  assumes "LocalBus_Publish app c w (Some e) b = (None, b')"
  obtains s' where "\<not> lb_done b" "Registry_Validate (lb_registry b) (Some (with_trace c e)) = None"
    "app c w (Some (with_trace c e)) (lb_store b) = (None, s')"
    "b' = send_publishCh (with_trace c e) (b\<lparr>lb_store := s'\<rparr>)"
  using assms that by (auto simp: LocalBus_Publish_def Let_def split: if_splits option.splits prod.splits)

lemma Publish_Some:
  "LocalBus_Publish app c w oe b = (Some err, b') \<Longrightarrow>
   b' = b \<or> (\<exists>e s'. app c w (Some e) (lb_store b) = (Some err, s') \<and> b' = b\<lparr>lb_store := s'\<rparr>)"
  by (auto simp: LocalBus_Publish_def Let_def split: if_splits option.splits prod.splits)

lemma Publish_run:
  assumes pub: "LocalBus_Publish app c w (Some e0) b = (None, b')"
    and idle: "lb_checked b = []" "lb_sending b = []" "\<not> lb_exited b"
      "length (lb_publishCh b) \<le> publishBufferSize"
  shows "\<exists>tr. bus_run app query cleanup close b (tr @ [Sent (with_trace c e0)]) b'"
proof -
  define e where "e = with_trace c e0"
  obtain s' where p: "\<not> lb_done b" "Registry_Validate (lb_registry b) (Some e) = None"
      "app c w (Some e) (lb_store b) = (None, s')" "b' = send_publishCh e (b\<lparr>lb_store := s'\<rparr>)"
    using Publish_None [OF pub] unfolding e_def by blast
  define b1 where "b1 = b\<lparr>lb_checked := [e]\<rparr>"
  define b2 where "b2 = b1\<lparr>lb_store := s', lb_checked := [], lb_sending := [e]\<rparr>"
  have s1: "bus_step app query cleanup close b (Checked e) b1"
    using step_check [of b e c e0 app query cleanup close] p idle(1) by (simp add: e_def b1_def)
  have s2: "bus_step app query cleanup close b1 (Persisted e) b2"
    using step_persist [of e b1 app c w s' query cleanup close] p idle(2) by (simp add: b1_def b2_def)
  show ?thesis
  proof (cases "length (lb_publishCh b) < publishBufferSize")
    case True
    then have "b' = b2\<lparr>lb_sending := remove1 e (lb_sending b2), lb_publishCh := lb_publishCh b2 @ [e]\<rparr>"
      using p(4) idle(1,2) by (cases b) (simp add: send_publishCh_def b1_def b2_def)
    then have "bus_step app query cleanup close b2 (Sent e) b'"
      using step_send [of e b2 app query cleanup close] True by (simp add: b1_def b2_def)
    then show ?thesis using run3 [OF s1 s2] unfolding e_def
      by (intro exI [of _ "[Checked (with_trace c e0), Persisted (with_trace c e0)]"]) simp
  next
    case False
    then obtain e1 rest where ch: "lb_publishCh b = e1 # rest" "length rest < publishBufferSize"
      using idle(4) by (cases "lb_publishCh b") (auto simp: publishBufferSize_def)
    define b3 where "b3 = fanout e1 (b2\<lparr>lb_publishCh := rest\<rparr>)"
    have s3: "bus_step app query cleanup close b2 (Dispatched e1) b3"
      using step_dispatch [of b2 e1 rest app query cleanup close] idle(3) ch(1)
      by (simp add: b1_def b2_def b3_def)
    have "b' = b3\<lparr>lb_sending := remove1 e (lb_sending b3), lb_publishCh := lb_publishCh b3 @ [e]\<rparr>"
      using p(4) idle(1,2) False ch(1)
      by (cases b) (simp add: send_publishCh_def dispatch_one_def fanout_def b1_def b2_def b3_def)
    then have "bus_step app query cleanup close b3 (Sent e) b'"
      using step_send [of e b3 app query cleanup close] ch(2) by (simp add: b1_def b2_def b3_def)
    then show ?thesis using run4 [OF s1 s2 s3] unfolding e_def
      by (intro exI [of _ "[Checked (with_trace c e0), Persisted (with_trace c e0), Dispatched e1]"]) simp
  qed
qed

text \<open>Once the dispatcher has returned it does not come back.\<close>

lemma exited_step: "bus_step app query cleanup close b l b' \<Longrightarrow> lb_exited b \<Longrightarrow> lb_exited b' \<and> dispatched_of l = []"
  by (induction rule: bus_step.cases) (auto dest!: Subscribe_simps)

lemma exited_run:
  "bus_run app query cleanup close b tr b' \<Longrightarrow> lb_exited b \<Longrightarrow> lb_exited b' \<and> seen dispatched_of tr = []"
  by (induction rule: bus_run.induct) (auto dest: exited_step)

subsection \<open>The contract of a message bus\<close>

text \<open>
  What a publisher relies on: a nil result means the event, with the trace id of the context,
  was valid and is in the log; an error means the log is as it was.
\<close>

locale message_bus =
  fixes publish :: "ctx \<Rightarrow> world \<Rightarrow> Event option \<Rightarrow> 'b \<Rightarrow> verdict \<times> 'b"
    and accepted :: "'b \<Rightarrow> Event multiset"
    and readback :: "Event \<Rightarrow> Event"
    and bus_ok :: "'b \<Rightarrow> bool"
    and registry :: "'b \<Rightarrow> SchemaRegistry"
    and takes :: "Event \<Rightarrow> bool"
  assumes publish_ok: "bus_ok b \<Longrightarrow> takes (with_trace c e) \<Longrightarrow> publish c w (Some e) b = (None, b') \<Longrightarrow>
      accepted b' = add_mset (readback (with_trace c e)) (accepted b) \<and> bus_ok b' \<and>
      Registry_Validate (registry b) (Some (with_trace c e)) = None \<and> registry b' = registry b"
    and publish_err: "bus_ok b \<Longrightarrow> publish c w oe b = (Some err, b') \<Longrightarrow>
      accepted b' = accepted b \<and> bus_ok b' \<and> registry b' = registry b"

sublocale event_store \<subseteq> bus: message_bus "LocalBus_Publish append" "\<lambda>b. log (lb_store b)" readback
  "\<lambda>b. wf (lb_store b)" lb_registry admits
proof (unfold_locales, goal_cases)
  case (1 b c e w b')
  then show ?case using append_acked by (auto elim!: Publish_None)
next
  case (2 b c w oe err b')
  from Publish_Some [OF 2(2)] show ?case using append_refused 2(1) by auto
qed

interpretation mem_bus: message_bus "LocalBus_Publish Mem_Append" "\<lambda>b. mem_log (lb_store b)" "\<lambda>e. e"
  "\<lambda>b. mem_wf (lb_store b)" lb_registry "\<lambda>e. True"
  by (rule mem_store.bus.message_bus_axioms)

interpretation sql_bus: message_bus "LocalBus_Publish SQL_Append" "\<lambda>b. sql_log (lb_store b)" stored_event
  "\<lambda>b. sql_log_wf (lb_store b)" lb_registry storable_event
  by (rule sql_store.bus.message_bus_axioms)

lemma drain_empty: "length (lb_publishCh b) \<le> n \<Longrightarrow> lb_publishCh (drain n b) = []"
  by (induction n arbitrary: b) auto

lemma drain_simps [simp]:
  "lb_store (drain n b) = lb_store b" "lb_done (drain n b) = lb_done b" "lb_closeOnce (drain n b) = lb_closeOnce b"
  "lb_registry (drain n b) = lb_registry b"
  by (induction n arbitrary: b) auto

subsection \<open>Properties\<close>

abbreviation mem_run :: "MemoryEventStore LocalBus \<Rightarrow> bus_label list \<Rightarrow> MemoryEventStore LocalBus \<Rightarrow> bool" where
  "mem_run \<equiv> bus_run Mem_Append (Mem_Query (sort_key e_Timestamp)) Mem_Cleanup Mem_Close"

definition demo_event :: Event where
  "demo_event = \<lparr>e_EventID = ''e1'', e_EventType = EventNodeDeleted, e_Timestamp = 5, e_SourceNodeID = ''n1'',
     e_TraceID = [], e_Payload = Some [(''nodeId'', GStr ''n1'')]\<rparr>"

definition demo_bus :: "MemoryEventStore LocalBus" where
  "demo_bus = NewLocalBus (NewMemoryEventStore DefaultStoreConfig) None"

lemma demo_valid: "Registry_Validate NewSchemaRegistry (Some demo_event) = None"
proof -
  have "payload_value (NodeDeletedPayload ''n1'') = GStruct [(''nodeId'', GStr ''n1'')]"
    by (simp add: payload_value_def defaultPayloads_def struct_value_def tag_eval)
  then have "SetPayload demo_event (payload_value (NodeDeletedPayload ''n1'')) = Inr demo_event"
    by (simp add: SetPayload_def demo_event_def)
  then show ?thesis
    by (rule payload_event_valid [rotated])
      (simp_all add: payload_complete_def defaultPayloads_def isEmptyValue_def demo_event_def header_ok_def)
qed

lemma demo_trace: "with_trace background demo_event = demo_event"
  by (simp add: with_trace_def traceIDFromContext_def background_def demo_event_def)

lemma demo_steps:
  fixes w :: world
  defines "b1 \<equiv> demo_bus\<lparr>lb_checked := [demo_event]\<rparr>"
  defines "b2 \<equiv> b1\<lparr>lb_store := snd (Mem_Append background w (Some demo_event) (lb_store b1)),
      lb_checked := [], lb_sending := [demo_event]\<rparr>"
  shows "bus_step Mem_Append (Mem_Query (sort_key e_Timestamp)) Mem_Cleanup Mem_Close demo_bus (Checked demo_event) b1"
    "bus_step Mem_Append (Mem_Query (sort_key e_Timestamp)) Mem_Cleanup Mem_Close b1 (Persisted demo_event) b2"
proof -
  show "bus_step Mem_Append (Mem_Query (sort_key e_Timestamp)) Mem_Cleanup Mem_Close demo_bus (Checked demo_event) b1"
    using step_check [of demo_bus demo_event background demo_event] demo_valid demo_trace
    by (simp add: demo_bus_def NewLocalBus_def b1_def)
  show "bus_step Mem_Append (Mem_Query (sort_key e_Timestamp)) Mem_Cleanup Mem_Close b1 (Persisted demo_event) b2"
    unfolding b2_def
    using step_persist [of demo_event b1 Mem_Append background w "snd (Mem_Append background w (Some demo_event) (lb_store b1))"]
    by (simp add: b1_def demo_bus_def NewLocalBus_def NewMemoryEventStore_def Mem_Append_def background_def)
qed



text \<open>C2: In every interleaving nothing is dispatched that was not checked by the registry and
  persisted first: the sent events are the dispatched ones followed by those waiting in
  \<open>publishCh\<close> (which holds at most 1024), and the persisted ones are the sent, the
  given up and those at the send, each with its multiplicity; only a replay hands out
  other events, and those come from a query of the store.\<close>

theorem bus_persist_before_dispatch:
  assumes "bus_run app query cleanup close (NewLocalBus store reg) tr b"
  shows "seen sent_of tr = seen dispatched_of tr @ lb_publishCh b \<and>
    length (lb_publishCh b) \<le> publishBufferSize \<and>
    mset (seen persisted_of tr) = mset (seen sent_of tr) + mset (seen abandoned_of tr) + mset (lb_sending b) \<and>
    mset (seen persisted_of tr) \<subseteq># mset (seen checked_of tr) \<and>
    (\<forall>e\<in>set (seen checked_of tr). Registry_Validate (lb_registry (NewLocalBus store reg)) (Some e) = None) \<and>
    set (seen fanned_of tr) \<subseteq> set (seen dispatched_of tr) \<union> set (seen queried_of tr)"
proof -
  have "pipe_inv tr b" by (rule pipe_run [OF assms NewLocalBus_inv(1)])
  moreover have "source_inv (lb_registry (NewLocalBus store reg)) tr b"
    by (rule source_run [OF assms NewLocalBus_inv(3)])
  ultimately show ?thesis by (auto simp: pipe_inv_def source_inv_def)
qed

lemma bus_persist_before_dispatch_witness:
  "\<exists>b. mem_run demo_bus [Checked demo_event, Persisted demo_event] b \<and> lb_publishCh b = [] \<and>
    mset (lb_sending b) = {#demo_event#}"
proof -
  obtain b where run: "mem_run demo_bus [Checked demo_event, Persisted demo_event] b"
    using run2 [OF demo_steps] by blast
  from bus_persist_before_dispatch [OF run [unfolded demo_bus_def]] run show ?thesis
    by (intro exI [of _ b]) (auto simp: seen_def)
qed

text \<open>A \<open>Publish\<close> that returns nil on a bus no other publisher is using is a run of the
  concurrent program that ends with the send of the event, whether or not the internal
  channel is full when it is called.\<close>

theorem publish_is_run:
  assumes "LocalBus_Publish app c w (Some e) b = (None, b')"
    and "lb_checked b = []" "lb_sending b = []" "\<not> lb_exited b" "length (lb_publishCh b) \<le> publishBufferSize"
  shows "\<exists>tr. bus_run app query cleanup close b (tr @ [Sent (with_trace c e)]) b'"
  by (rule Publish_run [OF assms])

lemma publish_is_run_witness:
  "\<exists>b' tr. mem_run demo_bus (tr @ [Sent demo_event]) b'"
proof -
  obtain v b' where p: "LocalBus_Publish Mem_Append background clock0 (Some demo_event) demo_bus = (v, b')"
    by fastforce
  then have "v = None"
    using demo_valid demo_trace
    by (auto simp: LocalBus_Publish_def demo_bus_def NewLocalBus_def NewMemoryEventStore_def Mem_Append_def background_def)
  with p have "LocalBus_Publish Mem_Append background clock0 (Some demo_event) demo_bus = (None, b')" by simp
  moreover have "lb_checked demo_bus = []" "lb_sending demo_bus = []" "\<not> lb_exited demo_bus"
      "length (lb_publishCh demo_bus) \<le> publishBufferSize"
    by (simp_all add: demo_bus_def NewLocalBus_def)
  ultimately show ?thesis
    using publish_is_run [of Mem_Append background clock0 demo_event demo_bus b'] demo_trace by metis
qed

text \<open>A fan-out accounts for every subscriber the event matches: it is either appended to the
  channel or counted as dropped, and the others are untouched.\<close>

theorem fanout_accounts:
  "sum_list (map (\<lambda>s. length (sub_ch s)) (lb_subs (fanout e b))) + DroppedCount (fanout e b) =
     sum_list (map (\<lambda>s. length (sub_ch s)) (lb_subs b)) + DroppedCount b +
     length (filter (\<lambda>s. sub_matches s (e_EventType e)) (lb_subs b)) \<and>
   map sub_id (lb_subs (fanout e b)) = map sub_id (lb_subs b)"
proof -
  have "sum_list (map (\<lambda>s. length (sub_ch (offer e s))) ss) +
      length (filter (\<lambda>s. sub_matches s (e_EventType e) \<and> sub_full s) ss) =
      sum_list (map (\<lambda>s. length (sub_ch s)) ss) + length (filter (\<lambda>s. sub_matches s (e_EventType e)) ss)" for ss
    by (induction ss) (auto simp: offer_def)
  from this [of "lb_subs b"] show ?thesis
    by (auto simp: DroppedCount_def fanout_def comp_def)
qed

text \<open>C37: \<open>Close\<close> does not drain all that was acknowledged: a publisher past the closed check can
  persist its event, and send it after the dispatcher has found the channel empty and
  returned. Its \<open>Publish\<close> returns nil, and no later step ever dispatches the event.\<close>

theorem late_send_never_dispatched:
  "\<exists>b. mem_run demo_bus [Checked demo_event, Persisted demo_event, Signalled, Exited, Sent demo_event] b \<and>
     lb_publishCh b = [demo_event] \<and>
     \<not> (\<exists>tr b'. mem_run b tr b' \<and> seen dispatched_of tr \<noteq> [])"
proof -
  let ?step = "bus_step Mem_Append (Mem_Query (sort_key e_Timestamp)) Mem_Cleanup Mem_Close"
  obtain b2 where b2: "mem_run demo_bus [Checked demo_event, Persisted demo_event] b2"
      "lb_sending b2 = [demo_event]" "lb_publishCh b2 = []" "\<not> lb_closeOnce b2"
    by (rule that [OF run2 [OF demo_steps]]) (simp_all add: demo_bus_def NewLocalBus_def)
  let ?b3 = "b2\<lparr>lb_closeOnce := True, lb_done := True\<rparr>"
  let ?b4 = "?b3\<lparr>lb_exited := True\<rparr>"
  let ?b5 = "?b4\<lparr>lb_sending := remove1 demo_event (lb_sending ?b4), lb_publishCh := lb_publishCh ?b4 @ [demo_event]\<rparr>"
  have "?step b2 Signalled ?b3" using b2 by (intro step_signal)
  moreover have "?step ?b3 Exited ?b4" using b2 by (intro step_exit) simp_all
  moreover have "?step ?b4 (Sent demo_event) ?b5" using b2 by (intro step_send) (simp_all add: publishBufferSize_def)
  ultimately have "mem_run demo_bus ([Checked demo_event, Persisted demo_event, Signalled, Exited] @ [Sent demo_event]) ?b5"
    using run_step [OF run_step [OF run_step [OF b2(1)]]] by fastforce
  moreover have "lb_exited ?b5" "lb_publishCh ?b5 = [demo_event]" using b2 by simp_all
  ultimately show ?thesis using exited_run by (intro exI [of _ ?b5]) fastforce
qed

text \<open>Closing from one caller: the first \<open>Close\<close> offers all that waits to the subscribers,
  closes the store and returns its verdict; after it every \<open>Publish\<close> of an event is refused
  with \<open>errBusClosed\<close> and persists nothing, and a second \<open>Close\<close> does nothing.\<close>

theorem close_then_publish_refused:
  assumes "LocalBus_Close close b = (v, b')" "\<not> lb_closeOnce b"
  shows "lb_publishCh b' = [] \<and> v = fst (close (lb_store b)) \<and> lb_store b' = snd (close (lb_store b)) \<and>
    LocalBus_Publish app c w (Some e) b' = (Some (Sentinel ErrBusClosed), b') \<and>
    LocalBus_Close close b' = (None, b')"
  using assms drain_empty [of "b\<lparr>lb_closeOnce := True, lb_done := True\<rparr>" "length (lb_publishCh b)"]
  by (auto simp: LocalBus_Close_def LocalBus_Publish_def Let_def split: prod.splits)

lemma close_then_publish_refused_witness:
  "\<exists>b'. LocalBus_Close Mem_Close demo_bus = (None, b') \<and>
    LocalBus_Publish Mem_Append background clock0 (Some demo_event) b' = (Some (Sentinel ErrBusClosed), b')"
proof -
  obtain v b' where "LocalBus_Close Mem_Close demo_bus = (v, b')" by fastforce
  moreover have "\<not> lb_closeOnce demo_bus" by (simp add: demo_bus_def NewLocalBus_def)
  ultimately show ?thesis
    using close_then_publish_refused [of Mem_Close demo_bus v b' Mem_Append background clock0 demo_event]
    by (auto simp: Mem_Close_def demo_bus_def NewLocalBus_def NewMemoryEventStore_def)
qed

end
