(* ===== verification/KGService.thy ===== *)
theory KGService
  imports RelRepo LocalBus
begin

text \<open>
  \<open>internal/core/kg_service.go\<close>: the domain service over the two repositories. Each mutation
  writes the database, then publishes events, then calls the plugin hook; the steps are not
  one transaction, so a failed publication leaves the write in place. The bus is an argument
  (\<open>publish\<close>), any implementation of the contract \<open>message_bus\<close>.
\<close>

subsection \<open>State\<close>

text \<open>The calls of \<open>HookTrigger\<close>, recorded in order.\<close>

datatype hook_call = HookRegistered Node | HookUpdated Node gomap | HookDeleted string

text \<open>\<open>kg_hookTrigger\<close> and \<open>kg_tx\<close> say whether a trigger and a \<open>*sql.DB\<close> were injected.\<close>

record 'b kg =
  kg_db :: kgdb
  kg_bus :: 'b
  kg_world :: world
  kg_hookTrigger :: bool
  kg_hooks :: "hook_call list"
  kg_tx :: bool

definition NewKGService :: "kgdb \<Rightarrow> 'b \<Rightarrow> world \<Rightarrow> 'b kg" where
  "NewKGService db bus w =
     \<lparr>kg_db = db, kg_bus = bus, kg_world = w, kg_hookTrigger = False, kg_hooks = [], kg_tx = False\<rparr>"

definition SetHookTrigger :: "bool \<Rightarrow> 'b kg \<Rightarrow> 'b kg" where
  "SetHookTrigger on k = k\<lparr>kg_hookTrigger := on\<rparr>"

definition SetDB :: "bool \<Rightarrow> 'b kg \<Rightarrow> 'b kg" where
  "SetDB injected k = k\<lparr>kg_tx := injected\<rparr>"

definition trigger :: "hook_call \<Rightarrow> 'b kg \<Rightarrow> 'b kg" where
  "trigger h k = (if kg_hookTrigger k then k\<lparr>kg_hooks := kg_hooks k @ [h]\<rparr> else k)"

text \<open>\<open>time.Now\<close> in a service method.\<close>

definition tick_kg :: "'b kg \<Rightarrow> 'b kg" where
  "tick_kg k = k\<lparr>kg_world := tick (kg_world k)\<rparr>"

type_synonym 'b publisher = "ctx \<Rightarrow> world \<Rightarrow> Event option \<Rightarrow> 'b \<Rightarrow> verdict \<times> 'b"

subsection \<open>Events\<close>

definition new_event :: "ctx \<Rightarrow> world \<Rightarrow> EventType \<Rightarrow> string \<Rightarrow> Event" where
  "new_event c w etype source =
     \<lparr>e_EventID = uuid_of w, e_EventType = etype, e_Timestamp = now_of (tick w), e_SourceNodeID = source,
      e_TraceID = traceIDFromContext c, e_Payload = None\<rparr>"

definition publishEvent :: "'b publisher \<Rightarrow> ctx \<Rightarrow> EventType \<Rightarrow> string \<Rightarrow> payload \<Rightarrow> 'b kg \<Rightarrow> verdict \<times> 'b kg" where
  "publishEvent publish c etype source p k =
     (let e = new_event c (kg_world k) etype source;
          k1 = tick_kg (tick_kg k)
      in case SetPayload e (payload_value p) of
           Inl err \<Rightarrow> (Some err, k1)
         | Inr e1 \<Rightarrow>
           (case publish c (kg_world k1) (Some e1) (kg_bus k1) of
              (v, bus') \<Rightarrow> (v, tick_kg (k1\<lparr>kg_bus := bus'\<rparr>))))"

subsection \<open>Nodes\<close>

definition KG_RegisterNode :: "'b publisher \<Rightarrow> ctx \<Rightarrow> Node option \<Rightarrow> 'b kg \<Rightarrow> (Node option \<times> verdict) \<times> 'b kg" where
  "KG_RegisterNode publish c node k =
     (case node of
        None \<Rightarrow> ((None, Some (Errorf ''node is nil'')), k)
      | Some n0 \<Rightarrow>
        (let now = now_of (kg_world k);
             n = n0\<lparr>n_CreatedAt := now, n_UpdatedAt := now\<rparr>;
             k1 = tick_kg k
         in case Node_Validate n of
              Some err \<Rightarrow> ((Some n, Some (Wrap ''invalid node'' err)), k1)
            | None \<Rightarrow>
              (case NodeRepo_Create c (Some n) (kg_db k1) of
                 (Some err, db) \<Rightarrow> ((Some n, Some (Wrap ''create node'' err)), k1\<lparr>kg_db := db\<rparr>)
               | (None, db) \<Rightarrow>
                 (case publishEvent publish c EventNodeRegistered (n_NodeID n)
                     (NodeRegisteredPayload (n_NodeID n) (n_NodeType n)) (k1\<lparr>kg_db := db\<rparr>) of
                    (Some err, k2) \<Rightarrow> ((Some n, Some (Wrap ''publish NodeRegistered'' err)), k2)
                  | (None, k2) \<Rightarrow>
                    (case publishEvent publish c EventStateUpdated (n_NodeID n)
                        (StateUpdatedPayload (n_NodeID n) [] (n_Status n)) k2 of
                       (Some err, k3) \<Rightarrow> ((Some n, Some (Wrap ''publish StateUpdated'' err)), k3)
                     | (None, k3) \<Rightarrow> ((Some n, None), trigger (HookRegistered n) k3))))))"

definition apply_change :: "string \<times> goval \<Rightarrow> Node \<Rightarrow> Node" where
  "apply_change kv n =
     (case kv of (key, v) \<Rightarrow>
        if key = ''name'' then (case v of GStr s \<Rightarrow> n\<lparr>n_Name := s\<rparr> | _ \<Rightarrow> n)
        else if key = ''status'' then (case v of GStr s \<Rightarrow> n\<lparr>n_Status := s\<rparr> | _ \<Rightarrow> n)
        else if key = ''shardKey'' then (case v of GStr s \<Rightarrow> n\<lparr>n_ShardKey := s\<rparr> | _ \<Rightarrow> n)
        else if key = ''federationId'' then (case v of GStr s \<Rightarrow> n\<lparr>n_FederationID := s\<rparr> | _ \<Rightarrow> n)
        else if key = ''properties'' then (case v of GMap m \<Rightarrow> n\<lparr>n_Properties := Some m\<rparr> | _ \<Rightarrow> n)
        else n)"

text \<open>The loop over the map of changes, in whatever order it is visited: the keys are distinct,
  so the changes commute.\<close>

definition applyChanges :: "Node \<Rightarrow> gomap \<Rightarrow> Node" where
  "applyChanges n changes = fold apply_change changes n"

definition KG_UpdateNode :: "'b publisher \<Rightarrow> ctx \<Rightarrow> string \<Rightarrow> gomap \<Rightarrow> 'b kg \<Rightarrow> Node res \<times> 'b kg" where
  "KG_UpdateNode publish c nodeID changes k =
     (if changes = [] then (Inl (Errorf ''changes must not be empty''), k)
      else
        (case NodeRepo_Get c nodeID (kg_db k) of
           (Inl err, db) \<Rightarrow> (Inl (Wrap ''get node'' err), k\<lparr>kg_db := db\<rparr>)
         | (Inr old, db) \<Rightarrow>
           (let n = (applyChanges old changes)\<lparr>n_UpdatedAt := now_of (kg_world k)\<rparr>;
                k1 = tick_kg (k\<lparr>kg_db := db\<rparr>)
            in case NodeRepo_Update c (Some n) (kg_db k1) of
                 (Some err, db1) \<Rightarrow> (Inl (Wrap ''update node'' err), k1\<lparr>kg_db := db1\<rparr>)
               | (None, db1) \<Rightarrow>
                 (let k2 = k1\<lparr>kg_db := db1\<rparr>
                  in case (if n_Status n \<noteq> n_Status old
                           then publishEvent publish c EventStateUpdated nodeID
                                  (StateUpdatedPayload nodeID (n_Status old) (n_Status n)) k2
                           else (None, k2)) of
                       (Some err, k3) \<Rightarrow> (Inl (Wrap ''publish StateUpdated'' err), k3)
                     | (None, k3) \<Rightarrow>
                       (case publishEvent publish c EventNodeUpdated nodeID
                           (NodeUpdatedPayload nodeID (GMap changes)) k3 of
                          (Some err, k4) \<Rightarrow> (Inl (Wrap ''publish NodeUpdated'' err), k4)
                        | (None, k4) \<Rightarrow> (Inr n, trigger (HookUpdated n changes) k4))))))"

text \<open>\<open>deleteNodeInTx\<close>: begin, delete the relationships, delete the node, commit. Until the
  commit the deferred rollback restores the tables.\<close>

definition delete_in_tx :: "ctx \<Rightarrow> string \<Rightarrow> 'a kgdb_scheme \<Rightarrow> verdict \<times> 'a kgdb_scheme" where
  "delete_in_tx c nodeID db =
     (case ctx_err c of
        Some e \<Rightarrow> (Some (Wrap ''begin transaction'' e), db)
      | None \<Rightarrow>
     (case next_fault db of
        Some e \<Rightarrow> (Some (Wrap ''begin transaction'' e), consume db)
      | None \<Rightarrow>
        (let db1 = consume db in
         case next_fault db1 of
           Some e \<Rightarrow> (Some (Wrap ''delete relationships in transaction'' e), consume db1)
         | None \<Rightarrow>
           (let db2 = consume db1;
                rels' = sql_delete (\<lambda>r. rr_from_node_id r = nodeID \<or> rr_to_node_id r = nodeID) (rels db)
            in case next_fault db2 of
                 Some e \<Rightarrow> (Some (Wrap ''delete node in transaction'' e), consume db2)
               | None \<Rightarrow>
                 (let db3 = consume db2 in
                  if sql_count (\<lambda>r. nr_node_id r = nodeID) (nodes db) = 0
                  then (Some (node_missing nodeID), db3)
                  else
                    (case next_fault db3 of
                       Some e \<Rightarrow> (Some (Wrap ''commit transaction'' e), consume db3)
                     | None \<Rightarrow> (None, (consume db3)\<lparr>rels := rels',
                         nodes := sql_delete (\<lambda>r. nr_node_id r = nodeID) (nodes db)\<rparr>)))))))"

definition deleteNodeInTx :: "'b publisher \<Rightarrow> ctx \<Rightarrow> string \<Rightarrow> 'b kg \<Rightarrow> verdict \<times> 'b kg" where
  "deleteNodeInTx publish c nodeID k =
     (case delete_in_tx c nodeID (kg_db k) of
        (Some err, db) \<Rightarrow> (Some err, k\<lparr>kg_db := db\<rparr>)
      | (None, db) \<Rightarrow>
        (case publishEvent publish c EventNodeDeleted nodeID (NodeDeletedPayload nodeID) (k\<lparr>kg_db := db\<rparr>) of
           (Some err, k1) \<Rightarrow> (Some (Wrap ''publish NodeDeleted'' err), k1)
         | (None, k1) \<Rightarrow> (None, trigger (HookDeleted nodeID) k1)))"

fun delete_rels :: "ctx \<Rightarrow> Relationship list \<Rightarrow> 'a kgdb_scheme \<Rightarrow> verdict \<times> 'a kgdb_scheme" where
  "delete_rels c [] db = (None, db)"
| "delete_rels c (r # rs) db =
     (case RelRepo_Delete c (r_RelID r) db of
        (Some err, db1) \<Rightarrow> (Some (Wrap ''delete relationship'' err), db1)
      | (None, db1) \<Rightarrow> delete_rels c rs db1)"

definition deleteRelationshipsOfNode :: "ctx \<Rightarrow> string \<Rightarrow> 'a kgdb_scheme \<Rightarrow> verdict \<times> 'a kgdb_scheme" where
  "deleteRelationshipsOfNode c nodeID db =
     (case ListOutgoing c nodeID [] db of
        (Inl err, db1) \<Rightarrow> (Some (Wrap ''query outgoing relationships'' err), db1)
      | (Inr outs, db1) \<Rightarrow>
        (case ListIncoming c nodeID [] db1 of
           (Inl err, db2) \<Rightarrow> (Some (Wrap ''query incoming relationships'' err), db2)
         | (Inr ins, db2) \<Rightarrow>
           (case delete_rels c outs db2 of
              (Some err, db3) \<Rightarrow> (Some err, db3)
            | (None, db3) \<Rightarrow> delete_rels c ins db3)))"

definition deleteNodeNoTx :: "'b publisher \<Rightarrow> ctx \<Rightarrow> string \<Rightarrow> 'b kg \<Rightarrow> verdict \<times> 'b kg" where
  "deleteNodeNoTx publish c nodeID k =
     (case deleteRelationshipsOfNode c nodeID (kg_db k) of
        (Some err, db) \<Rightarrow> (Some err, k\<lparr>kg_db := db\<rparr>)
      | (None, db) \<Rightarrow>
        (case NodeRepo_Delete c nodeID db of
           (Some err, db1) \<Rightarrow> (Some (Wrap ''delete node'' err), k\<lparr>kg_db := db1\<rparr>)
         | (None, db1) \<Rightarrow>
           (case publishEvent publish c EventNodeDeleted nodeID (NodeDeletedPayload nodeID) (k\<lparr>kg_db := db1\<rparr>) of
              (Some err, k1) \<Rightarrow> (Some (Wrap ''publish NodeDeleted'' err), k1)
            | (None, k1) \<Rightarrow> (None, trigger (HookDeleted nodeID) k1))))"

definition KG_DeleteNode :: "'b publisher \<Rightarrow> ctx \<Rightarrow> string \<Rightarrow> 'b kg \<Rightarrow> verdict \<times> 'b kg" where
  "KG_DeleteNode publish c nodeID k =
     (if kg_tx k then deleteNodeInTx publish c nodeID k else deleteNodeNoTx publish c nodeID k)"

definition KG_GetNode :: "ctx \<Rightarrow> string \<Rightarrow> 'b kg \<Rightarrow> Node res \<times> 'b kg" where
  "KG_GetNode c nodeID k = (case NodeRepo_Get c nodeID (kg_db k) of (r, db) \<Rightarrow> (r, k\<lparr>kg_db := db\<rparr>))"

definition KG_ListNodes :: "ctx \<Rightarrow> ListOptions \<Rightarrow> 'b kg \<Rightarrow> Node list res \<times> 'b kg" where
  "KG_ListNodes c opts k = (case NodeRepo_List c opts (kg_db k) of (r, db) \<Rightarrow> (r, k\<lparr>kg_db := db\<rparr>))"

subsection \<open>Relationships\<close>

definition KG_CreateRelationship :: "'b publisher \<Rightarrow> ctx \<Rightarrow> Relationship option \<Rightarrow> 'b kg \<Rightarrow> verdict \<times> 'b kg" where
  "KG_CreateRelationship publish c rel k =
     (case rel of
        None \<Rightarrow> (Some (Errorf ''rel is nil''), k)
      | Some r0 \<Rightarrow>
        (let r = (if IsZero (r_CreatedAt r0) then r0\<lparr>r_CreatedAt := now_of (kg_world k)\<rparr> else r0);
             k1 = (if IsZero (r_CreatedAt r0) then tick_kg k else k)
         in case Relationship_Validate r of
              Some err \<Rightarrow> (Some (Wrap ''invalid relationship'' err), k1)
            | None \<Rightarrow>
              (case NodeRepo_Get c (r_FromNodeID r) (kg_db k1) of
                 (Inl err, db1) \<Rightarrow> (Some (Wrap ''from node'' err), k1\<lparr>kg_db := db1\<rparr>)
               | (Inr _, db1) \<Rightarrow>
                 (case NodeRepo_Get c (r_ToNodeID r) db1 of
                    (Inl err, db2) \<Rightarrow> (Some (Wrap ''to node'' err), k1\<lparr>kg_db := db2\<rparr>)
                  | (Inr _, db2) \<Rightarrow>
                    (case RelRepo_Create c (Some r) db2 of
                       (Some err, db3) \<Rightarrow> (Some (Wrap ''create relationship'' err), k1\<lparr>kg_db := db3\<rparr>)
                     | (None, db3) \<Rightarrow>
                       (case publishEvent publish c EventRelationshipCreated (r_FromNodeID r)
                           (RelationshipCreatedPayload (r_RelID r) (r_FromNodeID r) (r_ToNodeID r) (r_RelType r))
                           (k1\<lparr>kg_db := db3\<rparr>) of
                          (Some err, k2) \<Rightarrow> (Some (Wrap ''publish RelationshipCreated'' err), k2)
                        | (None, k2) \<Rightarrow> (None, k2)))))))"

definition KG_DeleteRelationship :: "'b publisher \<Rightarrow> ctx \<Rightarrow> string \<Rightarrow> 'b kg \<Rightarrow> verdict \<times> 'b kg" where
  "KG_DeleteRelationship publish c relID k =
     (case RelRepo_Delete c relID (kg_db k) of
        (Some err, db) \<Rightarrow> (Some (Wrap ''delete relationship'' err), k\<lparr>kg_db := db\<rparr>)
      | (None, db) \<Rightarrow>
        (case publishEvent publish c EventRelationshipDeleted relID (RelationshipDeletedPayload relID)
            (k\<lparr>kg_db := db\<rparr>) of
           (Some err, k1) \<Rightarrow> (Some (Wrap ''publish RelationshipDeleted'' err), k1)
         | (None, k1) \<Rightarrow> (None, k1)))"

definition QueryRelationships :: "ctx \<Rightarrow> string \<Rightarrow> string \<Rightarrow> string \<Rightarrow> 'b kg \<Rightarrow> Relationship list res \<times> 'b kg" where
  "QueryRelationships c nodeID direction relType k =
     (if direction = ''in'' then
        (case ListIncoming c nodeID relType (kg_db k) of (r, db) \<Rightarrow> (r, k\<lparr>kg_db := db\<rparr>))
      else if direction = ''both'' then
        (case ListOutgoing c nodeID relType (kg_db k) of
           (Inl err, db) \<Rightarrow> (Inl err, k\<lparr>kg_db := db\<rparr>)
         | (Inr outs, db) \<Rightarrow>
           (case ListIncoming c nodeID relType db of
              (Inl err, db1) \<Rightarrow> (Inl err, k\<lparr>kg_db := db1\<rparr>)
            | (Inr ins, db1) \<Rightarrow> (Inr (outs @ ins), k\<lparr>kg_db := db1\<rparr>)))
      else
        (case ListOutgoing c nodeID relType (kg_db k) of (r, db) \<Rightarrow> (r, k\<lparr>kg_db := db\<rparr>)))"

definition TraverseGraph :: "ctx \<Rightarrow> string \<Rightarrow> TraverseOptions \<Rightarrow> 'b kg \<Rightarrow> Relationship list res \<times> 'b kg" where
  "TraverseGraph c start opts k = (case Traverse c start opts (kg_db k) of (r, db) \<Rightarrow> (r, k\<lparr>kg_db := db\<rparr>))"

subsection \<open>What the service leaves alone\<close>

lemma kg_helpers [simp]:
  "kg_db (tick_kg k) = kg_db k" "kg_bus (tick_kg k) = kg_bus k" "kg_hooks (tick_kg k) = kg_hooks k"
  "kg_tx (tick_kg k) = kg_tx k" "kg_hookTrigger (tick_kg k) = kg_hookTrigger k"
  "kg_world (tick_kg k) = tick (kg_world k)"
  "kg_db (trigger h k) = kg_db k" "kg_bus (trigger h k) = kg_bus k" "kg_world (trigger h k) = kg_world k"
  "kg_hooks (trigger h k) = (if kg_hookTrigger k then kg_hooks k @ [h] else kg_hooks k)"
  by (simp_all add: tick_kg_def trigger_def)

lemma publishEvent_frame [framing]:
  "publishEvent publish c etype source p k = (v, k') \<Longrightarrow>
   kg_db k' = kg_db k \<and> w_clock (kg_world k') = w_clock (kg_world k) \<and>
   w_uuid (kg_world k') = w_uuid (kg_world k) \<and> kg_hooks k' = kg_hooks k \<and>
   kg_hookTrigger k' = kg_hookTrigger k \<and> kg_tx k' = kg_tx k"
  by (auto simp: publishEvent_def Let_def split: sum.splits prod.splits)

subsection \<open>Integrity of the graph\<close>

definition kg_clock_ok :: "world \<Rightarrow> bool" where
  "kg_clock_ok w \<longleftrightarrow> (\<forall>n. 0 < w_clock w n \<and> w_clock w n < year_10000)"

lemma kg_clock_now: "kg_clock_ok w \<Longrightarrow> 0 < now_of w \<and> now_of w < year_10000"
  by (simp add: kg_clock_ok_def now_of_def)

lemma kg_clock_tick [simp]: "kg_clock_ok (tick w) = kg_clock_ok w"
  by (simp add: kg_clock_ok_def)

lemma refs_ok_nodes_mono:
  "refs_ok db \<Longrightarrow> nr_node_id ` set (nodes db) \<subseteq> nr_node_id ` set (nodes db') \<Longrightarrow> rels db' = rels db \<Longrightarrow>
   refs_ok db'"
  by (auto simp: refs_ok_def)

lemma NodeRepo_Create_kg_inv:
  assumes "kg_inv db" "\<And>n. node = Some n \<Longrightarrow> node_times_ok n"
  shows "kg_inv (snd (NodeRepo_Create c node db))"
proof -
  let ?db = "snd (NodeRepo_Create c node db)"
  have "nr_node_id ` set (nodes db) \<subseteq> nr_node_id ` set (nodes ?db) \<and> rels ?db = rels db"
    by (auto simp: NodeRepo_Create_def sql_insert_def split: option.splits sum.splits)
  then show ?thesis
    using assms NodeRepo_Create_well [of db node c] refs_ok_nodes_mono [of db ?db]
    by (simp add: kg_inv_def well_rels_def)
qed

lemma NodeRepo_Update_kg_inv:
  assumes "kg_inv db" "\<And>n. node = Some n \<Longrightarrow> 0 \<le> n_UpdatedAt n \<and> n_UpdatedAt n < year_10000"
  shows "kg_inv (snd (NodeRepo_Update c node db))"
proof -
  let ?db = "snd (NodeRepo_Update c node db)"
  have "map nr_node_id (nodes ?db) = map nr_node_id (nodes db) \<and> rels ?db = rels db"
    by (auto simp: NodeRepo_Update_def sql_update_keys Let_def split: option.splits sum.splits)
  then have "nr_node_id ` set (nodes ?db) = nr_node_id ` set (nodes db)" "rels ?db = rels db"
    by (metis list.set_map)+
  then show ?thesis
    using assms NodeRepo_Update_well [of db node c] by (simp add: kg_inv_def well_rels_def refs_ok_def)
qed

lemma kg_inv_read:
  "kg_inv (snd (NodeRepo_Get c k db)) = kg_inv db" "kg_inv (snd (select_rels p db)) = kg_inv db"
proof -
  have "rels (snd (NodeRepo_Get c k db)) = rels db"
    by (auto simp: NodeRepo_Get_def split: option.splits sum.splits)
  then show "kg_inv (snd (NodeRepo_Get c k db)) = kg_inv db"
    using NodeRepo_Get_nodes [of c k db] by (rule kg_inv_tables [rotated])
  show "kg_inv (snd (select_rels p db)) = kg_inv db"
    using select_rels_tables [of p db] by (intro kg_inv_tables) simp_all
qed

lemma delete_in_tx_ok:
  "delete_in_tx c nodeID db = (None, db') \<Longrightarrow>
   rels db' = sql_delete (\<lambda>r. rr_from_node_id r = nodeID \<or> rr_to_node_id r = nodeID) (rels db) \<and>
   nodes db' = sql_delete (\<lambda>r. nr_node_id r = nodeID) (nodes db) \<and>
   nodeID \<in> nr_node_id ` set (nodes db)"
  by (auto simp: delete_in_tx_def Let_def sql_count_zero split: option.splits if_splits)

lemma delete_in_tx_err:
  "delete_in_tx c nodeID db = (Some e, db') \<Longrightarrow> nodes db' = nodes db \<and> rels db' = rels db"
  by (auto simp: delete_in_tx_def Let_def split: option.splits if_splits)

lemma kg_inv_deletes:
  assumes "kg_inv db" "nodes db' = filter p (nodes db)" "rels db' = filter q (rels db)"
    "\<And>r. r \<in> set (rels db) \<Longrightarrow> q r \<Longrightarrow> rr_from_node_id r \<in> nr_node_id ` set (nodes db') \<and>
      rr_to_node_id r \<in> nr_node_id ` set (nodes db')"
  shows "kg_inv db'"
proof -
  have "scans scanNode (nodes db')" "scans scanRelationship (rels db')"
    using assms(1-3) by (auto simp: kg_inv_def well_db_def well_rels_def scans_def)
  then show ?thesis
    using assms by (simp add: kg_inv_def well_db_def well_rels_def refs_ok_def distinct_map_filter)
qed

lemma delete_in_tx_inv:
  assumes "kg_inv db" "delete_in_tx c nodeID db = (v, db')"
  shows "kg_inv db'"
proof (cases v)
  case None
  then have t: "rels db' = sql_delete (\<lambda>r. rr_from_node_id r = nodeID \<or> rr_to_node_id r = nodeID) (rels db)"
      "nodes db' = sql_delete (\<lambda>r. nr_node_id r = nodeID) (nodes db)"
    using delete_in_tx_ok assms(2) by blast+
  have "refs_ok db" using assms(1) by (simp add: kg_inv_def)
  then show ?thesis
    using t by (intro kg_inv_deletes [OF assms(1) t(2)[unfolded sql_delete_def] t(1)[unfolded sql_delete_def]])
      (auto simp: refs_ok_def sql_delete_def)
next
  case (Some e)
  then show ?thesis using delete_in_tx_err assms by (metis kg_inv_tables)
qed

text \<open>Without a transaction: what the two listings return is every relationship of the node.\<close>

lemma select_rels_Inr:
  assumes "well_rels db" "select_rels p db = (Inr rs, db')"
  shows "rs = picked p db \<and> nodes db' = nodes db \<and> rels db' = rels db"
proof -
  have "scans scanRelationship (sort_key rel_order (filter p (rels db)))"
    using assms(1) by (auto simp: well_rels_def scans_def)
  then show ?thesis using assms(2)
    by (auto simp: select_rels_def scan_rows_scans picked_def split: option.splits sum.splits)
qed

lemma picked_ids:
  "well_rels db \<Longrightarrow> r_RelID ` set (picked p db) = rr_rel_id ` {r \<in> set (rels db). p r}"
  by (auto simp: picked_def scanned_rel_fields image_iff intro!: bexI)

lemma delete_rels_tables:
  "delete_rels c rs db = (v, db') \<Longrightarrow>
   nodes db' = nodes db \<and> (\<exists>p. rels db' = filter p (rels db)) \<and>
   (v = None \<longrightarrow> rels db' = filter (\<lambda>r. rr_rel_id r \<notin> r_RelID ` set rs) (rels db))"
proof (induction rs arbitrary: db)
  case Nil
  then show ?case by (auto intro: exI [of _ "\<lambda>_. True"])
next
  case (Cons r rs)
  obtain v1 db1 where d: "RelRepo_Delete c (r_RelID r) db = (v1, db1)" by fastforce
  show ?case
  proof (cases v1)
    case None
    then have db1: "nodes db1 = nodes db" "rels db1 = filter (\<lambda>q. rr_rel_id q \<noteq> r_RelID r) (rels db)"
      using d by (auto simp: RelRepo_Delete_def sql_delete_def split: option.splits)
    have "delete_rels c rs db1 = (v, db')" using Cons.prems d None by simp
    from Cons.IH [OF this] db1 show ?thesis by (auto simp: conj_commute intro!: filter_cong)
  next
    case (Some e)
    then have "nodes db' = nodes db" "rels db' = rels db" "v \<noteq> None"
      using d Cons.prems by (auto simp: RelRepo_Delete_def split: option.splits)
    then show ?thesis by (auto intro: exI [of _ "\<lambda>_. True"])
  qed
qed

lemma deleteRelationshipsOfNode_tables:
  assumes "well_rels db" "deleteRelationshipsOfNode c nodeID db = (v, db')"
  shows "nodes db' = nodes db \<and> (\<exists>p. rels db' = filter p (rels db)) \<and>
    (v = None \<longrightarrow> (\<forall>r\<in>set (rels db'). rr_from_node_id r \<noteq> nodeID \<and> rr_to_node_id r \<noteq> nodeID))"
proof -
  obtain ro db1 where o: "ListOutgoing c nodeID [] db = (ro, db1)" by fastforce
  obtain ri db2 where i: "ListIncoming c nodeID [] db1 = (ri, db2)" by fastforce
  let ?from = "\<lambda>r. rr_from_node_id r = nodeID" and ?to = "\<lambda>r. rr_to_node_id r = nodeID"
  have t1: "nodes db1 = nodes db" "rels db1 = rels db"
    using o select_rels_tables [of "\<lambda>r. rr_from_node_id r = nodeID \<and> type_matches [] (rr_rel_type r)" db]
    by (auto simp: ListOutgoing_def listByNode_def split: option.splits)
  have t2: "nodes db2 = nodes db" "rels db2 = rels db"
    using i t1 select_rels_tables [of "\<lambda>r. rr_to_node_id r = nodeID \<and> type_matches [] (rr_rel_type r)" db1]
    by (auto simp: ListIncoming_def listByNode_def split: option.splits)
  have all: "\<exists>p. rels db = filter p (rels db)" by (rule exI [of _ "\<lambda>_. True"]) simp
  show ?thesis
  proof (cases "\<exists>outs ins. ro = Inr outs \<and> ri = Inr ins")
    case False
    then have "v \<noteq> None \<and> (db' = db1 \<or> db' = db2)"
      using assms(2) o i by (auto simp: deleteRelationshipsOfNode_def split: sum.splits)
    then show ?thesis using t1 t2 all by auto
  next
    case True
    then obtain outs ins where oi: "ro = Inr outs" "ri = Inr ins" by blast
    have w1: "well_rels db1" using assms(1) t1 by (simp add: well_rels_def)
    have "outs = picked ?from db"
      using o oi(1) select_rels_Inr [OF assms(1)]
      by (auto simp: ListOutgoing_def listByNode_def type_matches_def split: option.splits)
    moreover have "ins = picked ?to db1"
      using i oi(2) select_rels_Inr [OF w1]
      by (auto simp: ListIncoming_def listByNode_def type_matches_def split: option.splits)
    ultimately have ids: "r_RelID ` set outs = rr_rel_id ` {r \<in> set (rels db). ?from r}"
        "r_RelID ` set ins = rr_rel_id ` {r \<in> set (rels db). ?to r}"
      using picked_ids [OF assms(1)] picked_ids [OF w1] t1 by simp_all
    obtain v3 db3 where d3: "delete_rels c outs db2 = (v3, db3)" by fastforce
    note t3 = delete_rels_tables [OF d3]
    show ?thesis
    proof (cases v3)
      case (Some e)
      then have "v = Some e \<and> db' = db3"
        using assms(2) o i oi d3 by (simp add: deleteRelationshipsOfNode_def)
      then show ?thesis using t3 t2 by auto
    next
      case None
      then have d4: "delete_rels c ins db3 = (v, db')"
        using assms(2) o i oi d3 by (simp add: deleteRelationshipsOfNode_def)
      note t4 = delete_rels_tables [OF d4]
      have r3: "rels db3 = filter (\<lambda>r. rr_rel_id r \<notin> r_RelID ` set outs) (rels db)" using t3 None t2 by simp
      have "\<forall>r\<in>set (rels db'). \<not> ?from r \<and> \<not> ?to r" if "v = None"
        using t4 that r3 ids by (auto simp: image_iff)
      moreover have "\<exists>p. rels db' = filter p (rels db)"
        using t4 r3 by (metis filter_filter)
      ultimately show ?thesis using t3 t4 t2 by simp
    qed
  qed
qed

lemma deleteRelationshipsOfNode_inv:
  assumes "kg_inv db" "deleteRelationshipsOfNode c nodeID db = (v, db')"
  shows "kg_inv db'"
proof -
  have "well_rels db" "refs_ok db" using assms(1) by (simp_all add: kg_inv_def)
  moreover obtain p where "nodes db' = nodes db" "rels db' = filter p (rels db)"
    using deleteRelationshipsOfNode_tables [OF \<open>well_rels db\<close> assms(2)] by blast
  ultimately show ?thesis
    by (intro kg_inv_deletes [OF assms(1), where p = "\<lambda>_. True"]) (auto simp: refs_ok_def)
qed

lemma delete_node_and_rels_inv:
  assumes "kg_inv db" "\<forall>r\<in>set (rels db). rr_from_node_id r \<noteq> nodeID \<and> rr_to_node_id r \<noteq> nodeID"
  shows "kg_inv (snd (NodeRepo_Delete c nodeID db))"
proof -
  have "refs_ok db" using assms(1) by (simp add: kg_inv_def)
  have "kg_inv (db'\<lparr>nodes := sql_delete (\<lambda>r. nr_node_id r = nodeID) (nodes db)\<rparr>)" if "db' = consume db" for db'
    using assms(2) that \<open>refs_ok db\<close>
    by (intro kg_inv_deletes [OF assms(1), where q = "\<lambda>_. True"]) (auto simp: sql_delete_def refs_ok_def)
  then show ?thesis using assms(1) by (auto simp: NodeRepo_Delete_def split: option.splits)
qed

text \<open>The calls a client makes, and a run of them.\<close>

datatype kg_op =
    RegisterNode "Node option" | UpdateNode string gomap | DeleteNode string
  | CreateRelationship "Relationship option" | DeleteRelationship string
  | SetTransactions bool

fun kg_exec :: "'b publisher \<Rightarrow> ctx \<Rightarrow> kg_op \<Rightarrow> 'b kg \<Rightarrow> 'b kg" where
  "kg_exec publish c (RegisterNode n) k = snd (KG_RegisterNode publish c n k)"
| "kg_exec publish c (UpdateNode i ch) k = snd (KG_UpdateNode publish c i ch k)"
| "kg_exec publish c (DeleteNode i) k = snd (KG_DeleteNode publish c i k)"
| "kg_exec publish c (CreateRelationship r) k = snd (KG_CreateRelationship publish c r k)"
| "kg_exec publish c (DeleteRelationship i) k = snd (KG_DeleteRelationship publish c i k)"
| "kg_exec publish c (SetTransactions on) k = SetDB on k"

text \<open>A client may set a relationship's creation time; it must be one that can be written.\<close>

fun kg_op_ok :: "kg_op \<Rightarrow> bool" where
  "kg_op_ok (CreateRelationship (Some r)) \<longleftrightarrow> 0 \<le> r_CreatedAt r \<and> r_CreatedAt r < year_10000"
| "kg_op_ok _ \<longleftrightarrow> True"

definition kg_state_ok :: "'b kg \<Rightarrow> bool" where
  "kg_state_ok k \<longleftrightarrow> kg_inv (kg_db k) \<and> kg_clock_ok (kg_world k)"

lemma kg_state_db: "kg_state_ok k \<Longrightarrow> kg_inv db \<Longrightarrow> kg_state_ok (k\<lparr>kg_db := db\<rparr>)"
  by (simp add: kg_state_ok_def)

lemma kg_state_tick [simp]: "kg_state_ok (tick_kg k) = kg_state_ok k"
  by (simp add: kg_state_ok_def)

lemma kg_state_trigger [simp]: "kg_state_ok (trigger h k) = kg_state_ok k"
  by (simp add: kg_state_ok_def)

lemma publishEvent_state:
  "publishEvent publish c etype source p k = (v, k') \<Longrightarrow> kg_state_ok k' = kg_state_ok k"
  using publishEvent_frame [of publish c etype source p k v k'] by (simp add: kg_state_ok_def kg_clock_ok_def)

lemma KG_RegisterNode_state: "kg_state_ok k \<Longrightarrow> kg_state_ok (snd (KG_RegisterNode publish c node k))"
proof (cases node)
  case (Some n0)
  assume ok: "kg_state_ok k"
  let ?now = "now_of (kg_world k)"
  let ?n = "n0\<lparr>n_CreatedAt := ?now, n_UpdatedAt := ?now\<rparr>"
  have "node_times_ok ?n"
    using ok kg_clock_now [of "kg_world k"] by (simp add: kg_state_ok_def node_times_ok_def)
  then have "kg_inv (snd (NodeRepo_Create c (Some ?n) (kg_db k)))"
    using ok by (intro NodeRepo_Create_kg_inv) (simp_all add: kg_state_ok_def)
  then have db: "kg_state_ok ((tick_kg k)\<lparr>kg_db := db\<rparr>)" if "NodeRepo_Create c (Some ?n) (kg_db k) = (v, db)" for v db
    using that ok by (intro kg_state_db) simp_all
  show ?thesis
    using ok db unfolding KG_RegisterNode_def Some
    by (auto simp: Let_def split: option.splits prod.splits dest!: publishEvent_state)
qed (simp add: KG_RegisterNode_def)

lemma KG_UpdateNode_state: "kg_state_ok k \<Longrightarrow> kg_state_ok (snd (KG_UpdateNode publish c nodeID changes k))"
proof -
  assume ok: "kg_state_ok k"
  have get: "kg_inv db" if "NodeRepo_Get c nodeID (kg_db k) = (r, db)" for r db
    using kg_inv_read(1) [of c nodeID "kg_db k"] that ok by (simp add: kg_state_ok_def)
  have upd: "kg_inv db1" if "NodeRepo_Get c nodeID (kg_db k) = (r, db)"
      "NodeRepo_Update c (Some (n\<lparr>n_UpdatedAt := now_of (kg_world k)\<rparr>)) db = (v, db1)" for r db n v db1
    using NodeRepo_Update_kg_inv [of db "Some (n\<lparr>n_UpdatedAt := now_of (kg_world k)\<rparr>)" c] get [OF that(1)] that(2)
      ok kg_clock_now [of "kg_world k"] by (simp add: kg_state_ok_def)
  show ?thesis
    using ok get upd unfolding KG_UpdateNode_def
    by (auto simp: Let_def kg_state_db split: option.splits prod.splits sum.splits if_splits
        dest!: publishEvent_state)
qed

lemma KG_DeleteNode_state: "kg_state_ok k \<Longrightarrow> kg_state_ok (snd (KG_DeleteNode publish c nodeID k))"
proof -
  assume ok: "kg_state_ok k"
  then have inv: "kg_inv (kg_db k)" by (simp add: kg_state_ok_def)
  have rels: "kg_inv db" if "deleteRelationshipsOfNode c nodeID (kg_db k) = (v, db)" for v db
    using deleteRelationshipsOfNode_inv [OF inv that] .
  have node: "kg_inv db1" if "deleteRelationshipsOfNode c nodeID (kg_db k) = (None, db)"
      "NodeRepo_Delete c nodeID db = (v, db1)" for db v db1
    using delete_node_and_rels_inv [OF rels [OF that(1)], of nodeID c]
      deleteRelationshipsOfNode_tables [OF _ that(1)] inv that(2) by (simp add: kg_inv_def)
  show ?thesis
    using ok rels node delete_in_tx_inv [OF inv]
    unfolding KG_DeleteNode_def deleteNodeInTx_def deleteNodeNoTx_def
    by (auto simp: kg_state_db split: option.splits prod.splits dest!: publishEvent_state)
qed

lemma KG_CreateRelationship_state:
  "kg_state_ok k \<Longrightarrow> kg_op_ok (CreateRelationship rel) \<Longrightarrow>
   kg_state_ok (snd (KG_CreateRelationship publish c rel k))"
proof (cases rel)
  case (Some r0)
  assume ok: "kg_state_ok k" and op: "kg_op_ok (CreateRelationship rel)"
  define r where "r = (if IsZero (r_CreatedAt r0) then r0\<lparr>r_CreatedAt := now_of (kg_world k)\<rparr> else r0)"
  define k1 where "k1 = (if IsZero (r_CreatedAt r0) then tick_kg k else k)"
  have k1: "kg_state_ok k1" "kg_db k1 = kg_db k" using ok by (simp_all add: k1_def)
  have r: "storable_rel r"
    using op Some ok kg_clock_now [of "kg_world k"] by (simp add: r_def storable_rel_def kg_state_ok_def)
  have inv: "kg_inv (kg_db k)" using ok by (simp add: kg_state_ok_def)
  obtain g1 db1 where g1: "NodeRepo_Get c (r_FromNodeID r) (kg_db k) = (g1, db1)" by fastforce
  obtain g2 db2 where g2: "NodeRepo_Get c (r_ToNodeID r) db1 = (g2, db2)" by fastforce
  obtain v db3 where cr: "RelRepo_Create c (Some r) db2 = (v, db3)" by fastforce
  have i1: "kg_inv db1" using kg_inv_read(1) [of c "r_FromNodeID r" "kg_db k"] g1 inv by simp
  then have i2: "kg_inv db2" using kg_inv_read(1) [of c "r_ToNodeID r" db1] g2 by simp
  then have i3: "kg_inv db3" using RelRepo_Create_inv [of db2 "Some r" c] r cr by simp
  note states = kg_state_db [OF k1(1) i1] kg_state_db [OF k1(1) i2] kg_state_db [OF k1(1) i3]
  show ?thesis
    using k1 states unfolding KG_CreateRelationship_def Some
    by (auto simp: Let_def k1(2) g1 g2 cr simp flip: r_def k1_def split: option.splits prod.splits sum.splits
        dest!: publishEvent_state)
qed (simp add: KG_CreateRelationship_def)

lemma KG_DeleteRelationship_state:
  "kg_state_ok k \<Longrightarrow> kg_state_ok (snd (KG_DeleteRelationship publish c relID k))"
proof -
  assume ok: "kg_state_ok k"
  have "kg_inv db" if "RelRepo_Delete c relID (kg_db k) = (v, db)" for v db
    using RelRepo_Delete_inv [of "kg_db k" c relID] that ok by (simp add: kg_state_ok_def)
  then show ?thesis
    using ok unfolding KG_DeleteRelationship_def
    by (auto simp: kg_state_db split: option.splits prod.splits dest!: publishEvent_state)
qed

lemma kg_exec_state: "kg_state_ok k \<Longrightarrow> kg_op_ok p \<Longrightarrow> kg_state_ok (kg_exec publish c p k)"
  by (cases p) (simp_all add: KG_RegisterNode_state KG_UpdateNode_state KG_DeleteNode_state
      KG_CreateRelationship_state KG_DeleteRelationship_state, simp add: SetDB_def kg_state_ok_def)

subsection \<open>The database after a successful write\<close>

lemma NodeRepo_Create_view:
  assumes "well_db db" "node_times_ok n" "NodeRepo_Create c (Some n) db = (None, db')"
  shows "node_view db' = (node_view db)(n_NodeID n \<mapsto> stored_node n) \<and> node_view db (n_NodeID n) = None"
proof -
  obtain t where t: "marshalProperties (n_Properties n) = Inr t"
      "n_NodeID n \<notin> nr_node_id ` set (nodes db)"
      "db' = (consume db)\<lparr>nodes := nodes db @ [node_row_of n t]\<rparr>"
    using assms(3) by (auto simp: NodeRepo_Create_def sql_insert_Inr split: option.splits sum.splits)
  then show ?thesis
    using view_insert [of nr_node_id "node_row_of n t" "nodes db" scanNode] scanNode_row_of [OF assms(2) t(1)]
    by (simp add: node_view_def view_None)
qed

text \<open>A row for a key that is in the table: the update applies to it.\<close>

lemma NodeRepo_Update_view:
  assumes well: "well_db db" and upd: "0 \<le> n_UpdatedAt n" "n_UpdatedAt n < year_10000"
    and old: "node_view db (n_NodeID n) = Some old" and ok: "NodeRepo_Update c (Some n) db = (None, db')"
  shows "node_view db' = (node_view db)(n_NodeID n \<mapsto> merged_node old n)"
proof -
  obtain t where t: "marshalProperties (n_Properties n) = Inr t"
      "db' = (consume db)\<lparr>nodes := sql_update (\<lambda>r. nr_node_id r = n_NodeID n) (set_node_row n t) (nodes db)\<rparr>"
    using ok by (auto simp: NodeRepo_Update_def Let_def split: option.splits sum.splits if_splits)
  obtain r where r: "row_of nr_node_id (nodes db) (n_NodeID n) = Some r" "nr_node_id r = n_NodeID n"
      "scanNode r = Inr old" using node_view_Some [OF well old] by blast
  have sc: "scanNode (set_node_row n t r) = Inr (merged_node old n)"
    using scanNode_set_row [OF upd t(1) r(3)] r(2) by simp
  show ?thesis
    using view_update [of nr_node_id "set_node_row n t" "nodes db" "n_NodeID n" r scanNode] r(1) sc
    by (simp add: t(2) node_view_def)
qed

lemma NodeRepo_Get_Inr:
  "well_db db \<Longrightarrow> NodeRepo_Get c k db = (Inr n, db') \<Longrightarrow>
   node_view db k = Some n \<and> db' = consume db \<and> ctx_err c = None"
  by (auto simp: NodeRepo_Get_def node_view_def view_def scanned_eq split: option.splits sum.splits)

subsection \<open>Publication\<close>

lemma with_trace_new: "e_TraceID e = traceIDFromContext c \<Longrightarrow> with_trace c e = e"
  by (simp add: with_trace_def Let_def)

lemma SetPayload_header:
  "SetPayload e v = Inr e1 \<Longrightarrow> e_EventID e1 = e_EventID e \<and> e_EventType e1 = e_EventType e \<and>
   e_Timestamp e1 = e_Timestamp e \<and> e_SourceNodeID e1 = e_SourceNodeID e \<and> e_TraceID e1 = e_TraceID e"
  by (auto simp: SetPayload_def split: if_splits sum.splits goval.splits)

text \<open>The event a publication at a world makes.\<close>

definition event_at :: "ctx \<Rightarrow> world \<Rightarrow> EventType \<Rightarrow> string \<Rightarrow> payload \<Rightarrow> Event res" where
  "event_at c w etype source p = SetPayload (new_event c w etype source) (payload_value p)"

lemma applyChanges_NodeID [simp]: "n_NodeID (applyChanges n changes) = n_NodeID n"
proof -
  have "n_NodeID (apply_change kv m) = n_NodeID m" for kv m
    by (cases kv) (auto simp: apply_change_def split: goval.splits)
  then show ?thesis by (induction changes arbitrary: n) (simp_all add: applyChanges_def)
qed

text \<open>The event of a status change, sent only when there is one.\<close>

definition status_event :: "'b publisher \<Rightarrow> ctx \<Rightarrow> string \<Rightarrow> Node \<Rightarrow> Node \<Rightarrow> 'b kg \<Rightarrow> verdict \<times> 'b kg" where
  "status_event publish c nodeID old n k =
     (if n_Status n \<noteq> n_Status old
      then publishEvent publish c EventStateUpdated nodeID (StateUpdatedPayload nodeID (n_Status old) (n_Status n)) k
      else (None, k))"

lemma UpdateNode_Inr:
  assumes "KG_UpdateNode publish c nodeID changes k = (Inr n, k')"
  obtains old db db1 k3 k4 where "changes \<noteq> []" "NodeRepo_Get c nodeID (kg_db k) = (Inr old, db)"
    "n = (applyChanges old changes)\<lparr>n_UpdatedAt := now_of (kg_world k)\<rparr>"
    "NodeRepo_Update c (Some n) db = (None, db1)"
    "status_event publish c nodeID old n ((tick_kg (k\<lparr>kg_db := db\<rparr>))\<lparr>kg_db := db1\<rparr>) = (None, k3)"
    "publishEvent publish c EventNodeUpdated nodeID (NodeUpdatedPayload nodeID (GMap changes)) k3 = (None, k4)"
    "k' = trigger (HookUpdated n changes) k4"
  using assms unfolding KG_UpdateNode_def status_event_def
  by (auto simp: Let_def split: if_splits option.splits prod.splits sum.splits)

lemma UpdateNode_view:
  assumes ok: "kg_state_ok k" and get: "NodeRepo_Get c nodeID (kg_db k) = (Inr old, db)"
    and n: "n = (applyChanges old changes)\<lparr>n_UpdatedAt := now_of (kg_world k)\<rparr>"
    and upd: "NodeRepo_Update c (Some n) db = (None, db1)"
  shows "node_view (kg_db k) nodeID = Some old \<and>
    node_view db1 = (node_view (kg_db k))(nodeID \<mapsto> merged_node old n)"
proof -
  have well: "well_db (kg_db k)" and now: "0 < n_UpdatedAt n" "n_UpdatedAt n < year_10000"
    using ok kg_clock_now [of "kg_world k"] n by (simp_all add: kg_state_ok_def kg_inv_def)
  note g = NodeRepo_Get_Inr [OF well get]
  have "n_NodeID old = nodeID" using node_view_Some [OF well] g scanNode_id by metis
  then have "n_NodeID n = nodeID" using n by simp
  moreover have "well_db db" "node_view db = node_view (kg_db k)" using g well by (simp_all add: node_view_def)
  ultimately show ?thesis using NodeRepo_Update_view [of db n old c db1] g upd now by simp
qed

context message_bus
begin

lemma publishEvent_ok:
  assumes "bus_ok (kg_bus k)" "publishEvent publish c etype source p k = (None, k')"
    and takes: "\<And>e. e_Timestamp e = now_of (tick (kg_world k)) \<Longrightarrow> takes e"
  shows "\<exists>e. event_at c (kg_world k) etype source p = Inr e \<and> kg_world k' = tick (tick (tick (kg_world k))) \<and>
    accepted (kg_bus k') = add_mset (readback e) (accepted (kg_bus k)) \<and> bus_ok (kg_bus k') \<and>
    Registry_Validate (registry (kg_bus k)) (Some e) = None \<and> registry (kg_bus k') = registry (kg_bus k)"
proof -
  obtain e bus' where e: "event_at c (kg_world k) etype source p = Inr e"
      "publish c (tick (tick (kg_world k))) (Some e) (kg_bus k) = (None, bus')"
      "k' = tick_kg ((tick_kg (tick_kg k))\<lparr>kg_bus := bus'\<rparr>)"
    using assms(2) by (auto simp: publishEvent_def event_at_def Let_def split: sum.splits prod.splits)
  have h: "e_TraceID e = traceIDFromContext c" "e_Timestamp e = now_of (tick (kg_world k))"
    using SetPayload_header e(1) by (fastforce simp: event_at_def new_event_def)+
  then have "with_trace c e = e" by (simp add: with_trace_new)
  then show ?thesis
    using publish_ok [OF assms(1), of c e] takes [OF h(2)] e by auto
qed

lemma publishEvent_err:
  assumes "bus_ok (kg_bus k)" "publishEvent publish c etype source p k = (Some err, k')"
  shows "accepted (kg_bus k') = accepted (kg_bus k) \<and> bus_ok (kg_bus k')"
  using assms publish_err by (auto simp: publishEvent_def Let_def split: sum.splits prod.splits)

lemma RegisterNode_ok:
  assumes ok: "kg_state_ok k" "bus_ok (kg_bus k)"
    and reg: "KG_RegisterNode publish c (Some n0) k = ((on, None), k')"
    and takes: "\<And>e. 0 \<le> e_Timestamp e \<Longrightarrow> e_Timestamp e < year_10000 \<Longrightarrow> takes e"
  defines "n \<equiv> n0\<lparr>n_CreatedAt := now_of (kg_world k), n_UpdatedAt := now_of (kg_world k)\<rparr>"
  shows "on = Some n \<and> valid_node n \<and> node_view (kg_db k) (n_NodeID n) = None \<and>
    node_view (kg_db k') = (node_view (kg_db k))(n_NodeID n \<mapsto> stored_node n) \<and>
    (\<exists>w1 w2 e1 e2. event_at c w1 EventNodeRegistered (n_NodeID n) (NodeRegisteredPayload (n_NodeID n) (n_NodeType n)) = Inr e1 \<and>
       event_at c w2 EventStateUpdated (n_NodeID n) (StateUpdatedPayload (n_NodeID n) [] (n_Status n)) = Inr e2 \<and>
       accepted (kg_bus k') = accepted (kg_bus k) + {#readback e1, readback e2#}) \<and>
    kg_hooks k' = kg_hooks k @ (if kg_hookTrigger k then [HookRegistered n] else [])"
proof -
  have clock: "kg_clock_ok (kg_world k)" and well: "well_db (kg_db k)"
    using ok by (simp_all add: kg_state_ok_def kg_inv_def)
  have ts: "takes e" if "e_Timestamp e = now_of w" "kg_clock_ok w" for e w
    using takes [of e] kg_clock_now [OF that(2)] that(1) by simp
  let ?k1 = "tick_kg k"
  obtain db k2 k3 where st: "Node_Validate n = None" "NodeRepo_Create c (Some n) (kg_db k) = (None, db)"
      "publishEvent publish c EventNodeRegistered (n_NodeID n) (NodeRegisteredPayload (n_NodeID n) (n_NodeType n))
        (?k1\<lparr>kg_db := db\<rparr>) = (None, k2)"
      "publishEvent publish c EventStateUpdated (n_NodeID n) (StateUpdatedPayload (n_NodeID n) [] (n_Status n)) k2 = (None, k3)"
      "k' = trigger (HookRegistered n) k3" "on = Some n"
    using reg unfolding KG_RegisterNode_def n_def
    by (auto simp: Let_def split: option.splits prod.splits)
  have times: "node_times_ok n" using kg_clock_now [OF clock] by (simp add: n_def node_times_ok_def)
  note view = NodeRepo_Create_view [OF well times st(2)]
  note p1 = publishEvent_ok [OF _ st(3)] and f1 = publishEvent_frame [OF st(3)]
  note p2 = publishEvent_ok [OF _ st(4)] and f2 = publishEvent_frame [OF st(4)]
  obtain e1 where e1: "event_at c (kg_world (?k1\<lparr>kg_db := db\<rparr>)) EventNodeRegistered (n_NodeID n)
        (NodeRegisteredPayload (n_NodeID n) (n_NodeType n)) = Inr e1"
      "accepted (kg_bus k2) = add_mset (readback e1) (accepted (kg_bus k))" "bus_ok (kg_bus k2)"
      "kg_world k2 = tick (tick (tick (tick (kg_world k))))"
    using p1 ok(2) ts clock by auto
  obtain e2 where e2: "event_at c (kg_world k2) EventStateUpdated (n_NodeID n)
        (StateUpdatedPayload (n_NodeID n) [] (n_Status n)) = Inr e2"
      "accepted (kg_bus k3) = add_mset (readback e2) (accepted (kg_bus k2))"
    using p2 e1(3,4) ts clock by auto
  have "accepted (kg_bus k') = accepted (kg_bus k) + {#readback e1, readback e2#}"
    using e1(2) e2(2) st(5) by simp
  with e1(1) e2(1) have "\<exists>w1 w2 e1 e2. event_at c w1 EventNodeRegistered (n_NodeID n)
        (NodeRegisteredPayload (n_NodeID n) (n_NodeType n)) = Inr e1 \<and>
      event_at c w2 EventStateUpdated (n_NodeID n) (StateUpdatedPayload (n_NodeID n) [] (n_Status n)) = Inr e2 \<and>
      accepted (kg_bus k') = accepted (kg_bus k) + {#readback e1, readback e2#}" by blast
  moreover have "node_view (kg_db k') = (node_view (kg_db k))(n_NodeID n \<mapsto> stored_node n)"
    using view f1 f2 st(5) by simp
  moreover have "kg_hooks k' = kg_hooks k @ (if kg_hookTrigger k then [HookRegistered n] else [])"
    using f1 f2 st(5) by simp
  ultimately show ?thesis using st(1,6) view by (simp add: Node_Validate_iff)
qed

lemma status_event_ok:
  assumes "bus_ok (kg_bus k)" "status_event publish c nodeID old n k = (None, k')"
    and takes: "\<And>e. e_Timestamp e = now_of (tick (kg_world k)) \<Longrightarrow> takes e"
  shows "(\<exists>es. accepted (kg_bus k') = accepted (kg_bus k) + image_mset readback (mset es) \<and>
      (if n_Status n = n_Status old then es = []
       else \<exists>w e. es = [e] \<and>
         event_at c w EventStateUpdated nodeID (StateUpdatedPayload nodeID (n_Status old) (n_Status n)) = Inr e)) \<and>
    bus_ok (kg_bus k') \<and> w_clock (kg_world k') = w_clock (kg_world k) \<and> kg_db k' = kg_db k \<and>
    kg_hooks k' = kg_hooks k \<and> kg_hookTrigger k' = kg_hookTrigger k"
proof (cases "n_Status n = n_Status old")
  case True
  then show ?thesis using assms(1,2) by (auto simp: status_event_def)
next
  case False
  then have p: "publishEvent publish c EventStateUpdated nodeID
      (StateUpdatedPayload nodeID (n_Status old) (n_Status n)) k = (None, k')"
    using assms(2) by (simp add: status_event_def)
  from publishEvent_ok [OF assms(1) p takes] obtain e where
    "event_at c (kg_world k) EventStateUpdated nodeID (StateUpdatedPayload nodeID (n_Status old) (n_Status n)) = Inr e"
    "accepted (kg_bus k') = accepted (kg_bus k) + image_mset readback (mset [e])" "bus_ok (kg_bus k')" by auto
  then show ?thesis using False publishEvent_frame [OF p] by (auto intro!: exI [of _ "[e]"])
qed

lemma UpdateNode_ok:
  assumes ok: "kg_state_ok k" "bus_ok (kg_bus k)"
    and upd: "KG_UpdateNode publish c nodeID changes k = (Inr n, k')"
    and takes: "\<And>e. 0 \<le> e_Timestamp e \<Longrightarrow> e_Timestamp e < year_10000 \<Longrightarrow> takes e"
  shows "\<exists>old. changes \<noteq> [] \<and> node_view (kg_db k) nodeID = Some old \<and>
    n = (applyChanges old changes)\<lparr>n_UpdatedAt := now_of (kg_world k)\<rparr> \<and>
    node_view (kg_db k') = (node_view (kg_db k))(nodeID \<mapsto> merged_node old n) \<and>
    (\<exists>w e es. event_at c w EventNodeUpdated nodeID (NodeUpdatedPayload nodeID (GMap changes)) = Inr e \<and>
       accepted (kg_bus k') = accepted (kg_bus k) + image_mset readback (mset (e # es)) \<and>
       (if n_Status n = n_Status old then es = []
        else \<exists>w e. es = [e] \<and>
          event_at c w EventStateUpdated nodeID (StateUpdatedPayload nodeID (n_Status old) (n_Status n)) = Inr e)) \<and>
    kg_hooks k' = kg_hooks k @ (if kg_hookTrigger k then [HookUpdated n changes] else [])"
proof -
  obtain old db db1 k3 k4 where st: "changes \<noteq> []" "NodeRepo_Get c nodeID (kg_db k) = (Inr old, db)"
      "n = (applyChanges old changes)\<lparr>n_UpdatedAt := now_of (kg_world k)\<rparr>"
      "NodeRepo_Update c (Some n) db = (None, db1)"
      "status_event publish c nodeID old n ((tick_kg (k\<lparr>kg_db := db\<rparr>))\<lparr>kg_db := db1\<rparr>) = (None, k3)"
      "publishEvent publish c EventNodeUpdated nodeID (NodeUpdatedPayload nodeID (GMap changes)) k3 = (None, k4)"
      "k' = trigger (HookUpdated n changes) k4"
    using UpdateNode_Inr [OF upd] by metis
  let ?k2 = "(tick_kg (k\<lparr>kg_db := db\<rparr>))\<lparr>kg_db := db1\<rparr>"
  have clock: "kg_clock_ok (kg_world k)" using ok by (simp add: kg_state_ok_def)
  have ts: "takes e" if "e_Timestamp e = now_of (tick w)" "w_clock w = w_clock (kg_world k)" for e w
    using takes [of e] clock that by (simp add: kg_clock_ok_def now_of_def less_imp_le)
  note view = UpdateNode_view [OF ok(1) st(2,3,4)]
  have "bus_ok (kg_bus ?k2)" "w_clock (kg_world ?k2) = w_clock (kg_world k)" using ok(2) by simp_all
  from status_event_ok [OF this(1) st(5) ts [OF _ this(2)]] obtain es where es:
    "accepted (kg_bus k3) = accepted (kg_bus k) + image_mset readback (mset es)"
    "if n_Status n = n_Status old then es = []
     else \<exists>w e. es = [e] \<and>
       event_at c w EventStateUpdated nodeID (StateUpdatedPayload nodeID (n_Status old) (n_Status n)) = Inr e"
    "bus_ok (kg_bus k3)" "w_clock (kg_world k3) = w_clock (kg_world k)" "kg_db k3 = db1"
    "kg_hooks k3 = kg_hooks k" "kg_hookTrigger k3 = kg_hookTrigger k" by auto
  from publishEvent_ok [OF es(3) st(6) ts [OF _ es(4)]] obtain e where e:
    "event_at c (kg_world k3) EventNodeUpdated nodeID (NodeUpdatedPayload nodeID (GMap changes)) = Inr e"
    "accepted (kg_bus k4) = add_mset (readback e) (accepted (kg_bus k3))" by auto
  note f = publishEvent_frame [OF st(6)]
  have "accepted (kg_bus k') = accepted (kg_bus k) + image_mset readback (mset (e # es))"
    using e(2) es(1) st(7) by simp
  moreover have "node_view (kg_db k') = (node_view (kg_db k))(nodeID \<mapsto> merged_node old n)"
    using view f es(5) st(7) by simp
  moreover have "kg_hooks k' = kg_hooks k @ (if kg_hookTrigger k then [HookUpdated n changes] else [])"
    using f es(6,7) st(7) by simp
  ultimately show ?thesis using e(1) es(2) view st(1,3) by blast
qed

end

subsection \<open>A healthy system\<close>

text \<open>A bus over the SQLite store with the default registry, open, its driver calm, and
  identifiers ahead that are non-empty and not yet in the table.\<close>

definition sql_ready :: "ctx \<Rightarrow> SQLiteEventStore LocalBus kg \<Rightarrow> bool" where
  "sql_ready c k \<longleftrightarrow> ctx_err c = None \<and>
     faults (lb_store (kg_bus k)) = [] \<and> \<not> ss_closed (lb_store (kg_bus k)) \<and> \<not> lb_done (kg_bus k) \<and>
     lb_registry (kg_bus k) = NewSchemaRegistry \<and> inj (w_uuid (kg_world k)) \<and>
     (\<forall>n\<ge>w_pos (kg_world k). w_uuid (kg_world k) n \<noteq> [] \<and>
        w_uuid (kg_world k) n \<notin> er_event_id ` set (ss_events (lb_store (kg_bus k)))) \<and>
     (\<forall>n. 0 < w_clock (kg_world k) n)"

lemma payload_type_nonempty: "payload_type p \<noteq> []"
  by (cases p) simp_all

lemma SetPayload_Some:
  assumes "is_ok (json_norm (payload_value p))"
  shows "\<exists>ws. SetPayload e (payload_value p) = Inr (e\<lparr>e_Payload := Some ws\<rparr>) \<and> json_fields ws = Inr ws"
proof -
  obtain kvs where kvs: "payload_value p = GStruct kvs" by (simp add: payload_value_def struct_value_def)
  then obtain ws where ws: "json_fields kvs = Inr ws"
    using assms by (auto simp: is_ok_def split: sum.splits)
  then show ?thesis using kvs json_norm_idem(3) [OF ws] by (intro exI [of _ ws]) (simp add: SetPayload_def)
qed

lemma publishEvent_ready:
  assumes ready: "sql_ready c k" and p: "payload_complete p" "is_ok (json_norm (payload_value p))" "source \<noteq> []"
  shows "\<exists>k'. publishEvent (LocalBus_Publish SQL_Append) c (payload_type p) source p k = (None, k') \<and> sql_ready c k'"
proof -
  let ?w = "kg_world k" and ?s = "lb_store (kg_bus k)"
  let ?e = "new_event c ?w (payload_type p) source"
  obtain ws where ws: "SetPayload ?e (payload_value p) = Inr (?e\<lparr>e_Payload := Some ws\<rparr>)" "json_fields ws = Inr ws"
    using SetPayload_Some [OF p(2)] by blast
  let ?e1 = "?e\<lparr>e_Payload := Some ws\<rparr>"
  have "header_ok ?e"
    using ready p(3) by (auto simp: header_ok_def new_event_def sql_ready_def uuid_of_def now_of_def payload_type_nonempty)
      (metis less_irrefl)
  then have valid: "Registry_Validate NewSchemaRegistry (Some ?e1) = None"
    using payload_event_valid [OF p(1) ws(1)] by (simp add: new_event_def)
  have tr: "with_trace c ?e1 = ?e1" by (rule with_trace_new) (simp add: new_event_def)
  let ?row = "event_row_of ?e1 (JText (GMap ws)) (cfg_now (ss_cfg ?s) (tick (tick ?w)))"
  let ?s' = "?s\<lparr>ss_events := ss_events ?s @ [?row]\<rparr>"
  have app: "SQL_Append c (tick (tick ?w)) (Some ?e1) ?s = (None, ?s')"
    using ready ws(2)
    by (simp add: SQL_Append_def sql_ready_def marshalPayload_def sql_insert_def new_event_def uuid_of_def)
  let ?bus = "send_publishCh ?e1 ((kg_bus k)\<lparr>lb_store := ?s'\<rparr>)"
  let ?k' = "tick_kg ((tick_kg (tick_kg k))\<lparr>kg_bus := ?bus\<rparr>)"
  have "LocalBus_Publish SQL_Append c (tick (tick ?w)) (Some ?e1) (kg_bus k) = (None, ?bus)"
    using ready valid tr app by (simp add: LocalBus_Publish_def sql_ready_def Let_def)
  then have "publishEvent (LocalBus_Publish SQL_Append) c (payload_type p) source p k = (None, ?k')"
    using ws(1) by (simp add: publishEvent_def Let_def)
  moreover have "w_uuid ?w n \<noteq> uuid_of ?w" if "Suc (w_pos ?w) \<le> n" for n
    using ready that unfolding sql_ready_def uuid_of_def by (auto dest: injD)
  then have "sql_ready c ?k'"
    using ready by (auto simp: sql_ready_def new_event_def)
  ultimately show ?thesis by blast
qed

lemma node_payloads_complete:
  "i \<noteq> [] \<Longrightarrow> t \<noteq> [] \<Longrightarrow> payload_complete (NodeRegisteredPayload i t)"
  "i \<noteq> [] \<Longrightarrow> st \<noteq> [] \<Longrightarrow> payload_complete (StateUpdatedPayload i old st)"
  "i \<noteq> [] \<Longrightarrow> payload_complete (NodeDeletedPayload i)"
  by (auto simp: payload_complete_def defaultPayloads_def isEmptyValue_def tag_eval)

lemma node_payloads_json:
  "is_ok (json_norm (payload_value (NodeRegisteredPayload i t)))"
  "is_ok (json_norm (payload_value (StateUpdatedPayload i old st)))"
  "is_ok (json_norm (payload_value (NodeDeletedPayload i)))"
  by (auto simp: payload_value_def struct_value_def defaultPayloads_def tag_eval)

text \<open>Registering a well-formed new node in a healthy system succeeds.\<close>

lemma RegisterNode_succeeds:
  assumes ready: "sql_ready c k" and db: "calm_kg (kg_db k)" and clock: "kg_clock_ok (kg_world k)"
    and n: "n_NodeID n0 \<noteq> []" "NodeType_Valid (n_NodeType n0)" "n_Name n0 \<noteq> []" "n_Status n0 \<noteq> []"
      "n_OwnerCommunityID n0 \<noteq> []" "is_ok (marshalProperties (n_Properties n0))"
    and new: "node_view (kg_db k) (n_NodeID n0) = None"
  shows "\<exists>on k'. KG_RegisterNode (LocalBus_Publish SQL_Append) c (Some n0) k = ((on, None), k')"
proof -
  let ?now = "now_of (kg_world k)"
  let ?n = "n0\<lparr>n_CreatedAt := ?now, n_UpdatedAt := ?now\<rparr>"
  have now: "0 < ?now" "?now < year_10000" using kg_clock_now [OF clock] by simp_all
  have "Node_Validate ?n = None" using n now by (simp add: Node_Validate_iff valid_node_def)
  moreover have "storable_node ?n" using n(6) now by (simp add: storable_node_def node_times_ok_def)
  then obtain db' where "NodeRepo_Create c (Some ?n) (kg_db k) = (None, db')"
    using NodeRepo_Create_new [of "kg_db k" c ?n] db new ready by (auto simp: calm_kg_def sql_ready_def)
  moreover
  let ?k1 = "(tick_kg k)\<lparr>kg_db := db'\<rparr>"
  have "sql_ready c ?k1" using ready by (simp add: sql_ready_def)
  from publishEvent_ready [OF this node_payloads_complete(1)
      [OF n(1) NodeType_Valid_nonempty [OF n(2)]] node_payloads_json(1) n(1)]
  obtain k2 where "publishEvent (LocalBus_Publish SQL_Append) c EventNodeRegistered (n_NodeID n0)
      (NodeRegisteredPayload (n_NodeID n0) (n_NodeType n0)) ?k1 = (None, k2)" "sql_ready c k2"
    by auto
  moreover
  from publishEvent_ready [OF this(2) node_payloads_complete(2) [OF n(1,4)] node_payloads_json(2) n(1)]
  obtain k3 where "publishEvent (LocalBus_Publish SQL_Append) c EventStateUpdated (n_NodeID n0)
      (StateUpdatedPayload (n_NodeID n0) [] (n_Status n0)) k2 = (None, k3)" by auto
  ultimately show ?thesis by (simp add: KG_RegisterNode_def Let_def)
qed

text \<open>An update that empties the status: the registry refuses its event, whatever the bus does.\<close>

lemma SetPayload_status:
  assumes "SetPayload e (payload_value (StateUpdatedPayload i old [])) = Inr e1"
  shows "\<exists>ws. e_Payload e1 = Some ws \<and> map_of ws ''newStatus'' = Some (GStr []) \<and> e_EventType e1 = e_EventType e"
proof -
  have "\<exists>kvs. payload_value (StateUpdatedPayload i old []) = GStruct kvs \<and> map_of kvs ''newStatus'' = Some (GStr [])"
    by (auto simp: payload_value_def struct_value_def defaultPayloads_def tag_eval)
  then obtain kvs where kvs: "payload_value (StateUpdatedPayload i old []) = GStruct kvs"
      "map_of kvs ''newStatus'' = Some (GStr [])" by blast
  then obtain ws where ws: "json_fields kvs = Inr ws" "e1 = e\<lparr>e_Payload := Some ws\<rparr>"
    using assms by (auto simp: SetPayload_def split: sum.splits)
  then show ?thesis using json_fields_lookup [OF ws(1) kvs(2)] by simp
qed

lemma empty_status_invalid:
  assumes "SetPayload e (payload_value (StateUpdatedPayload i old [])) = Inr e1" "e_EventType e = EventStateUpdated"
  shows "Registry_Validate NewSchemaRegistry (Some e1) \<noteq> None"
proof -
  let ?f = "\<lparr>fd_Name = ''newStatus'', fd_Type = jsonType TString, fd_Required = True\<rparr>"
  have "map_of defaultPayloads EventStateUpdated =
      Some [fld ''nodeId'' TString, fld ''oldStatus,omitempty'' TString, fld ''newStatus'' TString]"
    by (simp add: defaultPayloads_def)
  moreover have "?f \<in> set (extractFields [fld ''nodeId'' TString, fld ''oldStatus,omitempty'' TString, fld ''newStatus'' TString])"
    by (simp add: extractFields_plain plain_field_def tag_eval)
  ultimately obtain schema where "sr_schemas NewSchemaRegistry EventStateUpdated = Some schema" "?f \<in> set (s_Fields schema)"
    by (auto simp: NewSchemaRegistry_schemas)
  moreover obtain ws where "e_Payload e1 = Some ws" "map_of ws ''newStatus'' = Some (GStr [])"
      "e_EventType e1 = EventStateUpdated" using SetPayload_status [OF assms(1)] assms(2) by auto
  ultimately show ?thesis
    by (intro notI) (fastforce simp: Registry_Validate_iff carries_def isEmptyValue_def)
qed

lemma publish_empty_status:
  assumes "lb_registry (kg_bus k) = NewSchemaRegistry"
  shows "\<exists>err k'. publishEvent (LocalBus_Publish app) c EventStateUpdated i (StateUpdatedPayload i old []) k =
    (Some err, k') \<and> kg_db k' = kg_db k"
proof -
  obtain v k' where p: "publishEvent (LocalBus_Publish app) c EventStateUpdated i (StateUpdatedPayload i old []) k = (v, k')"
    by fastforce
  have "v \<noteq> None"
  proof
    assume "v = None"
    then obtain e1 b where e1: "event_at c (kg_world k) EventStateUpdated i (StateUpdatedPayload i old []) = Inr e1"
        "LocalBus_Publish app c (tick (tick (kg_world k))) (Some e1) (kg_bus k) = (None, b)"
      using p by (auto simp: publishEvent_def event_at_def Let_def split: sum.splits prod.splits)
    then have "with_trace c e1 = e1"
      by (intro with_trace_new) (use SetPayload_header in \<open>fastforce simp: event_at_def new_event_def\<close>)
    then have "Registry_Validate NewSchemaRegistry (Some e1) = None"
      using Publish_None [OF e1(2)] assms by metis
    moreover have "e_EventType (new_event c (kg_world k) EventStateUpdated i) = EventStateUpdated"
      by (simp add: new_event_def)
    ultimately show False using empty_status_invalid e1(1) unfolding event_at_def by blast
  qed
  then show ?thesis using p publishEvent_frame [OF p] by auto
qed

subsection \<open>Properties\<close>

definition demo_world :: world where
  "demo_world = \<lparr>w_clock = (\<lambda>n. new_year_2026), w_uuid = (\<lambda>n. replicate (Suc n) CHR ''u''), w_pos = 0\<rparr>"

definition demo_kg :: "SQLiteEventStore LocalBus kg" where
  "demo_kg = (NewKGService \<lparr>faults = [], nodes = [], rels = []\<rparr> (NewLocalBus fresh_sql None) demo_world)
     \<lparr>kg_hookTrigger := True, kg_tx := True\<rparr>"

lemma demo_kg_ok: "kg_state_ok demo_kg" "sql_ready background demo_kg" "calm_kg (kg_db demo_kg)"
    "kg_clock_ok (kg_world demo_kg)" "sql_log_wf (lb_store (kg_bus demo_kg))"
    "node_view (kg_db demo_kg) = Map.empty"
proof -
  have "inj (\<lambda>n. replicate (Suc n) CHR ''u'')" by (auto simp: inj_def dest: arg_cong [of _ _ length])
  then show "kg_state_ok demo_kg" "sql_ready background demo_kg" "calm_kg (kg_db demo_kg)"
      "kg_clock_ok (kg_world demo_kg)" "sql_log_wf (lb_store (kg_bus demo_kg))"
      "node_view (kg_db demo_kg) = Map.empty"
    using fresh_sql_wf
    by (auto simp: demo_kg_def NewKGService_def kg_state_ok_def kg_inv_def well_db_def well_rels_def refs_ok_def
        scans_def kg_clock_ok_def demo_world_def new_year_2026_def year_10000_def sql_ready_def background_def
        NewLocalBus_def fresh_sql_def calm_kg_def calm_db_def node_view_def view_def row_of_def fun_eq_iff)
qed

text \<open>C13: Whatever the clients call, in any order, in or out of transactions, with any bus and any
  refusals of the database driver, the graph stays well formed: ids are unique, every row
  can be read back, and every relationship joins two stored nodes.\<close>

theorem kg_graph_integrity:
  assumes "kg_inv (kg_db k)" "kg_clock_ok (kg_world k)" "\<forall>p\<in>set ps. kg_op_ok p"
  shows "kg_inv (kg_db (fold (kg_exec publish c) ps k))"
proof -
  have "kg_state_ok (fold (kg_exec publish c) ps k)" if "kg_state_ok k" for k
    using that assms(3) by (induction ps arbitrary: k) (simp_all add: kg_exec_state)
  then show ?thesis using assms(1,2) by (simp add: kg_state_ok_def)
qed

lemma kg_graph_integrity_witness:
  "kg_inv (kg_db (fold (kg_exec (LocalBus_Publish SQL_Append) background)
     [RegisterNode (Some sat1), CreateRelationship None, DeleteNode ''sat-1''] demo_kg))"
  using demo_kg_ok(1,4) by (intro kg_graph_integrity) (simp_all add: kg_state_ok_def)

text \<open>Registering a well-formed node with a new id in a healthy system succeeds; the node is
  stamped and stored, exactly two events (\<open>NodeRegistered\<close>, then \<open>StateUpdated\<close> from the
  empty status) join the log, and the hook is called once with the stamped node.\<close>

theorem register_node_effects:
  fixes k :: "SQLiteEventStore LocalBus kg"
  assumes "sql_ready c k" "calm_kg (kg_db k)" "kg_state_ok k" "sql_log_wf (lb_store (kg_bus k))"
    "n_NodeID n0 \<noteq> []" "NodeType_Valid (n_NodeType n0)" "n_Name n0 \<noteq> []" "n_Status n0 \<noteq> []"
    "n_OwnerCommunityID n0 \<noteq> []" "is_ok (marshalProperties (n_Properties n0))"
    "node_view (kg_db k) (n_NodeID n0) = None"
  defines "n \<equiv> n0\<lparr>n_CreatedAt := now_of (kg_world k), n_UpdatedAt := now_of (kg_world k)\<rparr>"
  shows "\<exists>k'. KG_RegisterNode (LocalBus_Publish SQL_Append) c (Some n0) k = ((Some n, None), k') \<and>
    node_view (kg_db k') = (node_view (kg_db k))(n_NodeID n \<mapsto> stored_node n) \<and>
    (\<exists>w1 w2 e1 e2. event_at c w1 EventNodeRegistered (n_NodeID n) (NodeRegisteredPayload (n_NodeID n) (n_NodeType n)) = Inr e1 \<and>
       event_at c w2 EventStateUpdated (n_NodeID n) (StateUpdatedPayload (n_NodeID n) [] (n_Status n)) = Inr e2 \<and>
       sql_log (lb_store (kg_bus k')) = sql_log (lb_store (kg_bus k)) + {#stored_event e1, stored_event e2#}) \<and>
    kg_hooks k' = kg_hooks k @ (if kg_hookTrigger k then [HookRegistered n] else [])"
proof -
  obtain on k' where r: "KG_RegisterNode (LocalBus_Publish SQL_Append) c (Some n0) k = ((on, None), k')"
    using RegisterNode_succeeds [OF assms(1,2) _ assms(5-11)] assms(3) by (auto simp: kg_state_ok_def)
  have takes: "\<And>e. 0 \<le> e_Timestamp e \<Longrightarrow> e_Timestamp e < year_10000 \<Longrightarrow> storable_event e"
    by (simp add: storable_event_def)
  from sql_store.bus.RegisterNode_ok [OF assms(3,4) r takes] r show ?thesis unfolding n_def by blast
qed

lemma sat1_fields: "n_NodeID sat1 \<noteq> []" "NodeType_Valid (n_NodeType sat1)" "n_Name sat1 \<noteq> []" "n_Status sat1 \<noteq> []"
    "n_OwnerCommunityID sat1 \<noteq> []" "is_ok (marshalProperties (n_Properties sat1))"
  using storable_sat1(1) by (simp_all add: storable_node_def) (simp_all add: sat1_def NodeType_Valid_def)

lemma register_node_effects_witness:
  "\<exists>n k'. KG_RegisterNode (LocalBus_Publish SQL_Append) background (Some sat1) demo_kg = ((Some n, None), k') \<and>
    kg_hooks k' = [HookRegistered n]"
proof -
  have "node_view (kg_db demo_kg) (n_NodeID sat1) = None" by (simp add: demo_kg_ok)
  from register_node_effects [OF demo_kg_ok(2,3,1,5) sat1_fields this] show ?thesis
    by (auto simp: demo_kg_def NewKGService_def)
qed

text \<open>An update that returns a node has applied the recognised changes to the stored one,
  stamped and stored it (its creation time kept), and logged one \<open>NodeUpdated\<close> event, with a
  \<open>StateUpdated\<close> event exactly when the status changed.\<close>

theorem update_node_effects:
  fixes k :: "SQLiteEventStore LocalBus kg"
  assumes "kg_state_ok k" "sql_log_wf (lb_store (kg_bus k))"
    and "KG_UpdateNode (LocalBus_Publish SQL_Append) c nodeID changes k = (Inr n, k')"
  shows "\<exists>old. changes \<noteq> [] \<and> node_view (kg_db k) nodeID = Some old \<and>
    n = (applyChanges old changes)\<lparr>n_UpdatedAt := now_of (kg_world k)\<rparr> \<and>
    node_view (kg_db k') = (node_view (kg_db k))(nodeID \<mapsto> merged_node old n) \<and>
    (\<exists>w e es. event_at c w EventNodeUpdated nodeID (NodeUpdatedPayload nodeID (GMap changes)) = Inr e \<and>
       sql_log (lb_store (kg_bus k')) = sql_log (lb_store (kg_bus k)) + image_mset stored_event (mset (e # es)) \<and>
       (if n_Status n = n_Status old then es = []
        else \<exists>w e. es = [e] \<and>
          event_at c w EventStateUpdated nodeID (StateUpdatedPayload nodeID (n_Status old) (n_Status n)) = Inr e)) \<and>
    kg_hooks k' = kg_hooks k @ (if kg_hookTrigger k then [HookUpdated n changes] else [])"
  by (rule sql_store.bus.UpdateNode_ok [OF assms]) (simp add: storable_event_def)

definition stored_kg :: "SQLiteEventStore LocalBus kg" where
  "stored_kg = demo_kg\<lparr>kg_db := (kg_db demo_kg)\<lparr>nodes :=
     [node_row_of sat1 (JText (GMap [(''mass'', GFloat (Fin 7))]))]\<rparr>\<rparr>"

lemma stored_kg_ok: "kg_state_ok stored_kg" "sql_ready background stored_kg" "calm_db (kg_db stored_kg)"
    "sql_log_wf (lb_store (kg_bus stored_kg))" "node_view (kg_db stored_kg) ''sat-1'' = Some (stored_node sat1)"
    "lb_registry (kg_bus stored_kg) = NewSchemaRegistry" "kg_clock_ok (kg_world stored_kg)"
proof -
  have well: "well_db (kg_db stored_kg)"
    by (simp add: well_db_def stored_kg_def scans_def sat1_scan)
  have "rels (kg_db stored_kg) = []" "faults (kg_db stored_kg) = []"
    by (simp_all add: stored_kg_def demo_kg_def NewKGService_def)
  with well demo_kg_ok(1) show "kg_state_ok stored_kg" "calm_db (kg_db stored_kg)" "kg_clock_ok (kg_world stored_kg)"
    by (simp_all add: kg_state_ok_def kg_inv_def well_rels_def refs_ok_def scans_def calm_db_def)
      (simp_all add: stored_kg_def)
  show "sql_ready background stored_kg" "sql_log_wf (lb_store (kg_bus stored_kg))"
      "lb_registry (kg_bus stored_kg) = NewSchemaRegistry"
    using demo_kg_ok(2,5) by (simp_all add: stored_kg_def sql_ready_def)
  have "n_NodeID sat1 = ''sat-1''" by (simp add: sat1_def)
  then show "node_view (kg_db stored_kg) ''sat-1'' = Some (stored_node sat1)"
    by (simp add: node_view_def view_def row_of_def stored_kg_def scanned_def sat1_scan)
qed

lemma repo_update_ready:
  fixes old :: Node and changes :: gomap
  assumes "kg_state_ok k" "calm_db (kg_db k)" "ctx_err c = None" "node_view (kg_db k) nodeID = Some old"
    "node_times_ok old"
  defines "n \<equiv> (applyChanges old changes)\<lparr>n_UpdatedAt := now_of (kg_world k)\<rparr>"
  assumes "n_CreatedAt n = n_CreatedAt old" "is_ok (marshalProperties (n_Properties n))"
  obtains db1 where "NodeRepo_Get c nodeID (kg_db k) = (Inr old, kg_db k)"
    "NodeRepo_Update c (Some n) (kg_db k) = (None, db1)"
    "node_view db1 = (node_view (kg_db k))(nodeID \<mapsto> merged_node old n)"
proof -
  have well: "well_db (kg_db k)" and clock: "kg_clock_ok (kg_world k)"
    using assms(1) by (simp_all add: kg_state_ok_def kg_inv_def)
  have "storable_node n"
    using assms(5,7,8) kg_clock_now [OF clock] by (simp add: storable_node_def node_times_ok_def n_def)
  moreover have "n_NodeID n = nodeID"
    using node_view_Some [OF well assms(4)] scanNode_id unfolding n_def by fastforce
  ultimately obtain db1 where "NodeRepo_Update c (Some n) (kg_db k) = (None, db1)"
      "node_view db1 = (node_view (kg_db k))(nodeID \<mapsto> merged_node old n)"
    using NodeRepo_Update_found [OF assms(2,3), of n old] assms(4) by auto
  then show thesis using that NodeRepo_Get_found [OF assms(2-4)] by blast
qed

lemma stored_sat1_times: "node_times_ok (stored_node sat1)" "n_Status (stored_node sat1) \<noteq> []"
    "is_ok (marshalProperties (n_Properties (stored_node sat1)))"
proof -
  have "f64_of_int 7 = 7" using f64_of_int_exact [of 7] by simp
  then show "node_times_ok (stored_node sat1)" "n_Status (stored_node sat1) \<noteq> []"
      "is_ok (marshalProperties (n_Properties (stored_node sat1)))"
    using storable_sat1(1)
    by (auto simp: storable_node_def node_times_ok_def stored_node_def sat1_def stored_props_def props_norm_def
        marshalProperties_def)
qed

lemma update_node_effects_witness:
  "\<exists>n k'. KG_UpdateNode (LocalBus_Publish SQL_Append) background ''sat-1'' [(''name'', GStr ''two'')] stored_kg = (Inr n, k') \<and>
    n_Name n = ''two'' \<and> kg_hooks k' = [HookUpdated n [(''name'', GStr ''two'')]]"
proof -
  let ?ch = "[(''name'', GStr ''two'')]" and ?old = "stored_node sat1"
  let ?n = "(applyChanges ?old ?ch)\<lparr>n_UpdatedAt := now_of (kg_world stored_kg)\<rparr>"
  have live: "ctx_err background = None" by (simp add: background_def)
  have n: "applyChanges ?old ?ch = ?old\<lparr>n_Name := ''two''\<rparr>" by (simp add: applyChanges_def apply_change_def)
  obtain db1 where db1: "NodeRepo_Get background ''sat-1'' (kg_db stored_kg) = (Inr ?old, kg_db stored_kg)"
      "NodeRepo_Update background (Some ?n) (kg_db stored_kg) = (None, db1)"
    using repo_update_ready [OF stored_kg_ok(1,3) live stored_kg_ok(5) stored_sat1_times(1), of ?ch]
      stored_sat1_times(3) by (auto simp: n)
  let ?k = "(tick_kg stored_kg)\<lparr>kg_db := db1\<rparr>"
  let ?p = "NodeUpdatedPayload ''sat-1'' (GMap ?ch)"
  have "sql_ready background ?k" using stored_kg_ok(2) by (simp add: sql_ready_def)
  moreover have "payload_complete ?p" "is_ok (json_norm (payload_value ?p))"
    by (auto simp: payload_complete_def payload_value_def struct_value_def defaultPayloads_def isEmptyValue_def tag_eval)
  ultimately obtain k3 where "publishEvent (LocalBus_Publish SQL_Append) background EventNodeUpdated ''sat-1'' ?p ?k = (None, k3)"
    using publishEvent_ready [of background ?k ?p "''sat-1''"] by auto
  then have u: "KG_UpdateNode (LocalBus_Publish SQL_Append) background ''sat-1'' ?ch stored_kg =
      (Inr ?n, trigger (HookUpdated ?n ?ch) k3)"
    using db1 by (simp add: KG_UpdateNode_def Let_def n)
  have "kg_hookTrigger stored_kg" "kg_hooks stored_kg = []"
    by (simp_all add: stored_kg_def demo_kg_def NewKGService_def)
  moreover from update_node_effects [OF stored_kg_ok(1,4) u]
  have "kg_hooks (trigger (HookUpdated ?n ?ch) k3) =
      kg_hooks stored_kg @ (if kg_hookTrigger stored_kg then [HookUpdated ?n ?ch] else [])" by blast
  ultimately have "kg_hooks (trigger (HookUpdated ?n ?ch) k3) = [HookUpdated ?n ?ch]" by (simp only: if_True append_Nil)
  moreover have "n_Name ?n = ''two''" by (simp add: n)
  ultimately show ?thesis using u by blast
qed

text \<open>An update is not validated: emptying the status of a stored node writes the empty status
  (the node no longer satisfies \<open>Validate\<close>) and only then fails, because the registry refuses
  the \<open>StateUpdated\<close> event; the caller gets an error and the invalid node stays.\<close>

theorem update_persists_invalid_status:
  assumes "kg_state_ok k" "calm_db (kg_db k)" "ctx_err c = None" "lb_registry (kg_bus k) = NewSchemaRegistry"
    "node_view (kg_db k) nodeID = Some old" "node_times_ok old" "n_Status old \<noteq> []"
    "is_ok (marshalProperties (n_Properties old))"
  shows "\<exists>err k' n. KG_UpdateNode (LocalBus_Publish app) c nodeID [(''status'', GStr [])] k = (Inl err, k') \<and>
    node_view (kg_db k') nodeID = Some n \<and> n_Status n = [] \<and> Node_Validate n \<noteq> None"
proof -
  let ?ch = "[(''status'', GStr [])]"
  let ?n = "(applyChanges old ?ch)\<lparr>n_UpdatedAt := now_of (kg_world k)\<rparr>"
  have n: "applyChanges old ?ch = old\<lparr>n_Status := []\<rparr>" by (simp add: applyChanges_def apply_change_def)
  obtain db1 where db1: "NodeRepo_Get c nodeID (kg_db k) = (Inr old, kg_db k)"
      "NodeRepo_Update c (Some ?n) (kg_db k) = (None, db1)"
      "node_view db1 = (node_view (kg_db k))(nodeID \<mapsto> merged_node old ?n)"
    using repo_update_ready [OF assms(1,2,3,5,6), of ?ch] assms(8) by (auto simp: n)
  obtain err k3 where p: "publishEvent (LocalBus_Publish app) c EventStateUpdated nodeID
      (StateUpdatedPayload nodeID (n_Status old) []) ((tick_kg k)\<lparr>kg_db := db1\<rparr>) = (Some err, k3)" "kg_db k3 = db1"
    using publish_empty_status [of "(tick_kg k)\<lparr>kg_db := db1\<rparr>" app c nodeID "n_Status old"] assms(4) by auto
  have "KG_UpdateNode (LocalBus_Publish app) c nodeID ?ch k = (Inl (Wrap ''publish StateUpdated'' err), k3)"
    using db1(1,2) p(1) assms(7) by (simp add: KG_UpdateNode_def Let_def n)
  moreover have "node_view (kg_db k3) nodeID = Some (merged_node old ?n)" "n_Status (merged_node old ?n) = []"
    using db1(3) p(2) by (simp_all add: n merged_node_def stored_node_def)
  ultimately show ?thesis using Node_Validate_iff [of "merged_node old ?n"] by (auto simp: valid_node_def)
qed

lemma update_persists_invalid_status_witness:
  "\<exists>err k' n. KG_UpdateNode (LocalBus_Publish SQL_Append) background ''sat-1'' [(''status'', GStr [])] stored_kg =
      (Inl err, k') \<and> node_view (kg_db k') ''sat-1'' = Some n \<and> n_Status n = [] \<and> Node_Validate n \<noteq> None"
  by (rule update_persists_invalid_status [OF stored_kg_ok(1,3) _ stored_kg_ok(6,5) stored_sat1_times])
    (simp add: background_def)

text \<open>In transactional mode a deletion is all or nothing: either the node (which existed) and
  every relationship that touches it are gone and nothing else is, or both tables, the log
  and the hooks are as they were and an error is returned.\<close>

theorem delete_node_atomic:
  assumes "deleteNodeInTx publish c nodeID k = (v, k')"
  shows "(v \<noteq> None \<and> nodes (kg_db k') = nodes (kg_db k) \<and> rels (kg_db k') = rels (kg_db k) \<and>
      kg_bus k' = kg_bus k \<and> kg_hooks k' = kg_hooks k) \<or>
    (nodeID \<in> nr_node_id ` set (nodes (kg_db k)) \<and>
      nodes (kg_db k') = filter (\<lambda>r. nr_node_id r \<noteq> nodeID) (nodes (kg_db k)) \<and>
      rels (kg_db k') = filter (\<lambda>r. rr_from_node_id r \<noteq> nodeID \<and> rr_to_node_id r \<noteq> nodeID) (rels (kg_db k)))"
proof (cases "delete_in_tx c nodeID (kg_db k)")
  case (Pair v1 db)
  show ?thesis
  proof (cases v1)
    case None
    then have "kg_db k' = db"
      using assms Pair publishEvent_frame unfolding deleteNodeInTx_def
      by (fastforce split: option.splits prod.splits)
    then show ?thesis using delete_in_tx_ok [OF Pair [unfolded None]] by (simp add: sql_delete_def)
  next
    case (Some e)
    then show ?thesis
      using assms Pair delete_in_tx_err [OF Pair [unfolded Some]] by (auto simp: deleteNodeInTx_def)
  qed
qed

lemma delete_node_atomic_witness:
  "\<exists>v k'. deleteNodeInTx (LocalBus_Publish SQL_Append) background ''sat-1'' stored_kg = (v, k') \<and>
    nodes (kg_db k') = []"
proof -
  obtain v k' where d: "deleteNodeInTx (LocalBus_Publish SQL_Append) background ''sat-1'' stored_kg = (v, k')" by fastforce
  have id: "n_NodeID sat1 = ''sat-1''" by (simp add: sat1_def)
  obtain db where db: "delete_in_tx background ''sat-1'' (kg_db stored_kg) = (None, db)"
    by (simp add: delete_in_tx_def background_def stored_kg_def demo_kg_def NewKGService_def Let_def sql_count_def id)
  obtain v1 k1 where p: "publishEvent (LocalBus_Publish SQL_Append) background EventNodeDeleted ''sat-1''
      (NodeDeletedPayload ''sat-1'') (stored_kg\<lparr>kg_db := db\<rparr>) = (v1, k1)" by fastforce
  have "kg_db k' = db"
    using d db p publishEvent_frame [OF p] by (auto simp: deleteNodeInTx_def split: option.splits)
  then have "nodes (kg_db k') \<noteq> nodes (kg_db stored_kg)"
    using delete_in_tx_ok [OF db] by (auto simp: stored_kg_def sql_delete_def id)
  with delete_node_atomic [OF d] d show ?thesis by (auto simp: stored_kg_def id)
qed

end
