(* ===== verification/CommandQueue.thy ===== *)
theory CommandQueue
  imports GoJson Prelude
begin

text \<open>
  \<open>internal/pipeline/command/queue.go\<close>: the priority queue of commands, which is also the
  store of their states, and \<open>metrics.go\<close>, \<open>validator.go\<close>, \<open>mock_adapter.go\<close>. The code keeps a
  map from command ids to pointers; nothing but the queue's methods and the scheduler writes
  through them, and both do so under the id, so the map here holds the items themselves.
  The order in which a \<open>range\<close> visits the map is an argument.
\<close>

subsection \<open>Commands\<close>

record Command =
  cmd_CommandID :: string
  cmd_SatelliteID :: string
  cmd_CommandType :: string
  cmd_Parameters :: "gomap option"

record Ack =
  ack_Success :: bool
  ack_Message :: string

abbreviation "StatusQueued \<equiv> ''queued''"
abbreviation "StatusSending \<equiv> ''sending''"
abbreviation "StatusAcked \<equiv> ''acked''"
abbreviation "StatusFailed \<equiv> ''failed''"
abbreviation "StatusCancelled \<equiv> ''cancelled''"
abbreviation "StatusTimeout \<equiv> ''timeout''"

record CommandItem =
  ci_Command :: Command
  ci_Priority :: int
  ci_Status :: string
  ci_Ack :: "Ack option"
  ci_EnqueuedAt :: time
  ci_SentAt :: "time option"
  ci_AckedAt :: "time option"
  ci_RetryCount :: int
  ci_Error :: string

type_synonym PriorityQueue = "string \<rightharpoonup> CommandItem"

definition NewPriorityQueue :: PriorityQueue where
  "NewPriorityQueue = Map.empty"

abbreviation item_id :: "CommandItem \<Rightarrow> string" where
  "item_id i \<equiv> cmd_CommandID (ci_Command i)"

subsection \<open>Operations\<close>

definition Enqueue :: "time \<Rightarrow> CommandItem option \<Rightarrow> PriorityQueue \<Rightarrow> verdict \<times> PriorityQueue" where
  "Enqueue now item q =
     (case item of
        None \<Rightarrow> (Some (Errorf ''item is nil''), q)
      | Some i \<Rightarrow>
        (if item_id i = [] then (Some (Errorf ''commandId is empty''), q)
         else if q (item_id i) \<noteq> None then (Some (Errorf (''command exists: '' @ item_id i)), q)
         else
           (let i1 = (if ci_Status i = [] then i\<lparr>ci_Status := StatusQueued\<rparr> else i);
                i2 = (if IsZero (ci_EnqueuedAt i1) then i1\<lparr>ci_EnqueuedAt := now\<rparr> else i1)
            in (None, q(item_id i \<mapsto> i2)))))"

text \<open>The scan for the best queued item: a later one wins only when it is strictly better.\<close>

definition better :: "CommandItem \<Rightarrow> CommandItem \<Rightarrow> bool" where
  "better i best \<longleftrightarrow> ci_Priority best < ci_Priority i \<or>
     (ci_Priority i = ci_Priority best \<and> ci_EnqueuedAt i < ci_EnqueuedAt best)"

fun scan_best :: "CommandItem list \<Rightarrow> CommandItem option \<Rightarrow> CommandItem option" where
  "scan_best [] best = best"
| "scan_best (i # is) best =
     (if ci_Status i \<noteq> StatusQueued then scan_best is best
      else case best of
             None \<Rightarrow> scan_best is (Some i)
           | Some b \<Rightarrow> if better i b then scan_best is (Some i) else scan_best is (Some b))"

definition queue_items :: "string list \<Rightarrow> PriorityQueue \<Rightarrow> CommandItem list" where
  "queue_items ks q = map (\<lambda>k. the (q k)) ks"

definition Dequeue :: "string list \<Rightarrow> time \<Rightarrow> PriorityQueue \<Rightarrow> CommandItem option \<times> PriorityQueue" where
  "Dequeue ks now q =
     (case scan_best (queue_items ks q) None of
        None \<Rightarrow> (None, q)
      | Some b \<Rightarrow>
        (let b1 = b\<lparr>ci_Status := StatusSending, ci_SentAt := Some now\<rparr>
         in (Some b1, q(item_id b \<mapsto> b1))))"

definition Queue_Get :: "string \<Rightarrow> PriorityQueue \<Rightarrow> CommandItem option" where
  "Queue_Get k q = q k"

definition Queue_Update :: "CommandItem \<Rightarrow> PriorityQueue \<Rightarrow> PriorityQueue" where
  "Queue_Update i q = (if q (item_id i) \<noteq> None then q(item_id i \<mapsto> i) else q)"

definition Queue_Remove :: "string \<Rightarrow> PriorityQueue \<Rightarrow> PriorityQueue" where
  "Queue_Remove k q = q(k := None)"

definition Queue_Len :: "string list \<Rightarrow> nat" where
  "Queue_Len ks = length ks"

definition Queue_List :: "(CommandItem list \<Rightarrow> CommandItem list) \<Rightarrow> string list \<Rightarrow> PriorityQueue \<Rightarrow> CommandItem list" where
  "Queue_List srt ks q = srt (queue_items ks q)"

definition ListByStatus :: "(CommandItem list \<Rightarrow> CommandItem list) \<Rightarrow> string \<Rightarrow> string list \<Rightarrow> PriorityQueue \<Rightarrow>
    CommandItem list" where
  "ListByStatus srt status ks q = srt (filter (\<lambda>i. ci_Status i = status) (queue_items ks q))"

definition PendingCount :: "string list \<Rightarrow> PriorityQueue \<Rightarrow> nat" where
  "PendingCount ks q = length (filter (\<lambda>i. ci_Status i = StatusQueued) (queue_items ks q))"

subsection \<open>Metrics (\<open>metrics.go\<close>)\<close>

text \<open>Counters; their width is out of reach of a run.\<close>

record Metrics =
  m_TotalSent :: int
  m_TotalAcked :: int
  m_TotalFailed :: int
  m_TotalTimeout :: int
  m_SendLatency :: int
  m_SuccessRate :: int

definition new_metrics :: Metrics where
  "new_metrics = \<lparr>m_TotalSent = 0, m_TotalAcked = 0, m_TotalFailed = 0, m_TotalTimeout = 0,
     m_SendLatency = 0, m_SuccessRate = 0\<rparr>"

definition RecordAck :: "bool \<Rightarrow> Metrics \<Rightarrow> Metrics" where
  "RecordAck success m =
     (if \<not> success then m
      else
        (let m1 = m\<lparr>m_TotalAcked := m_TotalAcked m + 1\<rparr>
         in if 0 < m_TotalSent m1 then m1\<lparr>m_SuccessRate := m_TotalAcked m1 * 10000 div m_TotalSent m1\<rparr> else m1))"

definition RecordLatency :: "int \<Rightarrow> Metrics \<Rightarrow> Metrics" where
  "RecordLatency us m = m\<lparr>m_SendLatency := us\<rparr>"

definition Metrics_Snapshot :: "Metrics \<Rightarrow> Metrics" where
  "Metrics_Snapshot m =
     \<lparr>m_TotalSent = m_TotalSent m, m_TotalAcked = m_TotalAcked m, m_TotalFailed = m_TotalFailed m,
      m_TotalTimeout = m_TotalTimeout m, m_SendLatency = m_SendLatency m, m_SuccessRate = m_SuccessRate m\<rparr>"

subsection \<open>Validation (\<open>validator.go\<close>)\<close>

definition Command_Validate :: "Command option \<Rightarrow> verdict" where
  "Command_Validate cmd =
     (case cmd of
        None \<Rightarrow> Some (Errorf ''command is nil'')
      | Some c \<Rightarrow>
        (if cmd_CommandID c = [] then Some (Errorf ''commandId is empty'')
         else if cmd_SatelliteID c = [] then Some (Errorf ''satelliteId is empty'')
         else if cmd_CommandType c = [] then Some (Errorf ''commandType is empty'')
         else None))"

lemma Command_Validate_iff:
  "Command_Validate (Some c) = None \<longleftrightarrow> cmd_CommandID c \<noteq> [] \<and> cmd_SatelliteID c \<noteq> [] \<and> cmd_CommandType c \<noteq> []"
  by (auto simp: Command_Validate_def)

subsection \<open>The mock adapter (\<open>mock_adapter.go\<close>)\<close>

text \<open>The rate and the random draw as the code compares them; the draw is a parameter.\<close>

record MockAdapter =
  ma_delay :: duration
  ma_successRate :: rat

definition NewMockAdapter :: "duration \<Rightarrow> rat \<Rightarrow> MockAdapter" where
  "NewMockAdapter delay rate =
     \<lparr>ma_delay = (if delay \<le> 0 then 100 * millisecond else delay), ma_successRate = (if rate < 0 then 1 else rate)\<rparr>"

definition Mock_Send :: "MockAdapter \<Rightarrow> rat \<Rightarrow> Command \<Rightarrow> Ack res" where
  "Mock_Send a draw cmd =
     (if 1 \<le> ma_successRate a \<or> draw < ma_successRate a
      then Inr \<lparr>ack_Success = True, ack_Message = ''mock adapter sent''\<rparr>
      else Inr \<lparr>ack_Success = False, ack_Message = ''mock adapter failed (simulated)''\<rparr>)"

definition Mock_SetDelay :: "duration \<Rightarrow> MockAdapter \<Rightarrow> MockAdapter" where
  "Mock_SetDelay d a = a\<lparr>ma_delay := d\<rparr>"

definition Mock_SetSuccessRate :: "rat \<Rightarrow> MockAdapter \<Rightarrow> MockAdapter" where
  "Mock_SetSuccessRate r a = a\<lparr>ma_successRate := r\<rparr>"

subsection \<open>The queue is well formed\<close>

text \<open>Each item is stored under its own, non-empty id.\<close>

definition queue_ok :: "PriorityQueue \<Rightarrow> bool" where
  "queue_ok q \<longleftrightarrow> (\<forall>k i. q k = Some i \<longrightarrow> item_id i = k \<and> k \<noteq> [])"

lemma queue_okD: "queue_ok q \<Longrightarrow> q k = Some i \<Longrightarrow> item_id i = k"
  by (simp add: queue_ok_def)

lemma queue_ok_empty [simp]: "queue_ok NewPriorityQueue"
  by (simp add: queue_ok_def NewPriorityQueue_def)

lemma Enqueue_ok [preserves]: "queue_ok q \<Longrightarrow> queue_ok (snd (Enqueue now item q))"
  by (auto simp: Enqueue_def queue_ok_def Let_def split: option.splits)

lemma queue_ok_upd: "queue_ok q \<Longrightarrow> item_id i = k \<Longrightarrow> k \<noteq> [] \<Longrightarrow> queue_ok (q(k \<mapsto> i))"
  by (simp add: queue_ok_def)

lemma Queue_Update_ok [preserves]: "queue_ok q \<Longrightarrow> queue_ok (Queue_Update i q)"
  by (auto simp: Queue_Update_def queue_ok_def)

lemma Queue_Remove_ok [preserves]: "queue_ok q \<Longrightarrow> queue_ok (Queue_Remove k q)"
  by (simp add: Queue_Remove_def queue_ok_def)

lemma queue_items_set: "enumerates ks q \<Longrightarrow> set (queue_items ks q) = ran q"
  by (force simp: queue_items_def enumerates_def ran_def)

text \<open>The order of the queue as a key: higher priority first, then earlier entry. The scan returns
  a queued item with the least key.\<close>

definition rank :: "CommandItem \<Rightarrow> int \<times> time" where
  "rank i = (- ci_Priority i, ci_EnqueuedAt i)"

lemma better_rank: "better i b \<longleftrightarrow> rank i < rank b"
  by (auto simp: better_def rank_def less_prod_def)

lemma scan_best_Some:
  "scan_best is best = Some b \<Longrightarrow>
   (b \<in> set is \<and> ci_Status b = StatusQueued \<or> best = Some b) \<and>
   (\<forall>i\<in>set is. ci_Status i = StatusQueued \<longrightarrow> rank b \<le> rank i) \<and> (\<forall>b0. best = Some b0 \<longrightarrow> rank b \<le> rank b0)"
proof (induction "is" arbitrary: best)
  case (Cons i "is")
  show ?case
  proof (cases "ci_Status i = StatusQueued")
    case True
    show ?thesis
    proof (cases best)
      case None
      then have "scan_best is (Some i) = Some b" using Cons.prems True by simp
      from Cons.IH [OF this] show ?thesis using None True by auto
    next
      case (Some b0)
      then have "scan_best is (Some (if better i b0 then i else b0)) = Some b"
        using Cons.prems True by (simp split: if_splits)
      from Cons.IH [OF this] show ?thesis
        using Some True by (auto simp: better_rank split: if_splits)
    qed
  next
    case False
    then have "scan_best is best = Some b" using Cons.prems by simp
    from Cons.IH [OF this] show ?thesis using False by auto
  qed
qed simp

lemma scan_best_None:
  "scan_best is best = None \<longleftrightarrow> best = None \<and> (\<forall>i\<in>set is. ci_Status i \<noteq> StatusQueued)"
  by (induction "is" best rule: scan_best.induct) (auto split: option.splits)

lemma Dequeue_Some:
  assumes "queue_ok q" "enumerates ks q" "Dequeue ks now q = (Some i, q')"
  shows "\<exists>k b. q k = Some b \<and> ci_Status b = StatusQueued \<and>
    i = b\<lparr>ci_Status := StatusSending, ci_SentAt := Some now\<rparr> \<and> q' = q(k \<mapsto> i) \<and> item_id b = k \<and>
    (\<forall>j c. q j = Some c \<longrightarrow> ci_Status c = StatusQueued \<longrightarrow> rank b \<le> rank c)"
proof -
  obtain b where b: "scan_best (queue_items ks q) None = Some b"
      "i = b\<lparr>ci_Status := StatusSending, ci_SentAt := Some now\<rparr>" "q' = q(item_id b \<mapsto> i)"
    using assms(3) by (auto simp: Dequeue_def Let_def split: option.splits)
  from scan_best_Some [OF b(1)] have s: "b \<in> ran q" "ci_Status b = StatusQueued"
      "\<forall>c\<in>ran q. ci_Status c = StatusQueued \<longrightarrow> rank b \<le> rank c"
    using queue_items_set [OF assms(2)] by auto
  then obtain k where k: "q k = Some b" by (auto simp: ran_def)
  then have "item_id b = k" using queue_okD [OF assms(1)] by blast
  then show ?thesis using k b s ranI by metis
qed

lemma Dequeue_None:
  assumes "enumerates ks q"
  shows "Dequeue ks now q = (None, q') \<longleftrightarrow>
    q' = q \<and> (\<forall>k i. q k = Some i \<longrightarrow> ci_Status i \<noteq> StatusQueued)"
  using queue_items_set [OF assms] scan_best_None [of "queue_items ks q" None]
  by (auto simp: Dequeue_def Let_def ran_def split: option.splits)

text \<open>Several calls of \<open>Dequeue\<close> in a row.\<close>

fun dequeue_n :: "nat \<Rightarrow> string list \<Rightarrow> time \<Rightarrow> PriorityQueue \<Rightarrow> CommandItem list \<times> PriorityQueue" where
  "dequeue_n 0 ks now q = ([], q)"
| "dequeue_n (Suc n) ks now q =
     (case Dequeue ks now q of
        (None, q1) \<Rightarrow> ([], q1)
      | (Some i, q1) \<Rightarrow> (let (is, q2) = dequeue_n n ks now q1 in (i # is, q2)))"

definition queued_ids :: "PriorityQueue \<Rightarrow> string set" where
  "queued_ids q = {k. \<exists>i. q k = Some i \<and> ci_Status i = StatusQueued}"

lemma rank_sending [simp]: "rank (b\<lparr>ci_Status := s, ci_SentAt := t\<rparr>) = rank b"
  by (simp add: rank_def)

lemma dequeue_n_drains:
  assumes "enumerates ks q" "queue_ok q" "card (queued_ids q) = n"
  shows "\<exists>is q'. dequeue_n n ks now q = (is, q') \<and> length is = n \<and> sorted (map rank is) \<and>
    set (map item_id is) = queued_ids q \<and> queued_ids q' = {} \<and>
    (\<forall>i\<in>set is. \<exists>k b. q k = Some b \<and> ci_Status b = StatusQueued \<and> rank i = rank b)"
  using assms
proof (induction n arbitrary: q)
  case 0
  have "finite (queued_ids q)"
    by (rule finite_subset [OF _ enumerates_finite [OF 0(1)]]) (auto simp: queued_ids_def)
  then show ?case using 0 by simp
next
  case (Suc n)
  have fin: "finite (queued_ids q)"
    by (rule finite_subset [OF _ enumerates_finite [OF Suc.prems(1)]]) (auto simp: queued_ids_def)
  obtain o1 q1 where d: "Dequeue ks now q = (o1, q1)" by fastforce
  have "queued_ids q \<noteq> {}" using Suc.prems(3) by auto
  then obtain i where o1: "o1 = Some i"
    using d Dequeue_None [OF Suc.prems(1)] by (cases o1) (auto simp: queued_ids_def)
  from Dequeue_Some [OF Suc.prems(2,1), of now i q1] d o1 obtain k b where b: "q k = Some b"
      "ci_Status b = StatusQueued" "i = b\<lparr>ci_Status := StatusSending, ci_SentAt := Some now\<rparr>"
      "q1 = q(k \<mapsto> i)" "item_id b = k"
      "\<forall>j c. q j = Some c \<longrightarrow> ci_Status c = StatusQueued \<longrightarrow> rank b \<le> rank c" by blast
  have ids: "queued_ids q1 = queued_ids q - {k}" "k \<in> queued_ids q"
    using b(1-4) by (auto simp: queued_ids_def)
  then have "card (queued_ids q1) = n" using Suc.prems(3) fin by simp
  moreover have "enumerates ks q1" using Suc.prems(1) b by (auto simp: enumerates_def)
  moreover have "queue_ok q1" using Suc.prems(2) b by (auto simp: queue_ok_def)
  ultimately obtain js q' where js: "dequeue_n n ks now q1 = (js, q')" "length js = n" "sorted (map rank js)"
      "set (map item_id js) = queued_ids q1" "queued_ids q' = {}"
      "\<forall>i\<in>set js. \<exists>k b. q1 k = Some b \<and> ci_Status b = StatusQueued \<and> rank i = rank b"
    using Suc.IH by blast
  have old: "\<exists>k b. q k = Some b \<and> ci_Status b = StatusQueued \<and> rank j = rank b" if "j \<in> set js" for j
    using js(6) that b(3,4) by (fastforce split: if_splits)
  have r: "rank i = rank b" using b(3) by simp
  have "rank i \<le> rank j" if "j \<in> set js" for j
  proof -
    from old [OF that] obtain k' c where "q k' = Some c" "ci_Status c = StatusQueued" "rank c = rank j"
      by auto
    with b(6) r show ?thesis by metis
  qed
  then have sorted: "sorted (map rank (i # js))" using js(3) by simp
  have "item_id i = k" using b(3,5) by simp
  then have members: "set (map item_id (i # js)) = queued_ids q"
    using js(4) ids by (simp add: insert_absorb)
  have olds: "\<forall>j\<in>set (i # js). \<exists>k b. q k = Some b \<and> ci_Status b = StatusQueued \<and> rank j = rank b"
    using old b(1,2) r by (metis set_ConsD)
  have "dequeue_n (Suc n) ks now q = (i # js, q')" using d o1 js(1) by simp
  moreover have "length (i # js) = Suc n" using js(2) by simp
  ultimately show ?case using sorted members olds js(5) by (intro exI conjI)
qed

subsection \<open>Properties\<close>

definition cmd_item :: "string \<Rightarrow> int \<Rightarrow> time \<Rightarrow> CommandItem" where
  "cmd_item k p t = \<lparr>ci_Command = \<lparr>cmd_CommandID = k, cmd_SatelliteID = ''sat'', cmd_CommandType = ''point'',
       cmd_Parameters = None\<rparr>, ci_Priority = p, ci_Status = [], ci_Ack = None, ci_EnqueuedAt = t,
     ci_SentAt = None, ci_AckedAt = None, ci_RetryCount = 0, ci_Error = []\<rparr>"

text \<open>C23: Taking from the queue until nothing is pending hands out every queued command exactly
  once, by descending priority and, within a priority, in the order of entry, whatever the
  order in which the map is visited.\<close>

theorem dequeue_by_priority:
  assumes "enumerates ks q" "queue_ok q"
  shows "\<exists>is q'. dequeue_n (card (queued_ids q)) ks now q = (is, q') \<and>
    length is = card (queued_ids q) \<and> sorted (map rank is) \<and> set (map item_id is) = queued_ids q \<and>
    queued_ids q' = {}"
  using dequeue_n_drains [OF assms refl] by blast

definition two_queue :: PriorityQueue where
  "two_queue = [''a'' \<mapsto> (cmd_item ''a'' 1 5)\<lparr>ci_Status := StatusQueued\<rparr>,
     ''b'' \<mapsto> (cmd_item ''b'' 2 7)\<lparr>ci_Status := StatusQueued\<rparr>]"

lemma two_queue_facts: "enumerates [''b'', ''a''] two_queue" "queue_ok two_queue" "queued_ids two_queue = {''a'', ''b''}"
proof -
  show "enumerates [''b'', ''a''] two_queue" by (simp add: enumerates_def two_queue_def insert_commute)
  show "queue_ok two_queue" by (simp add: queue_ok_def two_queue_def cmd_item_def)
  have "two_queue k = (if k = ''b'' then Some ((cmd_item ''b'' 2 7)\<lparr>ci_Status := StatusQueued\<rparr>)
      else if k = ''a'' then Some ((cmd_item ''a'' 1 5)\<lparr>ci_Status := StatusQueued\<rparr>) else None)" for k
    by (simp add: two_queue_def)
  then show "queued_ids two_queue = {''a'', ''b''}"
    unfolding queued_ids_def by (simp cong: conj_cong) blast
qed

lemma dequeue_by_priority_witness:
  "\<exists>is q'. dequeue_n 2 [''b'', ''a''] 9 two_queue = (is, q') \<and> length is = 2 \<and> sorted (map rank is) \<and>
    set (map item_id is) = {''a'', ''b''} \<and> queued_ids q' = {}"
proof -
  have "card (queued_ids two_queue) = 2" by (simp add: two_queue_facts(3))
  with dequeue_by_priority [OF two_queue_facts(1,2), of 9] two_queue_facts(3) show ?thesis by metis
qed

end
