(* ===== verification/CommandScheduler.thy ===== *)
theory CommandScheduler
  imports CommandQueue LocalBus "HOL-Library.Word"
begin

text \<open>
  \<open>internal/pipeline/command/scheduler.go\<close> and \<open>pipeline.go\<close>: the state shared by the pipeline's
  callers, the dispatch loop and the sending goroutines, and each of their operations, cut where
  they block or touch that state. \<open>CommandPipeline\<close> runs them in any interleaving.
\<close>

subsection \<open>Configuration\<close>

record SchedulerConfig =
  cfg_MaxConcurrent :: int
  cfg_Timeout :: duration
  cfg_MaxRetries :: int
  cfg_RetryBackoff :: duration

definition withDefaults :: "SchedulerConfig \<Rightarrow> SchedulerConfig" where
  "withDefaults c =
     \<lparr>cfg_MaxConcurrent = (if cfg_MaxConcurrent c \<le> 0 then 10 else cfg_MaxConcurrent c),
      cfg_Timeout = (if cfg_Timeout c \<le> 0 then 30 * second else cfg_Timeout c),
      cfg_MaxRetries = (if cfg_MaxRetries c \<le> 0 then 3 else cfg_MaxRetries c),
      cfg_RetryBackoff = (if cfg_RetryBackoff c \<le> 0 then 2 * second else cfg_RetryBackoff c)\<rparr>"

lemma withDefaults_pos [simp]:
  "0 < cfg_MaxConcurrent (withDefaults c)" "0 < cfg_Timeout (withDefaults c)"
  "0 < cfg_MaxRetries (withDefaults c)" "0 < cfg_RetryBackoff (withDefaults c)"
  by (simp_all add: withDefaults_def)

lemma withDefaults_idem [simp]: "withDefaults (withDefaults c) = withDefaults c"
  by (simp add: withDefaults_def)

text \<open>The wait before the next attempt is a 64-bit product.\<close>

definition retry_backoff :: "duration \<Rightarrow> nat \<Rightarrow> duration" where
  "retry_backoff base n = sint (word_of_int base * push_bit (n - 1) (1 :: 64 word))"

subsection \<open>State\<close>

text \<open>
  Where a sending goroutine stands: before it publishes \<open>CommandSent\<close>; waiting for the adapter or
  the timeout; waiting out the backoff; between marking the command acked and publishing that.
\<close>

datatype worker_pc = Starting | Awaiting | Backing | Acking Ack

text \<open>Where the dispatch loop stands: not started, at its head, waiting for a token, holding one,
  waiting 50ms for work, returned.\<close>

datatype loop_pc = NotStarted | Top | Acquiring | Holding | Idle | Returned

text \<open>
  The pipeline and its scheduler. Adapters are known by name; \<open>cp_manager\<close> holds those the
  plugin manager lists. \<open>cp_cancels\<close> are the callers of \<open>Cancel\<close> past the status check.
  \<open>cp_sem\<close> counts the tokens taken from the semaphore.
\<close>

record 'b Pipeline =
  cp_queue :: PriorityQueue
  cp_adapter :: "string option"
  cp_adapterName :: string
  cp_manager :: "string list option"
  cp_bus :: 'b
  cp_world :: world
  cp_metrics :: Metrics
  cp_validator :: bool
  cp_config :: SchedulerConfig
  cp_sched :: SchedulerConfig
  cp_loop :: loop_pc
  cp_sem :: nat
  cp_workers :: "(string \<times> worker_pc) list"
  cp_stopCh :: bool
  cp_stopOnce :: bool
  cp_cancels :: "string list"

definition zero_config :: SchedulerConfig where
  "zero_config = \<lparr>cfg_MaxConcurrent = 0, cfg_Timeout = 0, cfg_MaxRetries = 0, cfg_RetryBackoff = 0\<rparr>"

definition NewPipeline :: "string list option \<Rightarrow> 'b \<Rightarrow> world \<Rightarrow> 'b Pipeline" where
  "NewPipeline mgr bus w =
     \<lparr>cp_queue = NewPriorityQueue, cp_adapter = None, cp_adapterName = [], cp_manager = mgr, cp_bus = bus,
      cp_world = w, cp_metrics = new_metrics, cp_validator = True, cp_config = withDefaults zero_config,
      cp_sched = withDefaults zero_config, cp_loop = NotStarted, cp_sem = 0, cp_workers = [],
      cp_stopCh = False, cp_stopOnce = False, cp_cancels = []\<rparr>"

definition tick_cp :: "'b Pipeline \<Rightarrow> 'b Pipeline" where
  "tick_cp p = p\<lparr>cp_world := tick (cp_world p)\<rparr>"

subsection \<open>The callers' operations (\<open>pipeline.go\<close>)\<close>

text \<open>\<open>NewScheduler\<close> and \<open>Start\<close>.\<close>

definition Pipeline_Start :: "'b Pipeline \<Rightarrow> 'b Pipeline" where
  "Pipeline_Start p =
     (if cp_loop p \<noteq> NotStarted then p else p\<lparr>cp_sched := withDefaults (cp_config p), cp_loop := Top\<rparr>)"

text \<open>\<open>Stop\<close> up to the point where it waits for the goroutines; without a scheduler nothing is
  signalled.\<close>

definition Pipeline_Stop :: "'b Pipeline \<Rightarrow> 'b Pipeline" where
  "Pipeline_Stop p =
     (if cp_stopOnce p then p
      else if cp_loop p = NotStarted then p\<lparr>cp_stopOnce := True\<rparr>
      else p\<lparr>cp_stopOnce := True, cp_stopCh := True\<rparr>)"

definition SetAdapter :: "string \<Rightarrow> 'b Pipeline \<Rightarrow> verdict \<times> 'b Pipeline" where
  "SetAdapter name p =
     (case cp_manager p of
        None \<Rightarrow> (Some (Errorf ''plugin manager is not initialised''), p)
      | Some adapters \<Rightarrow>
        (if name \<notin> set adapters then (Some (Errorf (''no command adapter named '' @ name)), p)
         else (None, p\<lparr>cp_adapter := Some name, cp_adapterName := name\<rparr>)))"

definition SetValidator :: "bool \<Rightarrow> 'b Pipeline \<Rightarrow> 'b Pipeline" where
  "SetValidator v p = p\<lparr>cp_validator := v\<rparr>"

definition SetSchedulerConfig :: "SchedulerConfig \<Rightarrow> 'b Pipeline \<Rightarrow> 'b Pipeline" where
  "SetSchedulerConfig c p = p\<lparr>cp_config := withDefaults c\<rparr>"

definition GetAdapterName :: "'b Pipeline \<Rightarrow> string" where
  "GetAdapterName p = cp_adapterName p"

definition Pipeline_ListAdapters :: "'b Pipeline \<Rightarrow> string list" where
  "Pipeline_ListAdapters p = (case cp_manager p of None \<Rightarrow> [] | Some adapters \<Rightarrow> adapters)"

definition Pipeline_Send :: "Command \<Rightarrow> int \<Rightarrow> 'b Pipeline \<Rightarrow> verdict \<times> 'b Pipeline" where
  "Pipeline_Send cmd0 priority p0 =
     (let cmd = (if cmd_CommandID cmd0 = [] then cmd0\<lparr>cmd_CommandID := uuid_of (cp_world p0)\<rparr> else cmd0);
          p = tick_cp p0
      in case (if cp_validator p then Command_Validate (Some cmd) else None) of
           Some err \<Rightarrow> (Some (Wrap ''command validation failed'' err), p)
         | None \<Rightarrow>
           (let item = \<lparr>ci_Command = cmd, ci_Priority = priority, ci_Status = StatusQueued, ci_Ack = None,
                  ci_EnqueuedAt = now_of (cp_world p), ci_SentAt = None, ci_AckedAt = None,
                  ci_RetryCount = 0, ci_Error = []\<rparr>;
                p1 = tick_cp p
            in case Enqueue (now_of (cp_world p1)) (Some item) (cp_queue p1) of
                 (Some err, q) \<Rightarrow> (Some (Wrap ''enqueue failed'' err), p1)
               | (None, q) \<Rightarrow> (None, p1\<lparr>cp_queue := q\<rparr>)))"

text \<open>What a status query answers.\<close>

record CommandStatus =
  cs_CommandID :: string
  cs_SatelliteID :: string
  cs_CommandType :: string
  cs_Parameters :: "gomap option"
  cs_Priority :: int
  cs_Status :: string
  cs_EnqueuedAt :: time
  cs_SentAt :: "time option"
  cs_AckedAt :: "time option"
  cs_RetryCount :: int
  cs_Error :: string
  cs_Ack :: "Ack option"

definition itemToStatus :: "CommandItem \<Rightarrow> CommandStatus" where
  "itemToStatus i =
     \<lparr>cs_CommandID = cmd_CommandID (ci_Command i), cs_SatelliteID = cmd_SatelliteID (ci_Command i),
      cs_CommandType = cmd_CommandType (ci_Command i), cs_Parameters = cmd_Parameters (ci_Command i),
      cs_Priority = ci_Priority i, cs_Status = ci_Status i, cs_EnqueuedAt = ci_EnqueuedAt i,
      cs_SentAt = ci_SentAt i, cs_AckedAt = ci_AckedAt i, cs_RetryCount = ci_RetryCount i,
      cs_Error = ci_Error i, cs_Ack = ci_Ack i\<rparr>"

definition GetStatus :: "string \<Rightarrow> 'b Pipeline \<Rightarrow> CommandStatus res" where
  "GetStatus k p =
     (case Queue_Get k (cp_queue p) of
        None \<Rightarrow> Inl (Errorf (''no such command: '' @ k)) | Some i \<Rightarrow> Inr (itemToStatus i))"

definition ListCommands :: "(CommandItem list \<Rightarrow> CommandItem list) \<Rightarrow> string list \<Rightarrow> string \<Rightarrow> 'b Pipeline \<Rightarrow>
    CommandStatus list" where
  "ListCommands srt ks status p =
     map itemToStatus
       (if status \<noteq> [] then ListByStatus srt status ks (cp_queue p) else Queue_List srt ks (cp_queue p))"

text \<open>\<open>Cancel\<close>: the check of the status, and the write through the item's pointer.\<close>

definition upd_item :: "string \<Rightarrow> (CommandItem \<Rightarrow> CommandItem) \<Rightarrow> PriorityQueue \<Rightarrow> PriorityQueue" where
  "upd_item k f q = (case q k of None \<Rightarrow> q | Some i \<Rightarrow> q(k \<mapsto> f i))"

definition cancel_check :: "string \<Rightarrow> 'b Pipeline \<Rightarrow> verdict" where
  "cancel_check k p =
     (case Queue_Get k (cp_queue p) of
        None \<Rightarrow> Some (Errorf (''no such command: '' @ k))
      | Some i \<Rightarrow>
        (if ci_Status i \<noteq> StatusQueued then Some (Errorf (''cannot cancel: '' @ k @ '' is '' @ ci_Status i))
         else None))"

definition cancel_write :: "string \<Rightarrow> 'b Pipeline \<Rightarrow> 'b Pipeline" where
  "cancel_write k p = p\<lparr>cp_queue := upd_item k (\<lambda>i. i\<lparr>ci_Status := StatusCancelled\<rparr>) (cp_queue p)\<rparr>"

definition Pipeline_Cancel :: "string \<Rightarrow> 'b Pipeline \<Rightarrow> verdict \<times> 'b Pipeline" where
  "Pipeline_Cancel k p = (case cancel_check k p of Some err \<Rightarrow> (Some err, p) | None \<Rightarrow> (None, cancel_write k p))"

subsection \<open>Sending one command (\<open>scheduler.go\<close>)\<close>

text \<open>The two events; their publication is tried, a failure is only logged.\<close>

type_synonym 'b cmd_publisher = "ctx \<Rightarrow> world \<Rightarrow> Event option \<Rightarrow> 'b \<Rightarrow> verdict \<times> 'b"

definition command_event :: "world \<Rightarrow> EventType \<Rightarrow> Command \<Rightarrow> Event" where
  "command_event w etype cmd =
     \<lparr>e_EventID = uuid_of w, e_EventType = etype, e_Timestamp = now_of (tick w),
      e_SourceNodeID = cmd_SatelliteID cmd, e_TraceID = [], e_Payload = None\<rparr>"

definition publish_payload :: "'b cmd_publisher \<Rightarrow> ctx \<Rightarrow> EventType \<Rightarrow> Command \<Rightarrow> payload \<Rightarrow> 'b Pipeline \<Rightarrow>
    verdict \<times> 'b Pipeline" where
  "publish_payload publish c etype cmd pl p =
     (let e = command_event (cp_world p) etype cmd;
          p1 = tick_cp (tick_cp p)
      in case SetPayload e (payload_value pl) of
           Inl err \<Rightarrow> (Some (Wrap ''set payload failed'' err), p1)
         | Inr e1 \<Rightarrow>
           (case publish c (cp_world p1) (Some e1) (cp_bus p1) of
              (v, bus') \<Rightarrow> (v, tick_cp (p1\<lparr>cp_bus := bus'\<rparr>))))"

definition publishCommandSent :: "'b cmd_publisher \<Rightarrow> ctx \<Rightarrow> Command \<Rightarrow> 'b Pipeline \<Rightarrow> verdict \<times> 'b Pipeline" where
  "publishCommandSent publish c cmd p =
     publish_payload publish c EventCommandSent cmd
       (CommandSentPayload (cmd_CommandID cmd) (cmd_SatelliteID cmd) (cmd_CommandType cmd)) p"

definition publishCommandAcked :: "'b cmd_publisher \<Rightarrow> ctx \<Rightarrow> Command \<Rightarrow> Ack \<Rightarrow> 'b Pipeline \<Rightarrow> verdict \<times> 'b Pipeline" where
  "publishCommandAcked publish c cmd ack p =
     publish_payload publish c EventCommandAcked cmd
       (CommandAckedPayload (cmd_CommandID cmd) (ack_Success ack) (ack_Message ack)) p"

text \<open>Moving a worker, and its end: the deferred release of its token.\<close>

definition move_worker :: "nat \<Rightarrow> worker_pc \<Rightarrow> 'b Pipeline \<Rightarrow> 'b Pipeline" where
  "move_worker n pc p = p\<lparr>cp_workers := (cp_workers p)[n := (fst (cp_workers p ! n), pc)]\<rparr>"

definition end_worker :: "nat \<Rightarrow> 'b Pipeline \<Rightarrow> 'b Pipeline" where
  "end_worker n p = p\<lparr>cp_workers := take n (cp_workers p) @ drop (Suc n) (cp_workers p), cp_sem := cp_sem p - 1\<rparr>"

definition write_item :: "string \<Rightarrow> (CommandItem \<Rightarrow> CommandItem) \<Rightarrow> 'b Pipeline \<Rightarrow> 'b Pipeline" where
  "write_item k f p = p\<lparr>cp_queue := upd_item k f (cp_queue p)\<rparr>"

definition count_failed :: "'b Pipeline \<Rightarrow> 'b Pipeline" where
  "count_failed p = p\<lparr>cp_metrics := (cp_metrics p)\<lparr>m_TotalFailed := m_TotalFailed (cp_metrics p) + 1\<rparr>\<rparr>"

text \<open>\<open>retryOrFail\<close> of worker \<open>n\<close> on item \<open>i\<close> up to its wait or to the end, and the two outcomes of the
  wait.\<close>

definition retryOrFail :: "nat \<Rightarrow> CommandItem \<Rightarrow> string \<Rightarrow> 'b Pipeline \<Rightarrow> 'b Pipeline" where
  "retryOrFail n i msg p =
     (if ci_RetryCount i < cfg_MaxRetries (cp_sched p)
      then move_worker n Backing
             (write_item (item_id i) (\<lambda>j. j\<lparr>ci_RetryCount := ci_RetryCount j + 1, ci_Error := msg\<rparr>) p)
      else end_worker n (count_failed
             (write_item (item_id i) (\<lambda>j. j\<lparr>ci_Status := StatusFailed, ci_Error := msg\<rparr>) p)))"

definition retry_stopped :: "nat \<Rightarrow> CommandItem \<Rightarrow> 'b Pipeline \<Rightarrow> 'b Pipeline" where
  "retry_stopped n i p = end_worker n (count_failed (write_item (item_id i) (\<lambda>j. j\<lparr>ci_Status := StatusFailed\<rparr>) p))"

definition retry_elapsed :: "nat \<Rightarrow> CommandItem \<Rightarrow> 'b Pipeline \<Rightarrow> 'b Pipeline" where
  "retry_elapsed n i p =
     end_worker n (write_item (item_id i) (\<lambda>j. j\<lparr>ci_Status := StatusQueued, ci_SentAt := None\<rparr>) p)"

text \<open>\<open>sendItem\<close> up to the call of the adapter; then its three continuations.\<close>

definition sendItem :: "'b cmd_publisher \<Rightarrow> ctx \<Rightarrow> nat \<Rightarrow> CommandItem \<Rightarrow> 'b Pipeline \<Rightarrow> 'b Pipeline" where
  "sendItem publish c n i p =
     (let p1 = snd (publishCommandSent publish c (ci_Command i) p);
          p2 = p1\<lparr>cp_metrics := (cp_metrics p1)\<lparr>m_TotalSent := m_TotalSent (cp_metrics p1) + 1\<rparr>\<rparr>
      in case cp_adapter p2 of
           None \<Rightarrow> retryOrFail n i ''no command adapter set'' (tick_cp p2)
         | Some a \<Rightarrow> move_worker n Awaiting (tick_cp p2))"

definition send_timeout :: "nat \<Rightarrow> CommandItem \<Rightarrow> 'b Pipeline \<Rightarrow> 'b Pipeline" where
  "send_timeout n i p =
     retryOrFail n i ''send timed out''
       (p\<lparr>cp_metrics := (cp_metrics p)\<lparr>m_TotalTimeout := m_TotalTimeout (cp_metrics p) + 1\<rparr>\<rparr>)"

text \<open>The adapter's error is known by its text.\<close>

definition send_reply :: "int \<Rightarrow> string + Ack \<Rightarrow> nat \<Rightarrow> CommandItem \<Rightarrow> 'b Pipeline \<Rightarrow> 'b Pipeline" where
  "send_reply elapsed r n i p0 =
     (let p = p0\<lparr>cp_metrics := RecordLatency elapsed (cp_metrics p0)\<rparr>
      in case r of
           Inl err \<Rightarrow> retryOrFail n i err p
         | Inr ack \<Rightarrow>
           (if \<not> ack_Success ack then retryOrFail n i (ack_Message ack) p
            else
              (let now = now_of (cp_world p)
               in move_worker n (Acking ack)
                    (write_item (item_id i)
                      (\<lambda>j. j\<lparr>ci_Ack := Some ack, ci_AckedAt := Some now, ci_Status := StatusAcked\<rparr>) (tick_cp p)))))"

definition send_acked :: "'b cmd_publisher \<Rightarrow> ctx \<Rightarrow> Ack \<Rightarrow> nat \<Rightarrow> CommandItem \<Rightarrow> 'b Pipeline \<Rightarrow> 'b Pipeline" where
  "send_acked publish c ack n i p =
     (let p1 = snd (publishCommandAcked publish c (ci_Command i) ack p)
      in end_worker n (p1\<lparr>cp_metrics := RecordAck True (cp_metrics p1)\<rparr>))"

subsection \<open>The dispatch loop\<close>

text \<open>\<open>dispatchLoop\<close> with a token in hand: start a worker for the next command, or give the token back.\<close>

definition loop_dequeue :: "string list \<Rightarrow> 'b Pipeline \<Rightarrow> CommandItem option \<times> 'b Pipeline" where
  "loop_dequeue ks p =
     (case Dequeue ks (now_of (cp_world p)) (cp_queue p) of
        (None, q) \<Rightarrow> (None, (tick_cp p)\<lparr>cp_sem := cp_sem p - 1, cp_loop := Idle\<rparr>)
      | (Some i, q) \<Rightarrow>
          (Some i, (tick_cp p)\<lparr>cp_queue := q, cp_workers := cp_workers p @ [(item_id i, Starting)], cp_loop := Top\<rparr>))"

end
