(* ===== verification/CommandPipeline.thy ===== *)
theory CommandPipeline
  imports CommandScheduler
begin

text \<open>
  The command pipeline as a concurrent program: callers of \<open>Send\<close>, \<open>Cancel\<close> and \<open>Stop\<close>, the dispatch
  loop and its workers in any interleaving. The adapter's answers, timeouts, the order in which
  the queue's map is visited and the verdicts of the bus are arbitrary.
\<close>

subsection \<open>Steps\<close>

datatype pipe_label =
    Accepted string | CancelChecked string | CancelDone string | AdapterSet string | Configured | Started | StopSignalled
  | LoopChecked | Acquired | Dequeued string | Idled | Woke | LoopExit
  | Begun string "string option" | TimedOut string | Replied string "string + Ack" | AckDone string Ack
  | Requeued string | GaveUp string

inductive pipe_step :: "'b cmd_publisher \<Rightarrow> 'b Pipeline \<Rightarrow> pipe_label \<Rightarrow> 'b Pipeline \<Rightarrow> bool" for publish
where
  ps_send: "Pipeline_Send cmd prio p = (None, p') \<Longrightarrow>
    k = (if cmd_CommandID cmd = [] then uuid_of (cp_world p) else cmd_CommandID cmd) \<Longrightarrow>
    pipe_step publish p (Accepted k) p'"
| ps_cancel_check: "cancel_check k p = None \<Longrightarrow>
    pipe_step publish p (CancelChecked k) (p\<lparr>cp_cancels := k # cp_cancels p\<rparr>)"
| ps_cancel_write: "k \<in> set (cp_cancels p) \<Longrightarrow>
    pipe_step publish p (CancelDone k) (cancel_write k (p\<lparr>cp_cancels := remove1 k (cp_cancels p)\<rparr>))"
| ps_adapter: "SetAdapter a p = (None, p') \<Longrightarrow> pipe_step publish p (AdapterSet a) p'"
| ps_config: "pipe_step publish p Configured (SetSchedulerConfig c p)"
| ps_start: "cp_loop p = NotStarted \<Longrightarrow> pipe_step publish p Started (Pipeline_Start p)"
| ps_stop: "\<not> cp_stopOnce p \<Longrightarrow> pipe_step publish p StopSignalled (Pipeline_Stop p)"
| ps_check: "cp_loop p = Top \<Longrightarrow> \<not> cp_stopCh p \<Longrightarrow> pipe_step publish p LoopChecked (p\<lparr>cp_loop := Acquiring\<rparr>)"
| ps_acquire: "cp_loop p = Acquiring \<Longrightarrow> cp_sem p < nat (cfg_MaxConcurrent (cp_sched p)) \<Longrightarrow>
    pipe_step publish p Acquired (p\<lparr>cp_loop := Holding, cp_sem := Suc (cp_sem p)\<rparr>)"
| ps_dequeue: "cp_loop p = Holding \<Longrightarrow> enumerates ks (cp_queue p) \<Longrightarrow> loop_dequeue ks p = (Some i, p') \<Longrightarrow>
    pipe_step publish p (Dequeued (item_id i)) p'"
| ps_idle: "cp_loop p = Holding \<Longrightarrow> enumerates ks (cp_queue p) \<Longrightarrow> loop_dequeue ks p = (None, p') \<Longrightarrow>
    pipe_step publish p Idled p'"
| ps_wake: "cp_loop p = Idle \<Longrightarrow> pipe_step publish p Woke (p\<lparr>cp_loop := Top\<rparr>)"
| ps_exit: "cp_loop p \<in> {Top, Acquiring, Idle} \<Longrightarrow> cp_stopCh p \<Longrightarrow>
    pipe_step publish p LoopExit (p\<lparr>cp_loop := Returned\<rparr>)"
| ps_begin: "n < length (cp_workers p) \<Longrightarrow> cp_workers p ! n = (k, Starting) \<Longrightarrow> cp_queue p k = Some i \<Longrightarrow>
    pipe_step publish p (Begun k (cp_adapter p)) (sendItem publish c n i p)"
| ps_timeout: "n < length (cp_workers p) \<Longrightarrow> cp_workers p ! n = (k, Awaiting) \<Longrightarrow> cp_queue p k = Some i \<Longrightarrow>
    pipe_step publish p (TimedOut k) (send_timeout n i p)"
| ps_reply: "n < length (cp_workers p) \<Longrightarrow> cp_workers p ! n = (k, Awaiting) \<Longrightarrow> cp_queue p k = Some i \<Longrightarrow>
    pipe_step publish p (Replied k r) (send_reply us r n i p)"
| ps_acked: "n < length (cp_workers p) \<Longrightarrow> cp_workers p ! n = (k, Acking ack) \<Longrightarrow> cp_queue p k = Some i \<Longrightarrow>
    pipe_step publish p (AckDone k ack) (send_acked publish c ack n i p)"
| ps_elapsed: "n < length (cp_workers p) \<Longrightarrow> cp_workers p ! n = (k, Backing) \<Longrightarrow> cp_queue p k = Some i \<Longrightarrow>
    pipe_step publish p (Requeued k) (retry_elapsed n i p)"
| ps_stopped: "n < length (cp_workers p) \<Longrightarrow> cp_workers p ! n = (k, Backing) \<Longrightarrow> cp_queue p k = Some i \<Longrightarrow>
    cp_stopCh p \<Longrightarrow> pipe_step publish p (GaveUp k) (retry_stopped n i p)"

inductive pipe_run :: "'b cmd_publisher \<Rightarrow> 'b Pipeline \<Rightarrow> pipe_label list \<Rightarrow> 'b Pipeline \<Rightarrow> bool" for publish
where
  pr_empty: "pipe_run publish p [] p"
| pr_step: "pipe_run publish p tr p1 \<Longrightarrow> pipe_step publish p1 l p2 \<Longrightarrow> pipe_run publish p (tr @ [l]) p2"

inductive_cases pipe_stepE: "pipe_step publish p l p'"

subsection \<open>Attempts and acknowledgements of a command in a run\<close>

fun begins :: "string \<Rightarrow> pipe_label \<Rightarrow> bool" where
  "begins k (Begun j a) = (j = k)" | "begins k _ = False"

fun acks :: "string \<Rightarrow> pipe_label \<Rightarrow> bool" where
  "acks k (AckDone j a) = (j = k)" | "acks k _ = False"

definition attempts :: "string \<Rightarrow> pipe_label list \<Rightarrow> nat" where
  "attempts k tr = length (filter (begins k) tr)"

definition ack_count :: "string \<Rightarrow> pipe_label list \<Rightarrow> nat" where
  "ack_count k tr = length (filter (acks k) tr)"

lemma attempts_simps [simp]:
  "attempts k [] = 0" "attempts k (tr @ [l]) = attempts k tr + (if begins k l then 1 else 0)"
  by (simp_all add: attempts_def)

lemma ack_count_simps [simp]:
  "ack_count k [] = 0" "ack_count k (tr @ [l]) = ack_count k tr + (if acks k l then 1 else 0)"
  by (simp_all add: ack_count_def)

subsection \<open>The workers as a map\<close>

abbreviation worker_of :: "'b Pipeline \<Rightarrow> string \<rightharpoonup> worker_pc" where
  "worker_of p \<equiv> map_of (cp_workers p)"

lemma workers_move:
  assumes "distinct (map fst ws)" "n < length ws" "ws ! n = (k, pc)"
  shows "map_of (ws[n := (k, pc')]) = (map_of ws)(k \<mapsto> pc')" "map fst (ws[n := (k, pc')]) = map fst ws"
proof -
  show m: "map fst (ws[n := (k, pc')]) = map fst ws"
    using assms(2,3) by (metis fst_conv list_update_id map_update nth_map)
  have d: "distinct (map fst (ws[n := (k, pc')]))" using m assms(1) by simp
  show "map_of (ws[n := (k, pc')]) = (map_of ws)(k \<mapsto> pc')"
  proof (rule ext)
    fix j
    show "map_of (ws[n := (k, pc')]) j = ((map_of ws)(k \<mapsto> pc')) j"
    proof (cases "j = k")
      case True
      have "(k, pc') \<in> set (ws[n := (k, pc')])" using assms(2) by (simp add: set_update_memI)
      then show ?thesis using d True by simp
    next
      case False
      have ws: "ws = take n ws @ (k, pc) # drop (Suc n) ws" using assms(2,3) by (metis id_take_nth_drop)
      have "ws[n := (k, pc')] = take n ws @ (k, pc') # drop (Suc n) ws" using assms(2) by (simp add: upd_conv_take_nth_drop)
      then have "map_of (ws[n := (k, pc')]) j = map_of (take n ws @ (k, pc) # drop (Suc n) ws) j"
        using False by (simp add: map_add_def fun_upd_other split: option.split)
      then show ?thesis using ws False by simp
    qed
  qed
qed

lemma workers_end:
  assumes "distinct (map fst ws)" "n < length ws" "ws ! n = (k, pc)"
  shows "map_of (take n ws @ drop (Suc n) ws) = (map_of ws)(k := None)"
    "distinct (map fst (take n ws @ drop (Suc n) ws))"
proof -
  have ws: "ws = take n ws @ (k, pc) # drop (Suc n) ws" using assms(2,3) by (metis id_take_nth_drop)
  then have d: "distinct (map fst (take n ws @ (k, pc) # drop (Suc n) ws))" using assms(1) by simp
  then show "distinct (map fst (take n ws @ drop (Suc n) ws))" by simp
  have "map_of ws = map_of (take n ws @ (k, pc) # drop (Suc n) ws)" using ws by simp
  moreover have "map_of (take n ws) k = None" "map_of (drop (Suc n) ws) k = None"
    using d by (auto simp: map_of_eq_None_iff)
  ultimately show "map_of (take n ws @ drop (Suc n) ws) = (map_of ws)(k := None)"
    by (auto simp: fun_eq_iff map_add_def split: option.splits)
qed

subsection \<open>The invariant\<close>

text \<open>
  What holds of one command: \<open>m\<close> is the bound on retries, \<open>a\<close> and \<open>c\<close> are its attempts and
  acknowledgements so far, then its worker and its item. While no worker has it, it waits to
  be sent only if every attempt has been followed by a retry.
\<close>

fun key_ok :: "int \<Rightarrow> nat \<Rightarrow> nat \<Rightarrow> worker_pc option \<Rightarrow> CommandItem option \<Rightarrow> bool" where
  "key_ok m a c w None \<longleftrightarrow> w = None \<and> a = 0 \<and> c = 0"
| "key_ok m a c w (Some i) \<longleftrightarrow> 0 \<le> ci_RetryCount i \<and> ci_RetryCount i \<le> m \<and>
     (case w of
        None \<Rightarrow> ci_Status i \<in> {StatusQueued, StatusAcked, StatusFailed, StatusCancelled} \<and>
          (ci_Status i = StatusQueued \<longrightarrow> int a = ci_RetryCount i \<and> c = 0) \<and>
          ci_RetryCount i \<le> int a \<and> int a \<le> ci_RetryCount i + 1 \<and> c \<le> 1 \<and>
          (c = 1 \<longrightarrow> ci_Status i \<in> {StatusAcked, StatusCancelled})
      | Some Starting \<Rightarrow> ci_Status i \<in> {StatusSending, StatusCancelled} \<and> int a = ci_RetryCount i \<and> c = 0
      | Some Awaiting \<Rightarrow> ci_Status i \<in> {StatusSending, StatusCancelled} \<and> int a = ci_RetryCount i + 1 \<and> c = 0
      | Some Backing \<Rightarrow> ci_Status i \<in> {StatusSending, StatusCancelled} \<and> int a = ci_RetryCount i \<and> c = 0
      | Some (Acking ack) \<Rightarrow> ci_Status i \<in> {StatusAcked, StatusCancelled} \<and> int a = ci_RetryCount i + 1 \<and> c = 0)"

definition tokens_ok :: "'b Pipeline \<Rightarrow> bool" where
  "tokens_ok p \<longleftrightarrow> distinct (map fst (cp_workers p)) \<and>
     cp_sem p = length (cp_workers p) + (if cp_loop p = Holding then 1 else 0) \<and>
     cp_sem p \<le> nat (cfg_MaxConcurrent (cp_sched p)) \<and> 0 < cfg_MaxRetries (cp_sched p) \<and>
     (cp_loop p = NotStarted \<longrightarrow> cp_workers p = [])"

definition keys_ok :: "pipe_label list \<Rightarrow> 'b Pipeline \<Rightarrow> bool" where
  "keys_ok tr p \<longleftrightarrow> queue_ok (cp_queue p) \<and> finite (dom (cp_queue p)) \<and>
     (\<forall>k. key_ok (cfg_MaxRetries (cp_sched p)) (attempts k tr) (ack_count k tr) (worker_of p k) (cp_queue p k)) \<and>
     (cp_loop p = NotStarted \<longrightarrow> (\<forall>k i. cp_queue p k = Some i \<longrightarrow> ci_RetryCount i = 0))"

definition cmd_inv :: "pipe_label list \<Rightarrow> 'b Pipeline \<Rightarrow> bool" where
  "cmd_inv tr p \<longleftrightarrow> tokens_ok p \<and> keys_ok tr p"

text \<open>What a step of the worker of command \<open>k\<close> changes.\<close>

definition worker_change :: "'b Pipeline \<Rightarrow> string \<Rightarrow> worker_pc option \<Rightarrow> CommandItem \<Rightarrow> 'b Pipeline \<Rightarrow> bool" where
  "worker_change p k w i p' \<longleftrightarrow>
     cp_queue p' = (cp_queue p)(k \<mapsto> i) \<and> worker_of p' = (worker_of p)(k := w) \<and>
     distinct (map fst (cp_workers p')) \<and> cp_sem p' + length (cp_workers p) = cp_sem p + length (cp_workers p') \<and>
     cp_sem p' \<le> cp_sem p \<and> cp_loop p' = cp_loop p \<and> cp_sched p' = cp_sched p \<and> cp_stopCh p' = cp_stopCh p"

definition worker_at :: "'b Pipeline \<Rightarrow> nat \<Rightarrow> string \<Rightarrow> worker_pc \<Rightarrow> CommandItem \<Rightarrow> bool" where
  "worker_at p n k pc i \<longleftrightarrow> n < length (cp_workers p) \<and> cp_workers p ! n = (k, pc) \<and> cp_queue p k = Some i \<and>
     item_id i = k \<and> distinct (map fst (cp_workers p)) \<and> length (cp_workers p) \<le> cp_sem p"

lemma worker_change_move:
  assumes "worker_at p n k pc i"
  shows "worker_change p k (Some pc') (f i) (move_worker n pc' (write_item k f p))"
    "worker_change p k (Some pc') i (move_worker n pc' p)"
  using assms workers_move [of "cp_workers p" n k pc]
  by (auto simp: worker_change_def worker_at_def move_worker_def write_item_def upd_item_def)

lemma worker_change_end:
  assumes "worker_at p n k pc i"
  shows "worker_change p k None (f i) (end_worker n (write_item k f p))"
    "worker_change p k None i (end_worker n p)"
  using assms workers_end [of "cp_workers p" n k pc]
  by (auto simp: worker_change_def worker_at_def end_worker_def write_item_def upd_item_def)

text \<open>The bus, the world and the metrics play no part in it.\<close>

definition same_core :: "'b Pipeline \<Rightarrow> 'b Pipeline \<Rightarrow> bool" where
  "same_core p p' \<longleftrightarrow> cp_queue p' = cp_queue p \<and> cp_workers p' = cp_workers p \<and> cp_sem p' = cp_sem p \<and>
     cp_loop p' = cp_loop p \<and> cp_sched p' = cp_sched p \<and> cp_stopCh p' = cp_stopCh p \<and> cp_adapter p' = cp_adapter p"

lemma same_core_simps [simp]:
  "same_core p p" "same_core p (tick_cp p)" "same_core p (p\<lparr>cp_metrics := m\<rparr>)" "same_core p (p\<lparr>cp_bus := b\<rparr>)"
  by (simp_all add: same_core_def tick_cp_def)

lemma same_core_trans: "same_core p p1 \<Longrightarrow> same_core p1 p2 \<Longrightarrow> same_core p p2"
  by (simp add: same_core_def)

lemma same_core_upd:
  "same_core p p1 \<Longrightarrow> same_core p (p1\<lparr>cp_metrics := m\<rparr>)" "same_core p p1 \<Longrightarrow> same_core p (tick_cp p1)"
  by (simp_all add: same_core_def tick_cp_def)

lemma same_core_publish: "same_core p (snd (publish_payload publish c etype cmd pl p))"
  by (auto simp: publish_payload_def same_core_def tick_cp_def Let_def split: sum.splits prod.splits)

lemma worker_at_core: "same_core p p' \<Longrightarrow> worker_at p n k pc i \<Longrightarrow> worker_at p' n k pc i"
  by (simp add: same_core_def worker_at_def)

lemma worker_change_core: "same_core p p1 \<Longrightarrow> worker_change p1 k w i p' \<Longrightarrow> worker_change p k w i p'"
  by (simp add: same_core_def worker_change_def)

lemma worker_change_core2: "worker_change p k w i p1 \<Longrightarrow> same_core p1 p' \<Longrightarrow> worker_change p k w i p'"
  by (simp add: same_core_def worker_change_def)

lemma end_failed_core: "same_core (end_worker n p) (end_worker n (count_failed p))"
  by (simp add: same_core_def end_worker_def count_failed_def)

text \<open>The effect of each operation of a worker.\<close>

lemma retryOrFail_change:
  assumes "worker_at p n k pc i"
  shows "if ci_RetryCount i < cfg_MaxRetries (cp_sched p)
    then worker_change p k (Some Backing) (i\<lparr>ci_RetryCount := ci_RetryCount i + 1, ci_Error := msg\<rparr>) (retryOrFail n i msg p)
    else worker_change p k None (i\<lparr>ci_Status := StatusFailed, ci_Error := msg\<rparr>) (retryOrFail n i msg p)"
proof -
  have k: "item_id i = k" using assms by (simp add: worker_at_def)
  show ?thesis
    using worker_change_move(1) [OF assms, of Backing "\<lambda>j. j\<lparr>ci_RetryCount := ci_RetryCount j + 1, ci_Error := msg\<rparr>"]
      worker_change_core2 [OF worker_change_end(1) [OF assms, of "\<lambda>j. j\<lparr>ci_Status := StatusFailed, ci_Error := msg\<rparr>"]
        end_failed_core]
    by (simp add: retryOrFail_def k)
qed

lemma retry_ends:
  assumes "worker_at p n k pc i"
  shows "worker_change p k None (i\<lparr>ci_Status := StatusFailed\<rparr>) (retry_stopped n i p)"
    "worker_change p k None (i\<lparr>ci_Status := StatusQueued, ci_SentAt := None\<rparr>) (retry_elapsed n i p)"
proof -
  have k: "item_id i = k" using assms by (simp add: worker_at_def)
  show "worker_change p k None (i\<lparr>ci_Status := StatusFailed\<rparr>) (retry_stopped n i p)"
    using worker_change_core2 [OF worker_change_end(1) [OF assms, of "\<lambda>j. j\<lparr>ci_Status := StatusFailed\<rparr>"] end_failed_core]
    by (simp add: retry_stopped_def k)
  show "worker_change p k None (i\<lparr>ci_Status := StatusQueued, ci_SentAt := None\<rparr>) (retry_elapsed n i p)"
    using worker_change_end(1) [OF assms, of "\<lambda>j. j\<lparr>ci_Status := StatusQueued, ci_SentAt := None\<rparr>"]
    by (simp add: retry_elapsed_def k)
qed

lemma retryOrFail_core:
  assumes "same_core p p1" "worker_at p n k pc i"
  shows "if ci_RetryCount i < cfg_MaxRetries (cp_sched p)
    then worker_change p k (Some Backing) (i\<lparr>ci_RetryCount := ci_RetryCount i + 1, ci_Error := msg\<rparr>) (retryOrFail n i msg p1)
    else worker_change p k None (i\<lparr>ci_Status := StatusFailed, ci_Error := msg\<rparr>) (retryOrFail n i msg p1)"
  using retryOrFail_change [OF worker_at_core [OF assms], of msg] worker_change_core [OF assms(1)] assms(1)
  by (simp add: same_core_def)

text \<open>The step of a worker: what it does to its item and where it goes.\<close>

inductive worker_move :: "int \<Rightarrow> CommandItem \<Rightarrow> worker_pc \<Rightarrow> worker_pc option \<Rightarrow> CommandItem \<Rightarrow> bool" for m i where
  wm_call: "worker_move m i Starting (Some Awaiting) i"
| wm_retry: "pc \<in> {Starting, Awaiting} \<Longrightarrow> ci_RetryCount i < m \<Longrightarrow>
    worker_move m i pc (Some Backing) (i\<lparr>ci_RetryCount := ci_RetryCount i + 1, ci_Error := msg\<rparr>)"
| wm_fail: "pc \<in> {Starting, Awaiting} \<Longrightarrow> m \<le> ci_RetryCount i \<Longrightarrow>
    worker_move m i pc None (i\<lparr>ci_Status := StatusFailed, ci_Error := msg\<rparr>)"
| wm_ack: "worker_move m i Awaiting (Some (Acking ack))
    (i\<lparr>ci_Ack := Some ack, ci_AckedAt := Some t, ci_Status := StatusAcked\<rparr>)"
| wm_done: "worker_move m i (Acking ack) None i"
| wm_stopped: "worker_move m i Backing None (i\<lparr>ci_Status := StatusFailed\<rparr>)"
| wm_requeue: "worker_move m i Backing None (i\<lparr>ci_Status := StatusQueued, ci_SentAt := None\<rparr>)"

abbreviation moves :: "'b Pipeline \<Rightarrow> string \<Rightarrow> worker_pc \<Rightarrow> CommandItem \<Rightarrow> 'b Pipeline \<Rightarrow> bool" where
  "moves p k pc i p' \<equiv> \<exists>w i'. worker_move (cfg_MaxRetries (cp_sched p)) i pc w i' \<and> worker_change p k w i' p'"

lemma retryOrFail_moves:
  assumes "same_core p p1" "worker_at p n k pc i" "pc \<in> {Starting, Awaiting}"
  shows "moves p k pc i (retryOrFail n i msg p1)"
proof (cases "ci_RetryCount i < cfg_MaxRetries (cp_sched p)")
  case True
  then have "worker_change p k (Some Backing) (i\<lparr>ci_RetryCount := ci_RetryCount i + 1, ci_Error := msg\<rparr>) (retryOrFail n i msg p1)"
    using retryOrFail_core [OF assms(1,2), of msg] by simp
  with wm_retry [OF assms(3) True] show ?thesis by (intro exI conjI)
next
  case False
  then have "worker_change p k None (i\<lparr>ci_Status := StatusFailed, ci_Error := msg\<rparr>) (retryOrFail n i msg p1)"
    using retryOrFail_core [OF assms(1,2), of msg] by simp
  moreover have "cfg_MaxRetries (cp_sched p) \<le> ci_RetryCount i" using False by simp
  ultimately show ?thesis using wm_fail [OF assms(3)] by (intro exI conjI)
qed

lemma sendItem_moves:
  assumes "worker_at p n k Starting i"
  shows "moves p k Starting i (sendItem publish c n i p)"
proof -
  define p1 where "p1 = snd (publishCommandSent publish c (ci_Command i) p)"
  define p2 where "p2 = tick_cp (p1\<lparr>cp_metrics := (cp_metrics p1)\<lparr>m_TotalSent := m_TotalSent (cp_metrics p1) + 1\<rparr>\<rparr>)"
  have "same_core p p1" by (simp add: p1_def publishCommandSent_def same_core_publish)
  then have core: "same_core p p2"
    unfolding p2_def by (intro same_core_upd)
  have s: "sendItem publish c n i p = (case cp_adapter p2 of None \<Rightarrow> retryOrFail n i ''no command adapter set'' p2
      | Some a \<Rightarrow> move_worker n Awaiting p2)"
    unfolding sendItem_def p2_def p1_def Let_def by (simp add: tick_cp_def)
  show ?thesis
  proof (cases "cp_adapter p2")
    case None
    then show ?thesis using s retryOrFail_moves [OF core assms] by simp
  next
    case (Some a)
    have "worker_change p k (Some Awaiting) i (move_worker n Awaiting p2)"
      by (rule worker_change_core [OF core worker_change_move(2) [OF worker_at_core [OF core assms]]])
    then show ?thesis using s Some wm_call by auto
  qed
qed

lemma send_timeout_moves:
  "worker_at p n k Awaiting i \<Longrightarrow> moves p k Awaiting i (send_timeout n i p)"
  unfolding send_timeout_def by (rule retryOrFail_moves) simp_all

lemma send_reply_moves:
  assumes "worker_at p n k Awaiting i"
  shows "moves p k Awaiting i (send_reply us r n i p)"
proof -
  define p1 where "p1 = p\<lparr>cp_metrics := RecordLatency us (cp_metrics p)\<rparr>"
  have core: "same_core p p1" "same_core p (tick_cp p1)"
    unfolding p1_def by (intro same_core_upd same_core_simps(1))+
  have k: "item_id i = k" using assms by (simp add: worker_at_def)
  show ?thesis
  proof (cases "\<exists>ack. r = Inr ack \<and> ack_Success ack")
    case True
    then obtain ack where ack: "r = Inr ack" "ack_Success ack" by blast
    let ?f = "\<lambda>j. j\<lparr>ci_Ack := Some ack, ci_AckedAt := Some (now_of (cp_world p1)), ci_Status := StatusAcked\<rparr>"
    have "worker_change p k (Some (Acking ack)) (?f i) (move_worker n (Acking ack) (write_item k ?f (tick_cp p1)))"
      by (rule worker_change_core [OF core(2) worker_change_move(1) [OF worker_at_core [OF core(2) assms]]])
    moreover have "send_reply us r n i p = move_worker n (Acking ack) (write_item k ?f (tick_cp p1))"
      using ack by (simp add: send_reply_def p1_def k Let_def)
    ultimately show ?thesis using wm_ack by (metis (no_types))
  next
    case False
    then have "\<exists>msg. send_reply us r n i p = retryOrFail n i msg p1"
      by (cases r) (auto simp: send_reply_def p1_def Let_def)
    then show ?thesis using retryOrFail_moves [OF core(1) assms] by auto
  qed
qed

lemma send_acked_moves:
  assumes "worker_at p n k (Acking ack) i"
  shows "moves p k (Acking ack) i (send_acked publish c a n i p)"
proof -
  define p1 where "p1 = snd (publishCommandAcked publish c (ci_Command i) a p)"
  have "same_core p p1" by (simp add: p1_def publishCommandAcked_def same_core_publish)
  then have core: "same_core p (p1\<lparr>cp_metrics := RecordAck True (cp_metrics p1)\<rparr>)"
    by (rule same_core_upd)
  have "worker_change p k None i (end_worker n (p1\<lparr>cp_metrics := RecordAck True (cp_metrics p1)\<rparr>))"
    by (rule worker_change_core [OF core worker_change_end(2) [OF worker_at_core [OF core assms]]])
  moreover have "send_acked publish c a n i p = end_worker n (p1\<lparr>cp_metrics := RecordAck True (cp_metrics p1)\<rparr>)"
    by (simp add: send_acked_def p1_def Let_def)
  ultimately show ?thesis using wm_done by (metis (no_types))
qed

lemma backing_moves:
  assumes "worker_at p n k Backing i"
  shows "moves p k Backing i (retry_stopped n i p)" "moves p k Backing i (retry_elapsed n i p)"
  using retry_ends [OF assms] wm_stopped wm_requeue by blast+

lemma worker_move_id: "worker_move m i pc w i' \<Longrightarrow> item_id i' = item_id i"
  by (induction rule: worker_move.cases) auto

text \<open>The invariant survives a worker's step.\<close>

lemma key_ok_move:
  assumes "worker_move m i pc w i'" "key_ok m a c (Some pc) (Some i)"
  shows "key_ok m (a + (if pc = Starting then 1 else 0)) (c + (if (\<exists>ack. pc = Acking ack) then 1 else 0)) w (Some i')"
  using assms by (induction rule: worker_move.cases) auto

lemma cmd_inv_move:
  assumes "cmd_inv tr p" "worker_at p n k pc i" "moves p k pc i p'"
    and "\<And>j. begins j l = (j = k \<and> pc = Starting)" "\<And>j. acks j l = (j = k \<and> (\<exists>ack. pc = Acking ack))"
  shows "cmd_inv (tr @ [l]) p'"
proof -
  obtain w i' where m: "worker_move (cfg_MaxRetries (cp_sched p)) i pc w i'" and ch: "worker_change p k w i' p'"
    using assms(3) by blast
  note wa = assms(2) [unfolded worker_at_def]
  have wk: "worker_of p k = Some pc" using wa by (metis map_of_eq_Some_iff nth_mem)
  have started: "cp_loop p \<noteq> NotStarted" using wa assms(1) by (auto simp: cmd_inv_def tokens_ok_def)
  have t: "tokens_ok p" and q: "keys_ok tr p" using assms(1) by (auto simp: cmd_inv_def)
  have "tokens_ok p'"
    using t ch started by (auto simp: tokens_ok_def worker_change_def)
  moreover have "keys_ok (tr @ [l]) p'"
  proof -
    have "k \<noteq> []" using wa q by (auto simp: keys_ok_def queue_ok_def)
    then have "queue_ok (cp_queue p')"
      using q ch wa worker_move_id [OF m] by (auto simp: keys_ok_def worker_change_def intro!: queue_ok_upd)
    moreover have "key_ok (cfg_MaxRetries (cp_sched p')) (attempts j (tr @ [l])) (ack_count j (tr @ [l]))
        (worker_of p' j) (cp_queue p' j)" for j
    proof (cases "j = k")
      case True
      have "key_ok (cfg_MaxRetries (cp_sched p)) (attempts k tr) (ack_count k tr) (Some pc) (Some i)"
        using q wk wa unfolding keys_ok_def by metis
      from key_ok_move [OF m this] show ?thesis
        using True ch assms(4,5) by (simp add: worker_change_def)
    next
      case False
      then show ?thesis using q ch assms(4,5) by (simp add: worker_change_def keys_ok_def)
    qed
    ultimately show ?thesis using started ch q by (simp add: keys_ok_def worker_change_def)
  qed
  ultimately show ?thesis by (simp add: cmd_inv_def)
qed

text \<open>A step that writes no item and moves no worker, and one that writes one item only.\<close>

lemma keys_ok_frame:
  assumes "keys_ok tr p" "cp_queue p' = cp_queue p" "cp_workers p' = cp_workers p" "cp_sched p' = cp_sched p"
    and "cp_loop p' = NotStarted \<Longrightarrow> cp_loop p = NotStarted" "\<And>j. \<not> begins j l" "\<And>j. \<not> acks j l"
  shows "keys_ok (tr @ [l]) p'"
  using assms by (auto simp: keys_ok_def)

lemma key_ok_cancel:
  "key_ok m a c w (Some i) \<Longrightarrow> key_ok m a c w (Some (i\<lparr>ci_Status := StatusCancelled\<rparr>))"
  by (auto split: option.splits worker_pc.splits)

lemma keys_ok_cancel:
  assumes "keys_ok tr p" "p' = cancel_write k (p\<lparr>cp_cancels := cs\<rparr>)"
  shows "keys_ok (tr @ [CancelDone k]) p'"
proof (cases "cp_queue p k")
  case None
  then have "p' = p\<lparr>cp_cancels := cs\<rparr>" using assms(2) by (simp add: cancel_write_def upd_item_def)
  then show ?thesis by (intro keys_ok_frame [OF assms(1)]) simp_all
next
  case (Some i)
  have q: "cp_queue p' = (cp_queue p)(k \<mapsto> i\<lparr>ci_Status := StatusCancelled\<rparr>)"
      "cp_workers p' = cp_workers p" "cp_sched p' = cp_sched p" "cp_loop p' = cp_loop p"
    using assms(2) Some by (simp_all add: cancel_write_def upd_item_def)
  have ik: "item_id i = k" "k \<noteq> []" using assms(1) Some by (auto simp: keys_ok_def queue_ok_def)
  have "key_ok (cfg_MaxRetries (cp_sched p)) (attempts k tr) (ack_count k tr) (worker_of p k) (Some i)"
    using assms(1) Some unfolding keys_ok_def by metis
  note new = key_ok_cancel [OF this]
  have "queue_ok (cp_queue p')"
    unfolding q(1) using assms(1) ik by (intro queue_ok_upd) (simp_all add: keys_ok_def)
  moreover have "key_ok (cfg_MaxRetries (cp_sched p)) (attempts j tr) (ack_count j tr) (worker_of p j) (cp_queue p' j)" for j
    using assms(1) new by (cases "j = k") (auto simp: keys_ok_def q(1) simp del: key_ok.simps)
  ultimately show ?thesis using assms(1) Some by (auto simp: keys_ok_def q simp del: key_ok.simps)
qed

lemma Pipeline_Send_Some:
  assumes "Pipeline_Send cmd prio p = (None, p')"
    and "k = (if cmd_CommandID cmd = [] then uuid_of (cp_world p) else cmd_CommandID cmd)"
  shows "\<exists>i. p' = (tick_cp (tick_cp p))\<lparr>cp_queue := (cp_queue p)(k \<mapsto> i)\<rparr> \<and> cp_queue p k = None \<and> k \<noteq> [] \<and>
    item_id i = k \<and> ci_Status i = StatusQueued \<and> ci_RetryCount i = 0"
proof -
  let ?cmd = "if cmd_CommandID cmd = [] then cmd\<lparr>cmd_CommandID := uuid_of (cp_world p)\<rparr> else cmd"
  have id: "cmd_CommandID ?cmd = k" using assms(2) by simp
  show ?thesis
    using assms(1) id
    by (auto simp: Pipeline_Send_def Enqueue_def Let_def tick_cp_def split: if_splits option.splits)
qed

lemma keys_ok_send:
  assumes "keys_ok tr p" "Pipeline_Send cmd prio p = (None, p')"
    and "k = (if cmd_CommandID cmd = [] then uuid_of (cp_world p) else cmd_CommandID cmd)" "0 < cfg_MaxRetries (cp_sched p)"
  shows "keys_ok (tr @ [Accepted k]) p'"
proof -
  obtain i where i: "p' = (tick_cp (tick_cp p))\<lparr>cp_queue := (cp_queue p)(k \<mapsto> i)\<rparr>" "cp_queue p k = None" "k \<noteq> []"
      "item_id i = k" "ci_Status i = StatusQueued" "ci_RetryCount i = 0"
    using Pipeline_Send_Some [OF assms(2,3)] by blast
  have q: "cp_queue p' = (cp_queue p)(k \<mapsto> i)" "cp_workers p' = cp_workers p" "cp_sched p' = cp_sched p"
      "cp_loop p' = cp_loop p"
    using i(1) by (simp_all add: tick_cp_def)
  have "key_ok (cfg_MaxRetries (cp_sched p)) (attempts k tr) (ack_count k tr) (worker_of p k) None"
    using assms(1) i(2) unfolding keys_ok_def by metis
  then have new: "key_ok (cfg_MaxRetries (cp_sched p)) (attempts k tr) (ack_count k tr) (worker_of p k) (Some i)"
    using i(5,6) assms(4) by simp
  have "queue_ok (cp_queue p')"
    unfolding q(1) using assms(1) i by (intro queue_ok_upd) (simp_all add: keys_ok_def)
  moreover have "key_ok (cfg_MaxRetries (cp_sched p)) (attempts j tr) (ack_count j tr) (worker_of p j) (cp_queue p' j)" for j
    using assms(1) new by (cases "j = k") (auto simp: keys_ok_def q(1) simp del: key_ok.simps)
  ultimately show ?thesis using assms(1) i(6) by (auto simp: keys_ok_def q simp del: key_ok.simps)
qed

lemma loop_dequeue_Some:
  assumes "keys_ok tr p" "enumerates ks (cp_queue p)" "loop_dequeue ks p = (Some i, p')" "tokens_ok p"
    and "cp_loop p = Holding"
  shows "cmd_inv (tr @ [Dequeued (item_id i)]) p'"
proof -
  obtain q where d: "Dequeue ks (now_of (cp_world p)) (cp_queue p) = (Some i, q)"
      "p' = (tick_cp p)\<lparr>cp_queue := q, cp_workers := cp_workers p @ [(item_id i, Starting)], cp_loop := Top\<rparr>"
    using assms(3) by (auto simp: loop_dequeue_def split: prod.splits option.splits)
  have qok: "queue_ok (cp_queue p)" using assms(1) by (simp add: keys_ok_def)
  from Dequeue_Some [OF qok assms(2) d(1)] obtain k b where b: "cp_queue p k = Some b" "ci_Status b = StatusQueued"
      "i = b\<lparr>ci_Status := StatusSending, ci_SentAt := Some (now_of (cp_world p))\<rparr>"
      "q = (cp_queue p)(k \<mapsto> i)" "item_id b = k" by blast
  have k: "item_id i = k" "k \<noteq> []" using b qok by (auto simp: queue_ok_def)
  have old: "key_ok (cfg_MaxRetries (cp_sched p)) (attempts k tr) (ack_count k tr) (worker_of p k) (Some b)"
    using assms(1) b(1) unfolding keys_ok_def by metis
  then have nw: "worker_of p k = None" using b(2) by (auto split: option.splits worker_pc.splits)
  then have new: "key_ok (cfg_MaxRetries (cp_sched p)) (attempts k tr) (ack_count k tr) (Some Starting) (Some i)"
    using old b(2,3) by simp
  have fresh: "k \<notin> fst ` set (cp_workers p)" using nw by (simp add: map_of_eq_None_iff)
  have wk: "worker_of p' = (worker_of p)(k \<mapsto> Starting)"
    using nw by (auto simp: d(2) k(1) fun_eq_iff map_add_def tick_cp_def split: option.splits)
  have pq: "cp_queue p' = (cp_queue p)(k \<mapsto> i)" "cp_sched p' = cp_sched p" "cp_loop p' = Top"
    by (simp_all add: d(2) b(4) tick_cp_def)
  have "tokens_ok p'"
    using assms(4,5) fresh by (auto simp: tokens_ok_def d(2) k(1) tick_cp_def)
  moreover have "keys_ok (tr @ [Dequeued (item_id i)]) p'"
  proof -
    have "queue_ok (cp_queue p')" using queue_ok_upd [OF qok k] by (simp add: d(2) b(4))
    moreover have "key_ok (cfg_MaxRetries (cp_sched p)) (attempts j tr) (ack_count j tr) (worker_of p' j) (cp_queue p' j)" for j
      using assms(1) new by (cases "j = k") (auto simp: keys_ok_def wk pq simp del: key_ok.simps)
    ultimately show ?thesis using assms(1) by (simp add: keys_ok_def pq del: key_ok.simps)
  qed
  ultimately show ?thesis by (simp add: cmd_inv_def)
qed

lemma cmd_inv_start:
  assumes "cmd_inv tr p" "cp_loop p = NotStarted"
  shows "cmd_inv (tr @ [Started]) (Pipeline_Start p)"
proof -
  have none: "cp_workers p = []" using assms by (simp add: cmd_inv_def tokens_ok_def)
  have "tokens_ok (Pipeline_Start p)"
    using assms none by (simp add: cmd_inv_def tokens_ok_def Pipeline_Start_def)
  moreover have "key_ok (cfg_MaxRetries (withDefaults (cp_config p))) (attempts k tr) (ack_count k tr) None (cp_queue p k)" for k
  proof (cases "cp_queue p k")
    case (Some i)
    have "key_ok (cfg_MaxRetries (cp_sched p)) (attempts k tr) (ack_count k tr) (worker_of p k) (Some i)" "ci_RetryCount i = 0"
      using assms Some unfolding cmd_inv_def keys_ok_def by metis+
    then show ?thesis using Some none less_imp_le [OF withDefaults_pos(3) [of "cp_config p"]] by simp
  next
    case None
    have "key_ok (cfg_MaxRetries (cp_sched p)) (attempts k tr) (ack_count k tr) (worker_of p k) None"
      using assms None unfolding cmd_inv_def keys_ok_def by metis
    then show ?thesis using None by simp
  qed
  ultimately show ?thesis
    using assms none by (simp add: cmd_inv_def keys_ok_def Pipeline_Start_def del: key_ok.simps)
qed

lemma cmd_inv_frame:
  assumes "cmd_inv tr p" "cp_queue p' = cp_queue p" "cp_workers p' = cp_workers p" "cp_sched p' = cp_sched p"
    and "cp_loop p' = NotStarted \<Longrightarrow> cp_loop p = NotStarted" "\<And>j. \<not> begins j l" "\<And>j. \<not> acks j l"
    and "cp_sem p' = length (cp_workers p) + (if cp_loop p' = Holding then 1 else 0)"
    and "cp_sem p' \<le> nat (cfg_MaxConcurrent (cp_sched p))"
  shows "cmd_inv (tr @ [l]) p'"
  using keys_ok_frame [OF _ assms(2-7)] assms by (auto simp: cmd_inv_def tokens_ok_def)

lemma cmd_inv_worker_at:
  assumes "cmd_inv tr p" "n < length (cp_workers p)" "cp_workers p ! n = (k, pc)" "cp_queue p k = Some i"
  shows "worker_at p n k pc i"
  using assms by (auto simp: worker_at_def cmd_inv_def tokens_ok_def keys_ok_def queue_ok_def)

lemma SetAdapter_frame:
  "SetAdapter a p = (None, p') \<Longrightarrow> p' = p\<lparr>cp_adapter := Some a, cp_adapterName := a\<rparr>"
  by (auto simp: SetAdapter_def split: option.splits if_splits)

lemma loop_dequeue_None:
  "loop_dequeue ks p = (None, p') \<Longrightarrow> p' = (tick_cp p)\<lparr>cp_sem := cp_sem p - 1, cp_loop := Idle\<rparr>"
  by (auto simp: loop_dequeue_def split: prod.splits option.splits)

lemma cmd_step:
  assumes "pipe_step publish p l p'" "cmd_inv tr p"
  shows "cmd_inv (tr @ [l]) p'"
proof -
  note t = assms(2) [unfolded cmd_inv_def tokens_ok_def]
  from assms(1) show ?thesis
  proof (cases rule: pipe_step.cases)
    case (ps_send cmd prio k)
    obtain i where i: "p' = (tick_cp (tick_cp p))\<lparr>cp_queue := (cp_queue p)(k \<mapsto> i)\<rparr>"
      using Pipeline_Send_Some [OF ps_send(2,3)] by blast
    have "keys_ok (tr @ [l]) p'" using keys_ok_send [OF _ ps_send(2,3)] t ps_send(1) by blast
    then show ?thesis using i t by (simp add: cmd_inv_def tokens_ok_def tick_cp_def)
  next
    case (ps_cancel_check k)
    then show ?thesis using t by (intro cmd_inv_frame [OF assms(2)]) auto
  next
    case (ps_cancel_write k)
    have "keys_ok (tr @ [l]) p'" using keys_ok_cancel [OF _ ps_cancel_write(2)] t ps_cancel_write(1) by blast
    then show ?thesis using t ps_cancel_write by (simp add: cmd_inv_def tokens_ok_def cancel_write_def)
  next
    case (ps_adapter a)
    then show ?thesis using t SetAdapter_frame [of a p p'] by (intro cmd_inv_frame [OF assms(2)]) auto
  next
    case (ps_config c)
    then show ?thesis using t by (intro cmd_inv_frame [OF assms(2)]) (auto simp: SetSchedulerConfig_def)
  next
    case ps_start
    then show ?thesis using cmd_inv_start [OF assms(2)] by simp
  next
    case ps_stop
    then show ?thesis using t by (intro cmd_inv_frame [OF assms(2)]) (auto simp: Pipeline_Stop_def split: if_splits)
  next
    case ps_check
    then show ?thesis using t by (intro cmd_inv_frame [OF assms(2)]) auto
  next
    case ps_acquire
    then show ?thesis using t by (intro cmd_inv_frame [OF assms(2)]) auto
  next
    case (ps_dequeue ks i)
    have "keys_ok tr p" "tokens_ok p" using assms(2) by (simp_all add: cmd_inv_def)
    from loop_dequeue_Some [OF this(1) ps_dequeue(3,4) this(2) ps_dequeue(2)] show ?thesis by (simp add: ps_dequeue(1))
  next
    case (ps_idle ks)
    then show ?thesis
      using t loop_dequeue_None [OF ps_idle(4)] by (intro cmd_inv_frame [OF assms(2)]) (auto simp: tick_cp_def)
  next
    case ps_wake
    then show ?thesis using t by (intro cmd_inv_frame [OF assms(2)]) auto
  next
    case ps_exit
    then show ?thesis using t by (intro cmd_inv_frame [OF assms(2)]) auto
  next
    case (ps_begin n k i c)
    have w: "worker_at p n k Starting i" using ps_begin by (intro cmd_inv_worker_at [OF assms(2)])
    show ?thesis using ps_begin(1,2) by (intro cmd_inv_move [OF assms(2) w]) (auto intro: sendItem_moves [OF w])
  next
    case (ps_timeout n k i)
    have w: "worker_at p n k Awaiting i" using ps_timeout by (intro cmd_inv_worker_at [OF assms(2)])
    show ?thesis using ps_timeout(1,2) by (intro cmd_inv_move [OF assms(2) w]) (auto intro: send_timeout_moves [OF w])
  next
    case (ps_reply n k i us r)
    have w: "worker_at p n k Awaiting i" using ps_reply by (intro cmd_inv_worker_at [OF assms(2)])
    show ?thesis using ps_reply(1,2) by (intro cmd_inv_move [OF assms(2) w]) (auto intro: send_reply_moves [OF w])
  next
    case (ps_acked n k ack i c)
    have w: "worker_at p n k (Acking ack) i" using ps_acked by (intro cmd_inv_worker_at [OF assms(2)])
    show ?thesis using ps_acked(1,2) by (intro cmd_inv_move [OF assms(2) w]) (auto intro: send_acked_moves [OF w])
  next
    case (ps_elapsed n k i)
    have w: "worker_at p n k Backing i" using ps_elapsed by (intro cmd_inv_worker_at [OF assms(2)])
    show ?thesis using ps_elapsed(1,2) by (intro cmd_inv_move [OF assms(2) w]) (auto intro: backing_moves(2) [OF w])
  next
    case (ps_stopped n k i)
    have w: "worker_at p n k Backing i" using ps_stopped by (intro cmd_inv_worker_at [OF assms(2)])
    show ?thesis using ps_stopped(1,2) by (intro cmd_inv_move [OF assms(2) w]) (auto intro: backing_moves(1) [OF w])
  qed
qed

lemma cmd_run: "pipe_run publish p tr p' \<Longrightarrow> cmd_inv [] p \<Longrightarrow> cmd_inv tr p'"
  by (induction rule: pipe_run.induct) (auto intro: cmd_step)

lemma cmd_inv_new: "cmd_inv [] (NewPipeline mgr bus w)"
  by (simp add: cmd_inv_def tokens_ok_def keys_ok_def NewPipeline_def NewPriorityQueue_def queue_ok_def)

subsection \<open>Stopping\<close>

text \<open>The steps of the scheduler's own goroutines, as opposed to the callers'.\<close>

fun internal :: "pipe_label \<Rightarrow> bool" where
  "internal (Accepted k) = False" | "internal (CancelChecked k) = False" | "internal (CancelDone k) = False"
| "internal (AdapterSet a) = False" | "internal Configured = False" | "internal Started = False"
| "internal StopSignalled = False" | "internal _ = True"

text \<open>After the signal each of those steps uses up some of the work left.\<close>

fun pc_work :: "worker_pc \<Rightarrow> nat" where
  "pc_work Starting = 3" | "pc_work Awaiting = 2" | "pc_work Backing = 1" | "pc_work (Acking a) = 1"

fun loop_work :: "loop_pc \<Rightarrow> nat" where
  "loop_work NotStarted = 0" | "loop_work Returned = 0" | "loop_work Top = 1" | "loop_work Idle = 2"
| "loop_work Holding = 5" | "loop_work Acquiring = 6"

definition opt_work :: "worker_pc option \<Rightarrow> nat" where
  "opt_work w = (case w of None \<Rightarrow> 0 | Some pc \<Rightarrow> pc_work pc)"

definition work_left :: "'b Pipeline \<Rightarrow> nat" where
  "work_left p = loop_work (cp_loop p) + sum_list (map (\<lambda>x. pc_work (snd x)) (cp_workers p))"

lemma workers_sum:
  "distinct (map fst ws) \<Longrightarrow> finite A \<Longrightarrow> fst ` set ws \<subseteq> A \<Longrightarrow>
   sum_list (map (\<lambda>x. pc_work (snd x)) ws) = (\<Sum>k\<in>A. opt_work (map_of ws k))"
proof (induction ws)
  case Nil
  then show ?case by (simp add: opt_work_def)
next
  case (Cons x ws)
  obtain k pc where x: "x = (k, pc)" by fastforce
  have k: "k \<in> A" "map_of ws k = None" using Cons.prems x by (auto simp: map_of_eq_None_iff)
  have "(\<Sum>j\<in>A. opt_work (map_of (x # ws) j)) = pc_work pc + (\<Sum>j\<in>A - {k}. opt_work (map_of ws j))"
    using Cons.prems(2) k(1) by (subst sum.remove [of A k]) (auto simp: x opt_work_def intro!: sum.cong)
  also have "\<dots> = pc_work pc + (\<Sum>j\<in>A. opt_work (map_of ws j))"
    using sum.remove [OF Cons.prems(2) k(1), of "\<lambda>j. opt_work (map_of ws j)"] k(2) by (simp add: opt_work_def)
  also have "\<dots> = pc_work pc + sum_list (map (\<lambda>x. pc_work (snd x)) ws)"
    using Cons.IH Cons.prems by simp
  finally show ?case using x by simp
qed

lemma worker_change_work:
  assumes "worker_change p k w i p'" "distinct (map fst (cp_workers p))" "worker_of p k = Some pc" "opt_work w < pc_work pc"
  shows "work_left p' < work_left p"
proof -
  let ?A = "insert k (fst ` set (cp_workers p) \<union> fst ` set (cp_workers p'))"
  have fin: "finite ?A" by simp
  have p: "sum_list (map (\<lambda>x. pc_work (snd x)) (cp_workers p)) = (\<Sum>j\<in>?A. opt_work (worker_of p j))"
    using assms(2) by (intro workers_sum) auto
  have p': "sum_list (map (\<lambda>x. pc_work (snd x)) (cp_workers p')) = (\<Sum>j\<in>?A. opt_work (worker_of p' j))"
    using assms(1) by (intro workers_sum) (auto simp: worker_change_def)
  have "(\<Sum>j\<in>?A. opt_work (worker_of p' j)) < (\<Sum>j\<in>?A. opt_work (worker_of p j))"
    using assms(1,3,4) by (intro sum_strict_mono_ex1 [OF fin]) (auto simp: worker_change_def opt_work_def)
  then show ?thesis using assms(1) p p' by (simp add: work_left_def worker_change_def)
qed

lemma worker_move_work: "worker_move m i pc w i' \<Longrightarrow> opt_work w < pc_work pc"
  by (induction rule: worker_move.cases) (auto simp: opt_work_def)

lemma moves_work:
  assumes "cmd_inv tr p" "worker_at p n k pc i" "moves p k pc i p'"
  shows "work_left p' < work_left p \<and> cp_stopCh p' = cp_stopCh p"
proof -
  obtain w i' where m: "worker_move (cfg_MaxRetries (cp_sched p)) i pc w i'" "worker_change p k w i' p'"
    using assms(3) by blast
  have "worker_of p k = Some pc" using assms(2) unfolding worker_at_def by (metis map_of_eq_Some_iff nth_mem)
  moreover have "distinct (map fst (cp_workers p))" using assms(2) by (simp add: worker_at_def)
  ultimately show ?thesis
    using worker_change_work [OF m(2) _ _ worker_move_work [OF m(1)]] m(2) by (simp add: worker_change_def)
qed

lemma stop_step_work:
  assumes "pipe_step publish p l p'" "cmd_inv tr p" "internal l" "cp_stopCh p"
  shows "work_left p' < work_left p \<and> cp_stopCh p'"
  using assms(1)
proof (cases rule: pipe_step.cases)
  case (ps_dequeue ks i)
  then show ?thesis using assms(4) by (auto simp: loop_dequeue_def work_left_def tick_cp_def split: prod.splits option.splits)
next
  case (ps_idle ks)
  then show ?thesis using loop_dequeue_None [OF ps_idle(4)] assms(4) by (simp add: work_left_def tick_cp_def)
next
  case ps_exit
  then show ?thesis using assms(4) by (auto simp: work_left_def)
next
  case (ps_begin n k i c)
  have w: "worker_at p n k Starting i" using ps_begin by (intro cmd_inv_worker_at [OF assms(2)])
  show ?thesis using moves_work [OF assms(2) w sendItem_moves [OF w]] assms(4) ps_begin(2) by simp
next
  case (ps_timeout n k i)
  have w: "worker_at p n k Awaiting i" using ps_timeout by (intro cmd_inv_worker_at [OF assms(2)])
  show ?thesis using moves_work [OF assms(2) w send_timeout_moves [OF w]] assms(4) ps_timeout(2) by simp
next
  case (ps_reply n k i us r)
  have w: "worker_at p n k Awaiting i" using ps_reply by (intro cmd_inv_worker_at [OF assms(2)])
  show ?thesis using moves_work [OF assms(2) w send_reply_moves [OF w]] assms(4) ps_reply(2) by simp
next
  case (ps_acked n k ack i c)
  have w: "worker_at p n k (Acking ack) i" using ps_acked by (intro cmd_inv_worker_at [OF assms(2)])
  show ?thesis using moves_work [OF assms(2) w send_acked_moves [OF w]] assms(4) ps_acked(2) by simp
next
  case (ps_elapsed n k i)
  have w: "worker_at p n k Backing i" using ps_elapsed by (intro cmd_inv_worker_at [OF assms(2)])
  show ?thesis using moves_work [OF assms(2) w backing_moves(2) [OF w]] assms(4) ps_elapsed(2) by simp
next
  case (ps_stopped n k i)
  have w: "worker_at p n k Backing i" using ps_stopped by (intro cmd_inv_worker_at [OF assms(2)])
  show ?thesis using moves_work [OF assms(2) w backing_moves(1) [OF w]] assms(4) ps_stopped(2) by simp
qed (use assms(3,4) in \<open>auto simp: work_left_def\<close>)

lemma stop_run_work:
  assumes "pipe_run publish p tr' p'" "cmd_inv tr p" "list_all internal tr'" "cp_stopCh p"
  shows "length tr' + work_left p' \<le> work_left p \<and> cp_stopCh p' \<and> cmd_inv (tr @ tr') p'"
  using assms
proof (induction rule: pipe_run.induct)
  case (pr_step p tr' p1 l p2)
  then have ih: "length tr' + work_left p1 \<le> work_left p" "cp_stopCh p1" "cmd_inv (tr @ tr') p1" "internal l" by auto
  show ?case
    using stop_step_work [OF pr_step(2) ih(3,4,2)] cmd_step [OF pr_step(2) ih(3)] ih by simp
qed simp

lemma stop_progress:
  assumes "cmd_inv tr p" "cp_stopCh p" "cp_loop p \<notin> {NotStarted, Returned} \<or> cp_workers p \<noteq> []"
  shows "\<exists>l p'. internal l \<and> pipe_step publish p l p'"
proof (cases "cp_workers p = []")
  case False
  then obtain k pc where w: "0 < length (cp_workers p)" "cp_workers p ! 0 = (k, pc)" by (cases "cp_workers p") auto
  have "distinct (map fst (cp_workers p))" using assms(1) by (simp add: cmd_inv_def tokens_ok_def)
  then have wk: "worker_of p k = Some pc" using w by (metis map_of_eq_Some_iff nth_mem)
  obtain i where i: "cp_queue p k = Some i"
  proof (cases "cp_queue p k")
    case None
    have "key_ok (cfg_MaxRetries (cp_sched p)) (attempts k tr) (ack_count k tr) (worker_of p k) None"
      using assms(1) None unfolding cmd_inv_def keys_ok_def by metis
    then show ?thesis using wk by simp
  qed
  show ?thesis
  proof (cases pc)
    case Starting
    show ?thesis using ps_begin [OF w(1) w(2) [unfolded Starting] i] by (intro exI conjI) auto
  next
    case Awaiting
    show ?thesis using ps_timeout [OF w(1) w(2) [unfolded Awaiting] i] by (intro exI conjI) auto
  next
    case Backing
    show ?thesis using ps_stopped [OF w(1) w(2) [unfolded Backing] i assms(2)] by (intro exI conjI) auto
  next
    case (Acking ack)
    show ?thesis using ps_acked [OF w(1) w(2) [unfolded Acking] i] by (intro exI conjI) auto
  qed
next
  case True
  with assms(3) have l: "cp_loop p \<notin> {NotStarted, Returned}" by simp
  show ?thesis
  proof (cases "cp_loop p = Holding")
    case True
    have "finite (dom (cp_queue p))" using assms(1) by (simp add: cmd_inv_def keys_ok_def)
    then obtain ks where ks: "enumerates ks (cp_queue p)" by (metis enumerates_def finite_distinct_list)
    obtain o1 p1 where d: "loop_dequeue ks p = (o1, p1)" by fastforce
    show ?thesis
    proof (cases o1)
      case None
      show ?thesis using ps_idle [OF True ks d [unfolded None]] by (intro exI conjI) auto
    next
      case (Some i)
      show ?thesis using ps_dequeue [OF True ks d [unfolded Some]] by (intro exI conjI) auto
    qed
  next
    case False
    then have "cp_loop p \<in> {Top, Acquiring, Idle}" using l by (cases "cp_loop p") auto
    from ps_exit [OF this assms(2)] show ?thesis by (intro exI conjI) auto
  qed
qed

lemma sending_has_worker:
  assumes "cmd_inv tr p" "cp_queue p k = Some i" "ci_Status i = StatusSending"
  shows "worker_of p k \<noteq> None"
proof
  assume "worker_of p k = None"
  moreover have "key_ok (cfg_MaxRetries (cp_sched p)) (attempts k tr) (ack_count k tr) (worker_of p k) (Some i)"
    using assms unfolding cmd_inv_def keys_ok_def by metis
  ultimately show False using assms(3) by simp
qed

subsection \<open>Properties\<close>


definition quiet_bus :: "unit cmd_publisher" where
  "quiet_bus c w e b = (None, b)"

definition cmd_world :: world where
  "cmd_world = \<lparr>w_clock = (\<lambda>n. int n + 1), w_uuid = (\<lambda>n. replicate (Suc n) CHR ''u''), w_pos = 0\<rparr>"

definition demo_cmd :: Command where
  "demo_cmd = \<lparr>cmd_CommandID = ''c1'', cmd_SatelliteID = ''sat'', cmd_CommandType = ''point'', cmd_Parameters = None\<rparr>"

abbreviation cmd_pipe0 :: "unit Pipeline" where
  "cmd_pipe0 \<equiv> NewPipeline (Some [''mock'']) () cmd_world"

text \<open>A run that brings a queued command, an adapter and a token in the loop's hand.\<close>

lemma ready_run:
  "\<exists>p i. pipe_run quiet_bus cmd_pipe0 [AdapterSet ''mock'', Accepted ''c1'', Started, LoopChecked, Acquired] p \<and>
     cp_queue p = [''c1'' \<mapsto> i] \<and> item_id i = ''c1'' \<and> ci_Status i = StatusQueued \<and> ci_RetryCount i = 0 \<and>
     cp_loop p = Holding \<and> cp_workers p = [] \<and> cp_cancels p = [] \<and> cp_adapter p = Some ''mock'' \<and> \<not> cp_stopOnce p"
proof -
  let ?p0 = "cmd_pipe0"
  let ?p1 = "?p0\<lparr>cp_adapter := Some ''mock'', cp_adapterName := ''mock''\<rparr>"
  have s1: "pipe_step quiet_bus ?p0 (AdapterSet ''mock'') ?p1"
    by (rule ps_adapter) (simp add: SetAdapter_def NewPipeline_def)
  obtain v p2 where send: "Pipeline_Send demo_cmd 1 ?p1 = (v, p2)" by fastforce
  have v: "v = None"
    using send by (simp add: Pipeline_Send_def Let_def demo_cmd_def Command_Validate_def Enqueue_def NewPipeline_def
        tick_cp_def NewPriorityQueue_def)
  have key: "''c1'' = (if cmd_CommandID demo_cmd = [] then uuid_of (cp_world ?p1) else cmd_CommandID demo_cmd)"
    by (simp add: demo_cmd_def)
  obtain i where i: "p2 = (tick_cp (tick_cp ?p1))\<lparr>cp_queue := (cp_queue ?p1)(''c1'' \<mapsto> i)\<rparr>" "item_id i = ''c1''"
      "ci_Status i = StatusQueued" "ci_RetryCount i = 0"
    using Pipeline_Send_Some [OF send [unfolded v] key] by blast
  have s2: "pipe_step quiet_bus ?p1 (Accepted ''c1'') p2" by (rule ps_send [OF send [unfolded v] key])
  have l2: "cp_loop p2 = NotStarted" "cp_queue p2 = [''c1'' \<mapsto> i]" "cp_workers p2 = []" "cp_cancels p2 = []"
      "cp_adapter p2 = Some ''mock''" "\<not> cp_stopCh p2" "\<not> cp_stopOnce p2" "cp_sem p2 = 0"
    by (simp_all add: i(1) tick_cp_def NewPipeline_def NewPriorityQueue_def)
  have s3: "pipe_step quiet_bus p2 Started (Pipeline_Start p2)" by (rule ps_start [OF l2(1)])
  let ?p3 = "Pipeline_Start p2"
  let ?p4 = "?p3\<lparr>cp_loop := Acquiring\<rparr>"
  let ?p5 = "?p4\<lparr>cp_loop := Holding, cp_sem := Suc (cp_sem ?p4)\<rparr>"
  have s4: "pipe_step quiet_bus ?p3 LoopChecked ?p4" by (rule ps_check) (simp_all add: Pipeline_Start_def l2)
  have s5: "pipe_step quiet_bus ?p4 Acquired ?p5"
    using withDefaults_pos(1) [of "cp_config p2"] by (intro ps_acquire) (simp_all add: Pipeline_Start_def l2)
  have "pipe_run quiet_bus ?p0 [AdapterSet ''mock'', Accepted ''c1'', Started, LoopChecked, Acquired] ?p5"
    using pr_step [OF pr_step [OF pr_step [OF pr_step [OF pr_step [OF pr_empty s1] s2] s3] s4] s5] by simp
  then show ?thesis using l2 i(2-4) by (intro exI [of _ ?p5] exI [of _ i]) (simp add: Pipeline_Start_def)
qed


text \<open>C21: \<open>Stop\<close> returns: after its signal the scheduler's goroutines take at most \<open>work_left\<close> more steps,
  in any order; as long as the loop or a worker is alive one of them can step; and when all are
  done no command is left in the status sending.\<close>

theorem stop_terminates:
  assumes "pipe_run publish (NewPipeline mgr bus w) tr p" "cp_stopCh p"
    and "pipe_run publish p tr' p'" "list_all internal tr'"
  shows "length tr' \<le> work_left p \<and>
    ((\<exists>l q. internal l \<and> pipe_step publish p' l q) \<or>
     (cp_loop p' \<in> {NotStarted, Returned} \<and> cp_workers p' = [] \<and>
      (\<forall>k i. cp_queue p' k = Some i \<longrightarrow> ci_Status i \<noteq> StatusSending)))"
proof -
  have inv: "cmd_inv tr p" by (rule cmd_run [OF assms(1) cmd_inv_new])
  from stop_run_work [OF assms(3) inv assms(4,2)] have r: "length tr' \<le> work_left p" "cp_stopCh p'" "cmd_inv (tr @ tr') p'"
    by auto
  have "ci_Status i \<noteq> StatusSending" if "cp_workers p' = []" "cp_queue p' k = Some i" for k i
    using sending_has_worker [OF r(3) that(2)] that(1) by auto
  then show ?thesis using r(1) stop_progress [OF r(3,2)] by blast
qed

lemma stop_terminates_witness:
  "\<exists>tr p. pipe_run quiet_bus cmd_pipe0 tr p \<and> cp_stopCh p \<and> cp_queue p \<noteq> Map.empty \<and>
     (\<exists>l q. internal l \<and> pipe_step quiet_bus p l q)"
proof -
  let ?tr = "[AdapterSet ''mock'', Accepted ''c1'', Started, LoopChecked, Acquired]"
  obtain p i where p: "pipe_run quiet_bus cmd_pipe0 ?tr p" "cp_queue p = [''c1'' \<mapsto> i]" "cp_loop p = Holding"
      "\<not> cp_stopOnce p" using ready_run by metis
  let ?q = "Pipeline_Stop p"
  have run: "pipe_run quiet_bus cmd_pipe0 (?tr @ [StopSignalled]) ?q" by (rule pr_step [OF p(1) ps_stop [OF p(4)]])
  have q: "cp_stopCh ?q" "cp_loop ?q = Holding" "cp_queue ?q \<noteq> Map.empty" using p by (simp_all add: Pipeline_Stop_def)
  have "\<exists>l r. internal l \<and> pipe_step quiet_bus ?q l r"
    using stop_terminates [OF run q(1) pr_empty] q(2) by simp
  then show ?thesis using run q by blast
qed

text \<open>C38: \<open>Cancel\<close> checks the status and writes it in two separate steps, so the dispatcher can take the
  command in between: \<open>Cancel\<close> returns nil, the command is marked cancelled, and it is sent to
  the adapter all the same.\<close>

theorem cancelled_command_is_sent:
  "\<exists>tr p q r. pipe_run quiet_bus cmd_pipe0 (tr @ [CancelDone ''c1'']) p \<and>
     map_option ci_Status (cp_queue p ''c1'') = Some StatusCancelled \<and>
     pipe_run quiet_bus cmd_pipe0 (tr @ [CancelDone ''c1''] @ [Begun ''c1'' (Some ''mock'')]) q \<and>
     pipe_step quiet_bus q (Replied ''c1'' (Inr \<lparr>ack_Success = True, ack_Message = ''ok''\<rparr>)) r \<and>
     map_option ci_Status (cp_queue r ''c1'') = Some StatusAcked"
proof -
  let ?ack = "\<lparr>ack_Success = True, ack_Message = ''ok''\<rparr>"
  let ?tr = "[AdapterSet ''mock'', Accepted ''c1'', Started, LoopChecked, Acquired]"
  obtain p i where p: "pipe_run quiet_bus cmd_pipe0 ?tr p" "cp_queue p = [''c1'' \<mapsto> i]" "item_id i = ''c1''"
      "ci_Status i = StatusQueued" "ci_RetryCount i = 0" "cp_loop p = Holding" "cp_workers p = []" "cp_cancels p = []"
      "cp_adapter p = Some ''mock''"
    using ready_run by metis
  let ?p1 = "p\<lparr>cp_cancels := ''c1'' # cp_cancels p\<rparr>"
  have s1: "pipe_step quiet_bus p (CancelChecked ''c1'') ?p1"
    by (rule ps_cancel_check) (simp add: cancel_check_def Queue_Get_def p)
  let ?i = "i\<lparr>ci_Status := StatusSending, ci_SentAt := Some (now_of (cp_world p))\<rparr>"
  let ?p2 = "(tick_cp ?p1)\<lparr>cp_queue := [''c1'' \<mapsto> ?i], cp_workers := [(''c1'', Starting)], cp_loop := Top\<rparr>"
  have "loop_dequeue [''c1''] ?p1 = (Some ?i, ?p2)"
    by (simp add: loop_dequeue_def Dequeue_def queue_items_def p Let_def)
  moreover have "enumerates [''c1''] (cp_queue ?p1)" by (simp add: enumerates_def p)
  ultimately have s2: "pipe_step quiet_bus ?p1 (Dequeued ''c1'') ?p2"
    using ps_dequeue [of ?p1 "[''c1'']" ?i ?p2] p(3,6) by simp
  let ?p3 = "cancel_write ''c1'' (?p2\<lparr>cp_cancels := remove1 ''c1'' (cp_cancels ?p2)\<rparr>)"
  have s3: "pipe_step quiet_bus ?p2 (CancelDone ''c1'') ?p3"
    by (rule ps_cancel_write) (simp add: tick_cp_def)
  let ?c = "?i\<lparr>ci_Status := StatusCancelled\<rparr>"
  have p3: "cp_queue ?p3 = [''c1'' \<mapsto> ?c]" "cp_workers ?p3 = [(''c1'', Starting)]" "cp_adapter ?p3 = Some ''mock''"
    by (simp_all add: cancel_write_def upd_item_def tick_cp_def p)
  have run3: "pipe_run quiet_bus cmd_pipe0 ((?tr @ [CancelChecked ''c1'', Dequeued ''c1'']) @ [CancelDone ''c1'']) ?p3"
    using pr_step [OF pr_step [OF pr_step [OF p(1) s1] s2] s3] by simp
  let ?q = "sendItem quiet_bus background 0 ?c ?p3"
  have s4: "pipe_step quiet_bus ?p3 (Begun ''c1'' (Some ''mock'')) ?q"
    using ps_begin [of 0 ?p3 "''c1''" ?c quiet_bus background] p3 by simp
  note run4 = pr_step [OF run3 s4]
  have core: "same_core ?p3 (snd (publishCommandSent quiet_bus background (ci_Command ?c) ?p3))"
    by (simp add: publishCommandSent_def same_core_publish)
  have q: "cp_queue ?q = [''c1'' \<mapsto> ?c]" "cp_workers ?q = [(''c1'', Awaiting)]"
    using core p3 by (simp_all add: sendItem_def Let_def same_core_def move_worker_def tick_cp_def)
  let ?r = "send_reply 0 (Inr ?ack) 0 ?c ?q"
  have s5: "pipe_step quiet_bus ?q (Replied ''c1'' (Inr ?ack)) ?r"
    using q by (intro ps_reply) simp_all
  have "map_option ci_Status (cp_queue ?r ''c1'') = Some StatusAcked"
    using q p(3) by (simp add: send_reply_def Let_def move_worker_def write_item_def upd_item_def tick_cp_def)
  then show ?thesis
    using run3 run4 s5 p3(1)
    by (intro exI [of _ "?tr @ [CancelChecked ''c1'', Dequeued ''c1'']"] exI [of _ ?p3] exI [of _ ?q] exI [of _ ?r]) simp
qed

text \<open>C39: The wait before retry \<open>n\<close> is \<open>RetryBackoff\<close> doubled \<open>n\<close> - 1 times as long as that fits in 63
  bits; with the default of two seconds the 34th is negative, so the pipeline stops backing off.\<close>

theorem backoff_doubles_until_overflow:
  "(\<forall>base n. 0 < base \<and> base * 2 ^ (n - 1) < 2 ^ 63 \<longrightarrow> retry_backoff base n = base * 2 ^ (n - 1)) \<and>
   retry_backoff (cfg_RetryBackoff (withDefaults zero_config)) 34 < 0"
proof -
  have "retry_backoff base n = base * 2 ^ (n - 1)" if "0 < base" "base * 2 ^ (n - 1) < 2 ^ 63" for base n
  proof -
    have w: "word_of_int base * push_bit (n - 1) (1 :: 64 word) = word_of_int (base * 2 ^ (n - 1))"
      by (simp add: push_bit_eq_mult)
    have "- (2 ^ 63) \<le> base * 2 ^ (n - 1)" using that(1) by (smt (verit) mult_nonneg_nonneg zero_le_power)
    then have "signed_take_bit 63 (base * 2 ^ (n - 1)) = base * 2 ^ (n - 1)"
      using that(2) by (intro signed_take_bit_int_eq_self) simp_all
    then have "sint (word_of_int (base * 2 ^ (n - 1)) :: 64 word) = base * 2 ^ (n - 1)"
      using sint_sbintrunc' [where 'a = 64, of "base * 2 ^ (n - 1)"] by (simp del: of_int_mult)
    then show ?thesis by (simp add: retry_backoff_def w)
  qed
  moreover have "retry_backoff (cfg_RetryBackoff (withDefaults zero_config)) 34 < 0"
    by (simp add: retry_backoff_def withDefaults_def zero_config_def)
  ultimately show ?thesis by blast
qed

lemma backoff_doubles_until_overflow_witness: "retry_backoff (2 * second) 3 = 8 * second"
  using backoff_doubles_until_overflow by simp

text \<open>An acknowledgement without a message is never announced: its \<open>CommandAcked\<close> event lacks a
  required field, so the default registry refuses it and the publication fails.\<close>

theorem silent_ack_not_published:
  assumes "lb_registry (cp_bus p) = NewSchemaRegistry"
    and "publishCommandAcked (LocalBus_Publish app) c cmd \<lparr>ack_Success = True, ack_Message = []\<rparr> p = (v, p')"
  shows "v \<noteq> None \<and> cp_bus p' = cp_bus p"
proof -
  have pv: "payload_value (CommandAckedPayload k success []) =
      GStruct [(''commandId'', GStr k), (''success'', GBool success), (''message'', GStr [])]" for k success
    by (simp add: payload_value_def defaultPayloads_def struct_value_def tag_eval)
  have bad: "Registry_Validate NewSchemaRegistry (Some e) \<noteq> None"
    if "e_EventType e = EventCommandAcked" "e_Payload e = Some ws" "map_of ws ''message'' = Some (GStr [])" for e ws
    using that by (auto simp: Registry_Validate_iff NewSchemaRegistry_schemas defaultPayloads_def extractFields_plain
        plain_field_def tag_eval carries_def isEmptyValue_def)
  have p': "publishCommandAcked (LocalBus_Publish app) c cmd \<lparr>ack_Success = True, ack_Message = []\<rparr> p =
      (let e1 = (command_event (cp_world p) EventCommandAcked cmd)\<lparr>e_Payload := Some
           [(''commandId'', GStr (cmd_CommandID cmd)), (''success'', GBool True), (''message'', GStr [])]\<rparr>;
           p1 = tick_cp (tick_cp p)
       in case LocalBus_Publish app c (cp_world p1) (Some e1) (cp_bus p1) of
            (v, bus') \<Rightarrow> (v, tick_cp (p1\<lparr>cp_bus := bus'\<rparr>)))"
    by (simp add: publishCommandAcked_def publish_payload_def pv SetPayload_def Let_def)
  let ?e = "with_trace c ((command_event (cp_world p) EventCommandAcked cmd)\<lparr>e_Payload := Some
           [(''commandId'', GStr (cmd_CommandID cmd)), (''success'', GBool True), (''message'', GStr [])]\<rparr>)"
  have "e_EventType ?e = EventCommandAcked" "e_Payload ?e = Some
           [(''commandId'', GStr (cmd_CommandID cmd)), (''success'', GBool True), (''message'', GStr [])]"
    by (simp_all add: with_trace_def command_event_def Let_def)
  then obtain err where "Registry_Validate NewSchemaRegistry (Some ?e) = Some err"
    using bad [of ?e] by fastforce
  then have "\<exists>err. LocalBus_Publish app c w (Some ((command_event (cp_world p) EventCommandAcked cmd)\<lparr>e_Payload := Some
           [(''commandId'', GStr (cmd_CommandID cmd)), (''success'', GBool True), (''message'', GStr [])]\<rparr>)) (cp_bus p) =
      (Some err, cp_bus p)" for w
    using assms(1) by (simp add: LocalBus_Publish_def)
  then obtain err where "LocalBus_Publish app c (cp_world (tick_cp (tick_cp p)))
      (Some ((command_event (cp_world p) EventCommandAcked cmd)\<lparr>e_Payload := Some
           [(''commandId'', GStr (cmd_CommandID cmd)), (''success'', GBool True), (''message'', GStr [])]\<rparr>)) (cp_bus p) =
      (Some err, cp_bus p)" by blast
  then have "v = Some err" "cp_bus p' = cp_bus p"
    using assms(2) by (auto simp: p' Let_def tick_cp_def)
  then show ?thesis by simp
qed

lemma silent_ack_not_published_witness:
  "\<exists>v p'. publishCommandAcked (LocalBus_Publish Mem_Append) background demo_cmd \<lparr>ack_Success = True, ack_Message = []\<rparr>
      (NewPipeline None demo_bus cmd_world) = (v, p') \<and> v \<noteq> None"
proof -
  let ?p = "NewPipeline None demo_bus cmd_world"
  have r: "lb_registry (cp_bus ?p) = NewSchemaRegistry"
    by (simp add: NewPipeline_def demo_bus_def NewLocalBus_def)
  obtain v p' where p: "publishCommandAcked (LocalBus_Publish Mem_Append) background demo_cmd
      \<lparr>ack_Success = True, ack_Message = []\<rparr> ?p = (v, p')" by fastforce
  from silent_ack_not_published [OF r p] p show ?thesis by blast
qed

end
