(* ===== verification/UserStore.thy ===== *)
theory UserStore
  imports SqlTables
begin

text \<open>
  \<open>internal/auth/store.go\<close> and \<open>roles.go\<close>: users, their table and the built-in roles. The user table
  has two keys, \<open>user_id\<close> and \<open>username\<close>. It is shown to be a keyed repository whose conflicts are
  the user names another user holds.
\<close>

subsection \<open>Roles\<close>

definition admin_permissions :: "string list" where
  "admin_permissions = [''node.create'', ''node.read'', ''node.update'', ''node.delete'', ''relationship.create'',
     ''relationship.delete'', ''graph.query'', ''event.publish'', ''event.subscribe'', ''event.replay'',
     ''command.send'', ''plugin.manage'', ''user.manage'']"

definition operator_permissions :: "string list" where
  "operator_permissions = [''node.create'', ''node.read'', ''node.update'', ''relationship.create'', ''graph.query'',
     ''event.publish'', ''event.subscribe'', ''event.replay'', ''command.send'']"

definition viewer_permissions :: "string list" where
  "viewer_permissions = [''node.read'', ''graph.query'', ''event.subscribe'', ''event.replay'']"

abbreviation "RoleAdmin \<equiv> ''admin''"
abbreviation "RoleOperator \<equiv> ''operator''"

definition DefaultRoles :: "string \<rightharpoonup> string list" where
  "DefaultRoles = [RoleAdmin \<mapsto> admin_permissions, RoleOperator \<mapsto> operator_permissions,
     ''viewer'' \<mapsto> viewer_permissions]"

fun HasPermission :: "string list \<Rightarrow> string \<Rightarrow> bool" where
  "HasPermission [] perm = False"
| "HasPermission (r # rs) perm =
     (case DefaultRoles r of
        None \<Rightarrow> HasPermission rs perm
      | Some ps \<Rightarrow> if perm \<in> set ps then True else HasPermission rs perm)"

lemma HasPermission_iff:
  "HasPermission roles perm \<longleftrightarrow> (\<exists>r\<in>set roles. \<exists>ps. DefaultRoles r = Some ps \<and> perm \<in> set ps)"
  by (induction roles) (auto split: option.splits)

subsection \<open>Role lists as JSON\<close>

definition marshalRoles :: "string list \<Rightarrow> json_text" where
  "marshalRoles roles = JText (GList (map GStr roles))"

fun role_strings :: "goval list \<Rightarrow> string list res" where
  "role_strings [] = Inr []"
| "role_strings (GStr s # vs) = (case role_strings vs of Inl e \<Rightarrow> Inl e | Inr ss \<Rightarrow> Inr (s # ss))"
| "role_strings (GNil # vs) = (case role_strings vs of Inl e \<Rightarrow> Inl e | Inr ss \<Rightarrow> Inr ([] # ss))"
| "role_strings (v # vs) = Inl (External ''json: cannot unmarshal into string'')"

definition unmarshalRoles :: "json_text \<Rightarrow> string list res" where
  "unmarshalRoles s =
     (case s of
        JEmpty \<Rightarrow> Inr []
      | JText GNil \<Rightarrow> Inr []
      | JText (GList vs) \<Rightarrow> (case role_strings vs of Inl e \<Rightarrow> Inl (Wrap ''unmarshal roles'' e) | Inr rs \<Rightarrow> Inr rs)
      | JText _ \<Rightarrow> Inl (Wrap ''unmarshal roles'' (External ''json: cannot unmarshal'')))"

lemma roles_roundtrip [simp]: "unmarshalRoles (marshalRoles roles) = Inr roles"
proof -
  have "role_strings (map GStr roles) = Inr roles" by (induction roles) auto
  then show ?thesis by (simp add: unmarshalRoles_def marshalRoles_def)
qed

subsection \<open>State\<close>

record User =
  u_UserID :: string
  u_Username :: string
  u_Password :: string
  u_Roles :: "string list"
  u_CommunityID :: string
  u_CreatedAt :: time
  u_UpdatedAt :: time

record user_row =
  ur_user_id :: string
  ur_username :: string
  ur_password :: string
  ur_roles :: json_text
  ur_community_id :: string
  ur_created_at :: string
  ur_updated_at :: string

record userdb = driver +
  users :: "user_row list"

definition user_row_of :: "User \<Rightarrow> user_row" where
  "user_row_of u = \<lparr>ur_user_id = u_UserID u, ur_username = u_Username u, ur_password = u_Password u,
     ur_roles = marshalRoles (u_Roles u), ur_community_id = u_CommunityID u,
     ur_created_at = fmt_time (u_CreatedAt u), ur_updated_at = fmt_time (u_UpdatedAt u)\<rparr>"

definition set_user_row :: "User \<Rightarrow> user_row \<Rightarrow> user_row" where
  "set_user_row u r = r\<lparr>ur_username := u_Username u, ur_password := u_Password u, ur_roles := marshalRoles (u_Roles u),
     ur_community_id := u_CommunityID u, ur_updated_at := fmt_time (u_UpdatedAt u)\<rparr>"

definition scanUser :: "user_row \<Rightarrow> User res" where
  "scanUser r =
     (case parse_time (ur_created_at r) of
        None \<Rightarrow> Inl (Wrap ''parse createdAt'' (External ''time: cannot parse''))
      | Some created \<Rightarrow>
        (case parse_time (ur_updated_at r) of
           None \<Rightarrow> Inl (Wrap ''parse updatedAt'' (External ''time: cannot parse''))
         | Some updated \<Rightarrow>
           (case unmarshalRoles (ur_roles r) of
              Inl e \<Rightarrow> Inl e
            | Inr roles \<Rightarrow> Inr
               \<lparr>u_UserID = ur_user_id r, u_Username = ur_username r, u_Password = ur_password r, u_Roles = roles,
                u_CommunityID = ur_community_id r, u_CreatedAt = created, u_UpdatedAt = updated\<rparr>)))"

subsection \<open>Operations\<close>

text \<open>The table's two uniqueness constraints.\<close>

definition insert_user_row :: "user_row \<Rightarrow> user_row list \<Rightarrow> user_row list res" where
  "insert_user_row r tbl =
     (if ur_username r \<in> ur_username ` set tbl then Inl (External ''UNIQUE constraint failed: users.username'')
      else sql_insert ur_user_id r tbl)"

definition update_user_row :: "User \<Rightarrow> user_row list \<Rightarrow> user_row list res" where
  "update_user_row u tbl =
     (let p = (\<lambda>r. ur_user_id r = u_UserID u)
      in if sql_count p tbl \<noteq> 0 \<and> (\<exists>r\<in>set tbl. \<not> p r \<and> ur_username r = u_Username u)
         then Inl (External ''UNIQUE constraint failed: users.username'')
         else Inr (sql_update p (set_user_row u) tbl))"

definition user_missing :: "string \<Rightarrow> err" where
  "user_missing k = Wrap (''userId='' @ k) (Sentinel ErrUserNotFound)"

definition User_Create :: "ctx \<Rightarrow> User option \<Rightarrow> userdb \<Rightarrow> verdict \<times> userdb" where
  "User_Create c user db =
     (case user of
        None \<Rightarrow> (Some (Errorf ''user is nil''), db)
      | Some u \<Rightarrow>
        (case ctx_err c of
           Some e \<Rightarrow> (Some e, db)
         | None \<Rightarrow>
           (case next_fault db of
              Some e \<Rightarrow> (Some (Wrap ''insert user'' e), consume db)
            | None \<Rightarrow>
              (case insert_user_row (user_row_of u) (users db) of
                 Inl e \<Rightarrow> (Some (Wrap ''insert user'' e), consume db)
               | Inr tbl \<Rightarrow> (None, (consume db)\<lparr>users := tbl\<rparr>)))))"

text \<open>A query for one row: \<open>scanUser\<close> maps \<open>sql.ErrNoRows\<close> to \<open>ErrUserNotFound\<close>.\<close>

definition query_user :: "ctx \<Rightarrow> (user_row list \<Rightarrow> user_row option) \<Rightarrow> userdb \<Rightarrow> User res \<times> userdb" where
  "query_user c q db =
     (case ctx_err c of
        Some e \<Rightarrow> (Inl e, db)
      | None \<Rightarrow>
        (case next_fault db of
           Some e \<Rightarrow> (Inl (Wrap ''scan user row'' e), consume db)
         | None \<Rightarrow>
           (case q (users db) of
              None \<Rightarrow> (Inl (Sentinel ErrUserNotFound), consume db)
            | Some r \<Rightarrow> (scanUser r, consume db))))"

definition User_GetByID :: "ctx \<Rightarrow> string \<Rightarrow> userdb \<Rightarrow> User res \<times> userdb" where
  "User_GetByID c k = query_user c (\<lambda>tbl. row_of ur_user_id tbl k)"

definition User_GetByUsername :: "ctx \<Rightarrow> string \<Rightarrow> userdb \<Rightarrow> User res \<times> userdb" where
  "User_GetByUsername c name = query_user c (\<lambda>tbl. row_of ur_username tbl name)"

definition User_List :: "ctx \<Rightarrow> userdb \<Rightarrow> User list res \<times> userdb" where
  "User_List c db =
     (case ctx_err c of
        Some e \<Rightarrow> (Inl e, db)
      | None \<Rightarrow>
        (case next_fault db of
           Some e \<Rightarrow> (Inl (Wrap ''list users'' e), consume db)
         | None \<Rightarrow>
           (case scan_rows scanUser (sort_key (\<lambda>r. (ur_created_at r, ur_user_id r)) (users db)) of
              Inl e \<Rightarrow> (Inl (Wrap ''scan user row'' e), consume db)
            | Inr us \<Rightarrow>
              (case next_fault (consume db) of
                 Some e \<Rightarrow> (Inl (Wrap ''iterate users'' e), consume (consume db))
               | None \<Rightarrow> (Inr us, consume (consume db))))))"

definition User_Update :: "ctx \<Rightarrow> User option \<Rightarrow> userdb \<Rightarrow> verdict \<times> userdb" where
  "User_Update c user db =
     (case user of
        None \<Rightarrow> (Some (Errorf ''user is nil''), db)
      | Some u \<Rightarrow>
        (case ctx_err c of
           Some e \<Rightarrow> (Some e, db)
         | None \<Rightarrow>
           (case next_fault db of
              Some e \<Rightarrow> (Some (Wrap ''update user'' e), consume db)
            | None \<Rightarrow>
              (case update_user_row u (users db) of
                 Inl e \<Rightarrow> (Some (Wrap ''update user'' e), consume db)
               | Inr tbl \<Rightarrow>
                 (let db' = (consume db)\<lparr>users := tbl\<rparr>
                  in if sql_count (\<lambda>r. ur_user_id r = u_UserID u) (users db) = 0
                     then (Some (user_missing (u_UserID u)), db') else (None, db'))))))"

definition User_Delete :: "ctx \<Rightarrow> string \<Rightarrow> userdb \<Rightarrow> verdict \<times> userdb" where
  "User_Delete c k db =
     (case ctx_err c of
        Some e \<Rightarrow> (Some e, db)
      | None \<Rightarrow>
        (case next_fault db of
           Some e \<Rightarrow> (Some (Wrap ''delete user'' e), consume db)
         | None \<Rightarrow> (None, (consume db)\<lparr>users := sql_delete (\<lambda>r. ur_user_id r = k) (users db)\<rparr>)))"

subsection \<open>The user table is a keyed repository\<close>

definition user_times_ok :: "User \<Rightarrow> bool" where
  "user_times_ok u \<longleftrightarrow> 0 \<le> u_CreatedAt u \<and> u_CreatedAt u < year_10000 \<and> 0 \<le> u_UpdatedAt u \<and> u_UpdatedAt u < year_10000"

definition well_users :: "userdb \<Rightarrow> bool" where
  "well_users db \<longleftrightarrow> distinct (map ur_user_id (users db)) \<and> distinct (map ur_username (users db)) \<and>
     scans scanUser (users db)"

definition calm_users :: "userdb \<Rightarrow> bool" where
  "calm_users db \<longleftrightarrow> faults db = [] \<and> well_users db"

definition user_view :: "userdb \<Rightarrow> string \<rightharpoonup> User" where
  "user_view db = view ur_user_id scanUser (users db)"

definition merged_user :: "User \<Rightarrow> User \<Rightarrow> User" where
  "merged_user old u = u\<lparr>u_CreatedAt := u_CreatedAt old\<rparr>"

definition name_taken :: "(string \<rightharpoonup> User) \<Rightarrow> User \<Rightarrow> bool" where
  "name_taken m u \<longleftrightarrow> (\<exists>k w. m k = Some w \<and> k \<noteq> u_UserID u \<and> u_Username w = u_Username u)"

lemma user_row_simps [simp]:
  "ur_user_id (user_row_of u) = u_UserID u" "ur_username (user_row_of u) = u_Username u"
  "ur_user_id (set_user_row u r) = ur_user_id r" "ur_username (set_user_row u r) = u_Username u"
  by (simp_all add: user_row_of_def set_user_row_def)

lemma scanUser_row_of: "user_times_ok u \<Longrightarrow> scanUser (user_row_of u) = Inr u"
  by (simp add: scanUser_def user_row_of_def user_times_ok_def parse_fmt_time)

lemma scanUser_set_row:
  "user_times_ok u \<Longrightarrow> scanUser r = Inr old \<Longrightarrow> u_UserID u = ur_user_id r \<Longrightarrow>
   scanUser (set_user_row u r) = Inr (merged_user old u)"
  by (auto simp: scanUser_def set_user_row_def user_times_ok_def parse_fmt_time merged_user_def
      split: option.splits sum.splits)

lemma scanUser_keys: "scanUser r = Inr u \<Longrightarrow> u_UserID u = ur_user_id r \<and> u_Username u = ur_username r"
  by (auto simp: scanUser_def split: option.splits sum.splits)

lemma calm_users_simps: "calm_users db \<Longrightarrow> next_fault db = None" "calm_users db \<Longrightarrow> consume db = db"
  by (simp_all add: calm_users_def)

lemma user_view_new: "user_view db k = None \<longleftrightarrow> k \<notin> ur_user_id ` set (users db)"
  by (simp add: user_view_def view_None)

lemma user_view_row:
  assumes "well_users db" "r \<in> set (users db)"
  shows "user_view db (ur_user_id r) = Some (scanned scanUser r)" "scanUser r = Inr (scanned scanUser r)"
proof -
  show s: "scanUser r = Inr (scanned scanUser r)" using assms scans_scanned by (metis well_users_def)
  have "row_of ur_user_id (users db) (ur_user_id r) \<noteq> None"
    using assms by (auto simp: row_of_None simp del: not_None_eq)
  then obtain q where q: "row_of ur_user_id (users db) (ur_user_id r) = Some q" by blast
  then have "q = r" using assms row_of_SomeD [OF q] distinct_map_inj by (metis well_users_def)
  then show "user_view db (ur_user_id r) = Some (scanned scanUser r)" using q by (simp add: user_view_def view_def)
qed

lemma user_view_Some:
  assumes "well_users db" "user_view db k = Some u"
  obtains r where "r \<in> set (users db)" "row_of ur_user_id (users db) k = Some r" "ur_user_id r = k" "scanUser r = Inr u"
  using assms view_SomeD [of ur_user_id scanUser "users db" k u]
  by (auto simp: user_view_def well_users_def scans_scanned)

lemma name_taken_rows:
  assumes "well_users db"
  shows "name_taken (user_view db) u \<longleftrightarrow> (\<exists>r\<in>set (users db). ur_user_id r \<noteq> u_UserID u \<and> ur_username r = u_Username u)"
proof
  assume "name_taken (user_view db) u"
  then obtain k w where kw: "user_view db k = Some w" "k \<noteq> u_UserID u" "u_Username w = u_Username u"
    by (auto simp: name_taken_def)
  obtain r where "r \<in> set (users db)" "ur_user_id r = k" "scanUser r = Inr w" using user_view_Some [OF assms kw(1)] by blast
  then show "\<exists>r\<in>set (users db). ur_user_id r \<noteq> u_UserID u \<and> ur_username r = u_Username u"
    using kw scanUser_keys by metis
next
  assume "\<exists>r\<in>set (users db). ur_user_id r \<noteq> u_UserID u \<and> ur_username r = u_Username u"
  then obtain r where r: "r \<in> set (users db)" "ur_user_id r \<noteq> u_UserID u" "ur_username r = u_Username u" by blast
  show "name_taken (user_view db) u"
    using user_view_row [OF assms r(1)] r scanUser_keys unfolding name_taken_def by metis
qed

lemma User_Create_new:
  assumes s: "calm_users s" and c: "ctx_err c = None" and u: "user_times_ok u"
    and new: "user_view s (u_UserID u) = None" "\<not> name_taken (user_view s) u"
  shows "\<exists>s'. User_Create c (Some u) s = (None, s') \<and> calm_users s' \<and> user_view s' = (user_view s)(u_UserID u \<mapsto> u)"
proof -
  have well: "well_users s" using s by (simp add: calm_users_def)
  have id: "u_UserID u \<notin> ur_user_id ` set (users s)" using new(1) by (simp add: user_view_new)
  then have name: "u_Username u \<notin> ur_username ` set (users s)"
    using new(2) unfolding name_taken_rows [OF well] by (metis (no_types, lifting) imageE image_eqI)
  have ins: "insert_user_row (user_row_of u) (users s) = Inr (users s @ [user_row_of u])"
    using id name by (simp add: insert_user_row_def sql_insert_Inr)
  have "well_users (s\<lparr>users := users s @ [user_row_of u]\<rparr>)"
    using well id name scanUser_row_of [OF u] by (auto simp: well_users_def)
  then have "calm_users (s\<lparr>users := users s @ [user_row_of u]\<rparr>)" using s by (simp add: calm_users_def)
  then show ?thesis
    using c ins id calm_users_simps [OF s] scanUser_row_of [OF u]
      view_insert [of ur_user_id "user_row_of u" "users s" scanUser u]
    by (simp add: User_Create_def user_view_def)
qed

lemma User_Create_dup:
  assumes "calm_users s" "ctx_err c = None" "user_view s (u_UserID u) \<noteq> None \<or> name_taken (user_view s) u"
  shows "\<exists>e. User_Create c (Some u) s = (Some e, s)"
proof -
  have well: "well_users s" using assms(1) by (simp add: calm_users_def)
  have "u_UserID u \<in> ur_user_id ` set (users s) \<or> u_Username u \<in> ur_username ` set (users s)"
    using assms(3) unfolding name_taken_rows [OF well] user_view_new by force
  then have "\<exists>e. insert_user_row (user_row_of u) (users s) = Inl e"
    by (auto simp: insert_user_row_def sql_insert_def)
  then show ?thesis using assms(2) calm_users_simps [OF assms(1)] by (auto simp: User_Create_def)
qed

lemma query_user_found:
  assumes "calm_users s" "ctx_err c = None" "user_view s k = Some u"
  shows "User_GetByID c k s = (Inr u, s)"
proof -
  have "well_users s" using assms(1) by (simp add: calm_users_def)
  then obtain r where "row_of ur_user_id (users s) k = Some r" "scanUser r = Inr u"
    using user_view_Some [OF _ assms(3)] by blast
  then show ?thesis using assms(2) calm_users_simps [OF assms(1)] by (simp add: User_GetByID_def query_user_def)
qed

lemma query_user_missing:
  assumes "calm_users s" "ctx_err c = None" "user_view s k = None"
  shows "User_GetByID c k s = (Inl (Sentinel ErrUserNotFound), s)"
  using assms calm_users_simps [of s] by (simp add: User_GetByID_def query_user_def user_view_def view_def)

text \<open>Looking up a name finds the user that holds it.\<close>

lemma GetByUsername_calm:
  assumes "calm_users s" "ctx_err c = None"
  shows "User_GetByUsername c name s = (Inr u, s') \<longleftrightarrow>
      s' = s \<and> u_Username u = name \<and> user_view s (u_UserID u) = Some u"
    "(\<forall>k u. user_view s k = Some u \<longrightarrow> u_Username u \<noteq> name) \<Longrightarrow>
      User_GetByUsername c name s = (Inl (Sentinel ErrUserNotFound), s)"
proof -
  have well: "well_users s" using assms(1) by (simp add: calm_users_def)
  note calm = calm_users_simps [OF assms(1)]
  show "(\<forall>k u. user_view s k = Some u \<longrightarrow> u_Username u \<noteq> name) \<Longrightarrow>
      User_GetByUsername c name s = (Inl (Sentinel ErrUserNotFound), s)"
  proof -
    assume none: "\<forall>k u. user_view s k = Some u \<longrightarrow> u_Username u \<noteq> name"
    have "row_of ur_username (users s) name = None"
    proof (rule ccontr)
      assume "row_of ur_username (users s) name \<noteq> None"
      then obtain r where r: "r \<in> set (users s)" "ur_username r = name" using row_of_SomeD by fast
      show False using none user_view_row [OF well r(1)] r(2) scanUser_keys by metis
    qed
    then show ?thesis using assms(2) calm by (simp add: User_GetByUsername_def query_user_def)
  qed
  show "User_GetByUsername c name s = (Inr u, s') \<longleftrightarrow>
      s' = s \<and> u_Username u = name \<and> user_view s (u_UserID u) = Some u"
  proof (cases "row_of ur_username (users s) name")
    case None
    then have no: "name \<notin> ur_username ` set (users s)" by (simp add: row_of_None)
    have "\<not> (u_Username u = name \<and> user_view s (u_UserID u) = Some u)"
    proof
      assume "u_Username u = name \<and> user_view s (u_UserID u) = Some u"
      then obtain r where "r \<in> set (users s)" "scanUser r = Inr u" using user_view_Some [OF well] by metis
      then show False using no scanUser_keys \<open>u_Username u = name \<and> _\<close> by (metis imageI)
    qed
    then show ?thesis using None assms(2) calm by (auto simp: User_GetByUsername_def query_user_def)
  next
    case (Some r)
    have r: "r \<in> set (users s)" "ur_username r = name" using row_of_SomeD [OF Some] by simp_all
    have res: "User_GetByUsername c name s = (Inr (scanned scanUser r), s)"
      using Some assms(2) calm user_view_row(2) [OF well r(1)] by (simp add: User_GetByUsername_def query_user_def)
    have keys: "u_UserID (scanned scanUser r) = ur_user_id r" "u_Username (scanned scanUser r) = name"
      using scanUser_keys [OF user_view_row(2) [OF well r(1)]] r(2) by simp_all
    show ?thesis
    proof
      assume "User_GetByUsername c name s = (Inr u, s')"
      then show "s' = s \<and> u_Username u = name \<and> user_view s (u_UserID u) = Some u"
        using res keys user_view_row(1) [OF well r(1)] by auto
    next
      assume u: "s' = s \<and> u_Username u = name \<and> user_view s (u_UserID u) = Some u"
      obtain q where q: "q \<in> set (users s)" "ur_user_id q = u_UserID u" "scanUser q = Inr u"
        using user_view_Some [OF well] u by metis
      have "ur_username q = name" using scanUser_keys [OF q(3)] u by simp
      then have "q = r" using distinct_map_inj [of ur_username "users s" q r] well q(1) r by (simp add: well_users_def)
      then show "User_GetByUsername c name s = (Inr u, s')" using res u q(3) by (simp add: scanned_eq)
    qed
  qed
qed

lemma User_Update_found:
  assumes s: "calm_users s" and c: "ctx_err c = None" and u: "user_times_ok u"
    and old: "user_view s (u_UserID u) = Some w" and free: "\<not> name_taken (user_view s) u"
  shows "\<exists>s'. User_Update c (Some u) s = (None, s') \<and> calm_users s' \<and>
    user_view s' = (user_view s)(u_UserID u \<mapsto> merged_user w u)"
proof -
  have well: "well_users s" using s by (simp add: calm_users_def)
  obtain r where r: "r \<in> set (users s)" "row_of ur_user_id (users s) (u_UserID u) = Some r"
      "ur_user_id r = u_UserID u" "scanUser r = Inr w" using user_view_Some [OF well old] by blast
  let ?p = "\<lambda>r. ur_user_id r = u_UserID u"
  let ?tbl = "sql_update ?p (set_user_row u) (users s)"
  have n: "sql_count ?p (users s) \<noteq> 0" using r(2) by (simp add: sql_count_key)
  have names: "\<forall>q\<in>set (users s). ?p q \<or> ur_username q \<noteq> u_Username u"
    using free name_taken_rows [OF well] by blast
  have up: "update_user_row u (users s) = Inr ?tbl"
    using names by (auto simp: update_user_row_def Let_def)
  have "scans scanUser ?tbl"
  proof (rule scans_update)
    show "scans scanUser (users s)" using well by (simp add: well_users_def)
    fix q assume q: "q \<in> set (users s)" "?p q"
    show "is_ok (scanUser (set_user_row u q))"
      using scanUser_set_row [OF u user_view_row(2) [OF well q(1)]] q(2) by simp
  qed
  moreover have "distinct (map ur_username ?tbl)"
  proof -
    have d: "distinct (map ur_username (users s))" "distinct (map ur_user_id (users s))" using well by (simp_all add: well_users_def)
    have "map ur_username ?tbl = map (\<lambda>q. if ?p q then u_Username u else ur_username q) (users s)"
      by (simp add: sql_update_def)
    moreover have "inj_on (\<lambda>q. if ?p q then u_Username u else ur_username q) (set (users s))"
    proof (rule inj_onI)
      fix x y
      assume xy: "x \<in> set (users s)" "y \<in> set (users s)"
        "(if ?p x then u_Username u else ur_username x) = (if ?p y then u_Username u else ur_username y)"
      show "x = y"
      proof (cases "?p x")
        case True
        then have "?p y" using xy names by (metis (full_types))
        then show ?thesis using distinct_map_inj [OF d(2) xy(1,2)] True by simp
      next
        case False
        then have "\<not> ?p y" using xy names by (metis (full_types))
        then show ?thesis using distinct_map_inj [OF d(1) xy(1,2)] False xy(3) by simp
      qed
    qed
    ultimately show ?thesis using d(1) by (simp add: distinct_map)
  qed
  ultimately have "calm_users (s\<lparr>users := ?tbl\<rparr>)"
    using s by (simp add: calm_users_def well_users_def sql_update_keys)
  moreover have "view ur_user_id scanUser ?tbl = (view ur_user_id scanUser (users s))(u_UserID u \<mapsto> merged_user w u)"
    using scanUser_set_row [OF u r(4)] r(2,3) by (intro view_update) simp_all
  ultimately show ?thesis
    using c n up calm_users_simps [OF s] by (simp add: User_Update_def Let_def user_view_def)
qed

lemma User_Update_taken:
  assumes "calm_users s" "ctx_err c = None" "user_view s (u_UserID u) \<noteq> None" "name_taken (user_view s) u"
  shows "\<exists>e. User_Update c (Some u) s = (Some e, s)"
proof -
  have well: "well_users s" using assms(1) by (simp add: calm_users_def)
  have "sql_count (\<lambda>r. ur_user_id r = u_UserID u) (users s) \<noteq> 0"
    using assms(3) by (auto simp: sql_count_key user_view_def view_def)
  moreover have "\<exists>r\<in>set (users s). ur_user_id r \<noteq> u_UserID u \<and> ur_username r = u_Username u"
    using assms(4) name_taken_rows [OF well] by blast
  ultimately have "\<exists>e. update_user_row u (users s) = Inl e" by (simp add: update_user_row_def Let_def)
  then show ?thesis using assms(2) calm_users_simps [OF assms(1)] by (auto simp: User_Update_def)
qed

lemma User_Update_missing:
  assumes "calm_users s" "ctx_err c = None" "user_view s (u_UserID u) = None"
  shows "User_Update c (Some u) s = (Some (user_missing (u_UserID u)), s)"
proof -
  have new: "u_UserID u \<notin> ur_user_id ` set (users s)" using assms(3) by (simp add: user_view_new)
  then have "sql_update (\<lambda>r. ur_user_id r = u_UserID u) f (users s) = users s" for f by (rule sql_update_absent)
  moreover have "sql_count (\<lambda>r. ur_user_id r = u_UserID u) (users s) = 0"
    using new unfolding sql_count_zero by (metis imageI)
  ultimately show ?thesis
    using assms(2) calm_users_simps [OF assms(1)] by (simp add: User_Update_def update_user_row_def Let_def)
qed

lemma User_Delete_ok:
  assumes "calm_users s" "ctx_err c = None"
  shows "\<exists>s'. User_Delete c k s = (None, s') \<and> calm_users s' \<and> user_view s' = (user_view s)(k := None)"
  using assms calm_users_simps [OF assms(1)]
  by (auto simp: User_Delete_def user_view_def view_delete calm_users_def well_users_def sql_delete_distinct scans_delete)

interpretation user_store: keyed_repo
  "\<lambda>c u. User_Create c (Some u)" User_GetByID "\<lambda>c u. User_Update c (Some u)" User_Delete
  u_UserID calm_users user_view "\<lambda>u. u" merged_user user_times_ok name_taken ErrUserNotFound
  by unfold_locales
    (auto simp: query_user_found query_user_missing User_Update_missing user_missing_def
      intro: User_Create_new User_Create_dup User_Update_found User_Update_taken User_Delete_ok
      simp del: not_None_eq)

subsection \<open>Properties\<close>

definition alice :: User where
  "alice = \<lparr>u_UserID = ''u1'', u_Username = ''alice'', u_Password = ''h'', u_Roles = [RoleAdmin], u_CommunityID = ''c1'',
     u_CreatedAt = 63918460800000000000, u_UpdatedAt = 63918460800000000000\<rparr>"

definition empty_userdb :: userdb where
  "empty_userdb = \<lparr>faults = [], users = []\<rparr>"

lemma calm_empty_userdb: "calm_users empty_userdb" "user_view empty_userdb = Map.empty"
  by (auto simp: calm_users_def well_users_def scans_def empty_userdb_def user_view_def view_def row_of_def)

lemma alice_times: "user_times_ok alice" "user_times_ok (alice\<lparr>u_UserID := k\<rparr>)" "user_times_ok (alice\<lparr>u_Username := n\<rparr>)"
  by (simp_all add: user_times_ok_def alice_def year_10000_def)

text \<open>C39: Whatever sequence of creates, updates and deletes the user table with a healthy driver is given,
  each call succeeds exactly when it does on a map from user ids to users that also keeps user
  names unique; \<open>GetByID\<close> reads that map and \<open>GetByUsername\<close> finds the one user with the name.\<close>

theorem user_runs_refine_map:
  assumes "calm_users db" "ctx_err c = None" "\<forall>p\<in>set ps. op_admits user_times_ok p"
  shows "\<exists>db'. run_map (repo_exec (\<lambda>c u. User_Create c (Some u)) (\<lambda>c u. User_Update c (Some u)) User_Delete c) ps db =
      (fst (run_map (map_op u_UserID (\<lambda>u. u) merged_user name_taken) ps (user_view db)), db') \<and>
    calm_users db' \<and> user_view db' = snd (run_map (map_op u_UserID (\<lambda>u. u) merged_user name_taken) ps (user_view db)) \<and>
    (\<forall>k. fst (User_GetByID c k db') =
       (case user_view db' k of Some u \<Rightarrow> Inr u | None \<Rightarrow> Inl (Sentinel ErrUserNotFound))) \<and>
    (\<forall>name u. fst (User_GetByUsername c name db') = Inr u \<longleftrightarrow>
       u_Username u = name \<and> user_view db' (u_UserID u) = Some u)"
proof -
  obtain db' where db': "run_map (repo_exec (\<lambda>c u. User_Create c (Some u)) (\<lambda>c u. User_Update c (Some u)) User_Delete c) ps db =
      (fst (run_map (map_op u_UserID (\<lambda>u. u) merged_user name_taken) ps (user_view db)), db')"
    "calm_users db'" "user_view db' = snd (run_map (map_op u_UserID (\<lambda>u. u) merged_user name_taken) ps (user_view db))"
    using user_store.run_refines [OF assms] by blast
  have "fst (User_GetByID c k db') =
       (case user_view db' k of Some u \<Rightarrow> Inr u | None \<Rightarrow> Inl (Sentinel ErrUserNotFound))" for k
    using query_user_found [OF db'(2) assms(2), of k] query_user_missing [OF db'(2) assms(2), of k]
    by (cases "user_view db' k") simp_all
  moreover have "fst (User_GetByUsername c name db') = Inr u \<longleftrightarrow>
       u_Username u = name \<and> user_view db' (u_UserID u) = Some u" for name u
    using GetByUsername_calm(1) [OF db'(2) assms(2), of name u "snd (User_GetByUsername c name db')"]
      GetByUsername_calm(1) [OF db'(2) assms(2), of name u db']
    by (cases "User_GetByUsername c name db'") auto
  ultimately show ?thesis using db' by blast
qed

lemma user_runs_refine_map_witness:
  "\<exists>db'. run_map (repo_exec (\<lambda>c u. User_Create c (Some u)) (\<lambda>c u. User_Update c (Some u)) User_Delete background)
      [OpCreate alice, OpCreate (alice\<lparr>u_UserID := ''u2''\<rparr>), OpUpdate (alice\<lparr>u_Username := ''bob''\<rparr>),
       OpCreate (alice\<lparr>u_UserID := ''u2''\<rparr>)] empty_userdb = ([True, False, True, True], db') \<and>
    fst (User_GetByUsername background ''alice'' db') = Inr (alice\<lparr>u_UserID := ''u2''\<rparr>)"
proof -
  let ?ps = "[OpCreate alice, OpCreate (alice\<lparr>u_UserID := ''u2''\<rparr>), OpUpdate (alice\<lparr>u_Username := ''bob''\<rparr>),
       OpCreate (alice\<lparr>u_UserID := ''u2''\<rparr>)]"
  let ?bob = "alice\<lparr>u_Username := ''bob''\<rparr>"
  have ids: "u_UserID alice = ''u1''" "u_Username alice = ''alice''" by (simp_all add: alice_def)
  have m: "merged_user alice ?bob = ?bob" by (simp add: merged_user_def)
  have nt: "\<not> name_taken Map.empty alice" "name_taken [''u1'' \<mapsto> alice] (alice\<lparr>u_UserID := ''u2''\<rparr>)"
      "\<not> name_taken [''u1'' \<mapsto> alice] ?bob" "\<not> name_taken [''u1'' \<mapsto> ?bob] (alice\<lparr>u_UserID := ''u2''\<rparr>)"
    by (auto simp: name_taken_def ids)
  have run: "run_map (map_op u_UserID (\<lambda>u. u) merged_user name_taken) ?ps Map.empty =
      ([True, False, True, True], [''u1'' \<mapsto> ?bob, ''u2'' \<mapsto> alice\<lparr>u_UserID := ''u2''\<rparr>])"
    using nt m by (simp add: ids)
  have "ctx_err background = None" "\<forall>p\<in>set ?ps. op_admits user_times_ok p"
    by (simp_all add: background_def alice_times)
  from user_runs_refine_map [OF calm_empty_userdb(1) this] show ?thesis
    unfolding calm_empty_userdb(2) run by (elim exE conjE, intro exI conjI) (assumption | simp add: ids)+
qed

text \<open>The built-in roles are nested: what a viewer may do an operator may, what an operator may do an
  admin may; an unknown role grants nothing; and only an admin may delete nodes or
  relationships and manage plugins or users.\<close>

theorem roles_nested:
  "(\<forall>roles p. HasPermission roles p \<longleftrightarrow> (\<exists>r\<in>set roles. HasPermission [r] p)) \<and>
   (\<forall>p. HasPermission [''viewer''] p \<longrightarrow> HasPermission [RoleOperator] p) \<and>
   (\<forall>p. HasPermission [RoleOperator] p \<longrightarrow> HasPermission [RoleAdmin] p) \<and>
   (\<forall>roles p. set roles \<inter> {RoleAdmin, RoleOperator, ''viewer''} = {} \<longrightarrow> \<not> HasPermission roles p) \<and>
   (\<forall>roles p. p \<in> {''node.delete'', ''relationship.delete'', ''plugin.manage'', ''user.manage''} \<longrightarrow>
      (HasPermission roles p \<longleftrightarrow> RoleAdmin \<in> set roles))"
proof -
  have d: "DefaultRoles r = Some ps \<longleftrightarrow> (r = RoleAdmin \<and> ps = admin_permissions) \<or>
      (r = RoleOperator \<and> ps = operator_permissions) \<or> (r = ''viewer'' \<and> ps = viewer_permissions)" for r ps
    by (auto simp: DefaultRoles_def)
  have h: "HasPermission roles p \<longleftrightarrow> (RoleAdmin \<in> set roles \<and> p \<in> set admin_permissions) \<or>
      (RoleOperator \<in> set roles \<and> p \<in> set operator_permissions) \<or> (''viewer'' \<in> set roles \<and> p \<in> set viewer_permissions)" for roles p
    unfolding HasPermission_iff d by blast
  have sub: "set viewer_permissions \<subseteq> set operator_permissions" "set operator_permissions \<subseteq> set admin_permissions"
    by (simp_all add: viewer_permissions_def operator_permissions_def admin_permissions_def)
  have only: "\<forall>p\<in>{''node.delete'', ''relationship.delete'', ''plugin.manage'', ''user.manage''}.
      p \<in> set admin_permissions \<and> p \<notin> set operator_permissions"
    by (simp add: admin_permissions_def operator_permissions_def)
  have a: "\<forall>roles p. HasPermission roles p \<longleftrightarrow> (\<exists>r\<in>set roles. HasPermission [r] p)"
    unfolding HasPermission_iff by simp
  have b: "\<forall>p. HasPermission [''viewer''] p \<longrightarrow> HasPermission [RoleOperator] p"
      "\<forall>p. HasPermission [RoleOperator] p \<longrightarrow> HasPermission [RoleAdmin] p"
    unfolding h using sub by auto
  have c: "\<forall>roles p. set roles \<inter> {RoleAdmin, RoleOperator, ''viewer''} = {} \<longrightarrow> \<not> HasPermission roles p"
  proof (intro allI impI)
    fix roles p assume "set roles \<inter> {RoleAdmin, RoleOperator, ''viewer''} = {}"
    then have "RoleAdmin \<notin> set roles" "RoleOperator \<notin> set roles" "''viewer'' \<notin> set roles" by blast+
    then show "\<not> HasPermission roles p" by (simp only: h simp_thms)
  qed
  have e: "\<forall>roles p. p \<in> {''node.delete'', ''relationship.delete'', ''plugin.manage'', ''user.manage''} \<longrightarrow>
      (HasPermission roles p \<longleftrightarrow> RoleAdmin \<in> set roles)"
  proof (intro allI impI)
    fix roles p assume "p \<in> {''node.delete'', ''relationship.delete'', ''plugin.manage'', ''user.manage''}"
    then have "p \<in> set admin_permissions" "p \<notin> set operator_permissions" using only by (metis (no_types))+
    moreover from this have "p \<notin> set viewer_permissions" using sub(1) by (metis subsetD)
    ultimately show "HasPermission roles p \<longleftrightarrow> RoleAdmin \<in> set roles" by (simp only: h simp_thms)
  qed
  show ?thesis using a b c e by (intro conjI)
qed

lemma roles_nested_witness: "HasPermission [''viewer''] ''node.read'' \<and> HasPermission [RoleOperator] ''node.read'' \<and>
    \<not> HasPermission [RoleOperator, ''viewer''] ''user.manage''"
proof -
  have v: "HasPermission [''viewer''] ''node.read''" by (simp add: DefaultRoles_def viewer_permissions_def)
  note n = roles_nested [THEN conjunct2, THEN conjunct1]
  have o: "HasPermission [RoleOperator] ''node.read''" by (rule n [rule_format, OF v])
  have "\<not> HasPermission [RoleOperator, ''viewer''] ''user.manage''"
    by (simp add: DefaultRoles_def viewer_permissions_def operator_permissions_def)
  with v o show ?thesis by (intro conjI)
qed

end
