(* ===== verification/ClientStore.thy ===== *)
theory ClientStore
  imports UserStore
begin

text \<open>
  \<open>internal/auth/client_store.go\<close>: machine clients and their table, again a keyed repository.
\<close>

subsection \<open>State\<close>

record Client =
  c_ClientID :: string
  c_Name :: string
  c_ModuleName :: string
  c_CommunityID :: string
  c_Roles :: "string list"
  c_APIKeyHash :: string
  c_Status :: string
  c_CreatedAt :: time
  c_UpdatedAt :: time

abbreviation "ClientStatusActive \<equiv> ''active''"
abbreviation "ClientStatusRevoked \<equiv> ''revoked''"

record client_row =
  cr_client_id :: string
  cr_name :: string
  cr_module_name :: string
  cr_community_id :: string
  cr_roles :: json_text
  cr_api_key_hash :: string
  cr_status :: string
  cr_created_at :: string
  cr_updated_at :: string

record clientdb = driver +
  clients :: "client_row list"

definition client_row_of :: "Client \<Rightarrow> client_row" where
  "client_row_of c = \<lparr>cr_client_id = c_ClientID c, cr_name = c_Name c, cr_module_name = c_ModuleName c,
     cr_community_id = c_CommunityID c, cr_roles = marshalRoles (c_Roles c), cr_api_key_hash = c_APIKeyHash c,
     cr_status = c_Status c, cr_created_at = fmt_time (c_CreatedAt c), cr_updated_at = fmt_time (c_UpdatedAt c)\<rparr>"

definition set_client_row :: "Client \<Rightarrow> client_row \<Rightarrow> client_row" where
  "set_client_row c r = r\<lparr>cr_name := c_Name c, cr_module_name := c_ModuleName c, cr_community_id := c_CommunityID c,
     cr_roles := marshalRoles (c_Roles c), cr_api_key_hash := c_APIKeyHash c, cr_status := c_Status c,
     cr_updated_at := fmt_time (c_UpdatedAt c)\<rparr>"

definition scanClient :: "client_row \<Rightarrow> Client res" where
  "scanClient r =
     (case parse_time (cr_created_at r) of
        None \<Rightarrow> Inl (Wrap ''parse createdAt'' (External ''time: cannot parse''))
      | Some created \<Rightarrow>
        (case parse_time (cr_updated_at r) of
           None \<Rightarrow> Inl (Wrap ''parse updatedAt'' (External ''time: cannot parse''))
         | Some updated \<Rightarrow>
           (case unmarshalRoles (cr_roles r) of
              Inl e \<Rightarrow> Inl e
            | Inr roles \<Rightarrow> Inr
               \<lparr>c_ClientID = cr_client_id r, c_Name = cr_name r, c_ModuleName = cr_module_name r,
                c_CommunityID = cr_community_id r, c_Roles = roles, c_APIKeyHash = cr_api_key_hash r,
                c_Status = cr_status r, c_CreatedAt = created, c_UpdatedAt = updated\<rparr>)))"

subsection \<open>Operations\<close>

definition client_missing :: "string \<Rightarrow> err" where
  "client_missing k = Wrap (''clientId='' @ k) (Sentinel ErrClientNotFound)"

definition Client_Create :: "ctx \<Rightarrow> Client option \<Rightarrow> clientdb \<Rightarrow> verdict \<times> clientdb" where
  "Client_Create cx client db =
     (case client of
        None \<Rightarrow> (Some (Errorf ''client is nil''), db)
      | Some c \<Rightarrow>
        (if c_ClientID c = [] then (Some (Errorf ''clientId is empty''), db)
         else case ctx_err cx of
           Some e \<Rightarrow> (Some e, db)
         | None \<Rightarrow>
           (case next_fault db of
              Some e \<Rightarrow> (Some (Wrap ''insert client'' e), consume db)
            | None \<Rightarrow>
              (case sql_insert cr_client_id (client_row_of c) (clients db) of
                 Inl e \<Rightarrow> (Some (Wrap ''insert client'' e), consume db)
               | Inr tbl \<Rightarrow> (None, (consume db)\<lparr>clients := tbl\<rparr>)))))"

definition Client_GetByID :: "ctx \<Rightarrow> string \<Rightarrow> clientdb \<Rightarrow> Client res \<times> clientdb" where
  "Client_GetByID cx k db =
     (case ctx_err cx of
        Some e \<Rightarrow> (Inl e, db)
      | None \<Rightarrow>
        (case next_fault db of
           Some e \<Rightarrow> (Inl (Wrap ''scan client row'' e), consume db)
         | None \<Rightarrow>
           (case row_of cr_client_id (clients db) k of
              None \<Rightarrow> (Inl (Sentinel ErrClientNotFound), consume db)
            | Some r \<Rightarrow> (scanClient r, consume db))))"

definition client_order :: "client_row list \<Rightarrow> client_row list" where
  "client_order tbl = sort_key (\<lambda>r. (cr_created_at r, cr_client_id r)) tbl"

definition Client_List :: "ctx \<Rightarrow> clientdb \<Rightarrow> Client list res \<times> clientdb" where
  "Client_List cx db =
     (case ctx_err cx of
        Some e \<Rightarrow> (Inl e, db)
      | None \<Rightarrow>
        (case next_fault db of
           Some e \<Rightarrow> (Inl (Wrap ''list clients'' e), consume db)
         | None \<Rightarrow>
           (case scan_rows scanClient (client_order (clients db)) of
              Inl e \<Rightarrow> (Inl (Wrap ''scan client row'' e), consume db)
            | Inr cs \<Rightarrow>
              (case next_fault (consume db) of
                 Some e \<Rightarrow> (Inl (Wrap ''iterate clients'' e), consume (consume db))
               | None \<Rightarrow> (Inr cs, consume (consume db))))))"

definition Client_Update :: "ctx \<Rightarrow> Client option \<Rightarrow> clientdb \<Rightarrow> verdict \<times> clientdb" where
  "Client_Update cx client db =
     (case client of
        None \<Rightarrow> (Some (Errorf ''client is nil''), db)
      | Some c \<Rightarrow>
        (case ctx_err cx of
           Some e \<Rightarrow> (Some e, db)
         | None \<Rightarrow>
           (case next_fault db of
              Some e \<Rightarrow> (Some (Wrap ''update client'' e), consume db)
            | None \<Rightarrow>
              (let p = (\<lambda>r. cr_client_id r = c_ClientID c);
                   db' = (consume db)\<lparr>clients := sql_update p (set_client_row c) (clients db)\<rparr>
               in if sql_count p (clients db) = 0 then (Some (client_missing (c_ClientID c)), db') else (None, db')))))"

definition Client_Delete :: "ctx \<Rightarrow> string \<Rightarrow> clientdb \<Rightarrow> verdict \<times> clientdb" where
  "Client_Delete cx k db =
     (case ctx_err cx of
        Some e \<Rightarrow> (Some e, db)
      | None \<Rightarrow>
        (case next_fault db of
           Some e \<Rightarrow> (Some (Wrap ''delete client'' e), consume db)
         | None \<Rightarrow> (None, (consume db)\<lparr>clients := sql_delete (\<lambda>r. cr_client_id r = k) (clients db)\<rparr>)))"

subsection \<open>The client table is a keyed repository\<close>

definition storable_client :: "Client \<Rightarrow> bool" where
  "storable_client c \<longleftrightarrow> c_ClientID c \<noteq> [] \<and> 0 \<le> c_CreatedAt c \<and> c_CreatedAt c < year_10000 \<and>
     0 \<le> c_UpdatedAt c \<and> c_UpdatedAt c < year_10000"

definition well_clients :: "clientdb \<Rightarrow> bool" where
  "well_clients db \<longleftrightarrow> distinct (map cr_client_id (clients db)) \<and> scans scanClient (clients db)"

definition calm_clients :: "clientdb \<Rightarrow> bool" where
  "calm_clients db \<longleftrightarrow> faults db = [] \<and> well_clients db"

definition client_view :: "clientdb \<Rightarrow> string \<rightharpoonup> Client" where
  "client_view db = view cr_client_id scanClient (clients db)"

definition merged_client :: "Client \<Rightarrow> Client \<Rightarrow> Client" where
  "merged_client old c = c\<lparr>c_CreatedAt := c_CreatedAt old\<rparr>"

abbreviation no_client_conflict :: "(string \<rightharpoonup> Client) \<Rightarrow> Client \<Rightarrow> bool" where
  "no_client_conflict m c \<equiv> False"

lemma client_row_simps [simp]:
  "cr_client_id (client_row_of c) = c_ClientID c" "cr_client_id (set_client_row c r) = cr_client_id r"
  by (simp_all add: client_row_of_def set_client_row_def)

lemma scanClient_row_of: "storable_client c \<Longrightarrow> scanClient (client_row_of c) = Inr c"
  by (simp add: scanClient_def client_row_of_def storable_client_def parse_fmt_time)

lemma scanClient_set_row:
  "storable_client c \<Longrightarrow> scanClient r = Inr old \<Longrightarrow> c_ClientID c = cr_client_id r \<Longrightarrow>
   scanClient (set_client_row c r) = Inr (merged_client old c)"
  by (auto simp: scanClient_def set_client_row_def storable_client_def parse_fmt_time merged_client_def
      split: option.splits sum.splits)

lemma scanClient_id: "scanClient r = Inr c \<Longrightarrow> c_ClientID c = cr_client_id r"
  by (auto simp: scanClient_def split: option.splits sum.splits)

lemma calm_clients_simps: "calm_clients db \<Longrightarrow> next_fault db = None" "calm_clients db \<Longrightarrow> consume db = db"
  by (simp_all add: calm_clients_def)

lemma client_view_new: "client_view db k = None \<longleftrightarrow> k \<notin> cr_client_id ` set (clients db)"
  by (simp add: client_view_def view_None)

lemma client_view_row:
  assumes "well_clients db" "r \<in> set (clients db)"
  shows "client_view db (cr_client_id r) = Some (scanned scanClient r)" "scanClient r = Inr (scanned scanClient r)"
proof -
  show s: "scanClient r = Inr (scanned scanClient r)" using assms scans_scanned by (metis well_clients_def)
  have "row_of cr_client_id (clients db) (cr_client_id r) \<noteq> None"
    using assms by (auto simp: row_of_None simp del: not_None_eq)
  then obtain q where q: "row_of cr_client_id (clients db) (cr_client_id r) = Some q" by blast
  then have "q = r" using assms row_of_SomeD [OF q] distinct_map_inj by (metis well_clients_def)
  then show "client_view db (cr_client_id r) = Some (scanned scanClient r)" using q by (simp add: client_view_def view_def)
qed

lemma client_view_Some:
  assumes "well_clients db" "client_view db k = Some c"
  obtains r where "r \<in> set (clients db)" "row_of cr_client_id (clients db) k = Some r" "cr_client_id r = k"
    "scanClient r = Inr c"
  using assms view_SomeD [of cr_client_id scanClient "clients db" k c]
  by (auto simp: client_view_def well_clients_def scans_scanned)

lemma Client_Create_new:
  assumes s: "calm_clients s" and c: "ctx_err cx = None" and v: "storable_client v"
    and new: "client_view s (c_ClientID v) = None"
  shows "\<exists>s'. Client_Create cx (Some v) s = (None, s') \<and> calm_clients s' \<and>
    client_view s' = (client_view s)(c_ClientID v \<mapsto> v)"
proof -
  have id: "c_ClientID v \<notin> cr_client_id ` set (clients s)" using new by (simp add: client_view_new)
  have "well_clients (s\<lparr>clients := clients s @ [client_row_of v]\<rparr>)"
    using s id scanClient_row_of [OF v] by (auto simp: calm_clients_def well_clients_def)
  then have "calm_clients (s\<lparr>clients := clients s @ [client_row_of v]\<rparr>)" using s by (simp add: calm_clients_def)
  then show ?thesis
    using c v id calm_clients_simps [OF s] scanClient_row_of [OF v]
      view_insert [of cr_client_id "client_row_of v" "clients s" scanClient v]
    by (auto simp: Client_Create_def client_view_def sql_insert_def storable_client_def)
qed

lemma Client_Create_dup:
  assumes "calm_clients s" "ctx_err cx = None" "client_view s (c_ClientID v) \<noteq> None"
  shows "\<exists>e. Client_Create cx (Some v) s = (Some e, s)"
  using assms calm_clients_simps [of s]
  by (auto simp: Client_Create_def sql_insert_def client_view_new simp del: not_None_eq)

lemma Client_Get_found:
  assumes "calm_clients s" "ctx_err cx = None" "client_view s k = Some v"
  shows "Client_GetByID cx k s = (Inr v, s)"
  using assms calm_clients_simps [of s] by (auto simp: Client_GetByID_def calm_clients_def elim: client_view_Some)

lemma Client_Get_missing:
  assumes "calm_clients s" "ctx_err cx = None" "client_view s k = None"
  shows "Client_GetByID cx k s = (Inl (Sentinel ErrClientNotFound), s)"
  using assms calm_clients_simps [of s] by (simp add: Client_GetByID_def client_view_def view_def)

lemma Client_Update_found:
  assumes s: "calm_clients s" and c: "ctx_err cx = None" and v: "storable_client v"
    and old: "client_view s (c_ClientID v) = Some w"
  shows "\<exists>s'. Client_Update cx (Some v) s = (None, s') \<and> calm_clients s' \<and>
    client_view s' = (client_view s)(c_ClientID v \<mapsto> merged_client w v)"
proof -
  have well: "well_clients s" using s by (simp add: calm_clients_def)
  obtain r where r: "r \<in> set (clients s)" "row_of cr_client_id (clients s) (c_ClientID v) = Some r"
      "cr_client_id r = c_ClientID v" "scanClient r = Inr w" using client_view_Some [OF well old] by blast
  let ?tbl = "sql_update (\<lambda>r. cr_client_id r = c_ClientID v) (set_client_row v) (clients s)"
  have n: "sql_count (\<lambda>r. cr_client_id r = c_ClientID v) (clients s) \<noteq> 0" using r(2) by (simp add: sql_count_key)
  have "scans scanClient ?tbl"
  proof (rule scans_update)
    show "scans scanClient (clients s)" using well by (simp add: well_clients_def)
    fix q assume q: "q \<in> set (clients s)" "cr_client_id q = c_ClientID v"
    show "is_ok (scanClient (set_client_row v q))"
      using scanClient_set_row [OF v client_view_row(2) [OF well q(1)]] q(2) by simp
  qed
  then have "calm_clients (s\<lparr>clients := ?tbl\<rparr>)"
    using s by (simp add: calm_clients_def well_clients_def sql_update_keys)
  moreover have "view cr_client_id scanClient ?tbl = (view cr_client_id scanClient (clients s))(c_ClientID v \<mapsto> merged_client w v)"
    using scanClient_set_row [OF v r(4)] r(2,3) by (intro view_update) simp_all
  ultimately show ?thesis
    using c n calm_clients_simps [OF s] by (simp add: Client_Update_def Let_def client_view_def)
qed

lemma Client_Update_missing:
  assumes "calm_clients s" "ctx_err cx = None" "client_view s (c_ClientID v) = None"
  shows "Client_Update cx (Some v) s = (Some (client_missing (c_ClientID v)), s)"
proof -
  have new: "c_ClientID v \<notin> cr_client_id ` set (clients s)" using assms(3) by (simp add: client_view_new)
  then have "sql_update (\<lambda>r. cr_client_id r = c_ClientID v) f (clients s) = clients s" for f by (rule sql_update_absent)
  moreover have "sql_count (\<lambda>r. cr_client_id r = c_ClientID v) (clients s) = 0"
    using new unfolding sql_count_zero by (metis imageI)
  ultimately show ?thesis
    using assms(2) calm_clients_simps [OF assms(1)] by (simp add: Client_Update_def Let_def)
qed

lemma Client_Delete_ok:
  assumes "calm_clients s" "ctx_err cx = None"
  shows "\<exists>s'. Client_Delete cx k s = (None, s') \<and> calm_clients s' \<and> client_view s' = (client_view s)(k := None)"
  using assms calm_clients_simps [OF assms(1)]
  by (auto simp: Client_Delete_def client_view_def view_delete calm_clients_def well_clients_def sql_delete_distinct
      scans_delete)

interpretation client_store: keyed_repo
  "\<lambda>c v. Client_Create c (Some v)" Client_GetByID "\<lambda>c v. Client_Update c (Some v)" Client_Delete
  c_ClientID calm_clients client_view "\<lambda>v. v" merged_client storable_client no_client_conflict ErrClientNotFound
  by unfold_locales
    (auto simp: Client_Get_found Client_Get_missing Client_Update_missing client_missing_def
      intro: Client_Create_new Client_Create_dup Client_Update_found Client_Delete_ok
      simp del: not_None_eq)

text \<open>The list shows every stored client once.\<close>

lemma Client_List_calm:
  assumes "calm_clients db" "ctx_err cx = None"
  shows "Client_List cx db = (Inr (map (scanned scanClient) (client_order (clients db))), db)"
    "set (map (scanned scanClient) (client_order (clients db))) = {v. client_view db (c_ClientID v) = Some v}"
proof -
  have well: "well_clients db" using assms(1) by (simp add: calm_clients_def)
  have "scans scanClient (client_order (clients db))"
    using well scans_mono by (auto simp: well_clients_def client_order_def scans_def)
  then show "Client_List cx db = (Inr (map (scanned scanClient) (client_order (clients db))), db)"
    using assms(2) calm_clients_simps [OF assms(1)] by (simp add: Client_List_def scan_rows_scans)
  show "set (map (scanned scanClient) (client_order (clients db))) = {v. client_view db (c_ClientID v) = Some v}"
  proof (intro set_eqI iffI CollectI)
    fix v assume "v \<in> set (map (scanned scanClient) (client_order (clients db)))"
    then obtain r where r: "r \<in> set (clients db)" "v = scanned scanClient r" by (auto simp: client_order_def)
    then show "client_view db (c_ClientID v) = Some v"
      using client_view_row [OF well r(1)] scanClient_id by metis
  next
    fix v assume "v \<in> {v. client_view db (c_ClientID v) = Some v}"
    then obtain r where "r \<in> set (clients db)" "scanClient r = Inr v" using client_view_Some [OF well] by blast
    then show "v \<in> set (map (scanned scanClient) (client_order (clients db)))"
      by (auto simp: client_order_def scanned_eq intro: image_eqI [of _ _ r])
  qed
qed

end
