(* ===== verification/AuthService.thy ===== *)
theory AuthService
  imports ClientStore Model
begin

text \<open>
  \<open>internal/auth\<close>: tokens (\<open>jwt.go\<close>), the user service (\<open>service.go\<close>, \<open>password.go\<close>), the client
  service (\<open>client.go\<close>, \<open>client_service.go\<close>). The JWT library, bcrypt and the source of random keys
  are parameters, records of functions; what the code relies on is \<open>jwt_faithful\<close> and \<open>bcrypt_ok\<close>.
\<close>

subsection \<open>Tokens (\<open>jwt.go\<close>)\<close>

record Claims =
  cl_SubjectType :: string
  cl_UserID :: string
  cl_ClientID :: string
  cl_Username :: string
  cl_Roles :: "string list"
  cl_CommunityID :: string
  cl_Issuer :: string
  cl_Subject :: string
  cl_Audience :: "string list"
  cl_IssuedAt :: "time option"
  cl_ExpiresAt :: "time option"

abbreviation "SubjectTypeUser \<equiv> ''user''"
abbreviation "SubjectTypeClient \<equiv> ''client''"
abbreviation TokenDurationDefault :: duration where "TokenDurationDefault \<equiv> 24 * hour"
abbreviation "tokenIssuer \<equiv> ''openspace-os-core''"

text \<open>\<open>jwt_parse\<close> verifies the signature under a secret; with validation on, also the times against
  the clock reading it is given. \<open>jwt_date\<close> is \<open>NewNumericDate\<close>.\<close>

record jwt_lib =
  jwt_sign :: "string \<Rightarrow> Claims \<Rightarrow> string res"
  jwt_parse :: "bool \<Rightarrow> string \<Rightarrow> time \<Rightarrow> string \<Rightarrow> Claims res"
  jwt_date :: "time \<Rightarrow> time"

definition jwt_faithful :: "jwt_lib \<Rightarrow> bool" where
  "jwt_faithful L \<longleftrightarrow>
     (\<forall>key cl tok now. jwt_sign L key cl = Inr tok \<longrightarrow>
        jwt_parse L False key now tok = Inr cl \<and>
        (\<forall>t. cl_ExpiresAt cl = Some t \<longrightarrow>
           (if now < t then jwt_parse L True key now tok = Inr cl else \<not> is_ok (jwt_parse L True key now tok))))"

record TokenManager =
  tm_secretKey :: string
  tm_issuer :: string
  tm_duration :: duration

definition NewTokenManager :: "string \<Rightarrow> duration \<Rightarrow> TokenManager" where
  "NewTokenManager key d =
     \<lparr>tm_secretKey = key, tm_issuer = tokenIssuer, tm_duration = (if d \<le> 0 then TokenDurationDefault else d)\<rparr>"

definition tm_sign :: "jwt_lib \<Rightarrow> TokenManager \<Rightarrow> Claims \<Rightarrow> string res" where
  "tm_sign L tm cl =
     (case jwt_sign L (tm_secretKey tm) cl of Inl e \<Rightarrow> Inl (Wrap ''sign token'' e) | Inr tok \<Rightarrow> Inr tok)"

definition user_claims :: "jwt_lib \<Rightarrow> TokenManager \<Rightarrow> time \<Rightarrow> User \<Rightarrow> Claims" where
  "user_claims L tm now u =
     \<lparr>cl_SubjectType = SubjectTypeUser, cl_UserID = u_UserID u, cl_ClientID = [], cl_Username = u_Username u,
      cl_Roles = u_Roles u, cl_CommunityID = u_CommunityID u, cl_Issuer = tm_issuer tm, cl_Subject = u_UserID u,
      cl_Audience = [], cl_IssuedAt = Some (jwt_date L now), cl_ExpiresAt = Some (jwt_date L (now + tm_duration tm))\<rparr>"

definition Generate :: "jwt_lib \<Rightarrow> TokenManager \<Rightarrow> time \<Rightarrow> User option \<Rightarrow> string res" where
  "Generate L tm now user =
     (case user of
        None \<Rightarrow> Inl (Errorf ''user is nil'')
      | Some u \<Rightarrow> tm_sign L tm (user_claims L tm now u))"

definition client_claims :: "jwt_lib \<Rightarrow> TokenManager \<Rightarrow> time \<Rightarrow> Client \<Rightarrow> Claims" where
  "client_claims L tm now c =
     \<lparr>cl_SubjectType = SubjectTypeClient, cl_UserID = [], cl_ClientID = c_ClientID c, cl_Username = c_Name c,
      cl_Roles = c_Roles c, cl_CommunityID = c_CommunityID c, cl_Issuer = tm_issuer tm, cl_Subject = c_ClientID c,
      cl_Audience = [''openspace-os-core-api''], cl_IssuedAt = Some (jwt_date L now),
      cl_ExpiresAt = Some (jwt_date L (now + tm_duration tm))\<rparr>"

definition GenerateClientToken :: "jwt_lib \<Rightarrow> TokenManager \<Rightarrow> time \<Rightarrow> Client option \<Rightarrow> string res" where
  "GenerateClientToken L tm now client =
     (case client of
        None \<Rightarrow> Inl (Errorf ''client is nil'')
      | Some c \<Rightarrow>
        (if c_Status c = ClientStatusRevoked then Inl (Errorf ''client is revoked'')
         else tm_sign L tm (client_claims L tm now c)))"

text \<open>\<open>Parse\<close> reads the clock twice: once in the library, once for the explicit check.\<close>

definition Parse :: "jwt_lib \<Rightarrow> TokenManager \<Rightarrow> world \<Rightarrow> string \<Rightarrow> Claims res" where
  "Parse L tm w tok =
     (case jwt_parse L True (tm_secretKey tm) (now_of w) tok of
        Inl e \<Rightarrow> Inl (Wrap ''parse token'' e)
      | Inr cl \<Rightarrow>
        (case cl_ExpiresAt cl of
           Some t \<Rightarrow> if t < now_of (tick w) then Inl (Errorf ''parse token: expired'') else Inr cl
         | None \<Rightarrow> Inr cl))"

definition Refresh :: "jwt_lib \<Rightarrow> TokenManager \<Rightarrow> time \<Rightarrow> string \<Rightarrow> string res" where
  "Refresh L tm now tok =
     (case jwt_parse L False (tm_secretKey tm) now tok of
        Inl e \<Rightarrow> Inl (Wrap ''parse token'' e)
      | Inr cl \<Rightarrow>
        tm_sign L tm (cl\<lparr>cl_Issuer := tm_issuer tm, cl_IssuedAt := Some (jwt_date L now),
          cl_ExpiresAt := Some (jwt_date L (now + tm_duration tm))\<rparr>))"

definition Duration :: "TokenManager \<Rightarrow> duration" where
  "Duration tm = tm_duration tm"

subsection \<open>Passwords and API keys\<close>

text \<open>bcrypt salts each hash; the first argument is the randomness. \<open>random_key\<close> is the base64 text of
  32 random bytes.\<close>

record crypt_lib =
  bcrypt_hash :: "nat \<Rightarrow> string \<Rightarrow> string res"
  bcrypt_match :: "string \<Rightarrow> string \<Rightarrow> bool"
  random_key :: "nat \<Rightarrow> string res"

definition bcrypt_ok :: "crypt_lib \<Rightarrow> bool" where
  "bcrypt_ok K \<longleftrightarrow> (\<forall>n p h. bcrypt_hash K n p = Inr h \<longrightarrow> h \<noteq> [] \<and> bcrypt_match K h p)"

definition HashPassword :: "crypt_lib \<Rightarrow> nat \<Rightarrow> string \<Rightarrow> string res" where
  "HashPassword K n p = bcrypt_hash K n p"

definition CheckPassword :: "crypt_lib \<Rightarrow> string \<Rightarrow> string \<Rightarrow> bool" where
  "CheckPassword K hashed plain = bcrypt_match K hashed plain"

abbreviation "apiKeyPrefix \<equiv> ''aos_''"

definition hashAPIKey :: "crypt_lib \<Rightarrow> nat \<Rightarrow> string \<Rightarrow> string res" where
  "hashAPIKey K n plain =
     (case bcrypt_hash K n plain of Inl e \<Rightarrow> Inl (Wrap ''hash api key'' e) | Inr h \<Rightarrow> Inr h)"

definition GenerateAPIKey :: "crypt_lib \<Rightarrow> nat \<Rightarrow> (string \<times> string) res" where
  "GenerateAPIKey K n =
     (case random_key K n of
        Inl e \<Rightarrow> Inl (Wrap ''generate api key'' e)
      | Inr r \<Rightarrow>
        (let plain = apiKeyPrefix @ r
         in case hashAPIKey K n plain of Inl e \<Rightarrow> Inl e | Inr h \<Rightarrow> Inr (plain, h)))"

definition validateAPIKeyFormat :: "string \<Rightarrow> verdict" where
  "validateAPIKeyFormat plain = (if has_prefix apiKeyPrefix plain then None else Some (Errorf ''malformed api key''))"

definition VerifyAPIKey :: "crypt_lib \<Rightarrow> string \<Rightarrow> string \<Rightarrow> bool" where
  "VerifyAPIKey K plain hash =
     (if plain = [] \<or> hash = [] then False
      else if validateAPIKeyFormat plain \<noteq> None then False
      else bcrypt_match K hash plain)"

definition normalizeClient :: "world \<Rightarrow> Client \<Rightarrow> Client" where
  "normalizeClient w c0 =
     (let c1 = (if c_ClientID c0 = [] then c0\<lparr>c_ClientID := uuid_of w\<rparr> else c0);
          c2 = (if c_Status c1 = [] then c1\<lparr>c_Status := ClientStatusActive\<rparr> else c1);
          now = now_of w;
          c3 = (if IsZero (c_CreatedAt c2) then c2\<lparr>c_CreatedAt := now\<rparr> else c2)
      in c3\<lparr>c_UpdatedAt := now\<rparr>)"

subsection \<open>The user service (\<open>service.go\<close>)\<close>

text \<open>The store may be missing (nil).\<close>

definition no_store :: err where
  "no_store = Errorf ''user store is not initialised''"

abbreviation "defaultAdminUsername \<equiv> ''admin''"
abbreviation "defaultAdminPassword \<equiv> ''admin123''"

definition EnsureDefaultAdmin :: "crypt_lib \<Rightarrow> ctx \<Rightarrow> world \<Rightarrow> userdb option \<Rightarrow> verdict \<times> userdb option" where
  "EnsureDefaultAdmin K c w store =
     (case store of
        None \<Rightarrow> (Some no_store, None)
      | Some db \<Rightarrow>
        (case User_List c db of
           (Inl e, db1) \<Rightarrow> (Some (Wrap ''list users'' e), Some db1)
         | (Inr us, db1) \<Rightarrow>
           (if us \<noteq> [] then (None, Some db1)
            else case HashPassword K (w_pos w) defaultAdminPassword of
                   Inl e \<Rightarrow> (Some (Wrap ''hash password'' e), Some db1)
                 | Inr hashed \<Rightarrow>
                   (let admin = \<lparr>u_UserID = uuid_of w, u_Username = defaultAdminUsername, u_Password = hashed,
                          u_Roles = [RoleAdmin], u_CommunityID = [], u_CreatedAt = now_of w, u_UpdatedAt = now_of w\<rparr>
                    in case User_Create c (Some admin) db1 of
                         (Some e, db2) \<Rightarrow> (Some (Wrap ''create default admin'' e), Some db2)
                       | (None, db2) \<Rightarrow> (None, Some db2)))))"

definition Login :: "jwt_lib \<Rightarrow> crypt_lib \<Rightarrow> TokenManager \<Rightarrow> ctx \<Rightarrow> time \<Rightarrow> string \<Rightarrow> string \<Rightarrow> userdb option \<Rightarrow>
    string res \<times> userdb option" where
  "Login L K tm c now name password store =
     (case store of
        None \<Rightarrow> (Inl no_store, None)
      | Some db \<Rightarrow>
        (case User_GetByUsername c name db of
           (Inl e, db1) \<Rightarrow>
             (if errors_Is e ErrUserNotFound then (Inl (Sentinel ErrInvalidCredentials), Some db1)
              else (Inl (Wrap ''query user'' e), Some db1))
         | (Inr u, db1) \<Rightarrow>
           (if \<not> CheckPassword K (u_Password u) password then (Inl (Sentinel ErrInvalidCredentials), Some db1)
            else (case Generate L tm now (Some u) of
                    Inl e \<Rightarrow> (Inl (Wrap ''generate token'' e), Some db1)
                  | Inr tok \<Rightarrow> (Inr tok, Some db1)))))"

definition CreateUser :: "crypt_lib \<Rightarrow> ctx \<Rightarrow> world \<Rightarrow> User option \<Rightarrow> string \<Rightarrow> userdb option \<Rightarrow>
    (User option \<times> verdict) \<times> userdb option" where
  "CreateUser K c w user plain store =
     (case store of
        None \<Rightarrow> ((user, Some no_store), None)
      | Some db \<Rightarrow>
        (case user of
           None \<Rightarrow> ((None, Some (Errorf ''user is nil'')), Some db)
         | Some u \<Rightarrow>
           (if u_Username u = [] then ((Some u, Some (Errorf ''username is empty'')), Some db)
            else if plain = [] then ((Some u, Some (Errorf ''password is empty'')), Some db)
            else case HashPassword K (w_pos w) plain of
                   Inl e \<Rightarrow> ((Some u, Some (Wrap ''hash password'' e)), Some db)
                 | Inr hashed \<Rightarrow>
                   (let u1 = (if u_UserID u = [] then u\<lparr>u_UserID := uuid_of w\<rparr> else u);
                        u2 = u1\<lparr>u_Password := hashed\<rparr>;
                        now = now_of w;
                        u3 = (if IsZero (u_CreatedAt u2) then u2\<lparr>u_CreatedAt := now\<rparr> else u2);
                        u4 = u3\<lparr>u_UpdatedAt := now\<rparr>
                    in case User_Create c (Some u4) db of
                         (Some e, db1) \<Rightarrow> ((Some u4, Some (Wrap ''create user'' e)), Some db1)
                       | (None, db1) \<Rightarrow> ((Some u4, None), Some db1)))))"

definition GetUser :: "ctx \<Rightarrow> string \<Rightarrow> userdb option \<Rightarrow> User res \<times> userdb option" where
  "GetUser c k store =
     (case store of None \<Rightarrow> (Inl no_store, None) | Some db \<Rightarrow> map_prod id Some (User_GetByID c k db))"

definition ListUsers :: "ctx \<Rightarrow> userdb option \<Rightarrow> User list res \<times> userdb option" where
  "ListUsers c store =
     (case store of None \<Rightarrow> (Inl no_store, None) | Some db \<Rightarrow> map_prod id Some (User_List c db))"

definition DeleteUser :: "ctx \<Rightarrow> string \<Rightarrow> userdb option \<Rightarrow> verdict \<times> userdb option" where
  "DeleteUser c k store =
     (case store of None \<Rightarrow> (Some no_store, None) | Some db \<Rightarrow> map_prod id Some (User_Delete c k db))"

definition CanAccessNode :: "Claims option \<Rightarrow> Node option \<Rightarrow> bool" where
  "CanAccessNode claims node =
     (case claims of
        None \<Rightarrow> False
      | Some cl \<Rightarrow>
        (case node of
           None \<Rightarrow> False
         | Some n \<Rightarrow>
           (if RoleAdmin \<in> set (cl_Roles cl) then True
            else cl_CommunityID cl \<noteq> [] \<and> cl_CommunityID cl = n_OwnerCommunityID n)))"

subsection \<open>The client service (\<open>client_service.go\<close>)\<close>

definition CreateClient :: "crypt_lib \<Rightarrow> ctx \<Rightarrow> world \<Rightarrow> Client option \<Rightarrow> clientdb \<Rightarrow> (Client option \<times> string res) \<times> clientdb" where
  "CreateClient K cx w client db =
     (case client of
        None \<Rightarrow> ((None, Inl (Errorf ''client is nil'')), db)
      | Some c \<Rightarrow>
        (if c_Name c = [] then ((Some c, Inl (Errorf ''name is empty'')), db)
         else
           (let c1 = (if c_Roles c = [] then c\<lparr>c_Roles := [RoleOperator]\<rparr> else c)
            in case GenerateAPIKey K (w_pos w) of
                 Inl e \<Rightarrow> ((Some c1, Inl e), db)
               | Inr (plain, h) \<Rightarrow>
                 (let c2 = normalizeClient w (c1\<lparr>c_APIKeyHash := h\<rparr>)
                  in case Client_Create cx (Some c2) db of
                       (Some e, db1) \<Rightarrow> ((Some c2, Inl (Wrap ''create client'' e)), db1)
                     | (None, db1) \<Rightarrow> ((Some c2, Inr plain), db1)))))"

text \<open>The scan for the first active client whose key matches.\<close>

fun match_key :: "crypt_lib \<Rightarrow> string \<Rightarrow> Client list \<Rightarrow> Client option" where
  "match_key K key [] = None"
| "match_key K key (c # cs) =
     (if c_Status c = ClientStatusRevoked then match_key K key cs
      else if c_APIKeyHash c \<noteq> [] \<and> VerifyAPIKey K key (c_APIKeyHash c) then Some c
      else match_key K key cs)"

definition ExchangeAPIKey :: "jwt_lib \<Rightarrow> crypt_lib \<Rightarrow> TokenManager \<Rightarrow> ctx \<Rightarrow> time \<Rightarrow> string \<Rightarrow> clientdb \<Rightarrow>
    (string \<times> Client) res \<times> clientdb" where
  "ExchangeAPIKey L K tm cx now apiKey db =
     (if apiKey = [] then (Inl (Sentinel ErrInvalidCredentials), db)
      else case Client_List cx db of
             (Inl e, db1) \<Rightarrow> (Inl (Wrap ''list clients'' e), db1)
           | (Inr cs, db1) \<Rightarrow>
             (case match_key K apiKey cs of
                None \<Rightarrow> (Inl (Sentinel ErrInvalidCredentials), db1)
              | Some c \<Rightarrow>
                (case GenerateClientToken L tm now (Some c) of
                   Inl e \<Rightarrow> (Inl (Wrap ''sign client token'' e), db1)
                 | Inr tok \<Rightarrow> (Inr (tok, c), db1))))"

definition RevokeClient :: "ctx \<Rightarrow> string \<Rightarrow> clientdb \<Rightarrow> verdict \<times> clientdb" where
  "RevokeClient cx k db =
     (case Client_GetByID cx k db of
        (Inl e, db1) \<Rightarrow> (Some e, db1)
      | (Inr c, db1) \<Rightarrow>
        (case Client_Update cx (Some (c\<lparr>c_Status := ClientStatusRevoked, c_APIKeyHash := []\<rparr>)) db1 of
           (Some e, db2) \<Rightarrow> (Some (Wrap ''revoke client'' e), db2)
         | (None, db2) \<Rightarrow> (None, db2)))"

definition GetClient :: "ctx \<Rightarrow> string \<Rightarrow> clientdb \<Rightarrow> Client res \<times> clientdb" where
  "GetClient cx k db = Client_GetByID cx k db"

definition ListClients :: "ctx \<Rightarrow> clientdb \<Rightarrow> Client list res \<times> clientdb" where
  "ListClients cx db = Client_List cx db"

definition DeleteClient :: "ctx \<Rightarrow> string \<Rightarrow> clientdb \<Rightarrow> verdict \<times> clientdb" where
  "DeleteClient cx k db = Client_Delete cx k db"

end
