(* ===== verification/AuthMiddleware.thy ===== *)
theory AuthMiddleware
  imports AuthService KGService
begin

text \<open>
  \<open>internal/auth/middleware.go\<close>: the filters in front of the handlers, and the properties of
  authentication. A filter either serves the request with claims in its context or answers with
  a status; the state it passes through is that of the client and node stores.
\<close>

subsection \<open>Requests and decisions\<close>

text \<open>The headers read here (empty when absent), the \<open>nodeId\<close> of the route, the claims in the context.\<close>

record http_request =
  rq_Authorization :: string
  rq_XAPIKey :: string
  rq_nodeId :: string
  rq_claims :: "Claims option"
  rq_ctx :: ctx

datatype decision = Serve http_request | AuthError nat string

abbreviation StatusUnauthorized :: nat where "StatusUnauthorized \<equiv> 401"
abbreviation StatusForbidden :: nat where "StatusForbidden \<equiv> 403"
abbreviation StatusNotFound :: nat where "StatusNotFound \<equiv> 404"
abbreviation StatusInternalServerError :: nat where "StatusInternalServerError \<equiv> 500"

definition WithClaims :: "Claims \<Rightarrow> http_request \<Rightarrow> http_request" where
  "WithClaims cl r = r\<lparr>rq_claims := Some cl\<rparr>"

definition ClaimsFromContext :: "http_request \<Rightarrow> Claims option" where
  "ClaimsFromContext r = rq_claims r"

definition extractBearerToken :: "http_request \<Rightarrow> string" where
  "extractBearerToken r =
     (if rq_Authorization r = [] then []
      else if \<not> has_prefix ''Bearer '' (rq_Authorization r) then []
      else trim_space (drop (length ''Bearer '') (rq_Authorization r)))"

subsection \<open>The filters\<close>

definition AuthMiddleware :: "jwt_lib \<Rightarrow> TokenManager \<Rightarrow> world \<Rightarrow> http_request \<Rightarrow> decision" where
  "AuthMiddleware L tm w r =
     (let tok = extractBearerToken r
      in if tok = [] then AuthError StatusUnauthorized ''missing token''
         else case Parse L tm w tok of
                Inl e \<Rightarrow> AuthError StatusUnauthorized ''invalid or expired token''
              | Inr cl \<Rightarrow> Serve (WithClaims cl r))"

text \<open>The second half of \<open>APIAuthMiddleware\<close>; \<open>None\<close> stands for a missing client service.\<close>

definition api_key_auth :: "jwt_lib \<Rightarrow> crypt_lib \<Rightarrow> TokenManager \<Rightarrow> world \<Rightarrow> http_request \<Rightarrow> clientdb option \<Rightarrow>
    decision \<times> clientdb option" where
  "api_key_auth L K tm w r svc =
     (let refuse = AuthError StatusUnauthorized ''missing token or api key''
      in case svc of
           None \<Rightarrow> (refuse, None)
         | Some db \<Rightarrow>
           (let key = (if extractBearerToken r = [] then trim_space (rq_XAPIKey r) else extractBearerToken r)
            in if key \<noteq> [] \<and> has_prefix apiKeyPrefix key then
                 (case ExchangeAPIKey L K tm (rq_ctx r) (now_of w) key db of
                    (Inl e, db1) \<Rightarrow> (AuthError StatusUnauthorized ''invalid or revoked api key'', Some db1)
                  | (Inr (tok, c), db1) \<Rightarrow>
                    (case Parse L tm (tick w) tok of
                       Inl e \<Rightarrow> (AuthError StatusUnauthorized ''authentication failed'', Some db1)
                     | Inr cl \<Rightarrow> (Serve (WithClaims cl r), Some db1)))
               else (refuse, Some db)))"

definition APIAuthMiddleware :: "jwt_lib \<Rightarrow> crypt_lib \<Rightarrow> TokenManager \<Rightarrow> world \<Rightarrow> http_request \<Rightarrow> clientdb option \<Rightarrow>
    decision \<times> clientdb option" where
  "APIAuthMiddleware L K tm w r svc =
     (let tok = extractBearerToken r
      in if tok = [] then api_key_auth L K tm w r svc
         else case Parse L tm w tok of
                Inr cl \<Rightarrow> (Serve (WithClaims cl r), svc)
              | Inl e \<Rightarrow> api_key_auth L K tm (tick (tick w)) r svc)"

definition RequirePermission :: "string \<Rightarrow> http_request \<Rightarrow> decision" where
  "RequirePermission perm r =
     (case ClaimsFromContext r of
        None \<Rightarrow> AuthError StatusUnauthorized ''unauthenticated''
      | Some cl \<Rightarrow>
        (if \<not> HasPermission (cl_Roles cl) perm then AuthError StatusForbidden ''permission denied'' else Serve r))"

definition RequireNodeAccess :: "http_request \<Rightarrow> 'b kg \<Rightarrow> decision \<times> 'b kg" where
  "RequireNodeAccess r k =
     (case ClaimsFromContext r of
        None \<Rightarrow> (AuthError StatusUnauthorized ''unauthenticated'', k)
      | Some cl \<Rightarrow>
        (if RoleAdmin \<in> set (cl_Roles cl) then (Serve r, k)
         else if rq_nodeId r = [] then (Serve r, k)
         else case KG_GetNode (rq_ctx r) (rq_nodeId r) k of
                (Inl e, k1) \<Rightarrow>
                  (if errors_Is e ErrNotFound then (AuthError StatusNotFound ''no such node'', k1)
                   else (AuthError StatusInternalServerError ''query failed'', k1))
              | (Inr n, k1) \<Rightarrow>
                  (if cl_CommunityID cl = [] \<or> cl_CommunityID cl \<noteq> n_OwnerCommunityID n
                   then (AuthError StatusForbidden ''not your community'', k1) else (Serve r, k1))))"

text \<open>The chain a protected route puts in front of its handler.\<close>

definition protected_route :: "jwt_lib \<Rightarrow> crypt_lib \<Rightarrow> TokenManager \<Rightarrow> world \<Rightarrow> string \<Rightarrow> http_request \<Rightarrow> clientdb option \<Rightarrow>
    decision \<times> clientdb option" where
  "protected_route L K tm w perm r svc =
     (case APIAuthMiddleware L K tm w r svc of
        (AuthError code msg, svc1) \<Rightarrow> (AuthError code msg, svc1)
      | (Serve r1, svc1) \<Rightarrow> (RequirePermission perm r1, svc1))"

subsection \<open>Lemmas\<close>

lemma match_key_Some:
  "match_key K key cs = Some c \<Longrightarrow>
   c \<in> set cs \<and> c_Status c \<noteq> ClientStatusRevoked \<and> VerifyAPIKey K key (c_APIKeyHash c)"
  by (induction K key cs rule: match_key.induct) (auto split: if_splits)

lemma match_key_None:
  "match_key K key cs = None \<longleftrightarrow>
   (\<forall>c\<in>set cs. c_Status c = ClientStatusRevoked \<or> \<not> VerifyAPIKey K key (c_APIKeyHash c))"
  by (induction K key cs rule: match_key.induct) (auto simp: VerifyAPIKey_def)

lemma Client_List_result:
  "Client_List cx db = (Inr cs, db') \<Longrightarrow> cs = map (scanned scanClient) (client_order (clients db)) \<and> clients db' = clients db"
proof -
  have "scan_rows scanClient rs = Inr cs \<Longrightarrow> cs = map (scanned scanClient) rs" for rs cs
    by (induction rs arbitrary: cs) (auto simp: scanned_def split: sum.splits)
  then show "Client_List cx db = (Inr cs, db') \<Longrightarrow>
      cs = map (scanned scanClient) (client_order (clients db)) \<and> clients db' = clients db"
    by (auto simp: Client_List_def consume_def split: option.splits sum.splits)
qed

lemma tm_sign_Inr: "tm_sign L tm cl = Inr tok \<longleftrightarrow> jwt_sign L (tm_secretKey tm) cl = Inr tok"
  by (auto simp: tm_sign_def split: sum.splits)

lemma Parse_signed:
  assumes "jwt_faithful L" "tm_sign L tm cl = Inr tok" "cl_ExpiresAt cl = Some t"
  shows "(Parse L tm w tok = Inr cl') \<longleftrightarrow> cl' = cl \<and> now_of w < t \<and> now_of (tick w) \<le> t"
proof (cases "now_of w < t")
  case True
  then have "jwt_parse L True (tm_secretKey tm) (now_of w) tok = Inr cl"
    using assms by (simp add: jwt_faithful_def tm_sign_Inr)
  then show ?thesis using True assms(3) by (auto simp: Parse_def)
next
  case False
  then have "\<not> is_ok (jwt_parse L True (tm_secretKey tm) (now_of w) tok)"
    using assms by (metis (full_types) jwt_faithful_def tm_sign_Inr)
  then show ?thesis using False by (cases "jwt_parse L True (tm_secretKey tm) (now_of w) tok") (auto simp: Parse_def)
qed

lemma Refresh_signed:
  assumes "jwt_faithful L" "tm_sign L tm cl = Inr tok"
  shows "Refresh L tm now tok = tm_sign L tm (cl\<lparr>cl_Issuer := tm_issuer tm, cl_IssuedAt := Some (jwt_date L now),
          cl_ExpiresAt := Some (jwt_date L (now + tm_duration tm))\<rparr>)"
  using assms by (simp add: Refresh_def jwt_faithful_def tm_sign_Inr)

lemma api_key_auth_Serve:
  assumes "api_key_auth L K tm w r svc = (Serve r', svc')"
  shows "\<exists>db key c tok cl. svc = Some db \<and> key \<in> {extractBearerToken r, trim_space (rq_XAPIKey r)} \<and>
    c \<in> set (map (scanned scanClient) (client_order (clients db))) \<and> c_Status c \<noteq> ClientStatusRevoked \<and>
    VerifyAPIKey K key (c_APIKeyHash c) \<and> tm_sign L tm (client_claims L tm (now_of w) c) = Inr tok \<and>
    Parse L tm (tick w) tok = Inr cl \<and> r' = WithClaims cl r"
proof -
  obtain db where db: "svc = Some db" using assms by (cases svc) (auto simp: api_key_auth_def Let_def)
  let ?key = "if extractBearerToken r = [] then trim_space (rq_XAPIKey r) else extractBearerToken r"
  obtain x db1 where ex: "ExchangeAPIKey L K tm (rq_ctx r) (now_of w) ?key db = (x, db1)" by fastforce
  then obtain tok c cl where x: "x = Inr (tok, c)" "Parse L tm (tick w) tok = Inr cl" "r' = WithClaims cl r"
    using assms db by (auto simp: api_key_auth_def Let_def split: if_splits sum.splits)
  then obtain cs db2 where l: "Client_List (rq_ctx r) db = (Inr cs, db2)" "match_key K ?key cs = Some c"
      "GenerateClientToken L tm (now_of w) (Some c) = Inr tok"
    using ex by (auto simp: ExchangeAPIKey_def split: if_splits prod.splits sum.splits option.splits)
  have "c \<in> set cs" "c_Status c \<noteq> ClientStatusRevoked" "VerifyAPIKey K ?key (c_APIKeyHash c)"
    using match_key_Some [OF l(2)] by simp_all
  moreover have "cs = map (scanned scanClient) (client_order (clients db))" using Client_List_result [OF l(1)] by blast
  moreover have "tm_sign L tm (client_claims L tm (now_of w) c) = Inr tok"
    using l(3) by (auto simp: GenerateClientToken_def split: if_splits)
  moreover have "?key \<in> {extractBearerToken r, trim_space (rq_XAPIKey r)}" by simp
  ultimately show ?thesis using db x by blast
qed

subsection \<open>Libraries that meet the contracts\<close>

text \<open>To show that the contracts can hold: tokens that are the claims themselves, and hashes that are
  the passwords marked.\<close>

fun enc_strings :: "string list \<Rightarrow> string" where
  "enc_strings [] = []"
| "enc_strings (s # ss) = concat (map (\<lambda>c. [CHR ''.'', c]) s) @ CHR ''|'' # enc_strings ss"

fun dec_strings :: "string \<Rightarrow> string list" where
  "dec_strings (m # r) =
     (if m = CHR ''|'' then [] # dec_strings r
      else case r of [] \<Rightarrow> [] | c # r' \<Rightarrow> (case dec_strings r' of [] \<Rightarrow> [] | s # ss \<Rightarrow> (c # s) # ss))"
| "dec_strings [] = []"

lemma dec_enc_strings [simp]: "dec_strings (enc_strings ss) = ss"
proof (induction ss)
  case (Cons s ss)
  have "dec_strings (concat (map (\<lambda>c. [CHR ''.'', c]) s) @ CHR ''|'' # enc_strings ss) = s # ss"
    by (induction s) (simp_all add: Cons)
  then show ?case by simp
qed simp

definition enc_time :: "time option \<Rightarrow> string" where
  "enc_time t = (case t of None \<Rightarrow> [] | Some i \<Rightarrow> (if i < 0 then CHR ''-'' else CHR ''+'') # show_nat (nat \<bar>i\<bar>))"

fun dec_time :: "string \<Rightarrow> time option" where
  "dec_time [] = None"
| "dec_time (c # s) = Some (if c = CHR ''-'' then - int (num_of s) else int (num_of s))"

lemma dec_enc_time [simp]: "dec_time (enc_time t) = t"
  by (cases t) (auto simp: enc_time_def num_of_show_nat)

definition enc_claims :: "Claims \<Rightarrow> string" where
  "enc_claims cl = enc_strings [cl_SubjectType cl, cl_UserID cl, cl_ClientID cl, cl_Username cl,
     enc_strings (cl_Roles cl), cl_CommunityID cl, cl_Issuer cl, cl_Subject cl, enc_strings (cl_Audience cl),
     enc_time (cl_IssuedAt cl), enc_time (cl_ExpiresAt cl)]"

definition dec_claims :: "string \<Rightarrow> Claims res" where
  "dec_claims s =
     (case dec_strings s of
        [a, b, c, d, e, f, g, h, i, j, k] \<Rightarrow>
          Inr \<lparr>cl_SubjectType = a, cl_UserID = b, cl_ClientID = c, cl_Username = d, cl_Roles = dec_strings e,
            cl_CommunityID = f, cl_Issuer = g, cl_Subject = h, cl_Audience = dec_strings i,
            cl_IssuedAt = dec_time j, cl_ExpiresAt = dec_time k\<rparr>
      | _ \<Rightarrow> Inl (External ''token is malformed''))"

lemma dec_enc_claims [simp]: "dec_claims (enc_claims cl) = Inr cl"
  unfolding dec_claims_def enc_claims_def dec_enc_strings by simp

definition plain_jwt :: jwt_lib where
  "plain_jwt = \<lparr>jwt_sign = (\<lambda>key cl. Inr (enc_claims cl)),
     jwt_parse = (\<lambda>check key now tok. case dec_claims tok of Inl e \<Rightarrow> Inl e
       | Inr cl \<Rightarrow> if check \<and> (\<exists>t. cl_ExpiresAt cl = Some t \<and> t \<le> now) then Inl (External ''token is expired'') else Inr cl),
     jwt_date = (\<lambda>t. Truncate t second)\<rparr>"

lemma plain_jwt_faithful: "jwt_faithful plain_jwt"
  by (auto simp: jwt_faithful_def plain_jwt_def)

definition plain_crypt :: crypt_lib where
  "plain_crypt = \<lparr>bcrypt_hash = (\<lambda>n p. Inr (CHR ''#'' # p)), bcrypt_match = (\<lambda>h p. h = CHR ''#'' # p),
     random_key = (\<lambda>n. Inr (show_nat n))\<rparr>"

lemma plain_crypt_ok: "bcrypt_ok plain_crypt"
  by (simp add: bcrypt_ok_def plain_crypt_def)

subsection \<open>Properties\<close>

text \<open>The request presents the API key of a stored client that is not revoked.\<close>

definition presents_key :: "crypt_lib \<Rightarrow> http_request \<Rightarrow> clientdb \<Rightarrow> Client \<Rightarrow> bool" where
  "presents_key K r db c \<longleftrightarrow> c \<in> set (map (scanned scanClient) (client_order (clients db))) \<and>
     c_Status c \<noteq> ClientStatusRevoked \<and>
     (\<exists>key\<in>{extractBearerToken r, trim_space (rq_XAPIKey r)}. VerifyAPIKey K key (c_APIKeyHash c))"

lemma api_key_claims:
  assumes "jwt_faithful L" "api_key_auth L K tm w r svc = (Serve r', svc')"
  shows "\<exists>db c t. svc = Some db \<and> presents_key K r db c \<and> r' = WithClaims (client_claims L tm t c) r"
proof -
  obtain db key c tok cl where d: "svc = Some db" "key \<in> {extractBearerToken r, trim_space (rq_XAPIKey r)}"
      "c \<in> set (map (scanned scanClient) (client_order (clients db)))" "c_Status c \<noteq> ClientStatusRevoked"
      "VerifyAPIKey K key (c_APIKeyHash c)" "tm_sign L tm (client_claims L tm (now_of w) c) = Inr tok"
      "Parse L tm (tick w) tok = Inr cl" "r' = WithClaims cl r"
    using api_key_auth_Serve [OF assms(2)] by blast
  have "cl = client_claims L tm (now_of w) c"
    using Parse_signed [OF assms(1) d(6)] d(7) by (simp add: client_claims_def)
  then show ?thesis using d unfolding presents_key_def by blast
qed

lemma api_auth_claims:
  assumes "jwt_faithful L" "APIAuthMiddleware L K tm w r svc = (Serve r1, svc1)"
  shows "\<exists>cl. r1 = WithClaims cl r \<and> (Parse L tm w (extractBearerToken r) = Inr cl \<or>
     (\<exists>db c t. svc = Some db \<and> presents_key K r db c \<and> cl = client_claims L tm t c))"
proof (cases "extractBearerToken r \<noteq> [] \<and> (\<exists>cl. Parse L tm w (extractBearerToken r) = Inr cl)")
  case True
  then obtain cl where cl: "Parse L tm w (extractBearerToken r) = Inr cl" by blast
  then have "r1 = WithClaims cl r" using assms(2) True by (simp add: APIAuthMiddleware_def Let_def)
  then show ?thesis using cl by blast
next
  case False
  then have "\<exists>w'. api_key_auth L K tm w' r svc = (Serve r1, svc1)"
    using assms(2) by (auto simp: APIAuthMiddleware_def Let_def split: if_splits sum.splits)
  then show ?thesis using api_key_claims [OF assms(1)] by metis
qed

lemma RequirePermission_Serve:
  "RequirePermission perm r = Serve r' \<longleftrightarrow> r' = r \<and> (\<exists>cl. rq_claims r = Some cl \<and> HasPermission (cl_Roles cl) perm)"
  by (auto simp: RequirePermission_def ClaimsFromContext_def split: option.splits)

text \<open>A request that gets through the filters of a route carries claims that allow the permission.\<close>

lemma route_protected:
  assumes "jwt_faithful L" "protected_route L K tm w perm r svc = (Serve r', svc')"
  shows "\<exists>cl. r' = WithClaims cl r \<and> HasPermission (cl_Roles cl) perm \<and>
    (Parse L tm w (extractBearerToken r) = Inr cl \<or>
     (\<exists>db c t. svc = Some db \<and> presents_key K r db c \<and> cl = client_claims L tm t c))"
proof -
  obtain r1 svc1 where m: "APIAuthMiddleware L K tm w r svc = (Serve r1, svc1)" "RequirePermission perm r1 = Serve r'"
    using assms(2) by (auto simp: protected_route_def split: prod.splits decision.splits)
  obtain cl where cl: "r1 = WithClaims cl r" and via: "Parse L tm w (extractBearerToken r) = Inr cl \<or>
     (\<exists>db c t. svc = Some db \<and> presents_key K r db c \<and> cl = client_claims L tm t c)"
    using api_auth_claims [OF assms(1) m(1)] by blast
  have "r' = WithClaims cl r" "HasPermission (cl_Roles cl) perm"
    using m(2) by (simp_all add: RequirePermission_Serve cl WithClaims_def)
  then show ?thesis using via by blast
qed

definition demo_tm :: TokenManager where
  "demo_tm = NewTokenManager ''k'' 0"

definition client1 :: Client where
  "client1 = \<lparr>c_ClientID = ''m1'', c_Name = ''planner'', c_ModuleName = [], c_CommunityID = ''c1'', c_Roles = [RoleOperator],
     c_APIKeyHash = ''#aos_7'', c_Status = ClientStatusActive, c_CreatedAt = 63918460800000000000,
     c_UpdatedAt = 63918460800000000000\<rparr>"

definition one_clientdb :: clientdb where
  "one_clientdb = \<lparr>faults = [], clients = [client_row_of client1]\<rparr>"

definition key_request :: http_request where
  "key_request = \<lparr>rq_Authorization = [], rq_XAPIKey = ''aos_7'', rq_nodeId = [], rq_claims = None, rq_ctx = background\<rparr>"

lemma storable_client1: "storable_client client1" "storable_client (client1\<lparr>c_Status := st, c_APIKeyHash := h\<rparr>)"
  by (simp_all add: storable_client_def client1_def year_10000_def)

lemma one_clientdb_facts: "calm_clients one_clientdb" "client_view one_clientdb = [''m1'' \<mapsto> client1]"
    "map (scanned scanClient) (client_order (clients one_clientdb)) = [client1]"
proof -
  have sc: "scanClient (client_row_of client1) = Inr client1" by (rule scanClient_row_of [OF storable_client1(1)])
  have id: "c_ClientID client1 = ''m1''" by (simp add: client1_def)
  show "calm_clients one_clientdb" using sc by (simp add: calm_clients_def well_clients_def one_clientdb_def scans_def)
  show "client_view one_clientdb = [''m1'' \<mapsto> client1]"
    using sc by (auto simp: client_view_def view_def row_of_def one_clientdb_def id scanned_eq)
  show "map (scanned scanClient) (client_order (clients one_clientdb)) = [client1]"
    using sc by (simp add: one_clientdb_def client_order_def scanned_eq)
qed

definition demo_claims :: Claims where
  "demo_claims = client_claims plain_jwt demo_tm (now_of demo_world) client1"

lemma demo_presents_key: "presents_key plain_crypt key_request one_clientdb client1"
proof -
  have bearer: "extractBearerToken key_request = []" "trim_space (rq_XAPIKey key_request) = ''aos_7''"
    by (simp_all add: extractBearerToken_def key_request_def trim_space_def is_space_def)
  have "VerifyAPIKey plain_crypt ''aos_7'' (c_APIKeyHash client1)"
    by (simp add: VerifyAPIKey_def validateAPIKeyFormat_def has_prefix_def plain_crypt_def client1_def)
  then show ?thesis
    using bearer one_clientdb_facts(3) by (simp add: presents_key_def) (simp add: client1_def)
qed

lemma demo_api_auth:
  "APIAuthMiddleware plain_jwt plain_crypt demo_tm demo_world key_request (Some one_clientdb) =
     (Serve (WithClaims demo_claims key_request), Some one_clientdb)"
proof -
  have bearer: "extractBearerToken key_request = []" "trim_space (rq_XAPIKey key_request) = ''aos_7''"
    by (simp_all add: extractBearerToken_def key_request_def trim_space_def is_space_def)
  have list: "Client_List background one_clientdb = (Inr [client1], one_clientdb)"
    using Client_List_calm(1) [OF one_clientdb_facts(1), of background] one_clientdb_facts(3) by (simp add: background_def)
  have ver: "VerifyAPIKey plain_crypt ''aos_7'' (c_APIKeyHash client1)"
    by (simp add: VerifyAPIKey_def validateAPIKeyFormat_def has_prefix_def plain_crypt_def client1_def)
  have mk: "match_key plain_crypt ''aos_7'' [client1] = Some client1" using ver by (simp add: client1_def)
  let ?cl = "client_claims plain_jwt demo_tm (now_of demo_world) client1"
  have tok: "GenerateClientToken plain_jwt demo_tm (now_of demo_world) (Some client1) = Inr (enc_claims ?cl)"
    by (simp add: GenerateClientToken_def tm_sign_def plain_jwt_def client1_def)
  have ex: "ExchangeAPIKey plain_jwt plain_crypt demo_tm background (now_of demo_world) ''aos_7'' one_clientdb =
      (Inr (enc_claims ?cl, client1), one_clientdb)"
    using list mk tok by (simp add: ExchangeAPIKey_def)
  have sg: "tm_sign plain_jwt demo_tm ?cl = Inr (enc_claims ?cl)" by (simp add: tm_sign_def plain_jwt_def)
  have "cl_ExpiresAt ?cl = Some (Truncate (new_year_2026 + 24 * hour) second)"
    by (simp add: client_claims_def plain_jwt_def demo_tm_def NewTokenManager_def demo_world_def now_of_def)
  from Parse_signed [OF plain_jwt_faithful sg this, of "tick demo_world"]
  have parse: "Parse plain_jwt demo_tm (tick demo_world) (enc_claims ?cl) = Inr ?cl"
    by (simp add: demo_world_def now_of_def Truncate_def new_year_2026_def)
  show ?thesis
    using bearer ex parse unfolding demo_claims_def
    by (simp add: APIAuthMiddleware_def api_key_auth_def Let_def has_prefix_def) (simp add: key_request_def)
qed

lemma demo_route_served:
  "protected_route plain_jwt plain_crypt demo_tm demo_world ''command.send'' key_request (Some one_clientdb) =
     (Serve (WithClaims demo_claims key_request), Some one_clientdb)"
proof -
  have "HasPermission (cl_Roles demo_claims) ''command.send''"
    by (simp add: demo_claims_def client_claims_def client1_def DefaultRoles_def operator_permissions_def)
  then show ?thesis
    by (simp add: protected_route_def demo_api_auth RequirePermission_def ClaimsFromContext_def WithClaims_def)
qed

text \<open>A token that was issued is accepted, with the identity it was issued for, exactly while both clock
  readings of \<open>Parse\<close> are before its expiry; refreshing it works at any later time, expired or not,
  and gives a token with the same identity and a new expiry.\<close>

theorem token_lifecycle:
  assumes "jwt_faithful L" "Generate L tm now (Some u) = Inr tok"
  shows "(\<forall>w. Parse L tm w tok = Inr cl \<longleftrightarrow> cl = user_claims L tm now u \<and>
      now_of w < jwt_date L (now + tm_duration tm) \<and> now_of (tick w) \<le> jwt_date L (now + tm_duration tm)) \<and>
    (\<forall>later tok'. Refresh L tm later tok = Inr tok' \<longrightarrow>
      (\<forall>w. Parse L tm w tok' = Inr cl \<longleftrightarrow> cl = user_claims L tm later u \<and>
        now_of w < jwt_date L (later + tm_duration tm) \<and> now_of (tick w) \<le> jwt_date L (later + tm_duration tm)))"
proof -
  have sg: "tm_sign L tm (user_claims L tm now u) = Inr tok" using assms(2) by (simp add: Generate_def)
  have ex: "cl_ExpiresAt (user_claims L tm t u) = Some (jwt_date L (t + tm_duration tm))" for t
    by (simp add: user_claims_def)
  have re: "Refresh L tm later tok = tm_sign L tm (user_claims L tm later u)" for later
    using Refresh_signed [OF assms(1) sg] by (simp add: user_claims_def)
  show ?thesis
    using Parse_signed [OF assms(1) sg ex] Parse_signed [OF assms(1) _ ex] re by (metis (no_types))
qed

lemma token_lifecycle_witness:
  "\<exists>tok tok'. Generate plain_jwt demo_tm 0 (Some alice) = Inr tok \<and>
     Refresh plain_jwt demo_tm (now_of demo_world) tok = Inr tok' \<and>
     Parse plain_jwt demo_tm demo_world tok' = Inr (user_claims plain_jwt demo_tm (now_of demo_world) alice)"
proof -
  obtain tok where g: "Generate plain_jwt demo_tm 0 (Some alice) = Inr tok"
    by (simp add: Generate_def tm_sign_def plain_jwt_def)
  note T = token_lifecycle [OF plain_jwt_faithful g]
  have sg: "tm_sign plain_jwt demo_tm (user_claims plain_jwt demo_tm 0 alice) = Inr tok" using g by (simp add: Generate_def)
  obtain tok' where r: "Refresh plain_jwt demo_tm (now_of demo_world) tok = Inr tok'"
    using Refresh_signed [OF plain_jwt_faithful sg] by (simp add: tm_sign_def plain_jwt_def)
  have "now_of demo_world < jwt_date plain_jwt (now_of demo_world + tm_duration demo_tm) \<and>
      now_of (tick demo_world) \<le> jwt_date plain_jwt (now_of demo_world + tm_duration demo_tm)"
    by (simp add: plain_jwt_def demo_tm_def NewTokenManager_def demo_world_def now_of_def Truncate_def new_year_2026_def)
  then show ?thesis using T r g by blast
qed

definition credentials :: "crypt_lib \<Rightarrow> userdb \<Rightarrow> string \<Rightarrow> string \<Rightarrow> User \<Rightarrow> bool" where
  "credentials K db name pw u \<longleftrightarrow>
     user_view db (u_UserID u) = Some u \<and> u_Username u = name \<and> bcrypt_match K (u_Password u) pw"

text \<open>C40: On a healthy store a login gives a token exactly for a stored user name with a matching
  password; an unknown name and a wrong password get the same answer, so that a caller learns
  nothing about which names exist; the store is not changed.\<close>

theorem login_exact:
  assumes "calm_users db" "ctx_err c = None"
  shows "(\<forall>u. credentials K db name pw u \<longrightarrow> Login L K tm c now name pw (Some db) =
      (case Generate L tm now (Some u) of Inl e \<Rightarrow> Inl (Wrap ''generate token'' e) | Inr tok \<Rightarrow> Inr tok, Some db)) \<and>
    ((\<nexists>u. credentials K db name pw u) \<longrightarrow>
      Login L K tm c now name pw (Some db) = (Inl (Sentinel ErrInvalidCredentials), Some db))"
proof (cases "\<exists>u. user_view db (u_UserID u) = Some u \<and> u_Username u = name")
  case True
  then obtain u where u: "user_view db (u_UserID u) = Some u" "u_Username u = name" by blast
  then have g: "User_GetByUsername c name db = (Inr u, db)" using GetByUsername_calm(1) [OF assms] by blast
  have "credentials K db name pw v \<longleftrightarrow> v = u \<and> bcrypt_match K (u_Password u) pw" for v
    using GetByUsername_calm(1) [OF assms, of name v db] u g by (auto simp: credentials_def)
  then show ?thesis using g by (simp add: Login_def CheckPassword_def split: sum.splits)
next
  case False
  then have "\<forall>k u. user_view db k = Some u \<longrightarrow> u_Username u \<noteq> name"
    using assms(1) by (metis calm_users_def scanUser_keys user_view_Some)
  from GetByUsername_calm(2) [OF assms this] False show ?thesis by (auto simp: Login_def credentials_def)
qed

definition alice_db :: userdb where
  "alice_db = \<lparr>faults = [], users = [user_row_of (alice\<lparr>u_Password := ''#secret''\<rparr>)]\<rparr>"

lemma alice_db_facts: "calm_users alice_db" "user_view alice_db = [''u1'' \<mapsto> alice\<lparr>u_Password := ''#secret''\<rparr>]"
proof -
  have sc: "scanUser (user_row_of (alice\<lparr>u_Password := ''#secret''\<rparr>)) = Inr (alice\<lparr>u_Password := ''#secret''\<rparr>)"
    by (rule scanUser_row_of) (simp add: user_times_ok_def alice_def year_10000_def)
  have id: "u_UserID alice = ''u1''" by (simp add: alice_def)
  show "calm_users alice_db" using sc by (simp add: calm_users_def well_users_def alice_db_def scans_def)
  show "user_view alice_db = [''u1'' \<mapsto> alice\<lparr>u_Password := ''#secret''\<rparr>]"
    using sc by (auto simp: user_view_def view_def row_of_def alice_db_def id scanned_eq)
qed

lemma login_exact_witness:
  "(\<exists>tok. Login plain_jwt plain_crypt demo_tm background 0 ''alice'' ''secret'' (Some alice_db) = (Inr tok, Some alice_db)) \<and>
   Login plain_jwt plain_crypt demo_tm background 0 ''alice'' ''guess'' (Some alice_db) =
     (Inl (Sentinel ErrInvalidCredentials), Some alice_db)"
proof -
  have c: "ctx_err background = None" by (simp add: background_def)
  have cr: "credentials plain_crypt alice_db ''alice'' pw u \<longleftrightarrow> u = alice\<lparr>u_Password := ''#secret''\<rparr> \<and> pw = ''secret''" for pw u
    by (auto simp: credentials_def alice_db_facts(2) plain_crypt_def alice_def split: if_splits)
  have g: "\<exists>tok. Generate plain_jwt demo_tm 0 (Some u) = Inr tok" for u
    by (simp add: Generate_def tm_sign_def plain_jwt_def)
  have "\<exists>tok. Login plain_jwt plain_crypt demo_tm background 0 ''alice'' ''secret'' (Some alice_db) = (Inr tok, Some alice_db)"
    using login_exact [OF alice_db_facts(1) c, of plain_crypt "''alice''" "''secret''" plain_jwt demo_tm 0] cr
      g [of "alice\<lparr>u_Password := ''#secret''\<rparr>"] by auto
  moreover have "Login plain_jwt plain_crypt demo_tm background 0 ''alice'' ''guess'' (Some alice_db) =
     (Inl (Sentinel ErrInvalidCredentials), Some alice_db)"
    using login_exact [OF alice_db_facts(1) c, of plain_crypt "''alice''" "''guess''" plain_jwt demo_tm 0] cr by simp
  ultimately show ?thesis by blast
qed

text \<open>Revoking a stored client succeeds on a healthy store; from then on its API key is never exchanged,
  but, contrary to the comment on \<open>RevokeClient\<close>, a token issued to it before is still accepted by
  \<open>Parse\<close> until it expires, since no filter looks the client up.\<close>

theorem revoke_keeps_tokens:
  assumes "jwt_faithful L" "calm_clients db" "ctx_err cx = None" "client_view db k = Some cl" "storable_client cl"
    and "GenerateClientToken L tm now (Some cl) = Inr tok"
  shows "\<exists>db'. RevokeClient cx k db = (None, db') \<and> calm_clients db' \<and>
    (\<forall>key t tok' c'. fst (ExchangeAPIKey L K tm cx t key db') = Inr (tok', c') \<longrightarrow> c_ClientID c' \<noteq> k) \<and>
    (\<forall>w. now_of w < jwt_date L (now + tm_duration tm) \<longrightarrow> now_of (tick w) \<le> jwt_date L (now + tm_duration tm) \<longrightarrow>
       Parse L tm w tok = Inr (client_claims L tm now cl))"
proof -
  have g: "Client_GetByID cx k db = (Inr cl, db)" by (rule Client_Get_found [OF assms(2,3,4)])
  have well: "well_clients db" using assms(2) by (simp add: calm_clients_def)
  obtain r where "cr_client_id r = k" "scanClient r = Inr cl" using client_view_Some [OF well assms(4)] by blast
  then have id: "c_ClientID cl = k" using scanClient_id by blast
  let ?c = "cl\<lparr>c_Status := ClientStatusRevoked, c_APIKeyHash := []\<rparr>"
  have st: "storable_client ?c" using assms(5) by (simp add: storable_client_def)
  obtain db' where db': "Client_Update cx (Some ?c) db = (None, db')" "calm_clients db'"
      "client_view db' = (client_view db)(k \<mapsto> merged_client cl ?c)"
    using Client_Update_found [OF assms(2,3) st] assms(4) id by auto
  have rv: "RevokeClient cx k db = (None, db')" using g db'(1) by (simp add: RevokeClient_def)
  have "c_ClientID c' \<noteq> k" if "fst (ExchangeAPIKey L K tm cx t key db') = Inr (tok', c')" for key t tok' c'
  proof
    assume k: "c_ClientID c' = k"
    let ?cs = "map (scanned scanClient) (client_order (clients db'))"
    have "match_key K key ?cs = Some c'"
      using that Client_List_calm(1) [OF db'(2) assms(3)]
      by (auto simp: ExchangeAPIKey_def split: if_splits option.splits sum.splits)
    then have "c' \<in> set ?cs" "c_Status c' \<noteq> ClientStatusRevoked" using match_key_Some by blast+
    then have "client_view db' (c_ClientID c') = Some c'" using Client_List_calm(2) [OF db'(2) assms(3)] by blast
    then have "c' = merged_client cl ?c" using k db'(3) by simp
    then show False using \<open>c_Status c' \<noteq> ClientStatusRevoked\<close> by (simp add: merged_client_def)
  qed
  moreover have "Parse L tm w tok = Inr (client_claims L tm now cl)"
    if "now_of w < jwt_date L (now + tm_duration tm)" "now_of (tick w) \<le> jwt_date L (now + tm_duration tm)" for w
  proof -
    have "tm_sign L tm (client_claims L tm now cl) = Inr tok"
      using assms(6) by (auto simp: GenerateClientToken_def split: if_splits)
    from Parse_signed [OF assms(1) this] that show ?thesis by (simp add: client_claims_def)
  qed
  ultimately show ?thesis using rv db'(2) by blast
qed

lemma revoke_keeps_tokens_witness:
  "\<exists>db' tok. RevokeClient background ''m1'' one_clientdb = (None, db') \<and>
     (\<nexists>tok' c'. fst (ExchangeAPIKey plain_jwt plain_crypt demo_tm background 0 ''aos_7'' db') = Inr (tok', c') \<and>
        c_ClientID c' = ''m1'') \<and>
     Parse plain_jwt demo_tm demo_world tok = Inr (client_claims plain_jwt demo_tm (now_of demo_world) client1)"
proof -
  obtain tok where tok: "GenerateClientToken plain_jwt demo_tm (now_of demo_world) (Some client1) = Inr tok"
    by (simp add: GenerateClientToken_def tm_sign_def plain_jwt_def client1_def)
  have v: "client_view one_clientdb ''m1'' = Some client1" by (simp add: one_clientdb_facts(2))
  have c: "ctx_err background = None" by (simp add: background_def)
  obtain db' where db': "RevokeClient background ''m1'' one_clientdb = (None, db')" "calm_clients db'"
      "\<forall>key t tok' c'. fst (ExchangeAPIKey plain_jwt plain_crypt demo_tm background t key db') = Inr (tok', c') \<longrightarrow> c_ClientID c' \<noteq> ''m1''"
      "\<forall>w. now_of w < jwt_date plain_jwt (now_of demo_world + tm_duration demo_tm) \<longrightarrow>
         now_of (tick w) \<le> jwt_date plain_jwt (now_of demo_world + tm_duration demo_tm) \<longrightarrow>
         Parse plain_jwt demo_tm w tok = Inr (client_claims plain_jwt demo_tm (now_of demo_world) client1)"
    using revoke_keeps_tokens [OF plain_jwt_faithful one_clientdb_facts(1) c v storable_client1(1) tok] by blast
  have t: "now_of demo_world < jwt_date plain_jwt (now_of demo_world + tm_duration demo_tm)"
      "now_of (tick demo_world) \<le> jwt_date plain_jwt (now_of demo_world + tm_duration demo_tm)"
    by (simp_all add: plain_jwt_def demo_tm_def NewTokenManager_def demo_world_def now_of_def Truncate_def new_year_2026_def)
  show ?thesis using db'(1,3,4) t by blast
qed

definition default_admin :: "world \<Rightarrow> string \<Rightarrow> User" where
  "default_admin w h = \<lparr>u_UserID = uuid_of w, u_Username = defaultAdminUsername, u_Password = h, u_Roles = [RoleAdmin],
      u_CommunityID = [], u_CreatedAt = now_of w, u_UpdatedAt = now_of w\<rparr>"

lemma user_view_nonempty: "user_view db k = Some u \<Longrightarrow> users db \<noteq> []"
  by (auto simp: user_view_def view_def row_of_def)

lemma EnsureDefaultAdmin_nonempty:
  assumes "calm_users db" "ctx_err c = None" "users db \<noteq> []"
  shows "EnsureDefaultAdmin K c w (Some db) = (None, Some db)"
proof -
  let ?rows = "sort_key (\<lambda>r. (ur_created_at r, ur_user_id r)) (users db)"
  have "scans scanUser ?rows" using assms(1) by (auto simp: calm_users_def well_users_def scans_def)
  then have l: "User_List c db = (Inr (map (scanned scanUser) ?rows), db)"
    using assms(2) calm_users_simps [OF assms(1)] by (simp add: User_List_def scan_rows_scans)
  have "length (map (scanned scanUser) ?rows) \<noteq> 0" using assms(3) by simp
  then have "map (scanned scanUser) ?rows \<noteq> []" by fastforce
  then show ?thesis using l by (simp add: EnsureDefaultAdmin_def)
qed

text \<open>In an empty user table \<open>EnsureDefaultAdmin\<close> creates the one user admin, with the role admin, who
  can then log in with the documented password; run again it changes nothing.\<close>

theorem default_admin_once:
  assumes "bcrypt_ok K" "calm_users db" "users db = []" "ctx_err c = None" "kg_clock_ok w"
    and "bcrypt_hash K (w_pos w) defaultAdminPassword = Inr h"
  shows "\<exists>db' u. EnsureDefaultAdmin K c w (Some db) = (None, Some db') \<and> calm_users db' \<and>
    user_view db' = [u_UserID u \<mapsto> u] \<and> u_Roles u = [RoleAdmin] \<and>
    credentials K db' defaultAdminUsername defaultAdminPassword u \<and>
    (\<forall>w'. EnsureDefaultAdmin K c w' (Some db') = (None, Some db'))"
proof -
  let ?u = "default_admin w h"
  have u: "u_Username ?u = defaultAdminUsername" "u_Password ?u = h" "u_Roles ?u = [RoleAdmin]"
    by (simp_all add: default_admin_def)
  have times: "user_times_ok ?u" using kg_clock_now [OF assms(5)] by (simp add: user_times_ok_def default_admin_def)
  have view0: "user_view db = Map.empty" using assms(3) by (auto simp: user_view_def view_def row_of_def)
  have "\<not> name_taken (user_view db) ?u" "user_view db (u_UserID ?u) = None" by (simp_all add: view0 name_taken_def)
  then obtain db' where db': "User_Create c (Some ?u) db = (None, db')" "calm_users db'"
      "user_view db' = (user_view db)(u_UserID ?u \<mapsto> ?u)"
    using User_Create_new [OF assms(2,4) times] by blast
  have list0: "User_List c db = (Inr [], db)"
    using assms(2-4) calm_users_simps [OF assms(2)] by (simp add: User_List_def)
  have first: "EnsureDefaultAdmin K c w (Some db) = (None, Some db')"
    using list0 db'(1) assms(6) by (simp add: EnsureDefaultAdmin_def HashPassword_def default_admin_def)
  have at: "user_view db' (u_UserID ?u) = Some ?u" by (simp add: db'(3))
  have again: "EnsureDefaultAdmin K c w' (Some db') = (None, Some db')" for w'
    by (rule EnsureDefaultAdmin_nonempty [OF db'(2) assms(4) user_view_nonempty [OF at]])
  have "bcrypt_match K h defaultAdminPassword" using assms(1,6) unfolding bcrypt_ok_def by blast
  then have "credentials K db' defaultAdminUsername defaultAdminPassword ?u"
    unfolding credentials_def u using at by (intro conjI refl)
  then show ?thesis using first db'(2) db'(3) [unfolded view0] again u(3) by blast
qed

lemma default_admin_once_witness:
  "\<exists>db'. EnsureDefaultAdmin plain_crypt background demo_world (Some empty_userdb) = (None, Some db') \<and>
     EnsureDefaultAdmin plain_crypt background demo_world (Some db') = (None, Some db')"
proof -
  have "bcrypt_hash plain_crypt (w_pos demo_world) defaultAdminPassword = Inr (CHR ''#'' # defaultAdminPassword)"
    by (simp add: plain_crypt_def)
  moreover have "kg_clock_ok demo_world" by (simp add: kg_clock_ok_def demo_world_def new_year_2026_def year_10000_def)
  moreover have "users empty_userdb = []" "ctx_err background = None" by (simp_all add: empty_userdb_def background_def)
  ultimately show ?thesis
    using default_admin_once [OF plain_crypt_ok calm_empty_userdb(1), of background demo_world] by blast
qed

text \<open>The node filter and the service's \<open>CanAccessNode\<close> agree: for an authenticated request that names a
  stored node the request is served exactly when \<open>CanAccessNode\<close> allows it, and refused with 403
  otherwise; a missing node gives 404 to everyone but an admin.\<close>

theorem node_access_agrees:
  assumes "rq_claims r = Some cl" "rq_nodeId r \<noteq> []" "calm_db (kg_db k)" "ctx_err (rq_ctx r) = None"
  shows "RequireNodeAccess r k =
    (if RoleAdmin \<in> set (cl_Roles cl) then Serve r
     else case node_view (kg_db k) (rq_nodeId r) of
            None \<Rightarrow> AuthError StatusNotFound ''no such node''
          | Some n \<Rightarrow> if CanAccessNode (Some cl) (Some n) then Serve r
                      else AuthError StatusForbidden ''not your community'', k)"
proof (cases "node_view (kg_db k) (rq_nodeId r)")
  case None
  then have "KG_GetNode (rq_ctx r) (rq_nodeId r) k = (Inl (node_missing (rq_nodeId r)), k)"
    using NodeRepo_Get_missing [OF assms(3,4)] by (simp add: KG_GetNode_def)
  then show ?thesis using None assms(1,2) by (simp add: RequireNodeAccess_def ClaimsFromContext_def node_missing_def)
next
  case (Some n)
  then have "KG_GetNode (rq_ctx r) (rq_nodeId r) k = (Inr n, k)"
    using NodeRepo_Get_found [OF assms(3,4)] by (simp add: KG_GetNode_def)
  then show ?thesis using Some assms(1,2) by (simp add: RequireNodeAccess_def ClaimsFromContext_def CanAccessNode_def)
qed

definition node_request :: http_request where
  "node_request = key_request\<lparr>rq_nodeId := ''sat-9'', rq_claims := Some (client_claims plain_jwt demo_tm 0 client1)\<rparr>"

lemma node_access_agrees_witness:
  "fst (RequireNodeAccess node_request demo_kg) = AuthError StatusNotFound ''no such node''"
proof -
  have "calm_db (kg_db demo_kg)" using demo_kg_ok(3) by (simp add: calm_kg_def calm_db_def)
  moreover have "rq_claims node_request = Some (client_claims plain_jwt demo_tm 0 client1)" "rq_nodeId node_request \<noteq> []"
      "ctx_err (rq_ctx node_request) = None"
    by (simp_all add: node_request_def key_request_def background_def)
  moreover have "RoleAdmin \<notin> set (cl_Roles (client_claims plain_jwt demo_tm 0 client1))"
    by (simp add: client_claims_def client1_def)
  ultimately show ?thesis
    using node_access_agrees [of node_request "client_claims plain_jwt demo_tm 0 client1" demo_kg] demo_kg_ok(6) by simp
qed

end
