(* ===== verification/PluginManager.thy ===== *)
theory PluginManager
  imports KGService
begin

text \<open>
  \<open>internal/plugin\<close>: manifests and their loading from a directory, the manager of plugin
  instances and extension points, the global registry that \<open>init\<close> functions fill, and the
  broker through which plugins reach the core. Parsers, adapters, subscribers and hooks are
  values of any type: the manager only stores them under a name. The file system and the YAML
  and JSON decoders are arguments.
\<close>

subsection \<open>Telemetry frames (\<open>extensions.go\<close>)\<close>

record TelemetryFrame =
  tf_SatelliteID :: string
  tf_Timestamp :: time
  tf_Parameters :: "gomap option"
  tf_Quality :: string

text \<open>A parser: its name and its \<open>Parse\<close>, which may read the clock.\<close>

record parser =
  ps_Name :: string
  ps_Parse :: "world \<Rightarrow> string \<Rightarrow> TelemetryFrame list res \<times> world"

subsection \<open>Manifests (\<open>manifest.go\<close>)\<close>

record Manifest =
  mf_Name :: string
  mf_Version :: string
  mf_Description :: string
  mf_Author :: string
  mf_ExtensionPoints :: "string list"
  mf_Permissions :: "string list"
  mf_Dependencies :: "(string \<times> string) list"
  mf_EntryPoint :: string

definition named_manifest :: "string \<Rightarrow> Manifest" where
  "named_manifest name = \<lparr>mf_Name = name, mf_Version = [], mf_Description = [], mf_Author = [],
     mf_ExtensionPoints = [], mf_Permissions = [], mf_Dependencies = [], mf_EntryPoint = []\<rparr>"

definition Manifest_Validate :: "Manifest \<Rightarrow> verdict" where
  "Manifest_Validate m =
     (if mf_Name m = [] then Some (Errorf ''manifest name must not be empty'')
      else if mf_Version m = [] then Some (Errorf ''manifest version must not be empty'')
      else if mf_EntryPoint m = [] then Some (Errorf ''manifest entryPoint must not be empty'')
      else None)"

text \<open>\<open>strings.ToLower\<close> on ASCII, \<open>filepath.Ext\<close>, and \<open>filepath.Join\<close> up to the cleaning that
  names the same file.\<close>

definition to_lower :: "string \<Rightarrow> string" where
  "to_lower s = map lower_char s"

definition path_ext :: "string \<Rightarrow> string" where
  "path_ext p =
     (let base = takeWhile (\<lambda>c. c \<noteq> CHR ''/'') (rev p) in
      if CHR ''.'' \<in> set base then CHR ''.'' # rev (takeWhile (\<lambda>c. c \<noteq> CHR ''.'') base) else [])"

definition path_join :: "string \<Rightarrow> string \<Rightarrow> string" where
  "path_join dir name = dir @ ''/'' @ name"

record dir_entry =
  de_Name :: string
  de_IsDir :: bool

record file_system =
  fs_ReadDir :: "string \<Rightarrow> dir_entry list res"
  fs_ReadFile :: "string \<Rightarrow> string res"
  fs_Stat :: "string \<Rightarrow> bool"

record manifest_codec =
  mc_yaml :: "string \<Rightarrow> Manifest res"
  mc_json :: "string \<Rightarrow> Manifest res"

definition LoadManifest :: "file_system \<Rightarrow> manifest_codec \<Rightarrow> string \<Rightarrow> Manifest res" where
  "LoadManifest F K path =
     (case fs_ReadFile F path of
        Inl e \<Rightarrow> Inl (Wrap ''read manifest'' e)
      | Inr data \<Rightarrow>
        (let ext = to_lower (path_ext path);
             decoded = (if ext \<in> {''.yaml'', ''.yml''} then
                          (case mc_yaml K data of Inl e \<Rightarrow> Inl (Wrap ''parse YAML manifest'' e) | Inr m \<Rightarrow> Inr m)
                        else if ext = ''.json'' then
                          (case mc_json K data of Inl e \<Rightarrow> Inl (Wrap ''parse JSON manifest'' e) | Inr m \<Rightarrow> Inr m)
                        else Inl (Errorf (''unsupported manifest format: '' @ ext)))
         in case decoded of
              Inl e \<Rightarrow> Inl e
            | Inr m \<Rightarrow> (case Manifest_Validate m of Some e \<Rightarrow> Inl e | None \<Rightarrow> Inr m)))"

subsection \<open>The manager (\<open>manager.go\<close>)\<close>

abbreviation "StatusLoaded \<equiv> ''loaded''"
abbreviation "StatusStarted \<equiv> ''started''"
abbreviation "StatusStopped \<equiv> ''stopped''"
abbreviation "StatusError \<equiv> ''error''"

record PluginInstance =
  pi_Manifest :: Manifest
  pi_Status :: string
  pi_Error :: verdict

record ('p, 'a, 's, 'h) Manager =
  pm_plugins :: "string \<rightharpoonup> PluginInstance"
  pm_parsers :: "string \<rightharpoonup> 'p"
  pm_adapters :: "string \<rightharpoonup> 'a"
  pm_subs :: "string \<rightharpoonup> 's"
  pm_hooks :: "string \<rightharpoonup> 'h"

definition NewManager :: "('p, 'a, 's, 'h) Manager" where
  "NewManager = \<lparr>pm_plugins = Map.empty, pm_parsers = Map.empty, pm_adapters = Map.empty,
     pm_subs = Map.empty, pm_hooks = Map.empty\<rparr>"

definition ensureInstance :: "string \<Rightarrow> ('p, 'a, 's, 'h) Manager \<Rightarrow> ('p, 'a, 's, 'h) Manager" where
  "ensureInstance name m =
     (if name \<in> dom (pm_plugins m) then m
      else m\<lparr>pm_plugins := (pm_plugins m)(name \<mapsto>
        \<lparr>pi_Manifest = named_manifest name, pi_Status = StatusLoaded, pi_Error = None\<rparr>)\<rparr>)"

definition RegisterParser :: "string \<Rightarrow> 'p \<Rightarrow> ('p, 'a, 's, 'h) Manager \<Rightarrow> ('p, 'a, 's, 'h) Manager" where
  "RegisterParser name x m = ensureInstance name (m\<lparr>pm_parsers := (pm_parsers m)(name \<mapsto> x)\<rparr>)"

definition RegisterAdapter :: "string \<Rightarrow> 'a \<Rightarrow> ('p, 'a, 's, 'h) Manager \<Rightarrow> ('p, 'a, 's, 'h) Manager" where
  "RegisterAdapter name x m = ensureInstance name (m\<lparr>pm_adapters := (pm_adapters m)(name \<mapsto> x)\<rparr>)"

definition RegisterSubscriber :: "string \<Rightarrow> 's \<Rightarrow> ('p, 'a, 's, 'h) Manager \<Rightarrow> ('p, 'a, 's, 'h) Manager" where
  "RegisterSubscriber name x m = ensureInstance name (m\<lparr>pm_subs := (pm_subs m)(name \<mapsto> x)\<rparr>)"

definition RegisterHook :: "string \<Rightarrow> 'h \<Rightarrow> ('p, 'a, 's, 'h) Manager \<Rightarrow> ('p, 'a, 's, 'h) Manager" where
  "RegisterHook name x m = ensureInstance name (m\<lparr>pm_hooks := (pm_hooks m)(name \<mapsto> x)\<rparr>)"

definition GetParser :: "('p, 'a, 's, 'h) Manager \<Rightarrow> string \<Rightarrow> 'p option" where
  "GetParser m name = pm_parsers m name"

definition GetAdapter :: "('p, 'a, 's, 'h) Manager \<Rightarrow> string \<Rightarrow> 'a option" where
  "GetAdapter m name = pm_adapters m name"

text \<open>A \<open>range\<close> over a map visits its keys in some order \<open>ks\<close>; the lists are then sorted.\<close>

definition ListParsers :: "string list \<Rightarrow> ('p, 'a, 's, 'h) Manager \<Rightarrow> string list" where
  "ListParsers ks m = sort ks"

definition ListAdapters :: "string list \<Rightarrow> ('p, 'a, 's, 'h) Manager \<Rightarrow> string list" where
  "ListAdapters ks m = sort ks"

definition ListPlugins :: "string list \<Rightarrow> ('p, 'a, 's, 'h) Manager \<Rightarrow> PluginInstance list" where
  "ListPlugins ks m = sort_key (\<lambda>p. mf_Name (pi_Manifest p)) (map (\<lambda>k. the (pm_plugins m k)) ks)"

definition isManifestFile :: "string \<Rightarrow> bool" where
  "isManifestFile name \<longleftrightarrow> to_lower name \<in> {''plugin.yaml'', ''plugin.yml'', ''manifest.json''}"

definition findManifestInDir :: "file_system \<Rightarrow> string \<Rightarrow> string" where
  "findManifestInDir F dir =
     (case filter (fs_Stat F) (map (path_join dir) [''plugin.yaml'', ''plugin.yml'', ''manifest.json'']) of
        [] \<Rightarrow> [] | path # _ \<Rightarrow> path)"

definition stripExt :: "string \<Rightarrow> string" where
  "stripExt name = take (length name - length (path_ext name)) name"

definition put_plugin :: "string \<Rightarrow> PluginInstance \<Rightarrow> ('p, 'a, 's, 'h) Manager \<Rightarrow> ('p, 'a, 's, 'h) Manager" where
  "put_plugin name p m = m\<lparr>pm_plugins := (pm_plugins m)(name \<mapsto> p)\<rparr>"

text \<open>One turn of the loop over the directory's entries.\<close>

definition load_entry :: "file_system \<Rightarrow> manifest_codec \<Rightarrow> string \<Rightarrow> dir_entry \<Rightarrow> ('p, 'a, 's, 'h) Manager \<Rightarrow>
    ('p, 'a, 's, 'h) Manager" where
  "load_entry F K dir entry m =
     (let (manifestPath, fallbackName) =
            (if de_IsDir entry then (findManifestInDir F (path_join dir (de_Name entry)), de_Name entry)
             else if isManifestFile (de_Name entry) then (path_join dir (de_Name entry), stripExt (de_Name entry))
             else ([], []))
      in if manifestPath = [] then m
         else case LoadManifest F K manifestPath of
                Inl err \<Rightarrow> put_plugin fallbackName
                  \<lparr>pi_Manifest = named_manifest fallbackName, pi_Status = StatusError, pi_Error = Some err\<rparr> m
              | Inr manifest \<Rightarrow> put_plugin (mf_Name manifest)
                  \<lparr>pi_Manifest = manifest, pi_Status = StatusLoaded, pi_Error = None\<rparr> m)"

definition LoadFromDirectory :: "file_system \<Rightarrow> manifest_codec \<Rightarrow> string \<Rightarrow> ('p, 'a, 's, 'h) Manager \<Rightarrow>
    verdict \<times> ('p, 'a, 's, 'h) Manager" where
  "LoadFromDirectory F K dir m =
     (case fs_ReadDir F dir of
        Inl e \<Rightarrow> (Some (Wrap ''read plugin directory'' e), m)
      | Inr entries \<Rightarrow> (None, fold (load_entry F K dir) entries m))"

definition Unload :: "string \<Rightarrow> ('p, 'a, 's, 'h) Manager \<Rightarrow> verdict \<times> ('p, 'a, 's, 'h) Manager" where
  "Unload name m =
     (if name \<notin> dom (pm_plugins m) then (Some (Errorf (''plugin does not exist: '' @ name)), m)
      else (None, m\<lparr>pm_plugins := (pm_plugins m)(name := None), pm_parsers := (pm_parsers m)(name := None),
        pm_adapters := (pm_adapters m)(name := None), pm_subs := (pm_subs m)(name := None),
        pm_hooks := (pm_hooks m)(name := None)\<rparr>))"

definition StartAll :: "('p, 'a, 's, 'h) Manager \<Rightarrow> ('p, 'a, 's, 'h) Manager" where
  "StartAll m = m\<lparr>pm_plugins := (\<lambda>k. map_option (\<lambda>p. p\<lparr>pi_Status := StatusStarted\<rparr>) (pm_plugins m k))\<rparr>"

definition StopAll :: "('p, 'a, 's, 'h) Manager \<Rightarrow> ('p, 'a, 's, 'h) Manager" where
  "StopAll m = m\<lparr>pm_plugins := (\<lambda>k. map_option (\<lambda>p. p\<lparr>pi_Status := StatusStopped\<rparr>) (pm_plugins m k))\<rparr>"

text \<open>
  The hooks run one after the other, in the order \<open>ks\<close> of the snapshot; \<open>run\<close> is what a hook
  does to the state it can reach and whether it fails, which is only logged.
\<close>

definition snapshotHooks :: "string list \<Rightarrow> ('p, 'a, 's, 'h) Manager \<Rightarrow> 'h list" where
  "snapshotHooks ks m = map (\<lambda>k. the (pm_hooks m k)) ks"

fun run_hooks :: "('h \<Rightarrow> hook_call \<Rightarrow> 'x \<Rightarrow> verdict \<times> 'x) \<Rightarrow> hook_call \<Rightarrow> 'h list \<Rightarrow> 'x \<Rightarrow> 'x" where
  "run_hooks run call [] x = x"
| "run_hooks run call (h # hs) x = (case run h call x of (_, x1) \<Rightarrow> run_hooks run call hs x1)"

definition TriggerNodeRegistered :: "('h \<Rightarrow> hook_call \<Rightarrow> 'x \<Rightarrow> verdict \<times> 'x) \<Rightarrow> string list \<Rightarrow>
    ('p, 'a, 's, 'h) Manager \<Rightarrow> Node \<Rightarrow> 'x \<Rightarrow> 'x" where
  "TriggerNodeRegistered run ks m node = run_hooks run (HookRegistered node) (snapshotHooks ks m)"

definition TriggerNodeUpdated :: "('h \<Rightarrow> hook_call \<Rightarrow> 'x \<Rightarrow> verdict \<times> 'x) \<Rightarrow> string list \<Rightarrow>
    ('p, 'a, 's, 'h) Manager \<Rightarrow> Node \<Rightarrow> gomap \<Rightarrow> 'x \<Rightarrow> 'x" where
  "TriggerNodeUpdated run ks m node changes = run_hooks run (HookUpdated node changes) (snapshotHooks ks m)"

definition TriggerNodeDeleted :: "('h \<Rightarrow> hook_call \<Rightarrow> 'x \<Rightarrow> verdict \<times> 'x) \<Rightarrow> string list \<Rightarrow>
    ('p, 'a, 's, 'h) Manager \<Rightarrow> string \<Rightarrow> 'x \<Rightarrow> 'x" where
  "TriggerNodeDeleted run ks m nodeID = run_hooks run (HookDeleted nodeID) (snapshotHooks ks m)"

subsection \<open>The global registry\<close>

record ('p, 'a, 's, 'h) globals =
  gr_parsers :: "string \<rightharpoonup> 'p"
  gr_adapters :: "string \<rightharpoonup> 'a"
  gr_subs :: "string \<rightharpoonup> 's"
  gr_hooks :: "string \<rightharpoonup> 'h"

definition GlobalRegisterParser :: "string \<Rightarrow> 'p \<Rightarrow> ('p, 'a, 's, 'h) globals \<Rightarrow> ('p, 'a, 's, 'h) globals" where
  "GlobalRegisterParser name x g = g\<lparr>gr_parsers := (gr_parsers g)(name \<mapsto> x)\<rparr>"

definition GlobalRegisterAdapter :: "string \<Rightarrow> 'a \<Rightarrow> ('p, 'a, 's, 'h) globals \<Rightarrow> ('p, 'a, 's, 'h) globals" where
  "GlobalRegisterAdapter name x g = g\<lparr>gr_adapters := (gr_adapters g)(name \<mapsto> x)\<rparr>"

definition GlobalRegisterSubscriber :: "string \<Rightarrow> 's \<Rightarrow> ('p, 'a, 's, 'h) globals \<Rightarrow> ('p, 'a, 's, 'h) globals" where
  "GlobalRegisterSubscriber name x g = g\<lparr>gr_subs := (gr_subs g)(name \<mapsto> x)\<rparr>"

definition GlobalRegisterHook :: "string \<Rightarrow> 'h \<Rightarrow> ('p, 'a, 's, 'h) globals \<Rightarrow> ('p, 'a, 's, 'h) globals" where
  "GlobalRegisterHook name x g = g\<lparr>gr_hooks := (gr_hooks g)(name \<mapsto> x)\<rparr>"

definition LoadGlobals :: "string list \<Rightarrow> string list \<Rightarrow> string list \<Rightarrow> string list \<Rightarrow>
    ('p, 'a, 's, 'h) globals \<Rightarrow> ('p, 'a, 's, 'h) Manager \<Rightarrow> ('p, 'a, 's, 'h) Manager" where
  "LoadGlobals pks aks sks hks g m =
     fold (\<lambda>k. RegisterHook k (the (gr_hooks g k))) hks
       (fold (\<lambda>k. RegisterSubscriber k (the (gr_subs g k))) sks
         (fold (\<lambda>k. RegisterAdapter k (the (gr_adapters g k))) aks
           (fold (\<lambda>k. RegisterParser k (the (gr_parsers g k))) pks m)))"

subsection \<open>The broker (\<open>broker.go\<close>)\<close>

definition Broker_PublishEvent :: "'b publisher \<Rightarrow> ctx \<Rightarrow> world \<Rightarrow> Event option \<Rightarrow> 'b \<Rightarrow> verdict \<times> 'b" where
  "Broker_PublishEvent publish c w e b =
     (if e = None then (Some (Errorf ''event must not be nil''), b) else publish c w e b)"

definition Broker_QueryNode :: "ctx \<Rightarrow> string \<Rightarrow> 'b kg \<Rightarrow> Node res \<times> 'b kg" where
  "Broker_QueryNode c nodeID k =
     (if nodeID = [] then (Inl (Errorf ''nodeID must not be empty''), k) else KG_GetNode c nodeID k)"

definition Broker_ListNodes :: "ctx \<Rightarrow> ListOptions \<Rightarrow> 'b kg \<Rightarrow> Node list res \<times> 'b kg" where
  "Broker_ListNodes c opts k = KG_ListNodes c opts k"

definition Broker_SubscribeEvents :: "SubscribeOptions \<Rightarrow> 's LocalBus \<Rightarrow> nat \<times> 's LocalBus" where
  "Broker_SubscribeEvents opts b = LocalBus_Subscribe opts b"

subsection \<open>Invariant\<close>

text \<open>Every instance is filed under its manifest's name, and every extension has an instance.\<close>

definition pm_inv :: "('p, 'a, 's, 'h) Manager \<Rightarrow> bool" where
  "pm_inv m \<longleftrightarrow> finite (dom (pm_plugins m)) \<and>
     (\<forall>k p. pm_plugins m k = Some p \<longrightarrow> mf_Name (pi_Manifest p) = k \<and>
        pi_Status p \<in> {StatusLoaded, StatusStarted, StatusStopped, StatusError}) \<and>
     dom (pm_parsers m) \<union> dom (pm_adapters m) \<union> dom (pm_subs m) \<union> dom (pm_hooks m) \<subseteq> dom (pm_plugins m)"

lemma named_manifest_name [simp]: "mf_Name (named_manifest k) = k"
  by (simp add: named_manifest_def)

lemma ensureInstance_frame [simp]:
  "pm_parsers (ensureInstance k m) = pm_parsers m" "pm_adapters (ensureInstance k m) = pm_adapters m"
  "pm_subs (ensureInstance k m) = pm_subs m" "pm_hooks (ensureInstance k m) = pm_hooks m"
  "dom (pm_plugins (ensureInstance k m)) = insert k (dom (pm_plugins m))"
  by (auto simp: ensureInstance_def)

text \<open>An update that files an instance under its own name and extensions under that name.\<close>

lemma pm_inv_step:
  assumes "pm_inv m" "finite (dom (pm_plugins m'))"
    and "\<And>k p. pm_plugins m' k = Some p \<Longrightarrow> pm_plugins m k = Some p \<or>
      (mf_Name (pi_Manifest p) = k \<and> pi_Status p \<in> {StatusLoaded, StatusStarted, StatusStopped, StatusError})"
    and "dom (pm_parsers m') \<union> dom (pm_adapters m') \<union> dom (pm_subs m') \<union> dom (pm_hooks m') \<subseteq> dom (pm_plugins m')"
  shows "pm_inv m'"
  using assms unfolding pm_inv_def by blast

lemma pm_inv_extensions:
  assumes "pm_inv m" "pm_plugins m' = pm_plugins m"
    and "dom (pm_parsers m') \<union> dom (pm_adapters m') \<union> dom (pm_subs m') \<union> dom (pm_hooks m') \<subseteq>
      insert k (dom (pm_plugins m))"
  shows "pm_inv (ensureInstance k m')"
proof (rule pm_inv_step [OF assms(1)])
  show "finite (dom (pm_plugins (ensureInstance k m')))" using assms(1,2) by (simp add: pm_inv_def)
  show "dom (pm_parsers (ensureInstance k m')) \<union> dom (pm_adapters (ensureInstance k m')) \<union>
      dom (pm_subs (ensureInstance k m')) \<union> dom (pm_hooks (ensureInstance k m')) \<subseteq> dom (pm_plugins (ensureInstance k m'))"
    using assms(2,3) by simp
next
  fix n p assume "pm_plugins (ensureInstance k m') n = Some p"
  then show "pm_plugins m n = Some p \<or> (mf_Name (pi_Manifest p) = n \<and>
      pi_Status p \<in> {StatusLoaded, StatusStarted, StatusStopped, StatusError})"
    using assms(2) by (auto simp: ensureInstance_def split: if_splits)
qed

lemma register_inv [preserves]:
  assumes "pm_inv m"
  shows "pm_inv (RegisterParser k x m)" "pm_inv (RegisterAdapter k y m)"
    "pm_inv (RegisterSubscriber k z m)" "pm_inv (RegisterHook k h m)"
  unfolding RegisterParser_def RegisterAdapter_def RegisterSubscriber_def RegisterHook_def
  by (rule pm_inv_extensions [OF assms]; use assms in \<open>auto simp: pm_inv_def\<close>)+

lemma put_plugin_inv [preserves]:
  assumes "pm_inv m" "mf_Name (pi_Manifest p) = k"
    and "pi_Status p \<in> {StatusLoaded, StatusStarted, StatusStopped, StatusError}"
  shows "pm_inv (put_plugin k p m)"
proof (rule pm_inv_step [OF assms(1)])
  show "finite (dom (pm_plugins (put_plugin k p m)))" using assms(1) by (simp add: pm_inv_def put_plugin_def)
  show "dom (pm_parsers (put_plugin k p m)) \<union> dom (pm_adapters (put_plugin k p m)) \<union>
      dom (pm_subs (put_plugin k p m)) \<union> dom (pm_hooks (put_plugin k p m)) \<subseteq> dom (pm_plugins (put_plugin k p m))"
    using assms(1) by (simp add: pm_inv_def put_plugin_def) blast
next
  fix n q assume "pm_plugins (put_plugin k p m) n = Some q"
  then show "pm_plugins m n = Some q \<or> (mf_Name (pi_Manifest q) = n \<and>
      pi_Status q \<in> {StatusLoaded, StatusStarted, StatusStopped, StatusError})"
    using assms(2,3) by (auto simp: put_plugin_def split: if_splits)
qed

lemma load_entry_inv: "pm_inv m \<Longrightarrow> pm_inv (load_entry F K dir e m)"
  by (auto simp: load_entry_def Let_def intro!: put_plugin_inv split: prod.splits sum.splits if_splits)

lemma fold_pm_inv: "pm_inv m \<Longrightarrow> (\<And>x m. pm_inv m \<Longrightarrow> pm_inv (f x m)) \<Longrightarrow> pm_inv (fold f xs m)"
  by (induction xs arbitrary: m) auto

lemma LoadFromDirectory_inv [preserves]: "pm_inv m \<Longrightarrow> pm_inv (snd (LoadFromDirectory F K dir m))"
  by (auto simp: LoadFromDirectory_def intro: fold_pm_inv load_entry_inv split: sum.splits)

lemma Unload_inv [preserves]: "pm_inv m \<Longrightarrow> pm_inv (snd (Unload k m))"
  by (auto simp: Unload_def pm_inv_def split: if_splits)

lemma status_dom:
  "dom (pm_plugins (StartAll m)) = dom (pm_plugins m)" "dom (pm_plugins (StopAll m)) = dom (pm_plugins m)"
  by (auto simp: StartAll_def StopAll_def)

lemma StartAll_inv [preserves]: "pm_inv m \<Longrightarrow> pm_inv (StartAll m)"
  unfolding pm_inv_def status_dom by (auto simp: StartAll_def)

lemma StopAll_inv [preserves]: "pm_inv m \<Longrightarrow> pm_inv (StopAll m)"
  unfolding pm_inv_def status_dom by (auto simp: StopAll_def)

lemma LoadGlobals_inv [preserves]: "pm_inv m \<Longrightarrow> pm_inv (LoadGlobals pks aks sks hks g m)"
  unfolding LoadGlobals_def by (intro fold_pm_inv) (simp_all add: preserves)

subsection \<open>The contract of an extension point\<close>

text \<open>
  What a pipeline relies on when it looks an extension up: it gets the value registered last
  under the name, none once the plugin has been unloaded.
\<close>

locale extension_point =
  fixes reg :: "string \<Rightarrow> 'x \<Rightarrow> 'm \<Rightarrow> 'm"
    and unload :: "string \<Rightarrow> 'm \<Rightarrow> 'm"
    and get :: "'m \<Rightarrow> string \<Rightarrow> 'x option"
    and ok :: "'m \<Rightarrow> bool"
  assumes get_reg: "get (reg n x m) = (get m)(n := Some x)"
    and get_unload: "ok m \<Longrightarrow> get (unload n m) = (get m)(n := None)"
    and reg_ok: "ok m \<Longrightarrow> ok (reg n x m)"
    and unload_ok: "ok m \<Longrightarrow> ok (unload n m)"
begin

definition run :: "(string \<times> 'x option) list \<Rightarrow> 'm \<Rightarrow> 'm" where
  "run = fold (\<lambda>(n, c) m. case c of None \<Rightarrow> unload n m | Some x \<Rightarrow> reg n x m)"

lemma run_get: "ok m \<Longrightarrow> ok (run cs m) \<and> get (run cs m) n =
    (case map_of (rev cs) n of None \<Rightarrow> get m n | Some c \<Rightarrow> c)"
proof (induction cs rule: rev_induct)
  case (snoc c cs)
  then have "ok (run cs m)" "get (run cs m) n = (case map_of (rev cs) n of None \<Rightarrow> get m n | Some c \<Rightarrow> c)"
    by blast+
  then show ?case
    by (cases c; cases "snd c") (auto simp: run_def get_reg get_unload reg_ok unload_ok)
qed (simp add: run_def)

lemma reg_all:
  "get (fold (\<lambda>k. reg k (f k)) ks m) = (\<lambda>n. if n \<in> set ks then Some (f n) else get m n)"
  by (induction ks arbitrary: m) (auto simp: get_reg fun_eq_iff)

end

lemma inv_no_entry:
  assumes "pm_inv m" "k \<notin> dom (pm_plugins m)"
  shows "pm_parsers m k = None" "pm_adapters m k = None" "pm_subs m k = None" "pm_hooks m k = None"
  using assms unfolding pm_inv_def by blast+

lemma extension_fields:
  "pm_parsers (RegisterParser n x m) = (pm_parsers m)(n \<mapsto> x)"
  "pm_adapters (RegisterAdapter n y m) = (pm_adapters m)(n \<mapsto> y)"
  "pm_subs (RegisterSubscriber n z m) = (pm_subs m)(n \<mapsto> z)"
  "pm_hooks (RegisterHook n h m) = (pm_hooks m)(n \<mapsto> h)"
  by (simp_all add: RegisterParser_def RegisterAdapter_def RegisterSubscriber_def RegisterHook_def)

lemma unload_fields:
  assumes "pm_inv m"
  shows "pm_parsers (snd (Unload n m)) = (pm_parsers m)(n := None)"
    "pm_adapters (snd (Unload n m)) = (pm_adapters m)(n := None)"
    "pm_subs (snd (Unload n m)) = (pm_subs m)(n := None)"
    "pm_hooks (snd (Unload n m)) = (pm_hooks m)(n := None)"
  by (cases "n \<in> dom (pm_plugins m)"; simp add: Unload_def fun_upd_idem inv_no_entry [OF assms])+

interpretation parsers: extension_point RegisterParser "\<lambda>n m. snd (Unload n m)" GetParser pm_inv
  by unfold_locales (simp_all add: GetParser_def extension_fields unload_fields preserves fun_eq_iff)

interpretation adapters: extension_point RegisterAdapter "\<lambda>n m. snd (Unload n m)" GetAdapter pm_inv
  by unfold_locales (simp_all add: GetAdapter_def extension_fields unload_fields preserves fun_eq_iff)

interpretation subscribers: extension_point RegisterSubscriber "\<lambda>n m. snd (Unload n m)" pm_subs pm_inv
  by unfold_locales (simp_all add: extension_fields unload_fields preserves)

interpretation hooks: extension_point RegisterHook "\<lambda>n m. snd (Unload n m)" pm_hooks pm_inv
  by unfold_locales (simp_all add: extension_fields unload_fields preserves)

subsection \<open>Sequences of operations\<close>

datatype ('p, 'a, 's, 'h) plugin_op =
    RegP string 'p | RegA string 'a | RegS string 's | RegH string 'h
  | LoadDir file_system manifest_codec string | Unl string | Start_all | Stop_all
  | Globals "string list" "string list" "string list" "string list" "('p, 'a, 's, 'h) globals"

fun plugin_exec :: "('p, 'a, 's, 'h) plugin_op \<Rightarrow> ('p, 'a, 's, 'h) Manager \<Rightarrow> ('p, 'a, 's, 'h) Manager" where
  "plugin_exec (RegP n x) m = RegisterParser n x m"
| "plugin_exec (RegA n x) m = RegisterAdapter n x m"
| "plugin_exec (RegS n x) m = RegisterSubscriber n x m"
| "plugin_exec (RegH n x) m = RegisterHook n x m"
| "plugin_exec (LoadDir F K dir) m = snd (LoadFromDirectory F K dir m)"
| "plugin_exec (Unl n) m = snd (Unload n m)"
| "plugin_exec Start_all m = StartAll m"
| "plugin_exec Stop_all m = StopAll m"
| "plugin_exec (Globals pks aks sks hks g) m = LoadGlobals pks aks sks hks g m"

text \<open>What a sequence of operations does to the parsers, without the manager.\<close>

fun parsers_after :: "('p, 'a, 's, 'h) plugin_op \<Rightarrow> (string \<rightharpoonup> 'p) \<Rightarrow> string \<rightharpoonup> 'p" where
  "parsers_after (RegP n x) f = f(n \<mapsto> x)"
| "parsers_after (Unl n) f = f(n := None)"
| "parsers_after (Globals pks aks sks hks g) f = (\<lambda>n. if n \<in> set pks then Some (the (gr_parsers g n)) else f n)"
| "parsers_after _ f = f"

lemma plugin_exec_inv: "pm_inv m \<Longrightarrow> pm_inv (plugin_exec p m)"
  by (cases p) (simp_all add: preserves)

lemma load_entry_parsers [simp]: "pm_parsers (load_entry F K dir e m) = pm_parsers m"
  by (simp add: load_entry_def Let_def put_plugin_def split: prod.splits sum.splits)

lemma fold_frame: "(\<And>x m. f (g x m) = f m) \<Longrightarrow> f (fold g xs m) = f m"
  by (induction xs arbitrary: m) simp_all

lemma other_registrations [simp]:
  "pm_parsers (RegisterAdapter n y m) = pm_parsers m" "pm_parsers (RegisterSubscriber n z m) = pm_parsers m"
  "pm_parsers (RegisterHook n h m) = pm_parsers m"
  by (simp_all add: RegisterAdapter_def RegisterSubscriber_def RegisterHook_def)

lemma GetParser_exec:
  assumes "pm_inv m"
  shows "GetParser (plugin_exec p m) = parsers_after p (GetParser m)"
proof (cases p)
  case (LoadDir F K dir)
  then show ?thesis
    by (simp add: GetParser_def fun_eq_iff LoadFromDirectory_def fold_frame [where f = pm_parsers] split: sum.splits)
next
  case (Globals pks aks sks hks g)
  then show ?thesis
    using parsers.reg_all [of "\<lambda>k. the (gr_parsers g k)" pks m]
    by (simp add: GetParser_def fun_eq_iff LoadGlobals_def fold_frame [where f = pm_parsers])
qed (use assms in \<open>simp_all add: GetParser_def fun_eq_iff extension_fields unload_fields StartAll_def StopAll_def\<close>)

lemma NewManager_inv: "pm_inv NewManager"
  by (simp add: NewManager_def pm_inv_def)

lemma NewManager_parsers: "GetParser NewManager = Map.empty"
  by (simp add: NewManager_def GetParser_def fun_eq_iff)

lemma plugin_run:
  assumes "pm_inv m"
  shows "pm_inv (fold plugin_exec ps m) \<and> GetParser (fold plugin_exec ps m) = fold parsers_after ps (GetParser m)"
  using assms
proof (induction ps arbitrary: m)
  case (Cons p ps)
  then show ?case using plugin_exec_inv [OF Cons.prems] GetParser_exec [OF Cons.prems] by simp
qed simp

lemma ListPlugins_names:
  assumes "pm_inv m" "enumerates ks (pm_plugins m)"
  shows "map (\<lambda>p. mf_Name (pi_Manifest p)) (ListPlugins ks m) = sort ks"
proof -
  let ?n = "\<lambda>p. mf_Name (pi_Manifest p)"
  have names: "map (\<lambda>k. ?n (the (pm_plugins m k))) ks = ks"
    using assms by (intro map_idI) (auto simp: pm_inv_def enumerates_in)
  have "mset (map ?n (ListPlugins ks m)) = mset (map (\<lambda>k. ?n (the (pm_plugins m k))) ks)"
    by (simp add: ListPlugins_def multiset.map_comp comp_def)
  then have "mset (map ?n (ListPlugins ks m)) = mset ks" by (simp only: names)
  moreover have "sorted (map ?n (ListPlugins ks m))" by (simp add: ListPlugins_def)
  ultimately show ?thesis by (metis properties_for_sort)
qed

subsection \<open>Properties\<close>

text \<open>C19: After any sequence of registrations, directory scans, unloads, starts, stops and
  imports of the global registry, the parser found under a name is the one registered last and
  not unloaded since; every registered extension has an instance; and the plugin list shows each
  instance once, under its manifest's name, in strict name order, whatever order the map is
  visited in.\<close>

theorem plugin_runs_consistent:
  assumes "m = fold plugin_exec ops NewManager" "enumerates ks (pm_plugins m)"
  shows "GetParser m = fold parsers_after ops Map.empty \<and>
    dom (pm_parsers m) \<union> dom (pm_adapters m) \<union> dom (pm_subs m) \<union> dom (pm_hooks m) \<subseteq> set ks \<and>
    map (\<lambda>p. mf_Name (pi_Manifest p)) (ListPlugins ks m) = sort ks \<and>
    sorted_wrt (<) (map (\<lambda>p. mf_Name (pi_Manifest p)) (ListPlugins ks m))"
proof -
  have inv: "pm_inv m" and p: "GetParser m = fold parsers_after ops Map.empty"
    using plugin_run [OF NewManager_inv, of ops] unfolding assms(1) NewManager_parsers by blast+
  have d: "distinct ks" "set ks = dom (pm_plugins m)" using assms(2) by (simp_all add: enumerates_def)
  have "dom (pm_parsers m) \<union> dom (pm_adapters m) \<union> dom (pm_subs m) \<union> dom (pm_hooks m) \<subseteq> set ks"
    using inv unfolding d(2) pm_inv_def by blast
  moreover have "sorted_wrt (<) (sort ks)" using d(1) by (simp add: strict_sorted_iff)
  ultimately show ?thesis using p by (simp add: ListPlugins_names [OF inv assms(2)])
qed

lemma plugin_runs_consistent_witness:
  "map (\<lambda>p. mf_Name (pi_Manifest p)) (ListPlugins [''tle'', ''json'']
     (fold plugin_exec [RegP ''json'' (1 :: nat), RegA ''mock'' (), RegP ''tle'' 2, Unl ''mock'', RegP ''json'' 3, Start_all]
       (NewManager :: (nat, unit, unit, unit) Manager))) = [''json'', ''tle'']"
proof -
  let ?ops = "[RegP ''json'' (1 :: nat), RegA ''mock'' (), RegP ''tle'' 2, Unl ''mock'', RegP ''json'' 3, Start_all]"
  let ?m = "fold plugin_exec ?ops (NewManager :: (nat, unit, unit, unit) Manager)"
  have "enumerates [''tle'', ''json''] (pm_plugins ?m)"
    by (auto simp: enumerates_def RegisterParser_def RegisterAdapter_def ensureInstance_def Unload_def StartAll_def
        NewManager_def split: if_splits)
  from plugin_runs_consistent [OF refl this] show ?thesis by simp
qed

end
