(* ===== verification/Float64.thy ===== *)
theory Float64
  imports GoJson
begin

text \<open>
  What the program uses of Go's \<open>float64\<close>: rounding to the nearest binary64 value, ties to even,
  the four operations on it, the comparison, the conversion to \<open>int64\<close> and
  \<open>strconv.ParseFloat\<close>. A finite value is the rational number it stands for; the sign of a zero
  is not kept, no division of the program has a negative zero below the line. \<open>Inf True\<close> is the
  negative infinity. Operations are not fused, as on amd64.
\<close>

subsection \<open>Rounding\<close>

definition rhe :: "rat \<Rightarrow> int" where
  "rhe x =
     (let f = \<lfloor>x\<rfloor>; r = x - of_int f in
      if r < 1 / 2 then f else if r > 1 / 2 then f + 1 else if even f then f else f + 1)"

text \<open>
  The unit in the last place at a magnitude: 53 bits of precision, exponents from \<open>-1074\<close>
  to \<open>971\<close>; the two fuels are the lengths of these ranges.
\<close>

fun ulp_up :: "nat \<Rightarrow> rat \<Rightarrow> rat" where
  "ulp_up 0 a = 1"
| "ulp_up (Suc k) a = (if a < 2 ^ 53 then 1 else 2 * ulp_up k (a / 2))"

fun ulp_down :: "nat \<Rightarrow> rat \<Rightarrow> rat" where
  "ulp_down 0 a = 1"
| "ulp_down (Suc k) a = (if 2 ^ 52 \<le> a then 1 else ulp_down k (2 * a) / 2)"

definition ulp :: "rat \<Rightarrow> rat" where
  "ulp a = (if a < 2 ^ 52 then ulp_down 1074 a else ulp_up 971 a)"

definition f64_round :: "rat \<Rightarrow> float64" where
  "f64_round q =
     (let a = \<bar>q\<bar>; m = of_int (rhe (a / ulp a)) * ulp a in
      if 2 ^ 1024 \<le> m then Inf (q < 0) else Fin (if q < 0 then - m else m))"

subsection \<open>Operations\<close>

fun f64_neg :: "float64 \<Rightarrow> float64" where
  "f64_neg (Fin q) = Fin (- q)"
| "f64_neg (Inf b) = Inf (\<not> b)"
| "f64_neg NaN = NaN"

fun f64_add :: "float64 \<Rightarrow> float64 \<Rightarrow> float64" where
  "f64_add (Fin p) (Fin q) = f64_round (p + q)"
| "f64_add (Inf a) (Fin q) = Inf a"
| "f64_add (Fin p) (Inf b) = Inf b"
| "f64_add (Inf a) (Inf b) = (if a = b then Inf a else NaN)"
| "f64_add _ _ = NaN"

definition f64_sub :: "float64 \<Rightarrow> float64 \<Rightarrow> float64" where
  "f64_sub x y = f64_add x (f64_neg y)"

fun f64_mul :: "float64 \<Rightarrow> float64 \<Rightarrow> float64" where
  "f64_mul (Fin p) (Fin q) = f64_round (p * q)"
| "f64_mul (Inf a) (Fin q) = (if q = 0 then NaN else Inf (a \<noteq> (q < 0)))"
| "f64_mul (Fin p) (Inf b) = (if p = 0 then NaN else Inf (b \<noteq> (p < 0)))"
| "f64_mul (Inf a) (Inf b) = Inf (a \<noteq> b)"
| "f64_mul _ _ = NaN"

fun f64_div :: "float64 \<Rightarrow> float64 \<Rightarrow> float64" where
  "f64_div (Fin p) (Fin q) = (if q = 0 then (if p = 0 then NaN else Inf (p < 0)) else f64_round (p / q))"
| "f64_div (Inf a) (Fin q) = Inf (a \<noteq> (q < 0))"
| "f64_div (Fin p) (Inf b) = Fin 0"
| "f64_div _ _ = NaN"

text \<open>Comparisons with a NaN are false.\<close>

fun f64_less :: "float64 \<Rightarrow> float64 \<Rightarrow> bool" where
  "f64_less (Fin p) (Fin q) = (p < q)"
| "f64_less (Inf a) (Fin q) = a"
| "f64_less (Fin p) (Inf b) = (\<not> b)"
| "f64_less (Inf a) (Inf b) = (a \<and> \<not> b)"
| "f64_less _ _ = False"

fun f64_le :: "float64 \<Rightarrow> float64 \<Rightarrow> bool" where
  "f64_le (Fin p) (Fin q) = (p \<le> q)"
| "f64_le (Inf a) (Fin q) = a"
| "f64_le (Fin p) (Inf b) = (\<not> b)"
| "f64_le (Inf a) (Inf b) = (a \<or> \<not> b)"
| "f64_le _ _ = False"

text \<open>Truncation towards zero; out of range the amd64 instruction gives the least value.\<close>

fun f64_to_int64 :: "float64 \<Rightarrow> int" where
  "f64_to_int64 (Fin q) =
     (let i = (if q < 0 then - \<lfloor>- q\<rfloor> else \<lfloor>q\<rfloor>) in if - (2 ^ 63) \<le> i \<and> i < 2 ^ 63 then i else - (2 ^ 63))"
| "f64_to_int64 _ = - (2 ^ 63)"

subsection \<open>\<open>strconv.ParseFloat\<close>\<close>

definition is_hex :: "char \<Rightarrow> bool" where
  "is_hex c \<longleftrightarrow> is_digit c \<or> of_char (lower_char c) \<in> {97..102 :: nat}"

definition hex_val :: "char \<Rightarrow> int" where
  "hex_val c = (if is_digit c then int (digit_val c) else of_char (lower_char c) - 87)"

definition base_val :: "int \<Rightarrow> string \<Rightarrow> int" where
  "base_val b s = foldl (\<lambda>n c. n * b + hex_val c) 0 s"

text \<open>Underscores may stand between digits, or between a base prefix and a digit. \<open>prev\<close> is the
  kind of the character before: start, digit, underscore or other.\<close>

datatype ukind = UStart | UDigit | UUnder | UOther

fun underscore_scan :: "bool \<Rightarrow> ukind \<Rightarrow> string \<Rightarrow> bool" where
  "underscore_scan hex prev [] = (prev \<noteq> UUnder)"
| "underscore_scan hex prev (c # cs) =
     (if is_digit c \<or> hex \<and> is_hex c then underscore_scan hex UDigit cs
      else if c = CHR ''_'' then prev = UDigit \<and> underscore_scan hex UUnder cs
      else prev \<noteq> UUnder \<and> underscore_scan hex UOther cs)"

text \<open>Mantissa: digits before and after the point, and the rest.\<close>

fun scan_mant :: "(char \<Rightarrow> bool) \<Rightarrow> bool \<Rightarrow> string \<Rightarrow> string \<times> string \<times> string" where
  "scan_mant d dot [] = ([], [], [])"
| "scan_mant d dot (c # cs) =
     (if c = CHR ''_'' then scan_mant d dot cs
      else if c = CHR ''.'' \<and> \<not> dot then scan_mant d True cs
      else if d c then
        (case scan_mant d dot cs of (i, f, r) \<Rightarrow> if dot then (i, c # f, r) else (c # i, f, r))
      else ([], [], c # cs))"

text \<open>Exponent after its letter: an optional sign, a digit, then digits and underscores to the end.\<close>

definition scan_exp :: "string \<Rightarrow> int option" where
  "scan_exp s =
     (let (sg, t) = (case s of [] \<Rightarrow> (1, [])
                     | c # cs \<Rightarrow> if c = CHR ''-'' then (- 1, cs) else if c = CHR ''+'' then (1, cs) else (1, s))
      in if t = [] \<or> \<not> is_digit (hd t) \<or> (\<exists>c\<in>set t. \<not> is_digit c \<and> c \<noteq> CHR ''_'') then None
         else Some (sg * base_val 10 (filter is_digit t)))"

definition pow_rat :: "rat \<Rightarrow> int \<Rightarrow> rat" where
  "pow_rat b e = (if 0 \<le> e then b ^ nat e else 1 / b ^ nat (- e))"

definition parse_unsigned :: "string \<Rightarrow> rat option" where
  "parse_unsigned s =
     (let hex = (2 < length s \<and> s ! 0 = CHR ''0'' \<and> lower_char (s ! 1) = CHR ''x'');
          body = (if hex then drop 2 s else s);
          (i, f, rest) = scan_mant (if hex then is_hex else is_digit) False body;
          m = (of_int (base_val (if hex then 16 else 10) (i @ f)) :: rat);
          scale = - int (length f)
      in if i @ f = [] then None
         else if CHR ''_'' \<in> set s \<and> \<not> underscore_scan hex (if hex then UDigit else UStart) body then None
         else if rest = [] then (if hex then None else Some (m * pow_rat 10 scale))
         else if lower_char (hd rest) \<noteq> (if hex then CHR ''p'' else CHR ''e'') then None
         else (case scan_exp (tl rest) of None \<Rightarrow> None
               | Some e \<Rightarrow> Some (if hex then m * pow_rat 16 scale * pow_rat 2 e else m * pow_rat 10 (scale + e))))"

text \<open>A syntax error or a value beyond the largest finite one is an error.\<close>

definition ParseFloat :: "string \<Rightarrow> float64 res" where
  "ParseFloat s =
     (let neg = (s \<noteq> [] \<and> hd s = CHR ''-'');
          body = (if s \<noteq> [] \<and> hd s \<in> {CHR ''-'', CHR ''+''} then tl s else s);
          word = map lower_char body
      in if word \<in> {''inf'', ''infinity''} then Inr (Inf neg)
         else if map lower_char s = ''nan'' then Inr NaN
         else case parse_unsigned body of
                None \<Rightarrow> Inl (External ''strconv.ParseFloat: invalid syntax'')
              | Some q \<Rightarrow>
                  (case f64_round (if neg then - q else q) of
                     Fin x \<Rightarrow> Inr (Fin x)
                   | _ \<Rightarrow> Inl (External ''strconv.ParseFloat: value out of range'')))"

text \<open>\<open>strconv.Atoi\<close> on texts too short to overflow.\<close>

definition Atoi :: "string \<Rightarrow> int res" where
  "Atoi s =
     (let neg = (s \<noteq> [] \<and> hd s = CHR ''-'');
          body = (if s \<noteq> [] \<and> hd s \<in> {CHR ''-'', CHR ''+''} then tl s else s)
      in if body = [] \<or> (\<exists>c\<in>set body. \<not> is_digit c) then Inl (External ''strconv.Atoi: invalid syntax'')
         else Inr (if neg then - base_val 10 body else base_val 10 body))"

subsection \<open>Rounding is exact on what 53 bits can hold\<close>

lemma rhe_int [simp]: "rhe (of_int i) = i"
  by (simp add: rhe_def Let_def)

lemma rhe_error: "\<bar>x - of_int (rhe x)\<bar> \<le> 1 / 2"
proof -
  have "of_int \<lfloor>x\<rfloor> \<le> x" "x < of_int \<lfloor>x\<rfloor> + 1" by linarith+
  then show ?thesis by (auto simp: rhe_def Let_def)
qed

lemma ulp_down_range: "0 < ulp_down k a \<and> ulp_down k a \<le> 1"
  by (induction k a rule: ulp_down.induct) auto

lemma ulp_up_range: "1 \<le> ulp_up k a"
  by (induction k a rule: ulp_up.induct) auto

lemma ulp_pos: "0 < ulp a"
  using ulp_down_range [of 1074 a] ulp_up_range [of 971 a] by (auto simp: ulp_def)

lemma ulp_down_int: "\<exists>n. inverse (ulp_down k a) = of_int n"
proof (induction k a rule: ulp_down.induct)
  case (2 k a)
  then show ?case
  proof (cases "2 ^ 52 \<le> a")
    case False
    then obtain n where "inverse (ulp_down k (2 * a)) = of_int n" using 2 by blast
    then have "inverse (ulp_down (Suc k) a) = of_int (2 * n)" using False by (simp add: field_simps)
    then show ?thesis by blast
  qed (auto intro: exI [of _ 1])
qed (auto intro: exI [of _ 1])

lemma ulp_up_small: "a < 2 ^ 53 \<Longrightarrow> ulp_up k a = 1"
  by (cases k) simp_all

text \<open>Integers below \<open>2 ^ 53\<close> in magnitude survive, and rounding never moves a value by more
  than half a unit in the last place.\<close>

lemma f64_round_int:
  assumes "\<bar>i\<bar> < 2 ^ 53"
  shows "f64_round (of_int i) = Fin (of_int i)"
proof -
  let ?a = "\<bar>of_int i\<bar> :: rat"
  have a: "?a = of_int \<bar>i\<bar>" by simp
  have lt: "?a < 2 ^ 53"
    unfolding a using assms by (metis of_int_less_iff of_int_numeral of_int_power)
  have "\<exists>k. ?a / ulp ?a = of_int k"
  proof (cases "?a < 2 ^ 52")
    case True
    obtain n where "inverse (ulp_down 1074 ?a) = of_int n" using ulp_down_int by blast
    then have "?a / ulp ?a = of_int (\<bar>i\<bar> * n)" using True by (simp add: ulp_def divide_inverse)
    then show ?thesis by blast
  next
    case False
    then have "ulp ?a = 1" unfolding ulp_def using ulp_up_small [OF lt] by simp
    then show ?thesis unfolding a by (metis div_by_1)
  qed
  then obtain k where k: "?a / ulp ?a = of_int k" by blast
  have "of_int (rhe (?a / ulp ?a)) * ulp ?a = of_int k * ulp ?a" unfolding k by simp
  also have "\<dots> = ?a" unfolding k [symmetric] using ulp_pos [of ?a] by simp
  finally have "of_int (rhe (?a / ulp ?a)) * ulp ?a = ?a" .
  moreover have "\<not> 2 ^ 1024 \<le> ?a"
  proof -
    have "(2 :: rat) ^ 53 \<le> 2 ^ 1024" by (intro power_increasing) auto
    then show ?thesis using lt by linarith
  qed
  ultimately show ?thesis by (auto simp: f64_round_def Let_def)
qed

lemma f64_round_numeral [simp]:
  "f64_round 0 = Fin 0" "f64_round 1 = Fin 1"
  "(numeral n :: int) < 2 ^ 53 \<Longrightarrow> f64_round (numeral n) = Fin (numeral n)"
  using f64_round_int [of 0] f64_round_int [of 1] f64_round_int [of "numeral n"] by simp_all

lemma f64_round_error:
  assumes "f64_round q = Fin x"
  shows "\<bar>x - q\<bar> \<le> ulp \<bar>q\<bar> / 2"
proof -
  let ?u = "ulp \<bar>q\<bar>"
  have u: "0 < ?u" by (rule ulp_pos)
  have "\<bar>\<bar>q\<bar> - of_int (rhe (\<bar>q\<bar> / ?u)) * ?u\<bar> = \<bar>\<bar>q\<bar> / ?u - of_int (rhe (\<bar>q\<bar> / ?u))\<bar> * ?u"
    using u by (simp add: field_simps abs_mult_pos)
  also have "\<dots> \<le> 1 / 2 * ?u" using rhe_error u by (intro mult_right_mono) auto
  finally have le: "\<bar>\<bar>q\<bar> - of_int (rhe (\<bar>q\<bar> / ?u)) * ?u\<bar> \<le> ?u / 2" by simp
  have "x = (if q < 0 then - (of_int (rhe (\<bar>q\<bar> / ?u)) * ?u) else of_int (rhe (\<bar>q\<bar> / ?u)) * ?u)"
    using assms by (simp only: f64_round_def Let_def float64.distinct float64.inject split: if_splits) simp_all
  then have "\<bar>x - q\<bar> = \<bar>\<bar>q\<bar> - of_int (rhe (\<bar>q\<bar> / ?u)) * ?u\<bar>" by (simp split: if_splits)
  then show ?thesis using le by simp
qed

end
