(* ===== verification/TelemetryParsers.thy ===== *)
theory TelemetryParsers
  imports PluginManager Float64
begin

text \<open>
  The two built-in parsers of \<open>internal/pipeline/telemetry\<close>: one JSON object per line
  (\<open>json_parser.go\<close>) and two-line orbital element sets (\<open>tle_parser.go\<close>). The decoder of
  \<open>encoding/json\<close> and the cube root of \<open>math\<close> are arguments.
\<close>

text \<open>The idiom \<open>if err != nil { return nil, fmt.Errorf("...: %w", err) }\<close>.\<close>

definition try_wrap :: "string \<Rightarrow> 'a res \<Rightarrow> ('a \<Rightarrow> 'b res) \<Rightarrow> 'b res" where
  "try_wrap msg r k = (case r of Inl e \<Rightarrow> Inl (Wrap msg e) | Inr x \<Rightarrow> k x)"

definition check_wrap :: "string \<Rightarrow> verdict \<Rightarrow> 'b res \<Rightarrow> 'b res" where
  "check_wrap msg v k = (case v of Some e \<Rightarrow> Inl (Wrap msg e) | None \<Rightarrow> k)"

lemma try_wrap_Inr: "try_wrap msg r k = Inr y \<longleftrightarrow> (\<exists>x. r = Inr x \<and> k x = Inr y)"
  by (auto simp: try_wrap_def split: sum.splits)

lemma check_wrap_Inr: "check_wrap msg v k = Inr y \<longleftrightarrow> v = None \<and> k = Inr y"
  by (auto simp: check_wrap_def split: option.splits)

subsection \<open>JSON lines (\<open>json_parser.go\<close>)\<close>

abbreviation newline :: char where "newline \<equiv> CHR 0x0A"

fun json_lines :: "(string \<Rightarrow> TelemetryFrame res) \<Rightarrow> nat \<Rightarrow> string list \<Rightarrow> world \<Rightarrow>
    TelemetryFrame list res \<times> world" where
  "json_lines decode i [] w = (Inr [], w)"
| "json_lines decode i (l # ls) w =
     (let line = trim_space l in
      if line = [] then json_lines decode (Suc i) ls w
      else case decode line of
             Inl e \<Rightarrow> (Inl (Wrap (''bad JSON on line '' @ show_nat (i + 1)) e), w)
           | Inr frame \<Rightarrow>
             (if tf_SatelliteID frame = [] then (Inl (Errorf (''no satelliteId on line '' @ show_nat (i + 1))), w)
              else
                (let (frame1, w1) = (if IsZero (tf_Timestamp frame)
                                     then (frame\<lparr>tf_Timestamp := now_of w\<rparr>, tick w) else (frame, w))
                 in case json_lines decode (Suc i) ls w1 of
                      (Inl e, w2) \<Rightarrow> (Inl e, w2)
                    | (Inr frames, w2) \<Rightarrow> (Inr (frame1 # frames), w2))))"

definition JSON_Parse :: "(string \<Rightarrow> TelemetryFrame res) \<Rightarrow> world \<Rightarrow> string \<Rightarrow> TelemetryFrame list res \<times> world" where
  "JSON_Parse decode w raw =
     (let txt = trim_space raw in
      if txt = [] then (Inl (Errorf ''empty input''), w)
      else case json_lines decode 0 (split_at newline txt) w of
             (Inl e, w1) \<Rightarrow> (Inl e, w1)
           | (Inr frames, w1) \<Rightarrow> (if frames = [] then Inl (Errorf ''no telemetry frame'') else Inr frames, w1))"

definition JSONParser :: "(string \<Rightarrow> TelemetryFrame res) \<Rightarrow> parser" where
  "JSONParser decode = \<lparr>ps_Name = ''json'', ps_Parse = JSON_Parse decode\<rparr>"

subsection \<open>Two-line element sets (\<open>tle_parser.go\<close>)\<close>

definition tleLineLength :: nat where "tleLineLength = 69"
definition earthRadiusKm :: float64 where "earthRadiusKm = Fin 6371"
definition earthGM :: float64 where "earthGM = f64_round (3986004418 / 10000)"
definition minutesPerDay :: float64 where "minutesPerDay = Fin 1440"

text \<open>\<open>s[a:b]\<close> within bounds.\<close>

definition cut :: "nat \<Rightarrow> nat \<Rightarrow> string \<Rightarrow> string" where
  "cut a b s = take (b - a) (drop a s)"

fun tle_groups :: "string list \<Rightarrow> string list \<Rightarrow> string list list" where
  "tle_groups [] current = (if current = [] then [] else [current])"
| "tle_groups (l # ls) current =
     (let line = trim_space l in
      if line = [] then (if current = [] then tle_groups ls [] else current # tle_groups ls [])
      else tle_groups ls (current @ [line]))"

definition splitTLEGroups :: "string \<Rightarrow> string list list" where
  "splitTLEGroups txt = tle_groups (split_at newline txt) []"

definition extractTLELines :: "string list \<Rightarrow> (string \<times> string) res" where
  "extractTLELines grp =
     (if length grp < 2 then Inl (Errorf ''an element set needs two lines'')
      else case dropWhile (\<lambda>l. \<not> has_prefix ''1 '' l) grp of
             [] \<Rightarrow> Inl (Errorf ''no first line'')
           | [line1] \<Rightarrow> Inl (Errorf ''no second line'')
           | line1 # line2 # _ \<Rightarrow>
               (if \<not> has_prefix ''2 '' line2 then Inl (Errorf ''second line must start with 2'')
                else Inr (line1, line2)))"

definition validateTLELine :: "string \<Rightarrow> char \<Rightarrow> verdict" where
  "validateTLELine line c =
     (if length line \<noteq> tleLineLength then Some (Errorf ''wrong line length'')
      else if line ! 0 \<noteq> c then Some (Errorf ''wrong line number'')
      else if line ! 1 \<noteq> CHR '' '' then Some (Errorf ''no blank after the line number'')
      else None)"

text \<open>A digit counts its value, a minus sign one, every other character nothing; the last
  character minus \<open>'0'\<close> is a byte difference.\<close>

definition check_weight :: "char \<Rightarrow> nat" where
  "check_weight c = (if is_digit c then digit_val c else if c = CHR ''-'' then 1 else 0)"

definition checksum :: "string \<Rightarrow> nat" where
  "checksum line = sum_list (map check_weight (take (tleLineLength - 1) line)) mod 10"

definition verifyChecksum :: "string \<Rightarrow> verdict" where
  "verifyChecksum line =
     (if length line \<noteq> tleLineLength then Some (Errorf ''wrong line length'')
      else if (of_char (line ! (tleLineLength - 1)) + 208) mod 256 \<noteq> checksum line
      then Some (Errorf ''checksum mismatch'')
      else None)"

definition start_of_year :: "int \<Rightarrow> time" where
  "start_of_year y = instant_of (nat y) 1 1 0 0 0"

definition parseEpoch :: "string \<Rightarrow> string \<Rightarrow> time res" where
  "parseEpoch yearStr dayStr =
     try_wrap ''bad year'' (Atoi (trim_space yearStr)) (\<lambda>year2.
     let fullYear = (if 57 \<le> year2 then 1900 + year2 else 2000 + year2) in
     try_wrap ''bad day of year'' (ParseFloat (trim_space dayStr)) (\<lambda>dayOfYear.
     if f64_less dayOfYear (Fin 1) then Inl (Errorf ''day of year must be at least 1'')
     else
       let offsetDays = f64_sub dayOfYear (Fin 1);
           dur = f64_to_int64 (f64_mul (f64_mul offsetDays (Fin 24)) (Fin 3600000000000))
       in Inr (start_of_year fullYear + dur)))"

text \<open>\<open>2.0 * math.Pi\<close> is a constant: the nearest value to it.\<close>

definition two_pi :: float64 where
  "two_pi = Fin (7074237752028440 / 1125899906842624)"

definition computeSemiMajorAxis :: "(float64 \<Rightarrow> float64) \<Rightarrow> float64 \<Rightarrow> float64" where
  "computeSemiMajorAxis cbrt periodMin =
     (let tSec = f64_mul periodMin (Fin 60);
          n = f64_div two_pi tSec
      in cbrt (f64_div earthGM (f64_mul n n)))"

definition parseTLEPair :: "(float64 \<Rightarrow> float64) \<Rightarrow> string \<Rightarrow> string \<Rightarrow> TelemetryFrame res" where
  "parseTLEPair cbrt line1 line2 =
     check_wrap ''first line format'' (validateTLELine line1 CHR ''1'') (
     check_wrap ''second line format'' (validateTLELine line2 CHR ''2'') (
     check_wrap ''first line checksum'' (verifyChecksum line1) (
     check_wrap ''second line checksum'' (verifyChecksum line2) (
     let noradID1 = trim_space (cut 2 7 line1);
         noradID2 = trim_space (cut 2 7 line2)
     in if noradID1 \<noteq> noradID2 then Inl (Errorf ''the NORAD ids differ'')
     else
     try_wrap ''epoch'' (parseEpoch (cut 18 20 line1) (cut 20 32 line1)) (\<lambda>epoch.
     try_wrap ''inclination'' (ParseFloat (trim_space (cut 8 16 line2))) (\<lambda>inclination.
     try_wrap ''raan'' (ParseFloat (trim_space (cut 17 25 line2))) (\<lambda>raan.
     try_wrap ''eccentricity'' (ParseFloat (''0.'' @ trim_space (cut 26 33 line2))) (\<lambda>eccentricity.
     try_wrap ''argument of perigee'' (ParseFloat (trim_space (cut 34 42 line2))) (\<lambda>argPerigee.
     try_wrap ''mean anomaly'' (ParseFloat (trim_space (cut 43 51 line2))) (\<lambda>meanAnomaly.
     try_wrap ''mean motion'' (ParseFloat (trim_space (cut 52 63 line2))) (\<lambda>meanMotion.
     if f64_le meanMotion (Fin 0) then Inl (Errorf ''mean motion must be positive'')
     else
       let period = f64_div minutesPerDay meanMotion;
           semiMajorAxis = computeSemiMajorAxis cbrt period;
           perigeeAlt = f64_sub (f64_mul semiMajorAxis (f64_sub (Fin 1) eccentricity)) earthRadiusKm;
           apogeeAlt = f64_sub (f64_mul semiMajorAxis (f64_add (Fin 1) eccentricity)) earthRadiusKm;
           orbit = \<lparr>o_NoradID = noradID1, o_Inclination = inclination, o_RAAN = raan,
             o_Eccentricity = eccentricity, o_ArgPerigee = argPerigee, o_MeanAnomaly = meanAnomaly,
             o_MeanMotion = meanMotion, o_Period = period, o_PerigeeAltitude = perigeeAlt,
             o_ApogeeAltitude = apogeeAlt, o_SemiMajorAxis = semiMajorAxis, o_Epoch = epoch\<rparr>
       in Inr \<lparr>tf_SatelliteID = noradID1, tf_Timestamp = epoch,
            tf_Parameters = Some [(''orbit'', orbit_value orbit), (''noradId'', GStr noradID1)],
            tf_Quality = ''good''\<rparr>)))))))))))"

fun tle_frames :: "(float64 \<Rightarrow> float64) \<Rightarrow> nat \<Rightarrow> string list list \<Rightarrow> TelemetryFrame list res" where
  "tle_frames cbrt i [] = Inr []"
| "tle_frames cbrt i (g # gs) =
     try_wrap (''element set '' @ show_nat (i + 1)) (extractTLELines g) (\<lambda>(line1, line2).
     try_wrap (''element set '' @ show_nat (i + 1)) (parseTLEPair cbrt line1 line2) (\<lambda>frame.
     case tle_frames cbrt (Suc i) gs of Inl e \<Rightarrow> Inl e | Inr frames \<Rightarrow> Inr (frame # frames)))"

definition TLE_Parse :: "(float64 \<Rightarrow> float64) \<Rightarrow> string \<Rightarrow> TelemetryFrame list res" where
  "TLE_Parse cbrt raw =
     (let txt = trim_space raw in
      if txt = [] then Inl (Errorf ''empty input'')
      else case tle_frames cbrt 0 (splitTLEGroups txt) of
             Inl e \<Rightarrow> Inl e
           | Inr frames \<Rightarrow> if frames = [] then Inl (Errorf ''no element set'') else Inr frames)"

definition TLEParser :: "(float64 \<Rightarrow> float64) \<Rightarrow> parser" where
  "TLEParser cbrt = \<lparr>ps_Name = ''tle'', ps_Parse = (\<lambda>w raw. (TLE_Parse cbrt raw, w))\<rparr>"

subsection \<open>Splitting the input\<close>

text \<open>The lines that count: trimmed, blank ones left out.\<close>

definition text_lines :: "string \<Rightarrow> string list" where
  "text_lines txt = filter (\<lambda>l. l \<noteq> []) (map trim_space (split_at newline txt))"

lemma tle_groups_concat: "concat (tle_groups ls cur) = cur @ filter (\<lambda>l. l \<noteq> []) (map trim_space ls)"
  by (induction ls cur rule: tle_groups.induct) (auto simp: Let_def)

lemma tle_groups_nonempty: "[] \<notin> set (tle_groups ls cur)"
  by (induction ls cur rule: tle_groups.induct) (auto simp: Let_def)

lemma splitTLEGroups_lines: "concat (splitTLEGroups txt) = text_lines txt \<and> [] \<notin> set (splitTLEGroups txt)"
  by (simp add: splitTLEGroups_def tle_groups_concat tle_groups_nonempty text_lines_def)

lemma split_at_absent: "c \<notin> set s \<Longrightarrow> split_at c s = [s]"
  by (induction c s rule: split_at.induct) auto

lemma trim_space_set: "set (trim_space s) \<subseteq> set s"
  unfolding trim_space_def by (auto dest!: set_dropWhileD)

subsection \<open>Element sets\<close>

text \<open>What one group must be to give a frame.\<close>

definition group_frame :: "(float64 \<Rightarrow> float64) \<Rightarrow> string list \<Rightarrow> TelemetryFrame \<Rightarrow> bool" where
  "group_frame cbrt g f \<longleftrightarrow>
     (\<exists>line1 line2. extractTLELines g = Inr (line1, line2) \<and> parseTLEPair cbrt line1 line2 = Inr f)"

lemma tle_frames_Inr: "tle_frames cbrt i gs = Inr fs \<longleftrightarrow> list_all2 (group_frame cbrt) gs fs"
proof (induction gs arbitrary: i fs)
  case (Cons g gs)
  have "tle_frames cbrt i (g # gs) = Inr fs \<longleftrightarrow>
      (\<exists>f fs'. group_frame cbrt g f \<and> tle_frames cbrt (Suc i) gs = Inr fs' \<and> fs = f # fs')"
    by (cases "tle_frames cbrt (Suc i) gs") (auto simp: try_wrap_Inr group_frame_def)
  then show ?case by (auto simp: Cons.IH list_all2_Cons1)
qed auto

lemma TLE_Parse_Inr:
  "TLE_Parse cbrt raw = Inr fs \<longleftrightarrow>
     fs \<noteq> [] \<and> list_all2 (group_frame cbrt) (splitTLEGroups (trim_space raw)) fs"
proof (cases "trim_space raw = []")
  case True
  have "splitTLEGroups [] = []" by (simp add: splitTLEGroups_def trim_space_def)
  then show ?thesis using True by (simp add: TLE_Parse_def)
next
  case False
  have "TLE_Parse cbrt raw = Inr fs \<longleftrightarrow> tle_frames cbrt 0 (splitTLEGroups (trim_space raw)) = Inr fs \<and> fs \<noteq> []"
    using False by (auto simp: TLE_Parse_def Let_def split: sum.splits if_splits)
  then show ?thesis by (simp add: tle_frames_Inr conj_commute)
qed

lemma dropWhile_adjacent:
  "dropWhile P xs = a # b # r \<Longrightarrow> \<exists>pre. xs = pre @ a # b # r \<and> \<not> P a"
  by (metis dropWhile_eq_Cons_conv takeWhile_dropWhile_id)

lemma extractTLELines_Inr:
  assumes "extractTLELines g = Inr (line1, line2)"
  shows "\<exists>pre post. g = pre @ line1 # line2 # post \<and> has_prefix ''1 '' line1 \<and> has_prefix ''2 '' line2"
proof -
  obtain rest where rest: "dropWhile (\<lambda>l. \<not> has_prefix ''1 '' l) g = line1 # line2 # rest" "has_prefix ''2 '' line2"
    using assms by (auto simp: extractTLELines_def split: if_splits list.splits)
  obtain pre where "g = pre @ line1 # line2 # rest" "has_prefix ''1 '' line1"
    using dropWhile_adjacent [OF rest(1)] by auto
  then show ?thesis using rest(2) by (intro exI conjI)
qed

text \<open>An accepted pair of lines: lengths, checksums and identity agree, and the frame carries them.\<close>

definition sound_pair :: "string \<Rightarrow> string \<Rightarrow> bool" where
  "sound_pair line1 line2 \<longleftrightarrow> length line1 = 69 \<and> length line2 = 69 \<and>
     verifyChecksum line1 = None \<and> verifyChecksum line2 = None \<and>
     trim_space (cut 2 7 line1) = trim_space (cut 2 7 line2)"

lemma validateTLELine_None: "validateTLELine line c = None \<Longrightarrow> length line = 69"
  by (simp add: validateTLELine_def tleLineLength_def split: if_splits)

lemma parseTLEPair_Inr:
  assumes "parseTLEPair cbrt line1 line2 = Inr f"
  shows "sound_pair line1 line2 \<and> tf_SatelliteID f = trim_space (cut 2 7 line1) \<and> tf_Quality f = ''good'' \<and>
    parseEpoch (cut 18 20 line1) (cut 20 32 line1) = Inr (tf_Timestamp f)"
proof -
  have "validateTLELine line1 CHR ''1'' = None" "validateTLELine line2 CHR ''2'' = None"
    "verifyChecksum line1 = None" "verifyChecksum line2 = None"
    "trim_space (cut 2 7 line1) = trim_space (cut 2 7 line2)"
    using assms unfolding parseTLEPair_def
    by (simp_all only: check_wrap_Inr Let_def Inl_Inr_False split: if_splits) simp_all
  moreover have "tf_SatelliteID f = trim_space (cut 2 7 line1) \<and> tf_Quality f = ''good'' \<and>
    parseEpoch (cut 18 20 line1) (cut 20 32 line1) = Inr (tf_Timestamp f)"
    using assms unfolding parseTLEPair_def by (auto simp only: check_wrap_Inr try_wrap_Inr Let_def Inl_Inr_False sum.inject
        TelemetryFrame.simps split: if_splits)
  ultimately show ?thesis unfolding sound_pair_def by (auto dest!: validateTLELine_None)
qed

subsection \<open>The checksum\<close>

lemma checksum_update:
  assumes "i < 68" "length line = 69"
  shows "\<exists>rest. checksum line = (check_weight (line ! i) + rest) mod 10 \<and>
    checksum (line[i := c]) = (check_weight c + rest) mod 10"
proof -
  let ?xs = "map check_weight (take 68 line)"
  have i: "i < length ?xs" using assms by simp
  have "sum_list ?xs = ?xs ! i + sum_list (take i ?xs @ drop (Suc i) ?xs)"
    by (subst (1) id_take_nth_drop [OF i]) simp
  moreover have "sum_list (?xs[i := check_weight c]) = check_weight c + sum_list (take i ?xs @ drop (Suc i) ?xs)"
    using i by (simp add: upd_conv_take_nth_drop)
  moreover have "map check_weight (take 68 (line[i := c])) = ?xs[i := check_weight c]"
    by (simp add: take_update_swap map_update)
  moreover have "?xs ! i = check_weight (line ! i)" using assms by simp
  ultimately show ?thesis unfolding checksum_def tleLineLength_def by auto
qed

lemma digit_weight: "is_digit c \<Longrightarrow> check_weight c = digit_val c \<and> digit_val c < 10"
  by (auto simp: check_weight_def is_digit_def digit_val_def)

lemma digit_byte: "is_digit x \<Longrightarrow> (of_char x + 208) mod 256 = digit_val x"
proof -
  assume "is_digit x"
  then have "48 \<le> (of_char x :: nat)" "(of_char x :: nat) \<le> 57" by (simp_all add: is_digit_def)
  then obtain n where n: "of_char x = 48 + (n :: nat)" "n < 10" by (cases rule: le_Suc_ex [elim_format]) auto
  then show ?thesis by (simp add: digit_val_def)
qed

lemma mod10_cancel:
  fixes a b r :: nat
  assumes "(a + r) mod 10 = (b + r) mod 10" "a < 10" "b < 10"
  shows "a = b"
proof -
  have "(int a + int r) mod 10 = (int b + int r) mod 10"
    using assms(1) by (metis of_nat_add of_nat_mod of_nat_numeral)
  then have "10 dvd int a - int b" by (simp add: mod_eq_dvd_iff)
  then show ?thesis using assms(2,3) by presburger
qed

lemma digit_val_inj: "is_digit c \<Longrightarrow> is_digit d \<Longrightarrow> digit_val c = digit_val d \<Longrightarrow> c = d"
proof -
  assume "is_digit c" "is_digit d" "digit_val c = digit_val d"
  then have "of_char c = (of_char d :: nat)" unfolding is_digit_def digit_val_def by linarith
  then show "c = d" by simp
qed

subsection \<open>JSON lines\<close>

lemma json_lines_Inr:
  assumes "json_lines decode i ls w = (Inr frames, w')" "\<forall>n. 0 < w_clock w n"
  shows "list_all2 (\<lambda>l f. \<exists>g. decode l = Inr g \<and> tf_SatelliteID g \<noteq> [] \<and> tf_Timestamp f \<noteq> 0 \<and>
      f = g\<lparr>tf_Timestamp := tf_Timestamp f\<rparr> \<and> (tf_Timestamp g \<noteq> 0 \<longrightarrow> f = g))
    (filter (\<lambda>l. l \<noteq> []) (map trim_space ls)) frames"
  using assms
proof (induction decode i ls w arbitrary: frames w' rule: json_lines.induct)
  case (2 decode i l ls w)
  show ?case
  proof (cases "trim_space l = []")
    case True
    then show ?thesis using 2 by simp
  next
    case False
    obtain g where g: "decode (trim_space l) = Inr g" "tf_SatelliteID g \<noteq> []"
      using 2(3) False by (auto simp: Let_def split: sum.splits if_splits)
    let ?p = "if IsZero (tf_Timestamp g) then (g\<lparr>tf_Timestamp := now_of w\<rparr>, tick w) else (g, w)"
    have "\<exists>rest w2. json_lines decode (Suc i) ls (snd ?p) = (Inr rest, w2) \<and> frames = fst ?p # rest"
      using 2(3) False g by (auto simp: Let_def split: sum.splits if_splits prod.splits)
    then obtain rest w2 where r: "json_lines decode (Suc i) ls (snd ?p) = (Inr rest, w2)" "frames = fst ?p # rest"
      by blast
    have "list_all2 (\<lambda>l f. \<exists>g. decode l = Inr g \<and> tf_SatelliteID g \<noteq> [] \<and> tf_Timestamp f \<noteq> 0 \<and>
        f = g\<lparr>tf_Timestamp := tf_Timestamp f\<rparr> \<and> (tf_Timestamp g \<noteq> 0 \<longrightarrow> f = g))
      (filter (\<lambda>l. l \<noteq> []) (map trim_space ls)) rest"
      by (rule 2(2) [OF refl False g(1,2) refl prod.collapse r(1)]) (use 2(4) in simp)
    moreover have "0 < now_of w" using 2(4) by (simp add: now_of_def)
    ultimately show ?thesis using False g r(2) by (auto simp: IsZero_def)
  qed
qed simp

subsection \<open>Sample element sets\<close>

definition sample_line1 :: string where
  "sample_line1 = ''1 00005U 58002B   00001.00000000  .00000000  00000-0  00000-0 0    04''"

definition sample_line2 :: string where
  "sample_line2 = ''2 00005        0        0 0000000        0        0          15    03''"

lemmas char_eval = is_digit_def digit_val_def is_space_def lower_char_def
lemmas field_eval = try_wrap_def check_wrap_def cut_def trim_space_def Atoi_def ParseFloat_def
  parse_unsigned_def base_val_def hex_val_def char_eval Let_def pow_rat_def

lemma sample_checks:
  "verifyChecksum sample_line1 = None" "verifyChecksum sample_line2 = None"
  by (simp_all add: verifyChecksum_def tleLineLength_def checksum_def check_weight_def char_eval
      sample_line1_def sample_line2_def)

lemma sample_formats:
  "validateTLELine sample_line1 CHR ''1'' = None" "validateTLELine sample_line2 CHR ''2'' = None"
  by (simp_all add: validateTLELine_def tleLineLength_def sample_line1_def sample_line2_def)

lemma sample_epoch: "parseEpoch (cut 18 20 sample_line1) (cut 20 32 sample_line1) = Inr (start_of_year 2000)"
  by (simp add: parseEpoch_def field_eval f64_sub_def sample_line1_def)

lemma sample_pair_fields:
  "trim_space (cut 2 7 sample_line1) = ''00005''" "trim_space (cut 2 7 sample_line2) = ''00005''"
  "ParseFloat (trim_space (cut 8 16 sample_line2)) = Inr (Fin 0)"
  "ParseFloat (trim_space (cut 17 25 sample_line2)) = Inr (Fin 0)"
  "ParseFloat (''0.'' @ trim_space (cut 26 33 sample_line2)) = Inr (Fin 0)"
  "ParseFloat (trim_space (cut 34 42 sample_line2)) = Inr (Fin 0)"
  "ParseFloat (trim_space (cut 43 51 sample_line2)) = Inr (Fin 0)"
  "ParseFloat (trim_space (cut 52 63 sample_line2)) = Inr (Fin 15)"
  by (simp_all add: field_eval sample_line1_def sample_line2_def)

lemma sample_pair: "\<exists>f. parseTLEPair cbrt sample_line1 sample_line2 = Inr f"
  unfolding parseTLEPair_def sample_checks sample_formats sample_epoch sample_pair_fields
  by (simp add: check_wrap_def try_wrap_def Let_def)

lemma sample_group: "extractTLELines [sample_line1, sample_line2] = Inr (sample_line1, sample_line2)"
  by (simp add: extractTLELines_def has_prefix_def sample_line1_def sample_line2_def)

definition sample_text :: string where
  "sample_text = sample_line1 @ [newline] @ sample_line2"

lemma sample_split: "splitTLEGroups (trim_space sample_text) = [[sample_line1, sample_line2]]"
  by (simp add: splitTLEGroups_def sample_text_def sample_line1_def sample_line2_def trim_space_def is_space_def)

lemma swap_checksum:
  assumes "verifyChecksum line = None" "j < 68" "k < 68"
  shows "verifyChecksum (line[j := line ! k, k := line ! j]) = None"
proof -
  have len: "length line = 69" using assms(1) by (simp add: verifyChecksum_def tleLineLength_def split: if_splits)
  let ?t = "take 68 line"
  have "take 68 (line[j := line ! k, k := line ! j]) = ?t[j := ?t ! k, k := ?t ! j]"
    using assms by (simp add: take_update_swap)
  moreover have "mset (?t[j := ?t ! k, k := ?t ! j]) = mset ?t"
    using mset_swap [of k ?t j] assms len by simp
  ultimately have "mset (map check_weight (take 68 (line[j := line ! k, k := line ! j]))) = mset (map check_weight ?t)"
    by (simp only: mset_map)
  then have "sum_list (map check_weight (take 68 (line[j := line ! k, k := line ! j]))) = sum_list (map check_weight ?t)"
    by (metis sum_mset_sum_list)
  then have "checksum (line[j := line ! k, k := line ! j]) = checksum line"
    by (simp add: checksum_def tleLineLength_def)
  then show ?thesis using assms len by (simp add: verifyChecksum_def tleLineLength_def split: if_splits)
qed

subsection \<open>Properties\<close>



text \<open>The line checksum refuses every line in which one digit has been changed for another,
  the check digit included; it cannot see two characters exchanged.\<close>

theorem checksum_catches_digit:
  assumes "verifyChecksum line = None" "i < 69" "is_digit (line ! i)" "is_digit c" "c \<noteq> line ! i"
    and "j < 68" "k < 68"
  shows "verifyChecksum (line[i := c]) \<noteq> None \<and> verifyChecksum (line[j := line ! k, k := line ! j]) = None"
proof
  have len: "length line = 69" using assms(1) by (simp add: verifyChecksum_def tleLineLength_def split: if_splits)
  have sum: "(of_char (line ! 68) + 208) mod 256 = checksum line"
    using assms(1) len by (simp add: verifyChecksum_def tleLineLength_def split: if_splits)
  have ne: "digit_val c \<noteq> digit_val (line ! i)" using digit_val_inj assms(3-5) by metis
  have d: "digit_val c < 10" "digit_val (line ! i) < 10" using digit_weight assms(3,4) by blast+
  have "(of_char (line[i := c] ! 68) + 208) mod 256 \<noteq> checksum (line[i := c])"
  proof (cases "i < 68")
    case True
    obtain rest where r: "checksum line = (check_weight (line ! i) + rest) mod 10"
      "checksum (line[i := c]) = (check_weight c + rest) mod 10"
      using checksum_update [OF True len] by blast
    have "(digit_val (line ! i) + rest) mod 10 \<noteq> (digit_val c + rest) mod 10" using mod10_cancel d ne by metis
    then show ?thesis using True sum r digit_weight assms(3,4) by simp
  next
    case False
    then have i: "i = 68" using assms(2) by simp
    have "checksum (line[i := c]) = checksum line" by (simp add: checksum_def tleLineLength_def i)
    moreover have "(of_char x + 208) mod 256 = digit_val x" if "is_digit x" for x
      by (rule digit_byte [OF that])
    ultimately show ?thesis using sum ne i len assms(3,4) by simp
  qed
  then show "verifyChecksum (line[i := c]) \<noteq> None" using len by (simp add: verifyChecksum_def tleLineLength_def)
  show "verifyChecksum (line[j := line ! k, k := line ! j]) = None" by (rule swap_checksum [OF assms(1,6,7)])
qed

lemma checksum_catches_digit_witness:
  "verifyChecksum (sample_line1[6 := CHR ''6'']) \<noteq> None \<and>
   verifyChecksum (sample_line1[6 := sample_line1 ! 2, 2 := sample_line1 ! 6]) = None"
  by (rule checksum_catches_digit [OF sample_checks(1)]) (simp_all add: sample_line1_def is_digit_def)

text \<open>The JSON parser returns one frame per non-blank line, in order, or an error: each frame
  is what its line decodes to, names its satellite, and has a time, the clock's when the line
  gave none.\<close>

theorem json_parse_lines:
  assumes "JSON_Parse decode w raw = (Inr frames, w')" "\<forall>n. 0 < w_clock w n"
  shows "frames \<noteq> [] \<and> list_all2 (\<lambda>l f. \<exists>g. decode l = Inr g \<and> tf_SatelliteID g \<noteq> [] \<and> tf_Timestamp f \<noteq> 0 \<and>
      f = g\<lparr>tf_Timestamp := tf_Timestamp f\<rparr> \<and> (tf_Timestamp g \<noteq> 0 \<longrightarrow> f = g))
    (text_lines (trim_space raw)) frames"
proof -
  have "json_lines decode 0 (split_at newline (trim_space raw)) w = (Inr frames, w')" "frames \<noteq> []"
    using assms(1) by (auto simp: JSON_Parse_def Let_def split: if_splits prod.splits sum.splits)
  then show ?thesis using json_lines_Inr [OF _ assms(2)] unfolding text_lines_def by blast
qed

lemma json_parse_lines_witness:
  "list_all2 (\<lambda>l f. \<exists>g. (\<lambda>l. Inr \<lparr>tf_SatelliteID = l, tf_Timestamp = 0, tf_Parameters = None, tf_Quality = []\<rparr>) l =
       (Inr g :: TelemetryFrame res) \<and> tf_SatelliteID g \<noteq> [] \<and> tf_Timestamp f \<noteq> 0)
     [''a''] [\<lparr>tf_SatelliteID = ''a'', tf_Timestamp = 5, tf_Parameters = None, tf_Quality = []\<rparr>]"
proof -
  let ?w = "\<lparr>w_clock = (\<lambda>n. 5), w_uuid = (\<lambda>n. []), w_pos = 0\<rparr>"
  let ?d = "\<lambda>l. Inr \<lparr>tf_SatelliteID = l, tf_Timestamp = 0, tf_Parameters = None, tf_Quality = []\<rparr> :: TelemetryFrame res"
  let ?f = "\<lparr>tf_SatelliteID = ''a'', tf_Timestamp = 5, tf_Parameters = None, tf_Quality = []\<rparr> :: TelemetryFrame"
  have p: "JSON_Parse ?d ?w ''a'' = (Inr [?f], tick ?w)"
    by (simp add: JSON_Parse_def trim_space_def is_space_def Let_def IsZero_def now_of_def)
  have t: "text_lines (trim_space ''a'') = [''a'']" by (simp add: text_lines_def trim_space_def is_space_def)
  show ?thesis using json_parse_lines [OF p] unfolding t by (auto simp: list_all2_Cons1)
qed

end
