(* ===== verification/TelemetryPipeline.thy ===== *)
theory TelemetryPipeline
  imports TelemetryParsers
begin

text \<open>
  \<open>internal/pipeline/telemetry\<close> but for the TCP receiver: the bounded buffer that drops its oldest
  entry, the normalisation of frames into events, batch ingestion, and the pipeline from raw
  lines to published events. \<open>tele_step\<close> is the concurrent program: connections that push into
  the buffer, the worker and \<open>Stop\<close>, interleaved at each channel operation. The counters are
  \<open>int64\<close>; 2 to the 63 lines are out of reach.
\<close>

subsection \<open>Metrics and buffer (\<open>metrics.go\<close>)\<close>

record tele_metrics =
  tm_IngressQPS :: nat
  tm_ParseLatency :: int
  tm_DropCount :: nat

record BufferQueue =
  bq_ch :: "string list"
  bq_maxSize :: nat
  bq_closed :: bool

definition NewBufferQueue :: "int \<Rightarrow> BufferQueue" where
  "NewBufferQueue maxSize =
     \<lparr>bq_ch = [], bq_maxSize = nat (if maxSize \<le> 0 then 1024 else maxSize), bq_closed = False\<rparr>"

definition bq_full :: "BufferQueue \<Rightarrow> bool" where
  "bq_full q \<longleftrightarrow> bq_maxSize q \<le> length (bq_ch q)"

text \<open>
  \<open>Push\<close> as one caller runs it: with the queue full its head goes and is counted. The second
  value is the number of entries lost. A send on a closed channel panics.
\<close>

datatype 'a go = Done 'a | Panic string

definition Push :: "string \<Rightarrow> BufferQueue \<Rightarrow> (BufferQueue \<times> nat) go" where
  "Push data q =
     (if bq_closed q then Panic ''send on closed channel''
      else if \<not> bq_full q then Done (q\<lparr>bq_ch := bq_ch q @ [data]\<rparr>, 0)
      else
        (let (q1, lost) = (case bq_ch q of [] \<Rightarrow> (q, 0) | _ # rest \<Rightarrow> (q\<lparr>bq_ch := rest\<rparr>, 1))
         in if \<not> bq_full q1 then Done (q1\<lparr>bq_ch := bq_ch q1 @ [data]\<rparr>, lost) else Done (q1, lost + 1)))"

text \<open>\<open>Pop\<close> blocks on an empty open queue: \<open>None\<close>.\<close>

definition Pop :: "BufferQueue \<Rightarrow> (string option \<times> BufferQueue) option" where
  "Pop q =
     (case bq_ch q of
        data # rest \<Rightarrow> Some (Some data, q\<lparr>bq_ch := rest\<rparr>)
      | [] \<Rightarrow> if bq_closed q then Some (None, q) else None)"

text \<open>On a closed empty queue the receive of \<open>TryPop\<close> succeeds with a nil slice.\<close>

definition TryPop :: "BufferQueue \<Rightarrow> (string \<times> bool) \<times> BufferQueue" where
  "TryPop q =
     (case bq_ch q of
        data # rest \<Rightarrow> ((data, True), q\<lparr>bq_ch := rest\<rparr>)
      | [] \<Rightarrow> (([], bq_closed q), q))"

definition bq_Close :: "BufferQueue \<Rightarrow> BufferQueue go" where
  "bq_Close q = (if bq_closed q then Panic ''close of closed channel'' else Done (q\<lparr>bq_closed := True\<rparr>))"

definition bq_Len :: "BufferQueue \<Rightarrow> nat" where
  "bq_Len q = length (bq_ch q)"

subsection \<open>Normalisation (\<open>normalizer.go\<close>)\<close>

definition telemetry_payload :: "TelemetryFrame \<Rightarrow> payload" where
  "telemetry_payload frame =
     TelemetryReceivedPayload (tf_SatelliteID frame) (tf_Timestamp frame)
       (GMap (case tf_Parameters frame of None \<Rightarrow> [] | Some m \<Rightarrow> m))
       (if tf_Quality frame = [] then ''unknown'' else tf_Quality frame)"

text \<open>Two readings of the world: the identifier and the time.\<close>

definition Normalize :: "world \<Rightarrow> TelemetryFrame option \<Rightarrow> Event res \<times> world" where
  "Normalize w oframe =
     (case oframe of
        None \<Rightarrow> (Inl (Errorf ''frame must not be nil''), w)
      | Some frame \<Rightarrow>
        (if tf_SatelliteID frame = [] then (Inl (Errorf ''frame.SatelliteID must not be empty''), w)
         else
           (let e = \<lparr>e_EventID = uuid_of w, e_EventType = EventTelemetryReceived, e_Timestamp = now_of (tick w),
                  e_SourceNodeID = tf_SatelliteID frame, e_TraceID = [], e_Payload = None\<rparr>
            in case SetPayload e (payload_value (telemetry_payload frame)) of
                 Inl err \<Rightarrow> (Inl (Wrap ''set event payload'' err), tick (tick w))
               | Inr e1 \<Rightarrow>
                 (Inr (e1\<lparr>e_Payload := map_option (gomap_put ''logicalShard''
                     (GMap [(''satelliteId'', GStr (tf_SatelliteID frame)), (''communityId'', GStr [])])) (e_Payload e1)\<rparr>),
                  tick (tick w)))))"

subsection \<open>The pipeline (\<open>pipeline.go\<close>, \<open>ingest.go\<close>)\<close>

record 'b tele =
  tp_manager :: "(string \<rightharpoonup> parser) option"
  tp_parser :: "parser option"
  tp_bus :: 'b
  tp_world :: world
  tp_metrics :: tele_metrics
  tp_buffer :: BufferQueue
  tp_stopCh :: bool
  tp_stopped :: bool

definition defaultBufferSize :: int where "defaultBufferSize = 1024"

definition NewTelePipeline :: "(string \<rightharpoonup> parser) option \<Rightarrow> 'b \<Rightarrow> world \<Rightarrow> 'b tele" where
  "NewTelePipeline mgr bus w =
     \<lparr>tp_manager = mgr, tp_parser = None, tp_bus = bus, tp_world = w,
      tp_metrics = \<lparr>tm_IngressQPS = 0, tm_ParseLatency = 0, tm_DropCount = 0\<rparr>,
      tp_buffer = NewBufferQueue defaultBufferSize, tp_stopCh = False, tp_stopped = False\<rparr>"

definition count_drop :: "nat \<Rightarrow> 'b tele \<Rightarrow> 'b tele" where
  "count_drop n p = p\<lparr>tp_metrics := (tp_metrics p)\<lparr>tm_DropCount := tm_DropCount (tp_metrics p) + n\<rparr>\<rparr>"

definition count_ingress :: "'b tele \<Rightarrow> 'b tele" where
  "count_ingress p = p\<lparr>tp_metrics := (tp_metrics p)\<lparr>tm_IngressQPS := tm_IngressQPS (tp_metrics p) + 1\<rparr>\<rparr>"

text \<open>The body of both loops over frames: normalise, publish, count a failure of either.\<close>

definition ingest_frame :: "'b publisher \<Rightarrow> ctx \<Rightarrow> TelemetryFrame \<Rightarrow> 'b tele \<Rightarrow> bool \<times> 'b tele" where
  "ingest_frame publish c frame p =
     (case Normalize (tp_world p) (Some frame) of
        (Inl err, w1) \<Rightarrow> (False, count_drop 1 (p\<lparr>tp_world := w1\<rparr>))
      | (Inr e, w1) \<Rightarrow>
        (case publish c w1 (Some e) (tp_bus p) of
           (Some err, bus') \<Rightarrow> (False, count_drop 1 (p\<lparr>tp_world := tick w1, tp_bus := bus'\<rparr>))
         | (None, bus') \<Rightarrow> (True, p\<lparr>tp_world := tick w1, tp_bus := bus'\<rparr>)))"

fun ingest_all :: "'b publisher \<Rightarrow> ctx \<Rightarrow> TelemetryFrame list \<Rightarrow> 'b tele \<Rightarrow> nat \<times> 'b tele" where
  "ingest_all publish c [] p = (0, p)"
| "ingest_all publish c (f # fs) p =
     (case ingest_frame publish c f p of (ok, p1) \<Rightarrow>
        (case ingest_all publish c fs p1 of (n, p2) \<Rightarrow> ((if ok then n + 1 else n), p2)))"

definition IngestFrames :: "'b publisher \<Rightarrow> ctx \<Rightarrow> TelemetryFrame list \<Rightarrow> 'b tele \<Rightarrow> nat res \<times> 'b tele" where
  "IngestFrames publish c frames p =
     (if frames = [] then (Inl (Errorf ''no telemetry frames given''), p)
      else case ingest_all publish c frames p of
             (accepted, p1) \<Rightarrow>
               ((if accepted = 0 then Inl (Errorf ''no acceptable telemetry frame'') else Inr accepted), p1))"

text \<open>\<open>process\<close> reads the clock before and after parsing.\<close>

definition process :: "'b publisher \<Rightarrow> ctx \<Rightarrow> string \<Rightarrow> 'b tele \<Rightarrow> 'b tele" where
  "process publish c raw p =
     (case tp_parser p of
        None \<Rightarrow> count_drop 1 p
      | Some parser \<Rightarrow>
        (let start = now_of (tp_world p) in
         case ps_Parse parser (tick (tp_world p)) raw of
           (r, w1) \<Rightarrow>
             (let elapsed = now_of w1 - start;
                  p1 = p\<lparr>tp_world := tick w1,
                         tp_metrics := (tp_metrics p)\<lparr>tm_ParseLatency := elapsed div 1000\<rparr>\<rparr>
              in case r of
                   Inl err \<Rightarrow> count_drop 1 p1
                 | Inr frames \<Rightarrow> snd (ingest_all publish c frames p1))))"

definition SetParser :: "string \<Rightarrow> 'b tele \<Rightarrow> verdict \<times> 'b tele" where
  "SetParser name p =
     (case tp_manager p of
        None \<Rightarrow> (Some (Errorf ''plugin manager not initialised''), p)
      | Some get \<Rightarrow>
        (case get name of
           None \<Rightarrow> (Some (Errorf (''no telemetry parser named '' @ name)), p)
         | Some parser \<Rightarrow> (None, p\<lparr>tp_parser := Some parser\<rparr>)))"

definition GetParserName :: "'b tele \<Rightarrow> string" where
  "GetParserName p = (case tp_parser p of None \<Rightarrow> [] | Some parser \<Rightarrow> ps_Name parser)"

definition Tele_Process :: "'b publisher \<Rightarrow> ctx \<Rightarrow> string \<Rightarrow> 'b tele \<Rightarrow> verdict \<times> 'b tele" where
  "Tele_Process publish c raw p =
     (if raw = [] then (Some (Errorf ''raw data is empty''), p)
      else (None, process publish c raw (count_ingress p)))"

definition handleRaw :: "string \<Rightarrow> 'b tele \<Rightarrow> 'b tele go" where
  "handleRaw data p =
     (case Push data (tp_buffer p) of
        Panic msg \<Rightarrow> Panic msg
      | Done (q, lost) \<Rightarrow> Done (count_drop lost ((count_ingress p)\<lparr>tp_buffer := q\<rparr>)))"

text \<open>
  \<open>Start\<close> up to the start of the worker; \<open>listen\<close> is the outcome of the receiver's \<open>Start\<close>. When
  it fails, the channels are closed and the worker has returned.
\<close>

definition Tele_Start :: "verdict \<Rightarrow> 'b tele \<Rightarrow> (verdict \<times> 'b tele) go" where
  "Tele_Start listen p =
     (let p1 = (if tp_parser p = None then snd (SetParser ''json'' p) else p) in
      case listen of
        None \<Rightarrow> Done (None, p1)
      | Some err \<Rightarrow>
        (if tp_stopCh p1 then Panic ''close of closed channel''
         else case bq_Close (tp_buffer p1) of
                Panic msg \<Rightarrow> Panic msg
              | Done q \<Rightarrow> Done (Some (Wrap ''start telemetry receiver'' err), p1\<lparr>tp_stopCh := True, tp_buffer := q\<rparr>)))"

text \<open>\<open>Stop\<close> as one caller runs it, the receiver stopped and the worker waited for.\<close>

definition Tele_Stop :: "'b tele \<Rightarrow> (verdict \<times> 'b tele) go" where
  "Tele_Stop p =
     (if tp_stopped p then Done (None, p)
      else if tp_stopCh p then Panic ''close of closed channel''
      else case bq_Close (tp_buffer p) of
             Panic msg \<Rightarrow> Panic msg
           | Done q \<Rightarrow> Done (None, p\<lparr>tp_stopped := True, tp_stopCh := True, tp_buffer := q\<rparr>))"

subsection \<open>The concurrent program\<close>

text \<open>
  Where a connection stands inside \<open>Push\<close> (its three selects), where the worker stands in
  \<open>processLoop\<close>, and where the first caller of \<open>Stop\<close> stands.
\<close>

datatype push_pc = PushTry string | PushDrop string | PushRetry string
datatype tele_worker = WCheck | WPop | WBusy string | WExit
datatype stop_pc = NotStopping | AtReceiver | AtStopCh | AtBuffer | AtWait | Stopped

record 'b tele_sys =
  ts_pipe :: "'b tele"
  ts_push :: "nat \<rightharpoonup> push_pc"
  ts_worker :: tele_worker
  ts_stop :: stop_pc

datatype tele_label =
    Handed string | Enqueued string | Overrun string | Lost string | Popped string | Processed string
  | Moved | Outside

abbreviation buffer_of :: "'b tele_sys \<Rightarrow> string list" where
  "buffer_of t \<equiv> bq_ch (tp_buffer (ts_pipe t))"

definition set_buffer :: "string list \<Rightarrow> 'b tele_sys \<Rightarrow> 'b tele_sys" where
  "set_buffer ch t = t\<lparr>ts_pipe := (ts_pipe t)\<lparr>tp_buffer := (tp_buffer (ts_pipe t))\<lparr>bq_ch := ch\<rparr>\<rparr>\<rparr>"

definition set_push :: "nat \<Rightarrow> push_pc option \<Rightarrow> 'b tele_sys \<Rightarrow> 'b tele_sys" where
  "set_push k pc t = t\<lparr>ts_push := (ts_push t)(k := pc)\<rparr>"

definition lose :: "'b tele_sys \<Rightarrow> 'b tele_sys" where
  "lose t = t\<lparr>ts_pipe := count_drop 1 (ts_pipe t)\<rparr>"

text \<open>
  \<open>Stop\<close> waits at \<open>AtReceiver\<close> until no connection is left; connections hand lines over until
  then. A \<open>Process\<close> or \<open>IngestFrames\<close> call of another goroutine, and \<open>SetParser\<close>, are outside
  steps. The metric, the parser and the bus have their own locks, so one call of \<open>process\<close> is
  one step.
\<close>

inductive tele_step :: "'b publisher \<Rightarrow> ctx \<Rightarrow> 'b tele_sys \<Rightarrow> tele_label \<Rightarrow> 'b tele_sys \<Rightarrow> bool"
  for publish c
where
  ts_hand: "ts_push t k = None \<Longrightarrow> ts_stop t \<in> {NotStopping, AtReceiver} \<Longrightarrow>
    tele_step publish c t (Handed d)
      (set_push k (Some (PushTry d)) (t\<lparr>ts_pipe := count_ingress (ts_pipe t)\<rparr>))"
| ts_try: "ts_push t k = Some (PushTry d) \<Longrightarrow> \<not> bq_full (tp_buffer (ts_pipe t)) \<Longrightarrow>
    tele_step publish c t (Enqueued d) (set_push k None (set_buffer (buffer_of t @ [d]) t))"
| ts_try_full: "ts_push t k = Some (PushTry d) \<Longrightarrow> bq_full (tp_buffer (ts_pipe t)) \<Longrightarrow>
    tele_step publish c t Moved (set_push k (Some (PushDrop d)) t)"
| ts_drop: "ts_push t k = Some (PushDrop d) \<Longrightarrow> buffer_of t = x # rest \<Longrightarrow>
    tele_step publish c t (Overrun x) (set_push k (Some (PushRetry d)) (lose (set_buffer rest t)))"
| ts_drop_empty: "ts_push t k = Some (PushDrop d) \<Longrightarrow> buffer_of t = [] \<Longrightarrow>
    tele_step publish c t Moved (set_push k (Some (PushRetry d)) t)"
| ts_retry: "ts_push t k = Some (PushRetry d) \<Longrightarrow> \<not> bq_full (tp_buffer (ts_pipe t)) \<Longrightarrow>
    tele_step publish c t (Enqueued d) (set_push k None (set_buffer (buffer_of t @ [d]) t))"
| ts_retry_full: "ts_push t k = Some (PushRetry d) \<Longrightarrow> bq_full (tp_buffer (ts_pipe t)) \<Longrightarrow>
    tele_step publish c t (Lost d) (set_push k None (lose t))"
| ts_check_stop: "ts_worker t = WCheck \<Longrightarrow> tp_stopCh (ts_pipe t) \<Longrightarrow>
    tele_step publish c t Moved (t\<lparr>ts_worker := WExit\<rparr>)"
| ts_check: "ts_worker t = WCheck \<Longrightarrow> \<not> tp_stopCh (ts_pipe t) \<Longrightarrow>
    tele_step publish c t Moved (t\<lparr>ts_worker := WPop\<rparr>)"
| ts_pop: "ts_worker t = WPop \<Longrightarrow> Pop (tp_buffer (ts_pipe t)) = Some (Some d, q) \<Longrightarrow>
    tele_step publish c t (Popped d) (t\<lparr>ts_pipe := (ts_pipe t)\<lparr>tp_buffer := q\<rparr>, ts_worker := WBusy d\<rparr>)"
| ts_pop_closed: "ts_worker t = WPop \<Longrightarrow> Pop (tp_buffer (ts_pipe t)) = Some (None, q) \<Longrightarrow>
    tele_step publish c t Moved (t\<lparr>ts_worker := WExit\<rparr>)"
| ts_process: "ts_worker t = WBusy d \<Longrightarrow>
    tele_step publish c t (Processed d) (t\<lparr>ts_pipe := process publish c d (ts_pipe t), ts_worker := WCheck\<rparr>)"
| ts_begin: "ts_stop t = NotStopping \<Longrightarrow> \<not> tp_stopped (ts_pipe t) \<Longrightarrow>
    tele_step publish c t Moved
      (t\<lparr>ts_pipe := (ts_pipe t)\<lparr>tp_stopped := True\<rparr>, ts_stop := AtReceiver\<rparr>)"
| ts_receiver: "ts_stop t = AtReceiver \<Longrightarrow> ts_push t = Map.empty \<Longrightarrow>
    tele_step publish c t Moved (t\<lparr>ts_stop := AtStopCh\<rparr>)"
| ts_stopch: "ts_stop t = AtStopCh \<Longrightarrow>
    tele_step publish c t Moved (t\<lparr>ts_pipe := (ts_pipe t)\<lparr>tp_stopCh := True\<rparr>, ts_stop := AtBuffer\<rparr>)"
| ts_buffer: "ts_stop t = AtBuffer \<Longrightarrow> bq_Close (tp_buffer (ts_pipe t)) = Done q \<Longrightarrow>
    tele_step publish c t Moved (t\<lparr>ts_pipe := (ts_pipe t)\<lparr>tp_buffer := q\<rparr>, ts_stop := AtWait\<rparr>)"
| ts_wait: "ts_stop t = AtWait \<Longrightarrow> ts_worker t = WExit \<Longrightarrow>
    tele_step publish c t Moved (t\<lparr>ts_stop := Stopped\<rparr>)"
| ts_set_parser: "SetParser name (ts_pipe t) = (v, p') \<Longrightarrow>
    tele_step publish c t Outside (t\<lparr>ts_pipe := p'\<rparr>)"
| ts_ingest: "IngestFrames publish c' frames (ts_pipe t) = (r, p') \<Longrightarrow>
    tele_step publish c t Outside (t\<lparr>ts_pipe := p'\<rparr>)"
| ts_manual: "Tele_Process publish c' raw (ts_pipe t) = (v, p') \<Longrightarrow>
    tele_step publish c t Outside (t\<lparr>ts_pipe := p'\<rparr>)"

inductive tele_run :: "'b publisher \<Rightarrow> ctx \<Rightarrow> 'b tele_sys \<Rightarrow> tele_label list \<Rightarrow> 'b tele_sys \<Rightarrow> bool"
  for publish c
where
  tele_refl: "tele_run publish c t [] t"
| tele_next: "tele_run publish c t tr t1 \<Longrightarrow> tele_step publish c t1 l t2 \<Longrightarrow> tele_run publish c t (tr @ [l]) t2"

definition tele_start :: "(string \<rightharpoonup> parser) option \<Rightarrow> 'b \<Rightarrow> world \<Rightarrow> 'b tele_sys" where
  "tele_start mgr bus w =
     \<lparr>ts_pipe = snd (SetParser ''json'' (NewTelePipeline mgr bus w)), ts_push = Map.empty, ts_worker = WCheck,
      ts_stop = NotStopping\<rparr>"

subsection \<open>What the trace records\<close>

definition entered :: "tele_label list \<Rightarrow> string list" where
  "entered tr = List.map_filter (\<lambda>l. case l of Enqueued d \<Rightarrow> Some d | _ \<Rightarrow> None) tr"

definition left_queue :: "tele_label list \<Rightarrow> string list" where
  "left_queue tr = List.map_filter (\<lambda>l. case l of Popped d \<Rightarrow> Some d | Overrun d \<Rightarrow> Some d | _ \<Rightarrow> None) tr"

definition handed :: "tele_label list \<Rightarrow> string multiset" where
  "handed tr = mset (List.map_filter (\<lambda>l. case l of Handed d \<Rightarrow> Some d | _ \<Rightarrow> None) tr)"

definition dropped :: "tele_label list \<Rightarrow> string multiset" where
  "dropped tr = mset (List.map_filter (\<lambda>l. case l of Overrun d \<Rightarrow> Some d | Lost d \<Rightarrow> Some d | _ \<Rightarrow> None) tr)"

definition popped :: "tele_label list \<Rightarrow> string list" where
  "popped tr = List.map_filter (\<lambda>l. case l of Popped d \<Rightarrow> Some d | _ \<Rightarrow> None) tr"

definition processed :: "tele_label list \<Rightarrow> string list" where
  "processed tr = List.map_filter (\<lambda>l. case l of Processed d \<Rightarrow> Some d | _ \<Rightarrow> None) tr"

lemmas trace_defs = entered_def left_queue_def handed_def dropped_def popped_def processed_def

lemma map_filter_snoc: "List.map_filter f (xs @ [x]) = List.map_filter f xs @ (case f x of None \<Rightarrow> [] | Some y \<Rightarrow> [y])"
  by (simp add: List.map_filter_def split: option.splits)

lemma trace_snoc:
  "entered (tr @ [l]) = entered tr @ (case l of Enqueued d \<Rightarrow> [d] | _ \<Rightarrow> [])"
  "left_queue (tr @ [l]) = left_queue tr @ (case l of Popped d \<Rightarrow> [d] | Overrun d \<Rightarrow> [d] | _ \<Rightarrow> [])"
  "handed (tr @ [l]) = (case l of Handed d \<Rightarrow> add_mset d (handed tr) | _ \<Rightarrow> handed tr)"
  "dropped (tr @ [l]) = (case l of Overrun d \<Rightarrow> add_mset d (dropped tr) | Lost d \<Rightarrow> add_mset d (dropped tr) | _ \<Rightarrow> dropped tr)"
  "popped (tr @ [l]) = popped tr @ (case l of Popped d \<Rightarrow> [d] | _ \<Rightarrow> [])"
  "processed (tr @ [l]) = processed tr @ (case l of Processed d \<Rightarrow> [d] | _ \<Rightarrow> [])"
  by (cases l; simp add: trace_defs map_filter_snoc)+

fun push_data :: "push_pc \<Rightarrow> string" where
  "push_data (PushTry d) = d" | "push_data (PushDrop d) = d" | "push_data (PushRetry d) = d"

definition pending :: "(nat \<rightharpoonup> push_pc) \<Rightarrow> string multiset" where
  "pending m = image_mset (\<lambda>k. push_data (the (m k))) (mset_set (dom m))"

fun in_hand :: "tele_worker \<Rightarrow> string list" where
  "in_hand (WBusy d) = [d]" | "in_hand _ = []"

lemma pending_set:
  assumes "finite (dom m)"
  shows "m k = None \<Longrightarrow> pending (m(k \<mapsto> pc)) = add_mset (push_data pc) (pending m)"
    "m k = Some pc' \<Longrightarrow> pending m = add_mset (push_data pc') (pending (m(k := None)))"
proof -
  have cong: "image_mset (\<lambda>j. push_data (the ((m(k := x)) j))) (mset_set (dom m - {k})) =
      image_mset (\<lambda>j. push_data (the (m j))) (mset_set (dom m - {k}))" for x
    using assms by (intro image_mset_cong) auto
  show "pending (m(k \<mapsto> pc)) = add_mset (push_data pc) (pending m)" if "m k = None"
  proof -
    have "dom m - {k} = dom m" using that by auto
    moreover have "k \<notin> dom m" using that by auto
    ultimately show ?thesis using cong [of "Some pc"] assms by (simp add: pending_def)
  qed
  show "pending m = add_mset (push_data pc') (pending (m(k := None)))" if "m k = Some pc'"
  proof -
    have "k \<in> dom m" using that by auto
    then have "mset_set (dom m) = add_mset k (mset_set (dom m - {k}))"
      using assms by (metis mset_set.remove)
    then show ?thesis using cong [of None] that by (simp add: pending_def)
  qed
qed

subsection \<open>Invariants\<close>

text \<open>What the calls outside the buffer leave alone.\<close>

definition pipe_same :: "'b tele \<Rightarrow> 'b tele \<Rightarrow> bool" where
  "pipe_same p p' \<longleftrightarrow> tp_buffer p' = tp_buffer p \<and> tp_stopCh p' = tp_stopCh p \<and> tp_stopped p' = tp_stopped p \<and>
     tm_DropCount (tp_metrics p) \<le> tm_DropCount (tp_metrics p') \<and>
     tm_IngressQPS (tp_metrics p) \<le> tm_IngressQPS (tp_metrics p')"

lemma pipe_same_refl [simp]: "pipe_same p p"
  by (simp add: pipe_same_def)

lemma pipe_same_trans: "pipe_same p q \<Longrightarrow> pipe_same q r \<Longrightarrow> pipe_same p r"
  by (auto simp: pipe_same_def)

lemma ingest_frame_same: "pipe_same p (snd (ingest_frame publish c f p))"
  by (simp add: ingest_frame_def pipe_same_def count_drop_def split: prod.splits sum.splits option.splits)

lemma count_drop_same: "pipe_same p (count_drop n p)"
  by (simp add: pipe_same_def count_drop_def)

lemma ingest_all_Cons:
  "snd (ingest_all publish c (f # fs) p) = snd (ingest_all publish c fs (snd (ingest_frame publish c f p)))"
  by (simp split: prod.splits)

lemma ingest_all_same: "pipe_same p (snd (ingest_all publish c fs p))"
proof (induction fs arbitrary: p)
  case (Cons f fs)
  show ?case unfolding ingest_all_Cons by (rule pipe_same_trans [OF ingest_frame_same Cons.IH])
qed simp

lemma process_same: "pipe_same p (process publish c raw p)"
proof (cases "tp_parser p")
  case None
  then show ?thesis by (simp add: process_def count_drop_same)
next
  case (Some parser)
  obtain r w1 where r: "ps_Parse parser (tick (tp_world p)) raw = (r, w1)" by (cases "ps_Parse parser (tick (tp_world p)) raw")
  let ?p1 = "p\<lparr>tp_world := tick w1, tp_metrics := (tp_metrics p)\<lparr>tm_ParseLatency := (now_of w1 - now_of (tp_world p)) div 1000\<rparr>\<rparr>"
  have p1: "pipe_same p ?p1" by (simp add: pipe_same_def)
  have "process publish c raw p = (case r of Inl err \<Rightarrow> count_drop 1 ?p1 | Inr frames \<Rightarrow> snd (ingest_all publish c frames ?p1))"
    by (simp add: process_def Some r Let_def)
  then show ?thesis
    using pipe_same_trans [OF p1 count_drop_same] pipe_same_trans [OF p1 ingest_all_same] by (cases r) simp_all
qed

lemma IngestFrames_same: "IngestFrames publish c fs p = (r, p') \<Longrightarrow> pipe_same p p'"
  using ingest_all_same [of p publish c fs] by (auto simp: IngestFrames_def split: if_splits prod.splits)

lemma Tele_Process_same: "Tele_Process publish c raw p = (v, p') \<Longrightarrow> pipe_same p p'"
proof -
  assume a: "Tele_Process publish c raw p = (v, p')"
  have "pipe_same p (count_ingress p)" by (simp add: pipe_same_def count_ingress_def)
  then show ?thesis
    using a pipe_same_trans [OF _ process_same] by (auto simp: Tele_Process_def split: if_splits)
qed

lemma SetParser_same: "SetParser name p = (v, p') \<Longrightarrow> pipe_same p p'"
  by (auto simp: SetParser_def pipe_same_def split: option.splits)

text \<open>The queue is first in, first out, bounded, and drops its oldest entry.\<close>

definition queue_inv :: "tele_label list \<Rightarrow> 'b tele_sys \<Rightarrow> bool" where
  "queue_inv tr t \<longleftrightarrow> left_queue tr @ buffer_of t = entered tr \<and>
     length (buffer_of t) \<le> bq_maxSize (tp_buffer (ts_pipe t)) \<and>
     popped tr = processed tr @ in_hand (ts_worker t)"

text \<open>No line is lost without being counted, none appears from nowhere.\<close>

definition flow_inv :: "tele_label list \<Rightarrow> 'b tele_sys \<Rightarrow> bool" where
  "flow_inv tr t \<longleftrightarrow> finite (dom (ts_push t)) \<and>
     handed tr = pending (ts_push t) + mset (buffer_of t) + dropped tr + mset (popped tr) \<and>
     size (dropped tr) \<le> tm_DropCount (tp_metrics (ts_pipe t)) \<and>
     size (handed tr) \<le> tm_IngressQPS (tp_metrics (ts_pipe t))"

text \<open>Channels are closed once, in order, and never under a sender.\<close>

definition stop_inv :: "'b tele_sys \<Rightarrow> bool" where
  "stop_inv t \<longleftrightarrow>
     (ts_stop t \<notin> {NotStopping, AtReceiver} \<longrightarrow> ts_push t = Map.empty) \<and>
     (bq_closed (tp_buffer (ts_pipe t)) \<longleftrightarrow> ts_stop t \<in> {AtWait, Stopped}) \<and>
     (tp_stopCh (ts_pipe t) \<longleftrightarrow> ts_stop t \<in> {AtBuffer, AtWait, Stopped}) \<and>
     (tp_stopped (ts_pipe t) \<longleftrightarrow> ts_stop t \<noteq> NotStopping) \<and>
     (ts_worker t = WExit \<longrightarrow> tp_stopCh (ts_pipe t)) \<and> (ts_stop t = Stopped \<longrightarrow> ts_worker t = WExit)"

lemmas tele_updates = set_push_def set_buffer_def lose_def count_drop_def count_ingress_def bq_full_def

lemma Pop_Some:
  "Pop q = Some (Some d, q') \<longleftrightarrow> (\<exists>rest. bq_ch q = d # rest \<and> q' = q\<lparr>bq_ch := rest\<rparr>)"
  "Pop q = Some (None, q') \<longleftrightarrow> bq_ch q = [] \<and> bq_closed q \<and> q' = q"
  by (auto simp: Pop_def split: list.splits if_splits)

lemma queue_step:
  assumes "tele_step publish c t l t'" "queue_inv tr t"
  shows "queue_inv (tr @ [l]) t'"
  using assms(1)
proof cases
  case (ts_process d)
  then show ?thesis using assms(2) process_same [of "ts_pipe t" publish c d]
    by (auto simp: queue_inv_def trace_snoc pipe_same_def)
next
  case (ts_set_parser name v p')
  then show ?thesis using assms(2) SetParser_same [OF ts_set_parser(3)]
    by (auto simp: queue_inv_def trace_snoc pipe_same_def)
next
  case (ts_ingest c' frames r p')
  then show ?thesis using assms(2) IngestFrames_same [OF ts_ingest(3)]
    by (auto simp: queue_inv_def trace_snoc pipe_same_def)
next
  case (ts_manual c' raw v p')
  then show ?thesis using assms(2) Tele_Process_same [OF ts_manual(3)]
    by (auto simp: queue_inv_def trace_snoc pipe_same_def)
qed (use assms(2) in \<open>auto simp: queue_inv_def trace_snoc tele_updates Pop_Some bq_Close_def split: if_splits\<close>)

lemma pending_move:
  assumes "finite (dom m)" "m k = Some pc" "push_data pc' = push_data pc"
  shows "pending (m(k \<mapsto> pc')) = pending m"
proof -
  have "pending ((m(k := None))(k \<mapsto> pc')) = add_mset (push_data pc') (pending (m(k := None)))"
    by (rule pending_set(1)) (use assms in auto)
  then show ?thesis using pending_set(2) [OF assms(1,2)] assms(3) by simp
qed

lemma flow_step:
  assumes "tele_step publish c t l t'" "queue_inv tr t" "flow_inv tr t"
  shows "flow_inv (tr @ [l]) t'"
  using assms(1)
proof cases
  case (ts_hand k d)
  then show ?thesis using assms(3) pending_set(1) [of "ts_push t" k "PushTry d"]
    by (auto simp: flow_inv_def trace_snoc tele_updates)
next
  case (ts_try k d)
  then show ?thesis using assms(3) pending_set(2) [of "ts_push t" k "PushTry d"]
    by (auto simp: flow_inv_def trace_snoc tele_updates)
next
  case (ts_try_full k d)
  then show ?thesis using assms(3) pending_move [of "ts_push t" k "PushTry d" "PushDrop d"]
    by (auto simp: flow_inv_def trace_snoc tele_updates)
next
  case (ts_drop k d x rest)
  then show ?thesis using assms(3) pending_move [of "ts_push t" k "PushDrop d" "PushRetry d"]
    by (auto simp: flow_inv_def trace_snoc tele_updates)
next
  case (ts_drop_empty k d)
  then show ?thesis using assms(3) pending_move [of "ts_push t" k "PushDrop d" "PushRetry d"]
    by (auto simp: flow_inv_def trace_snoc tele_updates)
next
  case (ts_retry k d)
  then show ?thesis using assms(3) pending_set(2) [of "ts_push t" k "PushRetry d"]
    by (auto simp: flow_inv_def trace_snoc tele_updates)
next
  case (ts_retry_full k d)
  then show ?thesis using assms(3) pending_set(2) [of "ts_push t" k "PushRetry d"]
    by (auto simp: flow_inv_def trace_snoc tele_updates)
next
  case (ts_process d)
  then show ?thesis using assms(3) process_same [of "ts_pipe t" publish c d]
    by (auto simp: flow_inv_def trace_snoc pipe_same_def)
next
  case (ts_set_parser name v p')
  then show ?thesis using assms(3) SetParser_same [OF ts_set_parser(3)]
    by (auto simp: flow_inv_def trace_snoc pipe_same_def)
next
  case (ts_ingest c' frames r p')
  then show ?thesis using assms(3) IngestFrames_same [OF ts_ingest(3)]
    by (auto simp: flow_inv_def trace_snoc pipe_same_def)
next
  case (ts_manual c' raw v p')
  then show ?thesis using assms(3) Tele_Process_same [OF ts_manual(3)]
    by (auto simp: flow_inv_def trace_snoc pipe_same_def)
qed (use assms(3) in \<open>auto simp: flow_inv_def trace_snoc tele_updates Pop_Some bq_Close_def split: if_splits\<close>)

lemma stop_step:
  assumes "tele_step publish c t l t'" "stop_inv t"
  shows "stop_inv t'"
  using assms(1)
proof cases
  case (ts_process d)
  then show ?thesis using assms(2) process_same [of "ts_pipe t" publish c d] by (auto simp: stop_inv_def pipe_same_def)
next
  case (ts_set_parser name v p')
  then show ?thesis using assms(2) SetParser_same [OF ts_set_parser(3)] by (auto simp: stop_inv_def pipe_same_def)
next
  case (ts_ingest c' frames r p')
  then show ?thesis using assms(2) IngestFrames_same [OF ts_ingest(3)] by (auto simp: stop_inv_def pipe_same_def)
next
  case (ts_manual c' raw v p')
  then show ?thesis using assms(2) Tele_Process_same [OF ts_manual(3)] by (auto simp: stop_inv_def pipe_same_def)
qed (use assms(2) in \<open>auto simp: stop_inv_def tele_updates Pop_Some bq_Close_def split: if_splits\<close>)

lemma tele_start_inv: "queue_inv [] (tele_start mgr bus w)" "flow_inv [] (tele_start mgr bus w)" "stop_inv (tele_start mgr bus w)"
proof -
  let ?p = "NewTelePipeline mgr bus w"
  have "pipe_same ?p (snd (SetParser ''json'' ?p))" by (rule SetParser_same) (rule prod.collapse [symmetric])
  then show "queue_inv [] (tele_start mgr bus w)" "flow_inv [] (tele_start mgr bus w)" "stop_inv (tele_start mgr bus w)"
    by (simp_all add: queue_inv_def flow_inv_def stop_inv_def tele_start_def trace_defs List.map_filter_def pending_def
        pipe_same_def NewTelePipeline_def NewBufferQueue_def)
qed

lemma tele_run_inv:
  assumes "tele_run publish c t tr t'" "queue_inv [] t" "flow_inv [] t" "stop_inv t"
  shows "queue_inv tr t' \<and> flow_inv tr t' \<and> stop_inv t'"
  using assms
proof (induction rule: tele_run.induct)
  case (tele_next t tr t1 l t2)
  then show ?case using queue_step flow_step stop_step by blast
qed simp

subsection \<open>Stop returns\<close>

text \<open>
  Once no connection is left, the steps of the worker and of \<open>Stop\<close> bring a measure down, and
  one of them can be taken until \<open>Stop\<close> has returned.
\<close>

fun worker_rank :: "tele_worker \<Rightarrow> nat" where
  "worker_rank WCheck = 2" | "worker_rank WPop = 1" | "worker_rank (WBusy d) = 3" | "worker_rank WExit = 0"

fun stop_rank :: "stop_pc \<Rightarrow> nat" where
  "stop_rank NotStopping = 5" | "stop_rank AtReceiver = 4" | "stop_rank AtStopCh = 3" | "stop_rank AtBuffer = 2"
| "stop_rank AtWait = 1" | "stop_rank Stopped = 0"

definition stop_measure :: "'b tele_sys \<Rightarrow> nat" where
  "stop_measure t = 3 * length (buffer_of t) + worker_rank (ts_worker t) + stop_rank (ts_stop t)"

definition stopping :: "'b tele_sys \<Rightarrow> bool" where
  "stopping t \<longleftrightarrow> ts_stop t \<in> {AtStopCh, AtBuffer, AtWait, Stopped}"

lemma stopping_step:
  assumes "tele_step publish c t l t'" "l \<noteq> Outside" "stopping t" "stop_inv t"
  shows "stopping t' \<and> stop_measure t' < stop_measure t"
proof -
  have e: "ts_push t = Map.empty" using assms(3,4) by (auto simp: stop_inv_def stopping_def)
  show ?thesis using assms(1)
  proof cases
    case (ts_process d)
    then show ?thesis using assms(3) process_same [of "ts_pipe t" publish c d]
      by (simp add: stopping_def stop_measure_def pipe_same_def)
  next
    case (ts_pop d q)
    then show ?thesis using assms(3) by (auto simp: stopping_def stop_measure_def Pop_Some)
  qed (use assms(2,3) e in \<open>auto simp: stopping_def stop_measure_def Pop_Some bq_Close_def split: if_splits\<close>)
qed

lemma Pop_closed: "bq_closed q \<Longrightarrow> \<exists>od q'. Pop q = Some (od, q')"
  by (cases "bq_ch q") (auto simp: Pop_def)

lemma stopping_progress:
  assumes "stopping t" "stop_inv t" "ts_stop t \<noteq> Stopped"
  shows "\<exists>l t'. l \<noteq> Outside \<and> tele_step publish c t l t'"
proof (cases "ts_stop t")
  case AtStopCh
  then show ?thesis using tele_step.ts_stopch [OF AtStopCh] by (intro exI conjI) auto
next
  case AtBuffer
  then have "bq_Close (tp_buffer (ts_pipe t)) = Done ((tp_buffer (ts_pipe t))\<lparr>bq_closed := True\<rparr>)"
    using assms(2) by (simp add: stop_inv_def bq_Close_def)
  from tele_step.ts_buffer [OF AtBuffer this] show ?thesis by (intro exI conjI) auto
next
  case AtWait
  show ?thesis
  proof (cases "ts_worker t")
    case WCheck
    have "tp_stopCh (ts_pipe t)" using assms(2) AtWait by (simp add: stop_inv_def)
    from tele_step.ts_check_stop [OF WCheck this] show ?thesis by (intro exI conjI) auto
  next
    case WPop
    have "bq_closed (tp_buffer (ts_pipe t))" using assms(2) AtWait by (simp add: stop_inv_def)
    then obtain od q where q: "Pop (tp_buffer (ts_pipe t)) = Some (od, q)" using Pop_closed by blast
    show ?thesis
    proof (cases od)
      case None
      from tele_step.ts_pop_closed [OF WPop q [unfolded None]] show ?thesis by (intro exI conjI) auto
    next
      case (Some d)
      from tele_step.ts_pop [OF WPop q [unfolded Some]] show ?thesis by (intro exI [of _ "Popped d"]) auto
    qed
  next
    case (WBusy d)
    from tele_step.ts_process [OF WBusy] show ?thesis by (intro exI [of _ "Processed d"]) auto
  next
    case WExit
    from tele_step.ts_wait [OF AtWait WExit] show ?thesis by (intro exI conjI) auto
  qed
qed (use assms in \<open>simp_all add: stopping_def\<close>)

subsection \<open>What normalisation gives\<close>

definition encodable :: "TelemetryFrame \<Rightarrow> bool" where
  "encodable f \<longleftrightarrow> tf_SatelliteID f \<noteq> [] \<and> is_ok (json_norm (payload_value (telemetry_payload f)))"

lemma gomap_put_carries: "k' \<noteq> k \<Longrightarrow> carries (gomap_put k v m) k' = carries m k'"
proof -
  assume "k' \<noteq> k"
  then have "map_of (gomap_put k v m) k' = map_of m k'"
    by (induction m) (auto simp: gomap_put_def)
  then show ?thesis by (simp add: carries_def)
qed

lemma telemetry_fields:
  "\<forall>f\<in>set (extractFields (the (map_of defaultPayloads EventTelemetryReceived))). fd_Name f \<noteq> ''logicalShard''"
  by (simp add: defaultPayloads_def tag_eval)

lemma shard_keeps_valid:
  assumes "Registry_Validate NewSchemaRegistry (Some e) = None" "e_EventType e = EventTelemetryReceived"
  shows "Registry_Validate NewSchemaRegistry
    (Some (e\<lparr>e_Payload := map_option (gomap_put ''logicalShard'' v) (e_Payload e)\<rparr>)) = None"
proof -
  obtain schema p where sp: "sr_schemas NewSchemaRegistry (e_EventType e) = Some schema" "e_Payload e = Some p"
      "\<forall>f\<in>set (s_Fields schema). fd_Required f \<longrightarrow> carries p (fd_Name f)" "header_ok e"
    using assms(1) unfolding Registry_Validate_iff by blast
  have "s_Fields schema = extractFields (the (map_of defaultPayloads EventTelemetryReceived))"
    using sp(1) unfolding NewSchemaRegistry_schemas assms(2) by auto
  then have "\<forall>f\<in>set (s_Fields schema). fd_Required f \<longrightarrow> carries (gomap_put ''logicalShard'' v p) (fd_Name f)"
    using sp(3) telemetry_fields gomap_put_carries by metis
  then show ?thesis using sp unfolding Registry_Validate_iff by (simp add: header_ok_def)
qed

lemma telemetry_complete: "tf_SatelliteID f \<noteq> [] \<Longrightarrow> payload_complete (telemetry_payload f)"
  by (auto simp: payload_complete_def telemetry_payload_def defaultPayloads_def isEmptyValue_def tag_eval)

lemma Normalize_encodable:
  assumes "encodable f" "good_world w"
  shows "\<exists>e. Normalize w (Some f) = (Inr e, tick (tick w)) \<and> e_EventType e = EventTelemetryReceived \<and>
    e_SourceNodeID e = tf_SatelliteID f \<and> e_EventID e = uuid_of w \<and> header_ok e \<and>
    Registry_Validate NewSchemaRegistry (Some e) = None"
proof -
  let ?e = "\<lparr>e_EventID = uuid_of w, e_EventType = EventTelemetryReceived, e_Timestamp = now_of (tick w),
    e_SourceNodeID = tf_SatelliteID f, e_TraceID = [], e_Payload = None\<rparr>"
  have ok: "is_ok (json_norm (payload_value (telemetry_payload f)))" and id: "tf_SatelliteID f \<noteq> []"
    using assms(1) by (simp_all add: encodable_def)
  obtain ws where ws: "SetPayload ?e (payload_value (telemetry_payload f)) = Inr (?e\<lparr>e_Payload := Some ws\<rparr>)"
    using SetPayload_Some [OF ok] by blast
  have "header_ok ?e"
    using assms(2) id good_world_now [of "tick w"] good_world_uuid [OF assms(2)] by (simp add: header_ok_def)
  then have "Registry_Validate NewSchemaRegistry (Some (?e\<lparr>e_Payload := Some ws\<rparr>)) = None"
    by (intro payload_event_valid [OF telemetry_complete [OF id] ws]) (simp_all add: telemetry_payload_def)
  note valid = shard_keeps_valid [OF this]
  show ?thesis using id ws valid \<open>header_ok ?e\<close> by (simp add: Normalize_def Let_def header_ok_def)
qed

lemma Normalize_unencodable:
  assumes "\<not> encodable f"
  shows "\<exists>err w'. Normalize w (Some f) = (Inl err, w') \<and> (good_world w \<longrightarrow> good_world w')"
proof (cases "tf_SatelliteID f = []")
  case True
  then show ?thesis by (simp add: Normalize_def)
next
  case False
  then obtain err where "json_norm (payload_value (telemetry_payload f)) = Inl err"
    using assms by (auto simp: encodable_def is_ok_def split: sum.splits)
  moreover obtain kvs where "payload_value (telemetry_payload f) = GStruct kvs"
    by (simp add: payload_value_def struct_value_def)
  ultimately show ?thesis using False by (simp add: Normalize_def Let_def SetPayload_def)
qed

subsection \<open>Ingestion into a healthy bus\<close>

definition tele_ready :: "ctx \<Rightarrow> MemoryEventStore LocalBus tele \<Rightarrow> bool" where
  "tele_ready c p \<longleftrightarrow> ctx_err c = None \<and> \<not> lb_done (tp_bus p) \<and> lb_registry (tp_bus p) = NewSchemaRegistry \<and>
     \<not> ms_closed (lb_store (tp_bus p)) \<and> good_world (tp_world p)"

abbreviation tele_log :: "MemoryEventStore LocalBus tele \<Rightarrow> Event multiset" where
  "tele_log p \<equiv> mem_log (lb_store (tp_bus p))"

lemma with_trace_valid:
  "header_ok e \<Longrightarrow> Registry_Validate NewSchemaRegistry (Some e) = None \<Longrightarrow>
   Registry_Validate NewSchemaRegistry (Some (with_trace c e)) = None"
  by (simp add: with_trace_def Let_def Registry_Validate_iff header_ok_def)

lemma with_trace_fields [simp]:
  "e_EventType (with_trace c e) = e_EventType e" "e_SourceNodeID (with_trace c e) = e_SourceNodeID e"
  by (simp_all add: with_trace_def Let_def)

lemma send_store [simp]:
  "lb_store (send_publishCh e b) = lb_store b" "lb_done (send_publishCh e b) = lb_done b"
  "lb_registry (send_publishCh e b) = lb_registry b"
  by (simp_all add: send_publishCh_def Let_def)

lemma ingest_frame_ready:
  assumes "tele_ready c p"
  shows "\<exists>p'. ingest_frame (LocalBus_Publish Mem_Append) c f p = (encodable f, p') \<and> tele_ready c p' \<and>
    tm_DropCount (tp_metrics p') = tm_DropCount (tp_metrics p) + (if encodable f then 0 else 1) \<and>
    (\<exists>evs. tele_log p' = tele_log p + mset evs \<and> map e_SourceNodeID evs = (if encodable f then [tf_SatelliteID f] else []) \<and>
       (\<forall>e\<in>set evs. e_EventType e = EventTelemetryReceived))"
proof (cases "encodable f")
  case True
  have gw: "good_world (tp_world p)" using assms by (simp add: tele_ready_def)
  obtain e where e: "Normalize (tp_world p) (Some f) = (Inr e, tick (tick (tp_world p)))"
      "e_EventType e = EventTelemetryReceived" "e_SourceNodeID e = tf_SatelliteID f" "header_ok e"
      "Registry_Validate NewSchemaRegistry (Some e) = None"
    using Normalize_encodable [OF True gw] by blast
  note valid = with_trace_valid [OF e(4,5), of c]
  let ?w = "tick (tick (tp_world p))" and ?s = "lb_store (tp_bus p)" and ?e = "with_trace c e"
  let ?s' = "?s\<lparr>ms_entries := ms_entries ?s @ [\<lparr>me_event = ?e, me_createdAt = cfg_now (ms_cfg ?s) ?w\<rparr>]\<rparr>"
  let ?b = "send_publishCh ?e ((tp_bus p)\<lparr>lb_store := ?s'\<rparr>)"
  have "LocalBus_Publish Mem_Append c ?w (Some e) (tp_bus p) = (None, ?b)"
    using assms valid by (simp add: LocalBus_Publish_def tele_ready_def Mem_Append_def Let_def)
  then have "ingest_frame (LocalBus_Publish Mem_Append) c f p = (True, p\<lparr>tp_world := tick ?w, tp_bus := ?b\<rparr>)"
    using e(1) by (simp add: ingest_frame_def)
  moreover have "tele_ready c (p\<lparr>tp_world := tick ?w, tp_bus := ?b\<rparr>)" using assms by (simp add: tele_ready_def)
  moreover have "tele_log (p\<lparr>tp_world := tick ?w, tp_bus := ?b\<rparr>) = tele_log p + mset [?e]"
    by (simp add: mem_log_def)
  ultimately show ?thesis using True e(2,3)
    by (intro exI [of _ "p\<lparr>tp_world := tick ?w, tp_bus := ?b\<rparr>"] conjI exI [of _ "[?e]"]) simp_all
next
  case False
  obtain err w' where "Normalize (tp_world p) (Some f) = (Inl err, w')" "good_world (tp_world p) \<longrightarrow> good_world w'"
    using Normalize_unencodable [OF False] by blast
  then show ?thesis using False assms by (simp add: ingest_frame_def count_drop_def tele_ready_def)
qed

lemma ingest_all_ready:
  assumes "tele_ready c p"
  shows "\<exists>p'. ingest_all (LocalBus_Publish Mem_Append) c fs p = (length (filter encodable fs), p') \<and> tele_ready c p' \<and>
    tm_DropCount (tp_metrics p') = tm_DropCount (tp_metrics p) + length (filter (\<lambda>f. \<not> encodable f) fs) \<and>
    (\<exists>evs. tele_log p' = tele_log p + mset evs \<and> map e_SourceNodeID evs = map tf_SatelliteID (filter encodable fs) \<and>
       (\<forall>e\<in>set evs. e_EventType e = EventTelemetryReceived))"
  using assms
proof (induction fs arbitrary: p)
  case (Cons f fs)
  obtain p1 evs1 where 1: "ingest_frame (LocalBus_Publish Mem_Append) c f p = (encodable f, p1)" "tele_ready c p1"
      "tm_DropCount (tp_metrics p1) = tm_DropCount (tp_metrics p) + (if encodable f then 0 else 1)"
      "tele_log p1 = tele_log p + mset evs1" "map e_SourceNodeID evs1 = (if encodable f then [tf_SatelliteID f] else [])"
      "\<forall>e\<in>set evs1. e_EventType e = EventTelemetryReceived"
    using ingest_frame_ready [OF Cons.prems, of f] by blast
  obtain p2 evs2 where 2: "ingest_all (LocalBus_Publish Mem_Append) c fs p1 = (length (filter encodable fs), p2)"
      "tele_ready c p2" "tm_DropCount (tp_metrics p2) = tm_DropCount (tp_metrics p1) + length (filter (\<lambda>f. \<not> encodable f) fs)"
      "tele_log p2 = tele_log p1 + mset evs2" "map e_SourceNodeID evs2 = map tf_SatelliteID (filter encodable fs)"
      "\<forall>e\<in>set evs2. e_EventType e = EventTelemetryReceived"
    using Cons.IH [OF 1(2)] by blast
  have "tele_log p2 = tele_log p + mset (evs1 @ evs2)" using 1(4) 2(4) by (simp add: ac_simps)
  moreover have "map e_SourceNodeID (evs1 @ evs2) = map tf_SatelliteID (filter encodable (f # fs))"
    using 1(5) 2(5) by simp
  moreover have "\<forall>e\<in>set (evs1 @ evs2). e_EventType e = EventTelemetryReceived"
    using 1(6) 2(6) by auto
  moreover have "ingest_all (LocalBus_Publish Mem_Append) c (f # fs) p = (length (filter encodable (f # fs)), p2)"
    using 1(1) 2(1) by simp
  ultimately show ?case using 1(3) 2(2,3) by (intro exI [of _ p2] conjI exI [of _ "evs1 @ evs2"]) simp_all
qed simp

subsection \<open>Samples\<close>

definition tele_world :: world where
  "tele_world = \<lparr>w_clock = (\<lambda>n. 1 + int n), w_uuid = (\<lambda>n. replicate (Suc n) CHR ''u''), w_pos = 0\<rparr>"

definition demo_tele :: "MemoryEventStore LocalBus tele" where
  "demo_tele = NewTelePipeline None demo_bus tele_world"

definition demo_frame :: TelemetryFrame where
  "demo_frame = \<lparr>tf_SatelliteID = ''sat'', tf_Timestamp = 5, tf_Parameters = None, tf_Quality = []\<rparr>"

lemma demo_tele_ready: "tele_ready background demo_tele"
proof -
  have "inj (\<lambda>n. replicate (Suc n) CHR ''u'')" by (auto intro: injI dest: arg_cong [of _ _ length])
  then show ?thesis
    by (simp add: tele_ready_def demo_tele_def NewTelePipeline_def demo_bus_def NewLocalBus_def background_def
        NewMemoryEventStore_def good_world_def tele_world_def)
qed

lemma demo_encodable: "encodable demo_frame" "\<not> encodable (demo_frame\<lparr>tf_SatelliteID := []\<rparr>)"
proof -
  have "payload_value (telemetry_payload demo_frame) = GStruct [(''satelliteId'', GStr ''sat''), (''timestamp'', GTime 5),
      (''parameters'', GMap []), (''quality'', GStr ''unknown'')]"
    by (simp add: payload_value_def telemetry_payload_def demo_frame_def struct_value_def defaultPayloads_def tag_eval)
  then show "encodable demo_frame" by (simp add: encodable_def demo_frame_def year_10000_def)
  show "\<not> encodable (demo_frame\<lparr>tf_SatelliteID := []\<rparr>)" by (simp add: encodable_def)
qed

lemma subseq_popped: "subseq (popped tr) (left_queue tr)"
proof (induction tr rule: rev_induct)
  case (snoc l tr)
  then show ?case by (cases l) (simp_all add: trace_snoc list_emb_append_mono subseq_rev_drop_many)
qed (simp add: trace_defs List.map_filter_def)

lemma tele_run_append:
  "tele_run publish c t tr t1 \<Longrightarrow> tele_step publish c t1 l t2 \<Longrightarrow> tele_run publish c t2 tr' t3 \<Longrightarrow>
   tele_run publish c t (tr @ l # tr') t3"
proof -
  assume a: "tele_run publish c t tr t1" "tele_step publish c t1 l t2"
  have base: "tele_run publish c t (tr @ [l]) t2" by (rule tele_next [OF a])
  assume "tele_run publish c t2 tr' t3"
  then show ?thesis using base
  proof (induction rule: tele_run.induct)
    case (tele_next ts tr1 t4 l4 t5)
    then show ?case using tele_run.tele_next [of publish c t "tr @ l # tr1" t4 l4 t5] by simp
  qed simp
qed

lemma stop_reached:
  assumes "stopping t" "stop_inv t"
  shows "\<exists>tr t'. tele_run publish c t tr t' \<and> ts_stop t' = Stopped \<and> length tr \<le> stop_measure t"
  using assms
proof (induction "stop_measure t" arbitrary: t rule: less_induct)
  case less
  show ?case
  proof (cases "ts_stop t = Stopped")
    case True
    then show ?thesis using tele_refl by (intro exI [of _ "[]"] exI [of _ t]) simp
  next
    case False
    obtain l t1 where 1: "l \<noteq> Outside" "tele_step publish c t l t1"
      using stopping_progress [OF less.prems False] by blast
    have s: "stopping t1" "stop_measure t1 < stop_measure t" using stopping_step [OF 1(2,1) less.prems] by auto
    obtain tr t' where 2: "tele_run publish c t1 tr t'" "ts_stop t' = Stopped" "length tr \<le> stop_measure t1"
      using less.hyps [OF s(2,1) stop_step [OF 1(2) less.prems(2)]] by blast
    have "tele_run publish c t ([] @ l # tr) t'" by (rule tele_run_append [OF tele_refl 1(2) 2(1)])
    then show ?thesis using 2(2,3) s(2) by (intro exI [of _ "[] @ l # tr"] exI [of _ t']) simp
  qed
qed

lemma tele_started:
  assumes "tele_run publish c (tele_start mgr bus w) tr t"
  shows "queue_inv tr t" "flow_inv tr t" "stop_inv t"
  using tele_run_inv [OF assms tele_start_inv] by blast+

lemma tele_start_fields [simp]:
  "ts_push (tele_start mgr bus w) = Map.empty" "ts_stop (tele_start mgr bus w) = NotStopping"
  "tp_buffer (ts_pipe (tele_start mgr bus w)) = NewBufferQueue defaultBufferSize"
proof -
  let ?p = "NewTelePipeline mgr bus w"
  have "pipe_same ?p (snd (SetParser ''json'' ?p))" by (rule SetParser_same) (rule prod.collapse [symmetric])
  then show "tp_buffer (ts_pipe (tele_start mgr bus w)) = NewBufferQueue defaultBufferSize"
    by (simp add: tele_start_def pipe_same_def NewTelePipeline_def)
qed (simp_all add: tele_start_def)

lemma demo_push:
  fixes bus :: 'b and w :: world
  defines "t0 \<equiv> tele_start None bus w"
  defines "t1 \<equiv> set_push 0 (Some (PushTry ''x'')) (t0\<lparr>ts_pipe := count_ingress (ts_pipe t0)\<rparr>)"
  defines "t2 \<equiv> set_push 0 None (set_buffer (buffer_of t1 @ [''x'']) t1)"
  shows "tele_run publish c t0 ([] @ [Handed ''x''] @ [Enqueued ''x'']) t2"
    and "buffer_of t2 = [''x'']" "ts_push t2 = Map.empty" "ts_stop t2 = NotStopping"
proof -
  have "tele_step publish c t0 (Handed ''x'') t1"
    unfolding t1_def by (rule ts_hand) (simp_all add: t0_def)
  moreover have "tele_step publish c t1 (Enqueued ''x'') t2"
    unfolding t2_def
    by (rule ts_try) (simp_all add: t1_def t0_def tele_updates NewBufferQueue_def defaultBufferSize_def)
  ultimately show "tele_run publish c t0 ([] @ [Handed ''x''] @ [Enqueued ''x'']) t2"
    using tele_next [OF tele_next [OF tele_refl]] by fastforce
qed (simp_all add: t2_def t1_def t0_def tele_updates NewBufferQueue_def)

text \<open>The state in which the first caller of \<open>Stop\<close> has seen the receiver stop.\<close>

lemma begin_stop:
  assumes "tele_run publish c t tr t1" "ts_stop t1 = NotStopping" "stop_inv t1" "ts_push t1 = Map.empty"
  shows "\<exists>t2. tele_run publish c t ((tr @ [Moved]) @ [Moved]) t2 \<and> stopping t2 \<and> buffer_of t2 = buffer_of t1"
proof -
  let ?t = "t1\<lparr>ts_pipe := (ts_pipe t1)\<lparr>tp_stopped := True\<rparr>, ts_stop := AtReceiver\<rparr>"
  have "tele_step publish c t1 Moved ?t"
    by (rule ts_begin [OF assms(2)]) (use assms(2,3) in \<open>simp add: stop_inv_def\<close>)
  moreover have "tele_step publish c ?t Moved (?t\<lparr>ts_stop := AtStopCh\<rparr>)"
    by (rule ts_receiver) (use assms(4) in simp_all)
  ultimately have "tele_run publish c t ((tr @ [Moved]) @ [Moved]) (?t\<lparr>ts_stop := AtStopCh\<rparr>)"
    by (intro tele_next [OF tele_next [OF assms(1)]])
  then show ?thesis by (intro exI [of _ "?t\<lparr>ts_stop := AtStopCh\<rparr>"]) (simp add: stopping_def)
qed

subsection \<open>Properties\<close>

text \<open>C14: In every interleaving of connections, worker, \<open>Stop\<close> and other callers, each line handed
  over is in exactly one place: inside a push, in the buffer, dropped and counted, being
  processed, or processed. The buffer holds at most 1024 lines and is first in, first out: what
  left it (taken by the worker or dropped as oldest) followed by what is in it is what entered
  it, and the worker processes lines in the order in which they entered.\<close>

theorem tele_conservation:
  assumes "tele_run publish c (tele_start mgr bus w) tr t"
  shows "handed tr = pending (ts_push t) + mset (buffer_of t) + dropped tr + mset (in_hand (ts_worker t)) +
      mset (processed tr) \<and>
    size (dropped tr) \<le> tm_DropCount (tp_metrics (ts_pipe t)) \<and> length (buffer_of t) \<le> bq_maxSize (tp_buffer (ts_pipe t)) \<and>
    left_queue tr @ buffer_of t = entered tr \<and> subseq (processed tr @ in_hand (ts_worker t)) (left_queue tr)"
  using tele_started(1,2) [OF assms] subseq_popped [of tr] by (auto simp: queue_inv_def flow_inv_def)

lemma tele_conservation_witness:
  "\<exists>t. left_queue [Handed ''x'', Enqueued ''x''] @ buffer_of t = entered [Handed ''x'', Enqueued ''x''] \<and>
     buffer_of t = [''x'']"
  using tele_conservation [OF demo_push(1)] demo_push(2) by fastforce



text \<open>C13: With a healthy bus, batch ingestion accepts exactly the frames that name a satellite and
  whose parameters JSON can express: as many events of type \<open>TelemetryReceived\<close> reach the log,
  for their satellites and in their order, every other frame is counted as dropped, and the call
  fails only when none is acceptable.\<close>

theorem ingest_exact:
  assumes "tele_ready c p" "IngestFrames (LocalBus_Publish Mem_Append) c frames p = (r, p')"
  shows "(if \<exists>f\<in>set frames. encodable f then r = Inr (length (filter encodable frames)) else \<not> is_ok r) \<and>
    (\<exists>evs. tele_log p' = tele_log p + mset evs \<and> map e_SourceNodeID evs = map tf_SatelliteID (filter encodable frames) \<and>
       (\<forall>e\<in>set evs. e_EventType e = EventTelemetryReceived)) \<and>
    tm_DropCount (tp_metrics p') = tm_DropCount (tp_metrics p) + length (filter (\<lambda>f. \<not> encodable f) frames)"
proof -
  obtain q where q: "ingest_all (LocalBus_Publish Mem_Append) c frames p = (length (filter encodable frames), q)"
      "tm_DropCount (tp_metrics q) = tm_DropCount (tp_metrics p) + length (filter (\<lambda>f. \<not> encodable f) frames)"
      "\<exists>evs. tele_log q = tele_log p + mset evs \<and> map e_SourceNodeID evs = map tf_SatelliteID (filter encodable frames) \<and>
         (\<forall>e\<in>set evs. e_EventType e = EventTelemetryReceived)"
    using ingest_all_ready [OF assms(1), of frames] by blast
  have "p' = q" using assms(2) q(1) by (cases frames) (auto simp: IngestFrames_def split: prod.splits if_splits)
  moreover have "if \<exists>f\<in>set frames. encodable f then r = Inr (length (filter encodable frames)) else \<not> is_ok r"
    using assms(2) q(1) by (auto simp: IngestFrames_def filter_empty_conv split: if_splits)
  ultimately show ?thesis using q(2,3) by simp
qed

lemma ingest_exact_witness:
  "\<exists>p'. IngestFrames (LocalBus_Publish Mem_Append) background [demo_frame, demo_frame\<lparr>tf_SatelliteID := []\<rparr>] demo_tele =
     (Inr 1, p') \<and> tm_DropCount (tp_metrics p') = 1"
proof -
  let ?fs = "[demo_frame, demo_frame\<lparr>tf_SatelliteID := []\<rparr>]"
  obtain r p' where r: "IngestFrames (LocalBus_Publish Mem_Append) background ?fs demo_tele = (r, p')" by fastforce
  have "tm_DropCount (tp_metrics demo_tele) = 0" by (simp add: demo_tele_def NewTelePipeline_def)
  then have "r = Inr 1 \<and> tm_DropCount (tp_metrics p') = 1"
    using ingest_exact [OF demo_tele_ready r] demo_encodable by simp
  then show ?thesis using r by blast
qed

text \<open>A line that comes over TCP holds no line feed, so the element-set parser, which needs two
  lines, refuses it: with that parser active every received line is dropped and nothing is
  published.\<close>

theorem tcp_element_sets_dropped:
  assumes "tp_parser p = Some (TLEParser cbrt)" "newline \<notin> set raw"
  shows "tp_bus (process publish c raw p) = tp_bus p \<and>
    tm_DropCount (tp_metrics (process publish c raw p)) = tm_DropCount (tp_metrics p) + 1"
proof -
  have "newline \<notin> set (trim_space raw)" using assms(2) trim_space_set by blast
  then have "splitTLEGroups (trim_space raw) = (if trim_space raw = [] then [] else [[trim_space raw]])"
    by (simp add: splitTLEGroups_def split_at_absent trim_space_idem)
  then have "\<exists>e. TLE_Parse cbrt raw = Inl e"
    by (simp add: TLE_Parse_def extractTLELines_def try_wrap_def Let_def)
  then obtain e where "TLE_Parse cbrt raw = Inl e" ..
  then show ?thesis using assms(1) by (simp add: process_def TLEParser_def Let_def count_drop_def)
qed

lemma tcp_element_sets_dropped_witness:
  "tm_DropCount (tp_metrics (process (LocalBus_Publish Mem_Append) background sample_line1
     (demo_tele\<lparr>tp_parser := Some (TLEParser (\<lambda>x. x))\<rparr>))) = 1"
proof -
  let ?p = "demo_tele\<lparr>tp_parser := Some (TLEParser (\<lambda>x. x))\<rparr>"
  have "tp_parser ?p = Some (TLEParser (\<lambda>x. x))" by simp
  moreover have "newline \<notin> set sample_line1" by (simp add: sample_line1_def)
  moreover have "tm_DropCount (tp_metrics ?p) = 0" by (simp add: demo_tele_def NewTelePipeline_def)
  ultimately show ?thesis using tcp_element_sets_dropped [of ?p "\<lambda>x. x" sample_line1] by simp
qed

subsection \<open>Two latent faults\<close>

text \<open>A failed \<open>Start\<close> has closed the channels that \<open>Stop\<close> closes again.\<close>

theorem failed_start_then_stop_panics:
  "\<exists>e p. Tele_Start (Some err) (NewTelePipeline mgr bus w) = Done (Some e, p) \<and>
     Tele_Stop p = Panic ''close of closed channel''"
proof -
  let ?n = "NewTelePipeline mgr bus w"
  have "pipe_same ?n (snd (SetParser ''json'' ?n))" by (rule SetParser_same) (rule prod.collapse [symmetric])
  then show ?thesis
    by (simp add: Tele_Start_def Tele_Stop_def bq_Close_def pipe_same_def Let_def NewTelePipeline_def NewBufferQueue_def)
qed

text \<open>A mean motion that reads \<open>NaN\<close> passes the check that it be positive; no event can carry it.\<close>

definition nan_line2 :: string where
  "nan_line2 = ''2 00005        0        0 0000000        0        0         NaN    07''"

lemma nan_fields:
  "trim_space (cut 2 7 nan_line2) = ''00005''"
  "ParseFloat (trim_space (cut 8 16 nan_line2)) = Inr (Fin 0)"
  "ParseFloat (trim_space (cut 17 25 nan_line2)) = Inr (Fin 0)"
  "ParseFloat (''0.'' @ trim_space (cut 26 33 nan_line2)) = Inr (Fin 0)"
  "ParseFloat (trim_space (cut 34 42 nan_line2)) = Inr (Fin 0)"
  "ParseFloat (trim_space (cut 43 51 nan_line2)) = Inr (Fin 0)"
  "ParseFloat (trim_space (cut 52 63 nan_line2)) = Inr NaN"
  "verifyChecksum nan_line2 = None" "validateTLELine nan_line2 CHR ''2'' = None"
  by (simp_all add: field_eval nan_line2_def verifyChecksum_def tleLineLength_def checksum_def check_weight_def
      validateTLELine_def char_of_def bit_0)

theorem nan_mean_motion_accepted:
  "\<exists>f. parseTLEPair cbrt sample_line1 nan_line2 = Inr f \<and> \<not> encodable f"
proof -
  have "\<exists>f o1. parseTLEPair cbrt sample_line1 nan_line2 = Inr f \<and> o_MeanMotion o1 = NaN \<and>
      tf_Parameters f = Some [(''orbit'', orbit_value o1), (''noradId'', GStr ''00005'')]"
    unfolding parseTLEPair_def sample_checks sample_formats sample_epoch sample_pair_fields(1) nan_fields
    by (simp add: check_wrap_def try_wrap_def Let_def) (metis OrbitElements.select_convs(7))
  then obtain f o1 where f: "parseTLEPair cbrt sample_line1 nan_line2 = Inr f" "o_MeanMotion o1 = NaN"
      "tf_Parameters f = Some [(''orbit'', orbit_value o1), (''noradId'', GStr ''00005'')]"
    by blast
  have "\<not> is_ok (json_norm (orbit_value o1))"
    using f(2) by (simp add: orbit_value_def split: sum.splits)
  then have "\<not> encodable f"
    using f(3) by (auto simp: encodable_def payload_value_def telemetry_payload_def struct_value_def defaultPayloads_def
        tag_eval split: sum.splits)
  then show ?thesis using f(1) by blast
qed

end
