(* ===== verification/TelemetryReceiver.thy ===== *)
theory TelemetryReceiver
  imports Float64 Prelude
begin

text \<open>
  \<open>internal/pipeline/telemetry/receiver.go\<close>: the TCP receiver as a step relation. The accept
  loop, one goroutine per connection and \<open>Stop\<close> interleave at each access to shared state; the
  peers (who connect, send lines, close) and the network are the environment. The token bucket
  (\<open>golang.org/x/time/rate\<close>) only delays a line and is left out.
\<close>

subsection \<open>Configuration\<close>

record ReceiverConfig =
  rc_MaxConns :: int
  rc_PerConnRate :: float64
  rc_Burst :: int
  rc_IdleTimeout :: duration

definition defaultMaxConns :: int where "defaultMaxConns = 64"
definition defaultPerConnRate :: float64 where "defaultPerConnRate = Fin 200"
definition defaultPerConnBurst :: int where "defaultPerConnBurst = 20"
definition defaultIdleTimeout :: duration where "defaultIdleTimeout = 5 * minute"

definition ReceiverConfig_applyDefaults :: "ReceiverConfig \<Rightarrow> ReceiverConfig" where
  "ReceiverConfig_applyDefaults cfg =
     \<lparr>rc_MaxConns = (if rc_MaxConns cfg \<le> 0 then defaultMaxConns else rc_MaxConns cfg),
      rc_PerConnRate = (if f64_le (rc_PerConnRate cfg) (Fin 0) then defaultPerConnRate else rc_PerConnRate cfg),
      rc_Burst = (if rc_Burst cfg \<le> 0 then defaultPerConnBurst else rc_Burst cfg),
      rc_IdleTimeout = (if rc_IdleTimeout cfg \<le> 0 then defaultIdleTimeout else rc_IdleTimeout cfg)\<rparr>"

subsection \<open>State\<close>

text \<open>
  A connection's goroutine has been started, or stands at \<open>scanner.Scan\<close> with the read deadline
  it last set. The accept loop waits, holds an accepted connection, or has returned.
  \<open>rv_handled\<close> lists the lines given to the handler.
\<close>

datatype conn_pc = Spawned | Reading "time option"
datatype accept_pc = NotStarted | Accepting | Deciding nat | AcceptReturned

record receiver =
  rv_cfg :: ReceiverConfig
  rv_active :: nat
  rv_conns :: "nat \<rightharpoonup> conn_pc"
  rv_accept :: accept_pc
  rv_listening :: bool
  rv_closed :: bool
  rv_handled :: "(nat \<times> string) list"
  rv_stopped :: bool

definition NewReceiver :: receiver where
  "NewReceiver = \<lparr>rv_cfg = ReceiverConfig_applyDefaults \<lparr>rc_MaxConns = 0, rc_PerConnRate = Fin 0, rc_Burst = 0, rc_IdleTimeout = 0\<rparr>,
     rv_active = 0, rv_conns = Map.empty, rv_accept = NotStarted, rv_listening = False, rv_closed = False,
     rv_handled = [], rv_stopped = False\<rparr>"

definition Configure :: "ReceiverConfig \<Rightarrow> receiver \<Rightarrow> receiver" where
  "Configure cfg r = r\<lparr>rv_cfg := ReceiverConfig_applyDefaults cfg\<rparr>"

text \<open>\<open>Start\<close> with the outcome of \<open>net.Listen\<close>.\<close>

definition Receiver_Start :: "bool \<Rightarrow> verdict \<Rightarrow> receiver \<Rightarrow> verdict \<times> receiver" where
  "Receiver_Start has_handler listen r =
     (if \<not> has_handler then (Some (Errorf ''handler must not be nil''), r)
      else case listen of
             Some e \<Rightarrow> (Some (Wrap ''listen on TCP port'' e), r)
           | None \<Rightarrow> (None, r\<lparr>rv_listening := True, rv_accept := Accepting\<rparr>))"

subsection \<open>Steps\<close>

text \<open>
  \<open>FromPeer\<close> steps are the peer's doing: it connects, sends a line or closes. \<open>Own\<close> steps are the
  program's and the clock's.
\<close>

datatype rv_label = FromPeer nat | Own

abbreviation set_conn :: "nat \<Rightarrow> conn_pc option \<Rightarrow> receiver \<Rightarrow> receiver" where
  "set_conn k pc r \<equiv> r\<lparr>rv_conns := (rv_conns r)(k := pc)\<rparr>"

text \<open>A line read at \<open>t\<close>: the deadline moves, an empty line is skipped. A line that the scanner
  already holds is read whatever the deadline.\<close>

definition read_line :: "nat \<Rightarrow> time \<Rightarrow> string \<Rightarrow> receiver \<Rightarrow> receiver" where
  "read_line k t d r =
     (set_conn k (Some (Reading (Some (t + rc_IdleTimeout (rv_cfg r))))) r)
       \<lparr>rv_handled := (if d = [] then rv_handled r else rv_handled r @ [(k, d)])\<rparr>"

text \<open>\<open>handleConn\<close> returns: the connection is closed and the counter goes down.\<close>

definition end_conn :: "nat \<Rightarrow> receiver \<Rightarrow> receiver" where
  "end_conn k r = (set_conn k None r)\<lparr>rv_active := rv_active r - 1\<rparr>"

inductive rv_step :: "receiver \<Rightarrow> rv_label \<Rightarrow> receiver \<Rightarrow> bool" where
  rs_accept: "rv_accept r = Accepting \<Longrightarrow> rv_listening r \<Longrightarrow> rv_conns r k = None \<Longrightarrow>
    rv_step r (FromPeer k) (r\<lparr>rv_accept := Deciding k\<rparr>)"
| rs_refuse: "rv_accept r = Deciding k \<Longrightarrow> rc_MaxConns (rv_cfg r) \<le> int (rv_active r) \<Longrightarrow>
    rv_step r Own (r\<lparr>rv_accept := Accepting\<rparr>)"
| rs_spawn: "rv_accept r = Deciding k \<Longrightarrow> int (rv_active r) < rc_MaxConns (rv_cfg r) \<Longrightarrow>
    rv_step r Own ((set_conn k (Some Spawned) r)\<lparr>rv_accept := Accepting\<rparr>)"
| rs_accept_error: "rv_accept r = Accepting \<Longrightarrow> rv_step r Own (r\<lparr>rv_accept := AcceptReturned\<rparr>)"
| rs_enter: "rv_conns r k = Some Spawned \<Longrightarrow>
    rv_step r Own ((set_conn k (Some (Reading None)) r)\<lparr>rv_active := rv_active r + 1\<rparr>)"
| rs_line: "rv_conns r k = Some (Reading dl) \<Longrightarrow>
    rv_step r (FromPeer k) (read_line k t d r)"
| rs_end: "rv_conns r k = Some (Reading dl) \<Longrightarrow> rv_step r (FromPeer k) (end_conn k r)"
| rs_timeout: "rv_conns r k = Some (Reading (Some dl)) \<Longrightarrow> dl \<le> t \<Longrightarrow> rv_step r Own (end_conn k r)"
| rs_close: "\<not> rv_closed r \<Longrightarrow> rv_step r Own (r\<lparr>rv_closed := True, rv_listening := False\<rparr>)"
| rs_stopped: "rv_closed r \<Longrightarrow> rv_accept r \<in> {NotStarted, AcceptReturned} \<Longrightarrow> rv_conns r = Map.empty \<Longrightarrow>
    rv_step r Own (r\<lparr>rv_stopped := True\<rparr>)"

inductive rv_run :: "receiver \<Rightarrow> rv_label list \<Rightarrow> receiver \<Rightarrow> bool" where
  rv_refl: "rv_run r [] r"
| rv_next: "rv_run r tr r1 \<Longrightarrow> rv_step r1 l r2 \<Longrightarrow> rv_run r (tr @ [l]) r2"

definition started :: "ReceiverConfig \<Rightarrow> receiver" where
  "started cfg = snd (Receiver_Start True None (Configure cfg NewReceiver))"

subsection \<open>Invariant\<close>

definition reading :: "receiver \<Rightarrow> nat set" where
  "reading r = {k. \<exists>dl. rv_conns r k = Some (Reading dl)}"

text \<open>The counter is the number of connections being read; lines handed on are not empty; after
  \<open>Stop\<close> has returned there is no connection.\<close>

definition rv_inv :: "receiver \<Rightarrow> bool" where
  "rv_inv r \<longleftrightarrow> finite (dom (rv_conns r)) \<and> rv_active r = card (reading r) \<and> [] \<notin> snd ` set (rv_handled r) \<and>
     (\<forall>k. rv_accept r = Deciding k \<longrightarrow> rv_conns r k = None) \<and>
     (rv_stopped r \<longrightarrow> rv_conns r = Map.empty \<and> rv_accept r \<in> {NotStarted, AcceptReturned})"

lemma reading_finite: "finite (dom (rv_conns r)) \<Longrightarrow> finite (reading r)"
  by (rule finite_subset [of _ "dom (rv_conns r)"]) (auto simp: reading_def)

lemma reading_upd:
  "reading (r\<lparr>rv_conns := m\<rparr>) = {k. \<exists>dl. m k = Some (Reading dl)}"
  by (simp add: reading_def)

lemma rv_step_inv:
  assumes "rv_step r l r'" "rv_inv r"
  shows "rv_inv r'"
proof -
  have fin: "finite (reading r)" using assms(2) reading_finite by (simp add: rv_inv_def)
  show ?thesis using assms(1)
  proof cases
    case (rs_spawn k)
    have "reading r' = reading r" using rs_spawn assms(2) by (auto simp: reading_def rv_inv_def)
    then show ?thesis using rs_spawn assms(2) by (auto simp: rv_inv_def)
  next
    case (rs_enter k)
    have "reading r' = insert k (reading r)" "k \<notin> reading r" using rs_enter by (auto simp: reading_def)
    then show ?thesis using rs_enter assms(2) fin by (auto simp: rv_inv_def)
  next
    case (rs_line k dl t d)
    have "reading r' = reading r" using rs_line by (auto simp: reading_def read_line_def)
    then show ?thesis using rs_line assms(2) by (auto simp: rv_inv_def read_line_def)
  next
    case (rs_end k dl)
    have "reading r' = reading r - {k}" "k \<in> reading r" using rs_end by (auto simp: reading_def end_conn_def)
    then show ?thesis using rs_end assms(2) fin by (auto simp: rv_inv_def end_conn_def)
  next
    case (rs_timeout k dl t)
    have "reading r' = reading r - {k}" "k \<in> reading r" using rs_timeout by (auto simp: reading_def end_conn_def)
    then show ?thesis using rs_timeout assms(2) fin by (auto simp: rv_inv_def end_conn_def)
  qed (use assms(2) in \<open>auto simp: rv_inv_def reading_def\<close>)
qed

lemma started_inv: "rv_inv (started cfg)"
  by (simp add: started_def Receiver_Start_def Configure_def NewReceiver_def rv_inv_def reading_def)

lemma rv_run_inv: "rv_run r tr r' \<Longrightarrow> rv_inv r \<Longrightarrow> rv_inv r'"
  by (induction rule: rv_run.induct) (auto intro: rv_step_inv)

subsection \<open>A silent connection\<close>

lemma silent_step:
  assumes "rv_step r l r'" "rv_conns r k = Some (Reading None)" "l \<noteq> FromPeer k" "\<not> rv_stopped r" "rv_inv r"
  shows "rv_conns r' k = Some (Reading None) \<and> \<not> rv_stopped r'"
  using assms(1)
proof cases
  case (rs_spawn j)
  then have "j \<noteq> k" using assms(2,5) by (auto simp: rv_inv_def)
  then show ?thesis using rs_spawn assms(2,4) by simp
next
  case (rs_timeout j dl t)
  then have "j \<noteq> k" using assms(2) by auto
  then show ?thesis using rs_timeout assms(2,4) by (simp add: end_conn_def)
qed (use assms(2-4) in \<open>auto simp: read_line_def end_conn_def\<close>)

lemma silent_run:
  assumes "rv_run r tr r'" "rv_conns r k = Some (Reading None)" "FromPeer k \<notin> set tr" "\<not> rv_stopped r" "rv_inv r"
  shows "rv_conns r' k = Some (Reading None) \<and> \<not> rv_stopped r'"
  using assms
proof (induction rule: rv_run.induct)
  case (rv_next r tr r1 l r2)
  then show ?case using silent_step [OF rv_next.hyps(2)] rv_run_inv [OF rv_next.hyps(1)] by auto
qed simp

subsection \<open>Connections beyond the limit\<close>

text \<open>The counter moves when a connection's goroutine first runs, not when it is accepted.\<close>

lemma run_trans:
  "rv_run r1 tr2 r2 \<Longrightarrow> rv_run r tr1 r1 \<Longrightarrow> rv_run r (tr1 @ tr2) r2"
proof (induction rule: rv_run.induct)
  case (rv_next r1 tr2 r2 l r3)
  then have "rv_run r (tr1 @ tr2) r2" by blast
  from rv_run.rv_next [OF this rv_next.hyps(2)] show ?case by simp
qed simp

lemma spawn_many:
  assumes "0 < rc_MaxConns (rv_cfg r)" "rv_accept r = Accepting" "rv_listening r" "rv_active r = 0" "rv_conns r = Map.empty"
  shows "\<exists>tr. rv_run r tr (r\<lparr>rv_conns := (\<lambda>k. if k < n then Some Spawned else None)\<rparr>)"
proof (induction n)
  case 0
  have "r\<lparr>rv_conns := (\<lambda>k. if k < (0 :: nat) then Some Spawned else None)\<rparr> = r" using assms(5) by simp
  then show ?case using rv_refl [of r] by (intro exI [of _ "[]"]) simp
next
  case (Suc n)
  let ?r = "r\<lparr>rv_conns := (\<lambda>k. if k < n then Some Spawned else None)\<rparr>"
  obtain tr where tr: "rv_run r tr ?r" using Suc by blast
  have a: "rv_step ?r (FromPeer n) (?r\<lparr>rv_accept := Deciding n\<rparr>)"
    by (rule rs_accept) (use assms in simp_all)
  have b: "rv_step (?r\<lparr>rv_accept := Deciding n\<rparr>) Own
      ((set_conn n (Some Spawned) (?r\<lparr>rv_accept := Deciding n\<rparr>))\<lparr>rv_accept := Accepting\<rparr>)"
    by (rule rs_spawn) (use assms in simp_all)
  have "(set_conn n (Some Spawned) (?r\<lparr>rv_accept := Deciding n\<rparr>))\<lparr>rv_accept := Accepting\<rparr> =
      r\<lparr>rv_conns := (\<lambda>k. if k < Suc n then Some Spawned else None)\<rparr>"
    using assms(2) by (auto simp: fun_eq_iff intro!: receiver.equality)
  then show ?case using rv_next [OF rv_next [OF tr a] b] by (intro exI) simp
qed

lemma enter_many:
  assumes "rv_conns r = (\<lambda>k. if k < n then Some Spawned else None)" "rv_active r = 0" "m \<le> n"
  shows "\<exists>tr. rv_run r tr (r\<lparr>rv_conns := (\<lambda>k. if k < m then Some (Reading None) else if k < n then Some Spawned else None),
    rv_active := m\<rparr>)"
  using assms(3)
proof (induction m)
  case 0
  have "r\<lparr>rv_conns := (\<lambda>k. if k < (0 :: nat) then Some (Reading None) else if k < n then Some Spawned else None), rv_active := 0\<rparr> = r"
    using assms(1,2) by simp
  then show ?case using rv_refl [of r] by (intro exI [of _ "[]"]) simp
next
  case (Suc m)
  let ?r = "r\<lparr>rv_conns := (\<lambda>k. if k < m then Some (Reading None) else if k < n then Some Spawned else None), rv_active := m\<rparr>"
  obtain tr where tr: "rv_run r tr ?r" using Suc by auto
  have a: "rv_step ?r Own ((set_conn m (Some (Reading None)) ?r)\<lparr>rv_active := rv_active ?r + 1\<rparr>)"
    by (rule rs_enter) (use Suc.prems in simp)
  have "(set_conn m (Some (Reading None)) ?r)\<lparr>rv_active := rv_active ?r + 1\<rparr> =
      r\<lparr>rv_conns := (\<lambda>k. if k < Suc m then Some (Reading None) else if k < n then Some Spawned else None), rv_active := Suc m\<rparr>"
    by (auto simp: fun_eq_iff intro!: receiver.equality)
  then show ?case using rv_next [OF tr a] by (intro exI) simp
qed

lemma started_fields [simp]:
  "rv_cfg (started cfg) = ReceiverConfig_applyDefaults cfg" "rv_accept (started cfg) = Accepting"
  "rv_listening (started cfg)" "rv_active (started cfg) = 0" "rv_conns (started cfg) = Map.empty"
  "\<not> rv_stopped (started cfg)"
  by (simp_all add: started_def Receiver_Start_def Configure_def NewReceiver_def)

lemma defaults_positive: "0 < rc_MaxConns (ReceiverConfig_applyDefaults cfg)"
  by (simp add: ReceiverConfig_applyDefaults_def defaultMaxConns_def)

subsection \<open>Properties\<close>

text \<open>C39: The limit on connections does not hold: whatever \<open>MaxConns\<close> is, any number of connections
  can be read at once, because the counter goes up only when a connection's goroutine first runs.
  What does hold is that the counter is the number of connections being read.\<close>

theorem connection_limit_exceeded:
  "(\<exists>tr r. rv_run (started cfg) tr r \<and> card (reading r) = n) \<and>
   (rv_run (started cfg) tr' r' \<longrightarrow> rv_active r' = card (reading r') \<and> [] \<notin> snd ` set (rv_handled r'))"
proof
  let ?r = "started cfg"
  let ?r1 = "?r\<lparr>rv_conns := (\<lambda>k. if k < n then Some Spawned else None)\<rparr>"
  let ?r2 = "?r1\<lparr>rv_conns := (\<lambda>k. if k < n then Some (Reading None) else if k < n then Some Spawned else None), rv_active := n\<rparr>"
  obtain tr1 where 1: "rv_run ?r tr1 ?r1" using spawn_many [of ?r n] defaults_positive by auto
  obtain tr2 where 2: "rv_run ?r1 tr2 ?r2" using enter_many [of ?r1 n n] by auto
  have "reading ?r2 = {..<n}" by (auto simp: reading_def)
  then have "card (reading ?r2) = n" by simp
  then show "\<exists>tr r. rv_run (started cfg) tr r \<and> card (reading r) = n" using run_trans [OF 2 1] by blast
  show "rv_run ?r tr' r' \<longrightarrow> rv_active r' = card (reading r') \<and> [] \<notin> snd ` set (rv_handled r')"
    using rv_run_inv [OF _ started_inv] by (auto simp: rv_inv_def)
qed

definition ten_connections :: ReceiverConfig where
  "ten_connections = \<lparr>rc_MaxConns = 10, rc_PerConnRate = Fin 0, rc_Burst = 0, rc_IdleTimeout = 0\<rparr>"

lemma connection_limit_exceeded_witness:
  "\<exists>tr r. rv_run (started ten_connections) tr r \<and> card (reading r) = 100 \<and> rv_active r = 100"
proof -
  obtain tr r where r: "rv_run (started ten_connections) tr r" "card (reading r) = 100"
    using connection_limit_exceeded [of ten_connections 100 "[]" "started ten_connections"] by blast
  then have "rv_active r = 100" using connection_limit_exceeded [of ten_connections 100 tr r] by simp
  with r show ?thesis by blast
qed

text \<open>\<open>Stop\<close> closes the listener and waits for the connections, which it does not close; a peer
  that connects and sends nothing has no read deadline, so as long as it stays silent \<open>Stop\<close> does
  not return, whatever else happens.\<close>

theorem silent_connection_blocks_stop:
  assumes "rv_run (started cfg) tr r" "rv_conns r k = Some (Reading None)" "\<not> rv_stopped r"
    and "rv_run r tr' r'" "FromPeer k \<notin> set tr'"
  shows "\<not> rv_stopped r'"
  using silent_run [OF assms(4,2,5,3) rv_run_inv [OF assms(1) started_inv]] by blast

lemma silent_connection_blocks_stop_witness:
  "\<exists>tr r. rv_run (started ten_connections) tr r \<and> rv_conns r 0 = Some (Reading None) \<and> rv_closed r \<and> \<not> rv_stopped r"
proof -
  let ?r = "started ten_connections"
  let ?r1 = "?r\<lparr>rv_conns := (\<lambda>k. if k < 1 then Some Spawned else None)\<rparr>"
  let ?r2 = "?r1\<lparr>rv_conns := (\<lambda>k. if k < 1 then Some (Reading None) else if k < 1 then Some Spawned else None), rv_active := 1\<rparr>"
  let ?r3 = "?r2\<lparr>rv_closed := True, rv_listening := False\<rparr>"
  obtain tr1 where 1: "rv_run ?r tr1 ?r1" using spawn_many [of ?r 1] defaults_positive by auto
  obtain tr2 where 2: "rv_run ?r1 tr2 ?r2" using enter_many [of ?r1 1 1] by auto
  have "\<not> rv_closed ?r2" by (simp add: started_def Receiver_Start_def Configure_def NewReceiver_def)
  then have 3: "rv_run ?r2 ([] @ [Own]) ?r3" by (intro rv_next [OF rv_refl] rs_close)
  have c: "rv_conns ?r2 0 = Some (Reading None)" "\<not> rv_stopped ?r2" by simp_all
  have "FromPeer 0 \<notin> set ([] @ [Own])" by simp
  from silent_connection_blocks_stop [OF run_trans [OF 2 1] c 3 this] have "\<not> rv_stopped ?r3" .
  moreover have "rv_conns ?r3 0 = Some (Reading None)" "rv_closed ?r3" by simp_all
  ultimately show ?thesis using run_trans [OF 3 run_trans [OF 2 1]] by blast
qed

end
