(* ===== verification/Migrator.thy ===== *)
theory Migrator
  imports SqlTables
begin

text \<open>
  \<open>internal/storage\<close>: the schema migrator and the default migrations. What a statement does to
  the database, or why the engine refuses it, is an argument \<open>exec\<close>; a transaction works on a
  copy of the schema that a commit puts in place.
\<close>

subsection \<open>Migrations\<close>

record Migration =
  mig_Version :: int
  mig_Name :: string
  mig_Up :: string

definition DefaultMigrations :: "string \<Rightarrow> Migration list" where
  "DefaultMigrations up = [\<lparr>mig_Version = 1, mig_Name = ''create_usage_table'', mig_Up = up\<rparr>]"

record Migrator =
  mg_migrations :: "Migration list"

definition WithMigrations :: "Migration list \<Rightarrow> Migrator \<Rightarrow> Migrator" where
  "WithMigrations ms m = m\<lparr>mg_migrations := mg_migrations m @ ms\<rparr>"

definition NewMigrator :: "(Migrator \<Rightarrow> Migrator) list \<Rightarrow> Migrator" where
  "NewMigrator opts = fold (\<lambda>opt. opt) opts \<lparr>mg_migrations = []\<rparr>"

text \<open>The database: its schema and the version table, \<open>None\<close> before it is created.\<close>

record version_row =
  vr_version :: int
  vr_name :: string
  vr_applied_at :: string

record 's migdb = driver +
  md_schema :: 's
  md_versions :: "version_row list option"

definition version_rows :: "('s, 'a) migdb_scheme \<Rightarrow> version_row list" where
  "version_rows db = (case md_versions db of None \<Rightarrow> [] | Some rows \<Rightarrow> rows)"

lemma version_rows_simps [simp]:
  "version_rows (consume db) = version_rows db" "version_rows (db\<lparr>md_schema := s\<rparr>) = version_rows db"
  "version_rows (db\<lparr>md_versions := Some rows\<rparr>) = rows" "md_schema (consume db) = md_schema db"
  by (simp_all add: version_rows_def consume_def)

subsection \<open>Sorting and splitting\<close>

text \<open>The inner loop: the element at \<open>j\<close> moves down past every greater version.\<close>

fun move_down :: "nat \<Rightarrow> Migration list \<Rightarrow> Migration list" where
  "move_down 0 ms = ms"
| "move_down (Suc j) ms =
     (if mig_Version (ms ! j) > mig_Version (ms ! Suc j)
      then move_down j (ms[j := ms ! Suc j, Suc j := ms ! j]) else ms)"

definition sortMigrations :: "Migration list \<Rightarrow> Migration list" where
  "sortMigrations ms = fold move_down [1..<length ms] ms"

definition splitStatements :: "string \<Rightarrow> string list" where
  "splitStatements sql = filter (\<lambda>s. s \<noteq> []) (map trim_space (split_at CHR '';'' sql))"

subsection \<open>Applying\<close>

definition appliedVersions :: "('s, 'a) migdb_scheme \<Rightarrow> int set res \<times> ('s, 'a) migdb_scheme" where
  "appliedVersions db =
     (case next_fault db of
        Some e \<Rightarrow> (Inl (Wrap ''query applied migrations'' e), consume db)
      | None \<Rightarrow> (Inr (vr_version ` set (version_rows db)), consume db))"

text \<open>The statements of one migration inside its transaction.\<close>

fun run_stmts :: "(string \<Rightarrow> 's \<Rightarrow> 's res) \<Rightarrow> string list \<Rightarrow> 's \<Rightarrow> ('s, 'a) migdb_scheme \<Rightarrow> 's res \<times> ('s, 'a) migdb_scheme" where
  "run_stmts exec [] s db = (Inr s, db)"
| "run_stmts exec (q # qs) s db =
     (case next_fault db of
        Some e \<Rightarrow> (Inl e, consume db)
      | None \<Rightarrow>
        (case exec q s of
           Inl e \<Rightarrow> (Inl e, consume db)
         | Inr s1 \<Rightarrow> run_stmts exec qs s1 (consume db)))"

definition apply_migration :: "(string \<Rightarrow> 's \<Rightarrow> 's res) \<Rightarrow> ctx \<Rightarrow> world \<Rightarrow> Migration \<Rightarrow> ('s, 'a) migdb_scheme \<Rightarrow>
    verdict \<times> ('s, 'a) migdb_scheme" where
  "apply_migration exec c w mig db =
     (case ctx_err c of
        Some e \<Rightarrow> (Some (Wrap ''begin migration transaction'' e), db)
      | None \<Rightarrow>
     (case next_fault db of
        Some e \<Rightarrow> (Some (Wrap ''begin migration transaction'' e), consume db)
      | None \<Rightarrow>
     (case run_stmts exec (splitStatements (mig_Up mig)) (md_schema db) (consume db) of
        (Inl e, db1) \<Rightarrow> (Some (Wrap ''run migration'' e), db1)
      | (Inr s1, db1) \<Rightarrow>
     (case next_fault db1 of
        Some e \<Rightarrow> (Some (Wrap ''record migration version'' e), consume db1)
      | None \<Rightarrow>
     (case sql_insert vr_version \<lparr>vr_version = mig_Version mig, vr_name = mig_Name mig, vr_applied_at = fmt_time (now_of w)\<rparr>
             (version_rows db) of
        Inl e \<Rightarrow> (Some (Wrap ''record migration version'' e), consume db1)
      | Inr rows \<Rightarrow>
     (case next_fault (consume db1) of
        Some e \<Rightarrow> (Some e, consume (consume db1))
      | None \<Rightarrow> (None, (consume (consume db1))\<lparr>md_schema := s1, md_versions := Some rows\<rparr>)))))))"

fun migrate_loop :: "(string \<Rightarrow> 's \<Rightarrow> 's res) \<Rightarrow> ctx \<Rightarrow> world \<Rightarrow> int set \<Rightarrow> Migration list \<Rightarrow> ('s, 'a) migdb_scheme \<Rightarrow>
    verdict \<times> ('s, 'a) migdb_scheme" where
  "migrate_loop exec c w applied [] db = (None, db)"
| "migrate_loop exec c w applied (mig # migs) db =
     (if mig_Version mig \<in> applied then migrate_loop exec c w applied migs db
      else case apply_migration exec c w mig db of
             (Some e, db1) \<Rightarrow> (Some e, db1)
           | (None, db1) \<Rightarrow> migrate_loop exec c (tick w) applied migs db1)"

definition Migrate :: "(string \<Rightarrow> 's \<Rightarrow> 's res) \<Rightarrow> ctx \<Rightarrow> world \<Rightarrow> Migrator \<Rightarrow> ('s, 'a) migdb_scheme \<Rightarrow>
    (verdict \<times> Migrator) \<times> ('s, 'a) migdb_scheme" where
  "Migrate exec c w m db =
     (case ctx_err c of
        Some e \<Rightarrow> ((Some (Wrap ''create schema_migrations'' e), m), db)
      | None \<Rightarrow>
     (case next_fault db of
        Some e \<Rightarrow> ((Some (Wrap ''create schema_migrations'' e), m), consume db)
      | None \<Rightarrow>
        (let db1 = (consume db)\<lparr>md_versions := Some (version_rows db)\<rparr>
         in case appliedVersions db1 of
              (Inl e, db2) \<Rightarrow> ((Some e, m), db2)
            | (Inr applied, db2) \<Rightarrow>
              (let sorted = sortMigrations (mg_migrations m)
               in case migrate_loop exec c w applied sorted db2 of
                    (v, db3) \<Rightarrow> ((v, m\<lparr>mg_migrations := sorted\<rparr>), db3)))))"

subsection \<open>The sort is the stable sort by version\<close>

lemma move_down_insert:
  assumes "sorted (map mig_Version ys)"
  shows "move_down (length ys) (ys @ x # zs) =
    takeWhile (\<lambda>y. mig_Version y \<le> mig_Version x) ys @ x # dropWhile (\<lambda>y. mig_Version y \<le> mig_Version x) ys @ zs"
  using assms
proof (induction ys arbitrary: zs rule: rev_induct)
  case (snoc y ys)
  have s: "sorted (map mig_Version ys)" "\<forall>z\<in>set ys. mig_Version z \<le> mig_Version y"
    using snoc.prems by (auto simp: sorted_append)
  show ?case
  proof (cases "mig_Version x < mig_Version y")
    case True
    have "move_down (length (ys @ [y])) ((ys @ [y]) @ x # zs) = move_down (length ys) (ys @ x # y # zs)"
      using True by (simp add: nth_append list_update_append)
    then show ?thesis using snoc.IH [OF s(1), of "y # zs"] True by (auto simp: takeWhile_append dropWhile_append)
  next
    case False
    then have le: "\<forall>z\<in>set (ys @ [y]). mig_Version z \<le> mig_Version x" using s(2) by auto
    then have "takeWhile (\<lambda>y. mig_Version y \<le> mig_Version x) (ys @ [y]) = ys @ [y]"
      "dropWhile (\<lambda>y. mig_Version y \<le> mig_Version x) (ys @ [y]) = []"
      by (simp_all add: takeWhile_eq_all_conv)
    then show ?thesis using False by (simp add: nth_append)
  qed
qed simp

lemma insert_stable:
  fixes f :: "'a \<Rightarrow> 'k :: linorder"
  shows "takeWhile (\<lambda>y. f y \<le> f x) (sort_key f xs) @ x # dropWhile (\<lambda>y. f y \<le> f x) (sort_key f xs) = sort_key f (xs @ [x])"
proof (rule properties_for_sort_key [symmetric])
  let ?S = "sort_key f xs"
  let ?T = "takeWhile (\<lambda>y. f y \<le> f x) ?S" and ?D = "dropWhile (\<lambda>y. f y \<le> f x) ?S"
  have S: "?T @ ?D = ?S" by simp
  have "mset ?T + mset ?D = mset xs" by (metis S mset_append mset_sort)
  then show "mset (?T @ x # ?D) = mset (xs @ [x])" by simp
  have "sorted (map f ?T @ map f ?D)" by (metis S map_append sorted_sort_key)
  then have sT: "sorted (map f ?T)" "sorted (map f ?D)" unfolding sorted_append by blast+
  have gt: "\<forall>y\<in>set ?D. f x < f y"
  proof (cases ?D)
    case (Cons d ds)
    then have "f x < f d" using hd_dropWhile [of "\<lambda>y. f y \<le> f x" ?S] by auto
    then show ?thesis using sT(2) Cons by auto
  qed (simp only: list.set ball_empty)
  have le: "\<forall>y\<in>set ?T. f y \<le> f x" by (auto dest: set_takeWhileD)
  show "sorted (map f (?T @ x # ?D))"
    using sT gt le by (fastforce simp: sorted_append)
  show "filter (\<lambda>y. f k = f y) (?T @ x # ?D) = filter (\<lambda>y. f k = f y) (xs @ [x])" for k
  proof -
    have "filter (\<lambda>y. f k = f y) ?S = filter (\<lambda>y. f k = f y) xs"
      using sort_key_stable [of "\<lambda>y. f y" "f k" xs] by (simp add: eq_commute)
    then have e: "filter (\<lambda>y. f k = f y) ?T @ filter (\<lambda>y. f k = f y) ?D = filter (\<lambda>y. f k = f y) xs"
      by (metis S filter_append)
    have "filter (\<lambda>y. f k = f y) ?D = []" if "f k = f x"
      using gt that by (auto simp del: dropWhile_eq_Nil_conv simp: filter_empty_conv)
    then show "filter (\<lambda>y. f k = f y) (?T @ x # ?D) = filter (\<lambda>y. f k = f y) (xs @ [x])"
      using e by auto
  qed
qed

lemma sortMigrations_sort: "sortMigrations ms = sort_key mig_Version ms"
proof -
  have "fold move_down [1..<n] ms = sort_key mig_Version (take n ms) @ drop n ms" if "1 \<le> n" "n \<le> length ms" for n
    using that
  proof (induction n rule: nat_induct_at_least)
    case base
    then obtain x xs where "ms = x # xs" by (cases ms) auto
    then show ?case by simp
  next
    case (Suc n)
    let ?S = "sort_key mig_Version (take n ms)"
    obtain x zs where x: "drop n ms = x # zs" "drop (Suc n) ms = zs" "take (Suc n) ms = take n ms @ [x]"
      using Suc.prems by (metis Cons_nth_drop_Suc Suc_le_lessD take_Suc_conv_app_nth)
    have "fold move_down [1..<Suc n] ms = move_down n (?S @ x # zs)" using Suc x by simp
    also have "\<dots> = move_down (length ?S) (?S @ x # zs)" using Suc.prems by simp
    also have "\<dots> = sort_key mig_Version (take n ms @ [x]) @ zs"
      by (subst move_down_insert) (simp_all add: insert_stable [symmetric])
    finally show ?case using x by simp
  qed
  from this [of "length ms"] show ?thesis
    by (cases ms) (auto simp: sortMigrations_def)
qed

subsection \<open>What has been applied\<close>

definition applied_of :: "('s, 'a) migdb_scheme \<Rightarrow> int set" where
  "applied_of db = vr_version ` set (version_rows db)"

text \<open>The statements of a list of migrations, without transactions or driver.\<close>

fun run_pure :: "(string \<Rightarrow> 's \<Rightarrow> 's res) \<Rightarrow> string list \<Rightarrow> 's \<Rightarrow> 's res" where
  "run_pure exec [] s = Inr s"
| "run_pure exec (q # qs) s = (case exec q s of Inl e \<Rightarrow> Inl e | Inr s1 \<Rightarrow> run_pure exec qs s1)"

definition all_statements :: "Migration list \<Rightarrow> string list" where
  "all_statements migs = concat (map (\<lambda>m. splitStatements (mig_Up m)) migs)"

lemma run_pure_append:
  "run_pure exec (xs @ ys) s = (case run_pure exec xs s of Inl e \<Rightarrow> Inl e | Inr s1 \<Rightarrow> run_pure exec ys s1)"
  by (induction xs arbitrary: s) (auto split: sum.splits)

lemma run_stmts_frame:
  "run_stmts exec qs s db = (r, db') \<Longrightarrow> md_schema db' = md_schema db \<and> version_rows db' = version_rows db \<and>
   (\<forall>s'. r = Inr s' \<longrightarrow> run_pure exec qs s = Inr s')"
proof (induction qs arbitrary: s db)
  case (Cons q qs)
  then show ?case by (fastforce split: option.splits sum.splits)
qed simp

lemma apply_migration_result:
  assumes "apply_migration exec c w mig db = (v, db')"
  shows "if v = None
    then run_pure exec (splitStatements (mig_Up mig)) (md_schema db) = Inr (md_schema db') \<and>
      applied_of db' = insert (mig_Version mig) (applied_of db) \<and> mig_Version mig \<notin> applied_of db
    else md_schema db' = md_schema db \<and> applied_of db' = applied_of db"
proof -
  obtain r db1 where r: "run_stmts exec (splitStatements (mig_Up mig)) (md_schema db) (consume db) = (r, db1)" by fastforce
  note f = run_stmts_frame [OF r]
  show ?thesis
    using assms f unfolding apply_migration_def r
    by (cases r) (auto simp: applied_of_def sql_insert_def split: option.splits if_splits sum.splits)
qed

lemma migrate_loop_result:
  assumes "migrate_loop exec c w applied migs db = (v, db')"
  shows "\<exists>ran rest. filter (\<lambda>m. mig_Version m \<notin> applied) migs = ran @ rest \<and> (v = None \<longleftrightarrow> rest = []) \<and>
    run_pure exec (all_statements ran) (md_schema db) = Inr (md_schema db') \<and>
    applied_of db' = applied_of db \<union> mig_Version ` set ran"
  using assms
proof (induction exec c w applied migs db rule: migrate_loop.induct)
  case (2 exec c w applied mig migs db)
  show ?case
  proof (cases "mig_Version mig \<in> applied")
    case True
    then show ?thesis using 2 by simp
  next
    case False
    obtain v1 db1 where a: "apply_migration exec c w mig db = (v1, db1)" by fastforce
    note res = apply_migration_result [OF a]
    show ?thesis
    proof (cases v1)
      case None
      have "migrate_loop exec c (tick w) applied migs db1 = (v, db')" using 2(3) False a None by simp
      from 2(2) [OF False a [symmetric] None this] obtain ran rest where
        d: "filter (\<lambda>m. mig_Version m \<notin> applied) migs = ran @ rest" "v = None \<longleftrightarrow> rest = []"
          "run_pure exec (all_statements ran) (md_schema db1) = Inr (md_schema db')"
          "applied_of db' = applied_of db1 \<union> mig_Version ` set ran"
        by blast
      have "run_pure exec (all_statements (mig # ran)) (md_schema db) = Inr (md_schema db')"
        using res None d(3) by (simp add: all_statements_def run_pure_append)
      moreover have "applied_of db' = applied_of db \<union> mig_Version ` set (mig # ran)" using res None d(4) by auto
      ultimately show ?thesis using False d(1,2) by (intro exI [of _ "mig # ran"] exI [of _ rest]) simp
    next
      case (Some e)
      then have "v = Some e" "db' = db1" using 2(3) False a by simp_all
      then show ?thesis using False res Some
        by (intro exI [of _ "[]"] exI [of _ "mig # filter (\<lambda>m. mig_Version m \<notin> applied) migs"]) (simp add: all_statements_def)
    qed
  qed
qed (auto intro: exI [of _ "[]"] simp: all_statements_def)

lemma Migrate_result:
  assumes "Migrate exec c w m db = ((v, m'), db')"
  shows "\<exists>ran rest. filter (\<lambda>m. mig_Version m \<notin> applied_of db) (sort_key mig_Version (mg_migrations m)) = ran @ rest \<and>
    (v = None \<longrightarrow> rest = []) \<and> run_pure exec (all_statements ran) (md_schema db) = Inr (md_schema db') \<and>
    applied_of db' = applied_of db \<union> mig_Version ` set ran"
proof -
  let ?pend = "filter (\<lambda>m. mig_Version m \<notin> applied_of db) (sort_key mig_Version (mg_migrations m))"
  let ?db1 = "(consume db)\<lparr>md_versions := Some (version_rows db)\<rparr>"
  have id: ?thesis if "v \<noteq> None" "md_schema db' = md_schema db" "applied_of db' = applied_of db"
    using that by (intro exI [of _ "[]"] exI [of _ ?pend]) (auto simp: all_statements_def)
  obtain r db2 where r: "appliedVersions ?db1 = (r, db2)" by fastforce
  have db2: "md_schema db2 = md_schema db" "applied_of db2 = applied_of db" "r = Inr a \<Longrightarrow> a = applied_of db" for a
    using r by (auto simp: appliedVersions_def applied_of_def split: option.splits)
  show ?thesis
  proof (cases "ctx_err c = None \<and> next_fault db = None")
    case False
    then show ?thesis using assms id by (auto simp: Migrate_def applied_of_def split: option.splits)
  next
    case True
    show ?thesis
    proof (cases r)
      case (Inl e)
      then have "v = Some e" "db' = db2" using True assms r by (simp_all add: Migrate_def Let_def)
      then show ?thesis using db2(1,2) by (intro id) simp_all
    next
      case (Inr a)
      obtain v3 db3 where l: "migrate_loop exec c w a (sortMigrations (mg_migrations m)) db2 = (v3, db3)" by fastforce
      have "v = v3" "db' = db3" using True assms r Inr l by (simp_all add: Migrate_def Let_def)
      then show ?thesis using migrate_loop_result [OF l] db2 Inr by (auto simp: sortMigrations_sort)
    qed
  qed
qed

subsection \<open>Properties\<close>

text \<open>C15: Whatever the driver and the engine refuse on the way, a run of the migrator applies a prefix
  of the pending migrations, in version order, each one completely and recorded; a nil result
  means all of them. The next run, with the same distinct versions, finds pending exactly what
  was left, so interrupted runs add up to one and a run after a success changes nothing.\<close>

theorem migrate_prefix:
  assumes "Migrate exec c w m db = ((v, m'), db')" "distinct (map mig_Version (mg_migrations m))"
  shows "\<exists>ran rest. filter (\<lambda>m. mig_Version m \<notin> applied_of db) (sort_key mig_Version (mg_migrations m)) = ran @ rest \<and>
    run_pure exec (all_statements ran) (md_schema db) = Inr (md_schema db') \<and>
    applied_of db' = applied_of db \<union> mig_Version ` set ran \<and> (v = None \<longrightarrow> rest = []) \<and>
    filter (\<lambda>m. mig_Version m \<notin> applied_of db') (sort_key mig_Version (mg_migrations m)) = rest"
proof -
  let ?S = "sort_key mig_Version (mg_migrations m)"
  obtain ran rest where d: "filter (\<lambda>m. mig_Version m \<notin> applied_of db) ?S = ran @ rest" "v = None \<longrightarrow> rest = []"
      "run_pure exec (all_statements ran) (md_schema db) = Inr (md_schema db')"
      "applied_of db' = applied_of db \<union> mig_Version ` set ran"
    using Migrate_result [OF assms(1)] by blast
  have "distinct (map mig_Version ?S)"
    using assms(2) by (metis mset_map mset_sort distinct_count_atmost_1 mset_eq_imp_distinct_iff)
  then have "distinct (map mig_Version (ran @ rest))" unfolding d(1) [symmetric] by (rule distinct_map_filter)
  then have "\<forall>r\<in>set rest. mig_Version r \<notin> mig_Version ` set ran" by auto
  moreover have "filter (\<lambda>m. mig_Version m \<notin> applied_of db') ?S =
      filter (\<lambda>m. mig_Version m \<notin> mig_Version ` set ran) (filter (\<lambda>m. mig_Version m \<notin> applied_of db) ?S)"
    unfolding d(4) by (simp add: conj_commute)
  ultimately have "filter (\<lambda>m. mig_Version m \<notin> applied_of db') ?S = rest"
    unfolding d(1) by (auto simp: filter_empty_conv filter_id_conv)
  then show ?thesis using d by blast
qed

definition two_migrations :: Migrator where
  "two_migrations = NewMigrator [WithMigrations [\<lparr>mig_Version = 2, mig_Name = ''b'', mig_Up = ''x;y;''\<rparr>],
     WithMigrations [\<lparr>mig_Version = 1, mig_Name = ''a'', mig_Up = ''z''\<rparr>]]"

definition refuses_y :: "string \<Rightarrow> string list \<Rightarrow> string list res" where
  "refuses_y q s = (if q = ''y'' then Inl (External ''syntax error'') else Inr (s @ [q]))"

definition fresh_db :: "string list migdb" where
  "fresh_db = \<lparr>faults = [], md_schema = [], md_versions = None\<rparr>"

definition stopped_db :: "string list migdb" where
  "stopped_db = \<lparr>faults = [], md_schema = [''z''],
     md_versions = Some [\<lparr>vr_version = 1, vr_name = ''a'', vr_applied_at = fmt_time 0\<rparr>]\<rparr>"

lemma two_migrations_run:
  "Migrate refuses_y background \<lparr>w_clock = (\<lambda>n. 0), w_uuid = (\<lambda>n. []), w_pos = 0\<rparr> two_migrations fresh_db =
     ((Some (Wrap ''run migration'' (External ''syntax error'')),
       two_migrations\<lparr>mg_migrations := sortMigrations (mg_migrations two_migrations)\<rparr>), stopped_db)"
  by (simp add: Migrate_def two_migrations_def NewMigrator_def WithMigrations_def background_def appliedVersions_def
      sortMigrations_sort apply_migration_def splitStatements_def trim_space_def is_space_def sql_insert_def Let_def
      refuses_y_def fresh_db_def stopped_db_def consume_def next_fault_def now_of_def version_rows_def)

lemma migrate_prefix_witness:
  "\<exists>ran rest. filter (\<lambda>m. mig_Version m \<notin> applied_of fresh_db) (sort_key mig_Version (mg_migrations two_migrations)) = ran @ rest \<and>
     run_pure refuses_y (all_statements ran) [] = Inr [''z''] \<and>
     filter (\<lambda>m. mig_Version m \<notin> applied_of stopped_db) (sort_key mig_Version (mg_migrations two_migrations)) = rest"
proof -
  have d: "distinct (map mig_Version (mg_migrations two_migrations))"
    by (simp add: two_migrations_def NewMigrator_def WithMigrations_def)
  have "md_schema fresh_db = []" "md_schema stopped_db = [''z'']" by (simp_all add: fresh_db_def stopped_db_def)
  then show ?thesis using migrate_prefix [OF two_migrations_run d] by auto
qed

end
