(* ===== verification/Usage.thy ===== *)
theory Usage
  imports AuthMiddleware
begin

text \<open>
  \<open>internal/usage\<close>: metering of calls and telemetry, the collector that aggregates records into
  time buckets, and the SQL store. A batch that the database refuses is lost; the model keeps
  what became of each record in ghost fields, so that the accounting can be stated. OpenTelemetry counters
  (\<open>Metrics\<close>) are outside the program: what is added to them is a list.
\<close>

subsection \<open>Data (\<open>usage.go\<close>)\<close>

definition ValidUnit :: "string \<Rightarrow> bool" where
  "ValidUnit u \<longleftrightarrow> u \<in> {''call'', ''event'', ''byte'', ''frame'', ''node'', ''subscribe_sec''}"

text \<open>The key under which records are added up: tenant, client, endpoint, operation, unit.\<close>

record dims =
  d_TenantID :: string
  d_ClientID :: string
  d_Endpoint :: string
  d_Operation :: string
  d_Unit :: string

record Bucket =
  b_ID :: string
  b_dims :: dims
  b_Count :: int
  b_BucketStart :: time
  b_BucketEnd :: time

record Record =
  u_dims :: dims
  u_Count :: int
  u_At :: time

record Query =
  q_TenantID :: string
  q_ClientID :: string
  q_Operation :: string
  q_Unit :: string
  q_HasUnit :: bool
  q_Start :: time
  q_End :: time

record Aggregate =
  a_dims :: dims
  a_TotalCount :: int
  a_BucketStart :: time
  a_BucketEnd :: time

subsection \<open>Aggregation (\<open>collector.go\<close>)\<close>

text \<open>\<open>int64\<close> addition wraps.\<close>

definition wrap64 :: "int \<Rightarrow> int" where
  "wrap64 i = (i + 2 ^ 63) mod 2 ^ 64 - 2 ^ 63"

type_synonym bucket_key = "dims \<times> time \<times> time"

definition key_of :: "duration \<Rightarrow> Record \<Rightarrow> bucket_key" where
  "key_of interval r =
     (let start = Truncate (u_At r) interval in (u_dims r, start, start + interval))"

definition add_record :: "duration \<Rightarrow> Record \<Rightarrow> (bucket_key \<rightharpoonup> int) \<Rightarrow> (bucket_key \<rightharpoonup> int)" where
  "add_record interval r agg =
     (let k = key_of interval r;
          old = (case agg k of None \<Rightarrow> 0 | Some n \<Rightarrow> n)
      in agg(k \<mapsto> wrap64 (old + u_Count r)))"

definition agg_map :: "duration \<Rightarrow> Record list \<Rightarrow> (bucket_key \<rightharpoonup> int)" where
  "agg_map interval records = fold (add_record interval) records Map.empty"

text \<open>The map is visited in the order \<open>ks\<close>.\<close>

definition aggregate :: "bucket_key list \<Rightarrow> Record list \<Rightarrow> duration \<Rightarrow> Bucket list" where
  "aggregate ks records interval =
     map (\<lambda>k. case k of (d, start, end') \<Rightarrow>
         \<lparr>b_ID = [], b_dims = d, b_Count = the (agg_map interval records k), b_BucketStart = start, b_BucketEnd = end'\<rparr>) ks"

subsection \<open>The SQL store (\<open>store_sql.go\<close>)\<close>

record usage_row =
  ur_id :: string
  ur_dims :: dims
  ur_count :: int
  ur_bucket_start :: string
  ur_bucket_end :: string

record usagedb = driver +
  us_rows :: "usage_row list"

definition row_of_bucket :: "string \<Rightarrow> Bucket \<Rightarrow> usage_row" where
  "row_of_bucket i b = \<lparr>ur_id = i, ur_dims = b_dims b, ur_count = b_Count b,
     ur_bucket_start = fmt_time (b_BucketStart b), ur_bucket_end = fmt_time (b_BucketEnd b)\<rparr>"

text \<open>The inserts of one transaction: how many went through, the error, and the rows so far.\<close>

fun insert_buckets :: "Bucket list \<Rightarrow> world \<Rightarrow> usage_row list \<Rightarrow> 'a usagedb_scheme \<Rightarrow>
    ((int \<times> verdict) \<times> usage_row list) \<times> world \<times> 'a usagedb_scheme" where
  "insert_buckets [] w rows db = (((0, None), rows), w, db)"
| "insert_buckets (b # bs) w rows db =
     (let (i, w1) = (if b_ID b = [] then (uuid_of w, tick w) else (b_ID b, w)) in
      case next_fault db of
        Some e \<Rightarrow> (((0, Some (Wrap ''write usage record'' e)), rows), w1, consume db)
      | None \<Rightarrow>
        (case sql_insert ur_id (row_of_bucket i b) rows of
           Inl e \<Rightarrow> (((0, Some (Wrap ''write usage record'' e)), rows), w1, consume db)
         | Inr rows1 \<Rightarrow>
           (case insert_buckets bs w1 rows1 (consume db) of
              (((n, v), rows2), w2, db2) \<Rightarrow> (((n + 1, v), rows2), w2, db2))))"

definition InsertBatch :: "ctx \<Rightarrow> Bucket list \<Rightarrow> world \<Rightarrow> 'a usagedb_scheme \<Rightarrow> (int \<times> verdict) \<times> world \<times> 'a usagedb_scheme" where
  "InsertBatch c buckets w db =
     (if buckets = [] then ((0, None), w, db)
      else case ctx_err c of
        Some e \<Rightarrow> ((0, Some e), w, db)
      | None \<Rightarrow>
        (case next_fault db of
           Some e \<Rightarrow> ((0, Some (Wrap ''begin usage transaction'' e)), w, consume db)
         | None \<Rightarrow>
           (case insert_buckets buckets w (us_rows db) (consume db) of
              (((n, Some e), rows), w1, db1) \<Rightarrow> ((n, Some e), w1, db1)
            | (((n, None), rows), w1, db1) \<Rightarrow>
              (case next_fault db1 of
                 Some e \<Rightarrow> ((n, Some (Wrap ''commit usage transaction'' e)), w1, consume db1)
               | None \<Rightarrow> ((n, None), w1, (consume db1)\<lparr>us_rows := rows\<rparr>)))))"

definition usage_where :: "Query \<Rightarrow> usage_row \<Rightarrow> bool" where
  "usage_where q r \<longleftrightarrow>
     fmt_time (q_Start q) \<le> ur_bucket_end r \<and> ur_bucket_start r \<le> fmt_time (q_End q) \<and>
     (q_TenantID q \<noteq> [] \<longrightarrow> d_TenantID (ur_dims r) = q_TenantID q) \<and>
     (q_ClientID q \<noteq> [] \<longrightarrow> d_ClientID (ur_dims r) = q_ClientID q) \<and>
     (q_Operation q \<noteq> [] \<longrightarrow> d_Operation (ur_dims r) = q_Operation q) \<and>
     (q_HasUnit q \<longrightarrow> d_Unit (ur_dims r) = q_Unit q)"

text \<open>A time text that does not parse leaves the zero time.\<close>

definition scan_time :: "string \<Rightarrow> time" where
  "scan_time s = (case parse_time s of None \<Rightarrow> 0 | Some t \<Rightarrow> t)"

definition group_total :: "usage_row list \<Rightarrow> dims \<Rightarrow> int" where
  "group_total rows d = sum_list (map ur_count (filter (\<lambda>r. ur_dims r = d) rows))"

definition group_row :: "usage_row list \<Rightarrow> dims \<Rightarrow> Aggregate" where
  "group_row rows d =
     (let g = filter (\<lambda>r. ur_dims r = d) rows in
      \<lparr>a_dims = d, a_TotalCount = group_total rows d,
       a_BucketStart = scan_time (hd (sort (map ur_bucket_start g))),
       a_BucketEnd = scan_time (last (sort (map ur_bucket_end g)))\<rparr>)"

text \<open>
  \<open>GROUP BY\<close> the five columns, \<open>ORDER BY\<close> the total descending by some sorting routine; a sum
  that leaves the 64-bit range is an error of the engine.
\<close>

definition AggregateByTenant :: "(Aggregate list \<Rightarrow> Aggregate list) \<Rightarrow> ctx \<Rightarrow> Query \<Rightarrow> 'a usagedb_scheme \<Rightarrow>
    Aggregate list res \<times> 'a usagedb_scheme" where
  "AggregateByTenant srt c q db =
     (case ctx_err c of
        Some e \<Rightarrow> (Inl e, db)
      | None \<Rightarrow>
        (case next_fault db of
           Some e \<Rightarrow> (Inl (Wrap ''query usage'' e), consume db)
         | None \<Rightarrow>
           (let rows = filter (usage_where q) (us_rows db);
                groups = remdups (map ur_dims rows)
            in (if \<exists>d\<in>set groups. wrap64 (group_total rows d) \<noteq> group_total rows d
                then Inl (Wrap ''query usage'' (External ''integer overflow''))
                else Inr (srt (map (group_row rows) groups)), consume db))))"

subsection \<open>The collector\<close>

record CollectorConfig =
  cc_BucketInterval :: duration
  cc_FlushInterval :: duration
  cc_QueueCapacity :: int

definition CollectorConfig_applyDefaults :: "CollectorConfig \<Rightarrow> CollectorConfig" where
  "CollectorConfig_applyDefaults cfg =
     \<lparr>cc_BucketInterval = (if cc_BucketInterval cfg \<le> 0 then minute else cc_BucketInterval cfg),
      cc_FlushInterval = (if cc_FlushInterval cfg \<le> 0 then 5 * second else cc_FlushInterval cfg),
      cc_QueueCapacity = (if cc_QueueCapacity cfg \<le> 0 then 10000 else cc_QueueCapacity cfg)\<rparr>"

text \<open>\<open>uc_store\<close> is \<open>None\<close> for a nil store. The last three fields are ghosts: the records written to
  the table, lost with a batch, and refused by a full queue.\<close>

record Collector =
  uc_cfg :: CollectorConfig
  uc_queue :: "Record list"
  uc_dropped :: nat
  uc_flushed :: int
  uc_store :: "usagedb option"
  uc_world :: world
  uc_done :: bool
  uc_kept :: "Record list"
  uc_lost :: "Record list"
  uc_refused :: "Record list"

definition NewCollector :: "usagedb option \<Rightarrow> CollectorConfig \<Rightarrow> world \<Rightarrow> Collector" where
  "NewCollector store cfg w =
     \<lparr>uc_cfg = CollectorConfig_applyDefaults cfg, uc_queue = [], uc_dropped = 0, uc_flushed = 0, uc_store = store,
      uc_world = w, uc_done = False, uc_kept = [], uc_lost = [], uc_refused = []\<rparr>"

definition Collector_Record :: "ctx \<Rightarrow> Record \<Rightarrow> Collector \<Rightarrow> verdict \<times> Collector" where
  "Collector_Record c r u =
     (case ctx_err c of
        Some e \<Rightarrow> (Some e, u)
      | None \<Rightarrow>
        (if int (length (uc_queue u)) < cc_QueueCapacity (uc_cfg u)
         then (None, u\<lparr>uc_queue := uc_queue u @ [r]\<rparr>)
         else (None, u\<lparr>uc_dropped := uc_dropped u + 1, uc_refused := uc_refused u @ [r]\<rparr>)))"

text \<open>\<open>flushAll\<close> takes what is in the queue; \<open>c\<close> is its own context, which may time out.\<close>

definition flushAll :: "ctx \<Rightarrow> bucket_key list \<Rightarrow> Collector \<Rightarrow> Collector" where
  "flushAll c ks u =
     (if uc_queue u = [] then u
      else
        (let buckets = aggregate ks (uc_queue u) (cc_BucketInterval (uc_cfg u));
             u1 = u\<lparr>uc_queue := []\<rparr>
         in if buckets = [] then u1
            else case uc_store u of
              None \<Rightarrow> u1\<lparr>uc_lost := uc_lost u @ uc_queue u\<rparr>
            | Some db \<Rightarrow>
              (case InsertBatch c buckets (uc_world u) db of
                 ((n, Some e), w, db1) \<Rightarrow>
                   u1\<lparr>uc_store := Some db1, uc_world := w, uc_lost := uc_lost u @ uc_queue u\<rparr>
               | ((n, None), w, db1) \<Rightarrow>
                   u1\<lparr>uc_store := Some db1, uc_world := w, uc_flushed := uc_flushed u + n, uc_kept := uc_kept u @ uc_queue u\<rparr>)))"

text \<open>\<open>Close\<close> stops the background loop, whose last act is a flush; a second \<open>Close\<close> panics.\<close>

definition Collector_Close :: "ctx \<Rightarrow> bucket_key list \<Rightarrow> Collector \<Rightarrow> Collector option" where
  "Collector_Close c ks u = (if uc_done u then None else Some (flushAll c ks (u\<lparr>uc_done := True\<rparr>)))"

subsection \<open>Metering (\<open>middleware.go\<close>, \<open>record.go\<close>, \<open>meter.go\<close>)\<close>

definition resolveTenant :: "http_request \<Rightarrow> string \<times> string" where
  "resolveTenant r =
     (case ClaimsFromContext r of None \<Rightarrow> ([], []) | Some cl \<Rightarrow> (cl_CommunityID cl, cl_ClientID cl))"

definition methodToOperation :: "string \<Rightarrow> string" where
  "methodToOperation m =
     (if m = ''GET'' then ''read'' else if m = ''POST'' then ''create''
      else if m \<in> {''PUT'', ''PATCH''} then ''update'' else if m = ''DELETE'' then ''delete'' else ''other'')"

text \<open>What \<open>RecordTotal\<close> adds to the counter.\<close>

definition total_added :: "Record \<Rightarrow> int" where
  "total_added r = (if u_Count r \<le> 0 then 1 else u_Count r)"

text \<open>
  \<open>HTTPMiddleware\<close>: the inner handler runs first; the record is made from the request that came
  in, whose context the inner filters cannot change.
\<close>

definition http_record :: "string \<Rightarrow> string \<Rightarrow> time \<Rightarrow> http_request \<Rightarrow> Record" where
  "http_record path meth start r =
     (let (tenant, client) = resolveTenant r in
      \<lparr>u_dims = \<lparr>d_TenantID = tenant, d_ClientID = client, d_Endpoint = path, d_Operation = methodToOperation meth,
          d_Unit = ''call''\<rparr>, u_Count = 1, u_At = start\<rparr>)"

definition UsageHTTPMiddleware :: "(http_request \<Rightarrow> 'x \<Rightarrow> 'x) \<Rightarrow> string \<Rightarrow> string \<Rightarrow> time \<Rightarrow> http_request \<Rightarrow>
    Collector option \<Rightarrow> 'x \<Rightarrow> Collector option \<times> 'x" where
  "UsageHTTPMiddleware handler path meth start r coll x =
     (let x1 = handler r x in
      (map_option (\<lambda>u. snd (Collector_Record background (http_record path meth start r) u)) coll, x1))"

text \<open>\<open>RecordIngest\<close> as the records it makes, in order.\<close>

definition ingest_records :: "http_request \<Rightarrow> time \<Rightarrow> string \<Rightarrow> string \<Rightarrow> int \<Rightarrow> int \<Rightarrow> Record list" where
  "ingest_records r now endpoint operation frames bytes =
     (let (tenant, client) = resolveTenant r;
          rec1 = (\<lambda>unit n. \<lparr>u_dims = \<lparr>d_TenantID = tenant, d_ClientID = client, d_Endpoint = endpoint,
            d_Operation = operation, d_Unit = unit\<rparr>, u_Count = n, u_At = now\<rparr>)
      in (if 0 < frames then [rec1 ''frame'' frames] else []) @ (if 0 < bytes then [rec1 ''byte'' bytes] else []))"

definition RecordIngest :: "http_request \<Rightarrow> time \<Rightarrow> string \<Rightarrow> string \<Rightarrow> int \<Rightarrow> int \<Rightarrow> Collector option \<Rightarrow> Collector option" where
  "RecordIngest r now endpoint operation frames bytes coll =
     map_option (fold (\<lambda>rc u. snd (Collector_Record (rq_ctx r) rc u)) (ingest_records r now endpoint operation frames bytes)) coll"

subsection \<open>Sums\<close>

definition count_of :: "Record list \<Rightarrow> dims \<Rightarrow> int" where
  "count_of rs d = sum_list (map u_Count (filter (\<lambda>r. u_dims r = d) rs))"

definition key_sum :: "duration \<Rightarrow> Record list \<Rightarrow> bucket_key \<Rightarrow> int" where
  "key_sum interval rs k = sum_list (map u_Count (filter (\<lambda>r. key_of interval r = k) rs))"

lemma wrap64_range: "- (2 ^ 63) \<le> i \<Longrightarrow> i < 2 ^ 63 \<Longrightarrow> wrap64 i = i"
  by (simp add: wrap64_def)

lemma wrap64_add: "wrap64 (wrap64 a + b) = wrap64 (a + b)"
proof -
  have "(wrap64 a + b + 2 ^ 63) mod 2 ^ 64 = ((a + 2 ^ 63) mod 2 ^ 64 + b) mod 2 ^ 64"
    by (simp add: wrap64_def algebra_simps)
  also have "\<dots> = (a + b + 2 ^ 63) mod 2 ^ 64" by (simp only: mod_add_left_eq) (simp add: algebra_simps)
  finally show ?thesis by (simp add: wrap64_def)
qed

lemma agg_map_snoc: "agg_map i (rs @ [r]) = add_record i r (agg_map i rs)"
  by (simp add: agg_map_def)

lemma agg_map_sum:
  "agg_map i rs k = (if k \<in> key_of i ` set rs then Some (wrap64 (key_sum i rs k)) else None)"
proof (induction rs rule: rev_induct)
  case (snoc r rs)
  have s: "key_sum i (rs @ [r]) k = (if key_of i r = k then key_sum i rs k + u_Count r else key_sum i rs k)"
    by (simp add: key_sum_def)
  have z: "k \<notin> key_of i ` set rs \<Longrightarrow> key_sum i rs k = 0"
  proof -
    assume "k \<notin> key_of i ` set rs"
    then have "filter (\<lambda>r. key_of i r = k) rs = []" by (auto simp: filter_empty_conv)
    then show ?thesis by (simp add: key_sum_def)
  qed
  show ?case using snoc z by (auto simp: agg_map_snoc add_record_def Let_def s wrap64_add)
qed (simp add: agg_map_def)

lemma enumerates_agg: "enumerates ks (agg_map i rs) \<Longrightarrow> distinct ks \<and> set ks = key_of i ` set rs"
  by (auto simp: enumerates_def dom_def agg_map_sum split: if_splits)

lemma sum_list_partition:
  fixes f :: "'a \<Rightarrow> int"
  assumes "distinct ks" "g ` set xs \<subseteq> set ks"
  shows "sum_list (map (\<lambda>k. sum_list (map f (filter (\<lambda>x. g x = k) xs))) ks) = sum_list (map f xs)"
  using assms
proof (induction xs)
  case (Cons x xs)
  have "sum_list (map (\<lambda>k. sum_list (map f (filter (\<lambda>y. g y = k) (x # xs)))) ks) =
      sum_list (map (\<lambda>k. (if g x = k then f x else 0) + sum_list (map f (filter (\<lambda>y. g y = k) xs))) ks)"
    by (intro arg_cong [of _ _ sum_list] map_cong) auto
  also have "\<dots> = sum_list (map (\<lambda>k. if g x = k then f x else 0) ks) +
      sum_list (map (\<lambda>k. sum_list (map f (filter (\<lambda>y. g y = k) xs))) ks)"
    by (simp add: sum_list_addf)
  also have "sum_list (map (\<lambda>k. if g x = k then f x else 0) ks) = f x"
    using Cons.prems by (simp add: sum_list_distinct_conv_sum_set)
  finally show ?case using Cons by simp
qed simp

text \<open>Counts that are not negative and fit together in 64 bits.\<close>

definition fits :: "Record list \<Rightarrow> bool" where
  "fits rs \<longleftrightarrow> (\<forall>r\<in>set rs. 0 \<le> u_Count r) \<and> sum_list (map u_Count rs) < 2 ^ 63"

lemma filter_sum_le:
  "\<forall>r\<in>set rs. 0 \<le> u_Count r \<Longrightarrow> 0 \<le> sum_list (map u_Count (filter P rs)) \<and>
   sum_list (map u_Count (filter P rs)) \<le> sum_list (map u_Count rs)"
  by (induction rs) auto

lemma fits_key: "fits rs \<Longrightarrow> wrap64 (key_sum i rs k) = key_sum i rs k"
proof -
  assume f: "fits rs"
  have "0 \<le> key_sum i rs k" "key_sum i rs k \<le> sum_list (map u_Count rs)"
    using f filter_sum_le [of rs "\<lambda>r. key_of i r = k"] by (simp_all add: key_sum_def fits_def)
  then show ?thesis using f by (intro wrap64_range) (simp_all add: fits_def)
qed

text \<open>The buckets of one key group carry the counts of its records.\<close>

lemma aggregate_dims:
  assumes "enumerates ks (agg_map i rs)" "fits rs"
  shows "sum_list (map b_Count (filter (\<lambda>b. b_dims b = d) (aggregate ks rs i))) = count_of rs d"
proof -
  have ks: "distinct ks" "set ks = key_of i ` set rs" using enumerates_agg [OF assms(1)] by auto
  have cnt: "the (agg_map i rs k) = key_sum i rs k" if "k \<in> set ks" for k
    using that ks(2) fits_key [OF assms(2)] by (simp add: agg_map_sum)
  have split: "filter (\<lambda>b. b_dims b = d) (aggregate ks rs i) =
      map (\<lambda>k. case k of (d, start, end') \<Rightarrow>
         \<lparr>b_ID = [], b_dims = d, b_Count = the (agg_map i rs k), b_BucketStart = start, b_BucketEnd = end'\<rparr>)
        (filter (\<lambda>k. fst k = d) ks)"
    unfolding aggregate_def filter_map by (intro arg_cong2 [of _ _ _ _ map] filter_cong) auto
  have "sum_list (map b_Count (filter (\<lambda>b. b_dims b = d) (aggregate ks rs i))) =
      sum_list (map (key_sum i rs) (filter (\<lambda>k. fst k = d) ks))"
    unfolding split using cnt by (intro arg_cong [of _ _ sum_list]) (auto simp: split: prod.splits)
  also have "\<dots> = sum_list (map (\<lambda>k. sum_list (map u_Count (filter (\<lambda>x. key_of i x = k) (filter (\<lambda>r. u_dims r = d) rs))))
      (filter (\<lambda>k. fst k = d) ks))"
  proof (intro arg_cong [of _ _ sum_list] map_cong refl)
    fix k assume "k \<in> set (filter (\<lambda>k. fst k = d) ks)"
    then have "filter (\<lambda>x. key_of i x = k) (filter (\<lambda>r. u_dims r = d) rs) = filter (\<lambda>x. key_of i x = k) rs"
      unfolding filter_filter by (intro filter_cong) (auto simp: key_of_def Let_def)
    then show "key_sum i rs k = sum_list (map u_Count (filter (\<lambda>x. key_of i x = k) (filter (\<lambda>r. u_dims r = d) rs)))"
      by (simp add: key_sum_def)
  qed
  also have "\<dots> = count_of rs d"
    unfolding count_of_def
    by (rule sum_list_partition) (use ks in \<open>auto simp: key_of_def Let_def\<close>)
  finally show ?thesis .
qed

subsection \<open>Batches\<close>

lemma consume_rows [simp]: "us_rows (consume db) = us_rows db"
  by (simp add: consume_def)

lemma insert_buckets_result:
  assumes "insert_buckets bs w rows db = (((n, v), rows'), w', db')"
  shows "us_rows db' = us_rows db \<and> 0 \<le> n \<and> n \<le> int (length bs) \<and>
    (v = None \<longrightarrow> n = int (length bs) \<and>
      (\<forall>d. group_total rows' d = group_total rows d + sum_list (map b_Count (filter (\<lambda>b. b_dims b = d) bs))))"
  using assms
proof (induction bs w rows db arbitrary: n rows' w' db' rule: insert_buckets.induct)
  case (2 b bs w rows db)
  obtain i w1 where i: "(if b_ID b = [] then (uuid_of w, tick w) else (b_ID b, w)) = (i, w1)" by fastforce
  show ?case
  proof (cases "next_fault db")
    case (Some e)
    then show ?thesis using 2(2) i by auto
  next
    case None
    show ?thesis
    proof (cases "sql_insert ur_id (row_of_bucket i b) rows")
      case (Inl e)
      then show ?thesis using 2(2) i None by auto
    next
      case (Inr rows1)
      obtain m rows2 w2 db2 where rec1: "insert_buckets bs w1 rows1 (consume db) = (((m, v), rows2), w2, db2)"
          "n = m + 1" "rows' = rows2" "db' = db2"
        using 2(2) i None Inr by (auto split: prod.splits)
      have "rows1 = rows @ [row_of_bucket i b]" using Inr by (simp add: sql_insert_Inr)
      then have g: "group_total rows1 d = group_total rows d + (if b_dims b = d then b_Count b else 0)" for d
        by (simp add: group_total_def row_of_bucket_def)
      from 2(1) [OF i [symmetric] refl None Inr rec1(1)] show ?thesis using rec1(2-4) g by auto
    qed
  qed
qed simp

lemma InsertBatch_result:
  assumes "InsertBatch c bs w db = ((n, v), w', db')"
  shows "if v = None
    then n = int (length bs) \<and>
      (\<forall>d. group_total (us_rows db') d = group_total (us_rows db) d + sum_list (map b_Count (filter (\<lambda>b. b_dims b = d) bs)))
    else us_rows db' = us_rows db"
proof (cases "bs = [] \<or> ctx_err c \<noteq> None \<or> next_fault db \<noteq> None")
  case True
  then show ?thesis using assms
    by (cases "ctx_err c"; cases "next_fault db"; cases v) (auto simp: InsertBatch_def split: if_splits)
next
  case False
  obtain m u rows w1 db1 where r: "insert_buckets bs w (us_rows db) (consume db) = (((m, u), rows), w1, db1)"
    by (metis prod.collapse)
  note res = insert_buckets_result [OF r]
  show ?thesis
    using assms False r res by (cases u; cases "next_fault db1") (auto simp: InsertBatch_def split: option.splits)
qed

subsection \<open>The collector's accounts\<close>

datatype coll_label = Offered ctx Record | Flushed

inductive coll_step :: "Collector \<Rightarrow> coll_label \<Rightarrow> Collector \<Rightarrow> bool" where
  cs_record: "coll_step u (Offered c r) (snd (Collector_Record c r u))"
| cs_flush: "enumerates ks (agg_map (cc_BucketInterval (uc_cfg u)) (uc_queue u)) \<Longrightarrow>
    coll_step u Flushed (flushAll c ks u)"
| cs_close: "enumerates ks (agg_map (cc_BucketInterval (uc_cfg u)) (uc_queue u)) \<Longrightarrow>
    Collector_Close c ks u = Some u' \<Longrightarrow> coll_step u Flushed u'"

inductive coll_run :: "Collector \<Rightarrow> coll_label list \<Rightarrow> Collector \<Rightarrow> bool" where
  coll_refl: "coll_run u [] u"
| coll_next: "coll_run u tr u1 \<Longrightarrow> coll_step u1 l u2 \<Longrightarrow> coll_run u (tr @ [l]) u2"

text \<open>The records offered under a live context.\<close>

definition offered :: "coll_label list \<Rightarrow> Record list" where
  "offered tr = List.map_filter (\<lambda>l. case l of Offered c r \<Rightarrow> if ctx_err c = None then Some r else None | Flushed \<Rightarrow> None) tr"

lemma offered_snoc:
  "offered (tr @ [Offered c r]) = offered tr @ (if ctx_err c = None then [r] else [])"
  "offered (tr @ [Flushed]) = offered tr" "offered [] = []"
  by (simp_all add: offered_def List.map_filter_def)

definition stored_total :: "Collector \<Rightarrow> dims \<Rightarrow> int" where
  "stored_total u d = (case uc_store u of None \<Rightarrow> 0 | Some db \<Rightarrow> group_total (us_rows db) d)"

definition coll_inv :: "(dims \<Rightarrow> int) \<Rightarrow> Record list \<Rightarrow> Collector \<Rightarrow> bool" where
  "coll_inv base rs u \<longleftrightarrow>
     mset rs = mset (uc_queue u) + mset (uc_kept u) + mset (uc_lost u) + mset (uc_refused u) \<and>
     uc_dropped u = length (uc_refused u) \<and> int (length (uc_queue u)) \<le> cc_QueueCapacity (uc_cfg u) \<and>
     (\<forall>d. stored_total u d = base d + count_of (uc_kept u) d)"

lemma fits_submset: "fits rs \<Longrightarrow> mset qs \<subseteq># mset rs \<Longrightarrow> fits qs"
proof -
  assume f: "fits rs" and sub: "mset qs \<subseteq># mset rs"
  then obtain M where M: "mset rs = mset qs + M" by (metis subset_mset.less_eqE)
  obtain ms where ms: "mset ms = M" by (metis ex_mset)
  have "mset rs = mset (qs @ ms)" using M ms by simp
  then have "sum_list (map u_Count rs) = sum_list (map u_Count (qs @ ms))" "set rs = set (qs @ ms)"
    by (metis mset_map sum_mset_sum_list, metis mset_eq_setD)
  moreover have "0 \<le> sum_list (map u_Count ms)"
    using f calculation(2) by (auto simp: fits_def intro!: sum_list_nonneg)
  ultimately show ?thesis using f by (auto simp: fits_def)
qed

lemma count_of_append: "count_of (xs @ ys) d = count_of xs d + count_of ys d"
  by (simp add: count_of_def)

lemma flushAll_inv:
  assumes "coll_inv base rs u" "fits rs" "enumerates ks (agg_map (cc_BucketInterval (uc_cfg u)) (uc_queue u))"
    and "0 \<le> cc_QueueCapacity (uc_cfg u)"
  shows "coll_inv base rs (flushAll c ks u) \<and> uc_cfg (flushAll c ks u) = uc_cfg u"
proof (cases "uc_queue u = []")
  case True
  then show ?thesis using assms(1) by (simp add: flushAll_def)
next
  case False
  let ?bs = "aggregate ks (uc_queue u) (cc_BucketInterval (uc_cfg u))"
  have "set ks \<noteq> {}" using enumerates_agg [OF assms(3)] False by auto
  then have ne: "?bs \<noteq> []" by (auto simp: aggregate_def)
  have fq: "fits (uc_queue u)" by (rule fits_submset [OF assms(2)]) (use assms(1) in \<open>simp add: coll_inv_def\<close>)
  have q: "sum_list (map b_Count (filter (\<lambda>b. b_dims b = d) ?bs)) = count_of (uc_queue u) d" for d
    by (rule aggregate_dims [OF assms(3) fq])
  show ?thesis
  proof (cases "uc_store u")
    case None
    then show ?thesis using assms(1,4) False ne by (simp add: flushAll_def Let_def coll_inv_def stored_total_def ac_simps)
  next
    case (Some db)
    obtain n v w db1 where b: "InsertBatch c ?bs (uc_world u) db = ((n, v), w, db1)" by (metis prod.collapse)
    note res = InsertBatch_result [OF b]
    show ?thesis
    proof (cases v)
      case None
      have "stored_total (flushAll c ks u) d = base d + count_of (uc_kept (flushAll c ks u)) d" for d
        using assms(1) res None b Some False ne q
        by (simp add: flushAll_def Let_def coll_inv_def stored_total_def count_of_append)
      then show ?thesis using assms(1,4) None b Some False ne
        by (simp add: flushAll_def Let_def coll_inv_def ac_simps)
    next
      case (Some e)
      then show ?thesis using assms(1,4) res b \<open>uc_store u = Some db\<close> False ne
        by (simp add: flushAll_def Let_def coll_inv_def stored_total_def ac_simps)
    qed
  qed
qed

lemma coll_step_inv:
  assumes "coll_step u l u'" "coll_inv base rs u" "0 < cc_QueueCapacity (uc_cfg u)"
    and "fits rs"
  shows "coll_inv base (rs @ offered [l]) u' \<and> uc_cfg u' = uc_cfg u"
  using assms(1)
proof cases
  case (cs_record c r)
  then show ?thesis using assms(2) offered_snoc(1) [of "[]" c r]
    by (auto simp: Collector_Record_def coll_inv_def stored_total_def offered_snoc(3) split: option.splits)
next
  case (cs_flush ks c)
  then show ?thesis using flushAll_inv [OF assms(2,4) cs_flush(3)] assms(3) offered_snoc(2) [of "[]"]
    by (simp add: offered_snoc(3))
next
  case (cs_close ks c)
  have "coll_inv base rs (u\<lparr>uc_done := True\<rparr>)" using assms(2) by (simp add: coll_inv_def stored_total_def)
  from flushAll_inv [OF this assms(4), of ks c] show ?thesis
    using cs_close assms(3) offered_snoc(2) [of "[]"]
    by (auto simp: offered_snoc(3) Collector_Close_def split: if_splits)
qed

lemma fits_append: "fits (xs @ ys) \<Longrightarrow> fits xs"
  using fits_submset [of "xs @ ys" xs] by simp

lemma coll_run_inv:
  assumes "coll_run u tr u'" "coll_inv base [] u" "0 < cc_QueueCapacity (uc_cfg u)" "fits (offered tr)"
  shows "coll_inv base (offered tr) u' \<and> uc_cfg u' = uc_cfg u"
  using assms
proof (induction rule: coll_run.induct)
  case (coll_next u tr u1 l u2)
  have o: "offered (tr @ [l]) = offered tr @ offered [l]"
    by (simp add: offered_def List.map_filter_def)
  then have "fits (offered tr)" using coll_next.prems(3) fits_append by metis
  then have "coll_inv base (offered tr) u1" "uc_cfg u1 = uc_cfg u" using coll_next by blast+
  from coll_step_inv [OF coll_next.hyps(2) this(1) _ \<open>fits (offered tr)\<close>] show ?case
    using \<open>uc_cfg u1 = uc_cfg u\<close> coll_next.prems(2) unfolding o by simp
qed (simp add: offered_snoc)

subsection \<open>Properties\<close>

text \<open>C16: Whatever the driver refuses, every record offered under a live context is in exactly one
  place: waiting, written, lost with a refused batch, or refused by a full queue and counted;
  and for each combination of tenant, client, endpoint, operation and unit the table holds
  what it held before plus the counts of the records written, so aggregation into buckets
  neither loses nor repeats a count.\<close>

theorem usage_accounts:
  assumes "coll_run (NewCollector store cfg w) tr u" "fits (offered tr)"
  shows "mset (offered tr) = mset (uc_queue u) + mset (uc_kept u) + mset (uc_lost u) + mset (uc_refused u) \<and>
    uc_dropped u = length (uc_refused u) \<and>
    stored_total u d = stored_total (NewCollector store cfg w) d + count_of (uc_kept u) d"
proof -
  let ?u = "NewCollector store cfg w"
  have inv: "coll_inv (stored_total ?u) [] ?u"
    by (simp add: coll_inv_def NewCollector_def count_of_def CollectorConfig_applyDefaults_def)
  have cap: "0 < cc_QueueCapacity (uc_cfg ?u)" by (simp add: NewCollector_def CollectorConfig_applyDefaults_def)
  show ?thesis using coll_run_inv [OF assms(1) inv cap assms(2)] unfolding coll_inv_def by blast
qed

definition demo_record :: Record where
  "demo_record = \<lparr>u_dims = \<lparr>d_TenantID = ''c1'', d_ClientID = [], d_Endpoint = ''/x'', d_Operation = ''read'', d_Unit = ''call''\<rparr>,
     u_Count = 3, u_At = 90 * second\<rparr>"

definition zero_collector :: CollectorConfig where
  "zero_collector = \<lparr>cc_BucketInterval = 0, cc_FlushInterval = 0, cc_QueueCapacity = 0\<rparr>"

lemma usage_accounts_witness:
  "\<exists>u. coll_run (NewCollector (Some \<lparr>faults = [], us_rows = []\<rparr>) zero_collector clock0) [Offered background demo_record] u \<and>
     mset [demo_record] = mset (uc_queue u) + mset (uc_kept u) + mset (uc_lost u) + mset (uc_refused u)"
proof -
  let ?u = "NewCollector (Some \<lparr>faults = [], us_rows = []\<rparr>) zero_collector clock0"
  have r: "coll_run ?u ([] @ [Offered background demo_record]) (snd (Collector_Record background demo_record ?u))"
    by (rule coll_next [OF coll_refl cs_record])
  have o: "offered ([] @ [Offered background demo_record]) = [demo_record]"
    by (simp add: offered_def List.map_filter_def background_def)
  have "fits (offered ([] @ [Offered background demo_record]))" unfolding o by (simp add: fits_def demo_record_def)
  from usage_accounts [OF r this] show ?thesis using r unfolding o by (intro exI conjI) simp_all
qed

text \<open>Calls over HTTP are metered without a tenant: the meter wraps the whole router and reads the
  claims of the request that came in, which carries none; the filters inside put the claims into
  the context of a new request. So even a call that a protected route served for an identified
  subject is recorded with an empty tenant and an empty client.\<close>

theorem http_usage_anonymous:
  assumes "rq_claims r = None" "protected_route L K tm w perm r svc = (Serve r1, svc1)"
  shows "resolveTenant r = ([], []) \<and>
    (\<exists>cl. rq_claims r1 = Some cl \<and> resolveTenant r1 = (cl_CommunityID cl, cl_ClientID cl)) \<and>
    d_TenantID (u_dims (http_record path meth start r)) = [] \<and> d_ClientID (u_dims (http_record path meth start r)) = []"
proof -
  have "\<exists>cl. rq_claims r1 = Some cl"
    using assms(2) by (auto simp: protected_route_def RequirePermission_def ClaimsFromContext_def
        split: prod.splits decision.splits option.splits if_splits)
  then show ?thesis using assms(1) by (auto simp: resolveTenant_def ClaimsFromContext_def http_record_def)
qed

lemma http_usage_anonymous_witness:
  "resolveTenant key_request = ([], []) \<and>
   d_TenantID (u_dims (http_record ''/commands'' ''POST'' 0 key_request)) = [] \<and>
   resolveTenant (WithClaims demo_claims key_request) = (''c1'', ''m1'')"
proof -
  have "rq_claims key_request = None" by (simp add: key_request_def)
  from http_usage_anonymous [OF this demo_route_served] show ?thesis
    by (auto simp: WithClaims_def demo_claims_def client_claims_def client1_def)
qed

end
