(* ===== verification/JsonBody.thy ===== *)
theory JsonBody
  imports Float64 SchemaRegistry
begin

text \<open>
  What the HTTP front end uses of \<open>encoding/json\<close>: \<open>Decoder.Decode\<close> of a request body into a
  struct, and the JSON image of the structs that responses carry. A body is the document the
  scanner finds in it, or the scanner's error; members keep their order and may repeat. Member
  names are ASCII.
\<close>

subsection \<open>Documents\<close>

text \<open>A number is kept as its literal.\<close>

datatype json =
    JNull
  | JBool bool
  | JNum string
  | JStr string
  | JArr "json list"
  | JObj "(string \<times> json) list"

definition type_error :: "string \<Rightarrow> err" where
  "type_error what = External (''json: cannot unmarshal '' @ what)"

text \<open>Decoding into an \<open>any\<close>: numbers become \<open>float64\<close>, of repeated members the last counts.\<close>

fun json_any :: "json \<Rightarrow> goval res"
  and json_anys :: "json list \<Rightarrow> goval list res"
  and json_members :: "(string \<times> json) list \<Rightarrow> gomap \<Rightarrow> gomap res" where
  "json_any JNull = Inr GNil"
| "json_any (JBool b) = Inr (GBool b)"
| "json_any (JNum n) =
     (case ParseFloat n of Inl _ \<Rightarrow> Inl (type_error (''number '' @ n)) | Inr x \<Rightarrow> Inr (GFloat x))"
| "json_any (JStr s) = Inr (GStr s)"
| "json_any (JArr ds) = (case json_anys ds of Inl e \<Rightarrow> Inl e | Inr vs \<Rightarrow> Inr (GList vs))"
| "json_any (JObj ms) = (case json_members ms [] of Inl e \<Rightarrow> Inl e | Inr m \<Rightarrow> Inr (GMap m))"
| "json_anys [] = Inr []"
| "json_anys (d # ds) =
     (case json_any d of Inl e \<Rightarrow> Inl e
      | Inr v \<Rightarrow> (case json_anys ds of Inl e \<Rightarrow> Inl e | Inr vs \<Rightarrow> Inr (v # vs)))"
| "json_members [] m = Inr m"
| "json_members ((k, d) # ms) m =
     (case json_any d of Inl e \<Rightarrow> Inl e | Inr v \<Rightarrow> json_members ms (gomap_put k v m))"

subsection \<open>Structs\<close>

text \<open>
  A struct to decode into: its fields, each with its JSON name and what a value does to it. A
  member goes to the field of that very name, or else to the one whose name agrees up to case;
  other members are skipped. The error of a field fails the whole call.
\<close>

type_synonym 'r fields = "(string \<times> (json \<Rightarrow> 'r \<Rightarrow> 'r res)) list"

definition fold_name :: "string \<Rightarrow> string" where
  "fold_name s = map lower_char s"

definition field_for :: "'r fields \<Rightarrow> string \<Rightarrow> (json \<Rightarrow> 'r \<Rightarrow> 'r res) option" where
  "field_for fs k =
     (case find (\<lambda>f. fst f = k) fs of
        Some f \<Rightarrow> Some (snd f)
      | None \<Rightarrow> map_option snd (find (\<lambda>f. fold_name (fst f) = fold_name k) fs))"

fun decode_members :: "'r fields \<Rightarrow> (string \<times> json) list \<Rightarrow> 'r \<Rightarrow> 'r res" where
  "decode_members fs [] r = Inr r"
| "decode_members fs ((k, d) # ms) r =
     (case field_for fs k of
        None \<Rightarrow> decode_members fs ms r
      | Some set_field \<Rightarrow> (case set_field d r of Inl e \<Rightarrow> Inl e | Inr r1 \<Rightarrow> decode_members fs ms r1))"

definition decode_struct :: "'r fields \<Rightarrow> 'r \<Rightarrow> json \<Rightarrow> 'r res" where
  "decode_struct fs zero d =
     (case d of JNull \<Rightarrow> Inr zero | JObj ms \<Rightarrow> decode_members fs ms zero | _ \<Rightarrow> Inl (type_error ''into Go struct''))"

definition Decode :: "(json \<Rightarrow> 'r res) \<Rightarrow> json res \<Rightarrow> 'r res" where
  "Decode decode body = (case body of Inl e \<Rightarrow> Inl e | Inr d \<Rightarrow> decode d)"

text \<open>Fields by their Go type. A \<open>null\<close> leaves a string or an int alone and clears a slice or a map;
  a second object for a map field adds to the first.\<close>

definition str_field :: "(string \<Rightarrow> 'r \<Rightarrow> 'r) \<Rightarrow> json \<Rightarrow> 'r \<Rightarrow> 'r res" where
  "str_field upd d r = (case d of JNull \<Rightarrow> Inr r | JStr s \<Rightarrow> Inr (upd s r) | _ \<Rightarrow> Inl (type_error ''into string''))"

definition strconv_Atoi :: "string \<Rightarrow> int res" where
  "strconv_Atoi s =
     (case Atoi s of
        Inl e \<Rightarrow> Inl e
      | Inr i \<Rightarrow> (if - (2 ^ 63) \<le> i \<and> i < 2 ^ 63 then Inr i else Inl (External ''strconv.Atoi: value out of range'')))"

definition int_field :: "(int \<Rightarrow> 'r \<Rightarrow> 'r) \<Rightarrow> json \<Rightarrow> 'r \<Rightarrow> 'r res" where
  "int_field upd d r =
     (case d of
        JNull \<Rightarrow> Inr r
      | JNum n \<Rightarrow> (case strconv_Atoi n of Inl _ \<Rightarrow> Inl (type_error (''number '' @ n @ '' into int'')) | Inr i \<Rightarrow> Inr (upd i r))
      | _ \<Rightarrow> Inl (type_error ''into int''))"

fun str_list :: "json list \<Rightarrow> string list res" where
  "str_list [] = Inr []"
| "str_list (d # ds) =
     (case d of
        JNull \<Rightarrow> (case str_list ds of Inl e \<Rightarrow> Inl e | Inr ss \<Rightarrow> Inr ([] # ss))
      | JStr s \<Rightarrow> (case str_list ds of Inl e \<Rightarrow> Inl e | Inr ss \<Rightarrow> Inr (s # ss))
      | _ \<Rightarrow> Inl (type_error ''into string''))"

definition strs_field :: "(string list \<Rightarrow> 'r \<Rightarrow> 'r) \<Rightarrow> json \<Rightarrow> 'r \<Rightarrow> 'r res" where
  "strs_field upd d r =
     (case d of
        JNull \<Rightarrow> Inr (upd [] r)
      | JArr ds \<Rightarrow> (case str_list ds of Inl e \<Rightarrow> Inl e | Inr ss \<Rightarrow> Inr (upd ss r))
      | _ \<Rightarrow> Inl (type_error ''into []string''))"

definition map_field :: "('r \<Rightarrow> gomap option) \<Rightarrow> (gomap option \<Rightarrow> 'r \<Rightarrow> 'r) \<Rightarrow> json \<Rightarrow> 'r \<Rightarrow> 'r res" where
  "map_field old upd d r =
     (case d of
        JNull \<Rightarrow> Inr (upd None r)
      | JObj ms \<Rightarrow>
        (case json_members ms (case old r of None \<Rightarrow> [] | Some m \<Rightarrow> m) of
           Inl e \<Rightarrow> Inl e | Inr m \<Rightarrow> Inr (upd (Some m) r))
      | _ \<Rightarrow> Inl (type_error ''into map''))"

text \<open>\<open>Time.UnmarshalJSON\<close> leaves \<open>null\<close> alone.\<close>

definition time_field :: "(time \<Rightarrow> 'r \<Rightarrow> 'r) \<Rightarrow> json \<Rightarrow> 'r \<Rightarrow> 'r res" where
  "time_field upd d r =
     (case d of
        JNull \<Rightarrow> Inr r
      | JStr s \<Rightarrow> (case parse_time s of None \<Rightarrow> Inl (External ''parsing time'') | Some t \<Rightarrow> Inr (upd t r))
      | _ \<Rightarrow> Inl (External ''Time.UnmarshalJSON: input is not a JSON string''))"

text \<open>Decoding into a \<open>map[string]any\<close>.\<close>

definition decode_map :: "json \<Rightarrow> gomap option res" where
  "decode_map d =
     (case d of
        JNull \<Rightarrow> Inr None
      | JObj ms \<Rightarrow> (case json_members ms [] of Inl e \<Rightarrow> Inl e | Inr m \<Rightarrow> Inr (Some m))
      | _ \<Rightarrow> Inl (type_error ''into map''))"

subsection \<open>Images of the structs\<close>

text \<open>\<open>omitempty\<close> drops an empty string or map.\<close>

definition omit_str :: "string \<Rightarrow> string \<Rightarrow> gomap" where
  "omit_str k s = (if s = [] then [] else [(k, GStr s)])"

definition map_value :: "gomap option \<Rightarrow> goval" where
  "map_value m = (case m of None \<Rightarrow> GNil | Some kvs \<Rightarrow> GMap kvs)"

definition omit_map :: "string \<Rightarrow> gomap option \<Rightarrow> gomap" where
  "omit_map k m = (case m of None \<Rightarrow> [] | Some kvs \<Rightarrow> if kvs = [] then [] else [(k, GMap kvs)])"

definition node_json :: "Node \<Rightarrow> goval" where
  "node_json n = GStruct
     ([(''nodeId'', GStr (n_NodeID n)), (''nodeType'', GStr (n_NodeType n)), (''name'', GStr (n_Name n)),
       (''status'', GStr (n_Status n)), (''ownerCommunityId'', GStr (n_OwnerCommunityID n)),
       (''createdAt'', GTime (n_CreatedAt n)), (''updatedAt'', GTime (n_UpdatedAt n))] @
      omit_str ''shardKey'' (n_ShardKey n) @ omit_str ''federationId'' (n_FederationID n) @
      omit_map ''properties'' (n_Properties n))"

definition rel_json :: "Relationship \<Rightarrow> goval" where
  "rel_json r = GStruct
     ([(''relId'', GStr (r_RelID r)), (''fromNodeId'', GStr (r_FromNodeID r)), (''toNodeId'', GStr (r_ToNodeID r)),
       (''relType'', GStr (r_RelType r))] @ omit_map ''properties'' (r_Properties r) @
      [(''createdAt'', GTime (r_CreatedAt r))])"

definition event_json :: "Event \<Rightarrow> goval" where
  "event_json e = GStruct
     [(''eventId'', GStr (e_EventID e)), (''eventType'', GStr (e_EventType e)), (''timestamp'', GTime (e_Timestamp e)),
      (''sourceNodeId'', GStr (e_SourceNodeID e)), (''traceId'', GStr (e_TraceID e)),
      (''payload'', map_value (e_Payload e))]"

definition schema_json :: "Schema \<Rightarrow> goval" where
  "schema_json s = GStruct
     [(''eventType'', GStr (s_EventType s)), (''version'', GStr (s_Version s)),
      (''fields'', GList (map (\<lambda>f. GStruct [(''name'', GStr (fd_Name f)), (''type'', GStr (fd_Type f)),
         (''required'', GBool (fd_Required f))]) (s_Fields s)))]"

end
