(* ===== verification/ApiState.thy ===== *)
theory ApiState
  imports JsonBody CommandScheduler AuthMiddleware TelemetryPipeline Usage
begin

text \<open>
  What the two front ends share (\<open>internal/api\<close>): the services they were given, and the shape of
  HTTP responses. The components of the program share the bus, the clock and the plugin
  manager; here these are fields of one state, handed to a component for the time of a call.
\<close>

subsection \<open>The environment\<close>

text \<open>
  The libraries, the implementation of \<open>MessageBus\<close>, the order in which a \<open>range\<close> visits a map, the
  sorting routines, and the printing of floats and durations.
\<close>

record 'b env =
  en_jwt :: jwt_lib
  en_crypt :: crypt_lib
  en_Publish :: "'b publisher"
  en_Replay :: "ctx \<Rightarrow> ReplayOptions \<Rightarrow> 'b \<Rightarrow> Event list res \<times> 'b"
  en_Subscribe :: "SubscribeOptions \<Rightarrow> 'b \<Rightarrow> nat \<times> 'b"
  en_Ping :: "ctx \<Rightarrow> 'b \<Rightarrow> verdict"
  en_order :: "string set \<Rightarrow> string list"
  en_sortCommands :: "CommandItem list \<Rightarrow> CommandItem list"
  en_sortUsage :: "Aggregate list \<Rightarrow> Aggregate list"
  en_FormatFloat :: "float64 \<Rightarrow> string"
  en_DurationString :: "duration \<Rightarrow> string"

type_synonym plugins = "(parser, unit, unit, unit) Manager"

text \<open>
  The fields of \<open>rest.Handler\<close>. \<open>None\<close> is a dependency that was not injected; \<open>ap_db\<close>, \<open>ap_tokenMgr\<close>
  and \<open>ap_authSvc\<close> say whether it was. \<open>main\<close> builds one token manager for all services.
\<close>

record 'b api =
  ap_kg :: "'b kg"
  ap_bus :: 'b
  ap_world :: world
  ap_registry :: SchemaRegistry
  ap_db :: bool
  ap_plugins :: "plugins option"
  ap_pipeline :: "'b tele option"
  ap_cmdPipeline :: "'b Pipeline option"
  ap_authSvc :: bool
  ap_users :: "userdb option"
  ap_clientSvc :: "clientdb option"
  ap_tokenMgr :: bool
  ap_tm :: TokenManager
  ap_authEnabled :: bool
  ap_usageStore :: "usagedb option"
  ap_collector :: "Collector option"
  ap_version :: string
  ap_startTime :: time

text \<open>Construction. \<open>tm\<close> stands for the token manager before \<open>SetAuth\<close> brings one; \<open>ap_tokenMgr\<close> keeps it unread until then.\<close>

definition NewHandler :: "'b kg \<Rightarrow> 'b \<Rightarrow> SchemaRegistry option \<Rightarrow> world \<Rightarrow> TokenManager \<Rightarrow> 'b api" where
  "NewHandler kg bus registry w tm =
     \<lparr>ap_kg = kg, ap_bus = bus, ap_world = tick w,
      ap_registry = (case registry of None \<Rightarrow> NewSchemaRegistry | Some r \<Rightarrow> r), ap_db = False, ap_plugins = None,
      ap_pipeline = None, ap_cmdPipeline = None, ap_authSvc = False, ap_users = None, ap_clientSvc = None,
      ap_tokenMgr = False, ap_tm = tm, ap_authEnabled = False, ap_usageStore = None, ap_collector = None,
      ap_version = ''dev'', ap_startTime = now_of w\<rparr>"

definition SetVersion :: "string \<Rightarrow> 'b api \<Rightarrow> 'b api" where
  "SetVersion v s = (if v \<noteq> [] then s\<lparr>ap_version := v\<rparr> else s)"

definition Handler_SetDB :: "bool \<Rightarrow> 'b api \<Rightarrow> 'b api" where
  "Handler_SetDB db s = s\<lparr>ap_db := db\<rparr>"

definition SetPluginManager :: "plugins option \<Rightarrow> 'b api \<Rightarrow> 'b api" where
  "SetPluginManager pm s = s\<lparr>ap_plugins := pm\<rparr>"

definition SetAuth :: "bool \<Rightarrow> userdb option \<Rightarrow> TokenManager option \<Rightarrow> bool \<Rightarrow> 'b api \<Rightarrow> 'b api" where
  "SetAuth svc store tm enabled s =
     s\<lparr>ap_authSvc := svc, ap_users := store, ap_tokenMgr := (tm \<noteq> None),
       ap_tm := (case tm of None \<Rightarrow> ap_tm s | Some t \<Rightarrow> t), ap_authEnabled := enabled\<rparr>"

definition SetClientService :: "clientdb option \<Rightarrow> 'b api \<Rightarrow> 'b api" where
  "SetClientService cs s = s\<lparr>ap_clientSvc := cs\<rparr>"

definition SetUsageStore :: "usagedb option \<Rightarrow> 'b api \<Rightarrow> 'b api" where
  "SetUsageStore us s = s\<lparr>ap_usageStore := us\<rparr>"

definition SetUsageMeter :: "Collector option \<Rightarrow> 'b api \<Rightarrow> 'b api" where
  "SetUsageMeter c s = s\<lparr>ap_collector := c\<rparr>"

definition SetTelemetryPipeline :: "'b tele option \<Rightarrow> 'b api \<Rightarrow> 'b api" where
  "SetTelemetryPipeline p s = s\<lparr>ap_pipeline := p\<rparr>"

definition SetCommandPipeline :: "'b Pipeline option \<Rightarrow> 'b api \<Rightarrow> 'b api" where
  "SetCommandPipeline p s = s\<lparr>ap_cmdPipeline := p\<rparr>"

subsection \<open>Calling a component\<close>

definition with_kg :: "('b kg \<Rightarrow> 'r \<times> 'b kg) \<Rightarrow> 'b api \<Rightarrow> 'r \<times> 'b api" where
  "with_kg f s =
     (case f ((ap_kg s)\<lparr>kg_bus := ap_bus s, kg_world := ap_world s\<rparr>) of
        (r, k) \<Rightarrow> (r, s\<lparr>ap_kg := k, ap_bus := kg_bus k, ap_world := kg_world k\<rparr>))"

definition with_tele :: "('b tele \<Rightarrow> 'r \<times> 'b tele) \<Rightarrow> 'b tele \<Rightarrow> 'b api \<Rightarrow> 'r \<times> 'b api" where
  "with_tele f p s =
     (case f (p\<lparr>tp_bus := ap_bus s, tp_world := ap_world s, tp_manager := map_option GetParser (ap_plugins s)\<rparr>) of
        (r, q) \<Rightarrow> (r, s\<lparr>ap_pipeline := Some q, ap_bus := tp_bus q, ap_world := tp_world q\<rparr>))"

definition adapter_names :: "'b env \<Rightarrow> plugins \<Rightarrow> string list" where
  "adapter_names E m = ListAdapters (en_order E (dom (pm_adapters m))) m"

definition with_cmd :: "'b env \<Rightarrow> ('b Pipeline \<Rightarrow> 'r \<times> 'b Pipeline) \<Rightarrow> 'b Pipeline \<Rightarrow> 'b api \<Rightarrow> 'r \<times> 'b api" where
  "with_cmd E f p s =
     (case f (p\<lparr>cp_bus := ap_bus s, cp_world := ap_world s, cp_manager := map_option (adapter_names E) (ap_plugins s)\<rparr>) of
        (r, q) \<Rightarrow> (r, s\<lparr>ap_cmdPipeline := Some q, ap_bus := cp_bus q, ap_world := cp_world q\<rparr>))"

text \<open>\<open>time.Now\<close> in a handler.\<close>

definition tick_api :: "'b api \<Rightarrow> 'b api" where
  "tick_api s = s\<lparr>ap_world := tick (ap_world s)\<rparr>"

subsection \<open>Error texts\<close>

fun sentinel_text :: "sentinel \<Rightarrow> string" where
  "sentinel_text ErrNotFound = ''not found''"
| "sentinel_text ErrUserNotFound = ''user not found''"
| "sentinel_text ErrClientNotFound = ''client not found''"
| "sentinel_text ErrInvalidCredentials = ''invalid credentials''"
| "sentinel_text ErrNilEvent = ''event is nil''"
| "sentinel_text ErrStoreClosed = ''store is closed''"
| "sentinel_text ErrBusClosed = ''bus is closed''"
| "sentinel_text ErrNodeIDEmpty = ''nodeId is empty''"
| "sentinel_text ErrNodeTypeEmpty = ''nodeType is empty''"
| "sentinel_text ErrNodeNameEmpty = ''name is empty''"
| "sentinel_text ErrNodeStatusEmpty = ''status is empty''"
| "sentinel_text ErrOwnerCommunityEmpty = ''ownerCommunityId is empty''"
| "sentinel_text ErrCreatedAtZero = ''createdAt is zero''"
| "sentinel_text ErrUpdatedAtZero = ''updatedAt is zero''"
| "sentinel_text ErrRelIDEmpty = ''relId is empty''"
| "sentinel_text ErrFromNodeIDEmpty = ''fromNodeId is empty''"
| "sentinel_text ErrToNodeIDEmpty = ''toNodeId is empty''"
| "sentinel_text ErrNoRows = ''sql: no rows in result set''"
| "sentinel_text ErrCanceled = ''context canceled''"
| "sentinel_text ErrDeadlineExceeded = ''context deadline exceeded''"

fun err_Error :: "err \<Rightarrow> string" where
  "err_Error (Sentinel s) = sentinel_text s"
| "err_Error (Errorf m) = m"
| "err_Error (Wrap m e) = m @ '': '' @ err_Error e"
| "err_Error (External m) = m"

subsection \<open>Responses\<close>

datatype body = NoBody | Json goval | Text string

record response =
  rs_status :: nat
  rs_body :: body

abbreviation StatusOK :: nat where "StatusOK \<equiv> 200"
abbreviation StatusCreated :: nat where "StatusCreated \<equiv> 201"
abbreviation StatusAccepted :: nat where "StatusAccepted \<equiv> 202"
abbreviation StatusNoContent :: nat where "StatusNoContent \<equiv> 204"
abbreviation StatusBadRequest :: nat where "StatusBadRequest \<equiv> 400"
abbreviation StatusMethodNotAllowed :: nat where "StatusMethodNotAllowed \<equiv> 405"
abbreviation StatusServiceUnavailable :: nat where "StatusServiceUnavailable \<equiv> 503"

definition StatusText :: "nat \<Rightarrow> string" where
  "StatusText code =
     (if code = StatusBadRequest then ''Bad Request''
      else if code = StatusUnauthorized then ''Unauthorized''
      else if code = StatusForbidden then ''Forbidden''
      else if code = StatusNotFound then ''Not Found''
      else if code = StatusMethodNotAllowed then ''Method Not Allowed''
      else if code = StatusInternalServerError then ''Internal Server Error''
      else if code = StatusServiceUnavailable then ''Service Unavailable'' else [])"

text \<open>The status goes out before the encoding, whose failure leaves the body empty.\<close>

definition writeJSON :: "nat \<Rightarrow> goval \<Rightarrow> response" where
  "writeJSON status v =
     \<lparr>rs_status = status, rs_body = (case json_norm v of Inl _ \<Rightarrow> NoBody | Inr w \<Rightarrow> Json w)\<rparr>"

definition writeError :: "nat \<Rightarrow> string \<Rightarrow> response" where
  "writeError status msg = writeJSON status (GStruct [(''error'', GStr (StatusText status)), (''message'', GStr msg)])"

definition no_content :: response where
  "no_content = \<lparr>rs_status = StatusNoContent, rs_body = NoBody\<rparr>"

definition handleServiceError :: "err \<Rightarrow> response" where
  "handleServiceError e =
     (if errors_Is e ErrNotFound then writeError StatusNotFound (err_Error e)
      else writeError StatusInternalServerError (err_Error e))"

text \<open>\<open>[]T\<close> as JSON: a slice made with \<open>make\<close>, and one that is nil until something is appended.\<close>

definition made_json :: "('a \<Rightarrow> goval) \<Rightarrow> 'a list \<Rightarrow> goval" where
  "made_json f xs = GList (map f xs)"

definition slice_json :: "('a \<Rightarrow> goval) \<Rightarrow> 'a list \<Rightarrow> goval" where
  "slice_json f xs = (if xs = [] then GNil else GList (map f xs))"

text \<open>A well-formed answer: a known status, and the error document exactly with an error status.\<close>

definition error_doc :: "nat \<Rightarrow> goval \<Rightarrow> bool" where
  "error_doc status v \<longleftrightarrow> (\<exists>msg. v = GMap [(''error'', GStr (StatusText status)), (''message'', GStr msg)])"

lemma writeError_simps [simp]:
  "rs_status (writeError status msg) = status"
  "rs_body (writeError status msg) = Json (GMap [(''error'', GStr (StatusText status)), (''message'', GStr msg)])"
  by (simp_all add: writeError_def writeJSON_def)

lemma writeJSON_status [simp]: "rs_status (writeJSON status v) = status"
  by (simp add: writeJSON_def)

lemma no_content_simps [simp]: "rs_status no_content = StatusNoContent" "rs_body no_content = NoBody"
  by (simp_all add: no_content_def)

end
