(* ===== verification/RestHandlers.thy ===== *)
theory RestHandlers
  imports ApiState
begin

text \<open>
  \<open>internal/api/rest/handler.go\<close>, first half: the handlers of nodes, relationships, the graph,
  events, schemas, plugins, health and metrics. A handler takes the request and the state and
  returns its response; \<open>chi\<close> has matched the route and extracted the path parameters.
\<close>

subsection \<open>Requests\<close>

text \<open>\<open>hr_pattern\<close> is the matched route pattern, \<open>hr_query\<close> the first value of a query key or empty.\<close>

record rest_request =
  hr_http :: http_request
  hr_method :: string
  hr_pattern :: string
  hr_path :: string
  hr_param :: "string \<Rightarrow> string"
  hr_query :: "string \<Rightarrow> string"
  hr_body :: "json res"
  hr_ContentLength :: int

definition hr_ctx :: "rest_request \<Rightarrow> ctx" where
  "hr_ctx r = rq_ctx (hr_http r)"

definition bad_request :: "string \<Rightarrow> 'b api \<Rightarrow> response \<times> 'b api" where
  "bad_request msg s = (writeError StatusBadRequest msg, s)"

definition bad_json :: "err \<Rightarrow> 'b api \<Rightarrow> response \<times> 'b api" where
  "bad_json e = bad_request (''request body is not valid JSON: '' @ err_Error e)"

text \<open>\<open>strings.TrimSpace\<close> each entry and drop the empty ones.\<close>

definition clean_types :: "string list \<Rightarrow> EventType list" where
  "clean_types ts = filter (\<lambda>t. t \<noteq> []) (map trim_space ts)"

subsection \<open>Nodes\<close>

record createNodeRequest =
  cn_NodeID :: string
  cn_NodeType :: string
  cn_Name :: string
  cn_Status :: string
  cn_OwnerCommunityID :: string
  cn_ShardKey :: string
  cn_FederationID :: string
  cn_Properties :: "gomap option"

definition createNode_fields :: "createNodeRequest fields" where
  "createNode_fields =
     [(''nodeId'', str_field (\<lambda>x. cn_NodeID_update (\<lambda>_. x))),
      (''nodeType'', str_field (\<lambda>x. cn_NodeType_update (\<lambda>_. x))),
      (''name'', str_field (\<lambda>x. cn_Name_update (\<lambda>_. x))),
      (''status'', str_field (\<lambda>x. cn_Status_update (\<lambda>_. x))),
      (''ownerCommunityId'', str_field (\<lambda>x. cn_OwnerCommunityID_update (\<lambda>_. x))),
      (''shardKey'', str_field (\<lambda>x. cn_ShardKey_update (\<lambda>_. x))),
      (''federationId'', str_field (\<lambda>x. cn_FederationID_update (\<lambda>_. x))),
      (''properties'', map_field cn_Properties (\<lambda>x. cn_Properties_update (\<lambda>_. x)))]"

definition no_createNode :: createNodeRequest where
  "no_createNode = \<lparr>cn_NodeID = [], cn_NodeType = [], cn_Name = [], cn_Status = [], cn_OwnerCommunityID = [],
     cn_ShardKey = [], cn_FederationID = [], cn_Properties = None\<rparr>"

text \<open>The node of a request; the service sets its times.\<close>

definition node_of_request :: "createNodeRequest \<Rightarrow> Node" where
  "node_of_request req =
     \<lparr>n_NodeID = cn_NodeID req, n_NodeType = cn_NodeType req, n_Name = cn_Name req, n_Status = cn_Status req,
      n_OwnerCommunityID = cn_OwnerCommunityID req, n_CreatedAt = 0, n_UpdatedAt = 0,
      n_ShardKey = cn_ShardKey req, n_FederationID = cn_FederationID req, n_Properties = cn_Properties req\<rparr>"

text \<open>The checks of the fields, in the order of the code.\<close>

definition create_node_check :: "Node \<Rightarrow> string option" where
  "create_node_check n =
     (if n_NodeID n = [] then Some ''nodeId must not be empty''
      else if n_NodeType n = [] then Some ''nodeType must not be empty''
      else if \<not> NodeType_Valid (n_NodeType n) then Some (''unknown nodeType: '' @ n_NodeType n)
      else if n_Name n = [] then Some ''name must not be empty''
      else if n_Status n = [] then Some ''status must not be empty''
      else if n_OwnerCommunityID n = [] then Some ''ownerCommunityId must not be empty''
      else None)"

definition H_CreateNode :: "'b env \<Rightarrow> rest_request \<Rightarrow> 'b api \<Rightarrow> response \<times> 'b api" where
  "H_CreateNode E r s =
     (case Decode (decode_struct createNode_fields no_createNode) (hr_body r) of
        Inl e \<Rightarrow> bad_json e s
      | Inr req \<Rightarrow>
        (case create_node_check (node_of_request req) of
           Some msg \<Rightarrow> bad_request msg s
         | None \<Rightarrow>
           (case with_kg (KG_RegisterNode (en_Publish E) (hr_ctx r) (Some (node_of_request req))) s of
              ((_, Some e), s1) \<Rightarrow> (handleServiceError e, s1)
            | ((n, None), s1) \<Rightarrow> (writeJSON StatusCreated (case n of None \<Rightarrow> GNil | Some n \<Rightarrow> node_json n), s1))))"

definition H_GetNode :: "rest_request \<Rightarrow> 'b api \<Rightarrow> response \<times> 'b api" where
  "H_GetNode r s =
     (let nodeID = hr_param r ''nodeId'' in
      if nodeID = [] then bad_request ''nodeId must not be empty'' s
      else case with_kg (KG_GetNode (hr_ctx r) nodeID) s of
             (Inl e, s1) \<Rightarrow> (handleServiceError e, s1)
           | (Inr n, s1) \<Rightarrow> (writeJSON StatusOK (node_json n), s1))"

definition H_UpdateNode :: "'b env \<Rightarrow> rest_request \<Rightarrow> 'b api \<Rightarrow> response \<times> 'b api" where
  "H_UpdateNode E r s =
     (let nodeID = hr_param r ''nodeId'' in
      if nodeID = [] then bad_request ''nodeId must not be empty'' s
      else case Decode decode_map (hr_body r) of
             Inl e \<Rightarrow> bad_json e s
           | Inr changes \<Rightarrow>
             (if changes = None \<or> changes = Some [] then bad_request ''changes must not be empty'' s
              else case with_kg (KG_UpdateNode (en_Publish E) (hr_ctx r) nodeID (the changes)) s of
                     (Inl e, s1) \<Rightarrow> (handleServiceError e, s1)
                   | (Inr n, s1) \<Rightarrow> (writeJSON StatusOK (node_json n), s1)))"

definition H_DeleteNode :: "'b env \<Rightarrow> rest_request \<Rightarrow> 'b api \<Rightarrow> response \<times> 'b api" where
  "H_DeleteNode E r s =
     (let nodeID = hr_param r ''nodeId'' in
      if nodeID = [] then bad_request ''nodeId must not be empty'' s
      else case with_kg (KG_GetNode (hr_ctx r) nodeID) s of
             (Inl e, s1) \<Rightarrow> (handleServiceError e, s1)
           | (Inr _, s1) \<Rightarrow>
             (case with_kg (KG_DeleteNode (en_Publish E) (hr_ctx r) nodeID) s1 of
                (Some e, s2) \<Rightarrow> (handleServiceError e, s2)
              | (None, s2) \<Rightarrow> (no_content, s2)))"

text \<open>A query value that is not a number in range leaves the default.\<close>

definition query_int :: "(int \<Rightarrow> bool) \<Rightarrow> string \<Rightarrow> int" where
  "query_int ok v = (case strconv_Atoi v of Inl _ \<Rightarrow> 0 | Inr n \<Rightarrow> if ok n then n else 0)"

definition list_options :: "rest_request \<Rightarrow> ListOptions" where
  "list_options r =
     \<lparr>lo_NodeType = hr_query r ''nodeType'', lo_OwnerCommunityID = hr_query r ''communityId'',
      lo_Status = hr_query r ''status'', lo_Limit = query_int (\<lambda>n. 0 < n) (hr_query r ''limit''),
      lo_Offset = query_int (\<lambda>n. 0 \<le> n) (hr_query r ''offset'')\<rparr>"

definition H_ListNodes :: "rest_request \<Rightarrow> 'b api \<Rightarrow> response \<times> 'b api" where
  "H_ListNodes r s =
     (case with_kg (KG_ListNodes (hr_ctx r) (list_options r)) s of
        (Inl e, s1) \<Rightarrow> (handleServiceError e, s1)
      | (Inr ns, s1) \<Rightarrow> (writeJSON StatusOK (slice_json node_json ns), s1))"

subsection \<open>Relationships and the graph\<close>

record createRelationshipRequest =
  cr_ToNodeID :: string
  cr_RelType :: string
  cr_Properties :: "gomap option"

definition createRelationship_fields :: "createRelationshipRequest fields" where
  "createRelationship_fields =
     [(''toNodeId'', str_field (\<lambda>x. cr_ToNodeID_update (\<lambda>_. x))),
      (''relType'', str_field (\<lambda>x. cr_RelType_update (\<lambda>_. x))),
      (''properties'', map_field cr_Properties (\<lambda>x. cr_Properties_update (\<lambda>_. x)))]"

definition no_createRelationship :: createRelationshipRequest where
  "no_createRelationship = \<lparr>cr_ToNodeID = [], cr_RelType = [], cr_Properties = None\<rparr>"

text \<open>The service gets a pointer to the relationship: on success the time it set is in the answer.\<close>

definition new_relationship :: "world \<Rightarrow> string \<Rightarrow> string \<Rightarrow> string \<Rightarrow> gomap option \<Rightarrow> Relationship" where
  "new_relationship w from to relType props =
     \<lparr>r_RelID = uuid_of w, r_FromNodeID = from, r_ToNodeID = to, r_RelType = relType,
      r_Properties = props, r_CreatedAt = 0\<rparr>"

definition H_CreateRelationship :: "'b env \<Rightarrow> rest_request \<Rightarrow> 'b api \<Rightarrow> response \<times> 'b api" where
  "H_CreateRelationship E r s =
     (let fromID = hr_param r ''nodeId'' in
      if fromID = [] then bad_request ''nodeId must not be empty'' s
      else case Decode (decode_struct createRelationship_fields no_createRelationship) (hr_body r) of
             Inl e \<Rightarrow> bad_json e s
           | Inr req \<Rightarrow>
             (if cr_ToNodeID req = [] then bad_request ''toNodeId must not be empty'' s
              else if cr_RelType req = [] then bad_request ''relType must not be empty'' s
              else if \<not> RelType_Valid (cr_RelType req) then bad_request (''unknown relType: '' @ cr_RelType req) s
              else
                (let rel = new_relationship (ap_world s) fromID (cr_ToNodeID req) (cr_RelType req) (cr_Properties req);
                     s0 = tick_api s
                 in case with_kg (KG_CreateRelationship (en_Publish E) (hr_ctx r) (Some rel)) s0 of
                      (Some e, s1) \<Rightarrow> (handleServiceError e, s1)
                    | (None, s1) \<Rightarrow>
                      (writeJSON StatusCreated (rel_json (rel\<lparr>r_CreatedAt := now_of (ap_world s0)\<rparr>)), s1))))"

definition H_DeleteRelationship :: "'b env \<Rightarrow> rest_request \<Rightarrow> 'b api \<Rightarrow> response \<times> 'b api" where
  "H_DeleteRelationship E r s =
     (let relID = hr_param r ''relId'' in
      if relID = [] then bad_request ''relId must not be empty'' s
      else case with_kg (KG_DeleteRelationship (en_Publish E) (hr_ctx r) relID) s of
             (Some e, s1) \<Rightarrow> (handleServiceError e, s1)
           | (None, s1) \<Rightarrow> (no_content, s1))"

definition traverse_options :: "rest_request \<Rightarrow> TraverseOptions" where
  "traverse_options r =
     (let depth = query_int (\<lambda>n. 0 < n) (hr_query r ''depth'') in
      \<lparr>to_RelType = hr_query r ''relType'',
       to_Direction = (if hr_query r ''direction'' = [] then ''out'' else hr_query r ''direction''),
       to_MaxDepth = (if depth = 0 then 1 else depth)\<rparr>)"

definition H_TraverseGraph :: "rest_request \<Rightarrow> 'b api \<Rightarrow> response \<times> 'b api" where
  "H_TraverseGraph r s =
     (let nodeID = hr_param r ''nodeId'' in
      if nodeID = [] then bad_request ''nodeId must not be empty'' s
      else case with_kg (TraverseGraph (hr_ctx r) nodeID (traverse_options r)) s of
             (Inl e, s1) \<Rightarrow> (handleServiceError e, s1)
           | (Inr rs, s1) \<Rightarrow> (writeJSON StatusOK (slice_json rel_json rs), s1))"

subsection \<open>Events and schemas\<close>

text \<open>
  Server-sent events. What the loop finds ready in its \<open>select\<close>: the request's context ends, the
  channel is closed, or an event comes. An event that cannot be encoded is skipped.
\<close>

definition subscribe_options :: "rest_request \<Rightarrow> SubscribeOptions" where
  "subscribe_options r =
     \<lparr>so_EventTypes = (let types = hr_query r ''types'' in if types = [] then [] else clean_types (split_at CHR '','' types)),
      so_BufferSize = 0\<rparr>"

datatype sse_input = CtxDone | ChClosed | Incoming Event

fun sse_loop :: "sse_input list \<Rightarrow> goval list" where
  "sse_loop [] = []"
| "sse_loop (CtxDone # ins) = []"
| "sse_loop (ChClosed # ins) = []"
| "sse_loop (Incoming e # ins) =
     (case json_norm (event_json e) of Inl _ \<Rightarrow> sse_loop ins | Inr data \<Rightarrow> data # sse_loop ins)"

text \<open>A writer that cannot flush gets an error; else the subscription is made, with its number.\<close>

definition H_SubscribeEvents :: "'b env \<Rightarrow> bool \<Rightarrow> rest_request \<Rightarrow> 'b api \<Rightarrow> (response + nat) \<times> 'b api" where
  "H_SubscribeEvents E flusher r s =
     (if \<not> flusher then (Inl (writeError StatusInternalServerError ''server does not support SSE''), s)
      else case en_Subscribe E (subscribe_options r) (ap_bus s) of (k, b) \<Rightarrow> (Inr k, s\<lparr>ap_bus := b\<rparr>))"

record replayRequest =
  rp_EventTypes :: "string list"
  rp_SourceNodeID :: string
  rp_StartTime :: string
  rp_EndTime :: string
  rp_Limit :: int

definition replay_fields :: "replayRequest fields" where
  "replay_fields =
     [(''eventTypes'', strs_field (\<lambda>x. rp_EventTypes_update (\<lambda>_. x))),
      (''sourceNodeId'', str_field (\<lambda>x. rp_SourceNodeID_update (\<lambda>_. x))),
      (''startTime'', str_field (\<lambda>x. rp_StartTime_update (\<lambda>_. x))),
      (''endTime'', str_field (\<lambda>x. rp_EndTime_update (\<lambda>_. x))),
      (''limit'', int_field (\<lambda>x. rp_Limit_update (\<lambda>_. x)))]"

definition no_replay :: replayRequest where
  "no_replay = \<lparr>rp_EventTypes = [], rp_SourceNodeID = [], rp_StartTime = [], rp_EndTime = [], rp_Limit = 0\<rparr>"

text \<open>An optional time; \<open>None\<close> is a text that does not parse.\<close>

definition optional_time :: "string \<Rightarrow> time option option" where
  "optional_time s = (if s = [] then Some None else map_option Some (parse_time s))"

text \<open>The options of a replay, or the name of the field that is not a time.\<close>

definition replay_options :: "replayRequest \<Rightarrow> string + ReplayOptions" where
  "replay_options req =
     (case optional_time (rp_StartTime req) of
        None \<Rightarrow> Inl ''startTime''
      | Some st \<Rightarrow>
        (case optional_time (rp_EndTime req) of
           None \<Rightarrow> Inl ''endTime''
         | Some et \<Rightarrow> Inr \<lparr>ro_EventTypes = clean_types (rp_EventTypes req), ro_SourceNodeID = rp_SourceNodeID req,
             ro_StartTime = st, ro_EndTime = et, ro_Limit = rp_Limit req\<rparr>))"

definition H_ReplayEvents :: "'b env \<Rightarrow> rest_request \<Rightarrow> 'b api \<Rightarrow> response \<times> 'b api" where
  "H_ReplayEvents E r s =
     (case Decode (decode_struct replay_fields no_replay) (hr_body r) of
        Inl e \<Rightarrow> bad_json e s
      | Inr req \<Rightarrow>
        (case replay_options req of
           Inl what \<Rightarrow> bad_request (what @ '' is not RFC3339'') s
         | Inr opts \<Rightarrow>
           (case en_Replay E (hr_ctx r) opts (ap_bus s) of
              (Inl e, b) \<Rightarrow> (handleServiceError e, s\<lparr>ap_bus := b\<rparr>)
            | (Inr es, b) \<Rightarrow> (writeJSON StatusOK (slice_json event_json es), s\<lparr>ap_bus := b\<rparr>))))"

definition H_ListSchemas :: "'b env \<Rightarrow> 'b api \<Rightarrow> response \<times> 'b api" where
  "H_ListSchemas E s =
     (writeJSON StatusOK (made_json schema_json
        (ListSchemas (en_order E (dom (sr_schemas (ap_registry s)))) (ap_registry s))), s)"

subsection \<open>Plugins\<close>

definition manifest_json :: "Manifest \<Rightarrow> goval" where
  "manifest_json m = GStruct
     [(''name'', GStr (mf_Name m)), (''version'', GStr (mf_Version m)), (''description'', GStr (mf_Description m)),
      (''author'', GStr (mf_Author m)), (''extensionPoints'', slice_json GStr (mf_ExtensionPoints m)),
      (''permissions'', slice_json GStr (mf_Permissions m)),
      (''dependencies'', if mf_Dependencies m = [] then GNil else GMap (map (map_prod id GStr) (mf_Dependencies m))),
      (''entryPoint'', GStr (mf_EntryPoint m))]"

definition plugin_json :: "PluginInstance \<Rightarrow> goval" where
  "plugin_json p = GStruct
     [(''Manifest'', manifest_json (pi_Manifest p)), (''Status'', GStr (pi_Status p)),
      (''Error'', GStr (case pi_Error p of None \<Rightarrow> [] | Some e \<Rightarrow> err_Error e))]"

definition H_ListPlugins :: "'b env \<Rightarrow> 'b api \<Rightarrow> response \<times> 'b api" where
  "H_ListPlugins E s =
     (case ap_plugins s of
        None \<Rightarrow> (writeJSON StatusOK (GList []), s)
      | Some m \<Rightarrow> (writeJSON StatusOK (made_json plugin_json (ListPlugins (en_order E (dom (pm_plugins m))) m)), s))"

definition H_UnloadPlugin :: "rest_request \<Rightarrow> 'b api \<Rightarrow> response \<times> 'b api" where
  "H_UnloadPlugin r s =
     (case ap_plugins s of
        None \<Rightarrow> (writeError StatusServiceUnavailable ''plugin management is not enabled'', s)
      | Some m \<Rightarrow>
        (let name = hr_param r ''name'' in
         if name = [] then bad_request ''name must not be empty'' s
         else case Unload name m of
                (Some e, m1) \<Rightarrow> (writeError StatusNotFound (err_Error e), s)
              | (None, m1) \<Rightarrow> (no_content, s\<lparr>ap_plugins := Some m1\<rparr>)))"

subsection \<open>Health and metrics\<close>

text \<open>A ping of the database is one call to the driver.\<close>

definition ping_db :: "ctx \<Rightarrow> 'b api \<Rightarrow> verdict \<times> 'b api" where
  "ping_db c s =
     (case ctx_err c of
        Some e \<Rightarrow> (Some e, s)
      | None \<Rightarrow> (next_fault (kg_db (ap_kg s)), s\<lparr>ap_kg := (ap_kg s)\<lparr>kg_db := consume (kg_db (ap_kg s))\<rparr>\<rparr>))"

definition dep_json :: "verdict \<Rightarrow> goval" where
  "dep_json v =
     (case v of None \<Rightarrow> GMap [(''status'', GStr ''up'')]
      | Some e \<Rightarrow> GMap [(''status'', GStr ''down''), (''error'', GStr (err_Error e))])"

definition H_Health :: "'b env \<Rightarrow> rest_request \<Rightarrow> 'b api \<Rightarrow> response \<times> 'b api" where
  "H_Health E r s =
     (let (db, s1) = (if ap_db s then map_prod Some id (ping_db (hr_ctx r) s) else (None, s));
          bus = en_Ping E (hr_ctx r) (ap_bus s1);
          degraded = (db \<noteq> None \<and> db \<noteq> Some None) \<or> bus \<noteq> None;
          t1 = now_of (ap_world s1) - ap_startTime s;
          t2 = now_of (tick (ap_world s1)) - ap_startTime s
      in (writeJSON (if degraded then StatusServiceUnavailable else StatusOK)
           (GMap [(''status'', GStr (if degraded then ''degraded'' else ''ok'')), (''version'', GStr (ap_version s)),
                  (''uptime'', GStr (en_DurationString E t1)), (''uptimeMs'', GInt (t2 div millisecond)),
                  (''deps'', GMap ((case db of None \<Rightarrow> [] | Some v \<Rightarrow> [(''database'', dep_json v)]) @
                     [(''bus'', dep_json bus)]))]),
          tick_api (tick_api s1)))"

text \<open>\<open>Duration.Seconds\<close>: whole seconds and the rest are converted apart, division truncates.\<close>

definition Seconds :: "duration \<Rightarrow> float64" where
  "Seconds d =
     (let sec = sgn d * (\<bar>d\<bar> div second) in
      f64_add (Fin (f64_of_int sec)) (f64_div (Fin (f64_of_int (d - sec * second))) (Fin 1000000000)))"

definition writePromMetric :: "'b env \<Rightarrow> string \<Rightarrow> string \<Rightarrow> string \<Rightarrow> float64 \<Rightarrow> string" where
  "writePromMetric E name metricType help v =
     ''# HELP '' @ name @ '' '' @ help @ [newline] @
     ''# TYPE '' @ name @ '' '' @ metricType @ [newline] @
     name @ '' '' @ en_FormatFloat E v @ [newline]"

definition int_metric :: "'b env \<Rightarrow> string \<Rightarrow> string \<Rightarrow> string \<Rightarrow> int \<Rightarrow> string" where
  "int_metric E name metricType help n = writePromMetric E name metricType help (Fin (f64_of_int n))"

definition H_Metrics :: "'b env \<Rightarrow> 'b api \<Rightarrow> response \<times> 'b api" where
  "H_Metrics E s =
     (\<lparr>rs_status = StatusOK, rs_body = Text
        ((case ap_pipeline s of
            None \<Rightarrow> []
          | Some p \<Rightarrow> (let m = tp_metrics p in
              int_metric E ''aos_telemetry_ingress_total'' ''counter'' ''telemetry messages in'' (int (tm_IngressQPS m)) @
              int_metric E ''aos_telemetry_parse_latency_us'' ''gauge'' ''latest parse latency'' (tm_ParseLatency m) @
              int_metric E ''aos_telemetry_drop_total'' ''counter'' ''telemetry messages dropped'' (int (tm_DropCount m)))) @
         (case ap_cmdPipeline s of
            None \<Rightarrow> []
          | Some p \<Rightarrow> (let m = Metrics_Snapshot (cp_metrics p) in
              int_metric E ''aos_command_sent_total'' ''counter'' ''commands sent'' (m_TotalSent m) @
              int_metric E ''aos_command_acked_total'' ''counter'' ''commands acknowledged'' (m_TotalAcked m) @
              int_metric E ''aos_command_failed_total'' ''counter'' ''commands failed'' (m_TotalFailed m) @
              int_metric E ''aos_command_timeout_total'' ''counter'' ''commands timed out'' (m_TotalTimeout m) @
              int_metric E ''aos_command_send_latency_us'' ''gauge'' ''latest send latency'' (m_SendLatency m) @
              int_metric E ''aos_command_success_rate'' ''gauge'' ''success rate'' (m_SuccessRate m))) @
         writePromMetric E ''aos_uptime_seconds'' ''gauge'' ''uptime''
           (Seconds (now_of (ap_world s) - ap_startTime s)))\<rparr>,
      tick_api s)"

end
