(* ===== verification/RestAuth.thy ===== *)
theory RestAuth
  imports RestHandlers
begin

text \<open>
  \<open>internal/api/rest/auth_handler.go\<close>: login, tokens, and the management of users and clients.
\<close>

subsection \<open>Requests and answers\<close>

record loginRequest =
  lr_Username :: string
  lr_Password :: string

definition login_fields :: "loginRequest fields" where
  "login_fields =
     [(''username'', str_field (\<lambda>x. lr_Username_update (\<lambda>_. x))),
      (''password'', str_field (\<lambda>x. lr_Password_update (\<lambda>_. x)))]"

record createUserRequest =
  cu_Username :: string
  cu_Password :: string
  cu_Roles :: "string list"
  cu_CommunityID :: string

definition createUser_fields :: "createUserRequest fields" where
  "createUser_fields =
     [(''username'', str_field (\<lambda>x. cu_Username_update (\<lambda>_. x))),
      (''password'', str_field (\<lambda>x. cu_Password_update (\<lambda>_. x))),
      (''roles'', strs_field (\<lambda>x. cu_Roles_update (\<lambda>_. x))),
      (''communityId'', str_field (\<lambda>x. cu_CommunityID_update (\<lambda>_. x)))]"

record createClientRequest =
  cc_Name :: string
  cc_ModuleName :: string
  cc_CommunityID :: string
  cc_Roles :: "string list"

definition createClient_fields :: "createClientRequest fields" where
  "createClient_fields =
     [(''name'', str_field (\<lambda>x. cc_Name_update (\<lambda>_. x))),
      (''moduleName'', str_field (\<lambda>x. cc_ModuleName_update (\<lambda>_. x))),
      (''communityId'', str_field (\<lambda>x. cc_CommunityID_update (\<lambda>_. x))),
      (''roles'', strs_field (\<lambda>x. cc_Roles_update (\<lambda>_. x)))]"

record exchangeTokenRequest =
  et_ApiKey :: string

definition exchangeToken_fields :: "exchangeTokenRequest fields" where
  "exchangeToken_fields = [(''apiKey'', str_field (\<lambda>x. et_ApiKey_update (\<lambda>_. x)))]"

definition user_json :: "User \<Rightarrow> goval" where
  "user_json u = GStruct
     ([(''userId'', GStr (u_UserID u)), (''username'', GStr (u_Username u)), (''roles'', made_json GStr (u_Roles u))] @
      omit_str ''communityId'' (u_CommunityID u) @
      [(''createdAt'', GTime (u_CreatedAt u)), (''updatedAt'', GTime (u_UpdatedAt u))])"

definition client_json :: "Client \<Rightarrow> goval" where
  "client_json c = GStruct
     ([(''clientId'', GStr (c_ClientID c)), (''name'', GStr (c_Name c))] @ omit_str ''moduleName'' (c_ModuleName c) @
      omit_str ''communityId'' (c_CommunityID c) @
      [(''roles'', made_json GStr (c_Roles c)), (''status'', GStr (c_Status c)),
       (''createdAt'', GTime (c_CreatedAt c)), (''updatedAt'', GTime (c_UpdatedAt c))])"

definition loginResponse :: "string \<Rightarrow> int \<Rightarrow> goval" where
  "loginResponse token expiresIn = GStruct [(''token'', GStr token), (''expiresIn'', GInt expiresIn)]"

definition expires_in :: "TokenManager \<Rightarrow> int" where
  "expires_in tm = f64_to_int64 (Seconds (Duration tm))"

definition token_answer :: "string \<Rightarrow> 'b api \<Rightarrow> response" where
  "token_answer token s = writeJSON StatusOK (loginResponse token (if ap_tokenMgr s then expires_in (ap_tm s) else 0))"

text \<open>\<open>decodeJSONBody\<close>: the answer is written on failure.\<close>

definition decodeJSONBody :: "(json \<Rightarrow> 'q res) \<Rightarrow> rest_request \<Rightarrow> response + 'q" where
  "decodeJSONBody decode r =
     (case Decode decode (hr_body r) of
        Inl e \<Rightarrow> Inl (writeError StatusBadRequest (''request body is not valid JSON: '' @ err_Error e))
      | Inr req \<Rightarrow> Inr req)"

text \<open>The first role that is not built in.\<close>

definition unknown_role :: "string list \<Rightarrow> string option" where
  "unknown_role roles = find (\<lambda>r. DefaultRoles r = None) roles"

definition no_clients :: "'b api \<Rightarrow> response \<times> 'b api" where
  "no_clients s = (writeError StatusServiceUnavailable ''client service is not enabled'', s)"

definition no_auth :: "'b api \<Rightarrow> response \<times> 'b api" where
  "no_auth s = (writeError StatusServiceUnavailable ''authentication service is not enabled'', s)"

subsection \<open>Clients\<close>

definition H_ListClients :: "rest_request \<Rightarrow> 'b api \<Rightarrow> response \<times> 'b api" where
  "H_ListClients r s =
     (case ap_clientSvc s of
        None \<Rightarrow> no_clients s
      | Some db \<Rightarrow>
        (case ListClients (hr_ctx r) db of
           (Inl e, db1) \<Rightarrow> (writeError StatusInternalServerError ''client list query failed'', s\<lparr>ap_clientSvc := Some db1\<rparr>)
         | (Inr cs, db1) \<Rightarrow> (writeJSON StatusOK (slice_json client_json cs), s\<lparr>ap_clientSvc := Some db1\<rparr>)))"

definition H_CreateClient :: "'b env \<Rightarrow> rest_request \<Rightarrow> 'b api \<Rightarrow> response \<times> 'b api" where
  "H_CreateClient E r s =
     (case ap_clientSvc s of
        None \<Rightarrow> no_clients s
      | Some db \<Rightarrow>
        (case decodeJSONBody (decode_struct createClient_fields
              \<lparr>cc_Name = [], cc_ModuleName = [], cc_CommunityID = [], cc_Roles = []\<rparr>) r of
           Inl answer \<Rightarrow> (answer, s)
         | Inr req \<Rightarrow>
           (if cc_Name req = [] then bad_request ''name must not be empty'' s
            else case unknown_role (cc_Roles req) of
                   Some role \<Rightarrow> bad_request (''unknown role: '' @ role) s
                 | None \<Rightarrow>
                   (let client = \<lparr>c_ClientID = [], c_Name = cc_Name req, c_ModuleName = cc_ModuleName req,
                          c_CommunityID = cc_CommunityID req, c_Roles = cc_Roles req, c_APIKeyHash = [], c_Status = [],
                          c_CreatedAt = 0, c_UpdatedAt = 0\<rparr>
                    in case CreateClient (en_crypt E) (hr_ctx r) (ap_world s) (Some client) db of
                         ((_, Inl e), db1) \<Rightarrow> bad_request (err_Error e) ((tick_api s)\<lparr>ap_clientSvc := Some db1\<rparr>)
                       | ((c, Inr apiKey), db1) \<Rightarrow>
                         (writeJSON StatusCreated (GStruct
                            [(''client'', case c of None \<Rightarrow> GNil | Some c \<Rightarrow> client_json c), (''apiKey'', GStr apiKey)]),
                          (tick_api s)\<lparr>ap_clientSvc := Some db1\<rparr>)))))"

definition H_GetClient :: "rest_request \<Rightarrow> 'b api \<Rightarrow> response \<times> 'b api" where
  "H_GetClient r s =
     (case ap_clientSvc s of
        None \<Rightarrow> no_clients s
      | Some db \<Rightarrow>
        (let k = hr_param r ''clientId'' in
         if k = [] then bad_request ''clientId must not be empty'' s
         else case GetClient (hr_ctx r) k db of
                (Inl e, db1) \<Rightarrow>
                  ((if errors_Is e ErrClientNotFound then writeError StatusNotFound ''no such client''
                    else writeError StatusInternalServerError ''client query failed''), s\<lparr>ap_clientSvc := Some db1\<rparr>)
              | (Inr c, db1) \<Rightarrow> (writeJSON StatusOK (client_json c), s\<lparr>ap_clientSvc := Some db1\<rparr>)))"

definition H_RevokeClient :: "rest_request \<Rightarrow> 'b api \<Rightarrow> response \<times> 'b api" where
  "H_RevokeClient r s =
     (case ap_clientSvc s of
        None \<Rightarrow> no_clients s
      | Some db \<Rightarrow>
        (let k = hr_param r ''clientId'' in
         if k = [] then bad_request ''clientId must not be empty'' s
         else case RevokeClient (hr_ctx r) k db of
                (Some e, db1) \<Rightarrow>
                  ((if errors_Is e ErrClientNotFound then writeError StatusNotFound ''no such client''
                    else writeError StatusInternalServerError ''client revocation failed''), s\<lparr>ap_clientSvc := Some db1\<rparr>)
              | (None, db1) \<Rightarrow> (no_content, s\<lparr>ap_clientSvc := Some db1\<rparr>)))"

definition H_ExchangeToken :: "'b env \<Rightarrow> rest_request \<Rightarrow> 'b api \<Rightarrow> response \<times> 'b api" where
  "H_ExchangeToken E r s =
     (case ap_clientSvc s of
        None \<Rightarrow> no_clients s
      | Some db \<Rightarrow>
        (case decodeJSONBody (decode_struct exchangeToken_fields \<lparr>et_ApiKey = []\<rparr>) r of
           Inl answer \<Rightarrow> (answer, s)
         | Inr req \<Rightarrow>
           (if et_ApiKey req = [] then bad_request ''apiKey must not be empty'' s
            else case ExchangeAPIKey (en_jwt E) (en_crypt E) (ap_tm s) (hr_ctx r) (now_of (ap_world s)) (et_ApiKey req) db of
                   (Inl e, db1) \<Rightarrow>
                     ((if errors_Is e ErrInvalidCredentials then writeError StatusUnauthorized ''apiKey invalid or revoked''
                       else writeError StatusInternalServerError ''token exchange failed''),
                      (tick_api s)\<lparr>ap_clientSvc := Some db1\<rparr>)
                 | (Inr (tok, _), db1) \<Rightarrow> (token_answer tok s, (tick_api s)\<lparr>ap_clientSvc := Some db1\<rparr>))))"

subsection \<open>Login and tokens\<close>

definition H_Login :: "'b env \<Rightarrow> rest_request \<Rightarrow> 'b api \<Rightarrow> response \<times> 'b api" where
  "H_Login E r s =
     (if \<not> ap_authSvc s then no_auth s
      else case decodeJSONBody (decode_struct login_fields \<lparr>lr_Username = [], lr_Password = []\<rparr>) r of
             Inl answer \<Rightarrow> (answer, s)
           | Inr req \<Rightarrow>
             (if lr_Username req = [] \<or> lr_Password req = [] then bad_request ''username and password must not be empty'' s
              else case Login (en_jwt E) (en_crypt E) (ap_tm s) (hr_ctx r) (now_of (ap_world s)) (lr_Username req)
                     (lr_Password req) (ap_users s) of
                     (Inl e, db1) \<Rightarrow>
                       ((if errors_Is e ErrInvalidCredentials then writeError StatusUnauthorized ''wrong user name or password''
                         else writeError StatusInternalServerError ''login failed''), (tick_api s)\<lparr>ap_users := db1\<rparr>)
                   | (Inr tok, db1) \<Rightarrow> (token_answer tok s, (tick_api s)\<lparr>ap_users := db1\<rparr>)))"

text \<open>Unlike the filter's, this extraction does not trim.\<close>

definition extractToken :: "rest_request \<Rightarrow> string" where
  "extractToken r =
     (let h = rq_Authorization (hr_http r) in
      if length h \<le> length ''Bearer '' then []
      else if take (length ''Bearer '') h \<noteq> ''Bearer '' then []
      else drop (length ''Bearer '') h)"

definition H_RefreshToken :: "'b env \<Rightarrow> rest_request \<Rightarrow> 'b api \<Rightarrow> response \<times> 'b api" where
  "H_RefreshToken E r s =
     (if \<not> ap_tokenMgr s then no_auth s
      else
        (let tok = extractToken r in
         if tok = [] then (writeError StatusUnauthorized ''missing token'', s)
         else case Refresh (en_jwt E) (ap_tm s) (now_of (ap_world s)) tok of
                Inl e \<Rightarrow> (writeError StatusUnauthorized ''invalid token'', tick_api s)
              | Inr new \<Rightarrow> (token_answer new s, tick_api s)))"

definition claims_json :: "Claims \<Rightarrow> goval" where
  "claims_json cl = GMap
     [(''userId'', GStr (cl_UserID cl)), (''username'', GStr (cl_Username cl)), (''roles'', made_json GStr (cl_Roles cl)),
      (''communityId'', GStr (cl_CommunityID cl))]"

definition H_GetMe :: "rest_request \<Rightarrow> 'b api \<Rightarrow> response \<times> 'b api" where
  "H_GetMe r s =
     (case ClaimsFromContext (hr_http r) of
        None \<Rightarrow> (writeError StatusUnauthorized ''unauthenticated'', s)
      | Some cl \<Rightarrow>
        (if ap_authSvc s then
           (case GetUser (hr_ctx r) (cl_UserID cl) (ap_users s) of
              (Inr u, db1) \<Rightarrow> (writeJSON StatusOK (user_json u), s\<lparr>ap_users := db1\<rparr>)
            | (Inl _, db1) \<Rightarrow> (writeJSON StatusOK (claims_json cl), s\<lparr>ap_users := db1\<rparr>))
         else (writeJSON StatusOK (claims_json cl), s)))"

subsection \<open>Users\<close>

definition H_ListUsers :: "rest_request \<Rightarrow> 'b api \<Rightarrow> response \<times> 'b api" where
  "H_ListUsers r s =
     (if \<not> ap_authSvc s then no_auth s
      else case ListUsers (hr_ctx r) (ap_users s) of
             (Inl e, db1) \<Rightarrow> (writeError StatusInternalServerError ''user list query failed'', s\<lparr>ap_users := db1\<rparr>)
           | (Inr us, db1) \<Rightarrow> (writeJSON StatusOK (slice_json user_json us), s\<lparr>ap_users := db1\<rparr>))"

definition H_CreateUser :: "'b env \<Rightarrow> rest_request \<Rightarrow> 'b api \<Rightarrow> response \<times> 'b api" where
  "H_CreateUser E r s =
     (if \<not> ap_authSvc s then no_auth s
      else case decodeJSONBody (decode_struct createUser_fields
             \<lparr>cu_Username = [], cu_Password = [], cu_Roles = [], cu_CommunityID = []\<rparr>) r of
             Inl answer \<Rightarrow> (answer, s)
           | Inr req \<Rightarrow>
             (if cu_Username req = [] then bad_request ''username must not be empty'' s
              else if cu_Password req = [] then bad_request ''password must not be empty'' s
              else if cu_Roles req = [] then bad_request ''roles must not be empty'' s
              else case unknown_role (cu_Roles req) of
                     Some role \<Rightarrow> bad_request (''unknown role: '' @ role) s
                   | None \<Rightarrow>
                     (let user = \<lparr>u_UserID = [], u_Username = cu_Username req, u_Password = [], u_Roles = cu_Roles req,
                            u_CommunityID = cu_CommunityID req, u_CreatedAt = 0, u_UpdatedAt = 0\<rparr>
                      in case CreateUser (en_crypt E) (hr_ctx r) (ap_world s) (Some user) (cu_Password req) (ap_users s) of
                           ((_, Some e), db1) \<Rightarrow> bad_request (err_Error e) ((tick_api s)\<lparr>ap_users := db1\<rparr>)
                         | ((u, None), db1) \<Rightarrow>
                           (writeJSON StatusCreated (case u of None \<Rightarrow> GNil | Some u \<Rightarrow> user_json u),
                            (tick_api s)\<lparr>ap_users := db1\<rparr>))))"

definition H_GetUser :: "rest_request \<Rightarrow> 'b api \<Rightarrow> response \<times> 'b api" where
  "H_GetUser r s =
     (if \<not> ap_authSvc s then no_auth s
      else
        (let k = hr_param r ''userId'' in
         if k = [] then bad_request ''userId must not be empty'' s
         else case GetUser (hr_ctx r) k (ap_users s) of
                (Inl e, db1) \<Rightarrow>
                  ((if errors_Is e ErrUserNotFound then writeError StatusNotFound ''no such user''
                    else writeError StatusInternalServerError ''user query failed''), s\<lparr>ap_users := db1\<rparr>)
              | (Inr u, db1) \<Rightarrow> (writeJSON StatusOK (user_json u), s\<lparr>ap_users := db1\<rparr>)))"

definition H_DeleteUser :: "rest_request \<Rightarrow> 'b api \<Rightarrow> response \<times> 'b api" where
  "H_DeleteUser r s =
     (if \<not> ap_authSvc s then no_auth s
      else
        (let k = hr_param r ''userId'' in
         if k = [] then bad_request ''userId must not be empty'' s
         else case DeleteUser (hr_ctx r) k (ap_users s) of
                (Some e, db1) \<Rightarrow> (writeError StatusInternalServerError (err_Error e), s\<lparr>ap_users := db1\<rparr>)
              | (None, db1) \<Rightarrow> (no_content, s\<lparr>ap_users := db1\<rparr>)))"

end
