(* ===== verification/RestPipelines.thy ===== *)
theory RestPipelines
  imports RestHandlers
begin

text \<open>
  \<open>internal/api/rest/handler.go\<close>, second half: the handlers of telemetry, commands and usage.
\<close>

subsection \<open>Telemetry\<close>

record nameRequest =
  nr_Name :: string

definition name_fields :: "nameRequest fields" where
  "name_fields = [(''name'', str_field (\<lambda>x. nr_Name_update (\<lambda>_. x)))]"

record dataRequest =
  dr_Data :: string

definition data_fields :: "dataRequest fields" where
  "data_fields = [(''data'', str_field (\<lambda>x. dr_Data_update (\<lambda>_. x)))]"

definition frame_fields :: "TelemetryFrame fields" where
  "frame_fields =
     [(''satelliteId'', str_field (\<lambda>x. tf_SatelliteID_update (\<lambda>_. x))),
      (''timestamp'', time_field (\<lambda>x. tf_Timestamp_update (\<lambda>_. x))),
      (''parameters'', map_field tf_Parameters (\<lambda>x. tf_Parameters_update (\<lambda>_. x))),
      (''quality'', str_field (\<lambda>x. tf_Quality_update (\<lambda>_. x)))]"

definition no_frame :: TelemetryFrame where
  "no_frame = \<lparr>tf_SatelliteID = [], tf_Timestamp = 0, tf_Parameters = None, tf_Quality = []\<rparr>"

fun decode_frames :: "json list \<Rightarrow> TelemetryFrame list res" where
  "decode_frames [] = Inr []"
| "decode_frames (d # ds) =
     (case decode_struct frame_fields no_frame d of Inl e \<Rightarrow> Inl e
      | Inr f \<Rightarrow> (case decode_frames ds of Inl e \<Rightarrow> Inl e | Inr fs \<Rightarrow> Inr (f # fs)))"

record framesRequest =
  fr_Frames :: "TelemetryFrame list"

definition frames_field :: "json \<Rightarrow> framesRequest \<Rightarrow> framesRequest res" where
  "frames_field d r =
     (case d of
        JNull \<Rightarrow> Inr (r\<lparr>fr_Frames := []\<rparr>)
      | JArr ds \<Rightarrow> (case decode_frames ds of Inl e \<Rightarrow> Inl e | Inr fs \<Rightarrow> Inr (r\<lparr>fr_Frames := fs\<rparr>))
      | _ \<Rightarrow> Inl (type_error ''into []TelemetryFrame''))"

definition stamp_frame :: "time \<Rightarrow> TelemetryFrame \<Rightarrow> TelemetryFrame" where
  "stamp_frame now f = (if IsZero (tf_Timestamp f) then f\<lparr>tf_Timestamp := now\<rparr> else f)"

text \<open>The metering of an ingest; the clock is read once.\<close>

definition meter_ingest :: "http_request \<Rightarrow> string \<Rightarrow> int \<Rightarrow> int \<Rightarrow> 'b api \<Rightarrow> 'b api" where
  "meter_ingest rq endpoint frames bytes s =
     tick_api (s\<lparr>ap_collector :=
       RecordIngest rq (now_of (ap_world s)) endpoint ''create'' frames bytes (ap_collector s)\<rparr>)"

definition H_IngestTelemetry :: "'b env \<Rightarrow> rest_request \<Rightarrow> 'b api \<Rightarrow> response \<times> 'b api" where
  "H_IngestTelemetry E r s =
     (case ap_pipeline s of
        None \<Rightarrow> (writeError StatusServiceUnavailable ''telemetry pipeline is not enabled'', s)
      | Some p \<Rightarrow>
        (case Decode (decode_struct [(''frames'', frames_field)] \<lparr>fr_Frames = []\<rparr>) (hr_body r) of
           Inl e \<Rightarrow> bad_json e s
         | Inr req \<Rightarrow>
           (if fr_Frames req = [] then bad_request ''frames must not be empty'' s
            else
              (let frames = map (stamp_frame (now_of (ap_world s))) (fr_Frames req) in
               case with_tele (IngestFrames (en_Publish E) (hr_ctx r) frames) p (tick_api s) of
                 (Inl e, s1) \<Rightarrow> bad_request (err_Error e) s1
               | (Inr accepted, s1) \<Rightarrow>
                 (writeJSON StatusAccepted (GMap [(''status'', GStr ''accepted''), (''accepted'', GInt (int accepted)),
                     (''total'', GInt (int (length frames)))]),
                  meter_ingest (hr_http r) (hr_path r) (int (length frames)) (hr_ContentLength r) s1)))))"

definition H_ListTelemetryParsers :: "'b env \<Rightarrow> 'b api \<Rightarrow> response \<times> 'b api" where
  "H_ListTelemetryParsers E s =
     (case ap_plugins s of
        None \<Rightarrow> (writeJSON StatusOK (GMap [(''parsers'', GList []), (''active'', GStr []), (''available'', GBool False)]), s)
      | Some m \<Rightarrow>
        (writeJSON StatusOK (GMap
           [(''parsers'', made_json GStr (ListParsers (en_order E (dom (pm_parsers m))) m)),
            (''active'', GStr (case ap_pipeline s of None \<Rightarrow> [] | Some p \<Rightarrow> GetParserName p)),
            (''available'', GBool True)]), s))"

definition H_SetTelemetryParser :: "rest_request \<Rightarrow> 'b api \<Rightarrow> response \<times> 'b api" where
  "H_SetTelemetryParser r s =
     (case ap_pipeline s of
        None \<Rightarrow> (writeError StatusServiceUnavailable ''telemetry pipeline is not enabled'', s)
      | Some p \<Rightarrow>
        (case Decode (decode_struct name_fields \<lparr>nr_Name = []\<rparr>) (hr_body r) of
           Inl e \<Rightarrow> bad_json e s
         | Inr req \<Rightarrow>
           (if nr_Name req = [] then bad_request ''name must not be empty'' s
            else case with_tele (SetParser (nr_Name req)) p s of
                   (Some e, s1) \<Rightarrow> bad_request (err_Error e) s1
                 | (None, s1) \<Rightarrow> (writeJSON StatusOK (GMap [(''active'', GStr (nr_Name req))]), s1))))"

definition tele_metrics_json :: "tele_metrics \<Rightarrow> goval" where
  "tele_metrics_json m = GStruct
     [(''IngressQPS'', GInt (int (tm_IngressQPS m))), (''ParseLatency'', GInt (tm_ParseLatency m)),
      (''DropCount'', GInt (int (tm_DropCount m)))]"

definition H_SendTelemetry :: "'b env \<Rightarrow> rest_request \<Rightarrow> 'b api \<Rightarrow> response \<times> 'b api" where
  "H_SendTelemetry E r s =
     (case ap_pipeline s of
        None \<Rightarrow> (writeError StatusServiceUnavailable ''telemetry pipeline is not enabled'', s)
      | Some p \<Rightarrow>
        (case Decode (decode_struct data_fields \<lparr>dr_Data = []\<rparr>) (hr_body r) of
           Inl e \<Rightarrow> bad_json e s
         | Inr req \<Rightarrow>
           (if dr_Data req = [] then bad_request ''data must not be empty'' s
            else case with_tele (\<lambda>p. case Tele_Process (en_Publish E) (hr_ctx r) (dr_Data req) p of
                     (v, q) \<Rightarrow> ((v, GetParserName q, tp_metrics q), q)) p s of
                   ((Some e, _), s1) \<Rightarrow> bad_request (err_Error e) s1
                 | ((None, name, metrics), s1) \<Rightarrow>
                   (writeJSON StatusAccepted (GMap [(''status'', GStr ''accepted''), (''parser'', GStr name),
                      (''metrics'', tele_metrics_json metrics)]), s1))))"

subsection \<open>Commands\<close>

record sendCommandRequest =
  sc_SatelliteID :: string
  sc_CommandType :: string
  sc_Parameters :: "gomap option"
  sc_Priority :: int

definition sendCommand_fields :: "sendCommandRequest fields" where
  "sendCommand_fields =
     [(''satelliteId'', str_field (\<lambda>x. sc_SatelliteID_update (\<lambda>_. x))),
      (''commandType'', str_field (\<lambda>x. sc_CommandType_update (\<lambda>_. x))),
      (''parameters'', map_field sc_Parameters (\<lambda>x. sc_Parameters_update (\<lambda>_. x))),
      (''priority'', int_field (\<lambda>x. sc_Priority_update (\<lambda>_. x)))]"

definition no_sendCommand :: sendCommandRequest where
  "no_sendCommand = \<lparr>sc_SatelliteID = [], sc_CommandType = [], sc_Parameters = None, sc_Priority = 0\<rparr>"

definition no_commands :: "'b api \<Rightarrow> response \<times> 'b api" where
  "no_commands s = (writeError StatusServiceUnavailable ''command pipeline is not enabled'', s)"

definition H_SendCommand :: "'b env \<Rightarrow> rest_request \<Rightarrow> 'b api \<Rightarrow> response \<times> 'b api" where
  "H_SendCommand E r s =
     (case ap_cmdPipeline s of
        None \<Rightarrow> no_commands s
      | Some p \<Rightarrow>
        (case Decode (decode_struct sendCommand_fields no_sendCommand) (hr_body r) of
           Inl e \<Rightarrow> bad_json e s
         | Inr req \<Rightarrow>
           (if sc_SatelliteID req = [] then bad_request ''satelliteId must not be empty'' s
            else if sc_CommandType req = [] then bad_request ''commandType must not be empty'' s
            else
              (let cmd = \<lparr>cmd_CommandID = uuid_of (ap_world s), cmd_SatelliteID = sc_SatelliteID req,
                     cmd_CommandType = sc_CommandType req, cmd_Parameters = sc_Parameters req\<rparr> in
               case with_cmd E (Pipeline_Send cmd (sc_Priority req)) p (tick_api s) of
                 (Some e, s1) \<Rightarrow> bad_request (err_Error e) s1
               | (None, s1) \<Rightarrow>
                 (writeJSON StatusAccepted (GMap [(''commandId'', GStr (cmd_CommandID cmd)), (''status'', GStr ''queued'')]), s1)))))"

definition ack_json :: "Ack \<Rightarrow> goval" where
  "ack_json a = GStruct [(''success'', GBool (ack_Success a)), (''message'', GStr (ack_Message a))]"

definition omit_opt :: "string \<Rightarrow> ('a \<Rightarrow> goval) \<Rightarrow> 'a option \<Rightarrow> gomap" where
  "omit_opt k f x = (case x of None \<Rightarrow> [] | Some y \<Rightarrow> [(k, f y)])"

definition status_json :: "CommandStatus \<Rightarrow> goval" where
  "status_json c = GStruct
     ([(''commandId'', GStr (cs_CommandID c)), (''satelliteId'', GStr (cs_SatelliteID c)),
       (''commandType'', GStr (cs_CommandType c))] @ omit_map ''parameters'' (cs_Parameters c) @
      [(''priority'', GInt (cs_Priority c)), (''status'', GStr (cs_Status c)), (''enqueuedAt'', GTime (cs_EnqueuedAt c))] @
      omit_opt ''sentAt'' GTime (cs_SentAt c) @ omit_opt ''ackedAt'' GTime (cs_AckedAt c) @
      [(''retryCount'', GInt (cs_RetryCount c))] @ omit_str ''error'' (cs_Error c) @ omit_opt ''ack'' ack_json (cs_Ack c))"

definition H_GetCommandStatus :: "rest_request \<Rightarrow> 'b api \<Rightarrow> response \<times> 'b api" where
  "H_GetCommandStatus r s =
     (case ap_cmdPipeline s of
        None \<Rightarrow> no_commands s
      | Some p \<Rightarrow>
        (let k = hr_param r ''commandId'' in
         if k = [] then bad_request ''commandId must not be empty'' s
         else case GetStatus k p of
                Inl e \<Rightarrow> (writeError StatusNotFound (err_Error e), s)
              | Inr c \<Rightarrow> (writeJSON StatusOK (status_json c), s)))"

definition H_CancelCommand :: "rest_request \<Rightarrow> 'b api \<Rightarrow> response \<times> 'b api" where
  "H_CancelCommand r s =
     (case ap_cmdPipeline s of
        None \<Rightarrow> no_commands s
      | Some p \<Rightarrow>
        (let k = hr_param r ''commandId'' in
         if k = [] then bad_request ''commandId must not be empty'' s
         else case Pipeline_Cancel k p of
                (Some e, p1) \<Rightarrow> bad_request (err_Error e) s
              | (None, p1) \<Rightarrow>
                (writeJSON StatusOK (GMap [(''commandId'', GStr k), (''status'', GStr ''cancelled'')]),
                 s\<lparr>ap_cmdPipeline := Some p1\<rparr>)))"

definition H_ListCommands :: "'b env \<Rightarrow> rest_request \<Rightarrow> 'b api \<Rightarrow> response \<times> 'b api" where
  "H_ListCommands E r s =
     (case ap_cmdPipeline s of
        None \<Rightarrow> no_commands s
      | Some p \<Rightarrow>
        (writeJSON StatusOK (made_json status_json
           (ListCommands (en_sortCommands E) (en_order E (dom (cp_queue p))) (hr_query r ''status'') p)), s))"

definition H_ListCommandAdapters :: "'b env \<Rightarrow> 'b api \<Rightarrow> response \<times> 'b api" where
  "H_ListCommandAdapters E s =
     (case ap_cmdPipeline s of
        None \<Rightarrow> no_commands s
      | Some p \<Rightarrow>
        (case with_cmd E (\<lambda>p. ((GetAdapterName p, Pipeline_ListAdapters p), p)) p s of
           ((active, adapters), s1) \<Rightarrow>
             (writeJSON StatusOK (GMap [(''adapters'', made_json GStr adapters), (''active'', GStr active)]), s1)))"

definition H_SetCommandAdapter :: "'b env \<Rightarrow> rest_request \<Rightarrow> 'b api \<Rightarrow> response \<times> 'b api" where
  "H_SetCommandAdapter E r s =
     (case ap_cmdPipeline s of
        None \<Rightarrow> no_commands s
      | Some p \<Rightarrow>
        (case Decode (decode_struct name_fields \<lparr>nr_Name = []\<rparr>) (hr_body r) of
           Inl e \<Rightarrow> bad_json e s
         | Inr req \<Rightarrow>
           (if nr_Name req = [] then bad_request ''name must not be empty'' s
            else case with_cmd E (SetAdapter (nr_Name req)) p s of
                   (Some e, s1) \<Rightarrow> bad_request (err_Error e) s1
                 | (None, s1) \<Rightarrow> (writeJSON StatusOK (GMap [(''active'', GStr (nr_Name req))]), s1))))"

subsection \<open>Usage\<close>

text \<open>A time parameter with its default.\<close>

definition query_time :: "string \<Rightarrow> time \<Rightarrow> string \<Rightarrow> time res" where
  "query_time what dflt v =
     (if v = [] then Inr dflt
      else case parse_time v of
             None \<Rightarrow> Inl (Wrap (what @ '' is not RFC3339'') (External ''parsing time''))
           | Some t \<Rightarrow> Inr t)"

definition parseUsageQuery :: "time \<Rightarrow> rest_request \<Rightarrow> Query res" where
  "parseUsageQuery now r =
     (case query_time ''start'' (now - 24 * hour) (hr_query r ''start'') of
        Inl e \<Rightarrow> Inl e
      | Inr st \<Rightarrow>
        (case query_time ''end'' now (hr_query r ''end'') of
           Inl e \<Rightarrow> Inl e
         | Inr et \<Rightarrow>
           (if \<not> st < et then Inl (Errorf ''end must be after start'')
            else
              (let unit = hr_query r ''unit'' in
               if unit \<noteq> [] \<and> \<not> ValidUnit unit then Inl (Errorf (''invalid unit: '' @ unit))
               else Inr \<lparr>q_TenantID = hr_query r ''tenantId'', q_ClientID = hr_query r ''clientId'',
                      q_Operation = hr_query r ''operation'', q_Unit = unit, q_HasUnit = (unit \<noteq> []),
                      q_Start = st, q_End = et\<rparr>))))"

definition aggregate_json :: "Aggregate \<Rightarrow> goval" where
  "aggregate_json a = GStruct
     [(''tenantId'', GStr (d_TenantID (a_dims a))), (''clientId'', GStr (d_ClientID (a_dims a))),
      (''endpoint'', GStr (d_Endpoint (a_dims a))), (''operation'', GStr (d_Operation (a_dims a))),
      (''unit'', GStr (d_Unit (a_dims a))), (''totalCount'', GInt (a_TotalCount a)),
      (''bucketStart'', GTime (a_BucketStart a)), (''bucketEnd'', GTime (a_BucketEnd a))]"

definition H_ListUsage :: "'b env \<Rightarrow> rest_request \<Rightarrow> 'b api \<Rightarrow> response \<times> 'b api" where
  "H_ListUsage E r s =
     (case ap_usageStore s of
        None \<Rightarrow> (writeError StatusServiceUnavailable ''usage statistics are not enabled'', s)
      | Some db \<Rightarrow>
        (case parseUsageQuery (now_of (ap_world s)) r of
           Inl e \<Rightarrow> bad_request (err_Error e) (tick_api s)
         | Inr q \<Rightarrow>
           (case AggregateByTenant (en_sortUsage E) (hr_ctx r) q db of
              (Inl e, db1) \<Rightarrow> (writeError StatusInternalServerError ''usage query failed'', (tick_api s)\<lparr>ap_usageStore := Some db1\<rparr>)
            | (Inr agg, db1) \<Rightarrow>
              (writeJSON StatusOK (GMap [(''aggregates'', slice_json aggregate_json agg), (''count'', GInt (int (length agg)))]),
               (tick_api s)\<lparr>ap_usageStore := Some db1\<rparr>))))"

end
