(* ===== verification/RestRouter.thy ===== *)
theory RestRouter
  imports RestAuth RestPipelines
begin

text \<open>
  \<open>internal/api/rest/router.go\<close> and \<open>swagger_ui.go\<close>: the table of routes with their filters, the
  dispatch of a request, and the stack of middlewares that \<open>main\<close> puts around the router. The
  matching of a path is \<open>chi\<close>'s: a request comes with the pattern it matched.
\<close>

subsection \<open>Documentation endpoints\<close>

definition get_only :: "rest_request \<Rightarrow> response \<Rightarrow> 'b api \<Rightarrow> response \<times> 'b api" where
  "get_only r answer s =
     (if hr_method r \<noteq> ''GET'' then (writeError StatusMethodNotAllowed ''only GET is supported'', s) else (answer, s))"

text \<open>\<open>strings.Replace\<close> with a count of one.\<close>

fun replace_first :: "string \<Rightarrow> string \<Rightarrow> string \<Rightarrow> string" where
  "replace_first old new s =
     (if has_prefix old s then new @ drop (length old) s
      else case s of [] \<Rightarrow> [] | c # cs \<Rightarrow> c # replace_first old new cs)"

definition specURL :: string where
  "specURL = ''/api/v1/openapi.yaml''"

text \<open>The page of the user interface is a file of text, a parameter here.\<close>

definition H_ServeSwaggerUI :: "string \<Rightarrow> rest_request \<Rightarrow> 'b api \<Rightarrow> response \<times> 'b api" where
  "H_ServeSwaggerUI tmpl r s =
     get_only r \<lparr>rs_status = StatusOK, rs_body = Text (replace_first ''__SPEC_URL__'' specURL tmpl)\<rparr> s"

definition H_ServeOpenAPISpec :: "string res \<Rightarrow> rest_request \<Rightarrow> 'b api \<Rightarrow> response \<times> 'b api" where
  "H_ServeOpenAPISpec file r s =
     get_only r (case file of
       Inl e \<Rightarrow> writeError StatusInternalServerError ''reading the OpenAPI specification failed''
     | Inr data \<Rightarrow> \<lparr>rs_status = StatusOK, rs_body = Text data\<rparr>) s"

subsection \<open>The table of routes\<close>

text \<open>\<open>Public\<close> routes have no filter, \<open>Authenticated\<close> ones \<open>authMW\<close>, the others \<open>permMW(perm)\<close>.\<close>

datatype guard = Public | Authenticated | Permission string

datatype endpoint =
    EP_Health | EP_Metrics | EP_ServeSwaggerUI | EP_ServeOpenAPISpec | EP_ListSchemas
  | EP_Login | EP_ExchangeToken | EP_RefreshToken | EP_GetMe
  | EP_ListClients | EP_CreateClient | EP_GetClient | EP_RevokeClient
  | EP_ListUsers | EP_CreateUser | EP_GetUser | EP_DeleteUser | EP_ListUsage
  | EP_CreateNode | EP_ListNodes | EP_GetNode | EP_UpdateNode | EP_DeleteNode
  | EP_CreateRelationship | EP_DeleteRelationship | EP_TraverseGraph
  | EP_SubscribeEvents | EP_ReplayEvents | EP_ListPlugins | EP_UnloadPlugin
  | EP_ListTelemetryParsers | EP_SetTelemetryParser | EP_SendTelemetry | EP_IngestTelemetry
  | EP_SendCommand | EP_ListCommands | EP_GetCommandStatus | EP_CancelCommand
  | EP_ListCommandAdapters | EP_SetCommandAdapter

definition routes :: "((string \<times> string) \<times> guard \<times> endpoint) list" where
  "routes =
     [((''GET'', ''/healthz''), Public, EP_Health),
      ((''GET'', ''/metrics''), Public, EP_Metrics),
      ((''GET'', ''/api/v1/health''), Public, EP_Health),
      ((''GET'', ''/api/v1/docs''), Public, EP_ServeSwaggerUI),
      ((''GET'', ''/api/v1/openapi.yaml''), Public, EP_ServeOpenAPISpec),
      ((''GET'', ''/api/v1/schemas''), Public, EP_ListSchemas),
      ((''POST'', ''/api/v1/auth/login''), Public, EP_Login),
      ((''POST'', ''/api/v1/auth/token''), Public, EP_ExchangeToken),
      ((''POST'', ''/api/v1/auth/refresh''), Authenticated, EP_RefreshToken),
      ((''GET'', ''/api/v1/auth/me''), Authenticated, EP_GetMe),
      ((''GET'', ''/api/v1/clients''), Permission ''user.manage'', EP_ListClients),
      ((''POST'', ''/api/v1/clients''), Permission ''user.manage'', EP_CreateClient),
      ((''GET'', ''/api/v1/clients/{clientId}''), Permission ''user.manage'', EP_GetClient),
      ((''DELETE'', ''/api/v1/clients/{clientId}''), Permission ''user.manage'', EP_RevokeClient),
      ((''GET'', ''/api/v1/users''), Permission ''user.manage'', EP_ListUsers),
      ((''POST'', ''/api/v1/users''), Permission ''user.manage'', EP_CreateUser),
      ((''GET'', ''/api/v1/users/{userId}''), Permission ''user.manage'', EP_GetUser),
      ((''DELETE'', ''/api/v1/users/{userId}''), Permission ''user.manage'', EP_DeleteUser),
      ((''GET'', ''/api/v1/billing/usage''), Permission ''user.manage'', EP_ListUsage),
      ((''POST'', ''/api/v1/nodes''), Permission ''node.create'', EP_CreateNode),
      ((''GET'', ''/api/v1/nodes''), Permission ''node.read'', EP_ListNodes),
      ((''GET'', ''/api/v1/nodes/{nodeId}''), Permission ''node.read'', EP_GetNode),
      ((''PUT'', ''/api/v1/nodes/{nodeId}''), Permission ''node.update'', EP_UpdateNode),
      ((''DELETE'', ''/api/v1/nodes/{nodeId}''), Permission ''node.delete'', EP_DeleteNode),
      ((''POST'', ''/api/v1/nodes/{nodeId}/relationships''), Permission ''relationship.create'', EP_CreateRelationship),
      ((''DELETE'', ''/api/v1/relationships/{relId}''), Permission ''relationship.delete'', EP_DeleteRelationship),
      ((''GET'', ''/api/v1/nodes/{nodeId}/graph''), Permission ''graph.query'', EP_TraverseGraph),
      ((''GET'', ''/api/v1/events/subscribe''), Permission ''event.subscribe'', EP_SubscribeEvents),
      ((''POST'', ''/api/v1/events/replay''), Permission ''event.replay'', EP_ReplayEvents),
      ((''GET'', ''/api/v1/plugins''), Permission ''plugin.manage'', EP_ListPlugins),
      ((''POST'', ''/api/v1/plugins/{name}/unload''), Permission ''plugin.manage'', EP_UnloadPlugin),
      ((''GET'', ''/api/v1/telemetry/parsers''), Permission ''plugin.manage'', EP_ListTelemetryParsers),
      ((''POST'', ''/api/v1/telemetry/parser''), Permission ''plugin.manage'', EP_SetTelemetryParser),
      ((''POST'', ''/api/v1/telemetry/send''), Permission ''plugin.manage'', EP_SendTelemetry),
      ((''POST'', ''/api/v1/telemetry/ingest''), Authenticated, EP_IngestTelemetry),
      ((''POST'', ''/api/v1/commands''), Permission ''command.send'', EP_SendCommand),
      ((''GET'', ''/api/v1/commands''), Permission ''command.send'', EP_ListCommands),
      ((''GET'', ''/api/v1/commands/{commandId}''), Permission ''command.send'', EP_GetCommandStatus),
      ((''DELETE'', ''/api/v1/commands/{commandId}''), Permission ''command.send'', EP_CancelCommand),
      ((''GET'', ''/api/v1/command-adapters''), Permission ''plugin.manage'', EP_ListCommandAdapters),
      ((''POST'', ''/api/v1/command-adapter''), Permission ''plugin.manage'', EP_SetCommandAdapter)]"

definition route_of :: "rest_request \<Rightarrow> (guard \<times> endpoint) option" where
  "route_of r = map_of routes (hr_method r, hr_pattern r)"

subsection \<open>Dispatch\<close>

text \<open>What the router does not own: the two embedded files, and \<open>chi\<close>'s answer to an unknown route.\<close>

record assets =
  as_page :: string
  as_openapi :: "string res"
  as_unrouted :: "rest_request \<Rightarrow> response"

text \<open>An answer, or the number of the subscription whose events are streamed from now on.\<close>

type_synonym answer = "response + nat"

fun run_endpoint :: "'b env \<Rightarrow> assets \<Rightarrow> bool \<Rightarrow> endpoint \<Rightarrow> rest_request \<Rightarrow> 'b api \<Rightarrow> answer \<times> 'b api" where
  "run_endpoint E A fl EP_Health r s = map_prod Inl id (H_Health E r s)"
| "run_endpoint E A fl EP_Metrics r s = map_prod Inl id (H_Metrics E s)"
| "run_endpoint E A fl EP_ServeSwaggerUI r s = map_prod Inl id (H_ServeSwaggerUI (as_page A) r s)"
| "run_endpoint E A fl EP_ServeOpenAPISpec r s = map_prod Inl id (H_ServeOpenAPISpec (as_openapi A) r s)"
| "run_endpoint E A fl EP_ListSchemas r s = map_prod Inl id (H_ListSchemas E s)"
| "run_endpoint E A fl EP_Login r s = map_prod Inl id (H_Login E r s)"
| "run_endpoint E A fl EP_ExchangeToken r s = map_prod Inl id (H_ExchangeToken E r s)"
| "run_endpoint E A fl EP_RefreshToken r s = map_prod Inl id (H_RefreshToken E r s)"
| "run_endpoint E A fl EP_GetMe r s = map_prod Inl id (H_GetMe r s)"
| "run_endpoint E A fl EP_ListClients r s = map_prod Inl id (H_ListClients r s)"
| "run_endpoint E A fl EP_CreateClient r s = map_prod Inl id (H_CreateClient E r s)"
| "run_endpoint E A fl EP_GetClient r s = map_prod Inl id (H_GetClient r s)"
| "run_endpoint E A fl EP_RevokeClient r s = map_prod Inl id (H_RevokeClient r s)"
| "run_endpoint E A fl EP_ListUsers r s = map_prod Inl id (H_ListUsers r s)"
| "run_endpoint E A fl EP_CreateUser r s = map_prod Inl id (H_CreateUser E r s)"
| "run_endpoint E A fl EP_GetUser r s = map_prod Inl id (H_GetUser r s)"
| "run_endpoint E A fl EP_DeleteUser r s = map_prod Inl id (H_DeleteUser r s)"
| "run_endpoint E A fl EP_ListUsage r s = map_prod Inl id (H_ListUsage E r s)"
| "run_endpoint E A fl EP_CreateNode r s = map_prod Inl id (H_CreateNode E r s)"
| "run_endpoint E A fl EP_ListNodes r s = map_prod Inl id (H_ListNodes r s)"
| "run_endpoint E A fl EP_GetNode r s = map_prod Inl id (H_GetNode r s)"
| "run_endpoint E A fl EP_UpdateNode r s = map_prod Inl id (H_UpdateNode E r s)"
| "run_endpoint E A fl EP_DeleteNode r s = map_prod Inl id (H_DeleteNode E r s)"
| "run_endpoint E A fl EP_CreateRelationship r s = map_prod Inl id (H_CreateRelationship E r s)"
| "run_endpoint E A fl EP_DeleteRelationship r s = map_prod Inl id (H_DeleteRelationship E r s)"
| "run_endpoint E A fl EP_TraverseGraph r s = map_prod Inl id (H_TraverseGraph r s)"
| "run_endpoint E A fl EP_SubscribeEvents r s = H_SubscribeEvents E fl r s"
| "run_endpoint E A fl EP_ReplayEvents r s = map_prod Inl id (H_ReplayEvents E r s)"
| "run_endpoint E A fl EP_ListPlugins r s = map_prod Inl id (H_ListPlugins E s)"
| "run_endpoint E A fl EP_UnloadPlugin r s = map_prod Inl id (H_UnloadPlugin r s)"
| "run_endpoint E A fl EP_ListTelemetryParsers r s = map_prod Inl id (H_ListTelemetryParsers E s)"
| "run_endpoint E A fl EP_SetTelemetryParser r s = map_prod Inl id (H_SetTelemetryParser r s)"
| "run_endpoint E A fl EP_SendTelemetry r s = map_prod Inl id (H_SendTelemetry E r s)"
| "run_endpoint E A fl EP_IngestTelemetry r s = map_prod Inl id (H_IngestTelemetry E r s)"
| "run_endpoint E A fl EP_SendCommand r s = map_prod Inl id (H_SendCommand E r s)"
| "run_endpoint E A fl EP_ListCommands r s = map_prod Inl id (H_ListCommands E r s)"
| "run_endpoint E A fl EP_GetCommandStatus r s = map_prod Inl id (H_GetCommandStatus r s)"
| "run_endpoint E A fl EP_CancelCommand r s = map_prod Inl id (H_CancelCommand r s)"
| "run_endpoint E A fl EP_ListCommandAdapters r s = map_prod Inl id (H_ListCommandAdapters E s)"
| "run_endpoint E A fl EP_SetCommandAdapter r s = map_prod Inl id (H_SetCommandAdapter E r s)"

text \<open>
  The filters of a route. The clock is moved past the readings of a filter, whether it made
  them all or not.
\<close>

definition past_filter :: "clientdb option \<Rightarrow> 'b api \<Rightarrow> 'b api" where
  "past_filter svc s = s\<lparr>ap_world := tick (tick (tick (tick (ap_world s)))), ap_clientSvc := svc\<rparr>"

definition authMW :: "'b env \<Rightarrow> rest_request \<Rightarrow> 'b api \<Rightarrow> decision \<times> 'b api" where
  "authMW E r s =
     (case APIAuthMiddleware (en_jwt E) (en_crypt E) (ap_tm s) (ap_world s) (hr_http r) (ap_clientSvc s) of
        (d, svc) \<Rightarrow> (d, past_filter svc s))"

definition permMW :: "'b env \<Rightarrow> string \<Rightarrow> rest_request \<Rightarrow> 'b api \<Rightarrow> decision \<times> 'b api" where
  "permMW E perm r s =
     (case authMW E r s of
        (AuthError code msg, s1) \<Rightarrow> (AuthError code msg, s1)
      | (Serve r1, s1) \<Rightarrow> (RequirePermission perm r1, s1))"

definition authEnabled :: "'b api \<Rightarrow> bool" where
  "authEnabled s \<longleftrightarrow> ap_authEnabled s \<and> ap_tokenMgr s"

fun filters :: "'b env \<Rightarrow> guard \<Rightarrow> rest_request \<Rightarrow> 'b api \<Rightarrow> decision \<times> 'b api" where
  "filters E Public r s = (Serve (hr_http r), s)"
| "filters E Authenticated r s = (if authEnabled s then authMW E r s else (Serve (hr_http r), s))"
| "filters E (Permission perm) r s = (if authEnabled s then permMW E perm r s else (Serve (hr_http r), s))"

text \<open>\<open>fl\<close> says whether the writer of the response can flush.\<close>

definition Router :: "'b env \<Rightarrow> assets \<Rightarrow> bool \<Rightarrow> rest_request \<Rightarrow> 'b api \<Rightarrow> answer \<times> 'b api" where
  "Router E A fl r s =
     (case route_of r of
        None \<Rightarrow> (Inl (as_unrouted A r), s)
      | Some (g, ep) \<Rightarrow>
        (case filters E g r s of
           (AuthError code msg, s1) \<Rightarrow> (Inl (writeError code msg), s1)
         | (Serve rq, s1) \<Rightarrow> run_endpoint E A fl ep (r\<lparr>hr_http := rq\<rparr>) s1))"

subsection \<open>The stack of middlewares\<close>

text \<open>
  The writers of a response: the one of the server, which can flush, and the two wrappers
  (\<open>observability.responseWriter\<close>, \<open>usage.statusWriter\<close>), structs that embed the interface
  \<open>http.ResponseWriter\<close> and so have its methods only.
\<close>

datatype writer = ServerWriter | StatusWriter writer | ResponseWriter writer

fun is_Flusher :: "writer \<Rightarrow> bool" where
  "is_Flusher ServerWriter = True"
| "is_Flusher (StatusWriter w) = False"
| "is_Flusher (ResponseWriter w) = False"

text \<open>The handler that \<open>main\<close> serves: usage metering around tracing around the router.\<close>

definition Served :: "'b env \<Rightarrow> assets \<Rightarrow> rest_request \<Rightarrow> 'b api \<Rightarrow> answer \<times> 'b api" where
  "Served E A r s =
     (let start = now_of (ap_world s);
          (a, s1) = Router E A (is_Flusher (ResponseWriter (StatusWriter ServerWriter))) r
                      (tick_api (tick_api s))
      in (a, s1\<lparr>ap_collector := map_option (\<lambda>u. snd (Collector_Record background
            (http_record (hr_path r) (hr_method r) start (hr_http r)) u)) (ap_collector s1)\<rparr>))"

end
