(* ===== verification/RestProperties.thy ===== *)
theory RestProperties
  imports RestRouter
begin

text \<open>
  Properties of the REST front end as a whole: what the filters let through, what each endpoint
  may change, the invariant of the shared state, and the form of the answers.
\<close>

subsection \<open>What an endpoint leaves alone\<close>

text \<open>A parser reads the clock, it does not set it.\<close>

definition parser_ok :: "parser \<Rightarrow> bool" where
  "parser_ok p \<longleftrightarrow> (\<forall>w raw. w_clock (snd (ps_Parse p w raw)) = w_clock w)"

definition parsers_ok :: "'b api \<Rightarrow> bool" where
  "parsers_ok s \<longleftrightarrow>
     (\<forall>p q. ap_pipeline s = Some p \<longrightarrow> tp_parser p = Some q \<longrightarrow> parser_ok q) \<and>
     (\<forall>m k q. ap_plugins s = Some m \<longrightarrow> GetParser m k = Some q \<longrightarrow> parser_ok q)"

definition api_ok :: "'b api \<Rightarrow> bool" where
  "api_ok s \<longleftrightarrow> kg_inv (kg_db (ap_kg s)) \<and> kg_clock_ok (ap_world s) \<and> parsers_ok s"

text \<open>The tables of the graph are the same, the clock is, and so are the parsers or fewer of them.\<close>

definition keeps_graph :: "'b api \<Rightarrow> 'b api \<Rightarrow> bool" where
  "keeps_graph s s' \<longleftrightarrow> nodes (kg_db (ap_kg s')) = nodes (kg_db (ap_kg s)) \<and> rels (kg_db (ap_kg s')) = rels (kg_db (ap_kg s)) \<and>
     (parsers_ok s \<longrightarrow> w_clock (ap_world s') = w_clock (ap_world s) \<and> parsers_ok s')"

lemma parsers_ok_update [simp]:
  "parsers_ok (s\<lparr>ap_kg := k\<rparr>) = parsers_ok s" "parsers_ok (s\<lparr>ap_bus := b\<rparr>) = parsers_ok s"
  "parsers_ok (s\<lparr>ap_world := w\<rparr>) = parsers_ok s" "parsers_ok (s\<lparr>ap_users := u\<rparr>) = parsers_ok s"
  "parsers_ok (s\<lparr>ap_clientSvc := c\<rparr>) = parsers_ok s" "parsers_ok (s\<lparr>ap_usageStore := us\<rparr>) = parsers_ok s"
  "parsers_ok (s\<lparr>ap_collector := cl\<rparr>) = parsers_ok s" "parsers_ok (s\<lparr>ap_cmdPipeline := cp\<rparr>) = parsers_ok s"
  by (simp_all add: parsers_ok_def)

lemma tick_clock [simp]: "w_clock (tick w) = w_clock w"
  by (simp add: tick_def)

lemma tick_api_simps [simp]:
  "ap_kg (tick_api s) = ap_kg s" "ap_bus (tick_api s) = ap_bus s" "ap_world (tick_api s) = tick (ap_world s)"
  "ap_pipeline (tick_api s) = ap_pipeline s" "ap_plugins (tick_api s) = ap_plugins s"
  "parsers_ok (tick_api s) = parsers_ok s"
  by (simp_all add: tick_api_def)

lemma keeps_graph_refl [simp]: "keeps_graph s s"
  by (simp add: keeps_graph_def)

lemma keeps_graph_trans: "keeps_graph s t \<Longrightarrow> keeps_graph t u \<Longrightarrow> keeps_graph s u"
  by (simp add: keeps_graph_def)

lemma keeps_graph_ok: "api_ok s \<Longrightarrow> keeps_graph s s' \<Longrightarrow> api_ok s'"
  using kg_inv_tables [of "kg_db (ap_kg s)" "kg_db (ap_kg s')"]
  by (auto simp: api_ok_def keeps_graph_def kg_clock_ok_def)

lemma keeps_graph_update [simp]:
  "keeps_graph s (s'\<lparr>ap_bus := b\<rparr>) = keeps_graph s s'" "keeps_graph s (s'\<lparr>ap_users := u\<rparr>) = keeps_graph s s'"
  "keeps_graph s (s'\<lparr>ap_clientSvc := c\<rparr>) = keeps_graph s s'" "keeps_graph s (s'\<lparr>ap_usageStore := us\<rparr>) = keeps_graph s s'"
  "keeps_graph s (s'\<lparr>ap_collector := cl\<rparr>) = keeps_graph s s'" "keeps_graph s (s'\<lparr>ap_cmdPipeline := cp\<rparr>) = keeps_graph s s'"
  "keeps_graph s (tick_api s') = keeps_graph s s'" "keeps_graph (tick_api s) s' = keeps_graph s s'"
  by (simp_all add: keeps_graph_def)

text \<open>Reads of the graph.\<close>

lemma keeps_graph_kg_read:
  assumes "with_kg f s = (x, s')" "\<And>k. nodes (kg_db (snd (f k))) = nodes (kg_db k)"
    "\<And>k. rels (kg_db (snd (f k))) = rels (kg_db k)" "\<And>k. kg_world (snd (f k)) = kg_world k"
  shows "keeps_graph s s'"
proof -
  let ?k = "(ap_kg s)\<lparr>kg_bus := ap_bus s, kg_world := ap_world s\<rparr>"
  obtain k where f: "f ?k = (x, k)" "s' = s\<lparr>ap_kg := k, ap_bus := kg_bus k, ap_world := kg_world k\<rparr>"
    using assms(1) by (auto simp: with_kg_def split: prod.splits)
  have "nodes (kg_db k) = nodes (kg_db (ap_kg s))" "rels (kg_db k) = rels (kg_db (ap_kg s))" "kg_world k = ap_world s"
    using assms(2-4) [of ?k] f(1) by simp_all
  then show ?thesis unfolding f(2) by (simp add: keeps_graph_def)
qed

lemma kg_reads:
  "nodes (kg_db (snd (KG_GetNode c i k))) = nodes (kg_db k)" "rels (kg_db (snd (KG_GetNode c i k))) = rels (kg_db k)"
  "kg_world (snd (KG_GetNode c i k)) = kg_world k"
  "nodes (kg_db (snd (KG_ListNodes c opts k))) = nodes (kg_db k)" "rels (kg_db (snd (KG_ListNodes c opts k))) = rels (kg_db k)"
  "kg_world (snd (KG_ListNodes c opts k)) = kg_world k"
  "kg_world (snd (TraverseGraph c i topts k)) = kg_world k"
  by (auto simp: KG_GetNode_def KG_ListNodes_def TraverseGraph_def NodeRepo_Get_def NodeRepo_List_def
      split: prod.splits option.splits sum.splits)

definition same_tables :: "'a kgdb_scheme \<Rightarrow> 'a kgdb_scheme \<Rightarrow> bool" where
  "same_tables db db' \<longleftrightarrow> nodes db' = nodes db \<and> rels db' = rels db"

lemma visit_frontier_tables: "same_tables db (snd (visit_frontier dir rt ns t db))"
proof (induction ns arbitrary: t db)
  case (Cons n ns)
  obtain x db1 where q: "queryForTraversal n dir rt db = (x, db1)" by fastforce
  then have d: "same_tables db db1"
    using select_rels_tables [of "\<lambda>r. touches dir n (rr_from_node_id r) (rr_to_node_id r) \<and> type_matches rt (rr_rel_type r)" db]
    by (simp add: queryForTraversal_def same_tables_def)
  show ?case
  proof (cases x)
    case (Inr rs)
    then show ?thesis using q d Cons.IH [where t = "fold (visit_rel n) rs t" and db = db1] by (simp add: same_tables_def)
  qed (use q d in simp)
qed (simp add: same_tables_def)

lemma traverse_levels_tables: "same_tables db (snd (traverse_levels m dir rt ns t db))"
proof (induction m arbitrary: ns t db)
  case (Suc m)
  obtain x db1 where v: "visit_frontier dir rt ns (t\<lparr>tr_next := []\<rparr>) db = (x, db1)" by fastforce
  then have d: "same_tables db db1" using visit_frontier_tables [of db dir rt ns "t\<lparr>tr_next := []\<rparr>"] by simp
  show ?case
  proof (cases x)
    case (Inr t1)
    then show ?thesis using v d Suc.IH [where t = t1 and ns = "tr_next t1" and db = db1] by (simp add: same_tables_def)
  qed (use v d in \<open>simp add: same_tables_def\<close>)
qed (simp add: same_tables_def)

lemma Traverse_tables: "same_tables db (snd (Traverse c n opts db))"
proof (cases "ctx_err c")
  case None
  let ?dir = "if to_Direction opts = [] then ''out'' else to_Direction opts"
  let ?depth = "if to_MaxDepth opts \<le> 0 then 1 else to_MaxDepth opts"
  let ?t = "\<lparr>tr_visited = {n}, tr_collected = {}, tr_result = [], tr_next = []\<rparr>"
  obtain x db1 where t: "traverse_levels (nat ?depth) ?dir (to_RelType opts) [n] ?t db = (x, db1)" by fastforce
  then have "same_tables db db1" using traverse_levels_tables [of db "nat ?depth" ?dir "to_RelType opts" "[n]" ?t] by simp
  then show ?thesis using None t by (simp add: Traverse_def Let_def split: sum.splits)
qed (simp add: Traverse_def same_tables_def)

lemma TraverseGraph_tables:
  "nodes (kg_db (snd (TraverseGraph c i topts k))) = nodes (kg_db k)"
  "rels (kg_db (snd (TraverseGraph c i topts k))) = rels (kg_db k)"
  using Traverse_tables [of "kg_db k" c i topts]
  by (cases "Traverse c i topts (kg_db k)", simp add: TraverseGraph_def same_tables_def)+

lemma keeps_graph_reads:
  "with_kg (KG_GetNode c i) s = (x1, s') \<Longrightarrow> keeps_graph s s'"
  "with_kg (KG_ListNodes c opts) s = (x2, s') \<Longrightarrow> keeps_graph s s'"
  "with_kg (TraverseGraph c i topts) s = (x3, s') \<Longrightarrow> keeps_graph s s'"
  by (erule keeps_graph_kg_read; simp add: kg_reads TraverseGraph_tables)+

subsection \<open>The pipelines leave the graph alone\<close>

lemma Normalize_clock: "w_clock (snd (Normalize w f)) = w_clock w"
  by (auto simp: Normalize_def Let_def split: option.splits sum.splits)

lemma ingest_frame_clock:
  "w_clock (tp_world (snd (ingest_frame publish c f p))) = w_clock (tp_world p) \<and>
   tp_parser (snd (ingest_frame publish c f p)) = tp_parser p"
  using Normalize_clock [of "tp_world p" "Some f"]
  by (auto simp: ingest_frame_def count_drop_def split: prod.splits sum.splits option.splits)

lemma ingest_all_clock:
  "w_clock (tp_world (snd (ingest_all publish c fs p))) = w_clock (tp_world p) \<and>
   tp_parser (snd (ingest_all publish c fs p)) = tp_parser p"
proof (induction fs arbitrary: p)
  case (Cons f fs)
  obtain ok p1 where i: "ingest_frame publish c f p = (ok, p1)" by fastforce
  then show ?case
    using ingest_frame_clock [of publish c f p] Cons [of p1] by (auto split: prod.splits)
qed simp

lemma process_clock:
  assumes "\<forall>q. tp_parser p = Some q \<longrightarrow> parser_ok q"
  shows "w_clock (tp_world (process publish c raw p)) = w_clock (tp_world p) \<and>
    tp_parser (process publish c raw p) = tp_parser p"
proof (cases "tp_parser p")
  case (Some q)
  obtain r w1 where r: "ps_Parse q (tick (tp_world p)) raw = (r, w1)" by fastforce
  have "w_clock w1 = w_clock (tp_world p)"
    using assms Some r unfolding parser_ok_def by (metis snd_conv tick_clock)
  then show ?thesis
    using r Some by (simp add: process_def count_drop_def Let_def ingest_all_clock split: sum.splits)
qed (simp add: process_def count_drop_def)

lemma IngestFrames_clock:
  "w_clock (tp_world (snd (IngestFrames publish c fs p))) = w_clock (tp_world p)"
  "tp_parser (snd (IngestFrames publish c fs p)) = tp_parser p"
  using ingest_all_clock [of publish c fs p]
  by (cases "ingest_all publish c fs p"; simp add: IngestFrames_def)+

lemma keeps_graph_tele:
  assumes "with_tele f p s = (x, s')" "ap_pipeline s = Some p"
    and f: "\<And>q. \<forall>r. tp_parser q = Some r \<longrightarrow> parser_ok r \<Longrightarrow> \<forall>get k r. tp_manager q = Some get \<longrightarrow> get k = Some r \<longrightarrow> parser_ok r \<Longrightarrow>
      w_clock (tp_world (snd (f q))) = w_clock (tp_world q) \<and> (\<forall>r. tp_parser (snd (f q)) = Some r \<longrightarrow> parser_ok r)"
  shows "keeps_graph s s'"
proof -
  let ?q = "p\<lparr>tp_bus := ap_bus s, tp_world := ap_world s, tp_manager := map_option GetParser (ap_plugins s)\<rparr>"
  obtain q where q: "f ?q = (x, q)" "s' = s\<lparr>ap_pipeline := Some q, ap_bus := tp_bus q, ap_world := tp_world q\<rparr>"
    using assms(1) by (auto simp: with_tele_def split: prod.splits)
  have "w_clock (tp_world q) = w_clock (ap_world s) \<and> parsers_ok s'" if ok: "parsers_ok s"
  proof -
    have m: "\<forall>r. tp_parser ?q = Some r \<longrightarrow> parser_ok r"
        "\<forall>get k r. tp_manager ?q = Some get \<longrightarrow> get k = Some r \<longrightarrow> parser_ok r"
      using ok assms(2) by (auto simp: parsers_ok_def)
    have "w_clock (tp_world q) = w_clock (ap_world s) \<and> (\<forall>r. tp_parser q = Some r \<longrightarrow> parser_ok r)"
      using f [OF m] q(1) by simp
    then show ?thesis using ok by (auto simp: q(2) parsers_ok_def)
  qed
  then show ?thesis by (simp add: keeps_graph_def q(2))
qed

lemma tele_calls_keep:
  "with_tele (IngestFrames publish c fs) p s = (x1, s') \<Longrightarrow> ap_pipeline s = Some p \<Longrightarrow> keeps_graph s s'"
  "with_tele (SetParser name) p s = (x2, s') \<Longrightarrow> ap_pipeline s = Some p \<Longrightarrow> keeps_graph s s'"
  "with_tele (\<lambda>p. case Tele_Process publish c raw p of
     (v, q) \<Rightarrow> ((v, GetParserName q, tp_metrics q), q)) p s = (x3, s') \<Longrightarrow> ap_pipeline s = Some p \<Longrightarrow> keeps_graph s s'"
proof -
  show "with_tele (IngestFrames publish c fs) p s = (x1, s') \<Longrightarrow> ap_pipeline s = Some p \<Longrightarrow> keeps_graph s s'"
    by (erule keeps_graph_tele, assumption)
      (simp add: IngestFrames_clock)
  show "with_tele (SetParser name) p s = (x2, s') \<Longrightarrow> ap_pipeline s = Some p \<Longrightarrow> keeps_graph s s'"
    by (erule keeps_graph_tele, assumption) (auto simp: SetParser_def split: option.splits)
  show "with_tele (\<lambda>p. case Tele_Process publish c raw p of
      (v, q) \<Rightarrow> ((v, GetParserName q, tp_metrics q), q)) p s = (x3, s') \<Longrightarrow> ap_pipeline s = Some p \<Longrightarrow> keeps_graph s s'"
  proof (erule keeps_graph_tele, assumption)
    fix q :: "'a tele" assume "\<forall>r. tp_parser q = Some r \<longrightarrow> parser_ok r"
    then have "\<forall>r. tp_parser (count_ingress q) = Some r \<longrightarrow> parser_ok r" "tp_world (count_ingress q) = tp_world q"
      by (simp_all add: count_ingress_def)
    then show "w_clock (tp_world (snd (case Tele_Process publish c raw q of (v, q) \<Rightarrow> ((v, GetParserName q, tp_metrics q), q)))) =
          w_clock (tp_world q) \<and>
        (\<forall>r. tp_parser (snd (case Tele_Process publish c raw q of (v, q) \<Rightarrow> ((v, GetParserName q, tp_metrics q), q))) = Some r \<longrightarrow>
          parser_ok r)"
      using process_clock [of "count_ingress q" publish c raw] \<open>\<forall>r. tp_parser q = Some r \<longrightarrow> parser_ok r\<close>
      by (simp add: Tele_Process_def)
  qed
qed

lemma keeps_graph_cmd:
  assumes "with_cmd E f p s = (x, s')" "\<And>q. w_clock (cp_world (snd (f q))) = w_clock (cp_world q)"
  shows "keeps_graph s s'"
proof -
  let ?q = "p\<lparr>cp_bus := ap_bus s, cp_world := ap_world s, cp_manager := map_option (adapter_names E) (ap_plugins s)\<rparr>"
  obtain q where q: "f ?q = (x, q)" "s' = s\<lparr>ap_cmdPipeline := Some q, ap_bus := cp_bus q, ap_world := cp_world q\<rparr>"
    using assms(1) by (auto simp: with_cmd_def split: prod.splits)
  have "w_clock (cp_world q) = w_clock (ap_world s)" using assms(2) [of ?q] q(1) by simp
  then show ?thesis by (simp add: keeps_graph_def q(2))
qed

lemma Pipeline_Send_clock: "w_clock (cp_world (snd (Pipeline_Send cmd n p))) = w_clock (cp_world p)"
  by (simp add: Pipeline_Send_def Let_def tick_cp_def split: option.splits prod.splits)

lemma SetAdapter_clock: "w_clock (cp_world (snd (SetAdapter name p))) = w_clock (cp_world p)"
  by (simp add: SetAdapter_def split: option.splits)

lemma cmd_calls_keep:
  "with_cmd E (Pipeline_Send cmd n) p s = (x1, s') \<Longrightarrow> keeps_graph s s'"
  "with_cmd E (SetAdapter name) p s = (x2, s') \<Longrightarrow> keeps_graph s s'"
  "with_cmd E (\<lambda>p. ((GetAdapterName p, Pipeline_ListAdapters p), p)) p s = (x3, s') \<Longrightarrow> keeps_graph s s'"
  by (erule keeps_graph_cmd; simp add: Pipeline_Send_clock SetAdapter_clock)+

subsection \<open>Every endpoint but five leaves the graph alone\<close>

lemmas handler_simps = bad_json_def bad_request_def no_clients_def no_auth_def no_commands_def get_only_def Let_def

lemma ping_db_keeps: "ping_db c s = (v, s') \<Longrightarrow> keeps_graph s s'"
  by (auto simp: ping_db_def keeps_graph_def split: option.splits)

lemma ping_prod_keeps: "map_prod Some id (ping_db c s) = (v, s') \<Longrightarrow> keeps_graph s s'"
  using ping_db_keeps by (cases "ping_db c s") auto

lemma read_endpoints_keep:
  "keeps_graph s (snd (H_GetNode r s))" "keeps_graph s (snd (H_ListNodes r s))" "keeps_graph s (snd (H_TraverseGraph r s))"
  "keeps_graph s (snd (H_Health E r s))" "keeps_graph s (snd (H_Metrics E s))" "keeps_graph s (snd (H_ListSchemas E s))"
  "keeps_graph s (snd (H_ServeSwaggerUI page r s))" "keeps_graph s (snd (H_ServeOpenAPISpec file r s))"
  "keeps_graph s (snd (H_SubscribeEvents E fl r s))" "keeps_graph s (snd (H_ReplayEvents E r s))"
  "keeps_graph s (snd (H_ListPlugins E s))"
  by (auto simp: H_GetNode_def H_ListNodes_def H_TraverseGraph_def H_Health_def H_Metrics_def H_ListSchemas_def
      H_ServeSwaggerUI_def H_ServeOpenAPISpec_def H_SubscribeEvents_def H_ReplayEvents_def H_ListPlugins_def handler_simps
      split: prod.splits sum.splits option.splits if_splits dest: keeps_graph_reads ping_prod_keeps)

lemma unload_keeps: "keeps_graph s (snd (H_UnloadPlugin r s))"
  by (auto simp: H_UnloadPlugin_def Unload_def keeps_graph_def parsers_ok_def GetParser_def handler_simps
      split: option.splits)

lemma account_endpoints_keep:
  "keeps_graph s (snd (H_Login E r s))" "keeps_graph s (snd (H_ExchangeToken E r s))" "keeps_graph s (snd (H_RefreshToken E r s))"
  "keeps_graph s (snd (H_GetMe r s))" "keeps_graph s (snd (H_ListClients r s))" "keeps_graph s (snd (H_CreateClient E r s))"
  "keeps_graph s (snd (H_GetClient r s))" "keeps_graph s (snd (H_RevokeClient r s))" "keeps_graph s (snd (H_ListUsers r s))"
  "keeps_graph s (snd (H_CreateUser E r s))" "keeps_graph s (snd (H_GetUser r s))" "keeps_graph s (snd (H_DeleteUser r s))"
  "keeps_graph s (snd (H_ListUsage E r s))"
  by (simp_all add: H_Login_def H_ExchangeToken_def H_RefreshToken_def H_GetMe_def H_ListClients_def H_CreateClient_def
      H_GetClient_def H_RevokeClient_def H_ListUsers_def H_CreateUser_def H_GetUser_def H_DeleteUser_def H_ListUsage_def
      handler_simps split: prod.split sum.split option.split)

lemma pipeline_endpoints_keep:
  "keeps_graph s (snd (H_ListTelemetryParsers E s))" "keeps_graph s (snd (H_SetTelemetryParser r s))"
  "keeps_graph s (snd (H_SendTelemetry E r s))" "keeps_graph s (snd (H_IngestTelemetry E r s))"
  "keeps_graph s (snd (H_SendCommand E r s))" "keeps_graph s (snd (H_ListCommands E r s))"
  "keeps_graph s (snd (H_GetCommandStatus r s))" "keeps_graph s (snd (H_CancelCommand r s))"
  "keeps_graph s (snd (H_ListCommandAdapters E s))" "keeps_graph s (snd (H_SetCommandAdapter E r s))"
  by (auto simp: H_ListTelemetryParsers_def H_SetTelemetryParser_def H_SendTelemetry_def H_IngestTelemetry_def meter_ingest_def
      H_SendCommand_def H_ListCommands_def H_GetCommandStatus_def H_CancelCommand_def H_ListCommandAdapters_def
      H_SetCommandAdapter_def handler_simps split: prod.splits sum.splits option.splits
      dest!: tele_calls_keep cmd_calls_keep)

definition graph_writers :: "endpoint set" where
  "graph_writers = {EP_CreateNode, EP_UpdateNode, EP_DeleteNode, EP_CreateRelationship, EP_DeleteRelationship}"

lemma run_endpoint_keeps: "ep \<notin> graph_writers \<Longrightarrow> keeps_graph s (snd (run_endpoint E A fl ep r s))"
  by (cases ep) (simp_all add: graph_writers_def read_endpoints_keep unload_keeps account_endpoints_keep pipeline_endpoints_keep)

subsection \<open>The five writers\<close>

lemma with_kg_ok:
  assumes "with_kg f s = (x, s')" "api_ok s" "\<And>k. kg_state_ok k \<Longrightarrow> kg_state_ok (snd (f k))"
  shows "api_ok s'"
proof -
  let ?k = "(ap_kg s)\<lparr>kg_bus := ap_bus s, kg_world := ap_world s\<rparr>"
  obtain k where k: "f ?k = (x, k)" "s' = s\<lparr>ap_kg := k, ap_bus := kg_bus k, ap_world := kg_world k\<rparr>"
    using assms(1) by (auto simp: with_kg_def split: prod.splits)
  have "kg_state_ok ?k" using assms(2) by (simp add: api_ok_def kg_state_ok_def)
  then have "kg_state_ok k" using assms(3) [of ?k] k(1) by simp
  then show ?thesis using assms(2) by (simp add: api_ok_def kg_state_ok_def k(2))
qed

lemma new_relationship_ok: "kg_op_ok (CreateRelationship (Some (new_relationship w a b t p)))"
  by (simp add: new_relationship_def year_10000_def)

lemma writers_ok:
  assumes "api_ok s"
  shows "api_ok (snd (H_CreateNode E r s))" "api_ok (snd (H_UpdateNode E r s))" "api_ok (snd (H_DeleteNode E r s))"
    "api_ok (snd (H_CreateRelationship E r s))" "api_ok (snd (H_DeleteRelationship E r s))"
proof -
  note [dest] = with_kg_ok [OF _ assms KG_RegisterNode_state] with_kg_ok [OF _ assms KG_UpdateNode_state]
    with_kg_ok [OF _ assms KG_DeleteRelationship_state] with_kg_ok [OF _ _ KG_DeleteNode_state]
    with_kg_ok [OF _ _ KG_CreateRelationship_state [OF _ new_relationship_ok]]
  have get: "api_ok s'" if "with_kg (KG_GetNode c i) s = (x, s')" for c i x s'
    using keeps_graph_ok [OF assms keeps_graph_reads(1) [OF that]] .
  have tick: "api_ok (tick_api s)" using assms by (simp add: api_ok_def)
  show "api_ok (snd (H_CreateNode E r s))" "api_ok (snd (H_UpdateNode E r s))" "api_ok (snd (H_DeleteRelationship E r s))"
    using assms by (auto simp: H_CreateNode_def H_UpdateNode_def H_DeleteRelationship_def handler_simps
        split: prod.splits sum.splits option.splits)
  show "api_ok (snd (H_DeleteNode E r s))"
    using assms get by (auto simp: H_DeleteNode_def handler_simps split: prod.splits sum.splits option.splits)
  show "api_ok (snd (H_CreateRelationship E r s))"
    using assms tick by (auto simp: H_CreateRelationship_def handler_simps split: prod.splits sum.splits option.splits)
qed

lemma run_endpoint_ok: "api_ok s \<Longrightarrow> api_ok (snd (run_endpoint E A fl ep r s))"
proof (cases "ep \<in> graph_writers")
  case True
  then show "api_ok s \<Longrightarrow> ?thesis" by (auto simp: graph_writers_def writers_ok)
next
  case False
  then show "api_ok s \<Longrightarrow> ?thesis" using keeps_graph_ok [OF _ run_endpoint_keeps] by blast
qed

lemma filters_state:
  "filters E g r s = (d, s1) \<Longrightarrow>
   s1 = s \<or> (\<exists>svc. s1 = past_filter svc s)"
  by (cases g) (auto simp: authMW_def permMW_def split: if_splits prod.splits decision.splits)

lemma past_filter_keeps [simp]: "keeps_graph s (past_filter svc s)"
  by (simp add: past_filter_def keeps_graph_def)

lemma filters_keep: "filters E g r s = (d, s1) \<Longrightarrow> keeps_graph s s1"
  using filters_state [of E g r s d s1] by auto

lemma Router_ok: "api_ok s \<Longrightarrow> api_ok (snd (Router E A fl r s))"
  by (auto simp: Router_def run_endpoint_ok dest: filters_keep keeps_graph_ok split: option.splits prod.splits decision.splits)

lemma Served_ok: "api_ok s \<Longrightarrow> api_ok (snd (Served E A r s))"
proof -
  assume "api_ok s"
  then have "api_ok (tick_api (tick_api s))" by (simp add: api_ok_def)
  from Router_ok [OF this, of E A False r] show ?thesis
    by (auto simp: Served_def Let_def api_ok_def split: prod.splits)
qed

subsection \<open>What the filters let through\<close>

text \<open>The credentials a request presents: a valid token, or the key of a stored client that is active.\<close>

definition authenticated :: "'b env \<Rightarrow> rest_request \<Rightarrow> 'b api \<Rightarrow> Claims \<Rightarrow> bool" where
  "authenticated E r s cl \<longleftrightarrow>
     Parse (en_jwt E) (ap_tm s) (ap_world s) (extractBearerToken (hr_http r)) = Inr cl \<or>
     (\<exists>db c t. ap_clientSvc s = Some db \<and> presents_key (en_crypt E) (hr_http r) db c \<and>
        cl = client_claims (en_jwt E) (ap_tm s) t c)"

fun guard_admits :: "guard \<Rightarrow> Claims \<Rightarrow> bool" where
  "guard_admits Public cl = True"
| "guard_admits Authenticated cl = True"
| "guard_admits (Permission perm) cl = HasPermission (cl_Roles cl) perm"

lemma authMW_Serve:
  assumes "jwt_faithful (en_jwt E)" "authMW E r s = (Serve rq, s1)"
  shows "\<exists>cl. rq = WithClaims cl (hr_http r) \<and> authenticated E r s cl"
proof -
  obtain svc where "APIAuthMiddleware (en_jwt E) (en_crypt E) (ap_tm s) (ap_world s) (hr_http r) (ap_clientSvc s) = (Serve rq, svc)"
    using assms(2) by (auto simp: authMW_def split: prod.splits)
  from api_auth_claims [OF assms(1) this] show ?thesis unfolding authenticated_def by blast
qed

lemma filters_Serve:
  assumes "jwt_faithful (en_jwt E)" "authEnabled s" "filters E g r s = (Serve rq, s1)" "g \<noteq> Public"
  shows "\<exists>cl. rq = WithClaims cl (hr_http r) \<and> authenticated E r s cl \<and> guard_admits g cl"
proof (cases g)
  case Authenticated
  then show ?thesis using assms authMW_Serve [OF assms(1), of r s rq s1] by auto
next
  case (Permission perm)
  then obtain r1 where r1: "authMW E r s = (Serve r1, s1)" "RequirePermission perm r1 = Serve rq"
    using assms(2,3) by (auto simp: permMW_def split: prod.splits decision.splits)
  obtain cl where cl: "r1 = WithClaims cl (hr_http r)" "authenticated E r s cl"
    using authMW_Serve [OF assms(1) r1(1)] by blast
  have "rq = r1" "HasPermission (cl_Roles cl) perm"
    using r1(2) by (simp_all add: RequirePermission_Serve cl(1) WithClaims_def)
  then show ?thesis using cl Permission by auto
qed (use assms(4) in simp)

lemma filters_refuse:
  "filters E g r s = (AuthError code msg, s1) \<Longrightarrow> authEnabled s \<and> g \<noteq> Public \<and> code \<in> {StatusUnauthorized, StatusForbidden}"
  by (cases g) (auto simp: authMW_def permMW_def APIAuthMiddleware_def api_key_auth_def RequirePermission_def Let_def
      split: if_splits prod.splits decision.splits sum.splits option.splits)

lemma route_of_set: "route_of r = Some ge \<Longrightarrow> ge \<in> set (map snd routes)"
  unfolding route_of_def by (metis map_of_SomeD image_eqI list.set_map snd_conv)


text \<open>A deployment for the examples: the graph service over a SQLite log, one client with a key, authentication on.\<close>

definition demo_env :: "SQLiteEventStore LocalBus env" where
  "demo_env = \<lparr>en_jwt = plain_jwt, en_crypt = plain_crypt, en_Publish = LocalBus_Publish SQL_Append,
     en_Replay = LocalBus_Replay (SQL_Query (sort_key er_timestamp)), en_Subscribe = LocalBus_Subscribe, en_Ping = LocalBus_Ping,
     en_order = (\<lambda>K. sorted_list_of_set K), en_sortCommands = (\<lambda>xs. xs), en_sortUsage = (\<lambda>xs. xs),
     en_FormatFloat = (\<lambda>x. []), en_DurationString = (\<lambda>d. [])\<rparr>"

definition demo_assets :: assets where
  "demo_assets = \<lparr>as_page = [], as_openapi = Inr [], as_unrouted = (\<lambda>r. writeError StatusNotFound [])\<rparr>"

definition demo_api :: "SQLiteEventStore LocalBus api" where
  "demo_api = \<lparr>ap_kg = demo_kg, ap_bus = kg_bus demo_kg, ap_world = kg_world demo_kg, ap_registry = NewSchemaRegistry,
     ap_db = True, ap_plugins = None, ap_pipeline = None, ap_cmdPipeline = None, ap_authSvc = False, ap_users = None,
     ap_clientSvc = Some one_clientdb, ap_tokenMgr = True, ap_tm = demo_tm, ap_authEnabled = True, ap_usageStore = None,
     ap_collector = None, ap_version = ''1'', ap_startTime = 0\<rparr>"

text \<open>A request to register a node, and one to delete it; the first with the key of the client.\<close>

definition post_node :: rest_request where
  "post_node = \<lparr>hr_http = key_request, hr_method = ''POST'', hr_pattern = ''/api/v1/nodes'', hr_path = ''/api/v1/nodes'',
     hr_param = (\<lambda>k. []), hr_query = (\<lambda>k. []), hr_body = Inr (JObj [(''nodeId'', JStr ''sat-1''), (''nodeType'', JStr ''Satellite''),
       (''name'', JStr ''one''), (''status'', JStr ''active''), (''ownerCommunityId'', JStr ''c1''),
       (''properties'', JObj [(''mass'', JStr ''7'')])]), hr_ContentLength = 0\<rparr>"

definition delete_node :: "http_request \<Rightarrow> rest_request" where
  "delete_node h = \<lparr>hr_http = h, hr_method = ''DELETE'', hr_pattern = ''/api/v1/nodes/{nodeId}'', hr_path = ''/api/v1/nodes/sat-1'',
     hr_param = (\<lambda>k. ''sat-1''), hr_query = (\<lambda>k. []), hr_body = Inl (External ''EOF''), hr_ContentLength = 0\<rparr>"

lemma demo_routes:
  "route_of post_node = Some (Permission ''node.create'', EP_CreateNode)"
  "route_of (delete_node h) = Some (Permission ''node.delete'', EP_DeleteNode)"
  by (simp_all add: route_of_def post_node_def delete_node_def routes_def)

lemma demo_api_ok: "api_ok demo_api" "authEnabled demo_api" "jwt_faithful (en_jwt demo_env)"
  using demo_kg_ok(1) plain_jwt_faithful
  by (simp_all add: api_ok_def parsers_ok_def demo_api_def authEnabled_def kg_state_ok_def demo_env_def)

lemma demo_filters:
  "authMW demo_env (delete_node key_request) demo_api = (Serve (WithClaims demo_claims key_request), past_filter (Some one_clientdb) demo_api)"
  "authMW demo_env post_node demo_api = (Serve (WithClaims demo_claims key_request), past_filter (Some one_clientdb) demo_api)"
proof -
  have "kg_world demo_kg = demo_world" by (simp add: demo_kg_def NewKGService_def)
  then show "authMW demo_env (delete_node key_request) demo_api = (Serve (WithClaims demo_claims key_request), past_filter (Some one_clientdb) demo_api)"
    "authMW demo_env post_node demo_api = (Serve (WithClaims demo_claims key_request), past_filter (Some one_clientdb) demo_api)"
    using demo_api_auth by (simp_all add: authMW_def demo_env_def demo_api_def delete_node_def post_node_def)
qed

lemma demo_roles: "cl_Roles demo_claims = [RoleOperator]"
  by (simp add: demo_claims_def client_claims_def client1_def)


subsection \<open>Who changes the graph\<close>

lemma role_permissions:
  "HasPermission roles p \<Longrightarrow> (RoleAdmin \<in> set roles \<and> p \<in> set admin_permissions) \<or>
    (RoleOperator \<in> set roles \<and> p \<in> set operator_permissions) \<or> (''viewer'' \<in> set roles \<and> p \<in> set viewer_permissions)"
  by (auto simp: HasPermission_iff DefaultRoles_def split: if_splits)

lemma writer_routes:
  assumes "route_of r = Some (g, ep)" "ep \<in> graph_writers"
  shows "g \<in> Permission ` {''node.create'', ''node.update'', ''relationship.create''} \<and> ep \<notin> {EP_DeleteNode, EP_DeleteRelationship} \<or>
    g \<in> Permission ` {''node.delete'', ''relationship.delete''}"
proof -
  have "(g, ep) \<in> set (map snd routes)" using route_of_set [OF assms(1)] .
  then show ?thesis using assms(2) by (auto simp: routes_def graph_writers_def)
qed

lemma writer_roles:
  assumes "route_of r = Some (g, ep)" "ep \<in> graph_writers" "guard_admits g cl"
  shows "RoleAdmin \<in> set (cl_Roles cl) \<or> RoleOperator \<in> set (cl_Roles cl) \<and> ep \<notin> {EP_DeleteNode, EP_DeleteRelationship}"
proof -
  have view: "p \<in> set viewer_permissions \<Longrightarrow>
      p \<notin> {''node.create'', ''node.update'', ''relationship.create'', ''node.delete'', ''relationship.delete''}" for p
    by (auto simp: viewer_permissions_def)
  have op: "p \<in> set operator_permissions \<Longrightarrow> p \<notin> {''node.delete'', ''relationship.delete''}" for p
    by (auto simp: operator_permissions_def)
  from writer_routes [OF assms(1,2)] show ?thesis
  proof
    assume w: "g \<in> Permission ` {''node.create'', ''node.update'', ''relationship.create''} \<and> ep \<notin> {EP_DeleteNode, EP_DeleteRelationship}"
    then obtain p where "g = Permission p" "p \<in> {''node.create'', ''node.update'', ''relationship.create''}" by blast
    then show ?thesis using assms(3) role_permissions [of "cl_Roles cl" p] view [of p] w by auto
  next
    assume "g \<in> Permission ` {''node.delete'', ''relationship.delete''}"
    then obtain p where "g = Permission p" "p \<in> {''node.delete'', ''relationship.delete''}" by blast
    then show ?thesis using assms(3) role_permissions [of "cl_Roles cl" p] view [of p] op [of p] by auto
  qed
qed

text \<open>C9: With authentication on, only a request that presents the credentials of an operator or an
  administrator changes a node or a relationship, and it does so through one of the five writing
  endpoints; deleting takes an administrator.\<close>

theorem graph_change_needs_role:
  assumes "jwt_faithful (en_jwt E)" "authEnabled s" "Router E A fl r s = (a, s')"
    and "\<not> same_tables (kg_db (ap_kg s)) (kg_db (ap_kg s'))"
  shows "\<exists>g ep cl. route_of r = Some (g, ep) \<and> ep \<in> graph_writers \<and> authenticated E r s cl \<and>
    (RoleAdmin \<in> set (cl_Roles cl) \<or> RoleOperator \<in> set (cl_Roles cl) \<and> ep \<notin> {EP_DeleteNode, EP_DeleteRelationship})"
proof -
  have not: "\<not> keeps_graph s s'" using assms(4) unfolding keeps_graph_def same_tables_def by blast
  then obtain g ep where rt: "route_of r = Some (g, ep)" using assms(3) by (cases "route_of r") (auto simp: Router_def)
  obtain rq s1 where f: "filters E g r s = (Serve rq, s1)" "run_endpoint E A fl ep (r\<lparr>hr_http := rq\<rparr>) s1 = (a, s')"
    using assms(3) not rt filters_keep [of E g r s] by (auto simp: Router_def split: prod.splits decision.splits)
  have w: "ep \<in> graph_writers"
    using not f filters_keep [OF f(1)] keeps_graph_trans run_endpoint_keeps [of ep s1 E A fl "r\<lparr>hr_http := rq\<rparr>"] by fastforce
  then have "g \<noteq> Public" using writer_routes [OF rt] by blast
  then obtain cl where "authenticated E r s cl" "guard_admits g cl" using filters_Serve [OF assms(1,2) f(1)] by blast
  then show ?thesis using rt w writer_roles [OF rt w] by blast
qed

text \<open>What a successful creation leaves: the node as stored, and a connection that still works.\<close>

lemma KG_RegisterNode_created:
  assumes "kg_state_ok k" "KG_RegisterNode publish c (Some n0) k = ((on, None), k')"
  defines "n \<equiv> n0\<lparr>n_CreatedAt := now_of (kg_world k), n_UpdatedAt := now_of (kg_world k)\<rparr>"
  shows "on = Some n \<and> n_NodeID n \<noteq> [] \<and> node_times_ok n \<and> is_ok (marshalProperties (n_Properties n)) \<and>
    node_view (kg_db k') = (node_view (kg_db k))(n_NodeID n \<mapsto> stored_node n) \<and>
    node_view (kg_db k) (n_NodeID n) = None \<and> (faults (kg_db k) = [] \<longrightarrow> faults (kg_db k') = [])"
proof -
  have well: "well_db (kg_db k)" and clock: "kg_clock_ok (kg_world k)" using assms(1) by (simp_all add: kg_state_ok_def kg_inv_def)
  obtain db k2 k3 where st: "Node_Validate n = None" "NodeRepo_Create c (Some n) (kg_db k) = (None, db)"
      "publishEvent publish c EventNodeRegistered (n_NodeID n) (NodeRegisteredPayload (n_NodeID n) (n_NodeType n))
        ((tick_kg k)\<lparr>kg_db := db\<rparr>) = (None, k2)"
      "publishEvent publish c EventStateUpdated (n_NodeID n) (StateUpdatedPayload (n_NodeID n) [] (n_Status n)) k2 = (None, k3)"
      "k' = trigger (HookRegistered n) k3" "on = Some n"
    using assms(2) unfolding KG_RegisterNode_def n_def by (auto simp: Let_def split: option.splits prod.splits)
  have times: "node_times_ok n" using kg_clock_now [OF clock] by (simp add: n_def node_times_ok_def)
  have db: "kg_db k' = db" using publishEvent_frame [OF st(3)] publishEvent_frame [OF st(4)] st(5) by simp
  have "is_ok (marshalProperties (n_Properties n))" "faults (kg_db k) = [] \<longrightarrow> faults db = []"
    using st(2) by (auto simp: NodeRepo_Create_def consume_def split: option.splits sum.splits if_splits)
  moreover have "n_NodeID n \<noteq> []" using st(1) by (simp add: Node_Validate_iff valid_node_def)
  ultimately show ?thesis using NodeRepo_Create_view [OF well times st(2)] st(6) times by (simp add: db)
qed

text \<open>The document of a node does not change when the node is stored.\<close>

lemma json_fields_append:
  "json_fields (xs @ ys) = (case json_fields xs of Inl e \<Rightarrow> Inl e
     | Inr ws \<Rightarrow> (case json_fields ys of Inl e \<Rightarrow> Inl e | Inr vs \<Rightarrow> Inr (ws @ vs)))"
  by (induction xs) (auto split: sum.splits)

lemma omit_map_stored:
  assumes "is_ok (marshalProperties p)"
  shows "json_fields (omit_map k (stored_props p)) = json_fields (omit_map k p)"
proof (cases p)
  case (Some kvs)
  show ?thesis
  proof (cases "kvs = []")
    case False
    then obtain ws where ws: "json_fields kvs = Inr ws"
      using assms Some by (auto simp: marshalProperties_def split: list.splits sum.splits)
    moreover have "ws \<noteq> []" using False json_fields_keys [OF ws] by auto
    ultimately show ?thesis
      using Some False json_norm_idem(3) [OF ws] by (simp add: stored_props_def props_norm_def omit_map_def)
  qed (simp add: Some stored_props_def props_norm_def omit_map_def)
qed (simp add: stored_props_def props_norm_def omit_map_def)

lemma node_json_stored:
  assumes "is_ok (marshalProperties (n_Properties n))"
  shows "json_norm (node_json (stored_node n)) = json_norm (node_json n)"
  using omit_map_stored [OF assms, of "''properties''"]
  by (simp add: node_json_def stored_node_def json_fields_append cong: sum.case_cong)

lemma created_then_found:
  assumes "api_ok s" "faults (kg_db (ap_kg s)) = []" "H_CreateNode E r s = (a, s1)" "rs_status a = StatusCreated"
    and "keeps_graph s1 s2" "faults (kg_db (ap_kg s2)) = []" "ctx_err (hr_ctx g) = None"
    and "Decode (decode_struct createNode_fields no_createNode) (hr_body r) = Inr req" "hr_param g ''nodeId'' = cn_NodeID req"
  shows "\<exists>s3. H_GetNode g s2 = (\<lparr>rs_status = StatusOK, rs_body = rs_body a\<rparr>, s3)"
proof -
  let ?k = "(ap_kg s)\<lparr>kg_bus := ap_bus s, kg_world := ap_world s\<rparr>" and ?n0 = "node_of_request req"
  have ok: "kg_state_ok ?k" using assms(1) by (simp add: api_ok_def kg_state_ok_def)
  obtain on v k' where reg: "KG_RegisterNode (en_Publish E) (hr_ctx r) (Some ?n0) ?k = ((on, v), k')" by (metis prod.exhaust)
  have "v = None"
    using assms(3,4) reg by (cases v) (auto simp: H_CreateNode_def assms(8) with_kg_def handler_simps handleServiceError_def
        split: option.splits if_splits)
  then have reg: "KG_RegisterNode (en_Publish E) (hr_ctx r) (Some ?n0) ?k = ((on, None), k')" using reg by simp
  let ?n = "?n0\<lparr>n_CreatedAt := now_of (kg_world ?k), n_UpdatedAt := now_of (kg_world ?k)\<rparr>"
  note c = KG_RegisterNode_created [OF ok reg]
  have a: "a = writeJSON StatusCreated (node_json ?n)" "kg_db (ap_kg s1) = kg_db k'"
    using assms(3,4) reg c by (auto simp: H_CreateNode_def assms(8) with_kg_def handler_simps split: option.splits)
  have id: "n_NodeID ?n = cn_NodeID req" by (simp add: node_of_request_def)
  have "api_ok s1" using writers_ok(1) [OF assms(1), of E r] assms(3) by simp
  then have "api_ok s2" using assms(5) by (rule keeps_graph_ok)
  moreover have "nodes (kg_db (ap_kg s2)) = nodes (kg_db k')" using assms(5) a(2) by (simp add: keeps_graph_def)
  ultimately have calm: "calm_db (kg_db (ap_kg s2))" "node_view (kg_db (ap_kg s2)) (cn_NodeID req) = Some (stored_node ?n)"
    using c id assms(6) by (simp_all add: calm_db_def api_ok_def kg_inv_def node_view_def)
  have "NodeRepo_Get (hr_ctx g) (cn_NodeID req) (kg_db (ap_kg s2)) = (Inr (stored_node ?n), kg_db (ap_kg s2))"
    by (rule NodeRepo_Get_found [OF calm(1) assms(7) calm(2)])
  then have "\<exists>s3. with_kg (KG_GetNode (hr_ctx g) (cn_NodeID req)) s2 = (Inr (stored_node ?n), s3)"
    by (simp add: with_kg_def KG_GetNode_def)
  moreover have "writeJSON StatusOK (node_json (stored_node ?n)) = \<lparr>rs_status = StatusOK, rs_body = rs_body a\<rparr>"
    using node_json_stored [of ?n] c by (simp add: a(1) writeJSON_def)
  moreover have "cn_NodeID req \<noteq> []" using c id by simp
  ultimately show ?thesis using assms(9) by (auto simp: H_GetNode_def Let_def)
qed

text \<open>A node that a creation answers with 201 is found: until the graph is changed again, asking
  for it answers 200 with the same document, whatever JSON values its properties hold.\<close>

theorem created_node_is_found:
  assumes "api_ok s" "faults (kg_db (ap_kg s)) = []" "H_CreateNode E r s = (a, s1)" "rs_status a = StatusCreated"
    and "keeps_graph s1 s2" "faults (kg_db (ap_kg s2)) = []" "ctx_err (hr_ctx g) = None"
    and "Decode (decode_struct createNode_fields no_createNode) (hr_body r) = Inr req" "hr_param g ''nodeId'' = cn_NodeID req"
  shows "\<exists>s3. H_GetNode g s2 = (\<lparr>rs_status = StatusOK, rs_body = rs_body a\<rparr>, s3)"
  using assms by (rule created_then_found)

definition demo_req :: createNodeRequest where
  "demo_req = \<lparr>cn_NodeID = ''sat-1'', cn_NodeType = ''Satellite'', cn_Name = ''one'', cn_Status = ''active'',
     cn_OwnerCommunityID = ''c1'', cn_ShardKey = [], cn_FederationID = [],
     cn_Properties = Some [(''mass'', GStr ''7'')]\<rparr>"

lemma demo_decode: "Decode (decode_struct createNode_fields no_createNode) (hr_body post_node) = Inr demo_req"
  by (simp add: Decode_def decode_struct_def createNode_fields_def no_createNode_def post_node_def demo_req_def
      field_for_def str_field_def map_field_def gomap_put_def)

definition demo_s1 :: "SQLiteEventStore LocalBus api" where
  "demo_s1 = past_filter (Some one_clientdb) demo_api"

lemma demo_created:
  "\<exists>a s'. H_CreateNode demo_env post_node demo_s1 = (a, s') \<and> rs_status a = StatusCreated \<and>
     faults (kg_db (ap_kg s')) = [] \<and> \<not> same_tables (kg_db (ap_kg demo_api)) (kg_db (ap_kg s'))"
proof -
  let ?w = "tick (tick (tick (tick demo_world)))"
  let ?k = "(ap_kg demo_s1)\<lparr>kg_bus := ap_bus demo_s1, kg_world := ap_world demo_s1\<rparr>" and ?n0 = "node_of_request demo_req"
  have k: "?k = demo_kg\<lparr>kg_world := ?w\<rparr>"
    by (simp add: demo_s1_def past_filter_def demo_api_def demo_kg_def NewKGService_def)
  have w: "kg_world demo_kg = demo_world" by (simp add: demo_kg_def NewKGService_def)
  have ok: "kg_state_ok ?k" "calm_kg (kg_db ?k)" "node_view (kg_db ?k) = Map.empty" "kg_clock_ok (kg_world ?k)"
    using demo_kg_ok w by (simp_all add: k kg_state_ok_def)
  have ready: "sql_ready background ?k" using demo_kg_ok(2) w by (simp add: k sql_ready_def)
  have n0: "n_NodeID ?n0 \<noteq> []" "NodeType_Valid (n_NodeType ?n0)" "n_Name ?n0 \<noteq> []" "n_Status ?n0 \<noteq> []"
      "n_OwnerCommunityID ?n0 \<noteq> []" "is_ok (marshalProperties (n_Properties ?n0))"
    by (simp_all add: node_of_request_def demo_req_def NodeType_Valid_def marshalProperties_def)
  have "node_view (kg_db ?k) (n_NodeID ?n0) = None" using ok(3) by simp
  from RegisterNode_succeeds [OF ready ok(2,4) n0 this] obtain on k' where
    reg: "KG_RegisterNode (LocalBus_Publish SQL_Append) background (Some ?n0) ?k = ((on, None), k')" by blast
  note c = KG_RegisterNode_created [OF ok(1) reg]
  have ctx: "hr_ctx post_node = background" by (simp add: hr_ctx_def post_node_def key_request_def)
  have "create_node_check ?n0 = None" using n0 by (simp add: create_node_check_def NodeType_Valid_nonempty)
  then obtain a s' where run: "H_CreateNode demo_env post_node demo_s1 = (a, s')" "rs_status a = StatusCreated"
      "kg_db (ap_kg s') = kg_db k'"
    using reg by (simp add: H_CreateNode_def demo_decode with_kg_def ctx demo_env_def)
  have "node_view (kg_db k') \<noteq> node_view (kg_db demo_kg)" using c by (simp add: demo_kg_ok(6))
  then have "\<not> same_tables (kg_db (ap_kg demo_api)) (kg_db (ap_kg s'))"
    by (auto simp: same_tables_def run(3) demo_api_def node_view_def)
  moreover have "faults (kg_db k') = []" using c by (simp add: k demo_kg_def NewKGService_def)
  ultimately show ?thesis using run by auto
qed

lemma H_CreateNode_request:
  assumes "hr_body r = hr_body r'" "hr_ctx r = hr_ctx r'"
  shows "H_CreateNode E r s = H_CreateNode E r' s"
  unfolding H_CreateNode_def assms ..

lemma demo_routed:
  assumes "H_CreateNode demo_env post_node demo_s1 = (a, s')"
  shows "Router demo_env demo_assets True post_node demo_api = (Inl a, s')"
proof -
  have h: "hr_http post_node = key_request" by (simp add: post_node_def)
  have "RequirePermission ''node.create'' (WithClaims demo_claims key_request) = Serve (WithClaims demo_claims key_request)"
    by (simp add: RequirePermission_Serve WithClaims_def demo_roles DefaultRoles_def operator_permissions_def)
  moreover have "H_CreateNode demo_env (post_node\<lparr>hr_http := WithClaims demo_claims key_request\<rparr>) demo_s1 = (a, s')"
    using assms H_CreateNode_request [of "post_node\<lparr>hr_http := WithClaims demo_claims key_request\<rparr>" post_node demo_env demo_s1]
    by (simp add: hr_ctx_def WithClaims_def h)
  ultimately show ?thesis
    using demo_api_ok(2) demo_filters(2) by (simp add: Router_def demo_routes permMW_def demo_s1_def)
qed

lemma graph_change_needs_role_witness:
  "\<exists>cl. authenticated demo_env post_node demo_api cl \<and> (RoleAdmin \<in> set (cl_Roles cl) \<or> RoleOperator \<in> set (cl_Roles cl))"
proof -
  obtain a s' where run: "H_CreateNode demo_env post_node demo_s1 = (a, s')"
      "\<not> same_tables (kg_db (ap_kg demo_api)) (kg_db (ap_kg s'))" using demo_created by blast
  from graph_change_needs_role [OF demo_api_ok(3,2) demo_routed [OF run(1)] run(2)] show ?thesis by blast
qed

lemma created_node_is_found_witness:
  "\<exists>a s1 s3. H_CreateNode demo_env post_node demo_s1 = (a, s1) \<and> rs_status a = StatusCreated \<and>
     H_GetNode (delete_node key_request) s1 = (\<lparr>rs_status = StatusOK, rs_body = rs_body a\<rparr>, s3)"
proof -
  obtain a s1 where run: "H_CreateNode demo_env post_node demo_s1 = (a, s1)" "rs_status a = StatusCreated"
      "faults (kg_db (ap_kg s1)) = []" using demo_created by blast
  have "api_ok demo_s1" using keeps_graph_ok [OF demo_api_ok(1) past_filter_keeps] by (simp add: demo_s1_def)
  moreover have "faults (kg_db (ap_kg demo_s1)) = []"
    by (simp add: demo_s1_def past_filter_def demo_api_def demo_kg_def NewKGService_def)
  moreover have "hr_param (delete_node key_request) ''nodeId'' = cn_NodeID demo_req"
      "ctx_err (hr_ctx (delete_node key_request)) = None"
    by (simp_all add: delete_node_def demo_req_def hr_ctx_def key_request_def background_def)
  ultimately show ?thesis
    using created_node_is_found [OF _ _ run(1,2) keeps_graph_refl run(3) _ demo_decode] run by blast
qed

subsection \<open>Runs of requests\<close>

lemma refs_view:
  assumes "kg_inv db" "rel \<in> all_rels db"
  shows "node_view db (r_FromNodeID rel) \<noteq> None \<and> node_view db (r_ToNodeID rel) \<noteq> None"
proof -
  obtain row where row: "row \<in> set (rels db)" "rel = scanned scanRelationship row" using assms(2) by (auto simp: all_rels_def)
  then have "scanRelationship row = Inr rel"
    using assms(1) by (cases "scanRelationship row") (auto simp: kg_inv_def well_rels_def scans_def scanned_eq)
  then have "r_FromNodeID rel = rr_from_node_id row" "r_ToNodeID rel = rr_to_node_id row"
    using scanRelationship_fields by blast+
  then show ?thesis using assms(1) row(1) by (simp add: kg_inv_def refs_ok_def node_view_def view_None)
qed

text \<open>The requests a deployment serves, one after the other.\<close>

definition serve_all :: "'b env \<Rightarrow> assets \<Rightarrow> rest_request list \<Rightarrow> 'b api \<Rightarrow> 'b api" where
  "serve_all E A rs s = fold (\<lambda>r s. snd (Served E A r s)) rs s"

lemma serve_all_ok: "api_ok s \<Longrightarrow> api_ok (serve_all E A rs s)"
  by (induction rs arbitrary: s) (simp_all add: serve_all_def Served_ok)

text \<open>Whatever requests are served, authorised or not, the graph they leave is well formed: node
  and relationship identifiers are unique, every row can be read back, and every relationship
  joins two nodes that are stored.\<close>

theorem served_graph_well_formed:
  assumes "kg_inv (kg_db (ap_kg s))" "kg_clock_ok (ap_world s)" "parsers_ok s"
  shows "kg_inv (kg_db (ap_kg (serve_all E A rs s))) \<and>
    (\<forall>rel\<in>all_rels (kg_db (ap_kg (serve_all E A rs s))).
       node_view (kg_db (ap_kg (serve_all E A rs s))) (r_FromNodeID rel) \<noteq> None \<and>
       node_view (kg_db (ap_kg (serve_all E A rs s))) (r_ToNodeID rel) \<noteq> None)"
proof -
  have "api_ok s" using assms by (simp add: api_ok_def)
  then have inv: "kg_inv (kg_db (ap_kg (serve_all E A rs s)))" using serve_all_ok unfolding api_ok_def by blast
  moreover have "node_view db (r_FromNodeID rel) \<noteq> None \<and> node_view db (r_ToNodeID rel) \<noteq> None"
    if "kg_inv db" "rel \<in> all_rels db" for db :: "'z kgdb_scheme" and rel
    using that refs_view by blast
  ultimately show ?thesis by blast
qed

lemma served_graph_well_formed_witness:
  "kg_inv (kg_db (ap_kg (serve_all demo_env demo_assets [post_node, delete_node key_request] demo_api)))"
  using served_graph_well_formed [of demo_api demo_env demo_assets "[post_node, delete_node key_request]"] demo_api_ok(1)
  by (simp add: api_ok_def)

subsection \<open>Answers\<close>

text \<open>A well-formed answer: a known status, and the error document with an error status.\<close>

definition statuses :: "nat set" where
  "statuses = {200, 201, 202, 204, 400, 401, 403, 404, 405, 500, 503}"

definition good_response :: "response \<Rightarrow> bool" where
  "good_response a \<longleftrightarrow> rs_status a \<in> statuses \<and>
     (400 \<le> rs_status a \<longrightarrow> (\<exists>v. rs_body a = Json v \<and> error_doc (rs_status a) v))"

lemma good_writeError [simp]: "good_response (writeError status msg) = (status \<in> statuses)"
  by (auto simp: good_response_def error_doc_def)

lemma good_writeJSON: "status \<in> statuses \<Longrightarrow> status < 400 \<Longrightarrow> good_response (writeJSON status v)"
  by (simp add: good_response_def)

lemma good_answers [simp]:
  "good_response (writeJSON 200 v)" "good_response (writeJSON 201 v)" "good_response (writeJSON 202 v)"
  "good_response no_content" "good_response (handleServiceError e)" "good_response (token_answer tok s)"
  "good_response \<lparr>rs_status = 200, rs_body = b\<rparr>"
  by (simp_all add: good_writeJSON statuses_def handleServiceError_def token_answer_def)
    (simp_all add: good_response_def statuses_def)

lemma statuses_known [simp]:
  "400 \<in> statuses" "401 \<in> statuses" "403 \<in> statuses" "404 \<in> statuses" "405 \<in> statuses" "500 \<in> statuses" "503 \<in> statuses"
  by (simp_all add: statuses_def)

lemma decodeJSONBody_good: "decodeJSONBody d r = Inl a \<Longrightarrow> good_response a"
  by (auto simp: decodeJSONBody_def split: sum.splits)

lemma graph_answers_good:
  "good_response (fst (H_CreateNode E r s))" "good_response (fst (H_GetNode r s))" "good_response (fst (H_UpdateNode E r s))"
  "good_response (fst (H_DeleteNode E r s))" "good_response (fst (H_ListNodes r s))"
  "good_response (fst (H_CreateRelationship E r s))" "good_response (fst (H_DeleteRelationship E r s))"
  "good_response (fst (H_TraverseGraph r s))" "good_response (fst (H_ReplayEvents E r s))"
  "good_response (fst (H_ListSchemas E s))" "good_response (fst (H_ListPlugins E s))" "good_response (fst (H_UnloadPlugin r s))"
  "good_response (fst (H_Metrics E s))" "good_response (fst (H_ServeSwaggerUI page r s))"
  "good_response (fst (H_ServeOpenAPISpec file r s))"
  by (simp_all add: H_CreateNode_def H_GetNode_def H_UpdateNode_def H_DeleteNode_def H_ListNodes_def H_CreateRelationship_def
      H_DeleteRelationship_def H_TraverseGraph_def H_ReplayEvents_def H_ListSchemas_def H_ListPlugins_def H_UnloadPlugin_def
      H_Metrics_def H_ServeSwaggerUI_def H_ServeOpenAPISpec_def handler_simps split: prod.split sum.split option.split)

lemma account_answers_good:
  "good_response (fst (H_Login E r s))" "good_response (fst (H_ExchangeToken E r s))" "good_response (fst (H_RefreshToken E r s))"
  "good_response (fst (H_GetMe r s))" "good_response (fst (H_ListClients r s))" "good_response (fst (H_CreateClient E r s))"
  "good_response (fst (H_GetClient r s))" "good_response (fst (H_RevokeClient r s))" "good_response (fst (H_ListUsers r s))"
  "good_response (fst (H_CreateUser E r s))" "good_response (fst (H_GetUser r s))" "good_response (fst (H_DeleteUser r s))"
  "good_response (fst (H_ListUsage E r s))"
  by (simp_all add: H_Login_def H_ExchangeToken_def H_RefreshToken_def H_GetMe_def H_ListClients_def H_CreateClient_def
      H_GetClient_def H_RevokeClient_def H_ListUsers_def H_CreateUser_def H_GetUser_def H_DeleteUser_def H_ListUsage_def
      handler_simps decodeJSONBody_good split: prod.split sum.split option.split)

lemma pipeline_answers_good:
  "good_response (fst (H_ListTelemetryParsers E s))" "good_response (fst (H_SetTelemetryParser r s))"
  "good_response (fst (H_SendTelemetry E r s))" "good_response (fst (H_IngestTelemetry E r s))"
  "good_response (fst (H_SendCommand E r s))" "good_response (fst (H_ListCommands E r s))"
  "good_response (fst (H_GetCommandStatus r s))" "good_response (fst (H_CancelCommand r s))"
  "good_response (fst (H_ListCommandAdapters E s))" "good_response (fst (H_SetCommandAdapter E r s))"
  by (simp_all add: H_ListTelemetryParsers_def H_SetTelemetryParser_def H_SendTelemetry_def H_IngestTelemetry_def
      H_SendCommand_def H_ListCommands_def H_GetCommandStatus_def H_CancelCommand_def H_ListCommandAdapters_def
      H_SetCommandAdapter_def handler_simps split: prod.split sum.split option.split)

lemma run_endpoint_good:
  assumes "run_endpoint E A fl ep r s = (x, s')" "ep \<noteq> EP_Health" "ep \<noteq> EP_SubscribeEvents"
  shows "\<exists>a. x = Inl a \<and> good_response a"
proof -
  have g: "\<exists>a. x = Inl a \<and> good_response a" if "map_prod Inl id y = (x, s')" "good_response (fst y)" for y
    using that by (cases y) auto
  show ?thesis
    by (insert assms) (cases ep; ((simp only: run_endpoint.simps, erule g,
        rule graph_answers_good account_answers_good pipeline_answers_good) | simp))
qed



lemma served_subscribe:
  assumes "route_of r = Some (g, EP_SubscribeEvents)" "Served E A r s = (x, s')"
  shows "\<exists>a. x = Inl a \<and> rs_status a \<in> {401, 403, 500} \<and> (\<not> authEnabled s \<longrightarrow> rs_status a = 500)"
proof -
  let ?s = "tick_api (tick_api s)"
  obtain s1 where run: "Router E A False r ?s = (x, s1)" using assms(2) by (auto simp: Served_def Let_def split: prod.splits)
  obtain d s2 where f: "filters E g r ?s = (d, s2)" by fastforce
  have auth: "authEnabled ?s = authEnabled s" by (simp add: authEnabled_def tick_api_def)
  show ?thesis
  proof (cases d)
    case (AuthError code msg)
    then show ?thesis
      using f run assms(1) auth filters_refuse [of E g r ?s code msg s2] by (auto simp: Router_def)
  next
    case (Serve rq)
    then show ?thesis using f run assms(1) by (auto simp: Router_def H_SubscribeEvents_def)
  qed
qed

text \<open>C32: In the stack that \<open>main\<close> serves, the event stream is never opened: the writers of the two
  middlewares hide the server's ability to flush, so a subscription that passes the filters is
  answered with 500. The same request to the router alone, with the server's writer, is served.\<close>

theorem event_stream_never_opens:
  assumes "route_of r = Some (g, EP_SubscribeEvents)" "Served E A r s = (x, s')"
  shows "\<exists>a. x = Inl a \<and> rs_status a \<in> {401, 403, 500} \<and> (\<not> authEnabled s \<longrightarrow> rs_status a = 500 \<and>
    (\<exists>k s2. Router E A (is_Flusher ServerWriter) r s = (Inr k, s2)))"
proof -
  have g: "g = Permission ''event.subscribe''"
    using route_of_set [OF assms(1)] by (auto simp: routes_def)
  have "\<exists>k s2. Router E A True r s = (Inr k, s2)" if "\<not> authEnabled s"
    using that assms(1) g by (simp add: Router_def H_SubscribeEvents_def split: prod.splits)
  then show ?thesis using served_subscribe [OF assms] by auto
qed

definition get_events :: rest_request where
  "get_events = (delete_node key_request)\<lparr>hr_method := ''GET'', hr_pattern := ''/api/v1/events/subscribe''\<rparr>"

lemma event_stream_never_opens_witness:
  "\<exists>a. fst (Served demo_env demo_assets get_events (demo_api\<lparr>ap_authEnabled := False\<rparr>)) = Inl a \<and> rs_status a = 500"
proof -
  have r: "route_of get_events = Some (Permission ''event.subscribe'', EP_SubscribeEvents)"
    by (simp add: route_of_def get_events_def delete_node_def routes_def)
  obtain x s' where run: "Served demo_env demo_assets get_events (demo_api\<lparr>ap_authEnabled := False\<rparr>) = (x, s')" by fastforce
  have "\<not> authEnabled (demo_api\<lparr>ap_authEnabled := False\<rparr>)" by (simp add: authEnabled_def)
  then show ?thesis using event_stream_never_opens [OF r run] run by auto
qed

end
