(* ===== verification/GrpcMessages.thy ===== *)
theory GrpcMessages
  imports ApiState "HOL-Library.Word"
begin

text \<open>
  \<open>internal/api/grpc/messages.go\<close>: the messages of the gRPC front end and their conversion from
  and to the model. Times are RFC 3339 texts of whole seconds, properties maps of strings.
\<close>

subsection \<open>Messages\<close>

type_synonym strmap = "(string \<times> string) list"
type_synonym int32 = "32 word"

record pb_Node =
  pn_NodeId :: string
  pn_NodeType :: string
  pn_Name :: string
  pn_Status :: string
  pn_OwnerCommunityId :: string
  pn_CreatedAt :: string
  pn_UpdatedAt :: string
  pn_ShardKey :: string
  pn_FederationId :: string
  pn_Properties :: strmap

record pb_Relationship =
  pr_RelId :: string
  pr_FromNodeId :: string
  pr_ToNodeId :: string
  pr_RelType :: string
  pr_Properties :: strmap
  pr_CreatedAt :: string

record pb_Event =
  pe_EventId :: string
  pe_EventType :: string
  pe_Timestamp :: string
  pe_SourceNodeId :: string
  pe_TraceId :: string
  pe_Payload :: strmap

record pb_FieldDef =
  pf_Name :: string
  pf_Type :: string
  pf_Required :: bool

record pb_Schema =
  pbs_EventType :: string
  pbs_Version :: string
  pbs_Fields :: "pb_FieldDef list"

record UpdateNodeRequest =
  un_NodeId :: string
  un_Changes :: strmap

record ListNodesRequest =
  ln_NodeType :: string
  ln_OwnerCommunityId :: string
  ln_Status :: string
  ln_Limit :: int32
  ln_Offset :: int32

record CreateRelationshipRequest =
  pc_FromNodeId :: string
  pc_ToNodeId :: string
  pc_RelType :: string
  pc_Properties :: strmap

record QueryGraphRequest =
  qg_NodeId :: string
  qg_Direction :: string
  qg_RelType :: string
  qg_MaxDepth :: int32

record ReplayEventsRequest =
  re_EventTypes :: "string list"
  re_SourceNodeId :: string
  re_StartTime :: string
  re_EndTime :: string
  re_Limit :: int32

record pb_TelemetryFrame =
  pt_SatelliteId :: string
  pt_Timestamp :: string
  pt_Parameters :: strmap
  pt_Quality :: string

record IngestTelemetryResponse =
  it_Accepted :: int32
  it_Total :: int32

subsection \<open>Printing a value\<close>

text \<open>
  \<open>fmt.Sprintf("%v", v)\<close>. How a float is printed is a parameter; a map prints its keys in
  order, a time as \<open>Time.String\<close> does, without the monotonic reading.
\<close>

fun spaced :: "string list \<Rightarrow> string" where
  "spaced [] = []"
| "spaced [s] = s"
| "spaced (s # ss) = s @ CHR '' '' # spaced ss"

fun sprint :: "(float64 \<Rightarrow> string) \<Rightarrow> (time \<Rightarrow> string) \<Rightarrow> goval \<Rightarrow> string"
  and sprint_list :: "(float64 \<Rightarrow> string) \<Rightarrow> (time \<Rightarrow> string) \<Rightarrow> goval list \<Rightarrow> string list"
  and sprint_fields :: "(float64 \<Rightarrow> string) \<Rightarrow> (time \<Rightarrow> string) \<Rightarrow> gomap \<Rightarrow> (string \<times> string) list" where
  "sprint pf pt GNil = ''<nil>''"
| "sprint pf pt (GBool b) = (if b then ''true'' else ''false'')"
| "sprint pf pt (GInt i) = (if i < 0 then CHR ''-'' # show_nat (nat (- i)) else show_nat (nat i))"
| "sprint pf pt (GFloat x) = pf x"
| "sprint pf pt (GStr s) = s"
| "sprint pf pt (GTime t) = pt t"
| "sprint pf pt (GList vs) = CHR ''['' # spaced (sprint_list pf pt vs) @ '']''"
| "sprint pf pt (GMap kvs) =
     ''map['' @ spaced (map (\<lambda>(k, v). k @ CHR '':'' # v)
       (sort_key fst (sprint_fields pf pt kvs))) @ '']''"
| "sprint pf pt (GStruct kvs) = CHR ''{'' # spaced (map snd (sprint_fields pf pt kvs)) @ ''}''"
| "sprint_list pf pt [] = []"
| "sprint_list pf pt (v # vs) = sprint pf pt v # sprint_list pf pt vs"
| "sprint_fields pf pt [] = []"
| "sprint_fields pf pt ((k, v) # kvs) = (k, sprint pf pt v) # sprint_fields pf pt kvs"

subsection \<open>Conversions\<close>

text \<open>\<open>pv\<close> is the printing of a value.\<close>

definition anyMapToStringMap :: "(goval \<Rightarrow> string) \<Rightarrow> gomap option \<Rightarrow> strmap" where
  "anyMapToStringMap pv m = (case m of None \<Rightarrow> [] | Some kvs \<Rightarrow> map (map_prod id pv) kvs)"

definition stringMapToAnyMap :: "strmap \<Rightarrow> gomap option" where
  "stringMapToAnyMap m = (if m = [] then None else Some (map (map_prod id GStr) m))"

text \<open>The layout \<open>time.RFC3339\<close> has no fraction; \<open>fmt_time\<close> prints none for a whole second.\<close>

definition fmt_RFC3339 :: "time \<Rightarrow> string" where
  "fmt_RFC3339 t = fmt_time (t - t mod second)"

text \<open>An empty or malformed text is the zero time.\<close>

definition parseTime :: "string \<Rightarrow> time" where
  "parseTime s = (if s = [] then 0 else case parse_time s of None \<Rightarrow> 0 | Some t \<Rightarrow> t)"

definition nodeToProto :: "(goval \<Rightarrow> string) \<Rightarrow> Node \<Rightarrow> pb_Node" where
  "nodeToProto pv n =
     \<lparr>pn_NodeId = n_NodeID n, pn_NodeType = n_NodeType n, pn_Name = n_Name n, pn_Status = n_Status n,
      pn_OwnerCommunityId = n_OwnerCommunityID n, pn_CreatedAt = fmt_RFC3339 (n_CreatedAt n),
      pn_UpdatedAt = fmt_RFC3339 (n_UpdatedAt n), pn_ShardKey = n_ShardKey n, pn_FederationId = n_FederationID n,
      pn_Properties = anyMapToStringMap pv (n_Properties n)\<rparr>"

definition nodeFromProto :: "pb_Node \<Rightarrow> Node" where
  "nodeFromProto n =
     \<lparr>n_NodeID = pn_NodeId n, n_NodeType = pn_NodeType n, n_Name = pn_Name n, n_Status = pn_Status n,
      n_OwnerCommunityID = pn_OwnerCommunityId n, n_CreatedAt = parseTime (pn_CreatedAt n),
      n_UpdatedAt = parseTime (pn_UpdatedAt n), n_ShardKey = pn_ShardKey n, n_FederationID = pn_FederationId n,
      n_Properties = stringMapToAnyMap (pn_Properties n)\<rparr>"

definition relToProto :: "(goval \<Rightarrow> string) \<Rightarrow> Relationship \<Rightarrow> pb_Relationship" where
  "relToProto pv r =
     \<lparr>pr_RelId = r_RelID r, pr_FromNodeId = r_FromNodeID r, pr_ToNodeId = r_ToNodeID r, pr_RelType = r_RelType r,
      pr_Properties = anyMapToStringMap pv (r_Properties r), pr_CreatedAt = fmt_RFC3339 (r_CreatedAt r)\<rparr>"

definition relFromProto :: "pb_Relationship \<Rightarrow> Relationship" where
  "relFromProto r =
     \<lparr>r_RelID = pr_RelId r, r_FromNodeID = pr_FromNodeId r, r_ToNodeID = pr_ToNodeId r, r_RelType = pr_RelType r,
      r_Properties = stringMapToAnyMap (pr_Properties r), r_CreatedAt = parseTime (pr_CreatedAt r)\<rparr>"

definition eventToProto :: "(goval \<Rightarrow> string) \<Rightarrow> Event \<Rightarrow> pb_Event" where
  "eventToProto pv e =
     \<lparr>pe_EventId = e_EventID e, pe_EventType = e_EventType e, pe_Timestamp = fmt_RFC3339 (e_Timestamp e),
      pe_SourceNodeId = e_SourceNodeID e, pe_TraceId = e_TraceID e, pe_Payload = anyMapToStringMap pv (e_Payload e)\<rparr>"

definition schemaToProto :: "Schema \<Rightarrow> pb_Schema" where
  "schemaToProto s =
     \<lparr>pbs_EventType = s_EventType s, pbs_Version = s_Version s,
      pbs_Fields = map (\<lambda>f. \<lparr>pf_Name = fd_Name f, pf_Type = fd_Type f, pf_Required = fd_Required f\<rparr>) (s_Fields s)\<rparr>"

subsection \<open>Round trips\<close>

lemma string_map_back: "anyMapToStringMap (sprint pf pt) (stringMapToAnyMap m) = m"
  by (auto simp: anyMapToStringMap_def stringMapToAnyMap_def intro!: map_idI)

lemma parseTime_fmt: "0 \<le> t \<Longrightarrow> t < year_10000 \<Longrightarrow> parseTime (fmt_RFC3339 t) = t - t mod second"
proof -
  assume t: "0 \<le> t" "t < year_10000"
  have "0 \<le> t - t mod second" "t - t mod second < year_10000"
    using t by (simp_all add: minus_mod_eq_mult_div pos_imp_zdiv_nonneg_iff)
  then have "parse_time (fmt_RFC3339 t) = Some (t - t mod second)"
    unfolding fmt_RFC3339_def by (rule parse_fmt_time)
  moreover have "fmt_RFC3339 t \<noteq> []" by (simp add: fmt_RFC3339_def fmt_time_def Let_def split: prod.splits)
  ultimately show ?thesis by (simp add: parseTime_def)
qed

end
