(* ===== verification/GrpcService.thy ===== *)
theory GrpcService
  imports GrpcMessages RestRouter
begin

text \<open>
  \<open>internal/api/grpc/service.go\<close> and \<open>auth_interceptor.go\<close>: the methods of the gRPC front end
  and the interceptor in front of them. It serves the same services as the REST front end; the
  decoding of a message and the transport are \<open>grpc-go\<close>'s.
\<close>

subsection \<open>Calls\<close>

text \<open>A call: its context, the values of the metadata key \<open>authorization\<close>, the claims in the context.\<close>

record grpc_call =
  gc_ctx :: ctx
  gc_authorization :: "string list"
  gc_claims :: "Claims option"

text \<open>A status error, or an error passed on as it is.\<close>

datatype code = InvalidArgument | NotFound | Internal | Unauthenticated | Unimplemented

datatype rpc_error = Status code string | Plain err

type_synonym 'a rpc = "rpc_error + 'a"

text \<open>What the conversions need: the printing of a value and the length of an encoding.\<close>

record prints =
  pp_value :: "goval \<Rightarrow> string"
  pp_length :: "goval \<Rightarrow> nat"

definition invalid :: "string \<Rightarrow> 'b api \<Rightarrow> 'a rpc \<times> 'b api" where
  "invalid msg s = (Inl (Status InvalidArgument msg), s)"

definition toStatusError :: "err \<Rightarrow> rpc_error" where
  "toStatusError e = (if errors_Is e ErrNotFound then Status NotFound (err_Error e) else Status Internal (err_Error e))"

subsection \<open>Nodes\<close>

definition G_CreateNode :: "'b env \<Rightarrow> prints \<Rightarrow> grpc_call \<Rightarrow> pb_Node option \<Rightarrow> 'b api \<Rightarrow> pb_Node rpc \<times> 'b api" where
  "G_CreateNode E P c req s =
     (case req of
        None \<Rightarrow> invalid ''node must not be empty'' s
      | Some m \<Rightarrow>
        (let node = nodeFromProto m in
         if n_NodeID node = [] then invalid ''nodeId must not be empty'' s
         else if n_NodeType node = [] then invalid ''nodeType must not be empty'' s
         else if \<not> NodeType_Valid (n_NodeType node) then invalid (''unknown nodeType: '' @ n_NodeType node) s
         else if n_Name node = [] then invalid ''name must not be empty'' s
         else if n_Status node = [] then invalid ''status must not be empty'' s
         else if n_OwnerCommunityID node = [] then invalid ''ownerCommunityId must not be empty'' s
         else
           (case with_kg (KG_RegisterNode (en_Publish E) (gc_ctx c) (Some node)) s of
              ((_, Some e), s1) \<Rightarrow> (Inl (toStatusError e), s1)
            | ((n, None), s1) \<Rightarrow> (Inr (nodeToProto (pp_value P) (the n)), s1))))"

definition G_GetNode :: "prints \<Rightarrow> grpc_call \<Rightarrow> string \<Rightarrow> 'b api \<Rightarrow> pb_Node rpc \<times> 'b api" where
  "G_GetNode P c nodeID s =
     (if nodeID = [] then invalid ''nodeId must not be empty'' s
      else case with_kg (KG_GetNode (gc_ctx c) nodeID) s of
             (Inl e, s1) \<Rightarrow> (Inl (toStatusError e), s1)
           | (Inr n, s1) \<Rightarrow> (Inr (nodeToProto (pp_value P) n), s1))"

definition G_UpdateNode :: "'b env \<Rightarrow> prints \<Rightarrow> grpc_call \<Rightarrow> UpdateNodeRequest \<Rightarrow> 'b api \<Rightarrow> pb_Node rpc \<times> 'b api" where
  "G_UpdateNode E P c req s =
     (if un_NodeId req = [] then invalid ''nodeId must not be empty'' s
      else if un_Changes req = [] then invalid ''changes must not be empty'' s
      else
        (let changes = the (stringMapToAnyMap (un_Changes req)) in
         case with_kg (KG_UpdateNode (en_Publish E) (gc_ctx c) (un_NodeId req) changes) s of
           (Inl e, s1) \<Rightarrow> (Inl (toStatusError e), s1)
         | (Inr n, s1) \<Rightarrow> (Inr (nodeToProto (pp_value P) n), s1)))"

definition G_DeleteNode :: "'b env \<Rightarrow> grpc_call \<Rightarrow> string \<Rightarrow> 'b api \<Rightarrow> unit rpc \<times> 'b api" where
  "G_DeleteNode E c nodeID s =
     (if nodeID = [] then invalid ''nodeId must not be empty'' s
      else case with_kg (KG_GetNode (gc_ctx c) nodeID) s of
             (Inl e, s1) \<Rightarrow> (Inl (toStatusError e), s1)
           | (Inr _, s1) \<Rightarrow>
             (case with_kg (KG_DeleteNode (en_Publish E) (gc_ctx c) nodeID) s1 of
                (Some e, s2) \<Rightarrow> (Inl (toStatusError e), s2)
              | (None, s2) \<Rightarrow> (Inr (), s2)))"

definition G_ListNodes :: "prints \<Rightarrow> grpc_call \<Rightarrow> ListNodesRequest \<Rightarrow> 'b api \<Rightarrow> pb_Node list rpc \<times> 'b api" where
  "G_ListNodes P c req s =
     (let opts = \<lparr>lo_NodeType = ln_NodeType req, lo_OwnerCommunityID = ln_OwnerCommunityId req,
            lo_Status = ln_Status req, lo_Limit = sint (ln_Limit req), lo_Offset = sint (ln_Offset req)\<rparr>
      in case with_kg (KG_ListNodes (gc_ctx c) opts) s of
           (Inl e, s1) \<Rightarrow> (Inl (toStatusError e), s1)
         | (Inr ns, s1) \<Rightarrow> (Inr (map (nodeToProto (pp_value P)) ns), s1))"

subsection \<open>Relationships and the graph\<close>

definition G_CreateRelationship :: "'b env \<Rightarrow> prints \<Rightarrow> grpc_call \<Rightarrow> CreateRelationshipRequest \<Rightarrow> 'b api \<Rightarrow>
    pb_Relationship rpc \<times> 'b api" where
  "G_CreateRelationship E P c req s =
     (if pc_FromNodeId req = [] then invalid ''fromNodeId must not be empty'' s
      else if pc_ToNodeId req = [] then invalid ''toNodeId must not be empty'' s
      else if pc_RelType req = [] then invalid ''relType must not be empty'' s
      else if \<not> RelType_Valid (pc_RelType req) then invalid (''unknown relType: '' @ pc_RelType req) s
      else
        (let rel = \<lparr>r_RelID = uuid_of (ap_world s), r_FromNodeID = pc_FromNodeId req, r_ToNodeID = pc_ToNodeId req,
               r_RelType = pc_RelType req, r_Properties = stringMapToAnyMap (pc_Properties req), r_CreatedAt = 0\<rparr>;
             s0 = tick_api s
         in case with_kg (KG_CreateRelationship (en_Publish E) (gc_ctx c) (Some rel)) s0 of
              (Some e, s1) \<Rightarrow> (Inl (toStatusError e), s1)
            | (None, s1) \<Rightarrow>
              (Inr (relToProto (pp_value P) (rel\<lparr>r_CreatedAt := now_of (ap_world s0)\<rparr>)), s1)))"

definition G_DeleteRelationship :: "'b env \<Rightarrow> grpc_call \<Rightarrow> string \<Rightarrow> 'b api \<Rightarrow> unit rpc \<times> 'b api" where
  "G_DeleteRelationship E c relID s =
     (if relID = [] then invalid ''relId must not be empty'' s
      else case with_kg (KG_DeleteRelationship (en_Publish E) (gc_ctx c) relID) s of
             (Some e, s1) \<Rightarrow> (Inl (toStatusError e), s1)
           | (None, s1) \<Rightarrow> (Inr (), s1))"

definition G_QueryGraph :: "prints \<Rightarrow> grpc_call \<Rightarrow> QueryGraphRequest \<Rightarrow> 'b api \<Rightarrow> pb_Relationship list rpc \<times> 'b api" where
  "G_QueryGraph P c req s =
     (if qg_NodeId req = [] then invalid ''nodeId must not be empty'' s
      else
        (let depth = (if 0 < sint (qg_MaxDepth req) then sint (qg_MaxDepth req) else 0);
             opts = \<lparr>to_RelType = qg_RelType req,
               to_Direction = (if qg_Direction req = [] then ''out'' else qg_Direction req),
               to_MaxDepth = (if depth = 0 then 1 else depth)\<rparr>
         in case with_kg (TraverseGraph (gc_ctx c) (qg_NodeId req) opts) s of
              (Inl e, s1) \<Rightarrow> (Inl (toStatusError e), s1)
            | (Inr rs, s1) \<Rightarrow> (Inr (map (relToProto (pp_value P)) rs), s1)))"

subsection \<open>Events and schemas\<close>

definition grpc_replay_options :: "ReplayEventsRequest \<Rightarrow> string + ReplayOptions" where
  "grpc_replay_options req =
     (case optional_time (re_StartTime req) of
        None \<Rightarrow> Inl ''startTime''
      | Some st \<Rightarrow>
        (case optional_time (re_EndTime req) of
           None \<Rightarrow> Inl ''endTime''
         | Some et \<Rightarrow> Inr \<lparr>ro_EventTypes = clean_types (re_EventTypes req), ro_SourceNodeID = re_SourceNodeId req,
             ro_StartTime = st, ro_EndTime = et, ro_Limit = sint (re_Limit req)\<rparr>))"

definition G_ReplayEvents :: "'b env \<Rightarrow> prints \<Rightarrow> grpc_call \<Rightarrow> ReplayEventsRequest \<Rightarrow> 'b api \<Rightarrow> pb_Event list rpc \<times> 'b api" where
  "G_ReplayEvents E P c req s =
     (case grpc_replay_options req of
        Inl what \<Rightarrow> invalid (what @ '' is not RFC3339'') s
      | Inr opts \<Rightarrow>
        (case en_Replay E (gc_ctx c) opts (ap_bus s) of
           (Inl e, b) \<Rightarrow> (Inl (toStatusError e), s\<lparr>ap_bus := b\<rparr>)
         | (Inr es, b) \<Rightarrow> (Inr (map (eventToProto (pp_value P)) es), s\<lparr>ap_bus := b\<rparr>)))"

definition G_ListSchemas :: "'b env \<Rightarrow> 'b api \<Rightarrow> pb_Schema list rpc \<times> 'b api" where
  "G_ListSchemas E s =
     (Inr (map schemaToProto (ListSchemas (en_order E (dom (sr_schemas (ap_registry s)))) (ap_registry s))), s)"

text \<open>
  A subscription: made with the listed types, then the loop over what its \<open>select\<close> finds ready.
  The result is the events sent and the error of the call.
\<close>

definition grpc_subscribe :: "'b env \<Rightarrow> string list \<Rightarrow> 'b api \<Rightarrow> nat \<times> 'b api" where
  "grpc_subscribe E types s =
     (case en_Subscribe E \<lparr>so_EventTypes = clean_types types, so_BufferSize = 0\<rparr> (ap_bus s) of
        (k, b) \<Rightarrow> (k, s\<lparr>ap_bus := b\<rparr>))"

datatype stream_input = StreamDone err | StreamClosed | StreamEvent Event verdict

fun subscribe_loop :: "prints \<Rightarrow> stream_input list \<Rightarrow> pb_Event list \<times> verdict" where
  "subscribe_loop P [] = ([], None)"
| "subscribe_loop P (StreamDone e # ins) = ([], Some e)"
| "subscribe_loop P (StreamClosed # ins) = ([], None)"
| "subscribe_loop P (StreamEvent e failed # ins) =
     (case failed of
        Some err \<Rightarrow> ([], Some err)
      | None \<Rightarrow> (case subscribe_loop P ins of (sent, v) \<Rightarrow> (eventToProto (pp_value P) e # sent, v)))"

subsection \<open>Telemetry\<close>

definition grpcIngestBatch :: nat where
  "grpcIngestBatch = 512"

text \<open>The clock is read for every frame, whether the frame has a time or not.\<close>

definition telemetryFrameFromProto :: "time \<Rightarrow> pb_TelemetryFrame \<Rightarrow> TelemetryFrame" where
  "telemetryFrameFromProto now f =
     \<lparr>tf_SatelliteID = pt_SatelliteId f,
      tf_Timestamp = (if pt_Timestamp f = [] then now
                      else case parse_time (pt_Timestamp f) of None \<Rightarrow> now | Some t \<Rightarrow> t),
      tf_Parameters = Some (map (map_prod id GStr) (pt_Parameters f)), tf_Quality = pt_Quality f\<rparr>"

definition frame_json :: "TelemetryFrame \<Rightarrow> goval" where
  "frame_json f = GStruct
     [(''satelliteId'', GStr (tf_SatelliteID f)), (''timestamp'', GTime (tf_Timestamp f)),
      (''parameters'', map_value (tf_Parameters f)), (''quality'', GStr (tf_Quality f))]"

definition frame_bytes :: "prints \<Rightarrow> TelemetryFrame \<Rightarrow> int" where
  "frame_bytes P f = (case json_norm (frame_json f) of Inl _ \<Rightarrow> 0 | Inr w \<Rightarrow> int (pp_length P w))"

text \<open>The variables of the loop: the frames not yet flushed, and the counts.\<close>

record ingest =
  ig_batch :: "TelemetryFrame list"
  ig_accepted :: nat
  ig_total :: nat
  ig_bytes :: int

text \<open>A pipeline call from the shared state; the error of a batch without any good frame counts as none.\<close>

definition flush :: "'b env \<Rightarrow> grpc_call \<Rightarrow> ingest \<times> 'b api \<Rightarrow> ingest \<times> 'b api" where
  "flush E c = (\<lambda>(v, s).
     if ig_batch v = [] then (v, s)
     else case with_tele (IngestFrames (en_Publish E) (gc_ctx c) (ig_batch v)) (the (ap_pipeline s)) s of
            (r, s1) \<Rightarrow>
              (v\<lparr>ig_batch := [], ig_accepted := ig_accepted v + (case r of Inl _ \<Rightarrow> 0 | Inr n \<Rightarrow> n)\<rparr>, s1))"

definition receive :: "'b env \<Rightarrow> prints \<Rightarrow> grpc_call \<Rightarrow> pb_TelemetryFrame \<Rightarrow> ingest \<times> 'b api \<Rightarrow> ingest \<times> 'b api" where
  "receive E P c f = (\<lambda>(v, s).
     let pf = telemetryFrameFromProto (now_of (ap_world s)) f;
         v1 = v\<lparr>ig_total := ig_total v + 1, ig_bytes := ig_bytes v + frame_bytes P pf, ig_batch := ig_batch v @ [pf]\<rparr>
     in if grpcIngestBatch \<le> length (ig_batch v1) then flush E c (v1, tick_api s) else (v1, tick_api s))"

definition no_ingest :: ingest where
  "no_ingest = \<lparr>ig_batch = [], ig_accepted = 0, ig_total = 0, ig_bytes = 0\<rparr>"

text \<open>A stream: the frames received, then the end of it or an error.\<close>

definition call_request :: "grpc_call \<Rightarrow> http_request" where
  "call_request c = \<lparr>rq_Authorization = [], rq_XAPIKey = [], rq_nodeId = [], rq_claims = gc_claims c, rq_ctx = gc_ctx c\<rparr>"

definition G_IngestTelemetry :: "'b env \<Rightarrow> prints \<Rightarrow> grpc_call \<Rightarrow> pb_TelemetryFrame list \<Rightarrow> verdict \<Rightarrow> 'b api \<Rightarrow>
    IngestTelemetryResponse rpc \<times> 'b api" where
  "G_IngestTelemetry E P c fs ending s =
     (if ap_pipeline s = None then (Inl (Status Unimplemented ''telemetry pipeline is not enabled''), s)
      else
        (let (v, s1) = fold (receive E P c) fs (no_ingest, s) in
         case ending of
           Some err \<Rightarrow> (Inl (Plain err), s1)
         | None \<Rightarrow>
           (let (v2, s2) = flush E c (v, s1) in
            (Inr \<lparr>it_Accepted = of_nat (ig_accepted v2), it_Total = of_nat (ig_total v2)\<rparr>,
             meter_ingest (call_request c) ''/grpc/IngestTelemetry'' (int (ig_total v2)) (ig_bytes v2) s2))))"

subsection \<open>Authentication\<close>

definition trim_prefix :: "string \<Rightarrow> string \<Rightarrow> string" where
  "trim_prefix p s = (if has_prefix p s then drop (length p) s else s)"

definition extractCredential :: "grpc_call \<Rightarrow> string" where
  "extractCredential c =
     (case gc_authorization c of [] \<Rightarrow> [] | v # _ \<Rightarrow> trim_space (trim_prefix ''Bearer '' (trim_space v)))"

definition with_claims :: "Claims \<Rightarrow> grpc_call \<Rightarrow> grpc_call" where
  "with_claims cl c = c\<lparr>gc_claims := Some cl\<rparr>"

text \<open>As in the HTTP filter, the clock is moved past all readings. \<open>configured\<close>: there is a token manager.\<close>

definition authenticate :: "'b env \<Rightarrow> bool \<Rightarrow> grpc_call \<Rightarrow> 'b api \<Rightarrow> grpc_call rpc \<times> 'b api" where
  "authenticate E configured c s =
     (let cred = extractCredential c; L = en_jwt E; tm = ap_tm s; w = ap_world s in
      if \<not> configured then (Inr c, s)
      else case (if cred = [] then Inl (External ''no credential'') else Parse L tm w cred) of
             Inr cl \<Rightarrow> (Inr (with_claims cl c), past_filter (ap_clientSvc s) s)
           | Inl _ \<Rightarrow>
             (case ap_clientSvc s of
                Some db \<Rightarrow>
                  (if has_prefix ''aos_'' cred then
                     (let w1 = tick (tick w) in
                      case ExchangeAPIKey L (en_crypt E) tm (gc_ctx c) (now_of w1) cred db of
                        (Inl e, db1) \<Rightarrow> (Inl (Status Unauthenticated ''API key invalid or revoked''), past_filter (Some db1) s)
                      | (Inr (tok, _), db1) \<Rightarrow>
                        (case Parse L tm (tick w1) tok of
                           Inl e \<Rightarrow> (Inl (Status Unauthenticated ''authentication failed''), past_filter (Some db1) s)
                         | Inr cl \<Rightarrow> (Inr (with_claims cl c), past_filter (Some db1) s)))
                   else (Inl (Status Unauthenticated ''missing token or API key''), past_filter (Some db) s))
              | None \<Rightarrow> (Inl (Status Unauthenticated ''missing token or API key''), past_filter None s)))"

text \<open>Both interceptors: authenticate, then call the handler.\<close>

definition Intercept :: "'b env \<Rightarrow> bool \<Rightarrow> (grpc_call \<Rightarrow> 'b api \<Rightarrow> 'a rpc \<times> 'b api) \<Rightarrow> grpc_call \<Rightarrow> 'b api \<Rightarrow> 'a rpc \<times> 'b api" where
  "Intercept E configured handler c s =
     (case authenticate E configured c s of
        (Inl e, s1) \<Rightarrow> (Inl e, s1)
      | (Inr c1, s1) \<Rightarrow> handler c1 s1)"

end
