(* ===== verification/GrpcProperties.thy ===== *)
theory GrpcProperties
  imports GrpcService RestProperties
begin

text \<open>
  Properties of the gRPC front end: what its messages keep of the model, that it does to the graph
  what the REST front end does, how a stream of telemetry is accounted for, and who may call it.
\<close>

subsection \<open>Messages\<close>

definition whole_seconds :: "time \<Rightarrow> time" where
  "whole_seconds t = t - t mod second"

text \<open>A node that goes out as a message and comes back keeps its identity and texts; its times lose
  their fraction of a second and its properties become the texts they print as. A node with times
  of whole seconds and properties that are strings comes back unchanged.\<close>

theorem node_message_roundtrip:
  fixes pf :: "float64 \<Rightarrow> string" and pt :: "time \<Rightarrow> string"
  assumes "node_times_ok n"
  defines "m \<equiv> nodeToProto (sprint pf pt) n"
  shows "nodeFromProto m = n\<lparr>n_CreatedAt := whole_seconds (n_CreatedAt n), n_UpdatedAt := whole_seconds (n_UpdatedAt n),
      n_Properties := stringMapToAnyMap (anyMapToStringMap (sprint pf pt) (n_Properties n))\<rparr> \<and>
    (n_CreatedAt n mod second = 0 \<and> n_UpdatedAt n mod second = 0 \<and>
       (\<exists>kvs. n_Properties n = stringMapToAnyMap kvs) \<longrightarrow> nodeFromProto m = n)"
proof -
  have "parseTime (fmt_RFC3339 (n_CreatedAt n)) = whole_seconds (n_CreatedAt n)"
       "parseTime (fmt_RFC3339 (n_UpdatedAt n)) = whole_seconds (n_UpdatedAt n)"
    using assms(1) by (simp_all add: parseTime_fmt node_times_ok_def whole_seconds_def)
  then have a: "nodeFromProto m = n\<lparr>n_CreatedAt := whole_seconds (n_CreatedAt n), n_UpdatedAt := whole_seconds (n_UpdatedAt n),
      n_Properties := stringMapToAnyMap (anyMapToStringMap (sprint pf pt) (n_Properties n))\<rparr>"
    by (simp add: m_def nodeFromProto_def nodeToProto_def)
  have b: "nodeFromProto m = n" if "n_CreatedAt n mod second = 0" "n_UpdatedAt n mod second = 0"
      "n_Properties n = stringMapToAnyMap kvs" for kvs
    unfolding a using that by (simp add: whole_seconds_def string_map_back)
  show ?thesis by (intro conjI a impI) (elim conjE exE, rule b)
qed

lemma node_message_roundtrip_witness:
  "n_Properties (nodeFromProto (nodeToProto (sprint (\<lambda>x. []) (\<lambda>t. [])) sat1)) = Some [(''mass'', GStr ''7'')]"
proof -
  have "node_times_ok sat1" by (simp add: node_times_ok_def sat1_def year_10000_def)
  from conjunct1 [OF node_message_roundtrip [OF this, of "\<lambda>x. []" "\<lambda>t. []"]] show ?thesis
    by (simp add: sat1_def anyMapToStringMap_def stringMapToAnyMap_def show_nat.simps digit_def char_of_def bit_0)
qed

subsection \<open>The two front ends do the same to the graph\<close>

text \<open>The HTTP status that corresponds to the outcome of a call.\<close>

fun rpc_status :: "nat \<Rightarrow> 'a rpc \<Rightarrow> nat" where
  "rpc_status ok (Inr x) = ok"
| "rpc_status ok (Inl (Status InvalidArgument msg)) = StatusBadRequest"
| "rpc_status ok (Inl (Status NotFound msg)) = StatusNotFound"
| "rpc_status ok (Inl (Status Internal msg)) = StatusInternalServerError"
| "rpc_status ok (Inl (Status Unauthenticated msg)) = StatusUnauthorized"
| "rpc_status ok (Inl (Status Unimplemented msg)) = StatusServiceUnavailable"
| "rpc_status ok (Inl (Plain e)) = StatusInternalServerError"

definition rest_outcome :: "response \<times> 'b api \<Rightarrow> nat \<times> 'b api" where
  "rest_outcome x = (rs_status (fst x), snd x)"

definition rpc_outcome :: "nat \<Rightarrow> 'a rpc \<times> 'b api \<Rightarrow> nat \<times> 'b api" where
  "rpc_outcome ok x = (rpc_status ok (fst x), snd x)"

lemma rpc_status_error: "rpc_status ok (Inl (toStatusError e) :: 'a rpc) = rs_status (handleServiceError e)"
  by (simp add: toStatusError_def handleServiceError_def)

lemmas outcome_simps = rest_outcome_def rpc_outcome_def rpc_status_error invalid_def bad_request_def bad_json_def Let_def

lemma agree_get:
  "hr_ctx r = gc_ctx c \<Longrightarrow> rest_outcome (H_GetNode r s) = rpc_outcome 200 (G_GetNode P c (hr_param r ''nodeId'') s)"
  by (simp add: H_GetNode_def G_GetNode_def outcome_simps split: prod.split sum.split)

lemma agree_delete:
  "hr_ctx r = gc_ctx c \<Longrightarrow> rest_outcome (H_DeleteNode E r s) = rpc_outcome 204 (G_DeleteNode E c (hr_param r ''nodeId'') s)"
  by (simp add: H_DeleteNode_def G_DeleteNode_def outcome_simps split: prod.split sum.split option.split)

lemma agree_delete_rel:
  "hr_ctx r = gc_ctx c \<Longrightarrow> rest_outcome (H_DeleteRelationship E r s) = rpc_outcome 204 (G_DeleteRelationship E c (hr_param r ''relId'') s)"
  by (simp add: H_DeleteRelationship_def G_DeleteRelationship_def outcome_simps split: prod.split sum.split option.split)

lemma agree_update:
  assumes "hr_ctx r = gc_ctx c" "Decode decode_map (hr_body r) = Inr (stringMapToAnyMap (un_Changes q))"
    "hr_param r ''nodeId'' = un_NodeId q"
  shows "rest_outcome (H_UpdateNode E r s) = rpc_outcome 200 (G_UpdateNode E P c q s)"
  using assms by (auto simp: H_UpdateNode_def G_UpdateNode_def outcome_simps stringMapToAnyMap_def split: prod.split sum.split)

lemma agree_list:
  assumes "hr_ctx r = gc_ctx c" "list_options r = \<lparr>lo_NodeType = ln_NodeType q, lo_OwnerCommunityID = ln_OwnerCommunityId q,
     lo_Status = ln_Status q, lo_Limit = sint (ln_Limit q), lo_Offset = sint (ln_Offset q)\<rparr>"
  shows "rest_outcome (H_ListNodes r s) = rpc_outcome 200 (G_ListNodes P c q s)"
  using assms by (simp add: H_ListNodes_def G_ListNodes_def outcome_simps split: prod.split sum.split)

lemma agree_create_rel:
  assumes "hr_ctx r = gc_ctx c"
    "Decode (decode_struct createRelationship_fields no_createRelationship) (hr_body r) = Inr \<lparr>cr_ToNodeID = pc_ToNodeId q,
       cr_RelType = pc_RelType q, cr_Properties = stringMapToAnyMap (pc_Properties q)\<rparr>"
    "hr_param r ''nodeId'' = pc_FromNodeId q"
  shows "rest_outcome (H_CreateRelationship E r s) = rpc_outcome 201 (G_CreateRelationship E P c q s)"
  using assms by (simp add: H_CreateRelationship_def G_CreateRelationship_def outcome_simps new_relationship_def
      split: prod.split sum.split option.split)

text \<open>The times of a node to register do not matter.\<close>

lemma KG_RegisterNode_times:
  "KG_RegisterNode publish c (Some (n\<lparr>n_CreatedAt := t, n_UpdatedAt := u\<rparr>)) = KG_RegisterNode publish c (Some n)"
  by (rule ext) (simp add: KG_RegisterNode_def)

lemma agree_create:
  assumes "hr_ctx r = gc_ctx c" "Decode (decode_struct createNode_fields no_createNode) (hr_body r) = Inr req"
    "node_of_request req = (nodeFromProto m)\<lparr>n_CreatedAt := 0, n_UpdatedAt := 0\<rparr>"
  shows "rest_outcome (H_CreateNode E r s) = rpc_outcome 201 (G_CreateNode E P c (Some m) s)"
  using assms by (simp add: H_CreateNode_def G_CreateNode_def create_node_check_def KG_RegisterNode_times outcome_simps
      split: prod.split option.split)


definition rpc_call :: "string list \<Rightarrow> grpc_call" where
  "rpc_call vs = \<lparr>gc_ctx = background, gc_authorization = vs, gc_claims = None\<rparr>"


subsection \<open>Who may call\<close>

lemma authenticate_claims:
  "authenticate E True c s = (Inr c1, s1) \<Longrightarrow> \<exists>cl svc. c1 = with_claims cl c \<and> s1 = past_filter svc s"
  by (auto simp: authenticate_def Let_def split: sum.splits option.splits prod.splits if_splits)

text \<open>C31: The gRPC front end authenticates its callers and then ignores who they are: whatever roles the
  credentials carry, a call to delete a node does what it does without the interceptor. The REST
  front end answers the same credentials with 403 unless they are an administrator's.\<close>

theorem grpc_ignores_roles:
  assumes "authenticate E True c s = (Inr c1, s1)"
  shows "\<exists>cl. gc_claims c1 = Some cl \<and>
    Intercept E True (\<lambda>c. G_DeleteNode E c nodeID) c s = G_DeleteNode E c nodeID s1 \<and>
    (RoleAdmin \<notin> set (cl_Roles cl) \<longrightarrow>
       RequirePermission ''node.delete'' (WithClaims cl h) = AuthError 403 ''permission denied'')"
proof -
  obtain cl svc where c1: "c1 = with_claims cl c" "s1 = past_filter svc s" using authenticate_claims [OF assms] by blast
  have ctx: "gc_ctx c1 = gc_ctx c" by (simp add: c1(1) with_claims_def)
  have "G_DeleteNode E c1 nodeID s1 = G_DeleteNode E c nodeID s1" unfolding G_DeleteNode_def ctx ..
  then have "Intercept E True (\<lambda>c. G_DeleteNode E c nodeID) c s = G_DeleteNode E c nodeID s1"
    by (simp add: Intercept_def assms)
  moreover have "RequirePermission ''node.delete'' (WithClaims cl h) = AuthError 403 ''permission denied''"
    if "RoleAdmin \<notin> set (cl_Roles cl)"
  proof -
    have "''node.delete'' \<notin> set operator_permissions" "''node.delete'' \<notin> set viewer_permissions"
      by (simp_all add: operator_permissions_def viewer_permissions_def)
    then have "\<not> HasPermission (cl_Roles cl) ''node.delete''" using that role_permissions by blast
    then show ?thesis by (simp add: RequirePermission_def ClaimsFromContext_def WithClaims_def)
  qed
  ultimately show ?thesis using c1(1) by (simp add: with_claims_def)
qed

lemma demo_authenticate:
  "\<exists>cl s1. authenticate demo_env True (rpc_call [''aos_7'']) demo_api = (Inr (with_claims cl (rpc_call [''aos_7''])), s1) \<and>
     cl_Roles cl = [RoleOperator]"
proof -
  let ?w = "tick (tick demo_world)"
  let ?cl = "client_claims plain_jwt demo_tm (now_of ?w) client1"
  have env: "en_jwt demo_env = plain_jwt" "en_crypt demo_env = plain_crypt" "ap_tm demo_api = demo_tm"
      "ap_world demo_api = demo_world" "ap_clientSvc demo_api = Some one_clientdb"
    by (simp_all add: demo_env_def demo_api_def demo_kg_def NewKGService_def)
  have cred: "extractCredential (rpc_call [''aos_7'']) = ''aos_7''" "has_prefix ''aos_'' ''aos_7''"
    by (simp_all add: extractCredential_def rpc_call_def trim_space_def is_space_def trim_prefix_def has_prefix_def)
  obtain e where bad: "Parse plain_jwt demo_tm demo_world ''aos_7'' = Inl e"
    by (simp add: Parse_def plain_jwt_def dec_claims_def)
  have list: "Client_List background one_clientdb = (Inr [client1], one_clientdb)"
    using Client_List_calm(1) [OF one_clientdb_facts(1), of background] one_clientdb_facts(3) by (simp add: background_def)
  have "VerifyAPIKey plain_crypt ''aos_7'' (c_APIKeyHash client1)"
    by (simp add: VerifyAPIKey_def validateAPIKeyFormat_def has_prefix_def plain_crypt_def client1_def)
  then have mk: "match_key plain_crypt ''aos_7'' [client1] = Some client1" by (simp add: client1_def)
  have tok: "GenerateClientToken plain_jwt demo_tm (now_of ?w) (Some client1) = Inr (enc_claims ?cl)"
    by (simp add: GenerateClientToken_def tm_sign_def plain_jwt_def client1_def)
  have ex: "ExchangeAPIKey plain_jwt plain_crypt demo_tm background (now_of ?w) ''aos_7'' one_clientdb =
      (Inr (enc_claims ?cl, client1), one_clientdb)"
    using list mk tok by (simp add: ExchangeAPIKey_def)
  have sg: "tm_sign plain_jwt demo_tm ?cl = Inr (enc_claims ?cl)" by (simp add: tm_sign_def plain_jwt_def)
  have "cl_ExpiresAt ?cl = Some (Truncate (new_year_2026 + 24 * hour) second)"
    by (simp add: client_claims_def plain_jwt_def demo_tm_def NewTokenManager_def demo_world_def now_of_def)
  from Parse_signed [OF plain_jwt_faithful sg this, of "tick ?w"]
  have parse: "Parse plain_jwt demo_tm (tick ?w) (enc_claims ?cl) = Inr ?cl"
    by (simp add: demo_world_def now_of_def Truncate_def new_year_2026_def)
  have "gc_ctx (rpc_call [''aos_7'']) = background" by (simp add: rpc_call_def)
  then have "authenticate demo_env True (rpc_call [''aos_7'']) demo_api =
      (Inr (with_claims ?cl (rpc_call [''aos_7''])), past_filter (Some one_clientdb) demo_api)"
    using cred bad ex parse by (simp add: authenticate_def env Let_def)
  moreover have "cl_Roles ?cl = [RoleOperator]" by (simp add: client_claims_def client1_def)
  ultimately show ?thesis by blast
qed

lemma grpc_ignores_roles_witness:
  "\<exists>s1. Intercept demo_env True (\<lambda>c. G_DeleteNode demo_env c ''sat-1'') (rpc_call [''aos_7'']) demo_api =
       G_DeleteNode demo_env (rpc_call [''aos_7'']) ''sat-1'' s1 \<and>
     (\<exists>cl. RequirePermission ''node.delete'' (WithClaims cl key_request) = AuthError 403 ''permission denied'')"
proof -
  obtain cl s1 where a: "authenticate demo_env True (rpc_call [''aos_7'']) demo_api = (Inr (with_claims cl (rpc_call [''aos_7''])), s1)"
      "cl_Roles cl = [RoleOperator]" using demo_authenticate by blast
  from grpc_ignores_roles [OF a(1), of "''sat-1''" key_request] a(2) show ?thesis by (auto simp: with_claims_def)
qed

subsection \<open>Updates cannot reach the properties\<close>

lemma apply_strings_keep:
  "n_Properties (applyChanges n (map (map_prod id GStr) kvs)) = n_Properties n"
proof -
  have "n_Properties (apply_change (k, GStr v) n) = n_Properties n" for k v n by (simp add: apply_change_def)
  then show ?thesis by (induction kvs arbitrary: n) (auto simp: applyChanges_def)
qed


definition stored_api :: "SQLiteEventStore LocalBus api" where
  "stored_api = demo_api\<lparr>ap_kg := stored_kg, ap_bus := kg_bus stored_kg, ap_world := kg_world stored_kg\<rparr>"

definition demo_prints :: prints where
  "demo_prints = \<lparr>pp_value = sprint (\<lambda>x. []) (\<lambda>t. []), pp_length = (\<lambda>v. 0)\<rparr>"

text \<open>A gRPC update of the stored node that names its properties.\<close>

definition demo_update :: UpdateNodeRequest where
  "demo_update = \<lparr>un_NodeId = ''sat-1'', un_Changes = [(''properties'', ''mass=8'')]\<rparr>"


subsection \<open>Accounting of a telemetry stream\<close>

lemma ingest_all_drops:
  "ingest_all publish c fs p = (n, q) \<Longrightarrow>
   n \<le> length fs \<and> tm_DropCount (tp_metrics q) + n = tm_DropCount (tp_metrics p) + length fs"
proof (induction fs arbitrary: p n q)
  case (Cons f fs)
  obtain ok p1 where i: "ingest_frame publish c f p = (ok, p1)" by fastforce
  obtain k p2 where a: "ingest_all publish c fs p1 = (k, p2)" by fastforce
  have "tm_DropCount (tp_metrics p1) = tm_DropCount (tp_metrics p) + (if ok then 0 else 1)"
    using i by (auto simp: ingest_frame_def count_drop_def split: prod.splits sum.splits option.splits)
  then show ?case using Cons.IH [OF a] Cons.prems i a by (auto split: if_splits)
qed simp

lemma IngestFrames_drops:
  assumes "IngestFrames publish c fs p = (r, q)" "fs \<noteq> []"
  defines "n \<equiv> case r of Inl _ \<Rightarrow> 0 | Inr n \<Rightarrow> n"
  shows "n \<le> length fs \<and> tm_DropCount (tp_metrics q) + n = tm_DropCount (tp_metrics p) + length fs"
proof -
  obtain k p1 where "ingest_all publish c fs p = (k, p1)" by fastforce
  with ingest_all_drops [OF this] show ?thesis using assms by (auto simp: IngestFrames_def split: if_splits)
qed

definition drops :: "'b api \<Rightarrow> nat" where
  "drops s = (case ap_pipeline s of None \<Rightarrow> 0 | Some p \<Rightarrow> tm_DropCount (tp_metrics p))"

text \<open>The balance of the loop: every frame received is accepted, dropped or waiting.\<close>

definition balance :: "nat \<Rightarrow> ingest \<times> 'b api \<Rightarrow> bool" where
  "balance d = (\<lambda>(v, s). ap_pipeline s \<noteq> None \<and> d \<le> drops s \<and>
     drops s + ig_accepted v + length (ig_batch v) = d + ig_total v)"

lemma flush_balance:
  assumes "balance d x" "flush E c x = (v', s')"
  shows "balance d (v', s') \<and> ig_batch v' = [] \<and> ig_total v' = ig_total (fst x)"
proof -
  obtain v s where x: "x = (v, s)" by fastforce
  show ?thesis
  proof (cases "ig_batch v = []")
    case False
    obtain p where p: "ap_pipeline s = Some p" using assms(1) by (auto simp: balance_def x)
    let ?q = "p\<lparr>tp_bus := ap_bus s, tp_world := ap_world s, tp_manager := map_option GetParser (ap_plugins s)\<rparr>"
    obtain r q where r: "IngestFrames (en_Publish E) (gc_ctx c) (ig_batch v) ?q = (r, q)" by fastforce
    have v': "v' = v\<lparr>ig_batch := [], ig_accepted := ig_accepted v + (case r of Inl _ \<Rightarrow> 0 | Inr n \<Rightarrow> n)\<rparr>"
        "ap_pipeline s' = Some q"
      using assms(2) False r by (auto simp: flush_def x p with_tele_def)
    show ?thesis
      using IngestFrames_drops [OF r False] assms(1) p by (auto simp: v' x balance_def drops_def split: sum.splits)
  qed (use assms in \<open>auto simp: flush_def x\<close>)
qed

lemma receive_balance:
  assumes "balance d x"
  shows "balance d (receive E P c f x) \<and> ig_total (fst (receive E P c f x)) = Suc (ig_total (fst x)) \<and>
    (length (ig_batch (fst x)) < grpcIngestBatch \<longrightarrow> length (ig_batch (fst (receive E P c f x))) < grpcIngestBatch)"
proof -
  obtain v s where x: "x = (v, s)" by fastforce
  let ?pf = "telemetryFrameFromProto (now_of (ap_world s)) f"
  let ?v1 = "v\<lparr>ig_total := ig_total v + 1, ig_bytes := ig_bytes v + frame_bytes P ?pf, ig_batch := ig_batch v @ [?pf]\<rparr>"
  have b: "balance d (?v1, tick_api s)" using assms by (simp add: x balance_def drops_def)
  show ?thesis
  proof (cases "grpcIngestBatch \<le> length (ig_batch ?v1)")
    case True
    obtain v' s' where fl: "flush E c (?v1, tick_api s) = (v', s')" by fastforce
    have "receive E P c f x = (v', s')" using True fl by (simp add: receive_def x Let_def)
    then show ?thesis using flush_balance [OF b fl] by (simp add: x grpcIngestBatch_def)
  next
    case False
    then have "receive E P c f x = (?v1, tick_api s)" by (simp add: receive_def x Let_def)
    then show ?thesis using b False by (simp add: x)
  qed
qed

lemma receive_all:
  assumes "balance d x" "length (ig_batch (fst x)) < grpcIngestBatch"
  shows "balance d (fold (receive E P c) fs x) \<and> ig_total (fst (fold (receive E P c) fs x)) = ig_total (fst x) + length fs \<and>
    length (ig_batch (fst (fold (receive E P c) fs x))) < grpcIngestBatch"
  using assms
proof (induction fs arbitrary: x)
  case (Cons f fs)
  then show ?case using receive_balance [OF Cons.prems(1), of E P c f] by auto
qed simp


definition demo_pframe :: pb_TelemetryFrame where
  "demo_pframe = \<lparr>pt_SatelliteId = ''sat-1'', pt_Timestamp = [], pt_Parameters = [(''bus_v'', ''28'')], pt_Quality = ''good''\<rparr>"


end
