(* ===== verification/DataMigration.thy ===== *)
theory DataMigration
  imports RelRepo
begin

text \<open>
  \<open>internal/core/migrate.go\<close>: the import of a SQLite graph into PostgreSQL. Both tables are
  read in the order of their keys and written in batches, a transaction for each; a row whose
  key the target has is skipped. Whatever call of a driver fails, the target holds whole
  batches of the source and all it held before, and a later run completes the import to the
  tables an undisturbed run gives.
\<close>

subsection \<open>Cells\<close>

text \<open>
  What \<open>Scan\<close> puts into an \<open>any\<close>: nil, a text as string or bytes, a number or a boolean. The
  text of a column is a string or, for the column \<open>properties\<close>, a JSON text. \<open>COther\<close> stands
  for the other values a driver may return (floats, times), with the text \<open>fmt.Sprint\<close> gives.
\<close>

datatype coltext = Str string | Doc json_text

datatype cell = CNil | CString coltext | CBytes coltext | CInt int | CBool bool | COther string

fun anyToString :: "cell \<Rightarrow> coltext" where
  "anyToString CNil = Str []"
| "anyToString (CString t) = t"
| "anyToString (CBytes t) = t"
| "anyToString (CInt i) = Str ((if i < 0 then ''-'' else []) @ show_nat (nat \<bar>i\<bar>))"
| "anyToString (CBool b) = Str (if b then ''true'' else ''false'')"
| "anyToString (COther s) = Str s"

text \<open>A text written to a plain column and to a JSON column; the empty text is the empty JSON text.\<close>

fun plain :: "coltext \<Rightarrow> string" where
  "plain (Str s) = s"
| "plain (Doc _) = []"

fun json_col :: "coltext \<Rightarrow> json_text" where
  "json_col (Doc j) = j"
| "json_col (Str _) = JEmpty"

text \<open>The columns of the two \<open>SELECT\<close>s and of the two \<open>INSERT\<close>s.\<close>

definition node_cells :: "node_row \<Rightarrow> cell list" where
  "node_cells r =
     map (\<lambda>s. CString (Str s))
       [nr_node_id r, nr_node_type r, nr_name r, nr_status r, nr_owner_community_id r,
        nr_created_at r, nr_updated_at r, nr_shard_key r, nr_federation_id r]
     @ [CString (Doc (nr_properties r))]"

definition rel_cells :: "rel_row \<Rightarrow> cell list" where
  "rel_cells r =
     [CString (Str (rr_rel_id r)), CString (Str (rr_from_node_id r)), CString (Str (rr_to_node_id r)),
      CString (Str (rr_rel_type r)), CString (Doc (rr_properties r)), CString (Str (rr_created_at r))]"

definition node_of_args :: "coltext list \<Rightarrow> node_row" where
  "node_of_args a =
     \<lparr>nr_node_id = plain (a ! 0), nr_node_type = plain (a ! 1), nr_name = plain (a ! 2),
      nr_status = plain (a ! 3), nr_owner_community_id = plain (a ! 4), nr_created_at = plain (a ! 5),
      nr_updated_at = plain (a ! 6), nr_shard_key = plain (a ! 7), nr_federation_id = plain (a ! 8),
      nr_properties = json_col (a ! 9)\<rparr>"

definition rel_of_args :: "coltext list \<Rightarrow> rel_row" where
  "rel_of_args a =
     \<lparr>rr_rel_id = plain (a ! 0), rr_from_node_id = plain (a ! 1), rr_to_node_id = plain (a ! 2),
      rr_rel_type = plain (a ! 3), rr_properties = json_col (a ! 4), rr_created_at = plain (a ! 5)\<rparr>"

lemma node_cells_args [simp]:
  "length (node_cells r) = 10" "node_of_args (map anyToString (node_cells r)) = r"
  by (simp_all add: node_cells_def node_of_args_def)

lemma rel_cells_args [simp]:
  "length (rel_cells r) = 6" "rel_of_args (map anyToString (rel_cells r)) = r"
  by (simp_all add: rel_cells_def rel_of_args_def)

subsection \<open>Copying the rows of one table\<close>

text \<open>\<open>INSERT ... ON CONFLICT (key) DO NOTHING\<close> and the rows it affects.\<close>

definition insert_nothing :: "('r \<Rightarrow> 'k) \<Rightarrow> 'r \<Rightarrow> 'r list \<Rightarrow> nat \<times> 'r list" where
  "insert_nothing key r tbl = (if key r \<in> key ` set tbl then (0, tbl) else (1, tbl @ [r]))"

record 'r table = driver +
  tb_rows :: "'r list"

text \<open>The outcome of the loop: \<open>newCount\<close>, \<open>skipped\<close>, \<open>err\<close>, and the two databases.\<close>

type_synonym 'r copied = "(nat \<times> nat \<times> verdict) \<times> driver \<times> 'r table"

text \<open>
  \<open>commitBatch\<close>: \<open>Commit\<close>, \<open>BeginTx\<close>, \<open>PrepareContext\<close>, each of which may fail. \<open>work\<close> is
  the table as the transaction sees it. A transaction that fails to commit, or is rolled back,
  leaves the table as it was.
\<close>

definition begin_tx :: "'r table \<Rightarrow> verdict \<times> 'r table" where
  "begin_tx dst =
     (case next_fault dst of
        Some e \<Rightarrow> (Some e, consume dst)
      | None \<Rightarrow> (next_fault (consume dst), consume (consume dst)))"

definition commit_tx :: "'r list \<Rightarrow> 'r table \<Rightarrow> verdict \<times> 'r table" where
  "commit_tx work dst =
     (case next_fault dst of
        Some e \<Rightarrow> (Some e, consume dst)
      | None \<Rightarrow> (None, (consume dst)\<lparr>tb_rows := work\<rparr>))"

definition commitBatch :: "'r list \<Rightarrow> 'r table \<Rightarrow> verdict \<times> 'r table" where
  "commitBatch work dst =
     (case commit_tx work dst of
        (Some e, d1) \<Rightarrow> (Some e, d1)
      | (None, d1) \<Rightarrow> begin_tx d1)"

text \<open>\<open>ExecContext\<close> and \<open>RowsAffected\<close>.\<close>

definition exec_insert :: "('r \<Rightarrow> 'k) \<Rightarrow> (coltext list \<Rightarrow> 'r) \<Rightarrow> cell list \<Rightarrow> 'r list \<Rightarrow> 'r table \<Rightarrow>
    (nat \<times> 'r list) res \<times> 'r table" where
  "exec_insert key mk raw work dst =
     (case next_fault dst of
        Some e \<Rightarrow> (Inl e, consume dst)
      | None \<Rightarrow>
        (case next_fault (consume dst) of
           Some e \<Rightarrow> (Inl e, consume (consume dst))
         | None \<Rightarrow> (Inr (insert_nothing key (mk (map anyToString raw)) work), consume (consume dst))))"

text \<open>
  The loop over \<open>rows\<close>. A failure of \<open>rows.Next\<close> ends it with \<open>rows.Err\<close>; \<open>Scan\<close> refuses a
  row of another width. \<open>n\<close>, \<open>s\<close> and \<open>k\<close> are \<open>newCount\<close>, \<open>skipped\<close> and \<open>rowInTx\<close>.
\<close>

fun copy_loop :: "('r \<Rightarrow> 'k) \<Rightarrow> (coltext list \<Rightarrow> 'r) \<Rightarrow> nat \<Rightarrow> int \<Rightarrow> cell list list \<Rightarrow> nat \<Rightarrow> nat \<Rightarrow> nat \<Rightarrow>
    'r list \<Rightarrow> driver \<Rightarrow> 'r table \<Rightarrow> 'r copied" where
  "copy_loop key mk columns batch [] n s k work src dst =
     (case next_fault src of
        Some e \<Rightarrow> ((n, s, Some e), consume src, dst)
      | None \<Rightarrow>
        (if 0 < k
         then (case commit_tx work dst of (v, d1) \<Rightarrow> ((n, s, v), consume src, d1))
         else ((n, s, None), consume src, dst)))"
| "copy_loop key mk columns batch (raw # rows) n s k work src dst =
     (case next_fault src of
        Some e \<Rightarrow> ((n, s, Some e), consume src, dst)
      | None \<Rightarrow>
        (case (if length raw \<noteq> columns then Some (External ''sql: wrong number of destination arguments in Scan'')
               else next_fault (consume src)) of
           Some e \<Rightarrow> ((n, s, Some e), consume (consume src), dst)
         | None \<Rightarrow>
           (case exec_insert key mk raw work dst of
              (Inl e, d1) \<Rightarrow> ((n, s, Some e), consume (consume src), d1)
            | (Inr (affected, work1), d1) \<Rightarrow>
              (let n1 = (if 0 < affected then Suc n else n);
                   s1 = (if 0 < affected then s else Suc s)
               in if batch \<le> int (Suc k)
                  then (case commitBatch work1 d1 of
                          (Some e, d2) \<Rightarrow> ((n1, s1, Some e), consume (consume src), d2)
                        | (None, d2) \<Rightarrow> copy_loop key mk columns batch rows n1 s1 0 work1 (consume (consume src)) d2)
                  else copy_loop key mk columns batch rows n1 s1 (Suc k) work1 (consume (consume src)) d1))))"

definition copyRows :: "('r \<Rightarrow> 'k) \<Rightarrow> (coltext list \<Rightarrow> 'r) \<Rightarrow> nat \<Rightarrow> cell list list \<Rightarrow> int \<Rightarrow> driver \<Rightarrow>
    'r table \<Rightarrow> 'r copied" where
  "copyRows key mk columns rows batch src dst =
     (case begin_tx dst of
        (Some e, d1) \<Rightarrow> ((0, 0, Some e), src, d1)
      | (None, d1) \<Rightarrow> copy_loop key mk columns batch rows 0 0 0 (tb_rows d1) src d1)"

subsection \<open>The migration\<close>

record MigrationStats =
  NodesNew :: nat
  NodesSkipped :: nat
  RelsNew :: nat
  RelsSkipped :: nat

definition no_stats :: MigrationStats where
  "no_stats = \<lparr>NodesNew = 0, NodesSkipped = 0, RelsNew = 0, RelsSkipped = 0\<rparr>"

text \<open>The default batch, and the query of a source table under the caller's context.\<close>

definition batch_size :: "int \<Rightarrow> int" where
  "batch_size BatchSize = (if BatchSize < 1 then 500 else BatchSize)"

definition query_source :: "ctx \<Rightarrow> driver \<Rightarrow> verdict \<times> driver" where
  "query_source c src = (case ctx_err c of Some e \<Rightarrow> (Some e, src) | None \<Rightarrow> (next_fault src, consume src))"

text \<open>One table: read it in the order of its keys and copy it.\<close>

definition copy_table :: "ctx \<Rightarrow> string \<Rightarrow> string \<Rightarrow> ('r \<Rightarrow> string) \<Rightarrow> ('r \<Rightarrow> cell list) \<Rightarrow> (coltext list \<Rightarrow> 'r) \<Rightarrow> nat \<Rightarrow>
    int \<Rightarrow> 'r list \<Rightarrow> driver \<Rightarrow> 'r table \<Rightarrow> 'r copied" where
  "copy_table c reading importing key cells mk columns batch source src dst =
     (case query_source c src of
        (Some e, s1) \<Rightarrow> ((0, 0, Some (Wrap reading e)), s1, dst)
      | (None, s1) \<Rightarrow>
        (case copyRows key mk columns (map cells (sort_key key source)) batch s1 dst of
           ((n, s, Some e), s2, d2) \<Rightarrow> ((0, 0, Some (Wrap importing e)), s2, d2)
         | ((n, s, None), s2, d2) \<Rightarrow> ((n, s, None), s2, d2)))"

definition as_table :: "'r list \<Rightarrow> 'a driver_scheme \<Rightarrow> 'r table" where
  "as_table rs db = \<lparr>faults = faults db, tb_rows = rs\<rparr>"

definition MigrateSQLiteToPostgres :: "ctx \<Rightarrow> int \<Rightarrow> kgdb \<Rightarrow> kgdb \<Rightarrow>
    (MigrationStats \<times> verdict) \<times> kgdb \<times> kgdb" where
  "MigrateSQLiteToPostgres c BatchSize src dst =
     (let batch = batch_size BatchSize in
      case copy_table c ''read sqlite nodes'' ''import nodes'' nr_node_id node_cells node_of_args 10 batch
             (nodes src) \<lparr>faults = faults src\<rparr> (as_table (nodes dst) dst) of
        ((nNew, nSkip, v1), s1, t1) \<Rightarrow>
          (let src1 = src\<lparr>faults := faults s1\<rparr>;
               dst1 = dst\<lparr>faults := faults t1, nodes := tb_rows t1\<rparr>
           in case v1 of
                Some e \<Rightarrow> ((no_stats, Some e), src1, dst1)
              | None \<Rightarrow>
                (let stats = no_stats\<lparr>NodesNew := nNew, NodesSkipped := nSkip\<rparr> in
                 case copy_table c ''read sqlite relationships'' ''import relationships'' rr_rel_id rel_cells rel_of_args 6
                        batch (rels src1) \<lparr>faults = faults src1\<rparr> (as_table (rels dst1) dst1) of
                   ((rNew, rSkip, v2), s2, t2) \<Rightarrow>
                     (let src2 = src1\<lparr>faults := faults s2\<rparr>;
                          dst2 = dst1\<lparr>faults := faults t2, rels := tb_rows t2\<rparr>
                      in case v2 of
                           Some e \<Rightarrow> ((stats, Some e), src2, dst2)
                         | None \<Rightarrow> ((stats\<lparr>RelsNew := rNew, RelsSkipped := rSkip\<rparr>, None), src2, dst2)))))"

subsection \<open>Merging rows under their keys\<close>

text \<open>What the inserts of a list of rows make of a table.\<close>

definition merge_rows :: "('r \<Rightarrow> 'k) \<Rightarrow> 'r list \<Rightarrow> 'r list \<Rightarrow> 'r list" where
  "merge_rows key tbl rs = fold (\<lambda>r t. snd (insert_nothing key r t)) rs tbl"

lemma merge_simps [simp]:
  "merge_rows key tbl [] = tbl"
  "merge_rows key tbl (r # rs) = merge_rows key (snd (insert_nothing key r tbl)) rs"
  "merge_rows key tbl (rs @ rs') = merge_rows key (merge_rows key tbl rs) rs'"
  by (simp_all add: merge_rows_def)

lemma keys_merge [simp]: "key ` set (merge_rows key tbl rs) = key ` set tbl \<union> key ` set rs"
  by (induction rs arbitrary: tbl) (auto simp: insert_nothing_def)

lemma merge_absorb: "key ` set rs \<subseteq> key ` set tbl \<Longrightarrow> merge_rows key tbl rs = tbl"
  by (induction rs) (auto simp: insert_nothing_def)

lemma merge_resume: "merge_rows key (merge_rows key tbl (take m rs)) rs = merge_rows key tbl rs"
proof -
  have "merge_rows key (merge_rows key tbl (take m rs)) (take m rs @ drop m rs)
      = merge_rows key (merge_rows key tbl (take m rs)) (drop m rs)"
    unfolding merge_simps by (subst merge_absorb) simp_all
  also have "\<dots> = merge_rows key tbl (take m rs @ drop m rs)" by (simp only: merge_simps)
  finally show ?thesis by simp
qed

lemma merge_again [simp]: "merge_rows key (merge_rows key tbl rs) rs = merge_rows key tbl rs"
  by (rule merge_absorb) simp

lemma merge_extends: "\<exists>more. merge_rows key tbl rs = tbl @ more"
proof (induction rs arbitrary: tbl)
  case (Cons r rs)
  from Cons [of "snd (insert_nothing key r tbl)"] show ?case by (auto simp: insert_nothing_def)
qed simp

lemma merge_distinct: "distinct (map key tbl) \<Longrightarrow> distinct (map key (merge_rows key tbl rs))"
  by (induction rs arbitrary: tbl) (auto simp: insert_nothing_def)

text \<open>As maps: the union in which the target's row wins.\<close>

lemma row_of_merge:
  "distinct (map key rs) \<Longrightarrow> row_of key (merge_rows key tbl rs) = row_of key rs ++ row_of key tbl"
proof (induction rs arbitrary: tbl)
  case (Cons r rs)
  then have IH: "row_of key (merge_rows key t rs) = row_of key rs ++ row_of key t" for t by simp
  have head: "row_of key (r # rs) = (row_of key rs)(key r \<mapsto> r)" by (auto simp: row_of_def fun_eq_iff)
  have fresh: "row_of key rs (key r) = None" using Cons.prems by (simp add: row_of_None)
  show ?case
  proof (cases "key r \<in> key ` set tbl")
    case True
    then obtain x where "row_of key tbl (key r) = Some x" using row_of_None [of key tbl "key r"] by auto
    with True show ?thesis
      by (auto simp: insert_nothing_def IH head map_add_def fun_eq_iff split: option.splits)
  next
    case False
    then have "row_of key tbl (key r) = None" by (simp add: row_of_None)
    with False show ?thesis
      by (auto simp: insert_nothing_def IH head row_of_snoc map_add_def fun_eq_iff fresh split: option.splits)
  qed
qed (simp add: row_of_def map_add_def fun_eq_iff split: option.splits)

lemma row_of_distinct:
  assumes "distinct (map key xs)" "distinct (map key ys)" "set xs = set ys"
  shows "row_of key xs = row_of key ys"
proof
  fix k
  show "row_of key xs k = row_of key ys k"
  proof (cases "row_of key xs k")
    case None
    then show ?thesis using assms(3) by (metis row_of_None)
  next
    case (Some r)
    then have r: "r \<in> set xs" "key r = k" by (auto dest: row_of_SomeD)
    with assms(3) have "k \<in> key ` set ys" by auto
    then obtain q where q: "row_of key ys k = Some q" using row_of_None [of key ys k] by auto
    then have "q \<in> set ys" "key q = k" by (auto dest: row_of_SomeD)
    with r assms have "q = r" by (metis distinct_map inj_onD)
    with Some q show ?thesis by simp
  qed
qed

lemma row_of_sorted: "distinct (map key rs) \<Longrightarrow> row_of key (sort_key f rs) = row_of key rs"
  by (rule row_of_distinct) (auto simp: distinct_map)

lemma row_of_merge_sorted:
  assumes "distinct (map key rs)"
  shows "row_of key (merge_rows key tbl (sort_key f rs)) = row_of key rs ++ row_of key tbl"
proof -
  have "distinct (map key (sort_key f rs))" using assms by (simp add: distinct_map)
  from row_of_merge [OF this] row_of_sorted [OF assms, of f] show ?thesis by simp
qed

subsection \<open>The loop\<close>

lemma commit_tx_cases:
  "commit_tx work dst = (v, d) \<Longrightarrow> tb_rows d = (if v = None then work else tb_rows dst)"
  by (auto simp: commit_tx_def consume_def split: option.splits)

lemma begin_tx_rows: "begin_tx dst = (v, d) \<Longrightarrow> tb_rows d = tb_rows dst"
  by (auto simp: begin_tx_def consume_def split: option.splits)

lemma commitBatch_cases:
  "commitBatch work dst = (v, d) \<Longrightarrow> tb_rows d = work \<or> (v \<noteq> None \<and> tb_rows d = tb_rows dst)"
  by (auto simp: commitBatch_def split: prod.splits option.splits dest!: commit_tx_cases begin_tx_rows)

lemma exec_insert_cases:
  "exec_insert key mk raw work dst = (r, d) \<Longrightarrow>
     tb_rows d = tb_rows dst \<and>
     (case r of Inl _ \<Rightarrow> True | Inr q \<Rightarrow> q = insert_nothing key (mk (map anyToString raw)) work)"
  by (auto simp: exec_insert_def consume_def split: option.splits)

text \<open>A turn of the loop that goes on.\<close>

lemma copy_loop_turn:
  "copy_loop key mk columns batch (raw # rows) n s k work src dst = ((n', s', v), src', dst') \<Longrightarrow>
   (v \<noteq> None \<and> (tb_rows dst' = tb_rows dst \<or>
      batch \<le> int (Suc k) \<and> tb_rows dst' = snd (insert_nothing key (mk (map anyToString raw)) work))) \<or>
   (\<exists>src1 d n1 s1 k1.
      let (affected, work1) = insert_nothing key (mk (map anyToString raw)) work in
      copy_loop key mk columns batch rows n1 s1 k1 work1 src1 d = ((n', s', v), src', dst') \<and>
      n1 = n + affected \<and> s1 + affected = Suc s \<and>
      (if batch \<le> int (Suc k) then k1 = 0 \<and> tb_rows d = work1 else k1 = Suc k \<and> tb_rows d = tb_rows dst))"
proof -
  assume run: "copy_loop key mk columns batch (raw # rows) n s k work src dst = ((n', s', v), src', dst')"
  show ?thesis
  proof (cases "next_fault src")
    case (Some e)
    with run have "v = Some e" "dst' = dst" by simp_all
    then show ?thesis by simp
  next
    case None
    show ?thesis
    proof (cases "if length raw \<noteq> columns then Some (External ''sql: wrong number of destination arguments in Scan'')
        else next_fault (consume src)")
      case (Some e)
      with run None have "v = Some e" "dst' = dst" by simp_all
      then show ?thesis by simp
    next
      case scanned: None
      obtain r d1 where ex: "exec_insert key mk raw work dst = (r, d1)" by (cases "exec_insert key mk raw work dst")
      note rows = exec_insert_cases [OF ex]
      show ?thesis
      proof (cases r)
        case (Inl e)
        with run None scanned ex have "v = Some e" "dst' = d1" by simp_all
        with rows show ?thesis by simp
      next
        case (Inr q)
        with rows have q: "q = insert_nothing key (mk (map anyToString raw)) work" by simp
        obtain a w1 where aw: "q = (a, w1)" by (cases q)
        have a1: "a = 0 \<or> a = 1" using q aw by (auto simp: insert_nothing_def split: if_splits)
        obtain u d2 where cb: "commitBatch w1 d1 = (u, d2)" by (cases "commitBatch w1 d1")
        note more = run None scanned ex Inr aw cb
        show ?thesis
        proof (cases "batch \<le> int (Suc k)")
          case True
          with more commitBatch_cases [OF cb] rows a1 show ?thesis
            by (cases u) (auto simp: q [symmetric] split: if_splits)
        next
          case False
          with more rows a1 show ?thesis by (auto simp: q [symmetric] split: if_splits)
        qed
      qed
    qed
  qed
qed

text \<open>
  The table after a first part of the rows that ends with a batch, \<open>k\<close> rows of the first batch
  being in \<open>work\<close> already.
\<close>

definition whole_batches :: "('r \<Rightarrow> 'k) \<Rightarrow> (coltext list \<Rightarrow> 'r) \<Rightarrow> int \<Rightarrow> nat \<Rightarrow> 'r list \<Rightarrow> cell list list \<Rightarrow> 'r list \<Rightarrow> bool" where
  "whole_batches key mk batch k work rows tbl \<longleftrightarrow>
     (\<exists>m\<le>length rows. tbl = merge_rows key work (map (\<lambda>r. mk (map anyToString r)) (take m rows)) \<and>
        batch dvd int (k + m))"

lemma whole_batches_first:
  "insert_nothing key (mk (map anyToString raw)) work = (a, w1) \<Longrightarrow> int (Suc k) = batch \<Longrightarrow>
   whole_batches key mk batch k work (raw # rows) w1"
  unfolding whole_batches_def by (rule exI [of _ 1]) (auto simp: algebra_simps)

lemma whole_batches_later:
  assumes "insert_nothing key (mk (map anyToString raw)) work = (a, w1)"
    and "whole_batches key mk batch k1 w1 rows tbl"
    and "int (Suc k) = batch \<and> k1 = 0 \<or> k1 = Suc k"
  shows "whole_batches key mk batch k work (raw # rows) tbl"
proof -
  obtain m where m: "m \<le> length rows" "batch dvd int (k1 + m)"
    "tbl = merge_rows key w1 (map (\<lambda>r. mk (map anyToString r)) (take m rows))"
    using assms(2) by (auto simp: whole_batches_def)
  have "int (k + Suc m) = batch + int (k1 + m) \<or> int (k + Suc m) = int (k1 + m)" using assms(3) by auto
  then have "batch dvd int (k + Suc m)" using m(2) by (elim disjE) (simp_all only: dvd_add_right_iff dvd_refl dvd_add)
  with m assms(1) show ?thesis unfolding whole_batches_def by (intro exI [of _ "Suc m"]) simp
qed

text \<open>
  A loop that ends well has merged all rows and counted each. One that fails leaves the table of
  the last commit.
\<close>

lemma copy_loop_spec:
  assumes "copy_loop key mk columns batch rows n s k work src dst = ((n', s', v), src', dst')"
    and "1 \<le> batch" "int k < batch" "k = 0 \<Longrightarrow> work = tb_rows dst"
  shows "if v = None
         then tb_rows dst' = merge_rows key work (map (\<lambda>r. mk (map anyToString r)) rows) \<and>
            n' + length work = n + length (tb_rows dst') \<and> n' + s' = n + s + length rows
         else tb_rows dst' = tb_rows dst \<or> whole_batches key mk batch k work rows (tb_rows dst')"
  using assms
proof (induction rows arbitrary: n s k work src dst)
  case Nil
  then show ?case by (auto split: option.splits if_splits prod.splits dest!: commit_tx_cases)
next
  case (Cons raw rows)
  obtain a w1 where ins: "insert_nothing key (mk (map anyToString raw)) work = (a, w1)" by force
  have len: "length w1 = length work + a" using ins by (auto simp: insert_nothing_def split: if_splits)
  have full: "int (Suc k) = batch" if "batch \<le> int (Suc k)" using that Cons.prems(3) by simp
  from copy_loop_turn [OF Cons.prems(1)] consider
      (failed) "v \<noteq> None" "tb_rows dst' = tb_rows dst"
    | (begun) "v \<noteq> None" "batch \<le> int (Suc k)" "tb_rows dst' = w1"
    | (on) src1 d n1 s1 k1 where
        "copy_loop key mk columns batch rows n1 s1 k1 w1 src1 d = ((n', s', v), src', dst')"
        "n1 = n + a" "s1 + a = Suc s"
        "if batch \<le> int (Suc k) then k1 = 0 \<and> tb_rows d = w1 else k1 = Suc k \<and> tb_rows d = tb_rows dst"
    unfolding ins by auto
  then show ?case
  proof cases
    case failed
    then show ?thesis by auto
  next
    case begun
    with whole_batches_first [where key = key and mk = mk, OF ins full [OF begun(2)], of rows] show ?thesis by auto
  next
    case on
    have k1: "int k1 < batch" "k1 = 0 \<Longrightarrow> w1 = tb_rows d"
      using on(4) Cons.prems(2,3) by (auto split: if_splits)
    note IH = Cons.IH [OF on(1) Cons.prems(2) k1]
    show ?thesis
    proof (cases "v = None")
      case True
      with IH on(2,3) len show ?thesis by (simp add: ins)
    next
      case False
      have k: "int (Suc k) = batch \<and> k1 = 0 \<or> k1 = Suc k" using on(4) full by (auto split: if_splits)
      have "tb_rows d = tb_rows dst \<or> int (Suc k) = batch \<and> tb_rows d = w1" using on(4) full by (auto split: if_splits)
      with False IH whole_batches_later [where key = key and mk = mk, OF ins _ k]
        whole_batches_first [where key = key and mk = mk, OF ins] show ?thesis by auto
    qed
  qed
qed

lemma calm_tx [simp]:
  "faults dst = [] \<Longrightarrow> begin_tx dst = (None, dst)"
  "faults dst = [] \<Longrightarrow> commit_tx work dst = (None, dst\<lparr>tb_rows := work\<rparr>)"
  "faults dst = [] \<Longrightarrow> commitBatch work dst = (None, dst\<lparr>tb_rows := work\<rparr>)"
  "faults dst = [] \<Longrightarrow> exec_insert key mk raw work dst = (Inr (insert_nothing key (mk (map anyToString raw)) work), dst)"
  by (simp_all add: begin_tx_def commit_tx_def commitBatch_def exec_insert_def)

lemma copy_loop_calm:
  assumes "faults src = []" "faults dst = []" "\<forall>r\<in>set rows. length r = columns"
  shows "\<exists>n' s' d. copy_loop key mk columns batch rows n s k work src dst = ((n', s', None), src, d) \<and> faults d = []"
  using assms
proof (induction rows arbitrary: n s k work dst)
  case (Cons raw rows)
  obtain a w1 where ins: "insert_nothing key (mk (map anyToString raw)) work = (a, w1)" by force
  from Cons.prems Cons.IH [of dst] Cons.IH [of "dst\<lparr>tb_rows := w1\<rparr>"] show ?case by (simp add: ins Let_def)
qed simp

subsection \<open>One table\<close>

text \<open>What a copied table holds: all rows of the source under their keys, or whole batches of them.\<close>

definition part_of :: "('r \<Rightarrow> string) \<Rightarrow> int \<Rightarrow> 'r list \<Rightarrow> 'r list \<Rightarrow> 'r list \<Rightarrow> bool" where
  "part_of key batch source old new \<longleftrightarrow>
     (\<exists>m. new = merge_rows key old (take m (sort_key key source)) \<and> (batch dvd int m \<or> length source \<le> m))"

lemma part_of_none: "part_of key batch source old old"
  unfolding part_of_def by (rule exI [of _ 0]) simp

lemma part_of_all: "part_of key batch source old (merge_rows key old (sort_key key source))"
  unfolding part_of_def by (rule exI [of _ "length source"]) simp

lemma part_of_resume:
  "part_of key batch source old new \<Longrightarrow>
   merge_rows key new (sort_key key source) = merge_rows key old (sort_key key source)"
  by (auto simp: part_of_def merge_resume)

lemma copy_table_spec:
  assumes run: "copy_table c reading importing key cells mk columns batch source src dst = ((n, s, v), src', dst')"
    and batch: "1 \<le> batch" and cells: "\<And>r. mk (map anyToString (cells r)) = r"
  shows "if v = None
         then tb_rows dst' = merge_rows key (tb_rows dst) (sort_key key source) \<and>
           n + length (tb_rows dst) = length (tb_rows dst') \<and> n + s = length source
         else n = 0 \<and> s = 0 \<and> part_of key batch source (tb_rows dst) (tb_rows dst')"
proof -
  let ?rows = "map cells (sort_key key source)"
  obtain u s1 where q: "query_source c src = (u, s1)" by force
  show ?thesis
  proof (cases u)
    case (Some e)
    with run q part_of_none show ?thesis by (auto simp: copy_table_def)
  next
    case None
    obtain w d1 where b: "begin_tx dst = (w, d1)" by force
    note d1 = begin_tx_rows [OF b]
    show ?thesis
    proof (cases w)
      case (Some e)
      with run q None b d1 part_of_none show ?thesis by (auto simp: copy_table_def copyRows_def)
    next
      case started: None
      obtain n' s' v' s2 d2 where
        loop: "copy_loop key mk columns batch ?rows 0 0 0 (tb_rows d1) s1 d1 = ((n', s', v'), s2, d2)"
        by (metis prod.exhaust)
      have conv: "map (\<lambda>r. mk (map anyToString r)) (map cells xs) = xs" for xs by (induction xs) (simp_all add: cells)
      note spec = copy_loop_spec [OF loop batch, unfolded d1 conv]
      show ?thesis
      proof (cases v')
        case None
        with run q \<open>u = None\<close> b started loop spec batch show ?thesis
          by (simp add: copy_table_def copyRows_def d1)
      next
        case (Some e)
        have "part_of key batch source (tb_rows dst) (tb_rows d2)"
          using spec Some batch part_of_none
          by (auto simp: whole_batches_def part_of_def take_map conv simp del: map_map)
        with run q \<open>u = None\<close> b started loop Some show ?thesis
          by (auto simp: copy_table_def copyRows_def)
      qed
    qed
  qed
qed

lemma copy_table_calm:
  assumes "ctx_err c = None" "faults src = []" "faults dst = []" "\<And>r. length (cells r) = columns"
  shows "\<exists>n s d. copy_table c reading importing key cells mk columns batch source src dst = ((n, s, None), src, d) \<and>
     faults d = []"
  using copy_loop_calm [of src dst "map cells (sort_key key source)" columns key mk batch 0 0 0 "tb_rows dst"] assms
  by (auto simp: copy_table_def copyRows_def query_source_def)

subsection \<open>Properties\<close>

lemma batch_size_pos: "1 \<le> batch_size b"
  by (simp add: batch_size_def)

text \<open>The two tables after one run, whatever its outcome.\<close>

lemma migrate_cases:
  assumes run: "MigrateSQLiteToPostgres c b src dst = ((stats, v), src', dst')"
  shows "nodes src' = nodes src \<and> rels src' = rels src \<and>
    part_of nr_node_id (batch_size b) (nodes src) (nodes dst) (nodes dst') \<and>
    part_of rr_rel_id (batch_size b) (rels src) (rels dst) (rels dst') \<and>
    (v = None \<longrightarrow>
       nodes dst' = merge_rows nr_node_id (nodes dst) (sort_key nr_node_id (nodes src)) \<and>
       rels dst' = merge_rows rr_rel_id (rels dst) (sort_key rr_rel_id (rels src)) \<and>
       NodesNew stats + NodesSkipped stats = length (nodes src) \<and>
       RelsNew stats + RelsSkipped stats = length (rels src) \<and>
       length (nodes dst') = length (nodes dst) + NodesNew stats \<and>
       length (rels dst') = length (rels dst) + RelsNew stats)"
proof -
  obtain n1 s1 v1 f1 t1 where nt: "copy_table c ''read sqlite nodes'' ''import nodes'' nr_node_id node_cells
      node_of_args 10 (batch_size b) (nodes src) \<lparr>faults = faults src\<rparr> (as_table (nodes dst) dst) = ((n1, s1, v1), f1, t1)"
    by (metis prod.exhaust)
  note ns = copy_table_spec [OF nt batch_size_pos node_cells_args(2)]
  show ?thesis
  proof (cases v1)
    case (Some e)
    with run nt ns show ?thesis
      by (auto simp: MigrateSQLiteToPostgres_def as_table_def Let_def part_of_none)
  next
    case None
    let ?dst = "dst\<lparr>faults := faults t1, nodes := tb_rows t1\<rparr>"
    obtain n2 s2 v2 f2 t2 where rt: "copy_table c ''read sqlite relationships'' ''import relationships'' rr_rel_id
        rel_cells rel_of_args 6 (batch_size b) (rels src) \<lparr>faults = faults f1\<rparr> (as_table (rels dst) ?dst) = ((n2, s2, v2), f2, t2)"
      by (metis prod.exhaust)
    note rs = copy_table_spec [OF rt batch_size_pos rel_cells_args(2)]
    show ?thesis
    proof (cases v2)
      case (Some e)
      with run nt ns rt rs \<open>v1 = None\<close> show ?thesis
        by (auto simp: MigrateSQLiteToPostgres_def as_table_def Let_def part_of_all)
    next
      case None
      with run nt ns rt rs \<open>v1 = None\<close> show ?thesis
        by (auto simp: MigrateSQLiteToPostgres_def as_table_def Let_def part_of_all no_stats_def)
    qed
  qed
qed

lemma migrate_calm:
  assumes "ctx_err c = None" "faults src = []" "faults dst = []"
  shows "\<exists>stats dst'. MigrateSQLiteToPostgres c b src dst = ((stats, None), src, dst')"
proof -
  let ?src = "\<lparr>faults = faults src\<rparr>"
  obtain n1 s1 t1 where nt: "copy_table c ''read sqlite nodes'' ''import nodes'' nr_node_id node_cells
      node_of_args 10 (batch_size b) (nodes src) ?src (as_table (nodes dst) dst) = ((n1, s1, None), ?src, t1)"
    and t1: "faults t1 = []"
    using copy_table_calm [OF assms(1), of ?src "as_table (nodes dst) dst" node_cells 10] assms(2,3)
    by (fastforce simp: as_table_def)
  let ?dst = "dst\<lparr>faults := faults t1, nodes := tb_rows t1\<rparr>"
  obtain n2 s2 t2 where rt: "copy_table c ''read sqlite relationships'' ''import relationships'' rr_rel_id rel_cells
      rel_of_args 6 (batch_size b) (rels src) ?src (as_table (rels dst) ?dst) = ((n2, s2, None), ?src, t2)"
    using copy_table_calm [OF assms(1), of ?src "as_table (rels dst) ?dst" rel_cells 6] assms(2,3) t1
    by (fastforce simp: as_table_def)
  from nt rt show ?thesis by (simp add: MigrateSQLiteToPostgres_def Let_def)
qed

lemma whole_part:
  "\<exists>m. merge_rows key t (sort_key key rs) = merge_rows key t (take m (sort_key key rs)) \<and>
     (d dvd int m \<or> length rs \<le> m) \<and> (w \<longrightarrow> length rs \<le> m)"
  by (rule exI [of _ "length rs"]) simp

text \<open>C34:
  An import, however its drivers fail, leaves the source as it was and each target table as its old
  rows followed by those of a first part of the source, in the order of the keys, whose keys were
  missing; that part ends with a batch, or with the source. An import that succeeds has copied all
  that was missing, and its counts say how many rows it wrote and how many it met.
\<close>

theorem import_in_batches:
  assumes "MigrateSQLiteToPostgres c b src dst = ((stats, v), src', dst')"
  shows "nodes src' = nodes src \<and> rels src' = rels src \<and>
    (\<exists>m. nodes dst' = merge_rows nr_node_id (nodes dst) (take m (sort_key nr_node_id (nodes src))) \<and>
      (batch_size b dvd int m \<or> length (nodes src) \<le> m) \<and> (v = None \<longrightarrow> length (nodes src) \<le> m)) \<and>
    (\<exists>m. rels dst' = merge_rows rr_rel_id (rels dst) (take m (sort_key rr_rel_id (rels src))) \<and>
      (batch_size b dvd int m \<or> length (rels src) \<le> m) \<and> (v = None \<longrightarrow> length (rels src) \<le> m)) \<and>
    (\<exists>more. nodes dst' = nodes dst @ more) \<and> (\<exists>more. rels dst' = rels dst @ more) \<and>
    (v = None \<longrightarrow>
       length (nodes dst') = length (nodes dst) + NodesNew stats \<and>
       length (rels dst') = length (rels dst) + RelsNew stats \<and>
       NodesNew stats + NodesSkipped stats = length (nodes src) \<and>
       RelsNew stats + RelsSkipped stats = length (rels src))"
proof (cases "v = None")
  case True
  with migrate_cases [OF assms]
  have n: "nodes dst' = merge_rows nr_node_id (nodes dst) (sort_key nr_node_id (nodes src))"
    and r: "rels dst' = merge_rows rr_rel_id (rels dst) (sort_key rr_rel_id (rels src))" by simp_all
  note parts = whole_part [of nr_node_id "nodes dst" "nodes src" "batch_size b" "v = None", folded n]
    whole_part [of rr_rel_id "rels dst" "rels src" "batch_size b" "v = None", folded r]
  have "\<exists>more. nodes dst' = nodes dst @ more" "\<exists>more. rels dst' = rels dst @ more"
    unfolding n r by (rule merge_extends)+
  with migrate_cases [OF assms] parts show ?thesis by blast
next
  case False
  with migrate_cases [OF assms] obtain i j where
    "nodes dst' = merge_rows nr_node_id (nodes dst) (take i (sort_key nr_node_id (nodes src)))"
    "rels dst' = merge_rows rr_rel_id (rels dst) (take j (sort_key rr_rel_id (rels src)))"
    unfolding part_of_def by blast
  then have "\<exists>more. nodes dst' = nodes dst @ more" "\<exists>more. rels dst' = rels dst @ more"
    by (simp_all add: merge_extends)
  with migrate_cases [OF assms] False show ?thesis unfolding part_of_def by blast
qed

text \<open>C36:
  Imports can be interrupted: after any run that failed half-way, a run whose drivers do not fail
  succeeds, the target is then the union of both graphs in which the target's own rows win, and
  one more run, with any batch, skips every row and changes nothing.
\<close>

theorem interrupted_import_completes:
  assumes "MigrateSQLiteToPostgres c b src dst = ((stats, v), src1, dst1)"
    and "ctx_err c' = None" and "distinct (map nr_node_id (nodes src))" and "distinct (map rr_rel_id (rels src))"
  shows "\<exists>stats' dst2. MigrateSQLiteToPostgres c' b' (src1\<lparr>faults := []\<rparr>) (dst1\<lparr>faults := []\<rparr>)
        = ((stats', None), src1\<lparr>faults := []\<rparr>, dst2) \<and>
      row_of nr_node_id (nodes dst2) = row_of nr_node_id (nodes src) ++ row_of nr_node_id (nodes dst) \<and>
      row_of rr_rel_id (rels dst2) = row_of rr_rel_id (rels src) ++ row_of rr_rel_id (rels dst) \<and>
      (\<exists>dst3. MigrateSQLiteToPostgres c' b'' (src1\<lparr>faults := []\<rparr>) (dst2\<lparr>faults := []\<rparr>)
        = ((\<lparr>NodesNew = 0, NodesSkipped = length (nodes src), RelsNew = 0, RelsSkipped = length (rels src)\<rparr>, None),
           src1\<lparr>faults := []\<rparr>, dst3) \<and> nodes dst3 = nodes dst2 \<and> rels dst3 = rels dst2)"
proof -
  let ?N = "sort_key nr_node_id (nodes src)" and ?R = "sort_key rr_rel_id (rels src)"
  note one = migrate_cases [OF assms(1)]
  let ?src = "src1\<lparr>faults := []\<rparr>"
  obtain st2 dst2 where two: "MigrateSQLiteToPostgres c' b' ?src (dst1\<lparr>faults := []\<rparr>) = ((st2, None), ?src, dst2)"
    using migrate_calm [OF assms(2), of ?src "dst1\<lparr>faults := []\<rparr>" b'] by auto
  have tables: "nodes dst2 = merge_rows nr_node_id (nodes dst) ?N" "rels dst2 = merge_rows rr_rel_id (rels dst) ?R"
    using migrate_cases [OF two] one part_of_resume [of nr_node_id "batch_size b" "nodes src" "nodes dst" "nodes dst1"]
      part_of_resume [of rr_rel_id "batch_size b" "rels src" "rels dst" "rels dst1"] by simp_all
  obtain st3 dst3 where three: "MigrateSQLiteToPostgres c' b'' ?src (dst2\<lparr>faults := []\<rparr>) = ((st3, None), ?src, dst3)"
    using migrate_calm [OF assms(2), of ?src "dst2\<lparr>faults := []\<rparr>" b''] by auto
  have same: "nodes dst3 = nodes dst2" "rels dst3 = rels dst2"
    using migrate_cases [OF three] one tables by simp_all
  have counts: "NodesNew st3 = 0" "NodesSkipped st3 = length (nodes src)" "RelsNew st3 = 0" "RelsSkipped st3 = length (rels src)"
    using migrate_cases [OF three] one unfolding same by simp_all
  have "st3 = \<lparr>NodesNew = 0, NodesSkipped = length (nodes src), RelsNew = 0, RelsSkipped = length (rels src)\<rparr>"
    using counts by (cases st3) simp
  moreover have "row_of nr_node_id (nodes dst2) = row_of nr_node_id (nodes src) ++ row_of nr_node_id (nodes dst)"
    "row_of rr_rel_id (rels dst2) = row_of rr_rel_id (rels src) ++ row_of rr_rel_id (rels dst)"
    using assms(3,4) by (simp_all add: tables row_of_merge_sorted)
  ultimately show ?thesis using two three same by blast
qed

subsection \<open>Witnesses\<close>

text \<open>Two nodes and a relationship, imported one row a batch into a target whose driver fails at the
  second node's insert.\<close>

definition demo_node_row :: "string \<Rightarrow> node_row" where
  "demo_node_row k =
     \<lparr>nr_node_id = k, nr_node_type = ''Satellite'', nr_name = k, nr_status = ''Active'',
      nr_owner_community_id = ''c'', nr_created_at = ''t'', nr_updated_at = ''t'', nr_shard_key = [],
      nr_federation_id = [], nr_properties = JEmpty\<rparr>"

definition demo_source :: kgdb where
  "demo_source = \<lparr>faults = [], nodes = [demo_node_row ''b'', demo_node_row ''a''],
     rels = [\<lparr>rr_rel_id = ''r'', rr_from_node_id = ''a'', rr_to_node_id = ''b'', rr_rel_type = ''Owns'',
              rr_properties = JEmpty, rr_created_at = ''t''\<rparr>]\<rparr>"

definition demo_target :: kgdb where
  "demo_target = \<lparr>faults = replicate 7 None @ [Some (External ''connection reset'')], nodes = [], rels = []\<rparr>"

lemma demo_import:
  "MigrateSQLiteToPostgres background 1 demo_source demo_target =
     ((no_stats, Some (Wrap ''import nodes'' (External ''connection reset''))), demo_source,
      \<lparr>faults = [], nodes = [demo_node_row ''a''], rels = []\<rparr>)"
  by (simp add: MigrateSQLiteToPostgres_def copy_table_def copyRows_def query_source_def batch_size_def background_def
      begin_tx_def commit_tx_def commitBatch_def exec_insert_def insert_nothing_def as_table_def demo_source_def
      demo_target_def demo_node_row_def node_cells_def node_of_args_def next_fault_def consume_def Let_def
      eval_nat_numeral)

lemma import_in_batches_witness:
  "\<exists>more. nodes \<lparr>faults = [], nodes = [demo_node_row ''a''], rels = []\<rparr> = nodes demo_target @ more"
  using import_in_batches [OF demo_import] by blast

lemma interrupted_import_completes_witness:
  "\<exists>stats' dst2. MigrateSQLiteToPostgres background 500 (demo_source\<lparr>faults := []\<rparr>)
     (\<lparr>faults = [], nodes = [demo_node_row ''a''], rels = []\<rparr>\<lparr>faults := []\<rparr>) = ((stats', None), demo_source\<lparr>faults := []\<rparr>, dst2) \<and>
   row_of nr_node_id (nodes dst2) = row_of nr_node_id (nodes demo_source) ++ row_of nr_node_id (nodes demo_target)"
proof -
  have "ctx_err background = None" "distinct (map nr_node_id (nodes demo_source))" "distinct (map rr_rel_id (rels demo_source))"
    by (simp_all add: background_def demo_source_def demo_node_row_def)
  from interrupted_import_completes [OF demo_import this] show ?thesis by blast
qed

end
