(* ===== verification/Utf8.thy ===== *)
theory Utf8
  imports Main
begin

text \<open>
  Strings are bytes; ranging over one, or converting it to \<open>[]rune\<close>, reads UTF-8, with one
  replacement character for each byte that starts no valid sequence. \<open>rune_len\<close> is the length of
  the first sequence, \<open>runes\<close> their number.
\<close>

definition cont :: "nat \<Rightarrow> bool" where
  "cont b \<longleftrightarrow> 128 \<le> b \<and> b < 192"

definition second_ok :: "nat \<Rightarrow> nat \<Rightarrow> bool" where
  "second_ok b c \<longleftrightarrow>
     cont c \<and> (b = 224 \<longrightarrow> 160 \<le> c) \<and> (b = 237 \<longrightarrow> c < 160) \<and> (b = 240 \<longrightarrow> 144 \<le> c) \<and> (b = 244 \<longrightarrow> c < 144)"

fun rune_len :: "nat list \<Rightarrow> nat" where
  "rune_len (b # c # d # e # _) =
     (if 194 \<le> b \<and> b < 224 \<and> second_ok b c then 2
      else if 224 \<le> b \<and> b < 240 \<and> second_ok b c \<and> cont d then 3
      else if 240 \<le> b \<and> b < 245 \<and> second_ok b c \<and> cont d \<and> cont e then 4 else 1)"
| "rune_len [b, c, d] =
     (if 194 \<le> b \<and> b < 224 \<and> second_ok b c then 2
      else if 224 \<le> b \<and> b < 240 \<and> second_ok b c \<and> cont d then 3 else 1)"
| "rune_len [b, c] = (if 194 \<le> b \<and> b < 224 \<and> second_ok b c then 2 else 1)"
| "rune_len _ = 1"

lemma rune_len_pos: "0 < rune_len bs"
  by (induction bs rule: rune_len.induct) simp_all

function runes :: "nat list \<Rightarrow> nat" where
  "runes [] = 0"
| "runes (b # bs) = Suc (runes (drop (rune_len (b # bs)) (b # bs)))"
  by pat_completeness auto
termination
proof (relation "measure length")
  fix b :: nat and bs
  show "(drop (rune_len (b # bs)) (b # bs), b # bs) \<in> measure length"
    using rune_len_pos [of "b # bs"] by simp
qed simp

lemma no_cont: "c < 128 \<Longrightarrow> \<not> cont c" "c < 128 \<Longrightarrow> \<not> second_ok b c"
  by (simp_all add: cont_def second_ok_def)

lemma rune_len_le: "rune_len (b # bs) \<le> length (b # bs)"
  by (cases "b # bs" rule: rune_len.cases) auto

lemma rune_len_ascii: "b < 128 \<Longrightarrow> rune_len (b # bs) = 1"
  by (cases "b # bs" rule: rune_len.cases) auto

text \<open>A sequence does not run on into an ASCII character.\<close>

lemma rune_len_append:
  assumes "c < 128"
  shows "rune_len (b # bs @ c # t) = rune_len (b # bs)"
proof -
  consider "bs = []" | x where "bs = [x]" | x y where "bs = [x, y]" | x y z r where "bs = x # y # z # r"
    by (metis list.exhaust)
  then show ?thesis
  proof cases
    case 1
    then show ?thesis by (cases t; cases "tl t") (auto simp: no_cont [OF assms])
  next
    case 2
    then show ?thesis by (cases t) (auto simp: no_cont [OF assms])
  next
    case 3
    then show ?thesis by (simp add: no_cont [OF assms])
  qed simp
qed

lemma runes_append: "c < 128 \<Longrightarrow> runes (s @ c # t) = runes s + runes (c # t)"
proof (induction s rule: runes.induct)
  case (2 b bs)
  let ?k = "rune_len (b # bs)"
  have len: "rune_len (b # bs @ c # t) = ?k" by (rule rune_len_append [OF 2(2)])
  have "drop ?k ((b # bs) @ c # t) = drop ?k (b # bs) @ c # t"
    unfolding drop_append using rune_len_le [of b bs] by simp
  then have "drop (rune_len (b # bs @ c # t)) (b # bs @ c # t) = drop ?k (b # bs) @ c # t" using len by simp
  with 2 show ?case by simp
qed simp

lemma runes_ascii: "c < 128 \<Longrightarrow> runes (c # t) = Suc (runes t)"
  by (simp add: rune_len_ascii)

end
