(* ===== verification/CliOutput.thy ===== *)
theory CliOutput
  imports GoJson Utf8
begin

text \<open>
  \<open>cmd/openspace-os-cli/output.go\<close> and the helpers of \<open>main.go\<close> that take answers apart: tables
  with aligned columns, and the text of a field of a decoded document. What a command prints is
  a list of lines and documents.
\<close>

subsection \<open>Width of a text\<close>

definition displayWidth :: "string \<Rightarrow> nat" where
  "displayWidth s = runes (map of_char s)"

subsection \<open>Tables\<close>

text \<open>A printed line, or a value as an indented document; \<open>None\<close> is a panic.\<close>

datatype out = Println string | PrintJSON goval

text \<open>\<open>strings.Repeat\<close> panics on a negative count.\<close>

definition Repeat :: "string \<Rightarrow> int \<Rightarrow> string option" where
  "Repeat s n = (if n < 0 then None else Some (concat (replicate (nat n) s)))"

fun join_with :: "string \<Rightarrow> string list \<Rightarrow> string" where
  "join_with sep [] = []"
| "join_with sep [x] = x"
| "join_with sep (x # y # ys) = x @ sep @ join_with sep (y # ys)"

fun all_some :: "'a option list \<Rightarrow> 'a list option" where
  "all_some [] = Some []"
| "all_some (x # xs) = (case x of None \<Rightarrow> None | Some y \<Rightarrow> map_option (\<lambda>ys. y # ys) (all_some xs))"

definition cell_at :: "string list \<Rightarrow> nat \<Rightarrow> string" where
  "cell_at cells i = (if i < length cells then cells ! i else [])"

definition pad_cell :: "string list \<Rightarrow> nat list \<Rightarrow> nat \<Rightarrow> string option" where
  "pad_cell cells widths i =
     map_option (\<lambda>pad. cell_at cells i @ pad)
       (Repeat '' '' (int (widths ! i) - int (displayWidth (cell_at cells i))))"

definition printTableRow :: "string list \<Rightarrow> nat list \<Rightarrow> out option" where
  "printTableRow cells widths =
     map_option (\<lambda>parts. Println (join_with ''  '' parts)) (all_some (map (pad_cell cells widths) [0..<length widths]))"

text \<open>The loop over the rows that widens the columns; cells beyond the headers are passed over.\<close>

definition widen :: "nat list \<Rightarrow> string list \<Rightarrow> nat list" where
  "widen widths row =
     map (\<lambda>i. if i < length row then max (widths ! i) (displayWidth (row ! i)) else widths ! i) [0..<length widths]"

definition PrintTable :: "string list \<Rightarrow> string list list \<Rightarrow> out list option" where
  "PrintTable headers rows =
     (let widths = fold (\<lambda>row ws. widen ws row) rows (map displayWidth headers);
          separators = map (\<lambda>w. concat (replicate w ''-'')) widths
      in all_some (map (\<lambda>cells. printTableRow cells widths) (headers # separators # rows)))"

text \<open>\<open>table\<close> is the value of the flag \<open>--output\<close> that chooses tables.\<close>

definition isTableOutput :: "string \<Rightarrow> bool" where
  "isTableOutput fmt \<longleftrightarrow> fmt = ''table''"

definition printList :: "string \<Rightarrow> goval \<Rightarrow> string list \<Rightarrow> string list list \<Rightarrow> out list option" where
  "printList fmt v headers rows = (if isTableOutput fmt then PrintTable headers rows else Some [PrintJSON v])"

definition printAny :: "string \<Rightarrow> goval \<Rightarrow> string list \<Rightarrow> string list \<Rightarrow> out list option" where
  "printAny fmt v headers row = (if isTableOutput fmt then PrintTable headers [row] else Some [PrintJSON v])"

definition transposeRows :: "string list list \<Rightarrow> string list list" where
  "transposeRows rows =
     (let maxLen = fold (\<lambda>r m. if length r > m then length r else m) rows 0
      in map (\<lambda>i. map (\<lambda>r. cell_at r i) rows) [0..<maxLen])"

subsection \<open>Fields of an answer\<close>

text \<open>A nil map has no fields. \<open>sprint\<close> is the text \<open>fmt\<close> gives a value under the verb \<open>%v\<close>.\<close>

definition strField :: "(goval \<Rightarrow> string) \<Rightarrow> gomap \<Rightarrow> string \<Rightarrow> string" where
  "strField sprint m key =
     (case map_of m key of None \<Rightarrow> [] | Some GNil \<Rightarrow> [] | Some (GStr s) \<Rightarrow> s | Some v \<Rightarrow> sprint v)"

fun nestedStr :: "(goval \<Rightarrow> string) \<Rightarrow> gomap \<Rightarrow> string list \<Rightarrow> string" where
  "nestedStr sprint cur [] = []"
| "nestedStr sprint cur [k] = strField sprint cur k"
| "nestedStr sprint cur (k # k' # ks) =
     (case map_of cur k of Some (GMap next) \<Rightarrow> nestedStr sprint next (k' # ks) | _ \<Rightarrow> [])"

subsection \<open>Every table is aligned\<close>

lemma width_append: "(of_char c :: nat) < 128 \<Longrightarrow> displayWidth (s @ c # t) = Suc (displayWidth s + displayWidth t)"
  by (simp add: displayWidth_def runes_append runes_ascii del: runes.simps)

lemma width_simps [simp]:
  "displayWidth [] = 0"
  "displayWidth (replicate n CHR '' '') = n"
  "displayWidth (s @ replicate n CHR '' '') = displayWidth s + n"
  "displayWidth (replicate n CHR ''-'') = n"
proof -
  show e: "displayWidth [] = 0" by (simp add: displayWidth_def)
  have ascii: "(of_char CHR '' '' :: nat) < 128" "(of_char CHR ''-'' :: nat) < 128" by simp_all
  show w: "displayWidth (replicate n CHR '' '') = n" for n
    by (induction n) (use width_append [OF ascii(1), of "[]"] e in simp_all)
  show "displayWidth (replicate n CHR ''-'') = n"
    by (induction n) (use width_append [OF ascii(2), of "[]"] e in simp_all)
  show "displayWidth (s @ replicate n CHR '' '') = displayWidth s + n"
    by (cases n) (use width_append [OF ascii(1), of s] w in simp_all)
qed

lemma width_space [simp]: "displayWidth (s @ CHR '' '' # t) = Suc (displayWidth s + displayWidth t)"
  "displayWidth (CHR '' '' # t) = Suc (displayWidth t)"
  using width_append [of "CHR '' ''" s t] width_append [of "CHR '' ''" "[]" t] by simp_all

lemma Repeat_spaces: "Repeat '' '' n = (if n < 0 then None else Some (replicate (nat n) CHR '' ''))"
proof -
  have "concat (replicate k '' '') = replicate k CHR '' ''" for k by (induction k) simp_all
  then show ?thesis by (simp add: Repeat_def)
qed

lemma all_some_map: "(\<And>x. x \<in> set xs \<Longrightarrow> f x = Some (g x)) \<Longrightarrow> all_some (map f xs) = Some (map g xs)"
  by (induction xs) auto

lemma pad_cell_width:
  assumes "displayWidth (cell_at cells i) \<le> widths ! i"
  shows "\<exists>p. pad_cell cells widths i = Some p \<and> displayWidth p = widths ! i"
  using assms by (auto simp: pad_cell_def Repeat_spaces)

text \<open>A row whose cells fit is printed, padded to the columns and their separators.\<close>

lemma join_width:
  "displayWidth (join_with ''  '' parts) = sum_list (map displayWidth parts) + 2 * (length parts - 1)"
  by (induction "''  ''" parts rule: join_with.induct) simp_all

lemma printTableRow_fits:
  assumes "\<forall>i < length widths. displayWidth (cell_at cells i) \<le> widths ! i"
  shows "\<exists>l. printTableRow cells widths = Some (Println l) \<and>
    displayWidth l = sum_list widths + 2 * (length widths - 1)"
proof -
  let ?p = "\<lambda>i. the (pad_cell cells widths i)"
  have p: "pad_cell cells widths i = Some (?p i) \<and> displayWidth (?p i) = widths ! i" if "i < length widths" for i
    using pad_cell_width assms that by fastforce
  have "all_some (map (pad_cell cells widths) [0..<length widths]) = Some (map ?p [0..<length widths])"
    by (rule all_some_map) (use p in auto)
  moreover have "map displayWidth (map ?p [0..<length widths]) = widths"
    by (rule nth_equalityI) (use p in auto)
  ultimately show ?thesis by (simp add: printTableRow_def join_width del: map_map)
qed

lemma widen_simps [simp]:
  "length (widen ws row) = length ws"
  "i < length ws \<Longrightarrow> ws ! i \<le> widen ws row ! i"
  "i < length ws \<Longrightarrow> i < length row \<Longrightarrow> displayWidth (row ! i) \<le> widen ws row ! i"
  by (simp_all add: widen_def)

lemma widths_fit:
  "length (fold (\<lambda>row ws. widen ws row) rows ws) = length ws \<and>
   (\<forall>i < length ws. ws ! i \<le> fold (\<lambda>row ws. widen ws row) rows ws ! i \<and>
      (\<forall>row\<in>set rows. displayWidth (cell_at row i) \<le> fold (\<lambda>row ws. widen ws row) rows ws ! i))"
proof (induction rows arbitrary: ws)
  case (Cons row rows)
  note IH = Cons [of "widen ws row"]
  have "displayWidth (cell_at row i) \<le> widen ws row ! i" if "i < length ws" for i
    using that by (simp add: cell_at_def)
  with IH show ?case by (auto intro: order_trans widen_simps(2))
qed simp

text \<open>C27:
  A table is printed whatever bytes its cells hold and however many cells its rows have: no count
  of spaces is ever negative, there is a line for the headers, one for the rule and one for each
  row, and all lines are equally wide.
\<close>

theorem table_aligned:
  "\<exists>ls w. PrintTable headers rows = Some (map Println ls) \<and>
    map displayWidth ls = replicate (length rows + 2) w"
proof -
  let ?ws = "fold (\<lambda>row ws. widen ws row) rows (map displayWidth headers)"
  let ?seps = "map (\<lambda>w. concat (replicate w ''-'')) ?ws"
  let ?w = "sum_list ?ws + 2 * (length ?ws - 1)"
  note fit = widths_fit [of rows "map displayWidth headers"]
  have sep: "concat (replicate n ''-'') = replicate n CHR ''-''" for n by (induction n) simp_all
  have "\<exists>l. printTableRow cells ?ws = Some (Println l) \<and> displayWidth l = ?w"
    if mem: "cells \<in> set (headers # ?seps # rows)" for cells
  proof (rule printTableRow_fits, intro allI impI)
    fix i assume i: "i < length ?ws"
    consider "cells = headers" | "cells = ?seps" | "cells \<in> set rows" using mem unfolding list.set by blast
    then show "displayWidth (cell_at cells i) \<le> ?ws ! i"
      using fit i by cases (auto simp: cell_at_def sep)
  qed
  then obtain line where line: "\<And>cells. cells \<in> set (headers # ?seps # rows) \<Longrightarrow>
      printTableRow cells ?ws = Some (Println (line cells)) \<and> displayWidth (line cells) = ?w" by metis
  let ?ls = "map line (headers # ?seps # rows)"
  have "PrintTable headers rows = Some (map Println ?ls)"
    unfolding PrintTable_def Let_def by (subst all_some_map [where g = "\<lambda>cells. Println (line cells)"]) (use line in auto)
  moreover have "map displayWidth ?ls = replicate (length rows + 2) ?w"
    by (rule replicate_eqI) (use line in auto)
  ultimately show ?thesis by blast
qed

end
