(* ===== verification/GoUrl.thy ===== *)
theory GoUrl
  imports CliOutput
begin

text \<open>
  What the command-line client uses of \<open>net/url\<close>: \<open>PathEscape\<close>, \<open>QueryEscape\<close> and
  \<open>Values.Encode\<close>, and what the server's \<open>URL.Query\<close> makes of the result.
\<close>

subsection \<open>Escaping\<close>

definition unreserved :: "char \<Rightarrow> bool" where
  "unreserved c \<longleftrightarrow>
     (let n = of_char c :: nat in
      (65 \<le> n \<and> n \<le> 90) \<or> (97 \<le> n \<and> n \<le> 122) \<or> (48 \<le> n \<and> n \<le> 57) \<or> c \<in> set ''-_.~'')"

text \<open>In a path segment \<open>$ & + : = @\<close> stay as well.\<close>

definition segment_char :: "char \<Rightarrow> bool" where
  "segment_char c \<longleftrightarrow> unreserved c \<or> c \<in> set ''$&+:=@''"

definition hex_digit :: "nat \<Rightarrow> char" where
  "hex_digit n = (if n < 10 then char_of (48 + n) else char_of (55 + n))"

definition escape_char :: "(char \<Rightarrow> bool) \<Rightarrow> bool \<Rightarrow> char \<Rightarrow> string" where
  "escape_char keep query c =
     (if keep c then [c]
      else if query \<and> c = CHR '' '' then ''+''
      else [CHR ''%'', hex_digit (of_char c div 16), hex_digit (of_char c mod 16)])"

definition PathEscape :: "string \<Rightarrow> string" where
  "PathEscape s = concat (map (escape_char segment_char False) s)"

definition QueryEscape :: "string \<Rightarrow> string" where
  "QueryEscape s = concat (map (escape_char unreserved True) s)"

definition unhex :: "char \<Rightarrow> nat option" where
  "unhex c =
     (let n = of_char c :: nat in
      if 48 \<le> n \<and> n \<le> 57 then Some (n - 48)
      else if 97 \<le> n \<and> n \<le> 102 then Some (n - 87)
      else if 65 \<le> n \<and> n \<le> 70 then Some (n - 55) else None)"

text \<open>\<open>unescape\<close>: \<open>None\<close> is an \<open>EscapeError\<close>.\<close>

fun unescape :: "bool \<Rightarrow> string \<Rightarrow> string option" where
  "unescape query [] = Some []"
| "unescape query (c # cs) =
     (if c = CHR ''%'' then
        (case cs of
           a # b # rest \<Rightarrow>
             (case (unhex a, unhex b) of
                (Some h, Some l) \<Rightarrow> map_option (\<lambda>s. char_of (16 * h + l) # s) (unescape query rest)
              | _ \<Rightarrow> None)
         | _ \<Rightarrow> None)
      else map_option (\<lambda>s. (if query \<and> c = CHR ''+'' then CHR '' '' else c) # s) (unescape query cs))"

subsection \<open>Queries\<close>

text \<open>\<open>Values\<close> with one value per key; \<open>Encode\<close> sorts by key.\<close>

definition Encode :: "(string \<times> string) list \<Rightarrow> string" where
  "Encode q = join_with ''&'' (map (\<lambda>(k, v). QueryEscape k @ ''='' @ QueryEscape v) (sort_key fst q))"

text \<open>One piece of a query: skipped when empty, with a semicolon, or badly escaped.\<close>

definition parse_piece :: "string \<Rightarrow> (string \<times> string) option" where
  "parse_piece p =
     (if p = [] \<or> CHR '';'' \<in> set p then None
      else case (unescape True (takeWhile (\<lambda>c. c \<noteq> CHR ''='') p), unescape True (tl (dropWhile (\<lambda>c. c \<noteq> CHR ''='') p))) of
             (Some k, Some v) \<Rightarrow> Some (k, v)
           | _ \<Rightarrow> None)"

definition ParseQuery :: "string \<Rightarrow> (string \<times> string) list" where
  "ParseQuery q = List.map_filter parse_piece (split_at CHR ''&'' q)"

text \<open>\<open>Values.Get\<close>: the first value of a key.\<close>

definition Get :: "(string \<times> string) list \<Rightarrow> string \<Rightarrow> string" where
  "Get q k = (case map_of q k of None \<Rightarrow> [] | Some v \<Rightarrow> v)"

subsection \<open>Round trips\<close>

lemma unhex_hex: "n < 16 \<Longrightarrow> unhex (hex_digit n) = Some n"
  by (auto simp: unhex_def hex_digit_def Let_def)

lemma of_char_lt [simp]: "(of_char (c :: char) :: nat) < 256"
  by (metis UNIV_char_of_nat atLeastLessThan_iff imageE nat_of_char_less_256)

lemma unescape_hex:
  "h < 16 \<Longrightarrow> l < 16 \<Longrightarrow> unescape query (CHR ''%'' # hex_digit h # hex_digit l # s)
     = map_option (\<lambda>t. char_of (16 * h + l) # t) (unescape query s)"
  by (simp add: unhex_hex)

lemma escape_char_back:
  assumes "\<not> keep CHR ''%''" "query \<Longrightarrow> \<not> keep CHR ''+''"
  shows "unescape query (escape_char keep query c @ s) = map_option (\<lambda>t. c # t) (unescape query s)"
proof -
  have "(of_char c :: nat) div 16 < 16" using of_char_lt [of c] by linarith
  moreover have "char_of (16 * (of_char c div 16) + of_char c mod 16 :: nat) = c" by simp
  ultimately have hex: "unescape query (CHR ''%'' # hex_digit (of_char c div 16) # hex_digit (of_char c mod 16) # s)
      = map_option (\<lambda>t. c # t) (unescape query s)"
    using unescape_hex [of "of_char c div 16" "of_char c mod 16" query s] by simp
  consider "keep c" | "\<not> keep c" "query" "c = CHR '' ''" | "\<not> keep c" "\<not> (query \<and> c = CHR '' '')" by blast
  then show ?thesis
  proof cases
    case 1
    with assms have "c \<noteq> CHR ''%''" "\<not> (query \<and> c = CHR ''+'')" by auto
    with 1 show ?thesis by (auto simp: escape_char_def)
  next
    case 2
    then show ?thesis by (simp add: escape_char_def)
  next
    case 3
    then have "escape_char keep query c = [CHR ''%'', hex_digit (of_char c div 16), hex_digit (of_char c mod 16)]"
      by (auto simp: escape_char_def)
    then show ?thesis using hex by (simp only: append_Cons append_Nil)
  qed
qed

lemma unescape_escape:
  assumes "\<not> keep CHR ''%''" "query \<Longrightarrow> \<not> keep CHR ''+''"
  shows "unescape query (concat (map (escape_char keep query) s)) = Some s"
  by (induction s) (simp_all add: escape_char_back [OF assms])

lemma kept [simp]:
  "\<not> unreserved CHR ''%''" "\<not> unreserved CHR ''+''" "\<not> segment_char CHR ''%''"
  "\<not> unreserved CHR ''&''" "\<not> unreserved CHR ''=''" "\<not> unreserved CHR '';''"
  "\<not> segment_char CHR ''/''" "\<not> segment_char CHR ''?''" "\<not> segment_char CHR ''#''"
  by (simp_all add: unreserved_def segment_char_def)

lemma hex_digit_unreserved: "n < 16 \<Longrightarrow> unreserved (hex_digit n)"
  by (auto simp: unreserved_def hex_digit_def Let_def)

lemma escape_range:
  assumes "\<And>c. unreserved c \<Longrightarrow> keep c" "c \<in> set (concat (map (escape_char keep query) s))"
  shows "keep c \<or> c = CHR ''%'' \<or> c = CHR ''+''"
proof -
  obtain x where c: "c \<in> set (escape_char keep query x)" using assms(2) by auto
  have "(of_char x :: nat) div 16 < 16" using of_char_lt [of x] by linarith
  then have "unreserved (hex_digit (of_char x div 16))" "unreserved (hex_digit (of_char x mod 16))"
    by (simp_all add: hex_digit_unreserved)
  with c assms(1) show ?thesis by (auto simp: escape_char_def split: if_splits)
qed

text \<open>
  Escaping is faithful: a path segment and a query value are read back as they were, whatever
  bytes they hold, and an escaped segment has no character that ends a segment or a path.
\<close>

theorem escape_roundtrip:
  "unescape False (PathEscape s) = Some s \<and> unescape True (QueryEscape s) = Some s \<and>
   set (PathEscape s) \<inter> {CHR ''/'', CHR ''?'', CHR ''#''} = {}"
proof (intro conjI)
  show "unescape False (PathEscape s) = Some s" "unescape True (QueryEscape s) = Some s"
    unfolding PathEscape_def QueryEscape_def by (rule unescape_escape; simp)+
  have "segment_char c \<or> c = CHR ''%'' \<or> c = CHR ''+''" if "c \<in> set (PathEscape s)" for c
    using escape_range [of segment_char c False s] that by (auto simp: PathEscape_def segment_char_def)
  from this [of "CHR ''/''"] this [of "CHR ''?''"] this [of "CHR ''#''"]
  show "set (PathEscape s) \<inter> {CHR ''/'', CHR ''?'', CHR ''#''} = {}" by auto
qed

lemma QueryEscape_chars: "c \<in> set (QueryEscape s) \<Longrightarrow> c \<notin> {CHR ''&'', CHR ''='', CHR '';''}"
  using escape_range [of unreserved c True s] by (auto simp: QueryEscape_def)

lemma split_at_join:
  assumes "\<forall>p\<in>set ps. c \<notin> set p" "ps \<noteq> []"
  shows "split_at c (join_with [c] ps) = ps"
  using assms
proof (induction "[c]" ps rule: join_with.induct)
  case (2 x)
  have "c \<notin> set y \<Longrightarrow> split_at c y = [y]" for y by (induction y) auto
  with 2 show ?case by simp
next
  case (3 x y ys)
  have "c \<notin> set z \<Longrightarrow> split_at c (z @ c # t) = z # split_at c t" for z t by (induction z) auto
  with 3 show ?case by simp
qed simp

lemma parse_piece_pair: "parse_piece (QueryEscape k @ ''='' @ QueryEscape v) = Some (k, v)"
proof -
  have "\<forall>c\<in>set (QueryEscape k). c \<noteq> CHR ''=''" "CHR '';'' \<notin> set (QueryEscape k)" "CHR '';'' \<notin> set (QueryEscape v)"
    using QueryEscape_chars by blast+
  moreover have "unescape True (QueryEscape w) = Some w" for w
    unfolding QueryEscape_def by (rule unescape_escape; simp)
  ultimately show ?thesis by (simp add: parse_piece_def takeWhile_append2 dropWhile_append2)
qed

lemma ParseQuery_Encode: "q \<noteq> [] \<Longrightarrow> ParseQuery (Encode q) = sort_key fst q"
proof -
  assume q: "q \<noteq> []"
  let ?ps = "map (\<lambda>(k, v). QueryEscape k @ ''='' @ QueryEscape v) (sort_key fst q)"
  have "CHR ''&'' \<notin> set (QueryEscape w)" for w using QueryEscape_chars by blast
  then have "\<forall>p\<in>set ?ps. CHR ''&'' \<notin> set p" by simp
  moreover have "?ps \<noteq> []" proof -
    have "length ?ps \<noteq> 0" unfolding length_map length_sort using q by simp
    then show ?thesis by force
  qed
  ultimately have "split_at CHR ''&'' (Encode q) = ?ps" unfolding Encode_def by (rule split_at_join)
  then have "ParseQuery (Encode q) = List.map_filter parse_piece ?ps" by (simp add: ParseQuery_def)
  also have "List.map_filter parse_piece (map (\<lambda>(k, v). QueryEscape k @ ''='' @ QueryEscape v) xs) = xs" for xs
    by (induction xs) (simp_all add: List.map_filter_simps parse_piece_pair [simplified] split_beta)
  finally show ?thesis .
qed

lemma ParseQuery_empty: "ParseQuery [] = []"
  by (simp add: ParseQuery_def parse_piece_def List.map_filter_simps)

lemma Get_Encode:
  assumes "distinct (map fst q)"
  shows "Get (ParseQuery (Encode q)) k = Get q k"
proof (cases "q = []")
  case True
  then show ?thesis by (simp add: Encode_def ParseQuery_empty)
next
  case False
  have "map_of (sort_key fst q) = map_of q"
    by (rule map_of_inject_set [THEN iffD2]) (use assms in \<open>auto simp: distinct_map\<close>)
  with False show ?thesis by (simp add: ParseQuery_Encode Get_def)
qed

end
