(* ===== verification/JsonDoc.thy ===== *)
theory JsonDoc
  imports JsonBody
begin

text \<open>
  Documents as \<open>encoding/json\<close> prints and reads them back: the document of a value, and events as
  messages carry them (\<open>eventToMsgData\<close>, \<open>msgDataToEvent\<close> of \<open>internal/core/nats_bus.go\<close>).
\<close>

subsection \<open>The document of a value\<close>

definition Itoa :: "int \<Rightarrow> string" where
  "Itoa i = (if i < 0 then ''-'' else []) @ show_nat (nat \<bar>i\<bar>)"

lemma Atoi_Itoa: "Atoi (Itoa i) = Inr i"
proof -
  have val: "base_val 10 s = int (num_of s)" if "\<forall>c\<in>set s. is_digit c" for s
    using that
  proof (induction s rule: rev_induct)
    case (snoc c s)
    then have "hex_val c = int (digit_val c)"
      by (auto simp: hex_val_def is_digit_def digit_val_def)
    with snoc show ?case by (simp add: base_val_def num_of_def)
  qed (simp add: base_val_def num_of_def)
  have digits: "\<forall>c\<in>set (show_nat n). is_digit c" for n using show_nat_digits by blast
  have "hd (show_nat n) \<notin> {CHR ''-'', CHR ''+''}" for n
  proof -
    have "is_digit (hd (show_nat n))" using digits [of n] by simp
    then show ?thesis by (auto simp: is_digit_def)
  qed
  then show ?thesis
    using val [OF digits] digits by (auto simp: Itoa_def Atoi_def Let_def num_of_show_nat)
qed

text \<open>A document as it is read back; floats are printed by \<open>fmt\<close>.\<close>

fun doc_of :: "(float64 \<Rightarrow> string) \<Rightarrow> goval \<Rightarrow> json" where
  "doc_of fmt GNil = JNull"
| "doc_of fmt (GBool b) = JBool b"
| "doc_of fmt (GInt i) = JNum (Itoa i)"
| "doc_of fmt (GFloat x) = JNum (fmt x)"
| "doc_of fmt (GStr s) = JStr s"
| "doc_of fmt (GTime t) = JStr (fmt_time t)"
| "doc_of fmt (GList vs) = JArr (map (doc_of fmt) vs)"
| "doc_of fmt (GMap kvs) = JObj (map (\<lambda>(k, v). (k, doc_of fmt v)) kvs)"
| "doc_of fmt (GStruct kvs) = JObj (map (\<lambda>(k, v). (k, doc_of fmt v)) kvs)"

text \<open>
  A value that comes back from its document: the keys of each map are distinct, as those of a Go
  map are, and its floats are read as they were printed.
\<close>

fun readable :: "(float64 \<Rightarrow> string) \<Rightarrow> goval \<Rightarrow> bool" where
  "readable fmt GNil \<longleftrightarrow> True"
| "readable fmt (GBool b) \<longleftrightarrow> True"
| "readable fmt (GStr s) \<longleftrightarrow> True"
| "readable fmt (GFloat x) \<longleftrightarrow> ParseFloat (fmt x) = Inr x"
| "readable fmt (GList vs) \<longleftrightarrow> list_all (readable fmt) vs"
| "readable fmt (GMap kvs) \<longleftrightarrow> distinct (map fst kvs) \<and> list_all (\<lambda>(k, v). readable fmt v) kvs"
| "readable fmt _ \<longleftrightarrow> False"

lemma json_anys_docs:
  "(\<And>v. v \<in> set vs \<Longrightarrow> json_any (doc_of fmt v) = Inr v) \<Longrightarrow> json_anys (map (doc_of fmt) vs) = Inr vs"
  by (induction vs) simp_all

lemma json_members_docs:
  assumes "\<And>k v. (k, v) \<in> set kvs \<Longrightarrow> json_any (doc_of fmt v) = Inr v" "distinct (map fst (m @ kvs))"
  shows "json_members (map (\<lambda>(k, v). (k, doc_of fmt v)) kvs) m = Inr (m @ kvs)"
  using assms
proof (induction kvs arbitrary: m)
  case (Cons kv kvs)
  obtain k v where kv: "kv = (k, v)" by (cases kv)
  have "gomap_put k v m = m @ [(k, v)]"
    using Cons.prems(2) by (force simp: gomap_put_def kv filter_id_conv)
  moreover have "json_members (map (\<lambda>(k, v). (k, doc_of fmt v)) kvs) (m @ [kv]) = Inr ((m @ [kv]) @ kvs)"
    by (rule Cons.IH) (use Cons.prems in auto)
  moreover have "json_any (doc_of fmt v) = Inr v" using Cons.prems(1) [of k v] kv by simp
  ultimately show ?case using kv by simp
qed simp

lemma json_any_doc: "readable fmt v \<Longrightarrow> json_any (doc_of fmt v) = Inr v"
proof (induction v)
  case (GList vs)
  then show ?case using json_anys_docs [of vs fmt] by (simp add: list_all_iff)
next
  case (GMap kvs)
  have "json_any (doc_of fmt v) = Inr v" if "(k, v) \<in> set kvs" for k v
    using GMap that by (force simp: list_all_iff)
  then show ?case using GMap json_members_docs [of kvs fmt "[]"] by simp
qed simp_all

subsection \<open>Events as messages\<close>

definition eventToMsgData :: "(float64 \<Rightarrow> string) \<Rightarrow> Event \<Rightarrow> json res" where
  "eventToMsgData fmt e =
     (case json_norm (event_json e) of Inl err \<Rightarrow> Inl (Wrap ''marshal event'' err) | Inr v \<Rightarrow> Inr (doc_of fmt v))"

definition no_event :: Event where
  "no_event = \<lparr>e_EventID = [], e_EventType = [], e_Timestamp = 0, e_SourceNodeID = [], e_TraceID = [], e_Payload = None\<rparr>"

definition event_fields :: "Event fields" where
  "event_fields =
     [(''eventId'', str_field (\<lambda>s e. e\<lparr>e_EventID := s\<rparr>)),
      (''eventType'', str_field (\<lambda>s e. e\<lparr>e_EventType := s\<rparr>)),
      (''timestamp'', time_field (\<lambda>t e. e\<lparr>e_Timestamp := t\<rparr>)),
      (''sourceNodeId'', str_field (\<lambda>s e. e\<lparr>e_SourceNodeID := s\<rparr>)),
      (''traceId'', str_field (\<lambda>s e. e\<lparr>e_TraceID := s\<rparr>)),
      (''payload'', map_field e_Payload (\<lambda>m e. e\<lparr>e_Payload := m\<rparr>))]"

text \<open>The data of a message is any text: the document the scanner finds in it, or its error.\<close>

definition msgDataToEvent :: "json res \<Rightarrow> Event res" where
  "msgDataToEvent data =
     (case Decode (decode_struct event_fields no_event) data of
        Inl err \<Rightarrow> Inl (Wrap ''unmarshal event'' err) | Inr e \<Rightarrow> Inr e)"

lemma event_field_for:
  "field_for event_fields ''eventId'' = Some (str_field (\<lambda>s e. e\<lparr>e_EventID := s\<rparr>))"
  "field_for event_fields ''eventType'' = Some (str_field (\<lambda>s e. e\<lparr>e_EventType := s\<rparr>))"
  "field_for event_fields ''timestamp'' = Some (time_field (\<lambda>t e. e\<lparr>e_Timestamp := t\<rparr>))"
  "field_for event_fields ''sourceNodeId'' = Some (str_field (\<lambda>s e. e\<lparr>e_SourceNodeID := s\<rparr>))"
  "field_for event_fields ''traceId'' = Some (str_field (\<lambda>s e. e\<lparr>e_TraceID := s\<rparr>))"
  "field_for event_fields ''payload'' = Some (map_field e_Payload (\<lambda>m e. e\<lparr>e_Payload := m\<rparr>))"
  by (simp_all add: field_for_def event_fields_def)

text \<open>The event that comes out of a message: its payload is the JSON image of the one put in.\<close>

definition received_event :: "Event \<Rightarrow> Event" where
  "received_event e =
     e\<lparr>e_Payload := (case json_norm (map_value (e_Payload e)) of Inr (GMap m) \<Rightarrow> Some m | _ \<Rightarrow> None)\<rparr>"

lemma payload_image:
  assumes "json_norm (map_value p) = Inr w"
  shows "w = map_value (case w of GMap m \<Rightarrow> Some m | _ \<Rightarrow> None)"
  using assms by (cases p) (auto simp: map_value_def split: sum.splits)

lemma event_message_roundtrip:
  assumes "eventToMsgData fmt e = Inr d" "readable fmt (map_value (e_Payload (received_event e)))"
  shows "msgDataToEvent (Inr d) = Inr (received_event e)"
proof -
  obtain w where w: "json_norm (map_value (e_Payload e)) = Inr w" and t: "0 \<le> e_Timestamp e" "e_Timestamp e < year_10000"
    and d: "d = JObj [(''eventId'', JStr (e_EventID e)), (''eventType'', JStr (e_EventType e)),
      (''timestamp'', JStr (fmt_time (e_Timestamp e))), (''sourceNodeId'', JStr (e_SourceNodeID e)),
      (''traceId'', JStr (e_TraceID e)), (''payload'', doc_of fmt w)]"
    using assms(1) by (auto simp: eventToMsgData_def event_json_def split: sum.splits if_splits)
  let ?m = "case w of GMap m \<Rightarrow> Some m | _ \<Rightarrow> None"
  have m: "e_Payload (received_event e) = ?m" using w by (simp add: received_event_def)
  have re: "received_event e = e\<lparr>e_Payload := ?m\<rparr>" using w by (simp add: received_event_def)
  have wm: "w = map_value ?m" by (rule payload_image [OF w])
  have field: "map_field e_Payload (\<lambda>m e. e\<lparr>e_Payload := m\<rparr>) (doc_of fmt w) r = Inr (r\<lparr>e_Payload := ?m\<rparr>)"
    if "e_Payload r = None" for r
  proof (cases ?m)
    case None
    then show ?thesis using wm by (simp add: map_value_def map_field_def)
  next
    case (Some kvs)
    then have wk: "w = GMap kvs" using wm by (simp add: map_value_def)
    have "readable fmt (GMap kvs)" using assms(2) m Some by (simp add: map_value_def)
    then have "json_any (doc_of fmt (GMap kvs)) = Inr (GMap kvs)" by (rule json_any_doc)
    then have "json_members (map (\<lambda>(k, v). (k, doc_of fmt v)) kvs) [] = Inr kvs" by (simp split: sum.splits)
    then show ?thesis using that wk by (simp add: map_field_def)
  qed
  show ?thesis
    unfolding msgDataToEvent_def Decode_def decode_struct_def d re
    by (simp add: event_field_for str_field_def time_field_def parse_fmt_time [OF t] field no_event_def)
qed

end
