(* ===== verification/CliClient.thy ===== *)
theory CliClient
  imports CliOutput GoUrl JsonDoc ApiState DataMigration
begin

text \<open>
  \<open>cmd/openspace-os-cli\<close>: the HTTP client of \<open>client.go\<close> and the commands of \<open>main.go\<close>,
  \<open>clientcmd.go\<close> and \<open>migratecmd.go\<close>. A command is a definition over the values of its flags and
  arguments (cobra, which takes them from the command line and demands the required ones, is
  outside) and over the state \<open>'s\<close> of the server it talks to.
\<close>

subsection \<open>The client\<close>

text \<open>A reply: its status, its body, the error met while reading it, and, of a stream, the lines
  scanned from it and the scanner's error.\<close>

record http_reply =
  rp_status :: nat
  rp_body :: body
  rp_readErr :: verdict
  rp_lines :: "string list"
  rp_scanErr :: verdict

record cli_request =
  cq_method :: string
  cq_url :: string
  cq_body :: "goval option"
  cq_Authorization :: string

text \<open>
  The global flags and what surrounds a command: the variable \<open>OPENSPACE_TOKEN\<close>, the transport
  (with the parsing of the URL), the JSON scanner on a text and the text of a value, \<open>%v\<close>.
\<close>

record 's cli =
  ci_server :: string
  ci_token :: string
  ci_output :: string
  ci_env_token :: string
  ci_send :: "cli_request \<Rightarrow> 's \<Rightarrow> http_reply res \<times> 's"
  ci_scan :: "string \<Rightarrow> json res"
  ci_render :: "goval \<Rightarrow> string"
  ci_sprint :: "goval \<Rightarrow> string"

definition client_token :: "'s cli \<Rightarrow> string" where
  "client_token c = (if ci_token c = [] then ci_env_token c else ci_token c)"

definition authorization :: "'s cli \<Rightarrow> string" where
  "authorization c = (if client_token c \<noteq> [] then ''Bearer '' @ client_token c else [])"

definition Do :: "'s cli \<Rightarrow> string \<Rightarrow> string \<Rightarrow> goval option \<Rightarrow> 's \<Rightarrow> http_reply res \<times> 's" where
  "Do c meth path body s =
     (case (case body of None \<Rightarrow> Inr None | Some v \<Rightarrow> (case json_norm v of Inl e \<Rightarrow> Inl e | Inr w \<Rightarrow> Inr (Some w))) of
        Inl e \<Rightarrow> (Inl (Wrap ''marshal request body'' e), s)
      | Inr data \<Rightarrow>
          ci_send c \<lparr>cq_method = meth, cq_url = ci_server c @ path, cq_body = data, cq_Authorization = authorization c\<rparr> s)"

definition Get_path :: "'s cli \<Rightarrow> string \<Rightarrow> 's \<Rightarrow> http_reply res \<times> 's" where
  "Get_path c path s = Do c ''GET'' path None s"

definition Post :: "'s cli \<Rightarrow> string \<Rightarrow> goval option \<Rightarrow> 's \<Rightarrow> http_reply res \<times> 's" where
  "Post c path body s = Do c ''POST'' path body s"

definition Put :: "'s cli \<Rightarrow> string \<Rightarrow> goval option \<Rightarrow> 's \<Rightarrow> http_reply res \<times> 's" where
  "Put c path body s = Do c ''PUT'' path body s"

definition Delete :: "'s cli \<Rightarrow> string \<Rightarrow> 's \<Rightarrow> http_reply res \<times> 's" where
  "Delete c path s = Do c ''DELETE'' path None s"

definition body_text :: "'s cli \<Rightarrow> body \<Rightarrow> string" where
  "body_text c b = (case b of NoBody \<Rightarrow> [] | Json v \<Rightarrow> ci_render c v | Text t \<Rightarrow> t)"

definition Stream :: "'s cli \<Rightarrow> string \<Rightarrow> 's \<Rightarrow> (string list \<times> verdict) res \<times> 's" where
  "Stream c path s =
     (case ci_send c \<lparr>cq_method = ''GET'', cq_url = ci_server c @ path, cq_body = None, cq_Authorization = authorization c\<rparr> s of
        (Inl e, s1) \<Rightarrow> (Inl e, s1)
      | (Inr r, s1) \<Rightarrow>
        (if rp_status r \<noteq> StatusOK
         then (Inl (Errorf (''server answered '' @ show_nat (rp_status r) @ '': '' @ body_text c (rp_body r))), s1)
         else (Inr (rp_lines r, rp_scanErr r), s1)))"

text \<open>
  \<open>readResponse\<close>: where the body goes, if anywhere. \<open>null\<close> leaves a nil map or slice, which counts
  as empty and prints as \<open>null\<close>; so does no body at all.
\<close>

datatype target = Discard | IntoMap | IntoMaps

definition is_map :: "goval \<Rightarrow> bool" where
  "is_map v \<longleftrightarrow> (case v of GNil \<Rightarrow> True | GMap _ \<Rightarrow> True | _ \<Rightarrow> False)"

definition unmarshal_into :: "target \<Rightarrow> goval \<Rightarrow> goval res" where
  "unmarshal_into tgt v =
     (case tgt of
        Discard \<Rightarrow> Inr GNil
      | IntoMap \<Rightarrow> if is_map v then Inr v else Inl (type_error ''into map'')
      | IntoMaps \<Rightarrow>
        (case v of
           GNil \<Rightarrow> Inr GNil
         | GList vs \<Rightarrow> if list_all is_map vs then Inr v else Inl (type_error ''into map'')
         | _ \<Rightarrow> Inl (type_error ''into slice'')))"

definition readResponse :: "'s cli \<Rightarrow> target \<Rightarrow> http_reply \<Rightarrow> goval res" where
  "readResponse c tgt r =
     (case rp_readErr r of
        Some e \<Rightarrow> Inl (Wrap ''read response'' e)
      | None \<Rightarrow>
        (if rp_status r < 200 \<or> 300 \<le> rp_status r
         then Inl (Errorf (''HTTP '' @ show_nat (rp_status r) @ '': '' @ body_text c (rp_body r)))
         else if tgt = Discard then Inr GNil
         else case (case rp_body r of
                      NoBody \<Rightarrow> Inr GNil
                    | Json v \<Rightarrow> unmarshal_into tgt v
                    | Text t \<Rightarrow>
                      (if t = [] then Inr GNil
                       else case ci_scan c t of
                              Inl e \<Rightarrow> Inl e
                            | Inr d \<Rightarrow> (case json_any d of Inl e \<Rightarrow> Inl e | Inr v \<Rightarrow> unmarshal_into tgt v))) of
                Inl e \<Rightarrow> Inl (Wrap ''parse response JSON'' e)
              | Inr v \<Rightarrow> Inr v))"

fun fields_of :: "goval \<Rightarrow> gomap" where
  "fields_of (GMap m) = m"
| "fields_of _ = []"

fun items_of :: "goval \<Rightarrow> goval list" where
  "items_of (GList vs) = vs"
| "items_of _ = []"

text \<open>What a command leaves: what it printed and the error of \<open>RunE\<close>, or a panic.\<close>

datatype cli_result = Finished "out list" verdict | Panicked

definition finish :: "out list option \<Rightarrow> cli_result" where
  "finish outs = (case outs of None \<Rightarrow> Panicked | Some os \<Rightarrow> Finished os None)"

text \<open>The common end of the commands: read the reply, then print.\<close>

definition answered :: "'s cli \<Rightarrow> target \<Rightarrow> (goval \<Rightarrow> out list option) \<Rightarrow> http_reply res \<times> 's \<Rightarrow> cli_result \<times> 's" where
  "answered c tgt print rs =
     (case rs of
        (Inl e, s) \<Rightarrow> (Finished [] (Some e), s)
      | (Inr r, s) \<Rightarrow>
        (case readResponse c tgt r of
           Inl e \<Rightarrow> (Finished [] (Some e), s)
         | Inr v \<Rightarrow> (finish (print v), s)))"

definition print_json :: "goval \<Rightarrow> out list option" where
  "print_json v = Some [PrintJSON v]"

definition field :: "'s cli \<Rightarrow> goval \<Rightarrow> string \<Rightarrow> string" where
  "field c v k = strField (ci_sprint c) (fields_of v) k"

text \<open>A list of objects, a row of fields for each, and one object.\<close>

definition print_objects :: "'s cli \<Rightarrow> string list \<Rightarrow> (goval \<Rightarrow> string list) \<Rightarrow> goval \<Rightarrow> out list option" where
  "print_objects c headers row v = printList (ci_output c) v headers (map row (items_of v))"

definition print_object :: "'s cli \<Rightarrow> string list \<Rightarrow> (goval \<Rightarrow> string list) \<Rightarrow> goval \<Rightarrow> out list option" where
  "print_object c headers row v = printAny (ci_output c) v headers (row v)"

definition apiV1 :: string where
  "apiV1 = ''/api/v1''"

text \<open>\<open>q.Set\<close> under a condition, and a path with its query.\<close>

definition set_str :: "string \<Rightarrow> string \<Rightarrow> (string \<times> string) list" where
  "set_str k v = (if v \<noteq> [] then [(k, v)] else [])"

definition set_int :: "string \<Rightarrow> int \<Rightarrow> (string \<times> string) list" where
  "set_int k n = (if 0 < n then [(k, Itoa n)] else [])"

definition with_query :: "string \<Rightarrow> (string \<times> string) list \<Rightarrow> string" where
  "with_query path q = (if Encode q \<noteq> [] then path @ ''?'' @ Encode q else path)"

subsection \<open>Status and nodes\<close>

definition status_cmd :: "'s cli \<Rightarrow> 's \<Rightarrow> cli_result \<times> 's" where
  "status_cmd c s =
     answered c IntoMap print_json
       (case Get_path c ''/healthz'' s of
          (Inl e, s1) \<Rightarrow> (Inl (Wrap ''connect to core'' e), s1)
        | (Inr r, s1) \<Rightarrow> (Inr r, s1))"

definition node_row_text :: "'s cli \<Rightarrow> goval \<Rightarrow> string list" where
  "node_row_text c v =
     [field c v ''nodeId'', field c v ''nodeType'', field c v ''name'', field c v ''status'', field c v ''ownerCommunityId'']"

definition node_headers :: "string list" where
  "node_headers = [''NodeID'', ''Type'', ''Name'', ''Status'', ''Community'']"

definition register_body :: "string \<Rightarrow> string \<Rightarrow> string \<Rightarrow> string \<Rightarrow> string \<Rightarrow> string \<Rightarrow> string \<Rightarrow> goval" where
  "register_body nodeType name nodeID community status shardKey federationID =
     GMap ([(''nodeId'', GStr nodeID), (''nodeType'', GStr nodeType), (''name'', GStr name), (''status'', GStr status),
            (''ownerCommunityId'', GStr community)] @
           omit_str ''shardKey'' shardKey @ omit_str ''federationId'' federationID)"

definition node_register :: "'s cli \<Rightarrow> string \<Rightarrow> string \<Rightarrow> string \<Rightarrow> string \<Rightarrow> string \<Rightarrow> string \<Rightarrow> string \<Rightarrow> 's \<Rightarrow> cli_result \<times> 's" where
  "node_register c nodeType name nodeID community status shardKey federationID s =
     answered c IntoMap (print_object c node_headers (node_row_text c))
       (Post c (apiV1 @ ''/nodes'')
          (Some (register_body nodeType name nodeID community status shardKey federationID)) s)"

definition node_list_query :: "string \<Rightarrow> string \<Rightarrow> string \<Rightarrow> int \<Rightarrow> int \<Rightarrow> (string \<times> string) list" where
  "node_list_query nodeType community status limit offset =
     set_str ''nodeType'' nodeType @ set_str ''communityId'' community @ set_str ''status'' status @
     set_int ''limit'' limit @ set_int ''offset'' offset"

definition node_list :: "'s cli \<Rightarrow> string \<Rightarrow> string \<Rightarrow> string \<Rightarrow> int \<Rightarrow> int \<Rightarrow> 's \<Rightarrow> cli_result \<times> 's" where
  "node_list c nodeType community status limit offset s =
     answered c IntoMaps (print_objects c node_headers (node_row_text c))
       (Get_path c (with_query (apiV1 @ ''/nodes'') (node_list_query nodeType community status limit offset)) s)"

definition node_path :: "string \<Rightarrow> string" where
  "node_path nodeID = apiV1 @ ''/nodes/'' @ PathEscape nodeID"

definition node_show :: "'s cli \<Rightarrow> string \<Rightarrow> 's \<Rightarrow> cli_result \<times> 's" where
  "node_show c nodeID s = answered c IntoMap print_json (Get_path c (node_path nodeID) s)"

text \<open>An object given as text on the command line.\<close>

definition object_flag :: "'s cli \<Rightarrow> string \<Rightarrow> string \<Rightarrow> goval res" where
  "object_flag c flag t =
     (case Decode decode_map (ci_scan c t) of
        Inl e \<Rightarrow> Inl (Wrap (flag @ '' is not valid JSON'') e)
      | Inr m \<Rightarrow> Inr (map_value m))"

definition node_update :: "'s cli \<Rightarrow> string \<Rightarrow> string \<Rightarrow> string \<Rightarrow> string \<Rightarrow> string \<Rightarrow> string \<Rightarrow> 's \<Rightarrow> cli_result \<times> 's" where
  "node_update c nodeID name status shardKey federationID properties s =
     (let plain = omit_str ''name'' name @ omit_str ''status'' status @ omit_str ''shardKey'' shardKey @
                  omit_str ''federationId'' federationID
      in case (if properties = [] then Inr plain
               else case object_flag c ''--properties'' properties of
                      Inl e \<Rightarrow> Inl e
                    | Inr props \<Rightarrow> Inr (plain @ [(''properties'', props)])) of
           Inl e \<Rightarrow> (Finished [] (Some e), s)
         | Inr changes \<Rightarrow>
           (if changes = [] then (Finished [] (Some (Errorf ''no field to update'')), s)
            else answered c IntoMap print_json (Put c (node_path nodeID) (Some (GMap changes)) s)))"

definition node_delete :: "'s cli \<Rightarrow> string \<Rightarrow> 's \<Rightarrow> cli_result \<times> 's" where
  "node_delete c nodeID s =
     answered c Discard (\<lambda>_. Some [Println (''node '' @ nodeID @ '' deleted'')]) (Delete c (node_path nodeID) s)"

definition rel_headers :: "string list" where
  "rel_headers = [''RelID'', ''From'', ''To'', ''Type'']"

definition rel_row_text :: "'s cli \<Rightarrow> goval \<Rightarrow> string list" where
  "rel_row_text c v = [field c v ''relId'', field c v ''fromNodeId'', field c v ''toNodeId'', field c v ''relType'']"

definition node_relate :: "'s cli \<Rightarrow> string \<Rightarrow> string \<Rightarrow> string \<Rightarrow> 's \<Rightarrow> cli_result \<times> 's" where
  "node_relate c fromID toNodeID relType s =
     answered c IntoMap (print_object c rel_headers (rel_row_text c))
       (Post c (node_path fromID @ ''/relationships'')
          (Some (GMap [(''toNodeId'', GStr toNodeID), (''relType'', GStr relType)])) s)"

definition node_graph_query :: "string \<Rightarrow> int \<Rightarrow> string \<Rightarrow> (string \<times> string) list" where
  "node_graph_query direction depth relType =
     set_str ''direction'' direction @ set_int ''depth'' depth @ set_str ''relType'' relType"

definition node_graph :: "'s cli \<Rightarrow> string \<Rightarrow> string \<Rightarrow> int \<Rightarrow> string \<Rightarrow> 's \<Rightarrow> cli_result \<times> 's" where
  "node_graph c nodeID direction depth relType s =
     answered c IntoMaps (print_objects c rel_headers (rel_row_text c))
       (Get_path c (with_query (node_path nodeID @ ''/graph'') (node_graph_query direction depth relType)) s)"

definition relationship_delete :: "'s cli \<Rightarrow> string \<Rightarrow> 's \<Rightarrow> cli_result \<times> 's" where
  "relationship_delete c relID s =
     answered c Discard (\<lambda>_. Some [Println (''relationship '' @ relID @ '' deleted'')])
       (Delete c (apiV1 @ ''/relationships/'' @ PathEscape relID) s)"

subsection \<open>Events\<close>

definition watch_line :: "string \<Rightarrow> out list" where
  "watch_line line =
     (if has_prefix ''data: '' line then [Println (drop 6 line)]
      else if has_prefix '':'' line \<or> line = [] then [] else [Println line])"

definition event_watch :: "'s cli \<Rightarrow> string \<Rightarrow> 's \<Rightarrow> cli_result \<times> 's" where
  "event_watch c eventTypes s =
     (let path = apiV1 @ ''/events/subscribe'';
          path = (if eventTypes \<noteq> [] then path @ ''?'' @ Encode [(''types'', eventTypes)] else path)
      in case Stream c path s of
           (Inl e, s1) \<Rightarrow> (Finished [] (Some e), s1)
         | (Inr (ls, v), s1) \<Rightarrow> (Finished (concat (map watch_line ls)) v, s1))"

definition comma_list :: "string \<Rightarrow> string list" where
  "comma_list t = filter (\<lambda>x. x \<noteq> []) (map trim_space (split_at CHR '','' t))"

definition replay_body :: "string \<Rightarrow> string \<Rightarrow> string \<Rightarrow> string \<Rightarrow> int \<Rightarrow> goval" where
  "replay_body eventTypes source fromTime toTime limit =
     GMap ((let types = comma_list eventTypes in
            if eventTypes \<noteq> [] \<and> types \<noteq> [] then [(''eventTypes'', string_list types)] else []) @
           omit_str ''sourceNodeId'' source @ omit_str ''startTime'' fromTime @ omit_str ''endTime'' toTime @
           (if 0 < limit then [(''limit'', GInt limit)] else []))"

definition event_replay :: "'s cli \<Rightarrow> string \<Rightarrow> string \<Rightarrow> string \<Rightarrow> string \<Rightarrow> int \<Rightarrow> 's \<Rightarrow> cli_result \<times> 's" where
  "event_replay c eventTypes source fromTime toTime limit s =
     answered c IntoMaps
       (print_objects c [''EventID'', ''Type'', ''Source'', ''Timestamp'']
          (\<lambda>v. [field c v ''eventId'', field c v ''eventType'', field c v ''sourceNodeId'', field c v ''timestamp'']))
       (Post c (apiV1 @ ''/events/replay'') (Some (replay_body eventTypes source fromTime toTime limit)) s)"

definition count_fields :: "goval \<Rightarrow> string" where
  "count_fields v =
     (case map_of (fields_of v) ''fields'' of Some (GList fs) \<Rightarrow> show_nat (length fs) | _ \<Rightarrow> ''0'')"

definition event_schemas :: "'s cli \<Rightarrow> 's \<Rightarrow> cli_result \<times> 's" where
  "event_schemas c s =
     answered c IntoMaps
       (print_objects c [''EventType'', ''Version'', ''Fields'']
          (\<lambda>v. [field c v ''eventType'', field c v ''version'', count_fields v]))
       (Get_path c (apiV1 @ ''/schemas'') s)"

subsection \<open>Commands\<close>

definition command_send :: "'s cli \<Rightarrow> string \<Rightarrow> string \<Rightarrow> int \<Rightarrow> string \<Rightarrow> 's \<Rightarrow> cli_result \<times> 's" where
  "command_send c satID cmdType priority params s =
     (let req = [(''satelliteId'', GStr satID), (''commandType'', GStr cmdType), (''priority'', GInt priority)]
      in case (if params = [] then Inr req
               else case object_flag c ''--params'' params of
                      Inl e \<Rightarrow> Inl e
                    | Inr m \<Rightarrow> Inr (req @ [(''parameters'', m)])) of
           Inl e \<Rightarrow> (Finished [] (Some e), s)
         | Inr req \<Rightarrow>
             answered c IntoMap
               (print_object c [''CommandID'', ''Status''] (\<lambda>v. [field c v ''commandId'', field c v ''status'']))
               (Post c (apiV1 @ ''/commands'') (Some (GMap req)) s))"

definition command_path :: "string \<Rightarrow> string" where
  "command_path commandID = apiV1 @ ''/commands/'' @ PathEscape commandID"

definition command_status :: "'s cli \<Rightarrow> string \<Rightarrow> 's \<Rightarrow> cli_result \<times> 's" where
  "command_status c commandID s = answered c IntoMap print_json (Get_path c (command_path commandID) s)"

definition command_list :: "'s cli \<Rightarrow> string \<Rightarrow> 's \<Rightarrow> cli_result \<times> 's" where
  "command_list c status s =
     (let path = apiV1 @ ''/commands'';
          path = (if status \<noteq> [] then path @ ''?'' @ Encode [(''status'', status)] else path)
      in answered c IntoMaps
           (print_objects c [''CommandID'', ''Satellite'', ''Type'', ''Priority'', ''Status'']
              (\<lambda>v. [field c v ''commandId'', field c v ''satelliteId'', field c v ''commandType'', field c v ''priority'',
                    field c v ''status'']))
           (Get_path c path s))"

definition command_cancel :: "'s cli \<Rightarrow> string \<Rightarrow> 's \<Rightarrow> cli_result \<times> 's" where
  "command_cancel c commandID s = answered c IntoMap print_json (Delete c (command_path commandID) s)"

subsection \<open>Telemetry and plugins\<close>

fun text_of :: "'s cli \<Rightarrow> goval \<Rightarrow> string" where
  "text_of c (GStr t) = t"
| "text_of c v = ci_sprint c v"

definition print_parsers :: "'s cli \<Rightarrow> goval \<Rightarrow> out list option" where
  "print_parsers c v =
     (let parserList = (case map_of (fields_of v) ''parsers'' of Some (GList ps) \<Rightarrow> map (text_of c) ps | _ \<Rightarrow> [])
      in if isTableOutput (ci_output c)
         then PrintTable [''Parsers'', ''Active''] (transposeRows [[join_with '', '' parserList], [field c v ''active'']])
         else print_json v)"

definition telemetry_parsers :: "'s cli \<Rightarrow> 's \<Rightarrow> cli_result \<times> 's" where
  "telemetry_parsers c s = answered c IntoMap (print_parsers c) (Get_path c (apiV1 @ ''/telemetry/parsers'') s)"

definition telemetry_send :: "'s cli \<Rightarrow> string \<Rightarrow> 's \<Rightarrow> cli_result \<times> 's" where
  "telemetry_send c data s =
     answered c IntoMap print_json (Post c (apiV1 @ ''/telemetry/send'') (Some (GMap [(''data'', GStr data)])) s)"

definition plugin_row_text :: "'s cli \<Rightarrow> goval \<Rightarrow> string list" where
  "plugin_row_text c v =
     [nestedStr (ci_sprint c) (fields_of v) [''Manifest'', ''name''],
      nestedStr (ci_sprint c) (fields_of v) [''Manifest'', ''version''], field c v ''Status'']"

definition plugin_list :: "'s cli \<Rightarrow> 's \<Rightarrow> cli_result \<times> 's" where
  "plugin_list c s =
     answered c IntoMaps (print_objects c [''Name'', ''Version'', ''Status''] (plugin_row_text c))
       (Get_path c (apiV1 @ ''/plugins'') s)"

definition plugin_unload :: "'s cli \<Rightarrow> string \<Rightarrow> 's \<Rightarrow> cli_result \<times> 's" where
  "plugin_unload c name s =
     answered c Discard (\<lambda>_. Some [Println (''plugin '' @ name @ '' unloaded'')])
       (Post c (apiV1 @ ''/plugins/'' @ PathEscape name @ ''/unload'') None s)"

subsection \<open>Authentication and clients\<close>

definition auth_login :: "'s cli \<Rightarrow> string \<Rightarrow> string \<Rightarrow> 's \<Rightarrow> cli_result \<times> 's" where
  "auth_login c username password s =
     answered c IntoMap print_json
       (Post c (apiV1 @ ''/auth/login'') (Some (GMap [(''username'', GStr username), (''password'', GStr password)])) s)"

definition auth_me :: "'s cli \<Rightarrow> 's \<Rightarrow> cli_result \<times> 's" where
  "auth_me c s = answered c IntoMap print_json (Get_path c (apiV1 @ ''/auth/me'') s)"

definition client_create :: "'s cli \<Rightarrow> string \<Rightarrow> string \<Rightarrow> string \<Rightarrow> string \<Rightarrow> 's \<Rightarrow> cli_result \<times> 's" where
  "client_create c name moduleName communityID roles s =
     (let roleList = comma_list roles;
          body = [(''name'', GStr name)] @ omit_str ''moduleName'' moduleName @ omit_str ''communityId'' communityID @
                 (if roles \<noteq> [] \<and> roleList \<noteq> [] then [(''roles'', string_list roleList)] else [])
      in answered c IntoMap
           (print_object c [''ClientID'', ''Name'', ''Module'', ''Community'', ''Roles'', ''APIKey'']
              (\<lambda>v. [field c v ''clientId'', field c v ''name'', field c v ''moduleName'', field c v ''communityId'',
                    field c v ''roles'', field c v ''apiKey'']))
           (Post c (apiV1 @ ''/clients'') (Some (GMap body)) s))"

definition client_list :: "'s cli \<Rightarrow> 's \<Rightarrow> cli_result \<times> 's" where
  "client_list c s =
     answered c IntoMaps
       (print_objects c [''ClientID'', ''Name'', ''Module'', ''Community'', ''Roles'', ''Status'']
          (\<lambda>v. [field c v ''clientId'', field c v ''name'', field c v ''moduleName'', field c v ''communityId'',
                field c v ''roles'', field c v ''status'']))
       (Get_path c (apiV1 @ ''/clients'') s)"

definition client_revoke :: "'s cli \<Rightarrow> string \<Rightarrow> 's \<Rightarrow> cli_result \<times> 's" where
  "client_revoke c clientID s =
     answered c Discard (\<lambda>_. Some [Println (''client '' @ clientID @ '' revoked'')])
       (Delete c (apiV1 @ ''/clients/'' @ PathEscape clientID) s)"

subsection \<open>Import\<close>

text \<open>Opening the two databases is outside; the context has a deadline of half an hour.\<close>

definition migrate_import :: "(string \<Rightarrow> kgdb res) \<Rightarrow> (string \<Rightarrow> kgdb res) \<Rightarrow> ctx \<Rightarrow> string \<Rightarrow> string \<Rightarrow> int \<Rightarrow>
    cli_result \<times> (kgdb \<times> kgdb) option" where
  "migrate_import InitDB InitPostgresDB ctx sqlitePath dsn batch =
     (if sqlitePath = [] \<or> dsn = [] then (Finished [] (Some (Errorf ''--sqlite and --dsn are required'')), None)
      else
        (let o1 = Println (''opening SQLite: '' @ sqlitePath); o2 = Println ''connecting to PostgreSQL...'' in
         case InitDB sqlitePath of
           Inl e \<Rightarrow> (Finished [o1] (Some (Wrap ''open SQLite'' e)), None)
         | Inr src \<Rightarrow>
           (case InitPostgresDB dsn of
              Inl e \<Rightarrow> (Finished [o1, o2] (Some (Wrap ''open PostgreSQL'' e)), None)
            | Inr dst \<Rightarrow>
              (case MigrateSQLiteToPostgres ctx batch src dst of
                 ((stats, Some e), src1, dst1) \<Rightarrow> (Finished [o1, o2] (Some e), Some (src1, dst1))
               | ((stats, None), src1, dst1) \<Rightarrow>
                   (Finished
                      [o1, o2,
                       Println (''imported: nodes '' @ show_nat (NodesNew stats) @ '' new / '' @ show_nat (NodesSkipped stats) @
                         '' skipped; relationships '' @ show_nat (RelsNew stats) @ '' new / '' @ show_nat (RelsSkipped stats) @
                         '' skipped''),
                       Println ''(skipped rows have keys the target already holds; the import can be repeated)'']
                      None, Some (src1, dst1))))))"

end
