(* ===== verification/CliServer.thy ===== *)
theory CliServer
  imports CliClient RestProperties
begin

text \<open>
  The command-line client against the server: which route each command reaches, which options
  the services get, what a registration followed by a query prints, and why \<open>event watch\<close> prints
  nothing.
\<close>

subsection \<open>From the wire to the router\<close>

text \<open>
  How \<open>chi\<close> matches: a method and a path give the pattern and the parameters of a route, or
  nothing. \<open>wi_fmt\<close> prints the floats of a document, \<open>wi_len\<close> is its length.
\<close>

record wire =
  wi_base :: string
  wi_chi :: "string \<Rightarrow> string \<Rightarrow> (string \<times> (string \<Rightarrow> string)) option"
  wi_fmt :: "float64 \<Rightarrow> string"
  wi_len :: "goval \<Rightarrow> int"

definition url_path :: "wire \<Rightarrow> cli_request \<Rightarrow> string" where
  "url_path W q = takeWhile (\<lambda>c. c \<noteq> CHR ''?'') (drop (length (wi_base W)) (cq_url q))"

definition url_query :: "wire \<Rightarrow> cli_request \<Rightarrow> string" where
  "url_query W q = tl (dropWhile (\<lambda>c. c \<noteq> CHR ''?'') (drop (length (wi_base W)) (cq_url q)))"

definition arrive :: "wire \<Rightarrow> cli_request \<Rightarrow> rest_request" where
  "arrive W q =
     (let (pattern, param) = (case wi_chi W (cq_method q) (url_path W q) of None \<Rightarrow> ([], (\<lambda>_. [])) | Some m \<Rightarrow> m)
      in \<lparr>hr_http = \<lparr>rq_Authorization = cq_Authorization q, rq_XAPIKey = [], rq_nodeId = param ''nodeId'',
            rq_claims = None, rq_ctx = background\<rparr>,
          hr_method = cq_method q, hr_pattern = pattern, hr_path = url_path W q, hr_param = param,
          hr_query = Get (ParseQuery (url_query W q)),
          hr_body = (case cq_body q of None \<Rightarrow> Inl (External ''EOF'') | Some v \<Rightarrow> Inr (doc_of (wi_fmt W) v)),
          hr_ContentLength = (case cq_body q of None \<Rightarrow> 0 | Some v \<Rightarrow> wi_len W v)\<rparr>)"

text \<open>The server that \<open>main\<close> serves as the other end of a connection. A stream that opens is not modelled further.\<close>

definition send_served :: "'b env \<Rightarrow> assets \<Rightarrow> wire \<Rightarrow> cli_request \<Rightarrow> 'b api \<Rightarrow> http_reply res \<times> 'b api" where
  "send_served E A W q s =
     (case Served E A (arrive W q) s of
        (Inl a, s1) \<Rightarrow>
          (Inr \<lparr>rp_status = rs_status a, rp_body = rs_body a, rp_readErr = None, rp_lines = [], rp_scanErr = None\<rparr>, s1)
      | (Inr k, s1) \<Rightarrow>
          (Inr \<lparr>rp_status = StatusOK, rp_body = NoBody, rp_readErr = None, rp_lines = [], rp_scanErr = None\<rparr>, s1))"

text \<open>
  What is relied on of \<open>chi\<close>: it finds a route without parameters by its path, and one with a
  parameter by a path that has a value of unreserved characters in its place.
\<close>

definition plain_id :: "string \<Rightarrow> bool" where
  "plain_id v \<longleftrightarrow> v \<noteq> [] \<and> (\<forall>c\<in>set v. unreserved c)"

definition param_routes :: "(string \<times> string \<times> string \<times> string) list" where
  "param_routes =
     [(''GET'', ''/api/v1/clients/'', ''clientId'', ''''), (''DELETE'', ''/api/v1/clients/'', ''clientId'', ''''),
      (''GET'', ''/api/v1/users/'', ''userId'', ''''), (''DELETE'', ''/api/v1/users/'', ''userId'', ''''),
      (''GET'', ''/api/v1/nodes/'', ''nodeId'', ''''), (''PUT'', ''/api/v1/nodes/'', ''nodeId'', ''''),
      (''DELETE'', ''/api/v1/nodes/'', ''nodeId'', ''''),
      (''POST'', ''/api/v1/nodes/'', ''nodeId'', ''/relationships''),
      (''DELETE'', ''/api/v1/relationships/'', ''relId'', ''''),
      (''GET'', ''/api/v1/nodes/'', ''nodeId'', ''/graph''),
      (''POST'', ''/api/v1/plugins/'', ''name'', ''/unload''),
      (''GET'', ''/api/v1/commands/'', ''commandId'', ''''), (''DELETE'', ''/api/v1/commands/'', ''commandId'', '''')]"

definition chi_finds :: "(string \<Rightarrow> string \<Rightarrow> (string \<times> (string \<Rightarrow> string)) option) \<Rightarrow> bool" where
  "chi_finds chi \<longleftrightarrow>
     (\<forall>((m, p), x)\<in>set routes. CHR ''{'' \<notin> set p \<longrightarrow> (\<exists>param. chi m p = Some (p, param))) \<and>
     (\<forall>(m, pre, name, post)\<in>set param_routes. \<forall>v. plain_id v \<longrightarrow>
        chi m (pre @ v @ post) = Some (pre @ ''{'' @ name @ ''}'' @ post, (\<lambda>k. if k = name then v else [])))"

lemma chi_static:
  assumes "chi_finds chi" "((m, p), x) \<in> set routes" "CHR ''{'' \<notin> set p"
  obtains param where "chi m p = Some (p, param)"
  using assms unfolding chi_finds_def by blast

lemma chi_param:
  assumes "chi_finds chi" "(m, pre, name, post) \<in> set param_routes" "plain_id v"
  shows "chi m (pre @ v @ post) = Some (pre @ ''{'' @ name @ ''}'' @ post, (\<lambda>k. if k = name then v else []))"
  using assms unfolding chi_finds_def by blast

text \<open>A matcher of that kind.\<close>

definition match_param :: "string \<Rightarrow> string \<times> string \<times> string \<times> string \<Rightarrow> bool" where
  "match_param path = (\<lambda>(m, pre, name, post).
     has_prefix pre path \<and> length pre + length post \<le> length path \<and>
     drop (length path - length post) path = post \<and>
     plain_id (take (length path - length pre - length post) (drop (length pre) path)))"

definition plain_chi :: "string \<Rightarrow> string \<Rightarrow> (string \<times> (string \<Rightarrow> string)) option" where
  "plain_chi m path =
     (case find (\<lambda>r. fst r = m \<and> match_param path r) param_routes of
        Some (_, pre, name, post) \<Rightarrow>
          Some (pre @ ''{'' @ name @ ''}'' @ post,
            (\<lambda>k. if k = name then take (length path - length pre - length post) (drop (length pre) path) else []))
      | None \<Rightarrow> Some (path, (\<lambda>_. [])))"

lemma match_param_fill: "plain_id v \<Longrightarrow> match_param (pre @ v @ post) (m, pre, name, post)"
  by (simp add: match_param_def has_prefix_def)

lemma slash_not_plain [simp]: "\<not> plain_id (v @ CHR ''/'' # w)"
  by (simp add: plain_id_def unreserved_def)

lemma plain_chi_param:
  "(m, pre, name, post) \<in> set param_routes \<Longrightarrow> plain_id v \<Longrightarrow>
     find (\<lambda>r. fst r = m \<and> match_param (pre @ v @ post) r) param_routes = Some (m, pre, name, post)"
  unfolding param_routes_def list.set
  by (elim insertE emptyE) (simp_all add: match_param_def has_prefix_def)

lemma plain_chi_static:
  "list_all (\<lambda>((m, p), x). CHR ''{'' \<in> set p \<or> find (\<lambda>r. fst r = m \<and> match_param p r) param_routes = None) routes"
  by code_simp

lemma plain_chi_finds: "chi_finds plain_chi"
proof -
  have "\<exists>param. plain_chi m p = Some (p, param)" if "((m, p), x) \<in> set routes" "CHR ''{'' \<notin> set p" for m p x
  proof -
    have "find (\<lambda>r. fst r = m \<and> match_param p r) param_routes = None"
      using plain_chi_static that unfolding list_all_iff by fastforce
    then show ?thesis by (simp add: plain_chi_def)
  qed
  then show ?thesis
    unfolding chi_finds_def by (auto simp: plain_chi_def plain_chi_param fun_eq_iff)
qed

subsection \<open>What a command asks for\<close>

text \<open>The command's effect on the server is that of one request, which reaches the endpoint.\<close>

definition reaches :: "wire \<Rightarrow> 's cli \<Rightarrow> ('s \<Rightarrow> cli_result \<times> 's) \<Rightarrow> endpoint \<Rightarrow> bool" where
  "reaches W c cmd ep \<longleftrightarrow>
     (\<exists>q g. (\<forall>s. snd (cmd s) = snd (ci_send c q s)) \<and> route_of (arrive W q) = Some (g, ep))"

definition request_to :: "'s cli \<Rightarrow> string \<Rightarrow> string \<Rightarrow> goval option \<Rightarrow> cli_request" where
  "request_to c m path data =
     \<lparr>cq_method = m, cq_url = ci_server c @ path, cq_body = data, cq_Authorization = authorization c\<rparr>"

definition sendable :: "goval option \<Rightarrow> bool" where
  "sendable body \<longleftrightarrow> (case body of None \<Rightarrow> True | Some v \<Rightarrow> is_ok (json_norm v))"

lemma sendable_simps [simp]: "sendable None" "sendable (Some v) = is_ok (json_norm v)"
  by (simp_all add: sendable_def)

lemma snd_answered [simp]: "snd (answered c tgt print rs) = snd rs"
  by (auto simp: answered_def split: prod.splits sum.splits)

lemma Do_sends:
  "sendable body \<Longrightarrow> \<exists>data. \<forall>s. Do c m path body s = ci_send c (request_to c m path data) s"
  by (cases body) (auto simp: Do_def request_to_def is_ok_def split: sum.splits)

lemma arrive_found:
  assumes "wi_base W = ci_server c" "CHR ''?'' \<notin> set p" "tail = [] \<or> hd tail = CHR ''?''"
    and "wi_chi W m p = Some (pat, param)"
  shows "hr_method (arrive W (request_to c m (p @ tail) data)) = m"
    "hr_pattern (arrive W (request_to c m (p @ tail) data)) = pat"
    "hr_param (arrive W (request_to c m (p @ tail) data)) = param"
proof -
  have "takeWhile (\<lambda>c. c \<noteq> CHR ''?'') tail = []" using assms(3) by (cases tail) auto
  moreover have "\<forall>c\<in>set p. c \<noteq> CHR ''?''" using assms(2) by auto
  ultimately have "url_path W (request_to c m (p @ tail) data) = p"
    by (simp add: url_path_def request_to_def assms(1) takeWhile_append2)
  then show "hr_method (arrive W (request_to c m (p @ tail) data)) = m"
    "hr_pattern (arrive W (request_to c m (p @ tail) data)) = pat"
    "hr_param (arrive W (request_to c m (p @ tail) data)) = param"
    using assms(4) by (simp_all add: arrive_def request_to_def)
qed

lemma reaches_static:
  assumes "wi_base W = ci_server c" "chi_finds (wi_chi W)" "map_of routes (m, p) = Some (g, ep)" "sendable body"
    and "CHR ''{'' \<notin> set p" "CHR ''?'' \<notin> set p" "tail = [] \<or> hd tail = CHR ''?''"
    and "\<And>s. snd (cmd s) = snd (Do c m (p @ tail) body s)"
  shows "reaches W c cmd ep"
proof -
  obtain data where d: "\<And>s. Do c m (p @ tail) body s = ci_send c (request_to c m (p @ tail) data) s"
    using Do_sends [OF assms(4)] by blast
  obtain param where "wi_chi W m p = Some (p, param)"
    using chi_static [OF assms(2) map_of_SomeD [OF assms(3)] assms(5)] by blast
  note a = arrive_found [OF assms(1,6,7) this]
  have "snd (cmd s) = snd (ci_send c (request_to c m (p @ tail) data) s)" for s
    unfolding assms(8) d ..
  moreover have "route_of (arrive W (request_to c m (p @ tail) data)) = Some (g, ep)"
    unfolding route_of_def a by (rule assms(3))
  ultimately show ?thesis unfolding reaches_def by (intro exI conjI allI)
qed

lemma plain_chars: "plain_id v \<Longrightarrow> CHR ''?'' \<notin> set v" "plain_id v \<Longrightarrow> PathEscape v = v"
proof -
  show "plain_id v \<Longrightarrow> CHR ''?'' \<notin> set v" by (auto simp: plain_id_def unreserved_def)
  have "(\<forall>c\<in>set v. unreserved c) \<Longrightarrow> PathEscape v = v"
    by (induction v) (simp_all add: PathEscape_def escape_char_def segment_char_def)
  then show "plain_id v \<Longrightarrow> PathEscape v = v" by (simp add: plain_id_def)
qed

lemma reaches_param:
  assumes "wi_base W = ci_server c" "chi_finds (wi_chi W)" "plain_id v" "(m, pre, name, post) \<in> set param_routes"
    and "map_of routes (m, pre @ ''{'' @ name @ ''}'' @ post) = Some (g, ep)" "sendable body"
    and "CHR ''?'' \<notin> set pre" "CHR ''?'' \<notin> set post" "tail = [] \<or> hd tail = CHR ''?''"
    and "\<And>s. snd (cmd s) = snd (Do c m ((pre @ PathEscape v @ post) @ tail) body s)"
  shows "reaches W c cmd ep"
proof -
  obtain data where d: "\<And>s. Do c m ((pre @ v @ post) @ tail) body s = ci_send c (request_to c m ((pre @ v @ post) @ tail) data) s"
    using Do_sends [OF assms(6)] by blast
  have q: "CHR ''?'' \<notin> set (pre @ v @ post)" using assms(7,8) plain_chars(1) [OF assms(3)] by simp
  note a = arrive_found [OF assms(1) q assms(9) chi_param [OF assms(2,4,3)]]
  have "snd (cmd s) = snd (ci_send c (request_to c m ((pre @ v @ post) @ tail) data) s)" for s
    unfolding assms(10) plain_chars(2) [OF assms(3)] d ..
  moreover have "route_of (arrive W (request_to c m ((pre @ v @ post) @ tail) data)) = Some (g, ep)"
    unfolding route_of_def a by (rule assms(5))
  ultimately show ?thesis unfolding reaches_def by (intro exI conjI allI)
qed

text \<open>The routes the commands use.\<close>

lemma cli_routes [simp]:
  "map_of routes (''GET'', ''/healthz'') = Some (Public, EP_Health)"
  "map_of routes (''GET'', ''/api/v1/schemas'') = Some (Public, EP_ListSchemas)"
  "map_of routes (''POST'', ''/api/v1/auth/login'') = Some (Public, EP_Login)"
  "map_of routes (''GET'', ''/api/v1/auth/me'') = Some (Authenticated, EP_GetMe)"
  "map_of routes (''GET'', ''/api/v1/clients'') = Some (Permission ''user.manage'', EP_ListClients)"
  "map_of routes (''POST'', ''/api/v1/clients'') = Some (Permission ''user.manage'', EP_CreateClient)"
  "map_of routes (''DELETE'', ''/api/v1/clients/{clientId}'') = Some (Permission ''user.manage'', EP_RevokeClient)"
  "map_of routes (''POST'', ''/api/v1/nodes'') = Some (Permission ''node.create'', EP_CreateNode)"
  "map_of routes (''GET'', ''/api/v1/nodes'') = Some (Permission ''node.read'', EP_ListNodes)"
  "map_of routes (''GET'', ''/api/v1/nodes/{nodeId}'') = Some (Permission ''node.read'', EP_GetNode)"
  "map_of routes (''PUT'', ''/api/v1/nodes/{nodeId}'') = Some (Permission ''node.update'', EP_UpdateNode)"
  "map_of routes (''DELETE'', ''/api/v1/nodes/{nodeId}'') = Some (Permission ''node.delete'', EP_DeleteNode)"
  "map_of routes (''POST'', ''/api/v1/nodes/{nodeId}/relationships'') = Some (Permission ''relationship.create'', EP_CreateRelationship)"
  "map_of routes (''DELETE'', ''/api/v1/relationships/{relId}'') = Some (Permission ''relationship.delete'', EP_DeleteRelationship)"
  "map_of routes (''GET'', ''/api/v1/nodes/{nodeId}/graph'') = Some (Permission ''graph.query'', EP_TraverseGraph)"
  "map_of routes (''GET'', ''/api/v1/events/subscribe'') = Some (Permission ''event.subscribe'', EP_SubscribeEvents)"
  "map_of routes (''POST'', ''/api/v1/events/replay'') = Some (Permission ''event.replay'', EP_ReplayEvents)"
  "map_of routes (''GET'', ''/api/v1/plugins'') = Some (Permission ''plugin.manage'', EP_ListPlugins)"
  "map_of routes (''POST'', ''/api/v1/plugins/{name}/unload'') = Some (Permission ''plugin.manage'', EP_UnloadPlugin)"
  "map_of routes (''GET'', ''/api/v1/telemetry/parsers'') = Some (Permission ''plugin.manage'', EP_ListTelemetryParsers)"
  "map_of routes (''POST'', ''/api/v1/telemetry/send'') = Some (Permission ''plugin.manage'', EP_SendTelemetry)"
  "map_of routes (''POST'', ''/api/v1/commands'') = Some (Permission ''command.send'', EP_SendCommand)"
  "map_of routes (''GET'', ''/api/v1/commands'') = Some (Permission ''command.send'', EP_ListCommands)"
  "map_of routes (''GET'', ''/api/v1/commands/{commandId}'') = Some (Permission ''command.send'', EP_GetCommandStatus)"
  "map_of routes (''DELETE'', ''/api/v1/commands/{commandId}'') = Some (Permission ''command.send'', EP_CancelCommand)"
  unfolding routes_def by code_simp+

lemmas cli_calls = Get_path_def Post_def Put_def Delete_def apiV1_def

lemma is_ok_strings: "is_ok (json_norm (GMap kvs))" if "list_all (\<lambda>kv. is_ok (json_norm (snd kv))) kvs"
proof -
  have "list_all (\<lambda>kv. is_ok (json_norm (snd kv))) kvs \<Longrightarrow> is_ok (json_fields kvs)"
    by (induction kvs) (auto simp: is_ok_def split: sum.splits)
  with that show ?thesis by (auto simp: is_ok_def split: sum.splits)
qed

lemma list_all_omit [simp]: "list_all (\<lambda>kv. is_ok (json_norm (snd kv))) (omit_str k v)"
  by (simp add: omit_str_def)

lemma is_ok_string_list [simp]: "is_ok (json_norm (string_list xs))"
proof -
  have "json_norms (map GStr xs) = Inr (map GStr xs)" by (induction xs) simp_all
  then show ?thesis by (simp add: string_list_def)
qed

lemma bodies_ok [simp]:
  "is_ok (json_norm (register_body nodeType name nodeID community status shardKey federationID))"
  "is_ok (json_norm (replay_body eventTypes source fromTime toTime limit))"
  unfolding register_body_def replay_body_def Let_def by (rule is_ok_strings; simp)+

lemma query_tail: "\<exists>tail. with_query p q = p @ tail \<and> (tail = [] \<or> hd tail = CHR ''?'')"
  by (auto simp: with_query_def)

text \<open>Commands on nodes and relationships.\<close>

lemma node_calls:
  assumes "wi_base W = ci_server c" "chi_finds (wi_chi W)" "plain_id k"
  shows "reaches W c (node_register c ty name k com st shard fed) EP_CreateNode"
    "reaches W c (node_list c ty com st limit offset) EP_ListNodes"
    "reaches W c (node_show c k) EP_GetNode"
    "name \<noteq> [] \<or> st \<noteq> [] \<or> shard \<noteq> [] \<or> fed \<noteq> [] \<Longrightarrow> reaches W c (node_update c k name st shard fed []) EP_UpdateNode"
    "reaches W c (node_delete c k) EP_DeleteNode"
    "reaches W c (node_relate c k to rt) EP_CreateRelationship"
    "reaches W c (node_graph c k dir depth rt) EP_TraverseGraph"
    "reaches W c (relationship_delete c k) EP_DeleteRelationship"
proof -
  note static = reaches_static [OF assms(1,2)] and param = reaches_param [OF assms]
  show "reaches W c (node_register c ty name k com st shard fed) EP_CreateNode"
    by (rule static [where m = "''POST''" and p = "''/api/v1/nodes''" and tail = "[]" and g = "Permission ''node.create''"
          and body = "Some (register_body ty name k com st shard fed)"])
      (simp_all add: node_register_def cli_calls)
  obtain tail where t: "with_query ''/api/v1/nodes'' (node_list_query ty com st limit offset) = ''/api/v1/nodes'' @ tail"
      "tail = [] \<or> hd tail = CHR ''?''" using query_tail by blast
  show "reaches W c (node_list c ty com st limit offset) EP_ListNodes"
    by (rule static [where m = "''GET''" and p = "''/api/v1/nodes''" and tail = tail and g = "Permission ''node.read''" and body = None])
      (use t in \<open>simp_all add: node_list_def cli_calls\<close>)
  show "reaches W c (node_show c k) EP_GetNode"
    by (rule param [where m = "''GET''" and pre = "''/api/v1/nodes/''" and post = "[]" and name = "''nodeId''" and tail = "[]"
          and g = "Permission ''node.read''" and body = None])
      (simp_all add: param_routes_def node_show_def node_path_def cli_calls)
  let ?changes = "omit_str ''name'' name @ omit_str ''status'' st @ omit_str ''shardKey'' shard @ omit_str ''federationId'' fed"
  show "reaches W c (node_update c k name st shard fed []) EP_UpdateNode" if "name \<noteq> [] \<or> st \<noteq> [] \<or> shard \<noteq> [] \<or> fed \<noteq> []"
  proof (rule param [where m = "''PUT''" and pre = "''/api/v1/nodes/''" and post = "[]" and name = "''nodeId''" and tail = "[]"
        and g = "Permission ''node.update''" and body = "Some (GMap ?changes)"])
    have "?changes \<noteq> []" using that by (auto simp: omit_str_def)
    then show "snd (node_update c k name st shard fed [] s) = snd (Do c ''PUT'' ((''/api/v1/nodes/'' @ PathEscape k @ []) @ []) (Some (GMap ?changes)) s)" for s
      by (simp add: node_update_def node_path_def cli_calls Let_def del: append_is_Nil_conv)
    show "sendable (Some (GMap ?changes))" unfolding sendable_simps by (rule is_ok_strings) simp
  qed (simp_all add: param_routes_def)
  show "reaches W c (node_delete c k) EP_DeleteNode"
    by (rule param [where m = "''DELETE''" and pre = "''/api/v1/nodes/''" and post = "[]" and name = "''nodeId''" and tail = "[]"
          and g = "Permission ''node.delete''" and body = None])
      (simp_all add: param_routes_def node_delete_def node_path_def cli_calls)
  show "reaches W c (node_relate c k to rt) EP_CreateRelationship"
    by (rule param [where m = "''POST''" and pre = "''/api/v1/nodes/''" and post = "''/relationships''" and name = "''nodeId''" and tail = "[]"
          and g = "Permission ''relationship.create''" and body = "Some (GMap [(''toNodeId'', GStr to), (''relType'', GStr rt)])"])
      (simp_all add: param_routes_def node_relate_def node_path_def cli_calls)
  obtain tail2 where t2: "with_query (''/api/v1/nodes/'' @ PathEscape k @ ''/graph'') (node_graph_query dir depth rt)
      = (''/api/v1/nodes/'' @ PathEscape k @ ''/graph'') @ tail2" "tail2 = [] \<or> hd tail2 = CHR ''?''"
    using query_tail by blast
  show "reaches W c (node_graph c k dir depth rt) EP_TraverseGraph"
    by (rule param [where m = "''GET''" and pre = "''/api/v1/nodes/''" and post = "''/graph''" and name = "''nodeId''" and tail = tail2
          and g = "Permission ''graph.query''" and body = None])
      (use t2 in \<open>simp_all add: param_routes_def node_graph_def node_path_def cli_calls\<close>)
  show "reaches W c (relationship_delete c k) EP_DeleteRelationship"
    by (rule param [where m = "''DELETE''" and pre = "''/api/v1/relationships/''" and post = "[]" and name = "''relId''" and tail = "[]"
          and g = "Permission ''relationship.delete''" and body = None])
      (simp_all add: param_routes_def relationship_delete_def cli_calls)
qed

text \<open>Commands on spacecraft, telemetry, plugins, accounts and the server itself.\<close>

lemma account_calls:
  assumes "wi_base W = ci_server c" "chi_finds (wi_chi W)" "plain_id k"
  shows "reaches W c (status_cmd c) EP_Health"
    "reaches W c (auth_login c user pw) EP_Login"
    "reaches W c (auth_me c) EP_GetMe"
    "reaches W c (client_create c name modl com roles) EP_CreateClient"
    "reaches W c (client_list c) EP_ListClients"
    "reaches W c (client_revoke c k) EP_RevokeClient"
    "reaches W c (plugin_list c) EP_ListPlugins"
    "reaches W c (plugin_unload c k) EP_UnloadPlugin"
    "reaches W c (telemetry_parsers c) EP_ListTelemetryParsers"
    "reaches W c (telemetry_send c data) EP_SendTelemetry"
proof -
  note static = reaches_static [OF assms(1,2)] and param = reaches_param [OF assms]
  have health: "snd (status_cmd c s) = snd (Do c ''GET'' (''/healthz'' @ []) None s)" for s
    by (auto simp: status_cmd_def cli_calls split: prod.splits sum.splits)
  show "reaches W c (status_cmd c) EP_Health"
    by (rule static [where m = "''GET''" and p = "''/healthz''" and tail = "[]" and g = Public and body = None])
      (simp_all add: health)
  show "reaches W c (auth_login c user pw) EP_Login"
    by (rule static [where m = "''POST''" and p = "''/api/v1/auth/login''" and tail = "[]" and g = "Public" and body = "Some (GMap [(''username'', GStr user), (''password'', GStr pw)])"])
      (simp_all add: cli_calls auth_login_def)
  show "reaches W c (auth_me c) EP_GetMe"
    by (rule static [where m = "''GET''" and p = "''/api/v1/auth/me''" and tail = "[]" and g = "Authenticated" and body = "None"])
      (simp_all add: cli_calls auth_me_def)
  let ?client = "[(''name'', GStr name)] @ omit_str ''moduleName'' modl @ omit_str ''communityId'' com @
    (if roles \<noteq> [] \<and> comma_list roles \<noteq> [] then [(''roles'', string_list (comma_list roles))] else [])"
  have "is_ok (json_norm (GMap ?client))" by (rule is_ok_strings) simp
  then show "reaches W c (client_create c name modl com roles) EP_CreateClient"
    by (intro static [where m = "''POST''" and p = "''/api/v1/clients''" and tail = "[]" and g = "Permission ''user.manage''"
          and body = "Some (GMap ?client)"])
      (simp_all add: cli_calls client_create_def Let_def)
  show "reaches W c (client_list c) EP_ListClients"
    by (rule static [where m = "''GET''" and p = "''/api/v1/clients''" and tail = "[]" and g = "Permission ''user.manage''" and body = "None"])
      (simp_all add: cli_calls client_list_def)
  show "reaches W c (client_revoke c k) EP_RevokeClient"
    by (rule param [where m = "''DELETE''" and pre = "''/api/v1/clients/''" and post = "[]" and name = "''clientId''" and tail = "[]"
          and g = "Permission ''user.manage''" and body = "None"])
      (simp_all add: param_routes_def cli_calls client_revoke_def)
  show "reaches W c (plugin_list c) EP_ListPlugins"
    by (rule static [where m = "''GET''" and p = "''/api/v1/plugins''" and tail = "[]" and g = "Permission ''plugin.manage''" and body = "None"])
      (simp_all add: cli_calls plugin_list_def)
  show "reaches W c (plugin_unload c k) EP_UnloadPlugin"
    by (rule param [where m = "''POST''" and pre = "''/api/v1/plugins/''" and post = "''/unload''" and name = "''name''" and tail = "[]"
          and g = "Permission ''plugin.manage''" and body = "None"])
      (simp_all add: param_routes_def cli_calls plugin_unload_def)
  show "reaches W c (telemetry_parsers c) EP_ListTelemetryParsers"
    by (rule static [where m = "''GET''" and p = "''/api/v1/telemetry/parsers''" and tail = "[]" and g = "Permission ''plugin.manage''" and body = "None"])
      (simp_all add: cli_calls telemetry_parsers_def)
  show "reaches W c (telemetry_send c data) EP_SendTelemetry"
    by (rule static [where m = "''POST''" and p = "''/api/v1/telemetry/send''" and tail = "[]" and g = "Permission ''plugin.manage''" and body = "Some (GMap [(''data'', GStr data)])"])
      (simp_all add: cli_calls telemetry_send_def)
qed

lemma Stream_sends: "snd (Stream c path s) = snd (ci_send c (request_to c ''GET'' path None) s)"
  by (auto simp: Stream_def request_to_def split: prod.splits sum.splits)

lemma watch_sends: "snd (event_watch c types s) = snd (Stream c (apiV1 @ ''/events/subscribe'' @ (if types \<noteq> [] then ''?'' @ Encode [(''types'', types)] else [])) s)"
  by (auto simp: event_watch_def Let_def split: prod.splits sum.splits)

lemma event_calls:
  assumes "wi_base W = ci_server c" "chi_finds (wi_chi W)" "plain_id k"
  shows "reaches W c (event_watch c types) EP_SubscribeEvents"
    "reaches W c (event_replay c types src from to limit) EP_ReplayEvents"
    "reaches W c (event_schemas c) EP_ListSchemas"
    "reaches W c (command_send c sat ty prio []) EP_SendCommand"
    "reaches W c (command_status c k) EP_GetCommandStatus"
    "reaches W c (command_list c st) EP_ListCommands"
    "reaches W c (command_cancel c k) EP_CancelCommand"
proof -
  note static = reaches_static [OF assms(1,2)] and param = reaches_param [OF assms]
  let ?q = "if types \<noteq> [] then ''?'' @ Encode [(''types'', types)] else []"
  show "reaches W c (event_watch c types) EP_SubscribeEvents"
  proof (rule static [where m = "''GET''" and p = "''/api/v1/events/subscribe''" and tail = ?q and body = None
        and g = "Permission ''event.subscribe''"])
    show "snd (event_watch c types s) = snd (Do c ''GET'' (''/api/v1/events/subscribe'' @ ?q) None s)" for s
      by (simp add: watch_sends Stream_sends apiV1_def Do_def request_to_def)
  qed simp_all
  show "reaches W c (event_replay c types src from to limit) EP_ReplayEvents"
    by (rule static [where m = "''POST''" and p = "''/api/v1/events/replay''" and tail = "[]" and g = "Permission ''event.replay''" and body = "Some (replay_body types src from to limit)"])
      (simp_all add: cli_calls event_replay_def)
  show "reaches W c (event_schemas c) EP_ListSchemas"
    by (rule static [where m = "''GET''" and p = "''/api/v1/schemas''" and tail = "[]" and g = "Public" and body = "None"])
      (simp_all add: cli_calls event_schemas_def)
  show "reaches W c (command_send c sat ty prio []) EP_SendCommand"
    by (rule static [where m = "''POST''" and p = "''/api/v1/commands''" and tail = "[]" and g = "Permission ''command.send''" and body = "Some (GMap [(''satelliteId'', GStr sat), (''commandType'', GStr ty), (''priority'', GInt prio)])"])
      (simp_all add: cli_calls command_send_def)
  show "reaches W c (command_status c k) EP_GetCommandStatus"
    by (rule param [where m = "''GET''" and pre = "''/api/v1/commands/''" and post = "[]" and name = "''commandId''" and tail = "[]"
          and g = "Permission ''command.send''" and body = "None"])
      (simp_all add: param_routes_def cli_calls command_status_def command_path_def)
  let ?s = "if st \<noteq> [] then ''?'' @ Encode [(''status'', st)] else []"
  show "reaches W c (command_list c st) EP_ListCommands"
    by (rule static [where m = "''GET''" and p = "''/api/v1/commands''" and tail = ?s and body = None and g = "Permission ''command.send''"])
      (simp_all add: command_list_def cli_calls)
  show "reaches W c (command_cancel c k) EP_CancelCommand"
    by (rule param [where m = "''DELETE''" and pre = "''/api/v1/commands/''" and post = "[]" and name = "''commandId''" and tail = "[]"
          and g = "Permission ''command.send''" and body = "None"])
      (simp_all add: param_routes_def cli_calls command_cancel_def command_path_def)
qed


subsection \<open>The options that arrive\<close>

lemma query_int_Itoa: "0 < n \<Longrightarrow> n < 2 ^ 63 \<Longrightarrow> query_int ok (Itoa n) = (if ok n then n else 0)"
  by (simp add: query_int_def strconv_Atoi_def Atoi_Itoa)

lemma query_int_empty: "query_int ok [] = 0"
  by (simp add: query_int_def strconv_Atoi_def Atoi_def)

lemma arrive_query:
  assumes "wi_base W = ci_server c" "CHR ''?'' \<notin> set p" "distinct (map fst q)"
  shows "hr_query (arrive W (request_to c m (with_query p q) data)) = Get q"
proof -
  have "\<forall>c\<in>set p. c \<noteq> CHR ''?''" using assms(2) by auto
  then have "tl (dropWhile (\<lambda>c. c \<noteq> CHR ''?'') p) = []" "dropWhile (\<lambda>c. c \<noteq> CHR ''?'') (p @ CHR ''?'' # t) = CHR ''?'' # t" for t
    by (simp_all add: dropWhile_append2 dropWhile_eq_Nil_conv [THEN iffD2] del: dropWhile_eq_Nil_conv)
  then have "url_query W (request_to c m (with_query p q) data) = Encode q"
    by (simp add: url_query_def request_to_def with_query_def assms(1))
  then have "hr_query (arrive W (request_to c m (with_query p q) data)) = Get (ParseQuery (Encode q))"
    by (simp add: arrive_def split: prod.splits)
  also have "\<dots> = Get q" using Get_Encode [OF assms(3)] by (simp add: fun_eq_iff)
  finally show ?thesis .
qed

lemma Get_simps:
  "Get [] k = []" "Get (set_str a v @ q) k = (if a = k \<and> v \<noteq> [] then v else Get q k)"
  "Get (set_int a n @ q) k = (if a = k \<and> 0 < n then Itoa n else Get q k)"
  "Get (set_int a n) k = (if a = k \<and> 0 < n then Itoa n else [])"
  "Get (set_str a v) k = (if a = k then v else [])"
  by (auto simp: Get_def set_str_def set_int_def)

lemma query_keys:
  "distinct (map fst (node_list_query ty com st limit offset))" "distinct (map fst (node_graph_query dir depth rt))"
  by (simp_all add: node_list_query_def node_graph_query_def set_str_def set_int_def)

text \<open>C26:
  What is asked for on the command line is what the service is asked for: the request of \<open>node list\<close>
  arrives as the options with the same filters and page, and that of \<open>node graph\<close> as the same start,
  direction, depth and relationship type, whatever bytes the texts hold. A number that is not
  positive is left out and becomes the default.
\<close>

theorem cli_options_arrive:
  assumes "wi_base W = ci_server c" "chi_finds (wi_chi W)" "plain_id k" "limit < 2 ^ 63" "offset < 2 ^ 63" "depth < 2 ^ 63"
  shows "(\<exists>q. (\<forall>s. snd (node_list c ty com st limit offset s) = snd (ci_send c q s)) \<and>
       list_options (arrive W q) = \<lparr>lo_NodeType = ty, lo_OwnerCommunityID = com, lo_Status = st,
         lo_Limit = (if 0 < limit then limit else 0), lo_Offset = (if 0 < offset then offset else 0)\<rparr>) \<and>
    (\<exists>q. (\<forall>s. snd (node_graph c k dir depth rt s) = snd (ci_send c q s)) \<and> hr_param (arrive W q) ''nodeId'' = k \<and>
       traverse_options (arrive W q) = \<lparr>to_RelType = rt, to_Direction = (if dir = [] then ''out'' else dir),
         to_MaxDepth = (if 0 < depth then depth else 1)\<rparr>)"
proof
  let ?lq = "node_list_query ty com st limit offset"
  let ?q = "request_to c ''GET'' (with_query (apiV1 @ ''/nodes'') ?lq) None"
  have "hr_query (arrive W ?q) = Get ?lq" by (rule arrive_query [OF assms(1) _ query_keys(1)]) (simp add: apiV1_def)
  then have "list_options (arrive W ?q) = \<lparr>lo_NodeType = ty, lo_OwnerCommunityID = com, lo_Status = st,
      lo_Limit = (if 0 < limit then limit else 0), lo_Offset = (if 0 < offset then offset else 0)\<rparr>"
    using assms(4,5) by (simp add: list_options_def node_list_query_def Get_simps query_int_Itoa query_int_empty)
  moreover have "\<forall>s. snd (node_list c ty com st limit offset s) = snd (ci_send c ?q s)"
    by (simp add: node_list_def Get_path_def Do_def request_to_def)
  ultimately show "\<exists>q. (\<forall>s. snd (node_list c ty com st limit offset s) = snd (ci_send c q s)) \<and>
       list_options (arrive W q) = \<lparr>lo_NodeType = ty, lo_OwnerCommunityID = com, lo_Status = st,
         lo_Limit = (if 0 < limit then limit else 0), lo_Offset = (if 0 < offset then offset else 0)\<rparr>" by blast
next
  let ?gq = "node_graph_query dir depth rt" and ?p = "''/api/v1/nodes/'' @ k @ ''/graph''"
  let ?q = "request_to c ''GET'' (with_query ?p ?gq) None"
  have p: "node_path k @ ''/graph'' = ?p" "CHR ''?'' \<notin> set ?p"
    using plain_chars [OF assms(3)] by (simp_all add: node_path_def apiV1_def)
  have "hr_query (arrive W ?q) = Get ?gq" by (rule arrive_query [OF assms(1) p(2) query_keys(2)])
  then have "traverse_options (arrive W ?q) = \<lparr>to_RelType = rt, to_Direction = (if dir = [] then ''out'' else dir),
      to_MaxDepth = (if 0 < depth then depth else 1)\<rparr>"
    using assms(6) by (simp add: traverse_options_def node_graph_query_def Get_simps query_int_Itoa query_int_empty Let_def)
  moreover obtain tail where "with_query ?p ?gq = ?p @ tail" "tail = [] \<or> hd tail = CHR ''?''" using query_tail by blast
  then have "hr_param (arrive W ?q) ''nodeId'' = k"
    using arrive_found(3) [OF assms(1) p(2) _ chi_param [OF assms(2) _ assms(3), of "''GET''" "''/api/v1/nodes/''" "''nodeId''" "''/graph''"]]
    by (simp add: param_routes_def)
  moreover have "\<forall>s. snd (node_graph c k dir depth rt s) = snd (ci_send c ?q s)"
    by (simp add: node_graph_def Get_path_def Do_def request_to_def p(1) del: append_assoc)
  ultimately show "\<exists>q. (\<forall>s. snd (node_graph c k dir depth rt s) = snd (ci_send c q s)) \<and> hr_param (arrive W q) ''nodeId'' = k \<and>
       traverse_options (arrive W q) = \<lparr>to_RelType = rt, to_Direction = (if dir = [] then ''out'' else dir),
         to_MaxDepth = (if 0 < depth then depth else 1)\<rparr>" by blast
qed

subsection \<open>Registration and query\<close>

definition register_request :: "string \<Rightarrow> string \<Rightarrow> string \<Rightarrow> string \<Rightarrow> string \<Rightarrow> string \<Rightarrow> string \<Rightarrow> createNodeRequest" where
  "register_request ty name k com st shard fed =
     \<lparr>cn_NodeID = k, cn_NodeType = ty, cn_Name = name, cn_Status = st, cn_OwnerCommunityID = com, cn_ShardKey = shard,
      cn_FederationID = fed, cn_Properties = None\<rparr>"

lemma register_decodes:
  "json_norm (register_body ty name k com st shard fed) = Inr (register_body ty name k com st shard fed)"
  "Decode (decode_struct createNode_fields no_createNode) (Inr (doc_of fmt (register_body ty name k com st shard fed)))
     = Inr (register_request ty name k com st shard fed)"
  by (auto simp: register_body_def register_request_def omit_str_def Decode_def decode_struct_def createNode_fields_def
      no_createNode_def field_for_def str_field_def)

text \<open>What a served request is when authentication is off: the endpoint, after two readings of the clock.\<close>

definition metered :: "time \<Rightarrow> rest_request \<Rightarrow> 'b api \<Rightarrow> 'b api" where
  "metered start r s = s\<lparr>ap_collector := map_option (\<lambda>u. snd (Collector_Record background
      (http_record (hr_path r) (hr_method r) start (hr_http r)) u)) (ap_collector s)\<rparr>"

lemma Served_open:
  assumes "\<not> authEnabled s" "route_of r = Some (g, ep)" "run_endpoint E A False ep r (tick_api (tick_api s)) = (x, s1)"
  shows "Served E A r s = (x, metered (now_of (ap_world s)) r s1)"
proof -
  have "\<not> authEnabled (tick_api (tick_api s))" using assms(1) by (simp add: authEnabled_def tick_api_def)
  then have "filters E g r (tick_api (tick_api s)) = (Serve (hr_http r), tick_api (tick_api s))" by (cases g) simp_all
  then have "Router E A False r (tick_api (tick_api s)) = (x, s1)" using assms(2,3) by (simp add: Router_def)
  then show ?thesis by (simp add: Served_def metered_def)
qed

lemma metered_keeps [simp]: "keeps_graph s (metered t r s)" "ap_kg (metered t r s) = ap_kg s"
  "authEnabled (metered t r s) = authEnabled s" "authEnabled (tick_api s) = authEnabled s"
  by (simp_all add: metered_def tick_api_def authEnabled_def)

text \<open>The document of a node that was just created without properties.\<close>

lemma created_document:
  assumes "api_ok s" "H_CreateNode E r s = (a, s1)" "200 \<le> rs_status a" "rs_status a < 300"
    and "Decode (decode_struct createNode_fields no_createNode) (hr_body r) = Inr req" "cn_Properties req = None"
  shows "rs_status a = StatusCreated \<and> (\<exists>doc. rs_body a = Json (GMap doc) \<and>
    map_of doc ''nodeId'' = Some (GStr (cn_NodeID req)) \<and> map_of doc ''nodeType'' = Some (GStr (cn_NodeType req)) \<and>
    map_of doc ''name'' = Some (GStr (cn_Name req)) \<and> map_of doc ''status'' = Some (GStr (cn_Status req)) \<and>
    map_of doc ''ownerCommunityId'' = Some (GStr (cn_OwnerCommunityID req)))"
proof -
  let ?k = "(ap_kg s)\<lparr>kg_bus := ap_bus s, kg_world := ap_world s\<rparr>" and ?n0 = "node_of_request req"
  have ok: "kg_state_ok ?k" using assms(1) by (simp add: api_ok_def kg_state_ok_def)
  obtain on v k' where reg: "KG_RegisterNode (en_Publish E) (hr_ctx r) (Some ?n0) ?k = ((on, v), k')" by (metis prod.exhaust)
  have chk: "create_node_check ?n0 = None" and v: "v = None"
    using assms(2-4) reg by (auto simp: H_CreateNode_def assms(5) with_kg_def handler_simps handleServiceError_def
        split: option.splits if_splits)
  have reg: "KG_RegisterNode (en_Publish E) (hr_ctx r) (Some ?n0) ?k = ((on, None), k')" using reg v by simp
  note c = KG_RegisterNode_created [OF ok reg]
  let ?n = "?n0\<lparr>n_CreatedAt := now_of (kg_world ?k), n_UpdatedAt := now_of (kg_world ?k)\<rparr>"
  have a: "a = writeJSON StatusCreated (node_json ?n)"
    using assms(2) reg c chk by (auto simp: H_CreateNode_def assms(5) with_kg_def)
  have "node_times_ok ?n" using c by blast
  then have "0 \<le> n_CreatedAt ?n" "n_CreatedAt ?n < year_10000" "0 \<le> n_UpdatedAt ?n" "n_UpdatedAt ?n < year_10000"
    by (simp_all add: node_times_ok_def)
  then have "json_norm (node_json ?n) = Inr (GMap
      ([(''nodeId'', GStr (cn_NodeID req)), (''nodeType'', GStr (cn_NodeType req)), (''name'', GStr (cn_Name req)),
        (''status'', GStr (cn_Status req)), (''ownerCommunityId'', GStr (cn_OwnerCommunityID req)),
        (''createdAt'', GStr (fmt_time (n_CreatedAt ?n))), (''updatedAt'', GStr (fmt_time (n_UpdatedAt ?n)))] @
       omit_str ''shardKey'' (cn_ShardKey req) @ omit_str ''federationId'' (cn_FederationID req)))"
    by (simp add: node_json_def node_of_request_def assms(6) omit_str_def omit_map_def)
  then show ?thesis unfolding a by (simp add: writeJSON_def)
qed

text \<open>What \<open>node register\<close> and \<open>node show\<close> make of the server's answers.\<close>

lemma answered_ok:
  assumes "answered c tgt print (Inr r, s) = (Finished outs None, s1)"
  shows "s1 = s" "200 \<le> rp_status r" "rp_status r < 300"
proof -
  show "s1 = s" using arg_cong [OF assms, of snd] by simp
  obtain v where "readResponse c tgt r = Inr v" using assms by (auto simp: answered_def split: sum.splits)
  then show "200 \<le> rp_status r" "rp_status r < 300"
    by (simp_all add: readResponse_def split: option.splits if_splits)
qed

lemma served_register:
  assumes "wi_base W = ci_server c" "chi_finds (wi_chi W)" "ci_send c = send_served E A W" "\<not> authEnabled s"
    and "node_register c ty name k com st shard fed s = (Finished outs None, s1)"
  shows "\<exists>r a s2. H_CreateNode E r (tick_api (tick_api s)) = (a, s2) \<and> s1 = metered (now_of (ap_world s)) r s2 \<and>
    hr_body r = Inr (doc_of (wi_fmt W) (register_body ty name k com st shard fed)) \<and>
    200 \<le> rs_status a \<and> rs_status a < 300"
proof -
  let ?q = "request_to c ''POST'' (apiV1 @ ''/nodes'') (Some (register_body ty name k com st shard fed))"
  let ?r = "arrive W ?q"
  obtain param where chi: "wi_chi W ''POST'' ''/api/v1/nodes'' = Some (''/api/v1/nodes'', param)"
    using chi_static [OF assms(2) map_of_SomeD [OF cli_routes(8)]] by auto
  have route: "route_of ?r = Some (Permission ''node.create'', EP_CreateNode)"
    using arrive_found [OF assms(1) _ _ chi, of "[]"] by (simp add: route_of_def apiV1_def)
  obtain a s2 where h: "H_CreateNode E ?r (tick_api (tick_api s)) = (a, s2)" by fastforce
  have served: "Served E A ?r s = (Inl a, metered (now_of (ap_world s)) ?r s2)"
    by (rule Served_open [OF assms(4) route]) (simp add: h)
  let ?reply = "\<lparr>rp_status = rs_status a, rp_body = rs_body a, rp_readErr = None, rp_lines = [], rp_scanErr = None\<rparr>"
  have "node_register c ty name k com st shard fed s =
      answered c IntoMap (print_object c node_headers (node_row_text c)) (Inr ?reply, metered (now_of (ap_world s)) ?r s2)"
    using served by (simp add: node_register_def Post_def Do_def register_decodes(1) assms(3) send_served_def request_to_def)
  with assms(5) have ans: "answered c IntoMap (print_object c node_headers (node_row_text c)) (Inr ?reply,
      metered (now_of (ap_world s)) ?r s2) = (Finished outs None, s1)" by simp
  have "s1 = metered (now_of (ap_world s)) ?r s2" "200 \<le> rs_status a" "rs_status a < 300"
    using answered_ok [OF ans] by simp_all
  moreover have "hr_body ?r = Inr (doc_of (wi_fmt W) (register_body ty name k com st shard fed))"
    by (simp add: arrive_def request_to_def split: prod.splits)
  ultimately show ?thesis using h by blast
qed

lemma served_show:
  assumes "wi_base W = ci_server c" "chi_finds (wi_chi W)" "ci_send c = send_served E A W" "\<not> authEnabled s" "plain_id k"
  obtains r where "hr_param r ''nodeId'' = k" "ctx_err (hr_ctx r) = None"
    "\<And>a s2 w. H_GetNode r (tick_api (tick_api s)) = (a, s2) \<Longrightarrow> rs_status a = StatusOK \<Longrightarrow> rs_body a = Json (GMap w) \<Longrightarrow>
       \<exists>s3. node_show c k s = (Finished [PrintJSON (GMap w)] None, s3)"
proof
  let ?q = "request_to c ''GET'' (''/api/v1/nodes/'' @ k @ []) None"
  let ?r = "arrive W ?q"
  have q: "CHR ''?'' \<notin> set (''/api/v1/nodes/'' @ k @ [])" using plain_chars(1) [OF assms(5)] by simp
  have "(''GET'', ''/api/v1/nodes/'', ''nodeId'', []) \<in> set param_routes" by (simp add: param_routes_def)
  note found = arrive_found [where tail = "[]", OF assms(1) q _ chi_param [OF assms(2) this assms(5)], simplified]
  show "hr_param ?r ''nodeId'' = k" using found by simp
  show "ctx_err (hr_ctx ?r) = None" by (simp add: hr_ctx_def arrive_def background_def split: prod.splits)
  fix a s2 w
  assume a: "H_GetNode ?r (tick_api (tick_api s)) = (a, s2)" "rs_status a = StatusOK" "rs_body a = Json (GMap w)"
  have route: "route_of ?r = Some (Permission ''node.read'', EP_GetNode)" using found by (simp add: route_of_def)
  have "Served E A ?r s = (Inl a, metered (now_of (ap_world s)) ?r s2)"
    by (rule Served_open [OF assms(4) route]) (simp only: run_endpoint.simps a map_prod_simp id_apply)
  then show "\<exists>s3. node_show c k s = (Finished [PrintJSON (GMap w)] None, s3)"
    using a plain_chars(2) [OF assms(5)]
    by (simp add: node_show_def Get_path_def Do_def node_path_def apiV1_def assms(3) send_served_def request_to_def
        answered_def readResponse_def unmarshal_into_def is_map_def finish_def print_json_def)
qed

text \<open>C24:
  A node registered from the command line is there: when \<open>node register\<close> ends without an error
  against a served deployment with authentication off, \<open>node show\<close> then prints a document that holds
  the type, name, status and community given on the command line.
\<close>

theorem cli_register_then_show:
  assumes "wi_base W = ci_server c" "chi_finds (wi_chi W)" "ci_send c = send_served E A W" "plain_id k"
    and "api_ok s" "\<not> authEnabled s" "faults (kg_db (ap_kg s)) = []"
    and "node_register c ty name k com st shard fed s = (Finished outs None, s1)"
    and "faults (kg_db (ap_kg s1)) = []" "\<not> authEnabled s1"
  shows "\<exists>doc s2. node_show c k s1 = (Finished [PrintJSON (GMap doc)] None, s2) \<and>
    map_of doc ''nodeId'' = Some (GStr k) \<and> map_of doc ''nodeType'' = Some (GStr ty) \<and>
    map_of doc ''name'' = Some (GStr name) \<and> map_of doc ''status'' = Some (GStr st) \<and>
    map_of doc ''ownerCommunityId'' = Some (GStr com)"
proof -
  let ?s = "tick_api (tick_api s)" and ?req = "register_request ty name k com st shard fed"
  obtain r a s2 where run: "H_CreateNode E r ?s = (a, s2)" "s1 = metered (now_of (ap_world s)) r s2"
      "hr_body r = Inr (doc_of (wi_fmt W) (register_body ty name k com st shard fed))" "200 \<le> rs_status a" "rs_status a < 300"
    using served_register [OF assms(1-3,6,8)] by blast
  have dec: "Decode (decode_struct createNode_fields no_createNode) (hr_body r) = Inr ?req"
    using register_decodes(2) by (simp add: run(3))
  have ok: "api_ok ?s" by (rule keeps_graph_ok [OF assms(5)]) simp
  have req: "cn_Properties ?req = None" "cn_NodeID ?req = k" "cn_NodeType ?req = ty" "cn_Name ?req = name" "cn_Status ?req = st"
      "cn_OwnerCommunityID ?req = com"
    by (simp_all add: register_request_def)
  obtain doc where doc: "rs_status a = StatusCreated" "rs_body a = Json (GMap doc)"
      "map_of doc ''nodeId'' = Some (GStr k)" "map_of doc ''nodeType'' = Some (GStr ty)" "map_of doc ''name'' = Some (GStr name)"
      "map_of doc ''status'' = Some (GStr st)" "map_of doc ''ownerCommunityId'' = Some (GStr com)"
    using created_document [OF ok run(1,4,5) dec req(1)] req by auto
  obtain g where g: "hr_param g ''nodeId'' = k" "ctx_err (hr_ctx g) = None"
      "\<And>a s2 w. H_GetNode g (tick_api (tick_api s1)) = (a, s2) \<Longrightarrow> rs_status a = StatusOK \<Longrightarrow> rs_body a = Json (GMap w) \<Longrightarrow>
       \<exists>s3. node_show c k s1 = (Finished [PrintJSON (GMap w)] None, s3)"
    using served_show [OF assms(1-3,10,4)] by blast
  have keep: "keeps_graph s2 (tick_api (tick_api s1))" by (simp add: run(2))
  have "\<exists>s3. H_GetNode g (tick_api (tick_api s1)) = (\<lparr>rs_status = StatusOK, rs_body = rs_body a\<rparr>, s3)"
    using created_then_found [OF ok _ run(1) doc(1) keep _ g(2) dec] assms(7,9) g(1) req(2) by simp
  with g(3) doc show ?thesis by fastforce
qed

text \<open>\<open>event watch\<close> prints nothing but an error, because the served stack opens no stream.\<close>

lemma cli_watch_fails:
  assumes "wi_base W = ci_server c" "chi_finds (wi_chi W)" "ci_send c = send_served E A W"
  shows "\<exists>e s1. event_watch c types s = (Finished [] (Some e), s1)"
proof -
  let ?tail = "if types \<noteq> [] then ''?'' @ Encode [(''types'', types)] else []"
  let ?p = "''/api/v1/events/subscribe''"
  let ?q = "request_to c ''GET'' (?p @ ?tail) None"
  obtain param where chi: "wi_chi W ''GET'' ?p = Some (?p, param)"
    using chi_static [OF assms(2) map_of_SomeD [OF cli_routes(16)]] by auto
  have "route_of (arrive W ?q) = Some (Permission ''event.subscribe'', EP_SubscribeEvents)"
    using arrive_found [OF assms(1) _ _ chi, of ?tail None] by (simp add: route_of_def)
  moreover obtain x s1 where run: "Served E A (arrive W ?q) s = (x, s1)" by fastforce
  ultimately obtain a where "x = Inl a" "rs_status a \<noteq> StatusOK" using served_subscribe by fastforce
  then have "\<exists>e. Stream c (?p @ ?tail) s = (Inl e, s1)"
    using run by (simp add: Stream_def assms(3) send_served_def request_to_def del: if_split)
  then show ?thesis by (auto simp: event_watch_def apiV1_def Let_def split: if_splits)
qed

subsection \<open>Witnesses\<close>

definition demo_cli :: "SQLiteEventStore LocalBus api cli" where
  "demo_cli = \<lparr>ci_server = ''http://localhost:8080'', ci_token = [], ci_output = ''json'', ci_env_token = [],
     ci_send = send_served demo_env demo_assets
       \<lparr>wi_base = ''http://localhost:8080'', wi_chi = plain_chi, wi_fmt = (\<lambda>x. []), wi_len = (\<lambda>v. 0)\<rparr>,
     ci_scan = (\<lambda>t. Inl (External [])), ci_render = (\<lambda>v. []), ci_sprint = (\<lambda>v. [])\<rparr>"

definition demo_wire :: wire where
  "demo_wire = \<lparr>wi_base = ''http://localhost:8080'', wi_chi = plain_chi, wi_fmt = (\<lambda>x. []), wi_len = (\<lambda>v. 0)\<rparr>"

lemma demo_cli_ok:
  "wi_base demo_wire = ci_server demo_cli" "chi_finds (wi_chi demo_wire)" "plain_id ''sat-1''"
  "ci_send demo_cli = send_served demo_env demo_assets demo_wire"
  using plain_chi_finds by (simp_all add: demo_wire_def demo_cli_def plain_id_def unreserved_def)


lemma cli_options_arrive_witness:
  "\<exists>q. (\<forall>s. snd (node_list demo_cli [] ''a&b'' [] 10 0 s) = snd (ci_send demo_cli q s)) \<and>
     list_options (arrive demo_wire q) = \<lparr>lo_NodeType = [], lo_OwnerCommunityID = ''a&b'', lo_Status = [],
       lo_Limit = 10, lo_Offset = 0\<rparr>"
proof -
  have "(10 :: int) < 2 ^ 63" "(0 :: int) < 2 ^ 63" by simp_all
  from cli_options_arrive [OF demo_cli_ok(1-3) this this(2), of "[]" "''a&b''" "[]" "[]" "[]"] show ?thesis by simp
qed

definition demo_off :: "SQLiteEventStore LocalBus api" where
  "demo_off = demo_api\<lparr>ap_authEnabled := False\<rparr>"

lemma demo_off_ok: "api_ok demo_off" "\<not> authEnabled demo_off" "faults (kg_db (ap_kg demo_off)) = []"
proof -
  show "api_ok demo_off" using demo_api_ok(1) by (simp add: demo_off_def api_ok_def parsers_ok_def)
qed (simp_all add: demo_off_def authEnabled_def demo_api_def demo_kg_def NewKGService_def)

lemma demo_registers:
  "\<exists>outs s1. node_register demo_cli ''Satellite'' ''one'' ''sat-1'' ''c1'' ''active'' [] [] demo_off = (Finished outs None, s1) \<and>
     faults (kg_db (ap_kg s1)) = [] \<and> \<not> authEnabled s1"
proof -
  let ?s = "tick_api (tick_api demo_off)" and ?req = "register_request ''Satellite'' ''one'' ''sat-1'' ''c1'' ''active'' [] []"
  let ?q = "request_to demo_cli ''POST'' (apiV1 @ ''/nodes'') (Some (register_body ''Satellite'' ''one'' ''sat-1'' ''c1'' ''active'' [] []))"
  let ?r = "arrive demo_wire ?q"
  let ?k = "(ap_kg ?s)\<lparr>kg_bus := ap_bus ?s, kg_world := ap_world ?s\<rparr>" and ?n0 = "node_of_request ?req"
  have k: "?k = demo_kg\<lparr>kg_world := tick (tick demo_world)\<rparr>"
    by (simp add: demo_off_def demo_api_def demo_kg_def NewKGService_def tick_api_def)
  have w: "kg_world demo_kg = demo_world" by (simp add: demo_kg_def NewKGService_def)
  have ok: "kg_state_ok ?k" "calm_kg (kg_db ?k)" "node_view (kg_db ?k) = Map.empty" "kg_clock_ok (kg_world ?k)"
    unfolding k using demo_kg_ok w by (simp_all add: kg_state_ok_def)
  have ready: "sql_ready background ?k" unfolding k using demo_kg_ok(2) w by (simp add: sql_ready_def)
  have n0: "n_NodeID ?n0 \<noteq> []" "NodeType_Valid (n_NodeType ?n0)" "n_Name ?n0 \<noteq> []" "n_Status ?n0 \<noteq> []"
      "n_OwnerCommunityID ?n0 \<noteq> []" "is_ok (marshalProperties (n_Properties ?n0))"
    by (simp_all add: node_of_request_def register_request_def NodeType_Valid_def marshalProperties_def)
  have "node_view (kg_db ?k) (n_NodeID ?n0) = None" unfolding ok(3) ..
  from RegisterNode_succeeds [OF ready ok(2,4) n0 this] obtain on k' where
    reg: "KG_RegisterNode (LocalBus_Publish SQL_Append) background (Some ?n0) ?k = ((on, None), k')" by blast
  note c = KG_RegisterNode_created [OF ok(1) reg]
  have ctx: "hr_ctx ?r = background" by (simp add: hr_ctx_def arrive_def split: prod.splits)
  have dec: "Decode (decode_struct createNode_fields no_createNode) (hr_body ?r) = Inr ?req"
    using register_decodes(2) by (simp add: arrive_def request_to_def split: prod.splits)
  have chk: "create_node_check ?n0 = None" using n0 by (simp add: create_node_check_def NodeType_Valid_nonempty)
  obtain a s' where run: "H_CreateNode demo_env ?r ?s = (a, s')" by fastforce
  have a: "rs_status a = StatusCreated" "kg_db (ap_kg s') = kg_db k'" "authEnabled s' = authEnabled demo_off"
    using run reg chk by (auto simp: H_CreateNode_def dec with_kg_def ctx demo_env_def authEnabled_def tick_api_def)
  have "(200 :: nat) \<le> rs_status a" "rs_status a < 300" by (simp_all add: a(1))
  then obtain doc where doc: "rs_body a = Json (GMap doc)"
    using created_document [OF keeps_graph_ok [OF demo_off_ok(1)] run _ _ dec] by (auto simp: register_request_def)
  obtain param where chi: "wi_chi demo_wire ''POST'' ''/api/v1/nodes'' = Some (''/api/v1/nodes'', param)"
    using chi_static [OF demo_cli_ok(2) map_of_SomeD [OF cli_routes(8)]] by auto
  have route: "route_of ?r = Some (Permission ''node.create'', EP_CreateNode)"
    using arrive_found [OF demo_cli_ok(1) _ _ chi, of "[]"] by (simp add: route_of_def apiV1_def)
  have served: "Served demo_env demo_assets ?r demo_off = (Inl a, metered (now_of (ap_world demo_off)) ?r s')"
    by (rule Served_open [OF demo_off_ok(2) route]) (simp only: run_endpoint.simps run map_prod_simp id_apply)
  have "ci_output demo_cli = ''json''" by (simp add: demo_cli_def)
  then have "node_register demo_cli ''Satellite'' ''one'' ''sat-1'' ''c1'' ''active'' [] [] demo_off
      = (Finished [PrintJSON (GMap doc)] None, metered (now_of (ap_world demo_off)) ?r s')"
    using served by (simp add: node_register_def Post_def Do_def register_decodes(1) demo_cli_ok(4) send_served_def
        request_to_def answered_def readResponse_def a(1) doc unmarshal_into_def is_map_def finish_def print_object_def
        printAny_def isTableOutput_def)
  moreover have "faults (kg_db k') = []" using c demo_off_ok(3) by (simp add: k demo_kg_def NewKGService_def)
  ultimately show ?thesis using a(2,3) demo_off_ok(2) by auto
qed

lemma cli_register_then_show_witness:
  "\<exists>outs s1 doc s2. node_register demo_cli ''Satellite'' ''one'' ''sat-1'' ''c1'' ''active'' [] [] demo_off = (Finished outs None, s1) \<and>
     node_show demo_cli ''sat-1'' s1 = (Finished [PrintJSON (GMap doc)] None, s2) \<and>
     map_of doc ''nodeId'' = Some (GStr ''sat-1'')"
proof -
  obtain outs s1 where run: "node_register demo_cli ''Satellite'' ''one'' ''sat-1'' ''c1'' ''active'' [] [] demo_off = (Finished outs None, s1)"
      "faults (kg_db (ap_kg s1)) = []" "\<not> authEnabled s1" using demo_registers by blast
  from cli_register_then_show [OF demo_cli_ok(1,2,4,3) demo_off_ok run] run(1) show ?thesis by blast
qed

end
