(* ===== verification/GrpcCodec.thy ===== *)
theory GrpcCodec
  imports JsonDoc GrpcMessages
begin

text \<open>
  \<open>internal/api/grpc/codec.go\<close>: gRPC messages as JSON documents, by the tags of \<open>messages.go\<close>, and
  back. Texts are valid UTF-8. A list of pairs stands for a Go map; an empty map or list also for nil.
\<close>

subsection \<open>Fields\<close>

definition str_put :: "string \<Rightarrow> string \<Rightarrow> strmap \<Rightarrow> strmap" where
  "str_put k v m = filter (\<lambda>kv. fst kv \<noteq> k) m @ [(k, v)]"

text \<open>Members of a \<open>map[string]string\<close>; \<open>null\<close> gives the empty text.\<close>

fun str_members :: "(string \<times> json) list \<Rightarrow> strmap \<Rightarrow> strmap res" where
  "str_members [] m = Inr m"
| "str_members ((k, d) # ms) m =
     (case d of
        JNull \<Rightarrow> str_members ms (str_put k [] m)
      | JStr s \<Rightarrow> str_members ms (str_put k s m)
      | _ \<Rightarrow> Inl (type_error ''into string''))"

definition strmap_field :: "('r \<Rightarrow> strmap) \<Rightarrow> (strmap \<Rightarrow> 'r \<Rightarrow> 'r) \<Rightarrow> json \<Rightarrow> 'r \<Rightarrow> 'r res" where
  "strmap_field old upd d r =
     (case d of
        JNull \<Rightarrow> Inr (upd [] r)
      | JObj ms \<Rightarrow> (case str_members ms (old r) of Inl e \<Rightarrow> Inl e | Inr m \<Rightarrow> Inr (upd m r))
      | _ \<Rightarrow> Inl (type_error ''into map''))"

definition bool_field :: "(bool \<Rightarrow> 'r \<Rightarrow> 'r) \<Rightarrow> json \<Rightarrow> 'r \<Rightarrow> 'r res" where
  "bool_field upd d r = (case d of JNull \<Rightarrow> Inr r | JBool b \<Rightarrow> Inr (upd b r) | _ \<Rightarrow> Inl (type_error ''into bool''))"

definition int32_field :: "(int32 \<Rightarrow> 'r \<Rightarrow> 'r) \<Rightarrow> json \<Rightarrow> 'r \<Rightarrow> 'r res" where
  "int32_field upd d r =
     (case d of
        JNull \<Rightarrow> Inr r
      | JNum n \<Rightarrow>
        (case strconv_Atoi n of
           Inl _ \<Rightarrow> Inl (type_error (''number '' @ n @ '' into int32''))
         | Inr i \<Rightarrow>
           (if - (2 ^ 31) \<le> i \<and> i < 2 ^ 31 then Inr (upd (word_of_int i) r)
            else Inl (type_error (''number '' @ n @ '' into int32''))))
      | _ \<Rightarrow> Inl (type_error ''into int32''))"

text \<open>A pointer to a struct: a second object for the field adds to the first.\<close>

definition ptr_field :: "'m fields \<Rightarrow> 'm \<Rightarrow> ('r \<Rightarrow> 'm option) \<Rightarrow> ('m option \<Rightarrow> 'r \<Rightarrow> 'r) \<Rightarrow> json \<Rightarrow> 'r \<Rightarrow> 'r res" where
  "ptr_field fs zero old upd d r =
     (case d of
        JNull \<Rightarrow> Inr (upd None r)
      | _ \<Rightarrow> (case decode_struct fs (case old r of None \<Rightarrow> zero | Some m \<Rightarrow> m) d of
               Inl e \<Rightarrow> Inl e | Inr m \<Rightarrow> Inr (upd (Some m) r)))"

fun ptr_list :: "(json \<Rightarrow> 'm res) \<Rightarrow> json list \<Rightarrow> 'm option list res" where
  "ptr_list dec [] = Inr []"
| "ptr_list dec (d # ds) =
     (case (if d = JNull then Inr None else case dec d of Inl e \<Rightarrow> Inl e | Inr m \<Rightarrow> Inr (Some m)) of
        Inl e \<Rightarrow> Inl e
      | Inr p \<Rightarrow> (case ptr_list dec ds of Inl e \<Rightarrow> Inl e | Inr ps \<Rightarrow> Inr (p # ps)))"

definition ptrs_field :: "(json \<Rightarrow> 'm res) \<Rightarrow> ('m option list \<Rightarrow> 'r \<Rightarrow> 'r) \<Rightarrow> json \<Rightarrow> 'r \<Rightarrow> 'r res" where
  "ptrs_field dec upd d r =
     (case d of
        JNull \<Rightarrow> Inr (upd [] r)
      | JArr ds \<Rightarrow> (case ptr_list dec ds of Inl e \<Rightarrow> Inl e | Inr ps \<Rightarrow> Inr (upd ps r))
      | _ \<Rightarrow> Inl (type_error ''into slice''))"

subsection \<open>Documents of the field types\<close>

definition strmap_doc :: "strmap \<Rightarrow> json" where
  "strmap_doc m = JObj (map (\<lambda>(k, v). (k, JStr v)) m)"

definition omit_doc :: "string \<Rightarrow> string \<Rightarrow> (string \<times> json) list" where
  "omit_doc k s = (if s = [] then [] else [(k, JStr s)])"

definition omit_strmap :: "string \<Rightarrow> strmap \<Rightarrow> (string \<times> json) list" where
  "omit_strmap k m = (if m = [] then [] else [(k, strmap_doc m)])"

definition int32_doc :: "int32 \<Rightarrow> json" where
  "int32_doc w = JNum (Itoa (sint w))"

definition ptr_doc :: "('m \<Rightarrow> json) \<Rightarrow> 'm option \<Rightarrow> json" where
  "ptr_doc doc p = (case p of None \<Rightarrow> JNull | Some m \<Rightarrow> doc m)"

definition ptrs_doc :: "('m \<Rightarrow> json) \<Rightarrow> 'm option list \<Rightarrow> json" where
  "ptrs_doc doc ps = JArr (map (ptr_doc doc) ps)"

text \<open>Each field reads back what its document was made of.\<close>

lemma str_members_docs:
  "distinct (map fst (m @ kvs)) \<Longrightarrow> str_members (map (\<lambda>(k, v). (k, JStr v)) kvs) m = Inr (m @ kvs)"
proof (induction kvs arbitrary: m)
  case (Cons kv kvs)
  obtain k v where kv: "kv = (k, v)" by (cases kv)
  have "str_put k v m = m @ [(k, v)]" using Cons.prems by (force simp: str_put_def kv filter_id_conv)
  then show ?case using Cons.IH [of "m @ [kv]"] Cons.prems kv by simp
qed simp

lemma strmap_back: "distinct (map fst m) \<Longrightarrow> old r = [] \<Longrightarrow> strmap_field old upd (strmap_doc m) r = Inr (upd m r)"
  using str_members_docs [of "[]" m] by (simp add: strmap_field_def strmap_doc_def)

lemma int32_back: "int32_field upd (int32_doc w) r = Inr (upd w r)"
proof -
  have "- (2 ^ 31) \<le> sint w" "sint w < 2 ^ 31" using sint_range_size [of w] by (simp_all add: word_size)
  then show ?thesis by (simp add: int32_field_def int32_doc_def strconv_Atoi_def Atoi_Itoa)
qed

lemma str_back: "str_field upd (JStr s) r = Inr (upd s r)"
  by (simp add: str_field_def)

lemma bool_back: "bool_field upd (JBool b) r = Inr (upd b r)"
  by (simp add: bool_field_def)

lemma str_list_docs: "str_list (map JStr ss) = Inr ss"
  by (induction ss) simp_all

lemma strs_back: "strs_field upd (JArr (map JStr ss)) r = Inr (upd ss r)"
  by (simp add: strs_field_def str_list_docs)

lemma ptr_list_docs:
  "\<forall>p\<in>set ps. \<forall>m. p = Some m \<longrightarrow> doc m \<noteq> JNull \<and> dec (doc m) = Inr m \<Longrightarrow> ptr_list dec (map (ptr_doc doc) ps) = Inr ps"
  by (induction ps) (auto simp: ptr_doc_def split: option.splits)

lemma ptrs_back:
  "\<forall>p\<in>set ps. \<forall>m. p = Some m \<longrightarrow> doc m \<noteq> JNull \<and> dec (doc m) = Inr m \<Longrightarrow>
   ptrs_field dec upd (ptrs_doc doc ps) r = Inr (upd ps r)"
  by (simp add: ptrs_field_def ptrs_doc_def ptr_list_docs)

lemma ptr_back:
  "\<forall>m. p = Some m \<longrightarrow> doc m \<noteq> JNull \<and> decode_struct fs zero (doc m) = Inr m \<Longrightarrow> old r = None \<Longrightarrow>
   ptr_field fs zero old upd (ptr_doc doc p) r = Inr (upd p r)"
  by (cases p) (auto simp: ptr_field_def ptr_doc_def split: json.split)

lemmas field_back = str_back bool_back int32_back strs_back strmap_back

subsection \<open>Messages\<close>

definition no_pb_node :: pb_Node where
  "no_pb_node = \<lparr>pn_NodeId = [], pn_NodeType = [], pn_Name = [], pn_Status = [], pn_OwnerCommunityId = [],
     pn_CreatedAt = [], pn_UpdatedAt = [], pn_ShardKey = [], pn_FederationId = [], pn_Properties = []\<rparr>"

definition pb_node_fields :: "pb_Node fields" where
  "pb_node_fields =
     [(''nodeId'', str_field (\<lambda>s n. n\<lparr>pn_NodeId := s\<rparr>)), (''nodeType'', str_field (\<lambda>s n. n\<lparr>pn_NodeType := s\<rparr>)),
      (''name'', str_field (\<lambda>s n. n\<lparr>pn_Name := s\<rparr>)), (''status'', str_field (\<lambda>s n. n\<lparr>pn_Status := s\<rparr>)),
      (''ownerCommunityId'', str_field (\<lambda>s n. n\<lparr>pn_OwnerCommunityId := s\<rparr>)),
      (''createdAt'', str_field (\<lambda>s n. n\<lparr>pn_CreatedAt := s\<rparr>)), (''updatedAt'', str_field (\<lambda>s n. n\<lparr>pn_UpdatedAt := s\<rparr>)),
      (''shardKey'', str_field (\<lambda>s n. n\<lparr>pn_ShardKey := s\<rparr>)), (''federationId'', str_field (\<lambda>s n. n\<lparr>pn_FederationId := s\<rparr>)),
      (''properties'', strmap_field pn_Properties (\<lambda>m n. n\<lparr>pn_Properties := m\<rparr>))]"

definition pb_node_doc :: "pb_Node \<Rightarrow> json" where
  "pb_node_doc n = JObj
     ([(''nodeId'', JStr (pn_NodeId n)), (''nodeType'', JStr (pn_NodeType n)), (''name'', JStr (pn_Name n)),
       (''status'', JStr (pn_Status n)), (''ownerCommunityId'', JStr (pn_OwnerCommunityId n)),
       (''createdAt'', JStr (pn_CreatedAt n)), (''updatedAt'', JStr (pn_UpdatedAt n))] @
      omit_doc ''shardKey'' (pn_ShardKey n) @ omit_doc ''federationId'' (pn_FederationId n) @
      omit_strmap ''properties'' (pn_Properties n))"

definition no_pb_rel :: pb_Relationship where
  "no_pb_rel = \<lparr>pr_RelId = [], pr_FromNodeId = [], pr_ToNodeId = [], pr_RelType = [], pr_Properties = [], pr_CreatedAt = []\<rparr>"

definition pb_rel_fields :: "pb_Relationship fields" where
  "pb_rel_fields =
     [(''relId'', str_field (\<lambda>s r. r\<lparr>pr_RelId := s\<rparr>)), (''fromNodeId'', str_field (\<lambda>s r. r\<lparr>pr_FromNodeId := s\<rparr>)),
      (''toNodeId'', str_field (\<lambda>s r. r\<lparr>pr_ToNodeId := s\<rparr>)), (''relType'', str_field (\<lambda>s r. r\<lparr>pr_RelType := s\<rparr>)),
      (''properties'', strmap_field pr_Properties (\<lambda>m r. r\<lparr>pr_Properties := m\<rparr>)),
      (''createdAt'', str_field (\<lambda>s r. r\<lparr>pr_CreatedAt := s\<rparr>))]"

definition pb_rel_doc :: "pb_Relationship \<Rightarrow> json" where
  "pb_rel_doc r = JObj
     ([(''relId'', JStr (pr_RelId r)), (''fromNodeId'', JStr (pr_FromNodeId r)), (''toNodeId'', JStr (pr_ToNodeId r)),
       (''relType'', JStr (pr_RelType r))] @ omit_strmap ''properties'' (pr_Properties r) @
      [(''createdAt'', JStr (pr_CreatedAt r))])"

definition no_pb_event :: pb_Event where
  "no_pb_event = \<lparr>pe_EventId = [], pe_EventType = [], pe_Timestamp = [], pe_SourceNodeId = [], pe_TraceId = [], pe_Payload = []\<rparr>"

definition pb_event_fields :: "pb_Event fields" where
  "pb_event_fields =
     [(''eventId'', str_field (\<lambda>s e. e\<lparr>pe_EventId := s\<rparr>)), (''eventType'', str_field (\<lambda>s e. e\<lparr>pe_EventType := s\<rparr>)),
      (''timestamp'', str_field (\<lambda>s e. e\<lparr>pe_Timestamp := s\<rparr>)), (''sourceNodeId'', str_field (\<lambda>s e. e\<lparr>pe_SourceNodeId := s\<rparr>)),
      (''traceId'', str_field (\<lambda>s e. e\<lparr>pe_TraceId := s\<rparr>)),
      (''payload'', strmap_field pe_Payload (\<lambda>m e. e\<lparr>pe_Payload := m\<rparr>))]"

definition pb_event_doc :: "pb_Event \<Rightarrow> json" where
  "pb_event_doc e = JObj
     ([(''eventId'', JStr (pe_EventId e)), (''eventType'', JStr (pe_EventType e)), (''timestamp'', JStr (pe_Timestamp e)),
       (''sourceNodeId'', JStr (pe_SourceNodeId e)), (''traceId'', JStr (pe_TraceId e))] @ omit_strmap ''payload'' (pe_Payload e))"

definition no_pb_frame :: pb_TelemetryFrame where
  "no_pb_frame = \<lparr>pt_SatelliteId = [], pt_Timestamp = [], pt_Parameters = [], pt_Quality = []\<rparr>"

definition pb_frame_fields :: "pb_TelemetryFrame fields" where
  "pb_frame_fields =
     [(''satelliteId'', str_field (\<lambda>s f. f\<lparr>pt_SatelliteId := s\<rparr>)), (''timestamp'', str_field (\<lambda>s f. f\<lparr>pt_Timestamp := s\<rparr>)),
      (''parameters'', strmap_field pt_Parameters (\<lambda>m f. f\<lparr>pt_Parameters := m\<rparr>)),
      (''quality'', str_field (\<lambda>s f. f\<lparr>pt_Quality := s\<rparr>))]"

definition pb_frame_doc :: "pb_TelemetryFrame \<Rightarrow> json" where
  "pb_frame_doc f = JObj
     ([(''satelliteId'', JStr (pt_SatelliteId f)), (''timestamp'', JStr (pt_Timestamp f))] @
      omit_strmap ''parameters'' (pt_Parameters f) @ [(''quality'', JStr (pt_Quality f))])"

text \<open>Schemas and their fields.\<close>

definition fielddef_fields :: "pb_FieldDef fields" where
  "fielddef_fields =
     [(''name'', str_field (\<lambda>s f. f\<lparr>pf_Name := s\<rparr>)), (''type'', str_field (\<lambda>s f. f\<lparr>pf_Type := s\<rparr>)),
      (''required'', bool_field (\<lambda>b f. f\<lparr>pf_Required := b\<rparr>))]"

definition fielddef_doc :: "pb_FieldDef \<Rightarrow> json" where
  "fielddef_doc f = JObj [(''name'', JStr (pf_Name f)), (''type'', JStr (pf_Type f)), (''required'', JBool (pf_Required f))]"

definition fielddef_of :: "json \<Rightarrow> pb_FieldDef res" where
  "fielddef_of = decode_struct fielddef_fields \<lparr>pf_Name = [], pf_Type = [], pf_Required = False\<rparr>"

text \<open>A field that is \<open>null\<close> would be a nil pointer; no server sends one, and it is left out here.\<close>

definition pb_schema_fields :: "pb_Schema fields" where
  "pb_schema_fields =
     [(''eventType'', str_field (\<lambda>s x. x\<lparr>pbs_EventType := s\<rparr>)), (''version'', str_field (\<lambda>s x. x\<lparr>pbs_Version := s\<rparr>)),
      (''fields'', ptrs_field fielddef_of (\<lambda>ps x. x\<lparr>pbs_Fields := List.map_filter id ps\<rparr>))]"

definition pb_schema_doc :: "pb_Schema \<Rightarrow> json" where
  "pb_schema_doc x = JObj
     [(''eventType'', JStr (pbs_EventType x)), (''version'', JStr (pbs_Version x)),
      (''fields'', ptrs_doc fielddef_doc (map Some (pbs_Fields x)))]"

definition pb_schema_of :: "json \<Rightarrow> pb_Schema res" where
  "pb_schema_of = decode_struct pb_schema_fields \<lparr>pbs_EventType = [], pbs_Version = [], pbs_Fields = []\<rparr>"

subsection \<open>Messages come back\<close>

lemma docs_not_null:
  "pb_node_doc n \<noteq> JNull" "pb_rel_doc r \<noteq> JNull" "pb_event_doc e \<noteq> JNull" "fielddef_doc f \<noteq> JNull" "pb_schema_doc x \<noteq> JNull"
  "pb_frame_doc t \<noteq> JNull"
  by (simp_all add: pb_node_doc_def pb_rel_doc_def pb_event_doc_def fielddef_doc_def pb_schema_doc_def pb_frame_doc_def)

lemma pb_node_field_for:
  "field_for pb_node_fields ''nodeId'' = Some (str_field (\<lambda>s n. n\<lparr>pn_NodeId := s\<rparr>))"
  "field_for pb_node_fields ''nodeType'' = Some (str_field (\<lambda>s n. n\<lparr>pn_NodeType := s\<rparr>))"
  "field_for pb_node_fields ''name'' = Some (str_field (\<lambda>s n. n\<lparr>pn_Name := s\<rparr>))"
  "field_for pb_node_fields ''status'' = Some (str_field (\<lambda>s n. n\<lparr>pn_Status := s\<rparr>))"
  "field_for pb_node_fields ''ownerCommunityId'' = Some (str_field (\<lambda>s n. n\<lparr>pn_OwnerCommunityId := s\<rparr>))"
  "field_for pb_node_fields ''createdAt'' = Some (str_field (\<lambda>s n. n\<lparr>pn_CreatedAt := s\<rparr>))"
  "field_for pb_node_fields ''updatedAt'' = Some (str_field (\<lambda>s n. n\<lparr>pn_UpdatedAt := s\<rparr>))"
  "field_for pb_node_fields ''shardKey'' = Some (str_field (\<lambda>s n. n\<lparr>pn_ShardKey := s\<rparr>))"
  "field_for pb_node_fields ''federationId'' = Some (str_field (\<lambda>s n. n\<lparr>pn_FederationId := s\<rparr>))"
  "field_for pb_node_fields ''properties'' = Some (strmap_field pn_Properties (\<lambda>m n. n\<lparr>pn_Properties := m\<rparr>))"
  by (simp_all add: field_for_def pb_node_fields_def)

lemma pb_node_back: "distinct (map fst (pn_Properties n)) \<Longrightarrow> decode_struct pb_node_fields no_pb_node (pb_node_doc n) = Inr n"
  by (simp add: decode_struct_def pb_node_doc_def omit_doc_def omit_strmap_def pb_node_field_for field_back no_pb_node_def)

lemma pb_rel_field_for:
  "field_for pb_rel_fields ''relId'' = Some (str_field (\<lambda>s r. r\<lparr>pr_RelId := s\<rparr>))"
  "field_for pb_rel_fields ''fromNodeId'' = Some (str_field (\<lambda>s r. r\<lparr>pr_FromNodeId := s\<rparr>))"
  "field_for pb_rel_fields ''toNodeId'' = Some (str_field (\<lambda>s r. r\<lparr>pr_ToNodeId := s\<rparr>))"
  "field_for pb_rel_fields ''relType'' = Some (str_field (\<lambda>s r. r\<lparr>pr_RelType := s\<rparr>))"
  "field_for pb_rel_fields ''properties'' = Some (strmap_field pr_Properties (\<lambda>m r. r\<lparr>pr_Properties := m\<rparr>))"
  "field_for pb_rel_fields ''createdAt'' = Some (str_field (\<lambda>s r. r\<lparr>pr_CreatedAt := s\<rparr>))"
  by (simp_all add: field_for_def pb_rel_fields_def)

lemma pb_rel_back: "distinct (map fst (pr_Properties r)) \<Longrightarrow> decode_struct pb_rel_fields no_pb_rel (pb_rel_doc r) = Inr r"
  by (simp add: decode_struct_def pb_rel_doc_def omit_strmap_def pb_rel_field_for field_back no_pb_rel_def)

lemma pb_event_field_for:
  "field_for pb_event_fields ''eventId'' = Some (str_field (\<lambda>s e. e\<lparr>pe_EventId := s\<rparr>))"
  "field_for pb_event_fields ''eventType'' = Some (str_field (\<lambda>s e. e\<lparr>pe_EventType := s\<rparr>))"
  "field_for pb_event_fields ''timestamp'' = Some (str_field (\<lambda>s e. e\<lparr>pe_Timestamp := s\<rparr>))"
  "field_for pb_event_fields ''sourceNodeId'' = Some (str_field (\<lambda>s e. e\<lparr>pe_SourceNodeId := s\<rparr>))"
  "field_for pb_event_fields ''traceId'' = Some (str_field (\<lambda>s e. e\<lparr>pe_TraceId := s\<rparr>))"
  "field_for pb_event_fields ''payload'' = Some (strmap_field pe_Payload (\<lambda>m e. e\<lparr>pe_Payload := m\<rparr>))"
  by (simp_all add: field_for_def pb_event_fields_def)

lemma pb_event_back:
  "distinct (map fst (pe_Payload e)) \<Longrightarrow> decode_struct pb_event_fields no_pb_event (pb_event_doc e) = Inr e"
  by (simp add: decode_struct_def pb_event_doc_def omit_strmap_def pb_event_field_for field_back no_pb_event_def)

lemma pb_frame_back: "distinct (map fst (pt_Parameters f)) \<Longrightarrow> decode_struct pb_frame_fields no_pb_frame (pb_frame_doc f) = Inr f"
  by (simp add: decode_struct_def pb_frame_doc_def omit_strmap_def pb_frame_fields_def field_for_def field_back no_pb_frame_def)

lemma fielddef_back: "fielddef_of (fielddef_doc f) = Inr f"
  by (simp add: fielddef_of_def decode_struct_def fielddef_doc_def fielddef_fields_def field_for_def field_back)

lemma pb_schema_back: "pb_schema_of (pb_schema_doc x) = Inr x"
proof -
  have "ptrs_field fielddef_of upd (ptrs_doc fielddef_doc (map Some fs)) r = Inr (upd (map Some fs) r)"
    for upd :: "pb_FieldDef option list \<Rightarrow> pb_Schema \<Rightarrow> pb_Schema" and fs r
    by (rule ptrs_back) (auto simp: fielddef_back docs_not_null)
  moreover have "List.map_filter id (map Some fs) = fs" for fs :: "pb_FieldDef list"
    by (induction fs) (simp_all add: List.map_filter_simps)
  ultimately show ?thesis
    by (simp add: pb_schema_of_def decode_struct_def pb_schema_doc_def pb_schema_fields_def field_for_def field_back)
qed

end
