(* ===== verification/GrpcServer.thy ===== *)
theory GrpcServer
  imports GrpcCodec GrpcProperties
begin

text \<open>
  The rest of \<open>internal/api/grpc\<close>: the codec, the method handlers and the service descriptor, the
  client, the streams on both sides (\<open>service.go\<close>), and the server (\<open>server.go\<close>). What lies between a
  client and a handler is \<open>grpc-go\<close>: a parameter.
\<close>

subsection \<open>The codec\<close>

text \<open>The bytes of a message: none, or a text, which is the document the scanner finds in it or its error.\<close>

type_synonym wire_data = "json res option"

definition codecName :: string where
  "codecName = ''aos''"

definition codec_Marshal :: "('m \<Rightarrow> json) \<Rightarrow> 'm option \<Rightarrow> wire_data" where
  "codec_Marshal doc v = (case v of None \<Rightarrow> None | Some m \<Rightarrow> Some (Inr (doc m)))"

definition codec_Unmarshal :: "(json \<Rightarrow> 'm res) \<Rightarrow> 'm \<Rightarrow> wire_data \<Rightarrow> 'm res" where
  "codec_Unmarshal dec v data = (case data of None \<Rightarrow> Inr v | Some text \<Rightarrow> Decode dec text)"

text \<open>What decodes into a new message, and what encodes one.\<close>

record 'm codec =
  co_doc :: "'m \<Rightarrow> json"
  co_fields :: "'m fields"
  co_zero :: 'm

definition new_from :: "'m codec \<Rightarrow> wire_data \<Rightarrow> 'm res" where
  "new_from C data = codec_Unmarshal (decode_struct (co_fields C) (co_zero C)) (co_zero C) data"

definition sent :: "'m codec \<Rightarrow> 'm \<Rightarrow> wire_data" where
  "sent C m = codec_Marshal (co_doc C) (Some m)"

subsection \<open>Requests and responses\<close>

text \<open>A request with one field is the value of the field.\<close>

definition CreateNodeRequest :: "pb_Node option codec" where
  "CreateNodeRequest = \<lparr>co_doc = (\<lambda>m. JObj [(''node'', ptr_doc pb_node_doc m)]),
     co_fields = [(''node'', ptr_field pb_node_fields no_pb_node id (\<lambda>n _. n))], co_zero = None\<rparr>"

definition id_request :: "string \<Rightarrow> string codec" where
  "id_request name = \<lparr>co_doc = (\<lambda>i. JObj [(name, JStr i)]), co_fields = [(name, str_field (\<lambda>s _. s))], co_zero = []\<rparr>"

definition GetNodeRequest :: "string codec" where "GetNodeRequest = id_request ''nodeId''"
definition DeleteNodeRequest :: "string codec" where "DeleteNodeRequest = id_request ''nodeId''"
definition DeleteRelationshipRequest :: "string codec" where "DeleteRelationshipRequest = id_request ''relId''"

definition UpdateNodeRequest_codec :: "UpdateNodeRequest codec" where
  "UpdateNodeRequest_codec = \<lparr>co_doc = (\<lambda>r. JObj [(''nodeId'', JStr (un_NodeId r)), (''changes'', strmap_doc (un_Changes r))]),
     co_fields = [(''nodeId'', str_field (\<lambda>s r. r\<lparr>un_NodeId := s\<rparr>)),
       (''changes'', strmap_field un_Changes (\<lambda>m r. r\<lparr>un_Changes := m\<rparr>))],
     co_zero = \<lparr>un_NodeId = [], un_Changes = []\<rparr>\<rparr>"

definition ListNodesRequest_codec :: "ListNodesRequest codec" where
  "ListNodesRequest_codec = \<lparr>co_doc = (\<lambda>r. JObj [(''nodeType'', JStr (ln_NodeType r)),
       (''ownerCommunityId'', JStr (ln_OwnerCommunityId r)), (''status'', JStr (ln_Status r)),
       (''limit'', int32_doc (ln_Limit r)), (''offset'', int32_doc (ln_Offset r))]),
     co_fields = [(''nodeType'', str_field (\<lambda>s r. r\<lparr>ln_NodeType := s\<rparr>)),
       (''ownerCommunityId'', str_field (\<lambda>s r. r\<lparr>ln_OwnerCommunityId := s\<rparr>)),
       (''status'', str_field (\<lambda>s r. r\<lparr>ln_Status := s\<rparr>)), (''limit'', int32_field (\<lambda>i r. r\<lparr>ln_Limit := i\<rparr>)),
       (''offset'', int32_field (\<lambda>i r. r\<lparr>ln_Offset := i\<rparr>))],
     co_zero = \<lparr>ln_NodeType = [], ln_OwnerCommunityId = [], ln_Status = [], ln_Limit = 0, ln_Offset = 0\<rparr>\<rparr>"

definition CreateRelationshipRequest_codec :: "CreateRelationshipRequest codec" where
  "CreateRelationshipRequest_codec = \<lparr>co_doc = (\<lambda>r. JObj ([(''fromNodeId'', JStr (pc_FromNodeId r)),
       (''toNodeId'', JStr (pc_ToNodeId r)), (''relType'', JStr (pc_RelType r))] @ omit_strmap ''properties'' (pc_Properties r))),
     co_fields = [(''fromNodeId'', str_field (\<lambda>s r. r\<lparr>pc_FromNodeId := s\<rparr>)),
       (''toNodeId'', str_field (\<lambda>s r. r\<lparr>pc_ToNodeId := s\<rparr>)), (''relType'', str_field (\<lambda>s r. r\<lparr>pc_RelType := s\<rparr>)),
       (''properties'', strmap_field pc_Properties (\<lambda>m r. r\<lparr>pc_Properties := m\<rparr>))],
     co_zero = \<lparr>pc_FromNodeId = [], pc_ToNodeId = [], pc_RelType = [], pc_Properties = []\<rparr>\<rparr>"

definition QueryGraphRequest_codec :: "QueryGraphRequest codec" where
  "QueryGraphRequest_codec = \<lparr>co_doc = (\<lambda>r. JObj [(''nodeId'', JStr (qg_NodeId r)), (''direction'', JStr (qg_Direction r)),
       (''relType'', JStr (qg_RelType r)), (''maxDepth'', int32_doc (qg_MaxDepth r))]),
     co_fields = [(''nodeId'', str_field (\<lambda>s r. r\<lparr>qg_NodeId := s\<rparr>)), (''direction'', str_field (\<lambda>s r. r\<lparr>qg_Direction := s\<rparr>)),
       (''relType'', str_field (\<lambda>s r. r\<lparr>qg_RelType := s\<rparr>)), (''maxDepth'', int32_field (\<lambda>i r. r\<lparr>qg_MaxDepth := i\<rparr>))],
     co_zero = \<lparr>qg_NodeId = [], qg_Direction = [], qg_RelType = [], qg_MaxDepth = 0\<rparr>\<rparr>"

definition ReplayEventsRequest_codec :: "ReplayEventsRequest codec" where
  "ReplayEventsRequest_codec = \<lparr>co_doc = (\<lambda>r. JObj [(''eventTypes'', JArr (map JStr (re_EventTypes r))),
       (''sourceNodeId'', JStr (re_SourceNodeId r)), (''startTime'', JStr (re_StartTime r)),
       (''endTime'', JStr (re_EndTime r)), (''limit'', int32_doc (re_Limit r))]),
     co_fields = [(''eventTypes'', strs_field (\<lambda>ss r. r\<lparr>re_EventTypes := ss\<rparr>)),
       (''sourceNodeId'', str_field (\<lambda>s r. r\<lparr>re_SourceNodeId := s\<rparr>)), (''startTime'', str_field (\<lambda>s r. r\<lparr>re_StartTime := s\<rparr>)),
       (''endTime'', str_field (\<lambda>s r. r\<lparr>re_EndTime := s\<rparr>)), (''limit'', int32_field (\<lambda>i r. r\<lparr>re_Limit := i\<rparr>))],
     co_zero = \<lparr>re_EventTypes = [], re_SourceNodeId = [], re_StartTime = [], re_EndTime = [], re_Limit = 0\<rparr>\<rparr>"

definition empty_codec :: "unit codec" where
  "empty_codec = \<lparr>co_doc = (\<lambda>_. JObj []), co_fields = [], co_zero = ()\<rparr>"

definition SubscribeEventsRequest :: "string list codec" where
  "SubscribeEventsRequest = \<lparr>co_doc = (\<lambda>ss. JObj [(''eventTypes'', JArr (map JStr ss))]),
     co_fields = [(''eventTypes'', strs_field (\<lambda>ss _. ss))], co_zero = []\<rparr>"

definition Node_codec :: "pb_Node codec" where
  "Node_codec = \<lparr>co_doc = pb_node_doc, co_fields = pb_node_fields, co_zero = no_pb_node\<rparr>"

definition Relationship_codec :: "pb_Relationship codec" where
  "Relationship_codec = \<lparr>co_doc = pb_rel_doc, co_fields = pb_rel_fields, co_zero = no_pb_rel\<rparr>"

definition Event_codec :: "pb_Event codec" where
  "Event_codec = \<lparr>co_doc = pb_event_doc, co_fields = pb_event_fields, co_zero = no_pb_event\<rparr>"

definition TelemetryFrame_codec :: "pb_TelemetryFrame codec" where
  "TelemetryFrame_codec = \<lparr>co_doc = pb_frame_doc, co_fields = pb_frame_fields, co_zero = no_pb_frame\<rparr>"

text \<open>A response that holds a list of messages, each behind a pointer.\<close>

definition list_response :: "string \<Rightarrow> 'm codec \<Rightarrow> 'm option list codec" where
  "list_response name C = \<lparr>co_doc = (\<lambda>ps. JObj [(name, ptrs_doc (co_doc C) ps)]),
     co_fields = [(name, ptrs_field (decode_struct (co_fields C) (co_zero C)) (\<lambda>ps _. ps))], co_zero = []\<rparr>"

definition Schema_codec :: "pb_Schema codec" where
  "Schema_codec = \<lparr>co_doc = pb_schema_doc, co_fields = pb_schema_fields, co_zero = \<lparr>pbs_EventType = [], pbs_Version = [], pbs_Fields = []\<rparr>\<rparr>"

definition ListNodesResponse :: "pb_Node option list codec" where
  "ListNodesResponse = list_response ''nodes'' Node_codec"
definition QueryGraphResponse :: "pb_Relationship option list codec" where
  "QueryGraphResponse = list_response ''relationships'' Relationship_codec"
definition ReplayEventsResponse :: "pb_Event option list codec" where
  "ReplayEventsResponse = list_response ''events'' Event_codec"
definition ListSchemasResponse :: "pb_Schema option list codec" where
  "ListSchemasResponse = list_response ''schemas'' Schema_codec"

definition IngestTelemetryResponse_codec :: "IngestTelemetryResponse codec" where
  "IngestTelemetryResponse_codec = \<lparr>co_doc = (\<lambda>r. JObj [(''accepted'', int32_doc (it_Accepted r)), (''total'', int32_doc (it_Total r))]),
     co_fields = [(''accepted'', int32_field (\<lambda>i r. r\<lparr>it_Accepted := i\<rparr>)), (''total'', int32_field (\<lambda>i r. r\<lparr>it_Total := i\<rparr>))],
     co_zero = \<lparr>it_Accepted = 0, it_Total = 0\<rparr>\<rparr>"

text \<open>What comes back: everything, where the maps are maps.\<close>

definition comes_back :: "'m codec \<Rightarrow> 'm \<Rightarrow> bool" where
  "comes_back C m \<longleftrightarrow> co_doc C m \<noteq> JNull \<and> decode_struct (co_fields C) (co_zero C) (co_doc C m) = Inr m"

lemma new_from_sent: "comes_back C m \<Longrightarrow> new_from C (sent C m) = Inr m"
  by (simp add: new_from_def sent_def codec_Unmarshal_def codec_Marshal_def comes_back_def Decode_def)

lemma list_comes_back: "\<forall>p\<in>set ps. \<forall>m. p = Some m \<longrightarrow> comes_back C m \<Longrightarrow> comes_back (list_response name C) ps"
  unfolding comes_back_def list_response_def
  by (simp add: decode_struct_def field_for_def ptrs_back)

lemma requests_come_back:
  "(\<forall>m. n = Some m \<longrightarrow> distinct (map fst (pn_Properties m))) \<Longrightarrow> comes_back CreateNodeRequest n"
  "comes_back GetNodeRequest i" "comes_back DeleteNodeRequest i" "comes_back DeleteRelationshipRequest i"
  "distinct (map fst (un_Changes u)) \<Longrightarrow> comes_back UpdateNodeRequest_codec u"
  "comes_back ListNodesRequest_codec l"
  "distinct (map fst (pc_Properties r)) \<Longrightarrow> comes_back CreateRelationshipRequest_codec r"
  "comes_back QueryGraphRequest_codec q" "comes_back ReplayEventsRequest_codec v" "comes_back empty_codec ()"
  "comes_back SubscribeEventsRequest ss"
proof -
  show "(\<forall>m. n = Some m \<longrightarrow> distinct (map fst (pn_Properties m))) \<Longrightarrow> comes_back CreateNodeRequest n"
    using ptr_back [of n pb_node_doc pb_node_fields no_pb_node id None "\<lambda>n _. n"] pb_node_back
    by (simp add: comes_back_def CreateNodeRequest_def field_for_def docs_not_null decode_struct_def [where d = "JObj _"])
qed (simp_all add: comes_back_def GetNodeRequest_def DeleteNodeRequest_def DeleteRelationshipRequest_def id_request_def
    UpdateNodeRequest_codec_def ListNodesRequest_codec_def CreateRelationshipRequest_codec_def QueryGraphRequest_codec_def
    ReplayEventsRequest_codec_def empty_codec_def SubscribeEventsRequest_def omit_strmap_def
    decode_struct_def field_for_def field_back)

lemma responses_come_back:
  "distinct (map fst (pn_Properties n)) \<Longrightarrow> comes_back Node_codec n"
  "distinct (map fst (pr_Properties r)) \<Longrightarrow> comes_back Relationship_codec r"
  "distinct (map fst (pe_Payload e)) \<Longrightarrow> comes_back Event_codec e"
  "distinct (map fst (pt_Parameters f)) \<Longrightarrow> comes_back TelemetryFrame_codec f"
  "comes_back Schema_codec x" "comes_back IngestTelemetryResponse_codec t"
proof -
  show "comes_back Schema_codec x" using pb_schema_back [of x] by (simp add: comes_back_def Schema_codec_def docs_not_null pb_schema_of_def)
  show "comes_back IngestTelemetryResponse_codec t"
    by (simp add: comes_back_def IngestTelemetryResponse_codec_def decode_struct_def field_for_def field_back)
qed (simp_all add: comes_back_def Node_codec_def Relationship_codec_def Event_codec_def TelemetryFrame_codec_def
    docs_not_null pb_node_back pb_rel_back pb_event_back pb_frame_back)

subsection \<open>Handlers\<close>

text \<open>A response that lists messages points to each of them.\<close>

definition pointers :: "(grpc_call \<Rightarrow> 'q \<Rightarrow> 'b api \<Rightarrow> 'm list rpc \<times> 'b api) \<Rightarrow> grpc_call \<Rightarrow> 'q \<Rightarrow> 'b api \<Rightarrow> 'm option list rpc \<times> 'b api" where
  "pointers method c req s = (case method c req s of (r, s1) \<Rightarrow> (map_sum id (map Some) r, s1))"

type_synonym 'b run = "grpc_call \<Rightarrow> 'b api \<Rightarrow> wire_data rpc \<times> 'b api"
type_synonym 'b interceptor = "('b run \<Rightarrow> 'b run) option"

definition answer :: "'r codec \<Rightarrow> (grpc_call \<Rightarrow> 'b api \<Rightarrow> 'r rpc \<times> 'b api) \<Rightarrow> 'b run" where
  "answer C method c s = (case method c s of (r, s1) \<Rightarrow> (map_sum id (sent C) r, s1))"

text \<open>Decode the request, then call the method, through the interceptor where there is one.\<close>

definition unary_handler :: "'q codec \<Rightarrow> 'r codec \<Rightarrow> (grpc_call \<Rightarrow> 'q \<Rightarrow> 'b api \<Rightarrow> 'r rpc \<times> 'b api) \<Rightarrow>
    'b interceptor \<Rightarrow> wire_data \<Rightarrow> 'b run" where
  "unary_handler Q R method icp data c s =
     (case new_from Q data of
        Inl e \<Rightarrow> (Inl (Plain e), s)
      | Inr req \<Rightarrow>
        (let run = answer R (\<lambda>c. method c req) in
         case icp of None \<Rightarrow> run c s | Some intercept \<Rightarrow> intercept run c s))"

definition CreateNode_Handler :: "'b env \<Rightarrow> prints \<Rightarrow> 'b interceptor \<Rightarrow> wire_data \<Rightarrow> 'b run" where
  "CreateNode_Handler E P = unary_handler CreateNodeRequest Node_codec (G_CreateNode E P)"

definition GetNode_Handler :: "'b env \<Rightarrow> prints \<Rightarrow> 'b interceptor \<Rightarrow> wire_data \<Rightarrow> 'b run" where
  "GetNode_Handler E P = unary_handler GetNodeRequest Node_codec (G_GetNode P)"

definition UpdateNode_Handler :: "'b env \<Rightarrow> prints \<Rightarrow> 'b interceptor \<Rightarrow> wire_data \<Rightarrow> 'b run" where
  "UpdateNode_Handler E P = unary_handler UpdateNodeRequest_codec Node_codec (G_UpdateNode E P)"

definition DeleteNode_Handler :: "'b env \<Rightarrow> prints \<Rightarrow> 'b interceptor \<Rightarrow> wire_data \<Rightarrow> 'b run" where
  "DeleteNode_Handler E P = unary_handler DeleteNodeRequest empty_codec (G_DeleteNode E)"

definition ListNodes_Handler :: "'b env \<Rightarrow> prints \<Rightarrow> 'b interceptor \<Rightarrow> wire_data \<Rightarrow> 'b run" where
  "ListNodes_Handler E P = unary_handler ListNodesRequest_codec ListNodesResponse (pointers (G_ListNodes P))"

definition CreateRelationship_Handler :: "'b env \<Rightarrow> prints \<Rightarrow> 'b interceptor \<Rightarrow> wire_data \<Rightarrow> 'b run" where
  "CreateRelationship_Handler E P = unary_handler CreateRelationshipRequest_codec Relationship_codec (G_CreateRelationship E P)"

definition DeleteRelationship_Handler :: "'b env \<Rightarrow> prints \<Rightarrow> 'b interceptor \<Rightarrow> wire_data \<Rightarrow> 'b run" where
  "DeleteRelationship_Handler E P = unary_handler DeleteRelationshipRequest empty_codec (G_DeleteRelationship E)"

definition QueryGraph_Handler :: "'b env \<Rightarrow> prints \<Rightarrow> 'b interceptor \<Rightarrow> wire_data \<Rightarrow> 'b run" where
  "QueryGraph_Handler E P = unary_handler QueryGraphRequest_codec QueryGraphResponse (pointers (G_QueryGraph P))"

definition ReplayEvents_Handler :: "'b env \<Rightarrow> prints \<Rightarrow> 'b interceptor \<Rightarrow> wire_data \<Rightarrow> 'b run" where
  "ReplayEvents_Handler E P = unary_handler ReplayEventsRequest_codec ReplayEventsResponse (pointers (G_ReplayEvents E P))"

definition ListSchemas_Handler :: "'b env \<Rightarrow> prints \<Rightarrow> 'b interceptor \<Rightarrow> wire_data \<Rightarrow> 'b run" where
  "ListSchemas_Handler E P = unary_handler empty_codec ListSchemasResponse (pointers (\<lambda>_ _. G_ListSchemas E))"

text \<open>
  Streams: the messages the peer sends, and the error it breaks off with if it does not close; for a
  subscription also what the \<open>select\<close> of its loop finds. The result is the messages sent and the error.
\<close>

type_synonym 'b stream_run = "stream_input list \<Rightarrow> wire_data list \<times> verdict \<Rightarrow> grpc_call \<Rightarrow> 'b api \<Rightarrow>
    (wire_data list \<times> rpc_error option) \<times> 'b api"

definition SubscribeEvents_Handler :: "'b env \<Rightarrow> prints \<Rightarrow> 'b stream_run" where
  "SubscribeEvents_Handler E P ins = (\<lambda>(msgs, ending) c s.
     case (case msgs of [] \<Rightarrow> Inl (case ending of None \<Rightarrow> External ''EOF'' | Some e \<Rightarrow> e)
           | d # _ \<Rightarrow> new_from SubscribeEventsRequest d) of
       Inl e \<Rightarrow> (([], Some (Plain e)), s)
     | Inr types \<Rightarrow>
       (let (k, s1) = grpc_subscribe E types s; (evs, v) = subscribe_loop P ins
        in ((map (sent Event_codec) evs, map_option Plain v), s1)))"

text \<open>\<open>Recv\<close>: a message that does not decode ends the stream with an error.\<close>

fun recv_frames :: "wire_data list \<Rightarrow> verdict \<Rightarrow> pb_TelemetryFrame list \<times> verdict" where
  "recv_frames [] ending = ([], ending)"
| "recv_frames (d # ds) ending =
     (case new_from TelemetryFrame_codec d of
        Inl e \<Rightarrow> ([], Some e)
      | Inr f \<Rightarrow> (case recv_frames ds ending of (fs, v) \<Rightarrow> (f # fs, v)))"

definition IngestTelemetry_Handler :: "'b env \<Rightarrow> prints \<Rightarrow> 'b stream_run" where
  "IngestTelemetry_Handler E P ins = (\<lambda>(msgs, ending) c s.
     case recv_frames msgs ending of
       (fs, v) \<Rightarrow>
         (case G_IngestTelemetry E P c fs v s of
            (Inl e, s1) \<Rightarrow> (([], Some e), s1)
          | (Inr resp, s1) \<Rightarrow> (([sent IngestTelemetryResponse_codec resp], None), s1)))"

subsection \<open>The service descriptor\<close>

record 'b service_desc =
  sd_ServiceName :: string
  sd_Methods :: "(string \<times> ('b interceptor \<Rightarrow> wire_data \<Rightarrow> 'b run)) list"
  sd_Streams :: "(string \<times> 'b stream_run) list"

definition KGService_ServiceDesc :: "'b env \<Rightarrow> prints \<Rightarrow> 'b service_desc" where
  "KGService_ServiceDesc E P = \<lparr>sd_ServiceName = ''openspace_os.core.v1.OpenspaceOSCoreService'',
     sd_Methods = [
       (''CreateNode'', CreateNode_Handler E P),
       (''GetNode'', GetNode_Handler E P),
       (''UpdateNode'', UpdateNode_Handler E P),
       (''DeleteNode'', DeleteNode_Handler E P),
       (''ListNodes'', ListNodes_Handler E P),
       (''CreateRelationship'', CreateRelationship_Handler E P),
       (''DeleteRelationship'', DeleteRelationship_Handler E P),
       (''QueryGraph'', QueryGraph_Handler E P),
       (''ReplayEvents'', ReplayEvents_Handler E P),
       (''ListSchemas'', ListSchemas_Handler E P)],
     sd_Streams = [(''SubscribeEvents'', SubscribeEvents_Handler E P), (''IngestTelemetry'', IngestTelemetry_Handler E P)]\<rparr>"

subsection \<open>The server\<close>

text \<open>
  \<open>Server\<close>: its dependencies are those of the REST front end; what is its own is whether it has
  authentication and telemetry, the port it listens on, and the server made by \<open>Start\<close>, with
  interceptors or without.
\<close>

record grpc_server =
  gs_tm :: bool
  gs_clientSvc :: bool
  gs_ingress :: bool
  gs_listener :: "int option"
  gs_server :: "bool option"

definition NewServer :: grpc_server where
  "NewServer = \<lparr>gs_tm = False, gs_clientSvc = False, gs_ingress = False, gs_listener = None, gs_server = None\<rparr>"

definition Server_SetAuth :: "bool \<Rightarrow> bool \<Rightarrow> grpc_server \<Rightarrow> grpc_server" where
  "Server_SetAuth tm clientSvc g = g\<lparr>gs_tm := tm, gs_clientSvc := clientSvc\<rparr>"

definition SetTelemetryIngress :: "bool \<Rightarrow> grpc_server \<Rightarrow> grpc_server" where
  "SetTelemetryIngress p g = g\<lparr>gs_ingress := p\<rparr>"

definition Server_Start :: "(int \<Rightarrow> verdict) \<Rightarrow> int \<Rightarrow> grpc_server \<Rightarrow> verdict \<times> grpc_server" where
  "Server_Start listen port g =
     (case listen port of
        Some e \<Rightarrow> (Some (Wrap ''gRPC listen'' e), g)
      | None \<Rightarrow> (None, g\<lparr>gs_listener := Some port, gs_server := Some (gs_tm g)\<rparr>))"

text \<open>\<open>GracefulStop\<close> waits (\<open>None\<close>) while calls are open.\<close>

definition Server_Stop :: "nat \<Rightarrow> grpc_server \<Rightarrow> grpc_server option" where
  "Server_Stop calls g =
     (if gs_server g = None then Some g else if 0 < calls then None else Some (g\<lparr>gs_server := None, gs_listener := None\<rparr>))"

text \<open>The interceptors it serves with, for unary calls and for streams.\<close>

definition unary_interceptor :: "'b env \<Rightarrow> bool \<Rightarrow> 'b interceptor" where
  "unary_interceptor E secured = (if secured then Some (Intercept E True) else None)"

definition Stream_Intercept :: "'b env \<Rightarrow> bool \<Rightarrow> 'b stream_run \<Rightarrow> 'b stream_run" where
  "Stream_Intercept E secured run ins msgs c s =
     (if \<not> secured then run ins msgs c s
      else case authenticate E True c s of
             (Inl e, s1) \<Rightarrow> (([], Some e), s1)
           | (Inr c1, s1) \<Rightarrow> run ins msgs c1 s1)"

subsection \<open>The client\<close>

text \<open>\<open>grpc.ClientConn\<close>: a unary call, and a stream on which all messages are sent before it is closed and read.\<close>

record 'b client_conn =
  cc_Invoke :: "string \<Rightarrow> wire_data \<Rightarrow> 'b api \<Rightarrow> wire_data rpc \<times> 'b api"
  cc_Stream :: "string \<Rightarrow> stream_input list \<Rightarrow> wire_data list \<Rightarrow> 'b api \<Rightarrow> (wire_data list \<times> rpc_error option) \<times> 'b api"

definition client_call :: "'b client_conn \<Rightarrow> string \<Rightarrow> 'q codec \<Rightarrow> 'r codec \<Rightarrow> 'q \<Rightarrow> 'b api \<Rightarrow> 'r rpc \<times> 'b api" where
  "client_call cc path Q R req s =
     (case cc_Invoke cc path (sent Q req) s of
        (Inl e, s1) \<Rightarrow> (Inl e, s1)
      | (Inr data, s1) \<Rightarrow> (case new_from R data of Inl e \<Rightarrow> (Inl (Plain e), s1) | Inr resp \<Rightarrow> (Inr resp, s1)))"

definition C_CreateNode :: "'b client_conn \<Rightarrow> pb_Node option \<Rightarrow> 'b api \<Rightarrow> pb_Node rpc \<times> 'b api" where
  "C_CreateNode cc = client_call cc ''/openspace_os.core.v1.OpenspaceOSCoreService/CreateNode'' CreateNodeRequest Node_codec"

definition C_GetNode :: "'b client_conn \<Rightarrow> string \<Rightarrow> 'b api \<Rightarrow> pb_Node rpc \<times> 'b api" where
  "C_GetNode cc = client_call cc ''/openspace_os.core.v1.OpenspaceOSCoreService/GetNode'' GetNodeRequest Node_codec"

definition C_UpdateNode :: "'b client_conn \<Rightarrow> UpdateNodeRequest \<Rightarrow> 'b api \<Rightarrow> pb_Node rpc \<times> 'b api" where
  "C_UpdateNode cc = client_call cc ''/openspace_os.core.v1.OpenspaceOSCoreService/UpdateNode'' UpdateNodeRequest_codec Node_codec"

definition C_DeleteNode :: "'b client_conn \<Rightarrow> string \<Rightarrow> 'b api \<Rightarrow> unit rpc \<times> 'b api" where
  "C_DeleteNode cc = client_call cc ''/openspace_os.core.v1.OpenspaceOSCoreService/DeleteNode'' DeleteNodeRequest empty_codec"

definition C_ListNodes :: "'b client_conn \<Rightarrow> ListNodesRequest \<Rightarrow> 'b api \<Rightarrow> (pb_Node option list) rpc \<times> 'b api" where
  "C_ListNodes cc = client_call cc ''/openspace_os.core.v1.OpenspaceOSCoreService/ListNodes'' ListNodesRequest_codec ListNodesResponse"

definition C_CreateRelationship :: "'b client_conn \<Rightarrow> CreateRelationshipRequest \<Rightarrow> 'b api \<Rightarrow> pb_Relationship rpc \<times> 'b api" where
  "C_CreateRelationship cc = client_call cc ''/openspace_os.core.v1.OpenspaceOSCoreService/CreateRelationship'' CreateRelationshipRequest_codec Relationship_codec"

definition C_DeleteRelationship :: "'b client_conn \<Rightarrow> string \<Rightarrow> 'b api \<Rightarrow> unit rpc \<times> 'b api" where
  "C_DeleteRelationship cc = client_call cc ''/openspace_os.core.v1.OpenspaceOSCoreService/DeleteRelationship'' DeleteRelationshipRequest empty_codec"

definition C_QueryGraph :: "'b client_conn \<Rightarrow> QueryGraphRequest \<Rightarrow> 'b api \<Rightarrow> (pb_Relationship option list) rpc \<times> 'b api" where
  "C_QueryGraph cc = client_call cc ''/openspace_os.core.v1.OpenspaceOSCoreService/QueryGraph'' QueryGraphRequest_codec QueryGraphResponse"

definition C_ReplayEvents :: "'b client_conn \<Rightarrow> ReplayEventsRequest \<Rightarrow> 'b api \<Rightarrow> (pb_Event option list) rpc \<times> 'b api" where
  "C_ReplayEvents cc = client_call cc ''/openspace_os.core.v1.OpenspaceOSCoreService/ReplayEvents'' ReplayEventsRequest_codec ReplayEventsResponse"

definition C_ListSchemas :: "'b client_conn \<Rightarrow> unit \<Rightarrow> 'b api \<Rightarrow> (pb_Schema option list) rpc \<times> 'b api" where
  "C_ListSchemas cc = client_call cc ''/openspace_os.core.v1.OpenspaceOSCoreService/ListSchemas'' empty_codec ListSchemasResponse"

text \<open>\<open>Recv\<close> until the end or a message that does not decode.\<close>

fun recv_events :: "wire_data list \<Rightarrow> rpc_error option \<Rightarrow> pb_Event list \<times> rpc_error option" where
  "recv_events [] ending = ([], ending)"
| "recv_events (d # ds) ending =
     (case new_from Event_codec d of
        Inl e \<Rightarrow> ([], Some (Plain e))
      | Inr x \<Rightarrow> (case recv_events ds ending of (xs, v) \<Rightarrow> (x # xs, v)))"

definition C_SubscribeEvents :: "'b client_conn \<Rightarrow> stream_input list \<Rightarrow> string list \<Rightarrow> 'b api \<Rightarrow>
    (pb_Event list \<times> rpc_error option) \<times> 'b api" where
  "C_SubscribeEvents cc ins types s =
     (case cc_Stream cc ''/openspace_os.core.v1.OpenspaceOSCoreService/SubscribeEvents'' ins [sent SubscribeEventsRequest types] s of
        ((ds, v), s1) \<Rightarrow> (recv_events ds v, s1))"

definition C_IngestTelemetry :: "'b client_conn \<Rightarrow> pb_TelemetryFrame list \<Rightarrow> 'b api \<Rightarrow> IngestTelemetryResponse rpc \<times> 'b api" where
  "C_IngestTelemetry cc fs s =
     (case cc_Stream cc ''/openspace_os.core.v1.OpenspaceOSCoreService/IngestTelemetry'' [] (map (sent TelemetryFrame_codec) fs) s of
        (([], v), s1) \<Rightarrow> (Inl (case v of None \<Rightarrow> Plain (External ''EOF'') | Some e \<Rightarrow> e), s1)
      | ((d # _, v), s1) \<Rightarrow>
        (case new_from IngestTelemetryResponse_codec d of Inl e \<Rightarrow> (Inl (Plain e), s1) | Inr resp \<Rightarrow> (Inr resp, s1)))"

subsection \<open>Every call reaches its method\<close>

text \<open>
  What is relied on of \<open>grpc-go\<close>: a call by the name of a service and of one of its methods runs the
  handler that the descriptor has for it, with the bytes sent; its bytes come back, its error as a
  status (\<open>wire\<close>). \<open>c\<close> is the call as the server sees it.
\<close>

definition conn_serves :: "(rpc_error \<Rightarrow> rpc_error) \<Rightarrow> grpc_call \<Rightarrow> 'b env \<Rightarrow> bool \<Rightarrow> 'b service_desc \<Rightarrow> 'b client_conn \<Rightarrow> bool" where
  "conn_serves wire c E secured D cc \<longleftrightarrow>
     (\<forall>(name, h)\<in>set (sd_Methods D). \<forall>data s.
        cc_Invoke cc (CHR ''/'' # sd_ServiceName D @ CHR ''/'' # name) data s =
          (case h (unary_interceptor E secured) data c s of (r, s1) \<Rightarrow> (map_sum wire id r, s1))) \<and>
     (\<forall>(name, run)\<in>set (sd_Streams D). \<forall>ins msgs s.
        cc_Stream cc (CHR ''/'' # sd_ServiceName D @ CHR ''/'' # name) ins msgs s =
          (case Stream_Intercept E secured run ins (msgs, None) c s of ((ds, v), s1) \<Rightarrow> ((ds, map_option wire v), s1)))"

text \<open>The method behind the interceptor.\<close>

definition guarded :: "'b env \<Rightarrow> bool \<Rightarrow> (grpc_call \<Rightarrow> 'b api \<Rightarrow> 'a rpc \<times> 'b api) \<Rightarrow> grpc_call \<Rightarrow> 'b api \<Rightarrow> 'a rpc \<times> 'b api" where
  "guarded E secured method = (if secured then Intercept E True method else method)"

text \<open>
  What the client makes of it: the same state, the error as a status, and the answer itself, provided
  its maps are maps.
\<close>

definition delivered :: "(rpc_error \<Rightarrow> rpc_error) \<Rightarrow> 'r codec \<Rightarrow> 'r rpc \<times> 'b api \<Rightarrow> 'r rpc \<times> 'b api \<Rightarrow> bool" where
  "delivered wire R = (\<lambda>(r, s) (r', s').
     s' = s \<and> (case r of Inl e \<Rightarrow> r' = Inl (wire e) | Inr m \<Rightarrow> comes_back R m \<longrightarrow> r' = Inr m))"

lemma answer_guarded:
  "Intercept E True (answer R method) c s = answer R (Intercept E True method) c s"
  by (simp add: Intercept_def answer_def split: prod.splits sum.splits)

lemma client_call_delivered:
  assumes "conn_serves wire c E secured D cc" "(name, unary_handler Q R method) \<in> set (sd_Methods D)"
    and "path = CHR ''/'' # sd_ServiceName D @ CHR ''/'' # name" "comes_back Q req"
  shows "delivered wire R (guarded E secured (\<lambda>c. method c req) c s) (client_call cc path Q R req s)"
proof -
  have "cc_Invoke cc path (sent Q req) s =
      (case unary_handler Q R method (unary_interceptor E secured) (sent Q req) c s of (r, s1) \<Rightarrow> (map_sum wire id r, s1))"
    using assms(1,2,3) unfolding conn_serves_def by blast
  also have "unary_handler Q R method (unary_interceptor E secured) (sent Q req) c s =
      answer R (guarded E secured (\<lambda>c. method c req)) c s"
    using new_from_sent [OF assms(4)] by (simp add: unary_handler_def unary_interceptor_def guarded_def answer_guarded)
  finally show ?thesis
    by (auto simp: client_call_def delivered_def answer_def new_from_sent split: prod.splits sum.splits)
qed

lemma recv_frames_sent: "\<forall>f\<in>set fs. comes_back TelemetryFrame_codec f \<Longrightarrow>
    recv_frames (map (sent TelemetryFrame_codec) fs) v = (fs, v)"
  by (induction fs) (simp_all add: new_from_sent)

lemma recv_events_sent: "\<forall>x\<in>set xs. comes_back Event_codec x \<Longrightarrow> recv_events (map (sent Event_codec) xs) v = (xs, v)"
  by (induction xs) (simp_all add: new_from_sent)

lemma conn_streams:
  "conn_serves wire c E secured D cc \<Longrightarrow> (name, run) \<in> set (sd_Streams D) \<Longrightarrow> path = CHR ''/'' # sd_ServiceName D @ CHR ''/'' # name \<Longrightarrow>
   cc_Stream cc path ins msgs s =
     (case Stream_Intercept E secured run ins (msgs, None) c s of ((ds, v), s1) \<Rightarrow> ((ds, map_option wire v), s1))"
  unfolding conn_serves_def by blast

lemma ingest_delivered:
  assumes "conn_serves wire c E secured (KGService_ServiceDesc E P) cc" "\<forall>f\<in>set fs. distinct (map fst (pt_Parameters f))"
  shows "delivered wire IngestTelemetryResponse_codec (guarded E secured (\<lambda>c. G_IngestTelemetry E P c fs None) c s)
     (C_IngestTelemetry cc fs s)"
proof -
  have run: "cc_Stream cc ''/openspace_os.core.v1.OpenspaceOSCoreService/IngestTelemetry'' [] (map (sent TelemetryFrame_codec) fs) s =
      (case Stream_Intercept E secured (IngestTelemetry_Handler E P) [] (map (sent TelemetryFrame_codec) fs, None) c s of
         ((ds, v), s1) \<Rightarrow> ((ds, map_option wire v), s1))"
    by (rule conn_streams [OF assms(1)]) (simp_all add: KGService_ServiceDesc_def)
  have "recv_frames (map (sent TelemetryFrame_codec) fs) None = (fs, None)"
    by (rule recv_frames_sent) (use assms(2) responses_come_back(4) in blast)
  then show ?thesis
    unfolding C_IngestTelemetry_def run
    by (auto simp: IngestTelemetry_Handler_def Stream_Intercept_def guarded_def Intercept_def delivered_def
        new_from_sent responses_come_back split: prod.splits sum.splits)
qed

lemma subscribe_delivered:
  assumes "conn_serves wire c E secured (KGService_ServiceDesc E P) cc" "\<forall>x\<in>set (fst (subscribe_loop P ins)). comes_back Event_codec x"
  shows "C_SubscribeEvents cc ins types s =
     (case (if secured then authenticate E True c s else (Inr c, s)) of
        (Inl e, s1) \<Rightarrow> (([], Some (wire e)), s1)
      | (Inr _, s1) \<Rightarrow>
        ((fst (subscribe_loop P ins), map_option (wire \<circ> Plain) (snd (subscribe_loop P ins))), snd (grpc_subscribe E types s1)))"
proof -
  have run: "cc_Stream cc ''/openspace_os.core.v1.OpenspaceOSCoreService/SubscribeEvents'' ins [sent SubscribeEventsRequest types] s =
      (case Stream_Intercept E secured (SubscribeEvents_Handler E P) ins ([sent SubscribeEventsRequest types], None) c s of
         ((ds, v), s1) \<Rightarrow> ((ds, map_option wire v), s1))"
    by (rule conn_streams [OF assms(1)]) (simp_all add: KGService_ServiceDesc_def)
  obtain evs v where loop: "subscribe_loop P ins = (evs, v)" by fastforce
  then have events: "recv_events (map (sent Event_codec) evs) w = (evs, w)" for w
    using recv_events_sent assms(2) by simp
  show ?thesis
    unfolding C_SubscribeEvents_def run
    by (auto simp: SubscribeEvents_Handler_def Stream_Intercept_def loop events new_from_sent requests_come_back
        option.map_comp split: prod.splits sum.splits)
qed

text \<open>C0:
  Whatever a client calls, the server runs that method, behind the interceptor, on the very request:
  for each of the ten calls and both streams the state afterwards is the method's, an error arrives
  as a status, and the answer arrives as it was given.
\<close>

theorem grpc_calls_arrive:
  assumes "conn_serves wire c E secured (KGService_ServiceDesc E P) cc"
    and "\<forall>m. node = Some m \<longrightarrow> distinct (map fst (pn_Properties m))" "distinct (map fst (un_Changes upd))"
    and "distinct (map fst (pc_Properties rel))" "\<forall>f\<in>set fs. distinct (map fst (pt_Parameters f))"
    and "\<forall>x\<in>set (fst (subscribe_loop P ins)). comes_back Event_codec x"
  shows "delivered wire Node_codec (guarded E secured (\<lambda>c. G_CreateNode E P c node) c s) (C_CreateNode cc node s) \<and>
    delivered wire Node_codec (guarded E secured (\<lambda>c. G_GetNode P c i) c s) (C_GetNode cc i s) \<and>
    delivered wire Node_codec (guarded E secured (\<lambda>c. G_UpdateNode E P c upd) c s) (C_UpdateNode cc upd s) \<and>
    delivered wire empty_codec (guarded E secured (\<lambda>c. G_DeleteNode E c i) c s) (C_DeleteNode cc i s) \<and>
    delivered wire ListNodesResponse (guarded E secured (\<lambda>c. pointers (G_ListNodes P) c lq) c s) (C_ListNodes cc lq s) \<and>
    delivered wire Relationship_codec (guarded E secured (\<lambda>c. G_CreateRelationship E P c rel) c s) (C_CreateRelationship cc rel s) \<and>
    delivered wire empty_codec (guarded E secured (\<lambda>c. G_DeleteRelationship E c i) c s) (C_DeleteRelationship cc i s) \<and>
    delivered wire QueryGraphResponse (guarded E secured (\<lambda>c. pointers (G_QueryGraph P) c q) c s) (C_QueryGraph cc q s) \<and>
    delivered wire ReplayEventsResponse (guarded E secured (\<lambda>c. pointers (G_ReplayEvents E P) c rv) c s) (C_ReplayEvents cc rv s) \<and>
    delivered wire ListSchemasResponse (guarded E secured (\<lambda>c. pointers (\<lambda>_ _. G_ListSchemas E) c ()) c s) (C_ListSchemas cc () s) \<and>
    delivered wire IngestTelemetryResponse_codec (guarded E secured (\<lambda>c. G_IngestTelemetry E P c fs None) c s)
      (C_IngestTelemetry cc fs s) \<and>
    C_SubscribeEvents cc ins types s =
     (case (if secured then authenticate E True c s else (Inr c, s)) of
        (Inl e, s1) \<Rightarrow> (([], Some (wire e)), s1)
      | (Inr _, s1) \<Rightarrow>
        ((fst (subscribe_loop P ins), map_option (wire \<circ> Plain) (snd (subscribe_loop P ins))), snd (grpc_subscribe E types s1)))"
  unfolding C_CreateNode_def C_GetNode_def C_UpdateNode_def C_DeleteNode_def C_ListNodes_def C_CreateRelationship_def
    C_DeleteRelationship_def C_QueryGraph_def C_ReplayEvents_def C_ListSchemas_def
  by (intro conjI client_call_delivered [OF assms(1)] ingest_delivered [OF assms(1,5)] subscribe_delivered [OF assms(1,6)])
    (use assms(2-4) in \<open>simp_all add: KGService_ServiceDesc_def requests_come_back CreateNode_Handler_def GetNode_Handler_def
      UpdateNode_Handler_def DeleteNode_Handler_def ListNodes_Handler_def CreateRelationship_Handler_def
      DeleteRelationship_Handler_def QueryGraph_Handler_def ReplayEvents_Handler_def ListSchemas_Handler_def\<close>)

text \<open>C0:
  Without valid credentials no call gets through a server with interceptors: whatever bytes are sent
  to whichever method, the answer is an error and nothing changes but the reading of the clients'
  table; a stream ends at once, before anything is read from it.
\<close>

theorem grpc_guarded:
  assumes "authenticate E True c s = (Inl e, s1)"
  shows "\<exists>svc. s1 = past_filter svc s \<and>
    (\<forall>(name, h)\<in>set (sd_Methods (KGService_ServiceDesc E P)). \<forall>data.
       h (unary_interceptor E True) data c s = (Inl e, s1) \<or> (\<exists>e1. h (unary_interceptor E True) data c s = (Inl e1, s))) \<and>
    (\<forall>(name, run)\<in>set (sd_Streams (KGService_ServiceDesc E P)). \<forall>ins msgs.
       Stream_Intercept E True run ins msgs c s = (([], Some e), s1))"
proof -
  have refused: "unary_handler Q R m (unary_interceptor E True) data c s = (Inl e, s1) \<or>
      (\<exists>e1. unary_handler Q R m (unary_interceptor E True) data c s = (Inl e1, s))" for Q R m data
    using assms by (auto simp: unary_handler_def unary_interceptor_def Intercept_def split: sum.splits)
  have "Stream_Intercept E True run ins msgs c s = (([], Some e), s1)" for run ins msgs
    using assms by (simp add: Stream_Intercept_def)
  moreover have "\<exists>svc. s1 = past_filter svc s"
    using assms by (auto simp: authenticate_def Let_def split: sum.splits option.splits prod.splits if_splits)
  ultimately show ?thesis
    by (simp add: KGService_ServiceDesc_def CreateNode_Handler_def GetNode_Handler_def
      UpdateNode_Handler_def DeleteNode_Handler_def ListNodes_Handler_def CreateRelationship_Handler_def
      DeleteRelationship_Handler_def QueryGraph_Handler_def ReplayEvents_Handler_def ListSchemas_Handler_def refused)
qed

subsection \<open>A connection\<close>

text \<open>A connection without a network: the path names the handler.\<close>

definition direct_conn :: "(rpc_error \<Rightarrow> rpc_error) \<Rightarrow> grpc_call \<Rightarrow> 'b env \<Rightarrow> bool \<Rightarrow> 'b service_desc \<Rightarrow> 'b client_conn" where
  "direct_conn wire c E secured D = \<lparr>
     cc_Invoke = (\<lambda>path data s.
       case map_of (sd_Methods D) (drop (length (sd_ServiceName D) + 2) path) of
         None \<Rightarrow> (Inl (Status Unimplemented path), s)
       | Some h \<Rightarrow> (case h (unary_interceptor E secured) data c s of (r, s1) \<Rightarrow> (map_sum wire id r, s1))),
     cc_Stream = (\<lambda>path ins msgs s.
       case map_of (sd_Streams D) (drop (length (sd_ServiceName D) + 2) path) of
         None \<Rightarrow> (([], Some (Status Unimplemented path)), s)
       | Some run \<Rightarrow> (case Stream_Intercept E secured run ins (msgs, None) c s of ((ds, v), s1) \<Rightarrow> ((ds, map_option wire v), s1)))\<rparr>"

lemma direct_conn_serves:
  assumes "distinct (map fst (sd_Methods D))" "distinct (map fst (sd_Streams D))"
  shows "conn_serves wire c E secured D (direct_conn wire c E secured D)"
proof -
  have "map_of (sd_Methods D) name = Some h" if "(name, h) \<in> set (sd_Methods D)" for name h
    using assms(1) that by simp
  moreover have "map_of (sd_Streams D) name = Some run" if "(name, run) \<in> set (sd_Streams D)" for name run
    using assms(2) that by simp
  ultimately show ?thesis by (auto simp: conn_serves_def direct_conn_def)
qed

lemma descriptor_distinct:
  "distinct (map fst (sd_Methods (KGService_ServiceDesc E P)))" "distinct (map fst (sd_Streams (KGService_ServiceDesc E P)))"
  by (simp_all add: KGService_ServiceDesc_def)

lemma grpc_calls_arrive_witness:
  "let P = \<lparr>pp_value = \<lambda>v. [], pp_length = \<lambda>v. 0\<rparr>; c = rpc_call [''aos_7''];
     cc = direct_conn id c demo_env True (KGService_ServiceDesc demo_env P) in
   delivered id empty_codec (guarded demo_env True (\<lambda>c. G_DeleteNode demo_env c ''sat-1'') c demo_api) (C_DeleteNode cc ''sat-1'' demo_api)"
proof -
  let ?P = "\<lparr>pp_value = \<lambda>v. [], pp_length = \<lambda>v. 0\<rparr>" and ?c = "rpc_call [''aos_7'']"
  have serves: "conn_serves id ?c demo_env True (KGService_ServiceDesc demo_env ?P)
      (direct_conn id ?c demo_env True (KGService_ServiceDesc demo_env ?P))"
    by (rule direct_conn_serves) (rule descriptor_distinct)+
  note calls = grpc_calls_arrive [OF serves, of None "\<lparr>un_NodeId = [], un_Changes = []\<rparr>"
      "\<lparr>pc_FromNodeId = [], pc_ToNodeId = [], pc_RelType = [], pc_Properties = []\<rparr>" "[]" "[]"]
  show ?thesis unfolding Let_def by (rule calls [THEN conjunct2, THEN conjunct2, THEN conjunct2, THEN conjunct1]) simp_all
qed

lemma grpc_guarded_witness:
  "Stream_Intercept demo_env True (IngestTelemetry_Handler demo_env P) [] ([], None) (rpc_call []) demo_api =
     (([], Some (Status Unauthenticated ''missing token or API key'')), snd (authenticate demo_env True (rpc_call []) demo_api))"
proof -
  have "authenticate demo_env True (rpc_call []) demo_api =
      (Inl (Status Unauthenticated ''missing token or API key''), past_filter (Some one_clientdb) demo_api)"
    by (simp add: authenticate_def extractCredential_def rpc_call_def demo_api_def has_prefix_def)
  from grpc_guarded [OF this, of P] this show ?thesis by (auto simp: KGService_ServiceDesc_def)
qed

end
