(* ===== verification/NatsBus.thy ===== *)
theory NatsBus
  imports LocalBus JsonDoc Utf8
begin

text \<open>
  \<open>internal/core/nats_bus.go\<close>: the event bus over NATS JetStream. The server is outside; what it
  answers is an argument, and the stream it keeps is the list of its messages. As for the local
  bus there are two views: the methods as one caller runs them, and \<open>nats_step\<close>, publishers,
  consumers, readers and \<open>Close\<close> interleaved where they touch shared state.
\<close>

subsection \<open>Configuration\<close>

record jetStreamConfig =
  jc_StreamName :: string
  jc_MaxStreamAge :: duration
  jc_PushBufferSize :: int
  jc_AckWait :: duration
  jc_MaxDeliver :: int

definition jetStreamConfig_applyDefaults :: "jetStreamConfig \<Rightarrow> jetStreamConfig" where
  "jetStreamConfig_applyDefaults c =
     \<lparr>jc_StreamName = (if jc_StreamName c = [] then ''events'' else jc_StreamName c),
      jc_MaxStreamAge = (if jc_MaxStreamAge c \<le> 0 then 7 * 24 * hour else jc_MaxStreamAge c),
      jc_PushBufferSize = (if jc_PushBufferSize c \<le> 0 then 256 else jc_PushBufferSize c),
      jc_AckWait = (if jc_AckWait c \<le> 0 then 10 * second else jc_AckWait c),
      jc_MaxDeliver = (if jc_MaxDeliver c \<le> 0 then 10 else jc_MaxDeliver c)\<rparr>"

type_synonym NATSBusOption = "jetStreamConfig \<Rightarrow> jetStreamConfig"

definition WithStreamName :: "string \<Rightarrow> NATSBusOption" where
  "WithStreamName name c = c\<lparr>jc_StreamName := name\<rparr>"

definition WithMaxStreamAge :: "duration \<Rightarrow> NATSBusOption" where
  "WithMaxStreamAge d c = c\<lparr>jc_MaxStreamAge := d\<rparr>"

subsection \<open>Subjects and messages\<close>

text \<open>The loop over the runes of the type: invalid bytes become the replacement character.\<close>

definition replacement :: string where
  "replacement = [char_of (239 :: nat), char_of (191 :: nat), char_of (189 :: nat)]"

function clean_runes :: "string \<Rightarrow> string" where
  "clean_runes [] = []"
| "clean_runes (c # s) =
     (let n = rune_len (map of_char (c # s))
      in (if c \<in> {CHR '' '', CHR ''.'', CHR ''>'', CHR ''*''} then ''_''
          else if n = 1 \<and> 128 \<le> (of_char c :: nat) then replacement
          else take n (c # s)) @ clean_runes (drop n (c # s)))"
  by pat_completeness auto
termination
proof (relation "measure length")
  fix c s and n :: nat
  assume "n = rune_len (map of_char (c # s))"
  then show "(drop n (c # s), c # s) \<in> measure length"
    using rune_len_pos [of "map of_char (c # s)"] by simp
qed simp

definition cleanSubjectToken :: "string \<Rightarrow> string" where
  "cleanSubjectToken s = (if trim_space s = [] then ''unknown'' else clean_runes s)"

definition subjectForEvent :: "Event \<Rightarrow> string" where
  "subjectForEvent e = ''events.'' @ cleanSubjectToken (e_EventType e)"

record nats_msg =
  nm_Subject :: string
  nm_Header :: "(string \<times> string) list"
  nm_Data :: "json res"

definition event_message :: "Event \<Rightarrow> json \<Rightarrow> nats_msg" where
  "event_message e data =
     \<lparr>nm_Subject = subjectForEvent e,
      nm_Header = [(''Timestamp'', fmt_time (e_Timestamp e)), (''EventType'', e_EventType e), (''SourceNodeId'', e_SourceNodeID e)],
      nm_Data = Inr data\<rparr>"

subsection \<open>The bus\<close>

text \<open>
  The goroutine of a subscriber: its consumer is being created, it looks at \<open>done\<close>, waits in
  \<open>iter.Next\<close>, stands at the \<open>select\<close> with an event for the channel, or has returned. A call of
  \<open>unsubscribe\<close> deletes the subscriber, stops the iterator and closes the channel; \<open>Close\<close> marks
  the bus, signals and waits for the goroutines.
\<close>

datatype consumer_pc = Starting | AtTop | InNext | AtSend Event | Ended
datatype unsub_pc = Live | Delisted | IterStopped | ChClosed
datatype close_pc = BusOpen | BusMarked | BusDone | BusReturned

text \<open>\<open>ns_start\<close> is where in the stream the consumer begins, \<open>ns_next\<close> the message it is to get next.\<close>

record natsSubscriber =
  ns_types :: "EventType set"
  ns_cap :: nat
  ns_ch :: "Event list"
  ns_pc :: consumer_pc
  ns_start :: nat
  ns_next :: nat
  ns_unsub :: unsub_pc

text \<open>
  All subscribers there have been, in the order of their ids (so \<open>nextSubID\<close> is their number);
  those in state \<open>Live\<close> are in the map. \<open>nb_publishing\<close> are the messages whose publishers have
  passed the checks. A send on a closed channel panics, and that ends the program.
\<close>

record NATSBus =
  nb_cfg :: jetStreamConfig
  nb_registry :: SchemaRegistry
  nb_stream :: "nats_msg list"
  nb_subs :: "natsSubscriber list"
  nb_publishing :: "nats_msg list"
  nb_close :: close_pc
  nb_panicked :: bool

definition nb_closed :: "NATSBus \<Rightarrow> bool" where
  "nb_closed b \<longleftrightarrow> nb_close b \<noteq> BusOpen"

definition nb_done :: "NATSBus \<Rightarrow> bool" where
  "nb_done b \<longleftrightarrow> nb_close b \<in> {BusDone, BusReturned}"

text \<open>What a server answers while a bus is made.\<close>

record jetstream =
  js_Connect :: "string \<Rightarrow> verdict"
  js_New :: verdict
  js_Stream :: "string \<Rightarrow> nats_msg list res"
  js_not_found :: "err \<Rightarrow> bool"
  js_CreateStream :: "string \<Rightarrow> string list \<Rightarrow> duration \<Rightarrow> nats_msg list res"

definition ensureStream :: "jetstream \<Rightarrow> jetStreamConfig \<Rightarrow> nats_msg list res" where
  "ensureStream js cfg =
     (case js_Stream js (jc_StreamName cfg) of
        Inr st \<Rightarrow> Inr st
      | Inl e \<Rightarrow>
        (if \<not> js_not_found js e then Inl (Wrap ''get JetStream stream'' e)
         else case js_CreateStream js (jc_StreamName cfg) [''events.>''] (jc_MaxStreamAge cfg) of
                Inl e1 \<Rightarrow> Inl (Wrap ''create JetStream stream'' e1)
              | Inr st \<Rightarrow> Inr st))"

text \<open>The options are applied after the defaults.\<close>

definition NewNATSBus :: "jetstream \<Rightarrow> string \<Rightarrow> SchemaRegistry option \<Rightarrow> NATSBusOption list \<Rightarrow> NATSBus res" where
  "NewNATSBus js url registry opts =
     (let cfg = fold (\<lambda>opt c. opt c) opts
            (jetStreamConfig_applyDefaults
               \<lparr>jc_StreamName = [], jc_MaxStreamAge = 0, jc_PushBufferSize = 0, jc_AckWait = 0, jc_MaxDeliver = 0\<rparr>)
      in case js_Connect js url of
           Some e \<Rightarrow> Inl (Wrap (''connect NATS ('' @ url @ '')'') e)
         | None \<Rightarrow>
           (case js_New js of
              Some e \<Rightarrow> Inl (Wrap ''create JetStream context'' e)
            | None \<Rightarrow>
              (case ensureStream js cfg of
                 Inl e \<Rightarrow> Inl e
               | Inr st \<Rightarrow>
                 Inr \<lparr>nb_cfg = cfg, nb_registry = (case registry of None \<Rightarrow> NewSchemaRegistry | Some r \<Rightarrow> r),
                      nb_stream = st, nb_subs = [], nb_publishing = [], nb_close = BusOpen, nb_panicked = False\<rparr>)))"

subsection \<open>The methods as one caller runs them\<close>

text \<open>\<open>Publish\<close> up to the call of \<open>PublishMsg\<close>.\<close>

definition nats_prepare :: "(float64 \<Rightarrow> string) \<Rightarrow> ctx \<Rightarrow> Event option \<Rightarrow> NATSBus \<Rightarrow> nats_msg res" where
  "nats_prepare fmt c ev b =
     (case ev of
        None \<Rightarrow> Inl (Sentinel ErrNilEvent)
      | Some e0 \<Rightarrow>
        (if nb_closed b then Inl (Sentinel ErrBusClosed)
         else case ctx_err c of
                Some err \<Rightarrow> Inl err
              | None \<Rightarrow>
                (let e = with_trace c e0
                 in case Registry_Validate (nb_registry b) (Some e) of
                      Some err \<Rightarrow> Inl err
                    | None \<Rightarrow>
                      (case eventToMsgData fmt e of Inl err \<Rightarrow> Inl err | Inr data \<Rightarrow> Inr (event_message e data)))))"

text \<open>The server's answer to \<open>PublishMsg\<close> and the stream it leaves: a failed call may have stored the message.\<close>

definition NATSBus_Publish :: "(float64 \<Rightarrow> string) \<Rightarrow> (ctx \<Rightarrow> nats_msg \<Rightarrow> nats_msg list \<Rightarrow> verdict \<times> nats_msg list) \<Rightarrow>
    ctx \<Rightarrow> Event option \<Rightarrow> NATSBus \<Rightarrow> verdict \<times> NATSBus" where
  "NATSBus_Publish fmt PublishMsg c ev b =
     (case nats_prepare fmt c ev b of
        Inl err \<Rightarrow> (Some err, b)
      | Inr m \<Rightarrow>
        (case PublishMsg c m (nb_stream b) of
           (Some err, st) \<Rightarrow> (Some (Wrap ''publish to JetStream'' err), b\<lparr>nb_stream := st\<rparr>)
         | (None, st) \<Rightarrow> (None, b\<lparr>nb_stream := st\<rparr>)))"

definition new_natsSubscriber :: "SubscribeOptions \<Rightarrow> NATSBus \<Rightarrow> natsSubscriber" where
  "new_natsSubscriber opts b =
     \<lparr>ns_types = set (so_EventTypes opts),
      ns_cap = nat (if so_BufferSize opts \<le> 0 then jc_PushBufferSize (nb_cfg b) else so_BufferSize opts),
      ns_ch = [], ns_pc = Starting, ns_start = 0, ns_next = 0, ns_unsub = Live\<rparr>"

definition NATSBus_Ping :: "bool \<Rightarrow> NATSBus \<Rightarrow> verdict" where
  "NATSBus_Ping isConnected b = (if isConnected then None else Some (Errorf ''NATS not connected''))"

text \<open>What a consumer makes of a message: nothing, if it is no event or none of the types asked for.\<close>

definition consumer_event :: "natsSubscriber \<Rightarrow> nats_msg \<Rightarrow> Event option" where
  "consumer_event s m =
     (case msgDataToEvent (nm_Data m) of
        Inl _ \<Rightarrow> None
      | Inr e \<Rightarrow> if ns_types s \<noteq> {} \<and> e_EventType e \<notin> ns_types s then None else Some e)"

subsection \<open>Replay\<close>

definition matchReplay :: "Event \<Rightarrow> ReplayOptions \<Rightarrow> bool" where
  "matchReplay e opts \<longleftrightarrow>
     (ro_EventTypes opts \<noteq> [] \<longrightarrow> e_EventType e \<in> set (ro_EventTypes opts)) \<and>
     (ro_SourceNodeID opts \<noteq> [] \<longrightarrow> e_SourceNodeID e = ro_SourceNodeID opts) \<and>
     (case ro_StartTime opts of None \<Rightarrow> True | Some t \<Rightarrow> \<not> e_Timestamp e < t) \<and>
     (case ro_EndTime opts of None \<Rightarrow> True | Some t \<Rightarrow> \<not> t < e_Timestamp e)"

text \<open>The messages of a batch: what is collected, and whether the limit has been reached.\<close>

fun replay_batch :: "ReplayOptions \<Rightarrow> nats_msg list \<Rightarrow> Event list \<Rightarrow> Event list \<times> bool" where
  "replay_batch opts [] out = (out, False)"
| "replay_batch opts (m # ms) out =
     (case msgDataToEvent (nm_Data m) of
        Inl _ \<Rightarrow> replay_batch opts ms out
      | Inr e \<Rightarrow>
        (if \<not> matchReplay e opts then replay_batch opts ms out
         else (let out = out @ [e]
               in if 0 < ro_Limit opts \<and> ro_Limit opts \<le> int (length out) then (out, True)
                  else replay_batch opts ms out)))"

text \<open>
  The consumer of the server: \<open>expired\<close> is the error of the context at a turn, \<open>fetch\<close> answers
  \<open>FetchNoWait\<close> with the messages of the batch and the error met while reading it.
\<close>

partial_function (option) replay_loop :: "(int \<Rightarrow> 'c \<Rightarrow> (nats_msg list \<times> verdict) res \<times> 'c) \<Rightarrow> ('c \<Rightarrow> verdict) \<Rightarrow>
    ReplayOptions \<Rightarrow> int \<Rightarrow> 'c \<Rightarrow> Event list \<Rightarrow> (Event list \<times> verdict) option" where
  "replay_loop fetch expired opts batch cons out =
     (case expired cons of
        Some err \<Rightarrow> Some (out, Some err)
      | None \<Rightarrow>
        (case fetch batch cons of
           (Inl err, cons1) \<Rightarrow> Some (out, None)
         | (Inr (msgs, ferr), cons1) \<Rightarrow>
           (case replay_batch opts msgs out of
              (out1, reached) \<Rightarrow>
                (if reached then Some (out1, None)
                 else if ferr \<noteq> None \<or> msgs = [] then Some (out1, None)
                 else replay_loop fetch expired opts batch cons1 out1))))"

definition replay_batch_size :: "ReplayOptions \<Rightarrow> int" where
  "replay_batch_size opts = (if 0 < ro_Limit opts \<and> ro_Limit opts < 1000 then ro_Limit opts else 1000)"

text \<open>\<open>None\<close> is a replay that does not return.\<close>

definition NATSBus_Replay :: "(ctx \<Rightarrow> nats_msg list \<Rightarrow> 'c res) \<Rightarrow> (int \<Rightarrow> 'c \<Rightarrow> (nats_msg list \<times> verdict) res \<times> 'c) \<Rightarrow>
    ('c \<Rightarrow> verdict) \<Rightarrow> ctx \<Rightarrow> ReplayOptions \<Rightarrow> NATSBus \<Rightarrow> (Event list \<times> verdict) option" where
  "NATSBus_Replay consumer fetch expired c opts b =
     (if nb_closed b then Some ([], Some (Sentinel ErrBusClosed))
      else case ctx_err c of
             Some err \<Rightarrow> Some ([], Some err)
           | None \<Rightarrow>
             (case consumer c (nb_stream b) of
                Inl err \<Rightarrow> Some ([], Some (Wrap ''create replay consumer'' err))
              | Inr cons \<Rightarrow> replay_loop fetch expired opts (replay_batch_size opts) cons []))"

subsection \<open>Every event has a subject of the stream\<close>

text \<open>The stream takes \<open>events.>\<close>; a token must not be empty or hold a separator or a wildcard.\<close>

lemma long_rune_bytes:
  assumes "rune_len (b # bs) \<noteq> 1"
  shows "\<forall>x\<in>set (take (rune_len (b # bs)) (b # bs)). 128 \<le> x"
  using assms by (cases "b # bs" rule: rune_len.cases) (auto simp: cont_def second_ok_def split: if_splits)

lemma high_replacement: "x \<in> set replacement \<Longrightarrow> 128 \<le> (of_char x :: nat)"
  by (auto simp: replacement_def)

definition bad_chars :: "char set" where
  "bad_chars = {CHR '' '', CHR ''.'', CHR ''>'', CHR ''*''}"

definition legal_token :: "string \<Rightarrow> bool" where
  "legal_token t \<longleftrightarrow> t \<noteq> [] \<and> set t \<inter> bad_chars = {}"

declare clean_runes.simps(2) [simp del]

lemma bad_low: "128 \<le> (of_char x :: nat) \<Longrightarrow> x \<notin> bad_chars"
  unfolding bad_chars_def by (rule notI, elim insertE emptyE) simp_all

lemma clean_runes_legal: "x \<in> set (clean_runes s) \<Longrightarrow> x \<notin> bad_chars"
proof (induction s rule: clean_runes.induct)
  case (2 c s)
  let ?n = "rune_len (map of_char (c # s))"
  let ?h = "if c \<in> bad_chars then ''_'' else if ?n = 1 \<and> 128 \<le> (of_char c :: nat) then replacement else take ?n (c # s)"
  have "clean_runes (c # s) = ?h @ clean_runes (drop ?n (c # s))"
    unfolding bad_chars_def clean_runes.simps(2) Let_def by simp
  then consider "x \<in> set ?h" | "x \<in> set (clean_runes (drop ?n (c # s)))" using 2(2) by fastforce
  then show ?case
  proof cases
    case 1
    have "x \<notin> bad_chars" if "x \<in> set (take ?n (c # s))" "c \<notin> bad_chars"
    proof (cases "?n = 1")
      case False
      have "\<forall>x\<in>set (take ?n (map of_char (c # s))). 128 \<le> (x :: nat)"
        using long_rune_bytes [of "of_char c" "map of_char s"] False by simp
      then have "128 \<le> (of_char x :: nat)" using that(1) unfolding take_map by simp
      then show ?thesis by (rule bad_low)
    qed (use that in simp)
    moreover have "CHR ''_'' \<notin> bad_chars" by (simp add: bad_chars_def)
    ultimately show ?thesis using 1 high_replacement bad_low by (auto split: if_splits simp del: take_Suc_Cons)
  next
    case 2
    then show ?thesis using "2.IH" [OF refl] by blast
  qed
qed simp

lemma clean_runes_nonempty: "clean_runes (c # s) \<noteq> []"
  using rune_len_pos [of "map of_char (c # s)"]
  unfolding clean_runes.simps(2) Let_def append_is_Nil_conv by (auto simp: replacement_def)

theorem subject_legal: "\<exists>t. subjectForEvent e = ''events.'' @ t \<and> legal_token t"
proof -
  have "legal_token (cleanSubjectToken s)" for s
  proof (cases "trim_space s = []")
    case True
    then show ?thesis by (simp add: cleanSubjectToken_def legal_token_def bad_chars_def)
  next
    case False
    then obtain c s' where "s = c # s'" by (cases s) (auto simp: trim_space_def)
    then show ?thesis using False clean_runes_legal [of _ s] clean_runes_nonempty [of c s']
      unfolding cleanSubjectToken_def legal_token_def by auto
  qed
  then show ?thesis by (auto simp: subjectForEvent_def)
qed

subsection \<open>Replay reads the whole stream\<close>

text \<open>The two buses select the same events.\<close>

lemma matchReplay_eq: "matchReplay e opts = matchQuery e (replay_query opts) (set (ro_EventTypes opts))"
  by (auto simp: matchReplay_def matchQuery_def replay_query_def split: option.splits)

definition decoded :: "nats_msg list \<Rightarrow> Event list" where
  "decoded ms = List.map_filter (\<lambda>m. case msgDataToEvent (nm_Data m) of Inl _ \<Rightarrow> None | Inr e \<Rightarrow> Some e) ms"

lemma map_filter_append [simp]: "List.map_filter f (xs @ ys) = List.map_filter f xs @ List.map_filter f ys"
  by (simp add: List.map_filter_def)

lemma decoded_simps [simp]:
  "decoded [] = []"
  "decoded (m # ms) = (case msgDataToEvent (nm_Data m) of Inl _ \<Rightarrow> decoded ms | Inr e \<Rightarrow> e # decoded ms)"
  "decoded (ms @ ms') = decoded ms @ decoded ms'"
  by (simp_all add: decoded_def List.map_filter_simps split: sum.splits)

definition limited :: "ReplayOptions \<Rightarrow> Event list \<Rightarrow> Event list" where
  "limited opts es = (if 0 < ro_Limit opts then take (nat (ro_Limit opts)) es else es)"

abbreviation matching :: "ReplayOptions \<Rightarrow> nats_msg list \<Rightarrow> Event list" where
  "matching opts ms \<equiv> filter (\<lambda>e. matchReplay e opts) (decoded ms)"

definition below_limit :: "ReplayOptions \<Rightarrow> Event list \<Rightarrow> bool" where
  "below_limit opts out \<longleftrightarrow> (0 < ro_Limit opts \<longrightarrow> int (length out) < ro_Limit opts)"

lemma limited_below: "below_limit opts out \<Longrightarrow> limited opts out = out"
  unfolding limited_def below_limit_def by (cases "0 < ro_Limit opts") simp_all

lemma replay_batch_exact:
  assumes "below_limit opts out" "replay_batch opts ms out = (out1, reached)"
  shows "out1 = limited opts (out @ matching opts ms) \<and>
    (reached \<longrightarrow> 0 < ro_Limit opts \<and> nat (ro_Limit opts) \<le> length (out @ matching opts ms)) \<and>
    (\<not> reached \<longrightarrow> below_limit opts (out @ matching opts ms))"
  using assms
proof (induction opts ms out rule: replay_batch.induct)
  case (1 opts out)
  then show ?case by (simp add: limited_below)
next
  case (2 opts m ms out)
  show ?case
  proof (cases "msgDataToEvent (nm_Data m)")
    case (Inl err)
    then have "replay_batch opts ms out = (out1, reached)" "decoded (m # ms) = decoded ms" using 2(5) by simp_all
    then show ?thesis using 2(1) [OF Inl 2(4)] by simp
  next
    case (Inr e)
    show ?thesis
    proof (cases "matchReplay e opts")
      case False
      then have "replay_batch opts ms out = (out1, reached)" "matching opts (m # ms) = matching opts ms"
        using 2(5) Inr by simp_all
      then show ?thesis using 2(2) [OF Inr False 2(4)] by simp
    next
      case match: True
      show ?thesis
      proof (cases "0 < ro_Limit opts \<and> ro_Limit opts \<le> int (length (out @ [e]))")
        case True
        then have "out1 = out @ [e]" "reached" "nat (ro_Limit opts) = length (out @ [e])"
          using 2(4,5) Inr match by (auto simp: below_limit_def)
        then show ?thesis using True Inr match by (simp add: limited_def)
      next
        case False
        then have "below_limit opts (out @ [e])" by (auto simp: below_limit_def)
        moreover from False have "replay_batch opts ms (out @ [e]) = (out1, reached)"
          using 2(5) Inr match by (auto simp: Let_def split: if_splits)
        moreover have "out @ matching opts (m # ms) = (out @ [e]) @ matching opts ms" using Inr match by simp
        ultimately show ?thesis using 2(3) [OF Inr _ refl False] match by simp
      qed
    qed
  qed
qed

text \<open>
  A server that serves the rest of its stream: each fetch takes a part of what is left, at least
  one message while there is one, at most a batch, and the context lives on.
\<close>

definition serves :: "(int \<Rightarrow> 'c \<Rightarrow> (nats_msg list \<times> verdict) res \<times> 'c) \<Rightarrow> ('c \<Rightarrow> verdict) \<Rightarrow> ('c \<Rightarrow> nats_msg list) \<Rightarrow> bool" where
  "serves fetch expired rest \<longleftrightarrow>
     (\<forall>n cons. expired cons = None \<and>
        (0 < n \<longrightarrow> (\<exists>k cons1. fetch n cons = (Inr (take k (rest cons), None), cons1) \<and> rest cons1 = drop k (rest cons) \<and>
           (rest cons \<noteq> [] \<longrightarrow> 0 < k) \<and> k \<le> nat n)))"

lemma limited_append:
  "nat (ro_Limit opts) \<le> length xs \<Longrightarrow> 0 < ro_Limit opts \<Longrightarrow> limited opts (xs @ ys) = limited opts xs"
  by (auto simp: limited_def)

lemma replay_loop_exact:
  assumes "serves fetch expired rest" "0 < n" "below_limit opts out"
  shows "replay_loop fetch expired opts n cons out = Some (limited opts (out @ matching opts (rest cons)), None)"
  using assms(3)
proof (induction "length (rest cons)" arbitrary: cons out rule: less_induct)
  case less
  obtain k cons1 where f: "fetch n cons = (Inr (take k (rest cons), None), cons1)" "rest cons1 = drop k (rest cons)"
      "rest cons \<noteq> [] \<longrightarrow> 0 < k" "expired cons = None"
    using assms(1,2) unfolding serves_def by blast
  obtain out1 reached where batch: "replay_batch opts (take k (rest cons)) out = (out1, reached)" by fastforce
  note B = replay_batch_exact [OF less(2) batch]
  have all: "matching opts (rest cons) = matching opts (take k (rest cons)) @ matching opts (rest cons1)"
    unfolding f(2) filter_append [symmetric] decoded_simps(3) [symmetric] by simp
  consider "reached" | "\<not> reached" "rest cons = []" | "\<not> reached" "rest cons \<noteq> []" by blast
  then show ?case
  proof cases
    case 1
    let ?xs = "out @ matching opts (take k (rest cons))"
    have "limited opts (?xs @ matching opts (rest cons1)) = limited opts ?xs"
      by (rule limited_append) (use B 1 in simp_all)
    then have "limited opts (out @ matching opts (rest cons)) = out1" using B all by simp
    then show ?thesis using 1 f(1,4) batch by (subst replay_loop.simps) simp
  next
    case 2
    then show ?thesis using f(1,4) batch less(2) by (subst replay_loop.simps) (simp add: limited_below)
  next
    case 3
    then have "length (rest cons1) < length (rest cons)" "take k (rest cons) \<noteq> []" using f(2,3) by simp_all
    moreover have "out1 = out @ matching opts (take k (rest cons))" "below_limit opts out1"
      using B 3 limited_below by simp_all
    ultimately have "replay_loop fetch expired opts n cons1 out1 = Some (limited opts (out @ matching opts (rest cons)), None)"
      using less(1) [of cons1 out1] all by simp
    then show ?thesis using 3 f(1,4) batch \<open>take k (rest cons) \<noteq> []\<close> by (subst replay_loop.simps) simp
  qed
qed

text \<open>C4:
  A replay over JetStream returns, for whatever sizes the server cuts its batches into, and its
  result is the matching events of the stream, in order, up to the limit; no limit, or a negative
  one, returns them all.
\<close>

theorem nats_replay_exact:
  assumes "serves fetch expired rest" "consumer c (nb_stream b) = Inr cons" "rest cons = nb_stream b"
    and "nb_close b = BusOpen" "ctx_err c = None"
  shows "NATSBus_Replay consumer fetch expired c opts b =
    Some (limited opts (filter (\<lambda>e. matchReplay e opts) (decoded (nb_stream b))), None)"
proof -
  have "0 < replay_batch_size opts" "below_limit opts []" by (simp_all add: replay_batch_size_def below_limit_def)
  then show ?thesis
    using replay_loop_exact [OF assms(1), of "replay_batch_size opts" opts "[]" cons] assms(2-5)
    by (simp add: NATSBus_Replay_def nb_closed_def)
qed

text \<open>Once it has a consumer and while its context lives, a replay never reports an error: one
  that the server breaks off returns what it has, as if it were everything.\<close>

lemma replay_hides_errors:
  assumes "fetch n cons = (Inl err, cons1)" "expired cons = None"
  shows "replay_loop fetch expired opts n cons out = Some (out, None)"
  using assms by (subst replay_loop.simps) simp

subsection \<open>The concurrent program\<close>

datatype nats_label =
    NChecked nats_msg | NStored nats_msg | NRefused nats_msg | NForeign nats_msg
  | NRegistered nat | NStarted nat | NStartFailed nat
  | NLooped nat | NQuit nat | NTimedOut nat | NNextFailed nat | NIterClosed nat | NSkipped nat | NTaken nat Event
  | NSent nat Event | NGaveUp nat Event | NPanicked nat | NReceived nat Event
  | NDelisted nat | NIterStopped nat | NChClosed nat | NMarked | NSignalled | NReturned

definition set_sub :: "nat \<Rightarrow> natsSubscriber \<Rightarrow> NATSBus \<Rightarrow> NATSBus" where
  "set_sub k s b = b\<lparr>nb_subs := (nb_subs b)[k := s]\<rparr>"

text \<open>
  Other programs publish to the stream too. A publisher whose call failed may have stored its
  message. \<open>iter.Next\<close> gives the next message while there is one (also, of what it has buffered,
  after \<open>Stop\<close>), and returns an error when its iterator is stopped, when it times out and when the
  connection is lost.
\<close>

inductive nats_step :: "(float64 \<Rightarrow> string) \<Rightarrow> NATSBus \<Rightarrow> nats_label \<Rightarrow> NATSBus \<Rightarrow> bool" for fmt where
  n_check: "nats_prepare fmt c (Some e) b = Inr m \<Longrightarrow>
    nats_step fmt b (NChecked m) (b\<lparr>nb_publishing := m # nb_publishing b\<rparr>)"
| n_store: "m \<in> set (nb_publishing b) \<Longrightarrow>
    nats_step fmt b (NStored m) (b\<lparr>nb_publishing := remove1 m (nb_publishing b), nb_stream := nb_stream b @ [m]\<rparr>)"
| n_refuse: "m \<in> set (nb_publishing b) \<Longrightarrow>
    nats_step fmt b (NRefused m) (b\<lparr>nb_publishing := remove1 m (nb_publishing b)\<rparr>)"
| n_foreign: "nats_step fmt b (NForeign m) (b\<lparr>nb_stream := nb_stream b @ [m]\<rparr>)"
| n_register: "\<not> nb_closed b \<Longrightarrow> k = length (nb_subs b) \<Longrightarrow>
    nats_step fmt b (NRegistered k) (b\<lparr>nb_subs := nb_subs b @ [new_natsSubscriber opts b]\<rparr>)"
| n_start: "k < length (nb_subs b) \<Longrightarrow> nb_subs b ! k = s \<Longrightarrow> ns_pc s = Starting \<Longrightarrow> nb_close b \<noteq> BusReturned \<Longrightarrow>
    n = length (nb_stream b) \<Longrightarrow>
    nats_step fmt b (NStarted k) (set_sub k (s\<lparr>ns_pc := AtTop, ns_start := n, ns_next := n\<rparr>) b)"
| n_start_failed: "k < length (nb_subs b) \<Longrightarrow> nb_subs b ! k = s \<Longrightarrow> ns_pc s = Starting \<Longrightarrow>
    nats_step fmt b (NStartFailed k) (set_sub k (s\<lparr>ns_pc := Ended, ns_unsub := ChClosed\<rparr>) b)"
| n_loop: "k < length (nb_subs b) \<Longrightarrow> nb_subs b ! k = s \<Longrightarrow> ns_pc s = AtTop \<Longrightarrow> \<not> nb_done b \<Longrightarrow>
    nats_step fmt b (NLooped k) (set_sub k (s\<lparr>ns_pc := InNext\<rparr>) b)"
| n_quit: "k < length (nb_subs b) \<Longrightarrow> nb_subs b ! k = s \<Longrightarrow> ns_pc s = AtTop \<Longrightarrow> nb_done b \<Longrightarrow>
    nats_step fmt b (NQuit k) (set_sub k (s\<lparr>ns_pc := Ended\<rparr>) b)"
| n_timeout: "k < length (nb_subs b) \<Longrightarrow> nb_subs b ! k = s \<Longrightarrow> ns_pc s = InNext \<Longrightarrow>
    nats_step fmt b (NTimedOut k) (set_sub k (s\<lparr>ns_pc := AtTop\<rparr>) b)"
| n_next_failed: "k < length (nb_subs b) \<Longrightarrow> nb_subs b ! k = s \<Longrightarrow> ns_pc s = InNext \<Longrightarrow>
    nats_step fmt b (NNextFailed k) (set_sub k (s\<lparr>ns_pc := Ended\<rparr>) b)"
| n_iter_closed: "k < length (nb_subs b) \<Longrightarrow> nb_subs b ! k = s \<Longrightarrow> ns_pc s = InNext \<Longrightarrow> ns_unsub s \<in> {IterStopped, ChClosed} \<Longrightarrow>
    nats_step fmt b (NIterClosed k) (set_sub k (s\<lparr>ns_pc := Ended\<rparr>) b)"
| n_skip: "k < length (nb_subs b) \<Longrightarrow> nb_subs b ! k = s \<Longrightarrow> ns_pc s = InNext \<Longrightarrow> ns_next s < length (nb_stream b) \<Longrightarrow>
    consumer_event s (nb_stream b ! ns_next s) = None \<Longrightarrow>
    nats_step fmt b (NSkipped k) (set_sub k (s\<lparr>ns_pc := AtTop, ns_next := Suc (ns_next s)\<rparr>) b)"
| n_take: "k < length (nb_subs b) \<Longrightarrow> nb_subs b ! k = s \<Longrightarrow> ns_pc s = InNext \<Longrightarrow> ns_next s < length (nb_stream b) \<Longrightarrow>
    consumer_event s (nb_stream b ! ns_next s) = Some e \<Longrightarrow>
    nats_step fmt b (NTaken k e) (set_sub k (s\<lparr>ns_pc := AtSend e, ns_next := Suc (ns_next s)\<rparr>) b)"
| n_send: "k < length (nb_subs b) \<Longrightarrow> nb_subs b ! k = s \<Longrightarrow> ns_pc s = AtSend e \<Longrightarrow> ns_unsub s \<noteq> ChClosed \<Longrightarrow>
    length (ns_ch s) < ns_cap s \<Longrightarrow>
    nats_step fmt b (NSent k e) (set_sub k (s\<lparr>ns_pc := AtTop, ns_ch := ns_ch s @ [e]\<rparr>) b)"
| n_give_up: "k < length (nb_subs b) \<Longrightarrow> nb_subs b ! k = s \<Longrightarrow> ns_pc s = AtSend e \<Longrightarrow> nb_done b \<Longrightarrow>
    nats_step fmt b (NGaveUp k e) (set_sub k (s\<lparr>ns_pc := Ended\<rparr>) b)"
| n_panic: "k < length (nb_subs b) \<Longrightarrow> nb_subs b ! k = s \<Longrightarrow> ns_pc s = AtSend e \<Longrightarrow> ns_unsub s = ChClosed \<Longrightarrow>
    nats_step fmt b (NPanicked k) (b\<lparr>nb_panicked := True\<rparr>)"
| n_receive: "k < length (nb_subs b) \<Longrightarrow> nb_subs b ! k = s \<Longrightarrow> ns_ch s = e # rest \<Longrightarrow>
    nats_step fmt b (NReceived k e) (set_sub k (s\<lparr>ns_ch := rest\<rparr>) b)"
| n_delist: "k < length (nb_subs b) \<Longrightarrow> nb_subs b ! k = s \<Longrightarrow> ns_pc s \<noteq> Starting \<Longrightarrow> ns_unsub s = Live \<Longrightarrow>
    nats_step fmt b (NDelisted k) (set_sub k (s\<lparr>ns_unsub := Delisted\<rparr>) b)"
| n_iter_stop: "k < length (nb_subs b) \<Longrightarrow> nb_subs b ! k = s \<Longrightarrow> ns_unsub s = Delisted \<Longrightarrow>
    nats_step fmt b (NIterStopped k) (set_sub k (s\<lparr>ns_unsub := IterStopped\<rparr>) b)"
| n_ch_close: "k < length (nb_subs b) \<Longrightarrow> nb_subs b ! k = s \<Longrightarrow> ns_unsub s = IterStopped \<Longrightarrow>
    nats_step fmt b (NChClosed k) (set_sub k (s\<lparr>ns_unsub := ChClosed\<rparr>) b)"
| n_mark: "nb_close b = BusOpen \<Longrightarrow> nats_step fmt b NMarked (b\<lparr>nb_close := BusMarked\<rparr>)"
| n_signal: "nb_close b = BusMarked \<Longrightarrow> nats_step fmt b NSignalled (b\<lparr>nb_close := BusDone\<rparr>)"
| n_return: "nb_close b = BusDone \<Longrightarrow> \<forall>s\<in>set (nb_subs b). ns_pc s \<in> {Starting, Ended} \<Longrightarrow>
    nats_step fmt b NReturned (b\<lparr>nb_close := BusReturned\<rparr>)"

inductive nats_run :: "(float64 \<Rightarrow> string) \<Rightarrow> NATSBus \<Rightarrow> nats_label list \<Rightarrow> NATSBus \<Rightarrow> bool" for fmt where
  nrun_empty: "nats_run fmt b [] b"
| nrun_step: "nats_run fmt b tr b1 \<Longrightarrow> \<not> nb_panicked b1 \<Longrightarrow> nats_step fmt b1 l b2 \<Longrightarrow> nats_run fmt b (tr @ [l]) b2"

inductive_cases nats_stepE: "nats_step fmt b l b'"

subsection \<open>What a subscriber gets\<close>

fun nreceived_of :: "nat \<Rightarrow> nats_label \<Rightarrow> Event list" where
  "nreceived_of k (NReceived j e) = (if j = k then [e] else [])" | "nreceived_of k _ = []"

fun stored_of :: "nats_label \<Rightarrow> nats_msg list" where
  "stored_of (NStored m) = [m]" | "stored_of (NForeign m) = [m]" | "stored_of _ = []"

definition nseen :: "('l \<Rightarrow> 'a list) \<Rightarrow> 'l list \<Rightarrow> 'a list" where
  "nseen f tr = concat (map f tr)"

lemma nseen_simps [simp]: "nseen f [] = []" "nseen f (tr @ [l]) = nseen f tr @ f l"
  by (simp_all add: nseen_def)

definition in_hand :: "natsSubscriber \<Rightarrow> Event list" where
  "in_hand s = (case ns_pc s of AtSend e \<Rightarrow> [e] | _ \<Rightarrow> [])"

lemma in_hand_simps [simp]:
  "ns_pc s = AtSend e \<Longrightarrow> in_hand s = [e]" "(\<And>e. ns_pc s \<noteq> AtSend e) \<Longrightarrow> in_hand s = []"
  by (auto simp: in_hand_def split: consumer_pc.splits)

text \<open>The messages a consumer has been given, and the events it made of them.\<close>

definition due :: "nats_msg list \<Rightarrow> natsSubscriber \<Rightarrow> Event list" where
  "due stream s = List.map_filter (consumer_event s) (drop (ns_start s) (take (ns_next s) stream))"

definition nsub_inv :: "nats_label list \<Rightarrow> nats_msg list \<Rightarrow> nat \<Rightarrow> natsSubscriber \<Rightarrow> bool" where
  "nsub_inv tr stream k s \<longleftrightarrow>
     ns_start s \<le> ns_next s \<and> ns_next s \<le> length stream \<and> length (ns_ch s) \<le> ns_cap s \<and>
     (\<exists>lost. nseen (nreceived_of k) tr @ ns_ch s @ in_hand s @ lost = due stream s \<and>
        (ns_pc s \<noteq> Ended \<longrightarrow> lost = []) \<and> length lost \<le> 1)"

definition nats_inv :: "nats_msg list \<Rightarrow> nats_label list \<Rightarrow> NATSBus \<Rightarrow> bool" where
  "nats_inv stream0 tr b \<longleftrightarrow>
     nb_stream b = stream0 @ nseen stored_of tr \<and>
     (\<forall>k < length (nb_subs b). nsub_inv tr (nb_stream b) k (nb_subs b ! k) \<and>
        (ns_pc (nb_subs b ! k) = Starting \<longrightarrow> ns_ch (nb_subs b ! k) = [] \<and> nseen (nreceived_of k) tr = [] \<and>
            ns_start (nb_subs b ! k) = ns_next (nb_subs b ! k) \<and> ns_unsub (nb_subs b ! k) = Live)) \<and>
     (\<forall>k \<ge> length (nb_subs b). nseen (nreceived_of k) tr = [])"

lemma consumer_event_frame [simp]:
  "consumer_event (s\<lparr>ns_pc := x\<rparr>) = consumer_event s" "consumer_event (s\<lparr>ns_ch := es\<rparr>) = consumer_event s"
  "consumer_event (s\<lparr>ns_next := n\<rparr>) = consumer_event s" "consumer_event (s\<lparr>ns_start := n\<rparr>) = consumer_event s"
  "consumer_event (s\<lparr>ns_unsub := u\<rparr>) = consumer_event s"
  by (simp_all add: fun_eq_iff consumer_event_def cong: sum.case_cong)

lemma due_frame [simp]:
  "due st (s\<lparr>ns_pc := x\<rparr>) = due st s" "due st (s\<lparr>ns_ch := es\<rparr>) = due st s" "due st (s\<lparr>ns_unsub := u\<rparr>) = due st s"
  by (simp_all add: due_def)

lemma due_start [simp]: "ns_start s = ns_next s \<Longrightarrow> due st s = []"
  by (simp add: due_def List.map_filter_simps)

lemma due_Suc:
  assumes "ns_start s \<le> ns_next s" "ns_next s < length st"
  shows "due st (s\<lparr>ns_pc := x, ns_next := Suc (ns_next s)\<rparr>) = due st s @ (case consumer_event s (st ! ns_next s) of None \<Rightarrow> [] | Some e \<Rightarrow> [e])"
  using assms by (simp add: due_def take_Suc_conv_app_nth List.map_filter_simps split: option.splits)

lemma due_grow: "ns_next s \<le> length st \<Longrightarrow> due (st @ ms) s = due st s"
  by (simp add: due_def)

lemma nsub_inv_grow:
  "nsub_inv tr st k s \<Longrightarrow> nreceived_of k l = [] \<Longrightarrow> nsub_inv (tr @ [l]) (st @ ms) k s"
  by (auto simp: nsub_inv_def due_grow)

lemmas nsub_inv_keep = nsub_inv_grow [where ms = "[]", simplified]

lemma nats_inv_grow:
  assumes "nats_inv st0 tr b" "\<And>k. nreceived_of k l = []"
    and "nb_stream b' = nb_stream b @ stored_of l" "nb_subs b' = nb_subs b"
  shows "nats_inv st0 (tr @ [l]) b'"
proof -
  have "nsub_inv (tr @ [l]) (nb_stream b') k s" if "nsub_inv tr (nb_stream b) k s" for k s
    using nsub_inv_grow [OF that assms(2)] assms(3) by simp
  then show ?thesis using assms unfolding nats_inv_def by auto
qed

lemma nats_inv_set_sub:
  assumes inv: "nats_inv st0 tr b" and k: "k < length (nb_subs b)"
    and l: "stored_of l = []" "\<And>j. j \<noteq> k \<Longrightarrow> nreceived_of j l = []"
    and s: "nsub_inv (tr @ [l]) (nb_stream b) k s" "ns_pc s \<noteq> Starting"
  shows "nats_inv st0 (tr @ [l]) (set_sub k s b)"
  using assms nsub_inv_keep [of tr "nb_stream b"] unfolding nats_inv_def set_sub_def
  by (auto simp: nth_list_update)

lemma nats_inv_sub:
  assumes "nats_inv st0 tr b" "k < length (nb_subs b)" "nb_subs b ! k = s"
  shows "nsub_inv tr (nb_stream b) k s" "ns_pc s = Starting \<Longrightarrow>
    ns_ch s = [] \<and> nseen (nreceived_of k) tr = [] \<and> ns_start s = ns_next s \<and> ns_unsub s = Live"
  using assms by (auto simp: nats_inv_def)

text \<open>Steps of a consumer between events, and those of \<open>unsubscribe\<close>.\<close>

lemma nats_inv_pc:
  assumes "nats_inv st0 tr b" "k < length (nb_subs b)" "nb_subs b ! k = s" "stored_of l = []" "\<And>j. nreceived_of j l = []"
    and "ns_pc s = AtTop \<or> ns_pc s = InNext" "x = AtTop \<or> x = InNext \<or> x = Ended"
  shows "nats_inv st0 (tr @ [l]) (set_sub k (s\<lparr>ns_pc := x\<rparr>) b)"
proof -
  have "in_hand s = []" "in_hand (s\<lparr>ns_pc := x\<rparr>) = []" using assms(6,7) by auto
  then have "nsub_inv (tr @ [l]) (nb_stream b) k (s\<lparr>ns_pc := x\<rparr>)"
    using nats_inv_sub(1) [OF assms(1-3)] assms(5,6) by (auto simp: nsub_inv_def)
  then show ?thesis using assms by (intro nats_inv_set_sub) auto
qed

lemma nats_inv_unsub:
  assumes "nats_inv st0 tr b" "k < length (nb_subs b)" "nb_subs b ! k = s" "stored_of l = []" "\<And>j. nreceived_of j l = []"
    and "ns_pc s \<noteq> Starting \<or> ns_unsub s \<noteq> Live"
  shows "nats_inv st0 (tr @ [l]) (set_sub k (s\<lparr>ns_unsub := x\<rparr>) b)"
proof -
  have "in_hand (s\<lparr>ns_unsub := x\<rparr>) = in_hand s" by (simp add: in_hand_def)
  then have "nsub_inv (tr @ [l]) (nb_stream b) k (s\<lparr>ns_unsub := x\<rparr>)"
    using nats_inv_sub(1) [OF assms(1-3)] assms(5) by (auto simp: nsub_inv_def)
  moreover have "ns_pc s \<noteq> Starting" using nats_inv_sub(2) [OF assms(1-3)] assms(6) by auto
  ultimately show ?thesis using assms by (intro nats_inv_set_sub) auto
qed

lemma nats_inv_step:
  assumes "nats_step fmt b l b'" "nats_inv st0 tr b"
  shows "nats_inv st0 (tr @ [l]) b'"
  using assms(1)
proof (cases rule: nats_step.cases)
  case (n_register k opts)
  have "nsub_inv (tr @ [l]) (nb_stream b) k (new_natsSubscriber opts b)"
    using assms(2) n_register by (simp add: nsub_inv_def new_natsSubscriber_def nats_inv_def)
  then show ?thesis using assms(2) n_register nsub_inv_keep [of tr "nb_stream b" _ _ l]
    by (auto simp: nats_inv_def nth_append less_Suc_eq new_natsSubscriber_def)
next
  case (n_start k s n)
  note I = nats_inv_sub [OF assms(2) n_start(3,4)]
  have "nsub_inv (tr @ [l]) (nb_stream b) k (s\<lparr>ns_pc := AtTop, ns_start := n, ns_next := n\<rparr>)"
    using I(2) n_start by (simp add: nsub_inv_def)
  then show ?thesis unfolding n_start(2) by - (rule nats_inv_set_sub [OF assms(2) n_start(3)], simp_all add: n_start(1))
next
  case (n_start_failed k s)
  note I = nats_inv_sub [OF assms(2) n_start_failed(3,4)]
  have "nsub_inv (tr @ [l]) (nb_stream b) k (s\<lparr>ns_pc := Ended, ns_unsub := ChClosed\<rparr>)"
    using I n_start_failed by (simp add: nsub_inv_def)
  then show ?thesis unfolding n_start_failed(2)
    by - (rule nats_inv_set_sub [OF assms(2) n_start_failed(3)], simp_all add: n_start_failed(1))
next
  case (n_skip k s)
  note I = nats_inv_sub [OF assms(2) n_skip(3,4)]
  have "nsub_inv (tr @ [l]) (nb_stream b) k (s\<lparr>ns_pc := AtTop, ns_next := Suc (ns_next s)\<rparr>)"
    using I n_skip due_Suc [of s "nb_stream b"] by (auto simp: nsub_inv_def)
  then show ?thesis unfolding n_skip(2) by - (rule nats_inv_set_sub [OF assms(2) n_skip(3)], simp_all add: n_skip(1))
next
  case (n_take k s e)
  note I = nats_inv_sub [OF assms(2) n_take(3,4)]
  have "nsub_inv (tr @ [l]) (nb_stream b) k (s\<lparr>ns_pc := AtSend e, ns_next := Suc (ns_next s)\<rparr>)"
    using I n_take due_Suc [of s "nb_stream b"] by (auto simp: nsub_inv_def)
  then show ?thesis unfolding n_take(2) by - (rule nats_inv_set_sub [OF assms(2) n_take(3)], simp_all add: n_take(1))
next
  case (n_send k s e)
  note I = nats_inv_sub [OF assms(2) n_send(3,4)]
  have "nsub_inv (tr @ [l]) (nb_stream b) k (s\<lparr>ns_pc := AtTop, ns_ch := ns_ch s @ [e]\<rparr>)"
    using I n_send by (auto simp: nsub_inv_def)
  then show ?thesis unfolding n_send(2) by - (rule nats_inv_set_sub [OF assms(2) n_send(3)], simp_all add: n_send(1))
next
  case (n_give_up k s e)
  note I = nats_inv_sub [OF assms(2) n_give_up(3,4)]
  have "nsub_inv (tr @ [l]) (nb_stream b) k (s\<lparr>ns_pc := Ended\<rparr>)"
    using I n_give_up by (auto simp: nsub_inv_def)
  then show ?thesis unfolding n_give_up(2) by - (rule nats_inv_set_sub [OF assms(2) n_give_up(3)], simp_all add: n_give_up(1))
next
  case (n_receive k s e rest)
  note I = nats_inv_sub [OF assms(2) n_receive(3,4)]
  have "ns_pc s \<noteq> Starting" using I n_receive by auto
  moreover have "nsub_inv (tr @ [l]) (nb_stream b) k (s\<lparr>ns_ch := rest\<rparr>)"
    using I n_receive by (auto simp: nsub_inv_def in_hand_def)
  ultimately show ?thesis unfolding n_receive(2)
    by - (rule nats_inv_set_sub [OF assms(2) n_receive(3)], simp_all add: n_receive(1))
qed (use assms(2) in \<open>auto intro: nats_inv_grow nats_inv_pc nats_inv_unsub\<close>)

lemma nats_inv_run:
  "nats_run fmt b0 tr b \<Longrightarrow> nb_subs b0 = [] \<Longrightarrow> nats_inv (nb_stream b0) tr b"
proof (induction rule: nats_run.induct)
  case (nrun_empty b)
  then show ?case by (simp add: nats_inv_def)
qed (auto intro: nats_inv_step)

text \<open>C3:
  Over JetStream a slow reader loses nothing: in every interleaving of publishers (of this program
  and others), consumers, readers, cancellations and \<open>Close\<close>, what a subscriber has received, what
  waits in its channel and the event in its consumer's hand are, in order, exactly the matching
  events of the messages its consumer has gone through since it started; only a consumer ended by
  \<open>Close\<close> may have let go of one event. No channel overflows, and the stream is what was published.
\<close>

theorem nats_delivery_exact:
  assumes "nats_run fmt b0 tr b" "nb_subs b0 = []" "k < length (nb_subs b)" "s = nb_subs b ! k"
  shows "\<exists>lost. nseen (nreceived_of k) tr @ ns_ch s @ in_hand s @ lost =
      List.map_filter (consumer_event s) (drop (ns_start s) (take (ns_next s) (nb_stream b))) \<and>
    (ns_pc s \<noteq> Ended \<longrightarrow> lost = []) \<and> length lost \<le> 1 \<and> length (ns_ch s) \<le> ns_cap s \<and>
    nb_stream b = nb_stream b0 @ nseen stored_of tr"
  using nats_inv_run [OF assms(1,2)] assms(3,4) by (auto simp: nats_inv_def nsub_inv_def due_def)

subsection \<open>Cancelling a subscription whose channel is full\<close>

lemma nats_prepare_cong:
  assumes "nb_close b = nb_close b'" "nb_registry b = nb_registry b'"
  shows "nats_prepare fmt c ev b = nats_prepare fmt c ev b'"
  unfolding nats_prepare_def nb_closed_def assms ..

lemma nrun_append: "nats_run fmt b1 tr b2 \<Longrightarrow> nats_run fmt b0 tr0 b1 \<Longrightarrow> nats_run fmt b0 (tr0 @ tr) b2"
proof (induction rule: nats_run.induct)
  case (nrun_step b tr b1 l b2)
  then show ?case using nats_run.nrun_step [of fmt b0 "tr0 @ tr" b1 l b2] by simp
qed simp

lemma nrun_one: "\<not> nb_panicked b \<Longrightarrow> nats_step fmt b l b' \<Longrightarrow> nats_run fmt b [l] b'"
  using nrun_step [OF nrun_empty] by force

text \<open>One subscriber on a bus.\<close>

definition with_sub :: "NATSBus \<Rightarrow> nats_msg list \<Rightarrow> natsSubscriber \<Rightarrow> NATSBus" where
  "with_sub b ms s = b\<lparr>nb_stream := nb_stream b @ ms, nb_subs := [s]\<rparr>"

lemma with_sub_simps [simp]:
  "nb_subs (with_sub b ms s) = [s]" "nb_stream (with_sub b ms s) = nb_stream b @ ms"
  "nb_close (with_sub b ms s) = nb_close b" "nb_registry (with_sub b ms s) = nb_registry b"
  "nb_panicked (with_sub b ms s) = nb_panicked b" "nb_publishing (with_sub b ms s) = nb_publishing b"
  "set_sub 0 s' (with_sub b ms s) = with_sub b ms s'" "nb_done (with_sub b ms s) = nb_done b"
  by (simp_all add: with_sub_def set_sub_def nb_done_def)

lemma publish_run:
  assumes "nats_prepare fmt c (Some e) b = Inr m" "\<not> nb_panicked b"
  shows "nats_run fmt (with_sub b ms s) [NChecked m, NStored m] (with_sub b (ms @ [m]) s)"
proof -
  let ?b = "with_sub b ms s"
  have "nats_prepare fmt c (Some e) ?b = Inr m" using assms(1) nats_prepare_cong [of ?b b] by simp
  then have 1: "nats_step fmt ?b (NChecked m) (?b\<lparr>nb_publishing := m # nb_publishing ?b\<rparr>)" by (rule n_check)
  let ?b1 = "?b\<lparr>nb_publishing := m # nb_publishing ?b\<rparr>"
  have "?b1\<lparr>nb_publishing := remove1 m (nb_publishing ?b1), nb_stream := nb_stream ?b1 @ [m]\<rparr> = with_sub b (ms @ [m]) s"
    by (rule NATSBus.equality) (simp_all add: with_sub_def)
  then have "nats_step fmt ?b1 (NStored m) (with_sub b (ms @ [m]) s)"
    using n_store [of m ?b1 fmt] by simp
  then show ?thesis using nrun_step [OF nrun_one [OF _ 1]] assms(2) by force
qed

text \<open>A consumer that finds a message of interest, and one that delivers it.\<close>

lemma take_run:
  assumes "\<not> nb_panicked b" "\<not> nb_done b" "ns_pc s = AtTop" "ns_next s < length (nb_stream b @ ms)"
    and "consumer_event s ((nb_stream b @ ms) ! ns_next s) = Some e"
  shows "nats_run fmt (with_sub b ms s) [NLooped 0, NTaken 0 e]
    (with_sub b ms (s\<lparr>ns_pc := AtSend e, ns_next := Suc (ns_next s)\<rparr>))"
proof -
  let ?b = "with_sub b ms s" and ?b1 = "with_sub b ms (s\<lparr>ns_pc := InNext\<rparr>)"
  have 1: "nats_step fmt ?b (NLooped 0) ?b1" using n_loop [of 0 ?b s fmt] assms by simp
  have "nats_step fmt ?b1 (NTaken 0 e) (with_sub b ms (s\<lparr>ns_pc := AtSend e, ns_next := Suc (ns_next s)\<rparr>))"
    using n_take [of 0 ?b1 "s\<lparr>ns_pc := InNext\<rparr>" e fmt] assms by simp
  then show ?thesis using nrun_step [OF nrun_one [OF _ 1]] assms(1) by force
qed

lemma send_run:
  assumes "\<not> nb_panicked b" "ns_pc s = AtSend e" "ns_unsub s = Live" "length (ns_ch s) < ns_cap s"
  shows "nats_run fmt (with_sub b ms s) [NSent 0 e] (with_sub b ms (s\<lparr>ns_pc := AtTop, ns_ch := ns_ch s @ [e]\<rparr>))"
  using n_send [of 0 "with_sub b ms s" s e fmt] assms by (intro nrun_one) simp_all

text \<open>A consumer at the \<open>select\<close> while its subscription is cancelled: it panics.\<close>

lemma cancel_run:
  assumes "\<not> nb_panicked b" "ns_pc s = AtSend e" "ns_unsub s = Live"
  shows "nats_run fmt (with_sub b ms s) [NDelisted 0, NIterStopped 0, NChClosed 0, NPanicked 0]
    (with_sub b ms (s\<lparr>ns_unsub := ChClosed\<rparr>) \<lparr>nb_panicked := True\<rparr>)"
proof -
  let ?b = "\<lambda>u. with_sub b ms (s\<lparr>ns_unsub := u\<rparr>)"
  have 1: "nats_step fmt (with_sub b ms s) (NDelisted 0) (?b Delisted)"
    using n_delist [of 0 "with_sub b ms s" s fmt] assms by simp
  have 2: "nats_step fmt (?b Delisted) (NIterStopped 0) (?b IterStopped)"
    using n_iter_stop [of 0 "?b Delisted" _ fmt] by simp
  have 3: "nats_step fmt (?b IterStopped) (NChClosed 0) (?b ChClosed)"
    using n_ch_close [of 0 "?b IterStopped" _ fmt] by simp
  have 4: "nats_step fmt (?b ChClosed) (NPanicked 0) (?b ChClosed\<lparr>nb_panicked := True\<rparr>)"
    using n_panic [of 0 "?b ChClosed" _ e fmt] assms(2) by simp
  show ?thesis using nrun_step [OF nrun_step [OF nrun_step [OF nrun_one [OF _ 1] _ 2] _ 3] _ 4] assms(1) by force
qed

text \<open>A subscription of all types with a buffer of \<open>n\<close>.\<close>

lemma start_run:
  assumes "nb_close b = BusOpen" "nb_subs b = []" "\<not> nb_panicked b" "0 < n"
  shows "nats_run fmt b [NRegistered 0, NStarted 0]
    (with_sub b [] \<lparr>ns_types = {}, ns_cap = n, ns_ch = [], ns_pc = AtTop, ns_start = length (nb_stream b),
       ns_next = length (nb_stream b), ns_unsub = Live\<rparr>)"
proof -
  let ?o = "\<lparr>so_EventTypes = [], so_BufferSize = int n\<rparr>" and ?N = "length (nb_stream b)"
  let ?s = "new_natsSubscriber ?o b"
  have s: "?s = \<lparr>ns_types = {}, ns_cap = n, ns_ch = [], ns_pc = Starting, ns_start = 0, ns_next = 0, ns_unsub = Live\<rparr>"
    using assms(4) by (simp add: new_natsSubscriber_def)
  have "nats_step fmt b (NRegistered 0) (with_sub b [] ?s)"
    using n_register [of b 0 fmt ?o] assms(1,2) by (simp add: with_sub_def nb_closed_def)
  moreover have "nats_step fmt (with_sub b [] ?s) (NStarted 0) (with_sub b [] (?s\<lparr>ns_pc := AtTop, ns_start := ?N, ns_next := ?N\<rparr>))"
    using n_start [of 0 "with_sub b [] ?s" ?s ?N fmt] assms(1) s by simp
  ultimately have "nats_run fmt b [NRegistered 0, NStarted 0] (with_sub b [] (?s\<lparr>ns_pc := AtTop, ns_start := ?N, ns_next := ?N\<rparr>))"
    using nrun_step [OF nrun_one] assms(3) by force
  then show ?thesis by (simp add: s)
qed

text \<open>A subscriber with a buffer of one that has been given the first of two messages.\<close>

definition full_sub :: "NATSBus \<Rightarrow> Event \<Rightarrow> natsSubscriber" where
  "full_sub b e =
     \<lparr>ns_types = {}, ns_cap = 1, ns_ch = [e], ns_pc = AtTop, ns_start = length (nb_stream b),
      ns_next = Suc (length (nb_stream b)), ns_unsub = Live\<rparr>"

lemma fill_run:
  assumes "nb_close b = BusOpen" "nb_subs b = []" "\<not> nb_panicked b"
    and "nats_prepare fmt c (Some e) b = Inr m" "msgDataToEvent (nm_Data m) = Inr e1"
  shows "nats_run fmt b
      [NRegistered 0, NStarted 0, NChecked m, NStored m, NChecked m, NStored m, NLooped 0, NTaken 0 e1, NSent 0 e1]
    (with_sub b [m, m] (full_sub b e1))"
proof -
  let ?N = "length (nb_stream b)"
  let ?s = "\<lparr>ns_types = {}, ns_cap = 1, ns_ch = [], ns_pc = AtTop, ns_start = ?N, ns_next = ?N, ns_unsub = Live\<rparr>"
  note p = publish_run [OF assms(4,3)]
  have r1: "nats_run fmt b [NRegistered 0, NStarted 0] (with_sub b [] ?s)" by (rule start_run [OF assms(1-3)]) simp
  have r2: "nats_run fmt (with_sub b [] ?s) [NChecked m, NStored m, NChecked m, NStored m] (with_sub b [m, m] ?s)"
    using nrun_append [OF p [of "[m]" ?s] p [of "[]" ?s, unfolded append_Nil]] by simp
  have r3: "nats_run fmt (with_sub b [m, m] ?s) [NLooped 0, NTaken 0 e1]
      (with_sub b [m, m] (?s\<lparr>ns_pc := AtSend e1, ns_next := Suc ?N\<rparr>))"
    using take_run [OF assms(3), of ?s "[m, m]" e1 fmt] assms(1,5) by (simp add: nb_done_def consumer_event_def nth_append)
  have r4: "nats_run fmt (with_sub b [m, m] (?s\<lparr>ns_pc := AtSend e1, ns_next := Suc ?N\<rparr>)) [NSent 0 e1]
      (with_sub b [m, m] (full_sub b e1))"
    using send_run [OF assms(3), of "?s\<lparr>ns_pc := AtSend e1, ns_next := Suc ?N\<rparr>" e1 fmt "[m, m]"]
    by (simp add: full_sub_def)
  show ?thesis using nrun_append [OF r4 nrun_append [OF r3 nrun_append [OF r2 r1]]] by simp
qed

text \<open>C5:
  Cancelling a subscription while an event is on its way to it brings the program down: with any
  buffer size, and its channel empty, the consumer that has taken a message from the iterator stands
  at a send whose channel \<open>unsubscribe\<close> closes, and a send on a closed channel panics.
\<close>

theorem nats_unsubscribe_panics:
  assumes "nb_close b = BusOpen" "nb_subs b = []" "\<not> nb_panicked b" "0 < n"
    and "nats_prepare fmt c (Some e) b = Inr m" "msgDataToEvent (nm_Data m) = Inr e1"
  shows "\<exists>b1. nats_run fmt b
      [NRegistered 0, NStarted 0, NChecked m, NStored m, NLooped 0, NTaken 0 e1, NDelisted 0, NIterStopped 0, NChClosed 0,
       NPanicked 0] b1 \<and>
    nb_panicked b1 \<and> nb_close b1 = BusOpen \<and> ns_cap (nb_subs b1 ! 0) = n \<and> ns_ch (nb_subs b1 ! 0) = []"
proof -
  let ?N = "length (nb_stream b)"
  let ?s = "\<lambda>pc next. \<lparr>ns_types = {}, ns_cap = n, ns_ch = [], ns_pc = pc, ns_start = ?N, ns_next = next, ns_unsub = Live\<rparr>"
  let ?t = "?s (AtSend e1) (Suc ?N)"
  let ?b1 = "with_sub b [m] (?t\<lparr>ns_unsub := ChClosed\<rparr>)\<lparr>nb_panicked := True\<rparr>"
  have r1: "nats_run fmt b [NRegistered 0, NStarted 0] (with_sub b [] (?s AtTop ?N))"
    by (rule start_run [OF assms(1-4)])
  have r2: "nats_run fmt (with_sub b [] (?s AtTop ?N)) [NChecked m, NStored m] (with_sub b [m] (?s AtTop ?N))"
    using publish_run [OF assms(5,3), of "[]"] by simp
  have r3: "nats_run fmt (with_sub b [m] (?s AtTop ?N)) [NLooped 0, NTaken 0 e1] (with_sub b [m] ?t)"
    using take_run [OF assms(3), of "?s AtTop ?N" "[m]" e1 fmt] assms(1,6)
    by (simp add: nb_done_def consumer_event_def)
  have r4: "nats_run fmt (with_sub b [m] ?t) [NDelisted 0, NIterStopped 0, NChClosed 0, NPanicked 0] ?b1"
    by (rule cancel_run [OF assms(3)]) simp_all
  show ?thesis using nrun_append [OF r4 nrun_append [OF r3 nrun_append [OF r2 r1]]] assms(1)
    by (intro exI [of _ ?b1]) simp
qed

subsection \<open>Close waits for the next message\<close>

text \<open>What lets a consumer go on that waits in \<open>iter.Next\<close>.\<close>

fun wakes :: "nat \<Rightarrow> nats_label \<Rightarrow> bool" where
  "wakes k (NStored m) \<longleftrightarrow> True" | "wakes k (NForeign m) \<longleftrightarrow> True"
| "wakes k (NTimedOut j) \<longleftrightarrow> j = k" | "wakes k (NNextFailed j) \<longleftrightarrow> j = k" | "wakes k (NDelisted j) \<longleftrightarrow> j = k"
| "wakes k _ \<longleftrightarrow> False"

definition waiting :: "nat \<Rightarrow> NATSBus \<Rightarrow> bool" where
  "waiting k b \<longleftrightarrow> nb_close b = BusDone \<and> k < length (nb_subs b) \<and> ns_pc (nb_subs b ! k) = InNext \<and>
     length (nb_stream b) \<le> ns_next (nb_subs b ! k) \<and> ns_unsub (nb_subs b ! k) = Live"

lemma waiting_step:
  assumes "nats_step fmt b l b'" "waiting k b" "\<not> wakes k l"
  shows "waiting k b' \<and> l \<noteq> NReturned"
  using assms
proof (cases rule: nats_step.cases)
  case n_return
  have "nb_subs b ! k \<in> set (nb_subs b)" using assms(2) by (simp add: waiting_def)
  then have "ns_pc (nb_subs b ! k) \<in> {Starting, Ended}" using n_return by blast
  then show ?thesis using assms(2) by (auto simp: waiting_def)
qed (auto simp: waiting_def set_sub_def nth_list_update nb_closed_def nb_done_def split: if_splits)

lemma waiting_run:
  "nats_run fmt b tr b' \<Longrightarrow> waiting k b \<Longrightarrow> list_all (\<lambda>l. \<not> wakes k l) tr \<Longrightarrow> waiting k b' \<and> NReturned \<notin> set tr"
proof (induction rule: nats_run.induct)
  case (nrun_step b tr b1 l b2)
  then show ?case using waiting_step [of fmt b1 l b2 k] by auto
qed simp

text \<open>C6:
  \<open>Close\<close> may never return: it does not stop the iterators, and a consumer that waits for a
  message looks at \<open>done\<close> only after it got one. From any open bus a subscription and a \<open>Close\<close>
  lead to a state from which no run without a further message, a failure of \<open>Next\<close> or a
  cancellation of the subscription lets \<open>Close\<close> return.
\<close>

theorem nats_close_waits:
  assumes "nb_close b = BusOpen" "nb_subs b = []" "\<not> nb_panicked b"
  shows "\<exists>b1. nats_run fmt b [NRegistered 0, NStarted 0, NLooped 0, NMarked, NSignalled] b1 \<and>
    (\<forall>tr b2. nats_run fmt b1 tr b2 \<and> list_all (\<lambda>l. \<not> wakes 0 l) tr \<longrightarrow> NReturned \<notin> set tr)"
proof -
  let ?N = "length (nb_stream b)"
  let ?s = "\<lambda>pc. \<lparr>ns_types = {}, ns_cap = 1, ns_ch = [], ns_pc = pc, ns_start = ?N, ns_next = ?N, ns_unsub = Live\<rparr>"
  let ?b2 = "with_sub b [] (?s InNext)"
  let ?b3 = "?b2\<lparr>nb_close := BusMarked\<rparr>" and ?b4 = "?b2\<lparr>nb_close := BusMarked, nb_close := BusDone\<rparr>"
  have r1: "nats_run fmt b [NRegistered 0, NStarted 0] (with_sub b [] (?s AtTop))" by (rule start_run [OF assms]) simp
  have 3: "nats_step fmt (with_sub b [] (?s AtTop)) (NLooped 0) ?b2"
    using n_loop [of 0 "with_sub b [] (?s AtTop)" "?s AtTop" fmt] assms(1) by (simp add: nb_done_def)
  have 4: "nats_step fmt ?b2 NMarked ?b3" by (rule n_mark) (simp add: assms(1))
  have 5: "nats_step fmt ?b3 NSignalled ?b4" using n_signal [of ?b3 fmt] by simp
  have "nats_run fmt (with_sub b [] (?s AtTop)) [NLooped 0, NMarked, NSignalled] ?b4"
    using nrun_step [OF nrun_step [OF nrun_one [OF _ 3] _ 4] _ 5] assms(3) by simp
  from nrun_append [OF this r1]
  have run: "nats_run fmt b [NRegistered 0, NStarted 0, NLooped 0, NMarked, NSignalled] ?b4" by simp
  have "waiting 0 ?b4" by (simp add: waiting_def)
  then show ?thesis using run waiting_run [of fmt ?b4] by blast
qed

subsection \<open>The theorems on a concrete bus\<close>

definition demo_js :: jetstream where
  "demo_js = \<lparr>js_Connect = (\<lambda>_. None), js_New = None, js_Stream = (\<lambda>_. Inl (External ''stream not found'')),
     js_not_found = (\<lambda>_. True), js_CreateStream = (\<lambda>_ _ _. Inr [])\<rparr>"

definition demo_nats :: NATSBus where
  "demo_nats = (case NewNATSBus demo_js ''nats://localhost:4222'' None [WithStreamName ''events-test''] of Inr b \<Rightarrow> b)"

lemma demo_nats_simps [simp]:
  "nb_close demo_nats = BusOpen" "nb_subs demo_nats = []" "\<not> nb_panicked demo_nats" "nb_stream demo_nats = []"
  "nb_registry demo_nats = NewSchemaRegistry"
  by (simp_all add: demo_nats_def NewNATSBus_def demo_js_def ensureStream_def)

lemma demo_received: "received_event demo_event = demo_event"
  by (simp add: received_event_def demo_event_def map_value_def)

lemma demo_message:
  obtains m where "nats_prepare fmt background (Some demo_event) demo_nats = Inr m" "msgDataToEvent (nm_Data m) = Inr demo_event"
proof -
  obtain d where d: "eventToMsgData fmt demo_event = Inr d"
    by (auto simp: eventToMsgData_def event_json_def demo_event_def map_value_def year_10000_def)
  have "readable fmt (map_value (e_Payload (received_event demo_event)))"
    unfolding demo_received by (simp add: demo_event_def map_value_def)
  from event_message_roundtrip [OF d this] have "msgDataToEvent (Inr d) = Inr demo_event" by (simp add: demo_received)
  moreover have "nats_prepare fmt background (Some demo_event) demo_nats = Inr (event_message demo_event d)"
    using demo_valid demo_trace d by (simp add: nats_prepare_def nb_closed_def background_def)
  ultimately show ?thesis using that by (simp add: event_message_def)
qed

lemma nats_replay_exact_witness:
  "\<exists>m. NATSBus_Replay (\<lambda>c st. Inr st) (\<lambda>n rest. (Inr (take (nat n) rest, None), drop (nat n) rest)) (\<lambda>rest. None) background
      \<lparr>ro_EventTypes = [EventNodeDeleted], ro_SourceNodeID = [], ro_StartTime = None, ro_EndTime = None, ro_Limit = 1\<rparr>
      (demo_nats\<lparr>nb_stream := [m, m]\<rparr>) = Some ([demo_event], None)"
proof -
  obtain m where m: "nats_prepare (\<lambda>_. []) background (Some demo_event) demo_nats = Inr m" "msgDataToEvent (nm_Data m) = Inr demo_event"
    by (rule demo_message)
  have "serves (\<lambda>n rest. (Inr (take (nat n) rest, None), drop (nat n) rest)) (\<lambda>rest. None) (\<lambda>rest. rest)"
    unfolding serves_def
  proof (intro allI conjI impI)
    fix n :: int and rest :: "nats_msg list" assume "0 < n"
    then show "\<exists>k cons1. (Inr (take (nat n) rest, None), drop (nat n) rest) = (Inr (take k rest, None), cons1) \<and>
        cons1 = drop k rest \<and> (rest \<noteq> [] \<longrightarrow> 0 < k) \<and> k \<le> nat n"
      by (intro exI [of _ "nat n"] exI [of _ "drop (nat n) rest"]) simp
  qed simp
  from nats_replay_exact [OF this, of "\<lambda>c st. Inr st" background "demo_nats\<lparr>nb_stream := [m, m]\<rparr>" "[m, m]"] m
  show ?thesis
    by (intro exI [of _ m]) (simp add: background_def limited_def matchReplay_def demo_event_def)
qed

lemma nats_delivery_exact_witness:
  "\<exists>tr b m. nats_run (\<lambda>_. []) demo_nats tr b \<and> nb_stream b = [m, m] \<and> ns_ch (nb_subs b ! 0) = [demo_event] \<and>
    nseen (nreceived_of 0) tr @ [demo_event] = List.map_filter (consumer_event (nb_subs b ! 0)) [m]"
proof -
  obtain m where m: "nats_prepare (\<lambda>_. []) background (Some demo_event) demo_nats = Inr m" "msgDataToEvent (nm_Data m) = Inr demo_event"
    by (rule demo_message)
  note run = fill_run [OF demo_nats_simps(1-3) m]
  let ?b = "with_sub demo_nats [m, m] (full_sub demo_nats demo_event)"
  have "in_hand (full_sub demo_nats demo_event) = []" by (simp add: full_sub_def)
  then show ?thesis
    using nats_delivery_exact [OF run, of 0 "full_sub demo_nats demo_event"] run
    by (intro exI [of _ "[NRegistered 0, NStarted 0, NChecked m, NStored m, NChecked m, NStored m, NLooped 0, NTaken 0 demo_event, NSent 0 demo_event]"]
        exI [of _ ?b] exI [of _ m]) (simp add: full_sub_def)
qed

lemma nats_unsubscribe_panics_witness: "\<exists>tr b. nats_run (\<lambda>_. []) demo_nats tr b \<and> nb_panicked b \<and> nb_close b = BusOpen"
proof -
  obtain m where "nats_prepare (\<lambda>_. []) background (Some demo_event) demo_nats = Inr m" "msgDataToEvent (nm_Data m) = Inr demo_event"
    by (rule demo_message)
  from nats_unsubscribe_panics [OF demo_nats_simps(1-3) zero_less_one this] show ?thesis by blast
qed

lemma nats_close_waits_witness:
  "\<exists>b1. nats_run (\<lambda>_. []) demo_nats [NRegistered 0, NStarted 0, NLooped 0, NMarked, NSignalled] b1 \<and>
    \<not> (\<exists>b2. nats_run (\<lambda>_. []) b1 [NReturned] b2)"
proof -
  obtain b1 where b1: "nats_run (\<lambda>_. []) demo_nats [NRegistered 0, NStarted 0, NLooped 0, NMarked, NSignalled] b1"
      "\<forall>tr b2. nats_run (\<lambda>_. []) b1 tr b2 \<and> list_all (\<lambda>l. \<not> wakes 0 l) tr \<longrightarrow> NReturned \<notin> set tr"
    using nats_close_waits [OF demo_nats_simps(1-3)] by blast
  have "\<not> (\<exists>b2. nats_run (\<lambda>_. []) b1 [NReturned] b2)" using b1(2) by fastforce
  then show ?thesis using b1(1) by blast
qed

end
