(* ===== verification/TracedBus.thy ===== *)
theory TracedBus
  imports NatsBus
begin

text \<open>
  \<open>internal/observability/bus_wrapper.go\<close>: the wrapper that \<open>main\<close> puts around either bus. Spans
  are left out. \<open>Publish\<close>, \<open>Replay\<close>, \<open>Close\<close> and \<open>Ping\<close> are those of the bus inside; \<open>Subscribe\<close>
  puts a goroutine and a second channel between the bus and the reader.
\<close>

subsection \<open>The bus inside\<close>

text \<open>The two implementations of \<open>MessageBus\<close>; a NATS server is the function that stores a message.\<close>

datatype message_bus = OverSQLite "SQLiteEventStore LocalBus" | OverNATS NATSBus

record nats_server =
  sv_fmt :: "float64 \<Rightarrow> string"
  sv_PublishMsg :: "ctx \<Rightarrow> nats_msg \<Rightarrow> nats_msg list \<Rightarrow> verdict \<times> nats_msg list"
  sv_connected :: bool

text \<open>The attributes of the span read the event, so a nil one panics (\<open>None\<close>) before the bus can refuse it.\<close>

definition Traced_Publish :: "nats_server \<Rightarrow> ctx \<Rightarrow> world \<Rightarrow> Event option \<Rightarrow> message_bus \<Rightarrow> (verdict \<times> message_bus) option" where
  "Traced_Publish S c w ev bus =
     (case ev of
        None \<Rightarrow> None
      | Some e \<Rightarrow>
        (case bus of
           OverSQLite b \<Rightarrow> (case LocalBus_Publish SQL_Append c w (Some e) b of (v, b1) \<Rightarrow> Some (v, OverSQLite b1))
         | OverNATS b \<Rightarrow> (case NATSBus_Publish (sv_fmt S) (sv_PublishMsg S) c (Some e) b of (v, b1) \<Rightarrow> Some (v, OverNATS b1))))"

definition Traced_Ping :: "nats_server \<Rightarrow> ctx \<Rightarrow> message_bus \<Rightarrow> verdict" where
  "Traced_Ping S c bus =
     (case bus of OverSQLite b \<Rightarrow> LocalBus_Ping c b | OverNATS b \<Rightarrow> NATSBus_Ping (sv_connected S) b)"

subsection \<open>The forwarding goroutine\<close>

definition defaultTracedBusBufferSize :: nat where "defaultTracedBusBufferSize = 256"

text \<open>
  The channel the bus gave (\<open>None\<close> is the nil channel of a failed subscription), whether the bus has
  closed it, the event in the goroutine's hand, the wrapping channel, and whether the goroutine has
  returned and closed it.
\<close>

record traced =
  tr_inner :: "Event list option"
  tr_closed :: bool
  tr_hand :: "Event option"
  tr_wrapped :: "Event list"
  tr_ended :: bool

definition Traced_Subscribe :: "Event list option \<Rightarrow> traced" where
  "Traced_Subscribe innerCh = \<lparr>tr_inner = innerCh, tr_closed = False, tr_hand = None, tr_wrapped = [], tr_ended = False\<rparr>"

datatype traced_label = TArrived Event | TClosed | TTaken Event | TForwarded Event | TDropped Event | TRead Event | TEnded

inductive traced_step :: "traced \<Rightarrow> traced_label \<Rightarrow> traced \<Rightarrow> bool" where
  t_arrive: "tr_inner t = Some es \<Longrightarrow> \<not> tr_closed t \<Longrightarrow> traced_step t (TArrived e) (t\<lparr>tr_inner := Some (es @ [e])\<rparr>)"
| t_close: "tr_inner t \<noteq> None \<Longrightarrow> traced_step t TClosed (t\<lparr>tr_closed := True\<rparr>)"
| t_take: "tr_inner t = Some (e # es) \<Longrightarrow> tr_hand t = None \<Longrightarrow>
    traced_step t (TTaken e) (t\<lparr>tr_inner := Some es, tr_hand := Some e\<rparr>)"
| t_forward: "tr_hand t = Some e \<Longrightarrow> length (tr_wrapped t) < defaultTracedBusBufferSize \<Longrightarrow>
    traced_step t (TForwarded e) (t\<lparr>tr_hand := None, tr_wrapped := tr_wrapped t @ [e]\<rparr>)"
| t_drop: "tr_hand t = Some e \<Longrightarrow> defaultTracedBusBufferSize \<le> length (tr_wrapped t) \<Longrightarrow>
    traced_step t (TDropped e) (t\<lparr>tr_hand := None\<rparr>)"
| t_read: "tr_wrapped t = e # es \<Longrightarrow> traced_step t (TRead e) (t\<lparr>tr_wrapped := es\<rparr>)"
| t_end: "tr_inner t = Some [] \<Longrightarrow> tr_closed t \<Longrightarrow> tr_hand t = None \<Longrightarrow> \<not> tr_ended t \<Longrightarrow>
    traced_step t TEnded (t\<lparr>tr_ended := True\<rparr>)"

inductive traced_run :: "traced \<Rightarrow> traced_label list \<Rightarrow> traced \<Rightarrow> bool" where
  trun_empty: "traced_run t [] t"
| trun_step: "traced_run t tr t1 \<Longrightarrow> traced_step t1 l t2 \<Longrightarrow> traced_run t (tr @ [l]) t2"

subsection \<open>What reaches the reader\<close>

fun arrived_of :: "traced_label \<Rightarrow> Event list" where
  "arrived_of (TArrived e) = [e]" | "arrived_of _ = []"
fun forwarded_of :: "traced_label \<Rightarrow> Event list" where
  "forwarded_of (TForwarded e) = [e]" | "forwarded_of _ = []"
fun dropped_of :: "traced_label \<Rightarrow> Event list" where
  "dropped_of (TDropped e) = [e]" | "dropped_of _ = []"
fun read_of :: "traced_label \<Rightarrow> Event list" where
  "read_of (TRead e) = [e]" | "read_of _ = []"

definition hand :: "traced \<Rightarrow> Event list" where
  "hand t = (case tr_hand t of None \<Rightarrow> [] | Some e \<Rightarrow> [e])"

definition inner :: "traced \<Rightarrow> Event list" where
  "inner t = (case tr_inner t of None \<Rightarrow> [] | Some es \<Rightarrow> es)"

text \<open>\<open>done_with\<close> are the events the goroutine is through with, forwarded or dropped.\<close>

definition traced_inv :: "Event list \<Rightarrow> traced_label list \<Rightarrow> traced \<Rightarrow> bool" where
  "traced_inv es0 tr t \<longleftrightarrow>
     length (tr_wrapped t) \<le> defaultTracedBusBufferSize \<and>
     nseen forwarded_of tr = nseen read_of tr @ tr_wrapped t \<and>
     (\<exists>done_with. es0 @ nseen arrived_of tr = done_with @ hand t @ inner t \<and>
        subseq (nseen forwarded_of tr) done_with \<and>
        mset done_with = mset (nseen forwarded_of tr) + mset (nseen dropped_of tr))"

lemma traced_inv_step:
  assumes "traced_step t l t'" "traced_inv es0 tr t"
  shows "traced_inv es0 (tr @ [l]) t'"
proof -
  obtain d where d: "es0 @ nseen arrived_of tr = d @ hand t @ inner t" "subseq (nseen forwarded_of tr) d"
      "mset d = mset (nseen forwarded_of tr) + mset (nseen dropped_of tr)"
    and w: "length (tr_wrapped t) \<le> defaultTracedBusBufferSize" "nseen forwarded_of tr = nseen read_of tr @ tr_wrapped t"
    using assms(2) by (auto simp: traced_inv_def)
  show ?thesis using assms(1)
  proof (cases rule: traced_step.cases)
    case (t_forward e)
    have "subseq (nseen forwarded_of tr @ [e]) (d @ [e])" using d(2) by simp
    then show ?thesis using t_forward d w unfolding traced_inv_def
      by (intro conjI exI [of _ "d @ [e]"]) (simp_all add: hand_def inner_def)
  next
    case (t_drop e)
    have "subseq (nseen forwarded_of tr) (d @ [e])" using list_emb_append_mono [OF d(2), of "[]" "[e]"] by simp
    then show ?thesis using t_drop d w unfolding traced_inv_def
      by (intro conjI exI [of _ "d @ [e]"]) (simp_all add: hand_def inner_def)
  qed (use d w in \<open>auto simp: traced_inv_def hand_def inner_def\<close>)
qed

text \<open>
  The reader behind the wrapper gets, in order, events of the subscription and no others, through a
  channel that holds at most 256; what finds it full is dropped, whichever bus is inside, and
  counted nowhere.
\<close>

theorem traced_forwarding:
  assumes "traced_run (Traced_Subscribe (Some es0)) tr t"
  shows "\<exists>done_with. es0 @ nseen arrived_of tr = done_with @ hand t @ inner t \<and>
    subseq (nseen read_of tr @ tr_wrapped t) done_with \<and> length (tr_wrapped t) \<le> defaultTracedBusBufferSize \<and>
    mset done_with = mset (nseen read_of tr @ tr_wrapped t) + mset (nseen dropped_of tr)"
proof -
  have "traced_inv es0 tr t"
    using assms
  proof (induction "Traced_Subscribe (Some es0)" tr t rule: traced_run.induct)
    case trun_empty
    then show ?case
      by (auto simp: traced_inv_def Traced_Subscribe_def hand_def inner_def intro!: exI [of _ "[]"])
  qed (auto intro: traced_inv_step)
  then show ?thesis unfolding traced_inv_def by auto
qed

text \<open>
  The goroutine ends only after the channel inside is closed. The local bus closes none, neither
  when the subscription is cancelled nor when it is closed, and a nil channel cannot be closed: the
  goroutine stays, and its reader is never told.
\<close>

theorem traced_leak:
  assumes "traced_run (Traced_Subscribe ch) tr t" "ch = None \<or> TClosed \<notin> set tr"
  shows "\<not> tr_ended t"
proof -
  have "\<not> tr_ended t \<and> \<not> tr_closed t \<and> (ch = None \<longrightarrow> tr_inner t = None)"
    using assms
  proof (induction "Traced_Subscribe ch" tr t rule: traced_run.induct)
    case trun_empty
    then show ?case by (simp add: Traced_Subscribe_def)
  next
    case (trun_step tr t1 l t2)
    then show ?case by (auto elim!: traced_step.cases)
  qed
  then show ?thesis by simp
qed

end
