(* ===== verification/Config.thy ===== *)
theory Config
  imports Prelude
begin

text \<open>
  \<open>internal/config/config.go\<close>: the configuration, from the file, the environment and the defaults.
  Reading the file and converting a setting to the type of its field is viper's part.
\<close>

subsection \<open>The configuration\<close>

record ServerConfig =
  cf_HTTPPort :: int
  cf_GRPCPort :: int
  cf_TelemetryPort :: int

record DataConfig =
  cf_DataType :: string
  cf_SQLitePath :: string
  cf_PostgresDSN :: string

record BusConfig =
  cf_BusType :: string
  cf_URL :: string
  cf_StreamName :: string
  cf_MaxStreamAge :: duration

record LogConfig =
  cf_Level :: string
  cf_Format :: string

record OtelConfig =
  cf_OtelEnabled :: bool
  cf_Endpoint :: string
  cf_ServiceName :: string

record AuthConfig =
  cf_AuthEnabled :: bool
  cf_SecretKey :: string
  cf_TokenDuration :: int

record Config =
  cf_Server :: ServerConfig
  cf_Data :: DataConfig
  cf_Bus :: BusConfig
  cf_Directory :: string
  cf_Log :: LogConfig
  cf_Otel :: OtelConfig
  cf_Auth :: AuthConfig

subsection \<open>Settings\<close>

text \<open>A setting as it is written: in the environment always a text.\<close>

datatype setting = VInt int | VBool bool | VStr string | VDur duration

text \<open>
  The environment, the file (its settings, or the error of reading it) and the conversions. An empty
  variable counts as unset.
\<close>

record viper =
  vp_env :: "string \<Rightarrow> string"
  vp_file :: "string \<Rightarrow> (string \<rightharpoonup> setting) res"
  vp_int :: "setting \<Rightarrow> int res"
  vp_bool :: "setting \<Rightarrow> bool res"
  vp_str :: "setting \<Rightarrow> string res"
  vp_dur :: "setting \<Rightarrow> duration res"

definition defaults :: "(string \<times> setting) list" where
  "defaults =
     [(''server.http_port'', VInt 8080), (''server.grpc_port'', VInt 9090), (''server.telemetry_port'', VInt 7000),
      (''data.type'', VStr ''sqlite''), (''data.sqlite_path'', VStr ''./data/openspace-os.db''),
      (''data.postgres_dsn'', VStr []), (''bus.type'', VStr ''local''), (''bus.url'', VStr ''nats://localhost:4222''),
      (''bus.stream_name'', VStr ''events''), (''bus.max_stream_age'', VDur (168 * hour)),
      (''plugin.directory'', VStr ''./plugins''), (''log.level'', VStr ''info''), (''log.format'', VStr ''json''),
      (''otel.enabled'', VBool False), (''otel.endpoint'', VStr []),
      (''otel.service_name'', VStr ''openspace-os-core''), (''auth.enabled'', VBool False),
      (''auth.secret_key'', VStr ''openspace-os-core-dev-secret-key''), (''auth.token_duration'', VInt 24)]"

text \<open>\<open>SetEnvPrefix\<close> and the replacer: \<open>server.http_port\<close> is \<open>OPENSPACE_SERVER_HTTP_PORT\<close>.\<close>

definition upper_char :: "char \<Rightarrow> char" where
  "upper_char c = (if 97 \<le> (of_char c :: nat) \<and> (of_char c :: nat) \<le> 122 then char_of ((of_char c :: nat) - 32) else c)"

definition env_key :: "string \<Rightarrow> string" where
  "env_key key = ''OPENSPACE_'' @ map (\<lambda>c. if c = CHR ''.'' then CHR ''_'' else upper_char c) key"

text \<open>The environment goes before the file, the file before the defaults; every key has a default.\<close>

definition lookup :: "viper \<Rightarrow> (string \<rightharpoonup> setting) \<Rightarrow> string \<Rightarrow> setting" where
  "lookup v file key =
     (if vp_env v (env_key key) \<noteq> [] then VStr (vp_env v (env_key key))
      else case file key of Some x \<Rightarrow> x | None \<Rightarrow> the (map_of defaults key))"

fun bind_res :: "'a res \<Rightarrow> ('a \<Rightarrow> 'b res) \<Rightarrow> 'b res" where
  "bind_res (Inl e) f = Inl e"
| "bind_res (Inr x) f = f x"

definition Unmarshal :: "viper \<Rightarrow> (string \<rightharpoonup> setting) \<Rightarrow> Config res" where
  "Unmarshal v file =
     (let i = (\<lambda>k. vp_int v (lookup v file k)); b = (\<lambda>k. vp_bool v (lookup v file k));
          s = (\<lambda>k. vp_str v (lookup v file k)); d = (\<lambda>k. vp_dur v (lookup v file k))
      in bind_res (i ''server.http_port'') (\<lambda>http. bind_res (i ''server.grpc_port'') (\<lambda>grpc.
         bind_res (i ''server.telemetry_port'') (\<lambda>tele. bind_res (s ''data.type'') (\<lambda>dty.
         bind_res (s ''data.sqlite_path'') (\<lambda>path. bind_res (s ''data.postgres_dsn'') (\<lambda>dsn.
         bind_res (s ''bus.type'') (\<lambda>bty. bind_res (s ''bus.url'') (\<lambda>url.
         bind_res (s ''bus.stream_name'') (\<lambda>stream. bind_res (d ''bus.max_stream_age'') (\<lambda>age.
         bind_res (s ''plugin.directory'') (\<lambda>dir. bind_res (s ''log.level'') (\<lambda>level.
         bind_res (s ''log.format'') (\<lambda>format. bind_res (b ''otel.enabled'') (\<lambda>otel.
         bind_res (s ''otel.endpoint'') (\<lambda>endpoint. bind_res (s ''otel.service_name'') (\<lambda>service.
         bind_res (b ''auth.enabled'') (\<lambda>auth. bind_res (s ''auth.secret_key'') (\<lambda>key.
         bind_res (i ''auth.token_duration'') (\<lambda>hours.
         Inr \<lparr>cf_Server = \<lparr>cf_HTTPPort = http, cf_GRPCPort = grpc, cf_TelemetryPort = tele\<rparr>,
              cf_Data = \<lparr>cf_DataType = dty, cf_SQLitePath = path, cf_PostgresDSN = dsn\<rparr>,
              cf_Bus = \<lparr>cf_BusType = bty, cf_URL = url, cf_StreamName = stream, cf_MaxStreamAge = age\<rparr>,
              cf_Directory = dir, cf_Log = \<lparr>cf_Level = level, cf_Format = format\<rparr>,
              cf_Otel = \<lparr>cf_OtelEnabled = otel, cf_Endpoint = endpoint, cf_ServiceName = service\<rparr>,
              cf_Auth = \<lparr>cf_AuthEnabled = auth, cf_SecretKey = key, cf_TokenDuration = hours\<rparr>\<rparr>))))))))))))))))))))"

definition Load :: "viper \<Rightarrow> string \<Rightarrow> Config res" where
  "Load v path =
     (case vp_file v path of
        Inl e \<Rightarrow> Inl (Wrap ''read config file'' e)
      | Inr file \<Rightarrow> (case Unmarshal v file of Inl e \<Rightarrow> Inl (Wrap ''parse config'' e) | Inr cfg \<Rightarrow> Inr cfg))"

subsection \<open>What is served when nothing is set\<close>

text \<open>Conversions that leave a setting of the right type alone, as viper's do.\<close>

definition converts :: "viper \<Rightarrow> bool" where
  "converts v \<longleftrightarrow>
     (\<forall>n. vp_int v (VInt n) = Inr n) \<and> (\<forall>x. vp_bool v (VBool x) = Inr x) \<and> (\<forall>t. vp_str v (VStr t) = Inr t) \<and>
     (\<forall>d. vp_dur v (VDur d) = Inr d)"

text \<open>An empty file in an empty environment: an open server that signs tokens with the published key.\<close>

lemma defaults_are_open:
  assumes "converts v" "vp_file v path = Inr Map.empty" "\<And>k. vp_env v k = []"
  shows "\<exists>cfg. Load v path = Inr cfg \<and> cf_AuthEnabled (cf_Auth cfg) = False \<and>
    cf_SecretKey (cf_Auth cfg) = ''openspace-os-core-dev-secret-key'' \<and> cf_BusType (cf_Bus cfg) = ''local''"
  using assms by (simp add: Load_def Unmarshal_def lookup_def defaults_def converts_def Let_def)

end
