(* ===== verification/Wiring.thy ===== *)
theory Wiring
  imports GrpcServer TracedBus Config Migrator
begin

text \<open>
  \<open>cmd/openspace-os-core/main.go\<close>: how \<open>runServer\<close> builds the program from its parts, what a failure
  on the way leaves behind, and how the program is shut down.
\<close>

subsection \<open>The world around the program\<close>

text \<open>
  What the process finds when it starts: the configuration source, the outcome of creating the
  directory of the database path (none is created, and nothing fails, for a bare file name), the databases behind a path or a DSN (with their tables, or the error of opening them),
  the NATS server, the schema the migrations work on, the plugin directory and the plugins compiled
  in, the outcome of listening on a port, the clock.
\<close>

record 's host =
  ho_viper :: viper
  ho_MkdirAll :: "string \<Rightarrow> verdict"
  ho_InitDB :: "string \<Rightarrow> kgdb res"
  ho_InitPostgresDB :: "string \<Rightarrow> kgdb res"
  ho_events :: "string \<Rightarrow> err option list \<times> event_row list"
  ho_jetstream :: jetstream
  ho_users :: "userdb res"
  ho_clients :: "clientdb res"
  ho_schema :: "'s migdb"
  ho_exec :: "string \<Rightarrow> 's \<Rightarrow> 's res"
  ho_usage_sql :: string
  ho_usage :: usagedb
  ho_fs :: file_system
  ho_codec :: manifest_codec
  ho_globals :: "(parser, unit, unit, unit) globals"
  ho_global_keys :: "string list \<times> string list \<times> string list \<times> string list"
  ho_decode :: "string \<Rightarrow> TelemetryFrame res"
  ho_cbrt :: "float64 \<Rightarrow> float64"
  ho_Listen :: "int \<Rightarrow> verdict"
  ho_world :: world

text \<open>What \<open>defer\<close> closes when \<open>runServer\<close> returns.\<close>

datatype deferred = ShutdownOtel | CloseDatabase | CloseCollector | StopSignals

text \<open>
  \<open>runServer\<close> before it waits for a signal: it has failed and run its deferred calls, it has
  panicked, or the program serves.
\<close>

record 's running =
  ru_api :: "message_bus api"
  ru_grpc :: grpc_server
  ru_schema :: "'s migdb"

datatype 's started = StartFailed err "deferred list" | StartPanicked string | Listening "'s running"

subsection \<open>The parts\<close>

definition open_store :: "'s host \<Rightarrow> DataConfig \<Rightarrow> kgdb res" where
  "open_store H d =
     (if cf_DataType d = ''postgres'' then
        (if cf_PostgresDSN d = [] then Inl (Errorf ''postgres storage without data.postgres_dsn'')
         else case ho_InitPostgresDB H (cf_PostgresDSN d) of
                Inl e \<Rightarrow> Inl (Wrap ''init postgres database'' e) | Inr db \<Rightarrow> Inr db)
      else case ho_InitDB H (cf_SQLitePath d) of Inl e \<Rightarrow> Inl (Wrap ''init database'' e) | Inr db \<Rightarrow> Inr db)"

definition open_bus :: "'s host \<Rightarrow> Config \<Rightarrow> SchemaRegistry \<Rightarrow> message_bus res" where
  "open_bus H cfg registry =
     (let bc = cf_Bus cfg in
      if cf_BusType bc = ''nats'' then
        (let opts = (if cf_StreamName bc \<noteq> [] then [WithStreamName (cf_StreamName bc)] else []) @
                    (if 0 < cf_MaxStreamAge bc then [WithMaxStreamAge (cf_MaxStreamAge bc)] else [])
         in case NewNATSBus (ho_jetstream H) (cf_URL bc) (Some registry) opts of
              Inl e \<Rightarrow> Inl (Wrap ''init NATS event bus'' e) | Inr b \<Rightarrow> Inr (OverNATS b))
      else
        (let (fs, tbl) = ho_events H (cf_SQLitePath (cf_Data cfg))
         in case NewSQLiteEventStore fs tbl \<lparr>sc_TTL = 0, sc_MaxEvents = 0, sc_CleanupInterval = 0, sc_Now = None\<rparr> of
              Inl e \<Rightarrow> Inl (Wrap ''create event store'' e)
            | Inr store \<Rightarrow> Inr (OverSQLite (NewLocalBus store (Some registry)))))"

text \<open>
  The plugins: those of the directory (an error is only logged) and those compiled in are started,
  then the built-in parsers and the mock adapter are registered.
\<close>

definition start_plugins :: "'s host \<Rightarrow> Config \<Rightarrow> plugins" where
  "start_plugins H cfg =
     (let m1 = snd (LoadFromDirectory (ho_fs H) (ho_codec H) (cf_Directory cfg) NewManager);
          (pks, aks, sks, hks) = ho_global_keys H
      in StartAll (LoadGlobals pks aks sks hks (ho_globals H) m1))"

definition builtin_plugins :: "'s host \<Rightarrow> plugins \<Rightarrow> plugins" where
  "builtin_plugins H m = RegisterParser ''tle'' (TLEParser (ho_cbrt H)) (RegisterParser ''json'' (JSONParser (ho_decode H)) m)"

subsection \<open>runServer up to the signal\<close>

text \<open>
  The services share the plugin manager by reference, so the handler sees the registrations made
  after it got it; errors of \<open>SetParser\<close> and \<open>SetAdapter\<close> are only logged. The handler is made before
  the migrations run and filled afterwards.
\<close>

definition assemble :: "message_bus env \<Rightarrow> 's host \<Rightarrow> Config \<Rightarrow> kgdb \<Rightarrow> message_bus \<Rightarrow> SchemaRegistry \<Rightarrow> userdb option \<Rightarrow> clientdb \<Rightarrow>
    plugins \<Rightarrow> message_bus tele \<Rightarrow> world \<Rightarrow> message_bus api" where
  "assemble E H cfg db bus registry ut ct m tele w =
     (let auth = cf_Auth cfg;
          tm = NewTokenManager (cf_SecretKey auth) (cf_TokenDuration auth * hour);
          kg = SetHookTrigger True (SetDB True (NewKGService db bus w));
          h1 = SetClientService (Some ct)
                 (ApiState.SetAuth True ut (Some tm) (cf_AuthEnabled auth)
                   (Handler_SetDB True (NewHandler kg bus (Some registry) w tm)));
          collector = NewCollector (Some (ho_usage H)) \<lparr>cc_BucketInterval = 0, cc_FlushInterval = 0, cc_QueueCapacity = 0\<rparr> w;
          h2 = SetUsageMeter (Some collector) (SetUsageStore (Some (ho_usage H)) h1);
          m1 = RegisterAdapter ''mock'' () m;
          cmd = Pipeline_Start (snd (SetAdapter ''mock'' (NewPipeline (Some (adapter_names E m1)) bus w)))
      in SetCommandPipeline (Some cmd) (SetTelemetryPipeline (Some tele) (SetPluginManager (Some m1) h2)))"

definition start_pipelines :: "message_bus env \<Rightarrow> 's host \<Rightarrow> Config \<Rightarrow> kgdb \<Rightarrow> message_bus \<Rightarrow> SchemaRegistry \<Rightarrow> userdb option \<Rightarrow>
    clientdb \<Rightarrow> 's migdb \<Rightarrow> world \<Rightarrow> 's started" where
  "start_pipelines E H cfg db bus registry ut ct schema w =
     (let m = builtin_plugins H (start_plugins H cfg);
          tele = snd (SetParser ''json'' (NewTelePipeline (Some (GetParser m)) bus w));
          ports = cf_Server cfg;
          closers = [CloseCollector, CloseDatabase, ShutdownOtel]
      in case Tele_Start (ho_Listen H (cf_TelemetryPort ports)) tele of
           Panic msg \<Rightarrow> StartPanicked msg
         | Done (Some e, _) \<Rightarrow> StartFailed (Wrap ''start telemetry pipeline'' e) closers
         | Done (None, tele1) \<Rightarrow>
           (case Server_Start (ho_Listen H) (cf_GRPCPort ports) (SetTelemetryIngress True (Server_SetAuth True True NewServer)) of
              (Some e, _) \<Rightarrow> StartFailed (Wrap ''start gRPC server'' e) closers
            | (None, grpc) \<Rightarrow>
              (case ho_Listen H (cf_HTTPPort ports) of
                 Some e \<Rightarrow> StartFailed e (StopSignals # closers)
               | None \<Rightarrow>
                 Listening \<lparr>ru_api = assemble E H cfg db bus registry ut ct m tele1 w, ru_grpc = grpc, ru_schema = schema\<rparr>)))"

definition start_server :: "message_bus env \<Rightarrow> 's host \<Rightarrow> string \<Rightarrow> 's started" where
  "start_server E H configPath =
     (let w = ho_world H; registry = NewSchemaRegistry; closers = [CloseDatabase, ShutdownOtel] in
      case Load (ho_viper H) configPath of
        Inl e \<Rightarrow> StartFailed e []
      | Inr cfg \<Rightarrow>
        (case ho_MkdirAll H (cf_SQLitePath (cf_Data cfg)) of
           Some e \<Rightarrow> StartFailed (Wrap ''create data directory'' e) [ShutdownOtel]
         | None \<Rightarrow>
           (case open_store H (cf_Data cfg) of
              Inl e \<Rightarrow> StartFailed e [ShutdownOtel]
            | Inr db \<Rightarrow>
              (case open_bus H cfg registry of
                 Inl e \<Rightarrow> StartFailed e closers
               | Inr bus \<Rightarrow>
                 (case ho_users H of
                    Inl e \<Rightarrow> StartFailed (Wrap ''init users table'' e) closers
                  | Inr ut \<Rightarrow>
                    (case ho_clients H of
                       Inl e \<Rightarrow> StartFailed (Wrap ''init clients table'' e) closers
                     | Inr ct \<Rightarrow>
                       (case EnsureDefaultAdmin (en_crypt E) background w (Some ut) of
                          (Some e, _) \<Rightarrow> StartFailed (Wrap ''init default admin user'' e) closers
                        | (None, ut1) \<Rightarrow>
                          (case Migrate (ho_exec H) background (tick w)
                                  (NewMigrator [WithMigrations (DefaultMigrations (ho_usage_sql H))]) (ho_schema H) of
                             ((Some e, _), _) \<Rightarrow> StartFailed (Wrap ''run schema migrations'' e) closers
                           | ((None, _), schema) \<Rightarrow>
                             start_pipelines E H cfg db bus registry ut1 ct schema (tick (tick w))))))))))"

subsection \<open>The program that serves\<close>

definition served_grpc :: "int \<Rightarrow> grpc_server" where
  "served_grpc port = \<lparr>gs_tm = True, gs_clientSvc = True, gs_ingress = True, gs_listener = Some port, gs_server = Some True\<rparr>"

lemma grpc_started:
  "Server_Start listen port (SetTelemetryIngress True (Server_SetAuth True True NewServer)) =
     (case listen port of
        Some e \<Rightarrow> (Some (Wrap ''gRPC listen'' e), NewServer\<lparr>gs_tm := True, gs_clientSvc := True, gs_ingress := True\<rparr>)
      | None \<Rightarrow> (None, served_grpc port))"
  by (simp add: Server_Start_def SetTelemetryIngress_def Server_SetAuth_def NewServer_def served_grpc_def split: option.split)

lemma json_lines_clock: "w_clock (snd (json_lines decode i ls w)) = w_clock w"
proof (induction ls arbitrary: i w)
  case (Cons l ls)
  have "w_clock w2 = w_clock w1" if "json_lines decode j ls w1 = (r, w2)" for j w1 r w2 using Cons [of j w1] that by simp
  then show ?case using Cons by (auto simp: Let_def split: sum.splits prod.splits)
qed simp

lemma builtin_parsers_ok: "parser_ok (JSONParser decode)" "parser_ok (TLEParser cbrt)"
proof -
  have "w_clock (snd (JSON_Parse decode w raw)) = w_clock w" for w raw
    using json_lines_clock [of decode 0 "split_at newline (trim_space raw)" w]
    by (auto simp: JSON_Parse_def Let_def split: sum.splits prod.splits)
  then show "parser_ok (JSONParser decode)" by (simp add: parser_ok_def JSONParser_def)
  show "parser_ok (TLEParser cbrt)" by (simp add: parser_ok_def TLEParser_def)
qed

definition all_parsers_ok :: "plugins \<Rightarrow> bool" where
  "all_parsers_ok m \<longleftrightarrow> (\<forall>k q. GetParser m k = Some q \<longrightarrow> parser_ok q)"

lemma register_parsers:
  "pm_parsers (ensureInstance k m) = pm_parsers m" "pm_parsers (RegisterAdapter k a m) = pm_parsers m"
  "pm_parsers (RegisterSubscriber k x m) = pm_parsers m" "pm_parsers (RegisterHook k y m) = pm_parsers m"
  "pm_parsers (StartAll m) = pm_parsers m" "pm_parsers (RegisterParser k q m) = (pm_parsers m)(k \<mapsto> q)"
  by (simp_all add: ensureInstance_def RegisterAdapter_def RegisterSubscriber_def RegisterHook_def RegisterParser_def StartAll_def)

lemma load_parsers:
  fixes m :: "('p, 'a, 's, 'h) Manager"
  shows "pm_parsers (snd (LoadFromDirectory F K dir m)) = pm_parsers m"
proof -
  have "pm_parsers (load_entry F K dir e m) = pm_parsers m" for e and m :: "('p, 'a, 's, 'h) Manager"
    by (auto simp: load_entry_def put_plugin_def Let_def split: sum.splits option.splits)
  then have "pm_parsers (fold (load_entry F K dir) es m) = pm_parsers m" for es and m :: "('p, 'a, 's, 'h) Manager"
    by (induction es arbitrary: m) simp_all
  then show ?thesis by (simp add: LoadFromDirectory_def split: sum.splits)
qed

lemma fold_parsers:
  "pm_parsers (fold (\<lambda>k. RegisterAdapter k (f k)) ks m) = pm_parsers m"
  "pm_parsers (fold (\<lambda>k. RegisterSubscriber k (g k)) ks m) = pm_parsers m"
  "pm_parsers (fold (\<lambda>k. RegisterHook k (h k)) ks m) = pm_parsers m"
  by (induction ks arbitrary: m) (simp_all add: register_parsers)

lemma fold_RegisterParser_ok:
  "all_parsers_ok m \<Longrightarrow> \<forall>k\<in>set ks. parser_ok (f k) \<Longrightarrow> all_parsers_ok (fold (\<lambda>k. RegisterParser k (f k)) ks m)"
proof (induction ks arbitrary: m)
  case (Cons k ks)
  have "all_parsers_ok (RegisterParser k (f k) m)"
    using Cons.prems by (auto simp: all_parsers_ok_def GetParser_def register_parsers)
  then show ?case using Cons by simp
qed simp

text \<open>
  What is asked of the world: the graph in the database is well formed (as every run leaves it), the
  clock reads years before 10000, and the parsers compiled in do not touch it.
\<close>

definition host_ok :: "'s host \<Rightarrow> bool" where
  "host_ok H \<longleftrightarrow>
     (\<forall>p db. ho_InitDB H p = Inr db \<longrightarrow> kg_inv db) \<and> (\<forall>p db. ho_InitPostgresDB H p = Inr db \<longrightarrow> kg_inv db) \<and>
     kg_clock_ok (ho_world H) \<and>
     (\<forall>k\<in>set (fst (ho_global_keys H)). parser_ok (the (gr_parsers (ho_globals H) k)))"

lemma plugins_ok:
  assumes "host_ok H"
  shows "all_parsers_ok (builtin_plugins H (start_plugins H cfg))"
proof -
  obtain pks aks sks hks where ks: "ho_global_keys H = (pks, aks, sks, hks)" by (metis prod_cases4)
  let ?m = "snd (LoadFromDirectory (ho_fs H) (ho_codec H) (cf_Directory cfg) NewManager) :: plugins"
  have "all_parsers_ok ?m" by (simp add: all_parsers_ok_def GetParser_def load_parsers NewManager_def)
  then have "all_parsers_ok (fold (\<lambda>k. RegisterParser k (the (gr_parsers (ho_globals H) k))) pks ?m)"
    by (rule fold_RegisterParser_ok) (use assms ks in \<open>simp add: host_ok_def\<close>)
  then have "all_parsers_ok (start_plugins H cfg)"
    unfolding all_parsers_ok_def GetParser_def start_plugins_def Let_def ks prod.case LoadGlobals_def register_parsers fold_parsers .
  then show ?thesis using builtin_parsers_ok
    by (auto simp: all_parsers_ok_def GetParser_def builtin_plugins_def register_parsers split: if_splits)
qed

lemma open_store_ok: "host_ok H \<Longrightarrow> open_store H d = Inr db \<Longrightarrow> kg_inv db"
  by (auto simp: open_store_def host_ok_def split: if_splits sum.splits)

lemma default_admin_exists:
  assumes "EnsureDefaultAdmin K c w (Some db) = (None, store)"
  shows "\<exists>db1. store = Some db1 \<and> users db1 \<noteq> []"
proof -
  have list: "users db1 = users db" if "User_List c db = (Inr us, db1)" for us db1
    using that by (auto simp: User_List_def consume_def split: option.splits sum.splits)
  have nonempty: "users db \<noteq> []" if "User_List c db = (Inr us, db1)" "us \<noteq> []" for us db1
    using that by (auto simp: User_List_def split: option.splits sum.splits)
  have create: "users db2 \<noteq> []" if "User_Create c (Some u) db1 = (None, db2)" for u db1 db2
    using that by (auto simp: User_Create_def insert_user_row_def sql_insert_def split: option.splits sum.splits if_splits)
  show ?thesis using assms list nonempty create
    by (auto simp: EnsureDefaultAdmin_def Let_def split: sum.splits prod.splits if_splits option.splits)
qed

text \<open>What \<open>runServer\<close> has in hand when the program serves.\<close>

lemma started_pipelines:
  assumes "start_pipelines E H cfg db bus registry ut ct schema w = Listening ru"
  shows "\<exists>tele. Tele_Start None (snd (SetParser ''json'' (NewTelePipeline (Some (GetParser (builtin_plugins H (start_plugins H cfg)))) bus w))) =
       Done (None, tele) \<and>
     ru = \<lparr>ru_api = assemble E H cfg db bus registry ut ct (builtin_plugins H (start_plugins H cfg)) tele w,
           ru_grpc = served_grpc (cf_GRPCPort (cf_Server cfg)), ru_schema = schema\<rparr>"
proof -
  let ?p = "snd (SetParser ''json'' (NewTelePipeline (Some (GetParser (builtin_plugins H (start_plugins H cfg)))) bus w))"
  let ?l = "ho_Listen H (cf_TelemetryPort (cf_Server cfg))"
  obtain tele where t: "Tele_Start ?l ?p = Done (None, tele)"
      "ru = \<lparr>ru_api = assemble E H cfg db bus registry ut ct (builtin_plugins H (start_plugins H cfg)) tele w,
           ru_grpc = served_grpc (cf_GRPCPort (cf_Server cfg)), ru_schema = schema\<rparr>"
    using assms unfolding start_pipelines_def Let_def grpc_started by (auto split: option.splits prod.splits go.splits)
  have "?l = None" using t(1) by (auto simp: Tele_Start_def Let_def split: option.splits if_splits go.splits)
  then show ?thesis using t by auto
qed

lemma started:
  assumes "start_server E H path = Listening ru"
  obtains cfg db bus ut ct schema w where "Load (ho_viper H) path = Inr cfg" "open_store H (cf_Data cfg) = Inr db"
    "open_bus H cfg NewSchemaRegistry = Inr bus" "\<exists>db1. ut = Some db1 \<and> users db1 \<noteq> []" "w_clock w = w_clock (ho_world H)"
    "start_pipelines E H cfg db bus NewSchemaRegistry ut ct schema w = Listening ru"
proof -
  note S = assms [unfolded start_server_def Let_def]
  obtain cfg where cfg: "Load (ho_viper H) path = Inr cfg" using S by (cases "Load (ho_viper H) path") simp_all
  note S = S [unfolded cfg sum.case]
  have dir: "ho_MkdirAll H (cf_SQLitePath (cf_Data cfg)) = None"
    using S by (cases "ho_MkdirAll H (cf_SQLitePath (cf_Data cfg))") simp_all
  note S = S [unfolded dir option.case]
  obtain db where db: "open_store H (cf_Data cfg) = Inr db" using S by (cases "open_store H (cf_Data cfg)") simp_all
  note S = S [unfolded db sum.case]
  obtain bus where bus: "open_bus H cfg NewSchemaRegistry = Inr bus" using S by (cases "open_bus H cfg NewSchemaRegistry") simp_all
  note S = S [unfolded bus sum.case]
  obtain u0 where u0: "ho_users H = Inr u0" using S by (cases "ho_users H") simp_all
  note S = S [unfolded u0 sum.case]
  obtain ct where ct: "ho_clients H = Inr ct" using S by (cases "ho_clients H") simp_all
  note S = S [unfolded ct sum.case]
  obtain v ut where admin: "EnsureDefaultAdmin (en_crypt E) background (ho_world H) (Some u0) = (v, ut)" by fastforce
  note S = S [unfolded admin prod.case]
  have v: "v = None" using S by (cases v) simp_all
  note S = S [unfolded v option.case]
  obtain mv mg schema where mig: "Migrate (ho_exec H) background (tick (ho_world H))
      (NewMigrator [WithMigrations (DefaultMigrations (ho_usage_sql H))]) (ho_schema H) = ((mv, mg), schema)" by (metis prod.exhaust)
  note S = S [unfolded mig prod.case]
  have "mv = None" using S by (cases mv) simp_all
  then have "start_pipelines E H cfg db bus NewSchemaRegistry ut ct schema (tick (tick (ho_world H))) = Listening ru" using S by simp
  moreover have "\<exists>db1. ut = Some db1 \<and> users db1 \<noteq> []" using default_admin_exists admin v by blast
  moreover have "w_clock (tick (tick (ho_world H))) = w_clock (ho_world H)" by simp
  ultimately show ?thesis using that cfg db bus by blast
qed

lemma started_grpc: "start_server E H path = Listening ru \<Longrightarrow> gs_server (ru_grpc ru) = Some True"
  by (erule started) (auto dest!: started_pipelines simp: served_grpc_def)

lemma tele_started_ok:
  assumes "all_parsers_ok m" "Tele_Start None (snd (SetParser ''json'' (NewTelePipeline (Some (GetParser m)) bus w))) = Done (None, tele)"
    and "tp_parser tele = Some q"
  shows "parser_ok q"
proof -
  let ?p = "NewTelePipeline (Some (GetParser m)) bus w" and ?S = "\<lambda>p. snd (SetParser ''json'' p)"
  have ok: "(\<forall>q. tp_parser (?S p) = Some q \<longrightarrow> parser_ok q) \<and> tp_manager (?S p) = tp_manager p"
    if "\<forall>q. tp_parser p = Some q \<longrightarrow> parser_ok q" "tp_manager p = Some (GetParser m)" for p :: "'a tele"
    using that assms(1) by (auto simp: SetParser_def all_parsers_ok_def split: option.splits)
  have "\<forall>q. tp_parser ?p = Some q \<longrightarrow> parser_ok q" "tp_manager ?p = Some (GetParser m)" by (simp_all add: NewTelePipeline_def)
  from ok [OF this] have 1: "\<forall>q. tp_parser (?S ?p) = Some q \<longrightarrow> parser_ok q" "tp_manager (?S ?p) = Some (GetParser m)"
    by (simp_all add: NewTelePipeline_def)
  from ok [OF this] show ?thesis using 1 assms(2,3) by (auto simp: Tele_Start_def Let_def split: if_splits)
qed

lemmas assemble_defs = assemble_def Let_def SetCommandPipeline_def SetTelemetryPipeline_def SetPluginManager_def SetUsageMeter_def
  SetUsageStore_def SetClientService_def ApiState.SetAuth_def Handler_SetDB_def NewHandler_def KGService.SetDB_def
  KGService.SetHookTrigger_def NewKGService_def

lemma assemble_simps [simp]:
  "kg_db (ap_kg (assemble E H cfg db bus reg ut ct m tele w)) = db"
  "kg_tx (ap_kg (assemble E H cfg db bus reg ut ct m tele w))"
  "ap_world (assemble E H cfg db bus reg ut ct m tele w) = tick w"
  "ap_pipeline (assemble E H cfg db bus reg ut ct m tele w) = Some tele"
  "ap_plugins (assemble E H cfg db bus reg ut ct m tele w) = Some (RegisterAdapter ''mock'' () m)"
  "ap_users (assemble E H cfg db bus reg ut ct m tele w) = ut"
  "authEnabled (assemble E H cfg db bus reg ut ct m tele w) = cf_AuthEnabled (cf_Auth cfg)"
  by (simp_all add: assemble_defs authEnabled_def)

lemma started_api_ok:
  assumes "host_ok H" "start_server E H path = Listening ru"
  shows "api_ok (ru_api ru)"
proof -
  obtain cfg db bus ut ct schema w where S: "open_store H (cf_Data cfg) = Inr db" "w_clock w = w_clock (ho_world H)"
      "start_pipelines E H cfg db bus NewSchemaRegistry ut ct schema w = Listening ru"
    using started [OF assms(2)] by metis
  let ?m = "builtin_plugins H (start_plugins H cfg)"
  obtain tele where tele: "Tele_Start None (snd (SetParser ''json'' (NewTelePipeline (Some (GetParser ?m)) bus w))) = Done (None, tele)"
      "ru_api ru = assemble E H cfg db bus NewSchemaRegistry ut ct ?m tele w"
    using started_pipelines [OF S(3)] by fastforce
  note m = plugins_ok [OF assms(1), of cfg]
  have "parsers_ok (ru_api ru)" unfolding parsers_ok_def tele(2)
    using tele_started_ok [OF m tele(1)] m by (auto simp: all_parsers_ok_def GetParser_def register_parsers)
  moreover have "kg_inv (kg_db (ap_kg (ru_api ru)))" using open_store_ok [OF assms(1) S(1)] tele(2) by simp
  moreover have "kg_clock_ok (ap_world (ru_api ru))" using assms(1) S(2) tele(2) by (simp add: host_ok_def kg_clock_ok_def)
  ultimately show ?thesis by (simp add: api_ok_def)
qed


text \<open>C11:
  A program that serves has a user to log in with, deletes nodes in transactions, guards its REST
  routes exactly when the configuration says so, and guards gRPC always.
\<close>

theorem program_is_guarded:
  assumes "start_server E H path = Listening ru" "Load (ho_viper H) path = Inr cfg"
  shows "(authEnabled (ru_api ru) \<longleftrightarrow> cf_AuthEnabled (cf_Auth cfg)) \<and> gs_server (ru_grpc ru) = Some True \<and> kg_tx (ap_kg (ru_api ru)) \<and>
    (\<exists>db. ap_users (ru_api ru) = Some db \<and> users db \<noteq> [])"
proof -
  obtain cfg1 db bus ut ct schema w where S: "Load (ho_viper H) path = Inr cfg1" "\<exists>db1. ut = Some db1 \<and> users db1 \<noteq> []"
      "start_pipelines E H cfg1 db bus NewSchemaRegistry ut ct schema w = Listening ru"
    using started [OF assms(1)] by metis
  then show ?thesis using started_pipelines [OF S(3)] assms(2) by (auto simp: served_grpc_def)
qed

subsection \<open>A start that fails\<close>

text \<open>
  The deferred calls of a failed start: the database is closed when it was opened, and after the
  collector that writes to it. The bus, the telemetry listener and the gRPC listener have no deferred
  call: they go with the process.
\<close>

theorem failed_start_releases:
  assumes "start_server E H path = StartFailed e ds" "Load (ho_viper H) path = Inr cfg"
  shows "suffix ds [StopSignals, CloseCollector, CloseDatabase, ShutdownOtel] \<and>
    (CloseDatabase \<in> set ds \<longleftrightarrow> ho_MkdirAll H (cf_SQLitePath (cf_Data cfg)) = None \<and> is_ok (open_store H (cf_Data cfg)))"
proof (cases "ho_MkdirAll H (cf_SQLitePath (cf_Data cfg)) = None \<and> is_ok (open_store H (cf_Data cfg))")
  case False
  then show ?thesis using assms
    by (auto simp: start_server_def Let_def suffix_def split: option.splits sum.splits)
next
  case True
  have late: "ds = [CloseDatabase, ShutdownOtel] \<or> ds = [CloseCollector, CloseDatabase, ShutdownOtel] \<or>
      ds = [StopSignals, CloseCollector, CloseDatabase, ShutdownOtel]"
    if "start_pipelines E H cfg db bus registry ut ct schema w = StartFailed e ds" for db bus registry ut ct schema w
    using that unfolding start_pipelines_def Let_def grpc_started by (auto split: option.splits prod.splits go.splits)
  have "ds = [CloseDatabase, ShutdownOtel] \<or> ds = [CloseCollector, CloseDatabase, ShutdownOtel] \<or>
      ds = [StopSignals, CloseCollector, CloseDatabase, ShutdownOtel]"
    using True assms unfolding start_server_def Let_def
    by (auto simp: is_ok_def split: option.splits sum.splits prod.splits dest: late)
  then show ?thesis using True by (auto simp: suffix_def)
qed

subsection \<open>Shutdown\<close>

text \<open>
  After the signal: \<open>Shutdown\<close> of the HTTP server, at most ten seconds long; \<open>GracefulStop\<close> of the
  gRPC server, which refuses new calls and waits for the open ones; then telemetry, commands, plugins
  and the bus are stopped, one after the other, and the deferred calls run. Requests are served until
  the HTTP server is shut down, gRPC calls are accepted until the gRPC server is stopped.
\<close>

datatype phase = Serving | HttpShutdown | GrpcStop | TelemetryStop | CommandStop | PluginStop | BusClose | Returning

fun rank :: "phase \<Rightarrow> nat" where
  "rank Serving = 0" | "rank HttpShutdown = 1" | "rank GrpcStop = 2" | "rank TelemetryStop = 3" | "rank CommandStop = 4"
| "rank PluginStop = 5" | "rank BusClose = 6" | "rank Returning = 7"

record process =
  ps_phase :: phase
  ps_calls :: nat
  ps_grpc :: grpc_server
  ps_api :: "message_bus api"

datatype proc_label = Request rest_request | CallOpened | CallEnded | Signal | HttpDown | GrpcDown | TelemetryDown | CommandsDown
  | PluginsDown | BusDown

text \<open>Closing the bus inside the wrapper; over NATS it waits for the consumers.\<close>

inductive bus_closes :: "message_bus \<Rightarrow> message_bus \<Rightarrow> bool" where
  closes_local: "LocalBus_Close SQL_Close b = (v, b1) \<Longrightarrow> bus_closes (OverSQLite b) (OverSQLite b1)"
| closes_nats: "\<forall>s\<in>set (nb_subs b). ns_pc s \<in> {Starting, Ended} \<Longrightarrow>
    bus_closes (OverNATS b) (OverNATS (b\<lparr>nb_close := BusReturned\<rparr>))"

inductive proc_step :: "message_bus env \<Rightarrow> assets \<Rightarrow> process \<Rightarrow> proc_label \<Rightarrow> process \<Rightarrow> bool" for E A where
  pr_request: "rank (ps_phase p) \<le> 1 \<Longrightarrow> proc_step E A p (Request r) (p\<lparr>ps_api := snd (Served E A r (ps_api p))\<rparr>)"
| pr_call: "rank (ps_phase p) \<le> 1 \<Longrightarrow> proc_step E A p CallOpened (p\<lparr>ps_calls := Suc (ps_calls p)\<rparr>)"
| pr_end: "ps_calls p = Suc n \<Longrightarrow> proc_step E A p CallEnded (p\<lparr>ps_calls := n\<rparr>)"
| pr_signal: "ps_phase p = Serving \<Longrightarrow> proc_step E A p Signal (p\<lparr>ps_phase := HttpShutdown\<rparr>)"
| pr_http: "ps_phase p = HttpShutdown \<Longrightarrow> proc_step E A p HttpDown (p\<lparr>ps_phase := GrpcStop\<rparr>)"
| pr_grpc: "ps_phase p = GrpcStop \<Longrightarrow> Server_Stop (ps_calls p) (ps_grpc p) = Some g \<Longrightarrow>
    proc_step E A p GrpcDown (p\<lparr>ps_phase := TelemetryStop, ps_grpc := g\<rparr>)"
| pr_tele: "ps_phase p = TelemetryStop \<Longrightarrow> ap_pipeline (ps_api p) = Some t \<Longrightarrow> Tele_Stop t = Done (v, t1) \<Longrightarrow>
    proc_step E A p TelemetryDown (p\<lparr>ps_phase := CommandStop, ps_api := SetTelemetryPipeline (Some t1) (ps_api p)\<rparr>)"
| pr_cmd: "ps_phase p = CommandStop \<Longrightarrow> ap_cmdPipeline (ps_api p) = Some c \<Longrightarrow>
    proc_step E A p CommandsDown (p\<lparr>ps_phase := PluginStop, ps_api := SetCommandPipeline (Some (Pipeline_Stop c)) (ps_api p)\<rparr>)"
| pr_plugins: "ps_phase p = PluginStop \<Longrightarrow> ap_plugins (ps_api p) = Some m \<Longrightarrow>
    proc_step E A p PluginsDown (p\<lparr>ps_phase := BusClose, ps_api := SetPluginManager (Some (StopAll m)) (ps_api p)\<rparr>)"
| pr_bus: "ps_phase p = BusClose \<Longrightarrow> bus_closes (ap_bus (ps_api p)) bus \<Longrightarrow>
    proc_step E A p BusDown (p\<lparr>ps_phase := Returning, ps_api := (ps_api p)\<lparr>ap_bus := bus\<rparr>\<rparr>)"

inductive proc_run :: "message_bus env \<Rightarrow> assets \<Rightarrow> process \<Rightarrow> proc_label list \<Rightarrow> process \<Rightarrow> bool" for E A where
  prun_empty: "proc_run E A p [] p"
| prun_step: "proc_run E A p tr p1 \<Longrightarrow> proc_step E A p1 l p2 \<Longrightarrow> proc_run E A p (tr @ [l]) p2"

definition serving :: "'s running \<Rightarrow> process" where
  "serving ru = \<lparr>ps_phase = Serving, ps_calls = 0, ps_grpc = ru_grpc ru, ps_api = ru_api ru\<rparr>"

text \<open>Calls that are open, and what is stopped in which phase.\<close>

definition bus_closed :: "message_bus \<Rightarrow> bool" where
  "bus_closed bus \<longleftrightarrow> (case bus of OverSQLite b \<Rightarrow> lb_closeOnce b | OverNATS b \<Rightarrow> nb_done b)"

definition proc_inv :: "proc_label list \<Rightarrow> process \<Rightarrow> bool" where
  "proc_inv tr p \<longleftrightarrow>
     count_list tr CallOpened = count_list tr CallEnded + ps_calls p \<and>
     (rank (ps_phase p) \<le> 2 \<longrightarrow> gs_server (ps_grpc p) \<noteq> None) \<and>
     (2 < rank (ps_phase p) \<longrightarrow> ps_calls p = 0) \<and>
     (3 < rank (ps_phase p) \<longrightarrow> (\<exists>t. ap_pipeline (ps_api p) = Some t \<and> tp_stopped t)) \<and>
     (4 < rank (ps_phase p) \<longrightarrow> (\<exists>c. ap_cmdPipeline (ps_api p) = Some c \<and> cp_stopOnce c)) \<and>
     (5 < rank (ps_phase p) \<longrightarrow> (\<exists>m. ap_plugins (ps_api p) = Some m \<and>
        (\<forall>k i. pm_plugins m k = Some i \<longrightarrow> pi_Status i = StatusStopped))) \<and>
     (6 < rank (ps_phase p) \<longrightarrow> bus_closed (ap_bus (ps_api p)))"

lemma closes_closed: "bus_closes bus bus' \<Longrightarrow> bus_closed bus'"
  by (cases rule: bus_closes.cases) (auto simp: bus_closed_def LocalBus_Close_def nb_done_def Let_def split: if_splits prod.splits)

lemma Tele_Stop_stopped: "Tele_Stop t = Done (v, t1) \<Longrightarrow> tp_stopped t1"
  by (auto simp: Tele_Stop_def split: if_splits go.splits)

lemma Pipeline_Stop_once: "cp_stopOnce (Pipeline_Stop c)"
  by (simp add: Pipeline_Stop_def)

lemma proc_inv_step:
  assumes "proc_step E A p l p'" "proc_inv tr p"
  shows "proc_inv (tr @ [l]) p'"
  using assms
  by (cases rule: proc_step.cases)
    (auto simp: proc_inv_def SetTelemetryPipeline_def SetCommandPipeline_def SetPluginManager_def StopAll_def
      Tele_Stop_stopped Pipeline_Stop_once closes_closed Server_Stop_def split: if_splits)


text \<open>Nothing but the last open call ends the wait.\<close>

lemma subscriber_blocks_shutdown:
  "proc_run E A p tr p' \<Longrightarrow> ps_phase p = GrpcStop \<Longrightarrow> 0 < ps_calls p \<Longrightarrow> gs_server (ps_grpc p) \<noteq> None \<Longrightarrow> CallEnded \<notin> set tr \<Longrightarrow>
   ps_phase p' = GrpcStop \<and> ps_calls p' = ps_calls p \<and> ps_grpc p' = ps_grpc p"
proof (induction rule: proc_run.induct)
  case (prun_step p tr p1 l p2)
  then show ?case by (cases rule: proc_step.cases [OF prun_step(2)]) (auto simp: Server_Stop_def)
qed simp

subsection \<open>A program that starts\<close>

definition demo_viper :: viper where
  "demo_viper = \<lparr>vp_env = (\<lambda>k. []), vp_file = (\<lambda>path. Inr Map.empty),
     vp_int = (\<lambda>x. case x of VInt n \<Rightarrow> Inr n | _ \<Rightarrow> Inl (External ''not an int'')),
     vp_bool = (\<lambda>x. case x of VBool b \<Rightarrow> Inr b | _ \<Rightarrow> Inl (External ''not a bool'')),
     vp_str = (\<lambda>x. case x of VStr t \<Rightarrow> Inr t | _ \<Rightarrow> Inl (External ''not a string'')),
     vp_dur = (\<lambda>x. case x of VDur d \<Rightarrow> Inr d | _ \<Rightarrow> Inl (External ''not a duration''))\<rparr>"

definition demo_host :: "string list host" where
  "demo_host = \<lparr>ho_viper = demo_viper, ho_MkdirAll = (\<lambda>p. None),
     ho_InitDB = (\<lambda>p. Inr \<lparr>faults = [], nodes = [], rels = []\<rparr>), ho_InitPostgresDB = (\<lambda>p. Inl (External ''refused'')),
     ho_events = (\<lambda>p. ([], [])), ho_jetstream = demo_js, ho_users = Inr \<lparr>faults = [], users = []\<rparr>,
     ho_clients = Inr \<lparr>faults = [], clients = []\<rparr>, ho_schema = \<lparr>faults = [], md_schema = [], md_versions = None\<rparr>,
     ho_exec = (\<lambda>q s. Inr (s @ [q])), ho_usage_sql = ''create table usage'', ho_usage = \<lparr>faults = [], us_rows = []\<rparr>,
     ho_fs = \<lparr>fs_ReadDir = (\<lambda>d. Inr []), fs_ReadFile = (\<lambda>f. Inr []), fs_Stat = (\<lambda>f. False)\<rparr>,
     ho_codec = \<lparr>mc_yaml = (\<lambda>t. Inl (External ''yaml'')), mc_json = (\<lambda>t. Inl (External ''json''))\<rparr>,
     ho_globals = \<lparr>gr_parsers = Map.empty, gr_adapters = Map.empty, gr_subs = Map.empty, gr_hooks = Map.empty\<rparr>,
     ho_global_keys = ([], [], [], []), ho_decode = (\<lambda>t. Inl (External ''json'')), ho_cbrt = (\<lambda>x. x),
     ho_Listen = (\<lambda>port. None), ho_world = clock0\<rparr>"

text \<open>Any implementation of the bus's calls will do here.\<close>

definition demo_menv :: "message_bus env" where
  "demo_menv = \<lparr>en_jwt = plain_jwt, en_crypt = plain_crypt,
     en_Publish = (\<lambda>c w ev bus. case ev of None \<Rightarrow> (Some (Sentinel ErrNilEvent), bus)
       | Some e \<Rightarrow> the (Traced_Publish \<lparr>sv_fmt = (\<lambda>x. []), sv_PublishMsg = (\<lambda>c m st. (None, st @ [m])), sv_connected = True\<rparr> c w (Some e) bus)),
     en_Replay = (\<lambda>c opts bus. (Inr [], bus)), en_Subscribe = (\<lambda>opts bus. (0, bus)), en_Ping = (\<lambda>c bus. None),
     en_order = (\<lambda>K. sorted_list_of_set K), en_sortCommands = (\<lambda>xs. xs), en_sortUsage = (\<lambda>xs. xs),
     en_FormatFloat = (\<lambda>x. []), en_DurationString = (\<lambda>d. [])\<rparr>"

lemma demo_host_ok: "host_ok demo_host"
  by (simp add: host_ok_def demo_host_def kg_inv_def well_db_def well_rels_def refs_ok_def scans_def kg_clock_ok_def clock0_def
      new_year_2026_def year_10000_def)

lemma demo_load: "\<exists>cfg. Load (ho_viper demo_host) path = Inr cfg \<and> cf_DataType (cf_Data cfg) = ''sqlite'' \<and>
    cf_BusType (cf_Bus cfg) = ''local'' \<and> \<not> cf_AuthEnabled (cf_Auth cfg)"
  by (simp add: demo_host_def demo_viper_def Load_def Unmarshal_def lookup_def defaults_def Let_def)

lemma demo_admin: "\<exists>ut. EnsureDefaultAdmin plain_crypt background clock0 (Some \<lparr>faults = [], users = []\<rparr>) = (None, ut)"
  by (simp add: EnsureDefaultAdmin_def User_List_def background_def next_fault_def consume_def
      HashPassword_def plain_crypt_def User_Create_def insert_user_row_def sql_insert_def user_row_of_def Let_def)

lemma demo_migrates:
  "\<exists>m db. Migrate (\<lambda>q s. Inr (s @ [q])) background w (NewMigrator [WithMigrations (DefaultMigrations ''create table usage'')])
     \<lparr>faults = [], md_schema = [], md_versions = None\<rparr> = ((None, m), db)"
  by (simp add: Migrate_def NewMigrator_def WithMigrations_def DefaultMigrations_def background_def appliedVersions_def
      sortMigrations_def apply_migration_def splitStatements_def trim_space_def is_space_def sql_insert_def Let_def
      consume_def next_fault_def version_rows_def)

lemma demo_starts: "\<exists>ru. start_server demo_menv demo_host path = Listening ru"
proof -
  obtain cfg where cfg: "Load (ho_viper demo_host) path = Inr cfg" "cf_DataType (cf_Data cfg) = ''sqlite''" "cf_BusType (cf_Bus cfg) = ''local''"
    using demo_load by blast
  obtain ut where ut: "EnsureDefaultAdmin plain_crypt background clock0 (Some \<lparr>faults = [], users = []\<rparr>) = (None, ut)"
    using demo_admin by blast
  obtain m db where mig: "Migrate (\<lambda>q s. Inr (s @ [q])) background (tick clock0)
      (NewMigrator [WithMigrations (DefaultMigrations ''create table usage'')]) \<lparr>faults = [], md_schema = [], md_versions = None\<rparr> = ((None, m), db)"
    using demo_migrates by blast
  have bus: "\<exists>bus. open_bus demo_host cfg NewSchemaRegistry = Inr bus"
    using cfg(3) by (simp add: open_bus_def demo_host_def NewSQLiteEventStore_def Let_def numeral_nat next_fault_def consume_def)
  then obtain bus where bus: "open_bus demo_host cfg NewSchemaRegistry = Inr bus" by blast
  have store: "open_store demo_host (cf_Data cfg) = Inr \<lparr>faults = [], nodes = [], rels = []\<rparr>"
    using cfg(2) by (simp add: open_store_def demo_host_def)
  have H: "ho_MkdirAll demo_host p = None" "ho_users demo_host = Inr \<lparr>faults = [], users = []\<rparr>"
    "ho_clients demo_host = Inr \<lparr>faults = [], clients = []\<rparr>" "ho_exec demo_host = (\<lambda>q s. Inr (s @ [q]))"
    "ho_usage_sql demo_host = ''create table usage''" "ho_schema demo_host = \<lparr>faults = [], md_schema = [], md_versions = None\<rparr>"
    "ho_world demo_host = clock0" "ho_Listen demo_host port = None" "en_crypt demo_menv = plain_crypt" for p port
    by (simp_all add: demo_host_def demo_menv_def)
  have "\<exists>ru. start_pipelines demo_menv demo_host cfg d bus NewSchemaRegistry ut ct sch w = Listening ru" for d ct sch w
    unfolding start_pipelines_def Let_def grpc_started H Tele_Start_def by simp
  then show ?thesis
    unfolding start_server_def Let_def cfg(1) sum.case H option.case store bus ut prod.case mig by simp
qed

text \<open>A program without open calls or subscriptions over NATS can be stopped, without a panic.\<close>

lemma started_stops:
  assumes "start_server E H path = Listening ru"
  shows "\<exists>p. proc_run E A (serving ru) [Signal, HttpDown, GrpcDown, TelemetryDown, CommandsDown, PluginsDown, BusDown] p \<and>
    ps_phase p = Returning"
proof -
  obtain cfg db bus ut ct schema w where S: "open_bus H cfg NewSchemaRegistry = Inr bus"
      "start_pipelines E H cfg db bus NewSchemaRegistry ut ct schema w = Listening ru"
    using started [OF assms] by metis
  let ?m = "builtin_plugins H (start_plugins H cfg)"
  obtain tele where tele: "Tele_Start None (snd (SetParser ''json'' (NewTelePipeline (Some (GetParser ?m)) bus w))) = Done (None, tele)"
      "ru_api ru = assemble E H cfg db bus NewSchemaRegistry ut ct ?m tele w"
    using started_pipelines [OF S(2)] by fastforce
  have frame: "tp_stopped (snd (SetParser n t)) = tp_stopped t" "tp_stopCh (snd (SetParser n t)) = tp_stopCh t"
      "tp_buffer (snd (SetParser n t)) = tp_buffer t" for n and t :: "message_bus tele"
    by (simp_all add: SetParser_def split: option.splits)
  have "\<not> tp_stopped tele" "\<not> tp_stopCh tele" "tp_buffer tele = NewBufferQueue defaultBufferSize"
    using tele(1) by (auto simp: Tele_Start_def Let_def frame NewTelePipeline_def split: if_splits)
  then obtain v t1 where stop: "Tele_Stop tele = Done (v, t1)"
    by (auto simp: Tele_Stop_def NewBufferQueue_def bq_Close_def)
  have "\<exists>c. ap_cmdPipeline (ru_api ru) = Some c" unfolding tele(2) by (simp add: assemble_defs)
  then obtain c where c: "ap_cmdPipeline (ru_api ru) = Some c" by blast
  have closes: "\<exists>b1. bus_closes bus b1"
  proof (cases bus)
    case (OverSQLite b)
    obtain v b1 where "LocalBus_Close SQL_Close b = (v, b1)" by fastforce
    then show ?thesis using closes_local OverSQLite by blast
  next
    case (OverNATS b)
    then have "nb_subs b = []" using S(1) by (auto simp: open_bus_def Let_def NewNATSBus_def split: if_splits sum.splits option.splits prod.splits)
    then show ?thesis using closes_nats [of b] OverNATS by auto
  qed
  then obtain b1 where b1: "bus_closes bus b1" by blast
  define a0 where "a0 = ru_api ru"
  define a1 where "a1 = SetTelemetryPipeline (Some t1) a0"
  define a2 where "a2 = SetCommandPipeline (Some (Pipeline_Stop c)) a1"
  define a3 where "a3 = SetPluginManager (Some (StopAll (RegisterAdapter ''mock'' () ?m))) a2"
  define a4 where "a4 = a3\<lparr>ap_bus := b1\<rparr>"
  have a0: "ap_pipeline a0 = Some tele" "ap_cmdPipeline a0 = Some c" "ap_plugins a0 = Some (RegisterAdapter ''mock'' () ?m)" "ap_bus a0 = bus"
    using c tele(2) by (simp_all add: a0_def assemble_defs)
  let ?g = "ru_grpc ru"
  let ?g1 = "?g\<lparr>gs_server := None, gs_listener := None\<rparr>"
  let ?p = "\<lambda>ph a. \<lparr>ps_phase = ph, ps_calls = 0, ps_grpc = ?g, ps_api = a\<rparr>"
  let ?q = "\<lambda>ph a. \<lparr>ps_phase = ph, ps_calls = 0, ps_grpc = ?g1, ps_api = a\<rparr>"
  have 1: "proc_step E A (serving ru) Signal (?p HttpShutdown a0)" using pr_signal [of "serving ru" E A] by (simp add: serving_def a0_def)
  have 2: "proc_step E A (?p HttpShutdown a0) HttpDown (?p GrpcStop a0)" using pr_http [of "?p HttpShutdown a0" E A] by simp
  have 3: "proc_step E A (?p GrpcStop a0) GrpcDown (?q TelemetryStop a0)"
    using pr_grpc [of "?p GrpcStop a0" ?g1 E A] started_grpc [OF assms] by (simp add: Server_Stop_def)
  have 4: "proc_step E A (?q TelemetryStop a0) TelemetryDown (?q CommandStop a1)"
    using pr_tele [of "?q TelemetryStop a0" tele v t1 E A] a0 stop by (simp add: a1_def)
  have 5: "proc_step E A (?q CommandStop a1) CommandsDown (?q PluginStop a2)"
    using pr_cmd [of "?q CommandStop a1" c E A] a0 by (simp add: a1_def a2_def SetTelemetryPipeline_def)
  have 6: "proc_step E A (?q PluginStop a2) PluginsDown (?q BusClose a3)"
    using pr_plugins [of "?q PluginStop a2" "RegisterAdapter ''mock'' () ?m" E A] a0
    by (simp add: a1_def a2_def a3_def SetTelemetryPipeline_def SetCommandPipeline_def)
  have 7: "proc_step E A (?q BusClose a3) BusDown (?q Returning a4)"
    using pr_bus [of "?q BusClose a3" b1 E A] a0 b1
    by (simp add: a1_def a2_def a3_def a4_def SetTelemetryPipeline_def SetCommandPipeline_def SetPluginManager_def)
  show ?thesis
    using prun_step [OF prun_step [OF prun_step [OF prun_step [OF prun_step [OF prun_step [OF prun_step [OF prun_empty 1] 2] 3] 4] 5] 6] 7]
    by force
qed


lemma program_is_guarded_witness:
  "\<exists>ru. start_server demo_menv demo_host ''config.yaml'' = Listening ru \<and> \<not> authEnabled (ru_api ru) \<and> gs_server (ru_grpc ru) = Some True"
proof -
  obtain ru where ru: "start_server demo_menv demo_host ''config.yaml'' = Listening ru" using demo_starts by blast
  obtain cfg where cfg: "Load (ho_viper demo_host) ''config.yaml'' = Inr cfg" "\<not> cf_AuthEnabled (cf_Auth cfg)"
    using demo_load by blast
  from program_is_guarded [OF ru cfg(1)] cfg(2) ru show ?thesis by blast
qed


end
