(* ===== verification/Spec2Isabelle.thy ===== *)
theory Spec2Isabelle
  imports KGService CommandPipeline AuthMiddleware PluginManager TelemetryPipeline TelemetryReceiver Migrator Usage
    RestProperties GrpcProperties DataMigration CliServer Wiring
begin

text \<open>
  A model of the core of OpenspaceOS, a Go service that keeps a knowledge graph of satellites
  and ground stations, distributes events about it, sends commands to spacecraft and takes in
  telemetry. Paths are relative to \<open>src/\<close>.

  \<^bold>\<open>The program.\<close> \<open>cmd/openspace-os-core\<close> wires the parts: SQL repositories (\<open>internal/core\<close>) hold
  nodes and relationships; the knowledge-graph service changes them and publishes an event per
  change; the bus validates events against \<open>pkg/event\<close> schemas, persists them in an event store
  and fans them out to subscribers; the command pipeline queues commands, sends them through
  adapters with retries and publishes their progress; the telemetry pipeline receives lines over
  TCP, parses them with a plugin and publishes frames; \<open>internal/auth\<close> guards the HTTP and gRPC
  front ends; \<open>internal/usage\<close> meters them; \<open>internal/storage\<close> migrates the schema.

  \<^bold>\<open>Conventions.\<close> A Go function is a definition of the same name (a prefix tells methods of
  different types apart). Errors are the datatype \<open>err\<close> of \<open>Prelude\<close>; a function returning
  \<open>(T, error)\<close> has a result in \<open>'a res\<close>, one returning \<open>error\<close> a \<open>verdict\<close>; sentinel errors keep
  their identity through wrapping (\<open>errors_Is\<close>). Error texts are translated. State is passed explicitly and returned
  changed. A SQL table is a list of row records with its key, and the driver may refuse any
  statement: \<open>faults\<close> lists what it will answer (\<open>SqlTables\<close>). The clock and the UUID source are
  the record \<open>world\<close>, arbitrary streams of values. Goroutines and channels are inductive step
  relations, interleaved at each access to shared state; Go \<open>int64\<close> arithmetic is written with its
  wrap-around where a result depends on it. A record holds the state of a struct; mutexes appear
  as the granularity of the steps.

  \<^bold>\<open>Theories and code.\<close>
  \<^item> \<open>Prelude\<close>, \<open>GoTime\<close>, \<open>GoJson\<close>, \<open>Float64\<close>: errors, contexts, strings, time and RFC 3339, JSON
    values, IEEE doubles: the standard library as far as the program uses it.
  \<^item> \<open>Model\<close> (\<open>pkg/model\<close>), \<open>Event\<close>, \<open>SchemaRegistry\<close> (\<open>pkg/event\<close>): the data and its validation.
  \<^item> \<open>SqlTables\<close>, \<open>NodeRepo\<close>, \<open>RelRepo\<close> (\<open>internal/core/*_repo_sqlite.go\<close>): the repositories;
    \<open>node_runs_refine_map\<close> shows that the node table implements a finite map, \<open>traverse_exact\<close> that
    \<open>Traverse\<close> computes the edges within \<open>MaxDepth\<close> hops.
  \<^item> \<open>EventStore\<close> (\<open>event_store_memory.go\<close>, \<open>event_store_sqlite.go\<close>): the two logs behind one
    locale of laws; exactness of queries and of the clean-up.
  \<^item> \<open>LocalBus\<close> (\<open>local_bus.go\<close>): its methods, and \<open>bus_step\<close>, the concurrent bus, with ordered
    delivery, persistence before dispatch, and the race of \<open>Close\<close> and \<open>Publish\<close>.
  \<^item> \<open>NatsBus\<close> (\<open>nats_bus.go\<close>): the bus over NATS JetStream, its methods and \<open>nats_step\<close>; exact
    delivery and replay, and the hazards of cancelling and closing.
  \<^item> \<open>KGService\<close> (\<open>kg_service.go\<close>): graph operations with their events and hooks, the integrity
    of the graph under every sequence of calls, atomic deletion.
  \<^item> \<open>CommandQueue\<close>, \<open>CommandScheduler\<close>, \<open>CommandPipeline\<close> (\<open>internal/pipeline/command\<close>): the
    priority queue, workers and retries, and \<open>pipe_step\<close>, their concurrent composition with
    cancellation, bounds and the termination of \<open>Stop\<close>.
  \<^item> \<open>UserStore\<close>, \<open>ClientStore\<close>, \<open>AuthService\<close>, \<open>AuthMiddleware\<close> (\<open>internal/auth\<close>): users,
    API clients, roles, tokens and the HTTP filters.
  \<^item> \<open>PluginManager\<close> (\<open>internal/plugin\<close>): manifests, registration, life cycle, hooks, broker.
  \<^item> \<open>TelemetryParsers\<close>, \<open>TelemetryPipeline\<close>, \<open>TelemetryReceiver\<close> (\<open>internal/pipeline/telemetry\<close>):
    the parsers, the bounded buffer, normalisation and ingestion, \<open>tele_step\<close> and \<open>rv_step\<close> for
    the goroutines.
  \<^item> \<open>Migrator\<close> (\<open>internal/storage\<close>): schema migrations, each in a transaction.
  \<^item> \<open>DataMigration\<close> (\<open>internal/core/migrate.go\<close>): the import of a SQLite graph into PostgreSQL; what
    failures leave behind, and that a repeated import completes.
  \<^item> \<open>Usage\<close> (\<open>internal/usage\<close>): the collector, its aggregation and store, the HTTP meter.
  \<^item> \<open>JsonBody\<close>: decoding of request bodies into structs and the JSON images of the structs.
  \<^item> \<open>ApiState\<close>: the services a front end holds (\<open>rest.Handler\<close>) and the form of HTTP answers; the
    bus, the clock and the plugin manager are shared, and lent to a component for a call.
  \<^item> \<open>RestHandlers\<close>, \<open>RestPipelines\<close>, \<open>RestAuth\<close> (\<open>internal/api/rest/handler.go\<close>,
    \<open>auth_handler.go\<close>): every handler, on decoded requests; \<open>RestRouter\<close> (\<open>router.go\<close>,
    \<open>swagger_ui.go\<close>, the stack in \<open>main\<close>): the table of routes with their filters.
  \<^item> \<open>RestProperties\<close>: what the filters let through, who can change the graph, its integrity
    under any run of requests, the form of the answers, and why no event stream opens.
  \<^item> \<open>GrpcMessages\<close>, \<open>GrpcService\<close> (\<open>internal/api/grpc\<close>): messages, conversions, methods and
    interceptors; \<open>GrpcProperties\<close>: agreement of the two front ends, the accounting of telemetry
    streams, and what authentication over gRPC leaves open.

  \<^item> \<open>Utf8\<close>, \<open>JsonDoc\<close>: sequences of UTF-8, the document of a value and the events that messages carry.
  \<^item> \<open>CliOutput\<close>, \<open>GoUrl\<close>, \<open>CliClient\<close> (\<open>cmd/openspace-os-cli\<close>): the tables, escaping as \<open>net/url\<close> does
    it, and every command over the state of the server behind its transport; \<open>CliServer\<close> joins
    client and REST front end: each command reaches its endpoint with its options, and what one
    command registers the next one shows.
  \<^item> \<open>TracedBus\<close> (\<open>internal/observability/bus_wrapper.go\<close>): the wrapper around either bus, its forwarding
    goroutine, what it drops and when it ends.
  \<^item> \<open>Config\<close> (\<open>internal/config\<close>): settings from file, environment and defaults.
  \<^item> \<open>Wiring\<close> (\<open>main.go\<close>): \<open>start_server\<close>, the start of the program with all its early returns, what it
    guards, the graph from the start on; \<open>proc_step\<close>, its shutdown.

  \<^bold>\<open>Interfaces.\<close> The locales state what a component relies on: the table laws, the event-log laws
  that the bus and the service need of a store, the extension points of the plugin manager. Each
  is interpreted on the definitions that model the code.

  \<^bold>\<open>Bounds and fuel.\<close> \<open>Traverse\<close> recurses on the remaining depth, as the code's loop does.
  Loops over the state of a channel recurse on its content. The unit in the last place of a
  double is searched over the exponent range \<open>-1074\<close> to \<open>971\<close>, whose lengths are the two fuels of
  \<open>ulp\<close>; the lemmas on \<open>ulp\<close> show that this covers every finite double. There is no other fuel:
  step relations have runs of every length.

  \<^bold>\<open>Parameters.\<close> bcrypt, the JWT library, the random source, the file system, the decoders of
  foreign formats, the cube root, the SQL engine's effect of a migration statement, command
  adapters and plugins are arguments of the definitions; what is relied on is a hypothesis of the
  theorem that needs it, with a witness.

  \<^bold>\<open>Not modelled.\<close> Logging, tracing spans and metrics export have no effect on the results. DDL
  and pragmas are modelled by the columns and keys they create. Path matching
  (\<open>chi\<close>), the HTTP transport, the transport of gRPC with its stubs and codec, and the bytes of JSON
  are outside: requests come decoded, and \<open>CliServer\<close> states what it relies on in chi as a
  hypothesis. So are cobra, which reads the flags of the command line, and the NATS server, whose
  answers are arguments. Viper's reading of the configuration file and its conversions are arguments too. A request
  that is still running when the ten seconds of the HTTP shutdown are over, the graph calls of gRPC during
  the shutdown and the lines that reach the telemetry listener meanwhile are not part of \<open>proc_step\<close>.
\<close>

end
